(* ===== verification/Warp_Prelude.thy ===== *)
theory Warp_Prelude
  imports Main "HOL-Library.Word"
begin

text \<open>
  Shared vocabulary of the development: machine integer types, results as sums
  (\<open>Inl\<close> an error, \<open>Inr\<close> a value), sequencing of fallible steps, folds that stop
  at the first error, and two interfaces stated as locales. \<open>checked_step\<close> is the
  contract of a fallible step that keeps an invariant and moves along a preorder;
  \<open>codec\<close> is the contract of an encoder with a decoder. The components
  interpret them on their own operations.
\<close>

unbundle bit_operations_syntax

type_synonym u8 = "8 word"
type_synonym u32 = "32 word"

named_theorems res_simps \<open>rewriting of fallible computations that return\<close>

section \<open>Fallible computations\<close>

text \<open>The \<open>?\<close> operator of the source: stop at an error, continue with a value.\<close>

definition rbind :: "'e + 'a \<Rightarrow> ('a \<Rightarrow> 'e + 'b) \<Rightarrow> 'e + 'b" where
  "rbind r f = (case r of Inl e \<Rightarrow> Inl e | Inr x \<Rightarrow> f x)"

lemma rbind_Inl [simp]: "rbind (Inl e) f = Inl e"
  by (simp add: rbind_def)

lemma rbind_Inr [simp]: "rbind (Inr x) f = f x"
  by (simp add: rbind_def)

lemma rbind_eq_Inr [res_simps]: "rbind r f = Inr y \<longleftrightarrow> (\<exists>x. r = Inr x \<and> f x = Inr y)"
  by (cases r) auto

lemma rbind_eq_Inl: "rbind r f = Inl e \<longleftrightarrow> r = Inl e \<or> (\<exists>x. r = Inr x \<and> f x = Inl e)"
  by (cases r) auto

lemma rbind_InrE:
  assumes "rbind r f = Inr y"
  obtains x where "r = Inr x" and "f x = Inr y"
  using assms by (auto simp: rbind_eq_Inr)

lemma rbind_cong [fundef_cong]:
  assumes "r = r'" and "\<And>x. r' = Inr x \<Longrightarrow> f x = f' x"
  shows "rbind r f = rbind r' f'"
  using assms by (cases r') auto

lemma rbind_assoc: "rbind (rbind r f) g = rbind r (\<lambda>x. rbind (f x) g)"
  by (cases r) auto

text \<open>\<open>ok_or_else\<close>: a missing value becomes an error.\<close>

definition ok_or :: "'a option \<Rightarrow> 'e \<Rightarrow> 'e + 'a" where
  "ok_or x e = (case x of None \<Rightarrow> Inl e | Some v \<Rightarrow> Inr v)"

lemma ok_or_None [simp]: "ok_or None e = Inl e"
  by (simp add: ok_or_def)

lemma ok_or_Some [simp]: "ok_or (Some v) e = Inr v"
  by (simp add: ok_or_def)

lemma ok_or_eq_Inr [res_simps]: "ok_or x e = Inr v \<longleftrightarrow> x = Some v"
  by (cases x) auto

text \<open>A loop whose body may return early with an error: first over a list of results,
  then threading a state.\<close>

fun map_res :: "('a \<Rightarrow> 'e + 'b) \<Rightarrow> 'a list \<Rightarrow> 'e + 'b list" where
  "map_res f [] = Inr []"
| "map_res f (x # xs) = rbind (f x) (\<lambda>y. rbind (map_res f xs) (\<lambda>ys. Inr (y # ys)))"

fun fold_res :: "('s \<Rightarrow> 'a \<Rightarrow> 'e + 's) \<Rightarrow> 's \<Rightarrow> 'a list \<Rightarrow> 'e + 's" where
  "fold_res f s [] = Inr s"
| "fold_res f s (x # xs) = rbind (f s x) (\<lambda>s'. fold_res f s' xs)"

lemma fold_res_append: "fold_res f s (xs @ ys) = rbind (fold_res f s xs) (\<lambda>s'. fold_res f s' ys)"
  by (induction xs arbitrary: s) (simp_all add: rbind_assoc)

lemma map_res_all_Inr: "(\<And>x. x \<in> set xs \<Longrightarrow> f x = Inr (g x)) \<Longrightarrow> map_res f xs = Inr (map g xs)"
  by (induction xs) auto

lemma map_res_Inr_length: "map_res f xs = Inr ys \<Longrightarrow> length ys = length xs"
  by (induction xs arbitrary: ys) (auto simp: res_simps)

lemma map_res_Inr_nth:
  "map_res f xs = Inr ys \<Longrightarrow> i < length xs \<Longrightarrow> f (xs ! i) = Inr (ys ! i)"
  by (induction xs arbitrary: ys i) (auto simp: res_simps nth_Cons split: nat.splits)

section \<open>Steps that keep an invariant\<close>

text \<open>
  The contract of a fallible step: where it returns, it keeps the invariant and the new
  state is above the old one in a preorder (a pool that only grows, code that is only
  appended to). The fold over any number of steps inherits both.
\<close>

locale checked_step =
  fixes step :: "'s \<Rightarrow> 'a \<Rightarrow> 'e + 's"
    and inv :: "'s \<Rightarrow> bool"
    and ext :: "'s \<Rightarrow> 's \<Rightarrow> bool"
  assumes ext_refl: "ext s s"
    and ext_trans: "ext s t \<Longrightarrow> ext t u \<Longrightarrow> ext s u"
    and step_inv: "inv s \<Longrightarrow> step s x = Inr s' \<Longrightarrow> inv s'"
    and step_ext: "inv s \<Longrightarrow> step s x = Inr s' \<Longrightarrow> ext s s'"
begin

lemma fold_inv: "inv s \<Longrightarrow> fold_res step s xs = Inr s' \<Longrightarrow> inv s'"
  by (induction xs arbitrary: s) (auto simp: res_simps dest: step_inv)

lemma fold_ext: "inv s \<Longrightarrow> fold_res step s xs = Inr s' \<Longrightarrow> ext s s'"
proof (induction xs arbitrary: s)
  case Nil
  then show ?case by (simp add: ext_refl)
next
  case (Cons x xs)
  then obtain t where t: "step s x = Inr t" "fold_res step t xs = Inr s'"
    by (auto simp: res_simps)
  then have "inv t" and "ext s t"
    using Cons.prems(1) by (auto intro: step_inv step_ext)
  with Cons.IH t(2) show ?case by (blast intro: ext_trans)
qed

end

section \<open>Encoders with decoders\<close>

text \<open>
  The contract of an encoder: decoding an encoded value gives it back and leaves what
  follows untouched. Encodings of values are then injective and prefix-free, and a
  sequence of encodings decodes to the sequence.
\<close>

locale codec =
  fixes enc :: "'a \<Rightarrow> 'b list"
    and dec :: "'b list \<Rightarrow> 'e + 'a \<times> 'b list"
    and ok :: "'a \<Rightarrow> bool"
  assumes dec_enc: "ok x \<Longrightarrow> dec (enc x @ rest) = Inr (x, rest)"
begin

lemma enc_inject:
  assumes "ok x" and "ok y"
  shows "enc x @ r = enc y @ r' \<longleftrightarrow> x = y \<and> r = r'"
proof
  assume eq: "enc x @ r = enc y @ r'"
  have "Inr (x, r) = dec (enc x @ r)" by (rule dec_enc [OF assms(1), symmetric])
  also have "\<dots> = dec (enc y @ r')" by (simp only: eq)
  also have "\<dots> = Inr (y, r')" by (rule dec_enc [OF assms(2)])
  finally show "x = y \<and> r = r'" by simp
qed simp

lemma inj_on_enc: "inj_on enc {x. ok x}"
proof (rule inj_onI)
  fix x y
  assume "x \<in> {x. ok x}" and "y \<in> {x. ok x}" and "enc x = enc y"
  then show "x = y" using enc_inject [of x y "[]" "[]"] by simp
qed

lemma concat_enc_inject:
  "length xs = length ys \<Longrightarrow> \<forall>x\<in>set xs. ok x \<Longrightarrow> \<forall>y\<in>set ys. ok y \<Longrightarrow>
   concat (map enc xs) = concat (map enc ys) \<Longrightarrow> xs = ys"
  by (induction xs ys rule: list_induct2) (auto simp: enc_inject)

end

section \<open>Lists\<close>

lemma list_update_nth_eq: "i < length xs \<Longrightarrow> (xs[i := v]) ! i = v"
  by simp

lemma drop_take_append: "length xs = n \<Longrightarrow> take m (drop n (xs @ ys)) = take m ys"
  by simp

lemma takeWhile_append_stop:
  "\<forall>x\<in>set xs. P x \<Longrightarrow> \<not> P y \<Longrightarrow> takeWhile P (xs @ y # ys) = xs"
  by (induction xs) auto

lemma dropWhile_append_stop:
  "\<forall>x\<in>set xs. P x \<Longrightarrow> \<not> P y \<Longrightarrow> dropWhile P (xs @ y # ys) = y # ys"
  by (induction xs) auto

end
