(* ===== verification/Rust_Text.thy ===== *)
theory Rust_Text
  imports Warp_Prelude
begin

text \<open>
  The string operations of Rust's standard library that the tools use. A \<open>str\<close> is
  modelled by its UTF-8 bytes, one \<open>char\<close> of HOL per byte, so that byte offsets, slices
  and lengths are those of the source. Operations that the source states over Unicode
  scalar values but that only ask about ASCII values (\<open>strip_prefix\<close>, \<open>split(',')\<close>,
  \<open>is_ascii_digit\<close>) agree with their byte versions, because no byte of a multi-byte
  sequence is ASCII; white space is recognised with its multi-byte members.
\<close>

section \<open>Characters\<close>

abbreviation code_of :: "char \<Rightarrow> int" where
  "code_of c \<equiv> of_char c"

definition is_ascii :: "char \<Rightarrow> bool" where
  "is_ascii c \<longleftrightarrow> code_of c < 128"

definition is_ascii_digit :: "char \<Rightarrow> bool" where
  "is_ascii_digit c \<longleftrightarrow> 48 \<le> code_of c \<and> code_of c \<le> 57"

definition is_ascii_upper :: "char \<Rightarrow> bool" where
  "is_ascii_upper c \<longleftrightarrow> 65 \<le> code_of c \<and> code_of c \<le> 90"

definition is_ascii_lower :: "char \<Rightarrow> bool" where
  "is_ascii_lower c \<longleftrightarrow> 97 \<le> code_of c \<and> code_of c \<le> 122"

definition is_ascii_alphabetic :: "char \<Rightarrow> bool" where
  "is_ascii_alphabetic c \<longleftrightarrow> is_ascii_upper c \<or> is_ascii_lower c"

definition is_ascii_alphanumeric :: "char \<Rightarrow> bool" where
  "is_ascii_alphanumeric c \<longleftrightarrow> is_ascii_alphabetic c \<or> is_ascii_digit c"

definition to_ascii_upper :: "char \<Rightarrow> char" where
  "to_ascii_upper c = (if is_ascii_lower c then char_of (code_of c - 32) else c)"

definition to_ascii_uppercase :: "string \<Rightarrow> string" where
  "to_ascii_uppercase s = map to_ascii_upper s"

lemmas ascii_class_defs =
  is_ascii_def is_ascii_digit_def is_ascii_upper_def is_ascii_lower_def
  is_ascii_alphabetic_def is_ascii_alphanumeric_def

text \<open>A byte that continues a multi-byte sequence; a slice may not begin at one.\<close>

definition is_continuation :: "char \<Rightarrow> bool" where
  "is_continuation c \<longleftrightarrow> 128 \<le> code_of c \<and> code_of c < 192"

section \<open>White space\<close>

text \<open>
  \<open>char::is_whitespace\<close>: U+0009 to U+000D, U+0020, U+0085, U+00A0, U+1680,
  U+2000 to U+200A, U+2028, U+2029, U+202F, U+205F and U+3000. \<open>ws_len s\<close> is the
  number of bytes of the white space character \<open>s\<close> begins with, 0 if it begins with
  none; \<open>ws_len_end\<close> reads the last character of a string that is given reversed.
\<close>

definition is_ascii_ws :: "char \<Rightarrow> bool" where
  "is_ascii_ws c \<longleftrightarrow> (9 \<le> code_of c \<and> code_of c \<le> 13) \<or> code_of c = 32"

definition ws2 :: "char \<Rightarrow> char \<Rightarrow> bool" where
  "ws2 a b \<longleftrightarrow> code_of a = 0xC2 \<and> (code_of b = 0x85 \<or> code_of b = 0xA0)"

definition ws3 :: "char \<Rightarrow> char \<Rightarrow> char \<Rightarrow> bool" where
  "ws3 a b c \<longleftrightarrow>
     (code_of a = 0xE1 \<and> code_of b = 0x9A \<and> code_of c = 0x80)
   \<or> (code_of a = 0xE2 \<and> code_of b = 0x80 \<and>
        ((0x80 \<le> code_of c \<and> code_of c \<le> 0x8A) \<or> code_of c = 0xA8 \<or> code_of c = 0xA9
         \<or> code_of c = 0xAF))
   \<or> (code_of a = 0xE2 \<and> code_of b = 0x81 \<and> code_of c = 0x9F)
   \<or> (code_of a = 0xE3 \<and> code_of b = 0x80 \<and> code_of c = 0x80)"

fun ws_len :: "string \<Rightarrow> nat" where
  "ws_len [] = 0"
| "ws_len (a # s) =
     (if is_ascii_ws a then 1
      else case s of
        [] \<Rightarrow> 0
      | b # s' \<Rightarrow> (if ws2 a b then 2
                  else case s' of [] \<Rightarrow> 0 | c # _ \<Rightarrow> (if ws3 a b c then 3 else 0)))"

fun ws_len_end :: "string \<Rightarrow> nat" where
  "ws_len_end [] = 0"
| "ws_len_end (c # s) =
     (if is_ascii_ws c then 1
      else case s of
        [] \<Rightarrow> 0
      | b # s' \<Rightarrow> (if ws2 b c then 2
                  else case s' of [] \<Rightarrow> 0 | a # _ \<Rightarrow> (if ws3 a b c then 3 else 0)))"

lemma ws_len_ascii [simp]: "is_ascii a \<Longrightarrow> ws_len (a # s) = (if is_ascii_ws a then 1 else 0)"
  by (auto simp: is_ascii_def ws2_def ws3_def split: list.splits)

lemma ws_len_end_ascii [simp]:
  "is_ascii a \<Longrightarrow> ws_len_end (a # s) = (if is_ascii_ws a then 1 else 0)"
  by (auto simp: is_ascii_def ws2_def ws3_def split: list.splits)

declare ws_len.simps(2) [simp del] ws_len_end.simps(2) [simp del]

function trim_start :: "string \<Rightarrow> string" where
  "trim_start s = (if ws_len s = 0 then s else trim_start (drop (ws_len s) s))"
  by pat_completeness auto
termination
proof (relation "measure length")
  fix s :: string
  assume "ws_len s \<noteq> 0"
  then show "(drop (ws_len s) s, s) \<in> measure length"
    by (cases s) auto
qed simp

function trim_end_rev :: "string \<Rightarrow> string" where
  "trim_end_rev r = (if ws_len_end r = 0 then r else trim_end_rev (drop (ws_len_end r) r))"
  by pat_completeness auto
termination
proof (relation "measure length")
  fix r :: string
  assume "ws_len_end r \<noteq> 0"
  then show "(drop (ws_len_end r) r, r) \<in> measure length"
    by (cases r) auto
qed simp

declare trim_start.simps [simp del] trim_end_rev.simps [simp del]

definition trim_end :: "string \<Rightarrow> string" where
  "trim_end s = rev (trim_end_rev (rev s))"

definition trim :: "string \<Rightarrow> string" where
  "trim s = trim_end (trim_start s)"

text \<open>\<open>split_whitespace\<close>: the maximal runs without white space, with the run being read
  kept reversed.\<close>

function split_ws :: "string \<Rightarrow> string \<Rightarrow> string list" where
  "split_ws acc s =
     (if s = [] then (if acc = [] then [] else [rev acc])
      else if ws_len s = 0 then split_ws (hd s # acc) (tl s)
      else (if acc = [] then [] else [rev acc]) @ split_ws [] (drop (ws_len s) s))"
  by pat_completeness auto
termination
  by (relation "measure (\<lambda>(acc, s). length s)") auto

declare split_ws.simps [simp del]

definition split_whitespace :: "string \<Rightarrow> string list" where
  "split_whitespace s = split_ws [] s"

section \<open>Prefixes, suffixes, splitting\<close>

definition strip_prefix_char :: "char \<Rightarrow> string \<Rightarrow> string option" where
  "strip_prefix_char c s =
     (case s of [] \<Rightarrow> None | x # xs \<Rightarrow> if x = c then Some xs else None)"

definition strip_prefix :: "string \<Rightarrow> string \<Rightarrow> string option" where
  "strip_prefix p s = (if take (length p) s = p then Some (drop (length p) s) else None)"

definition strip_suffix_char :: "char \<Rightarrow> string \<Rightarrow> string option" where
  "strip_suffix_char c s = (if s \<noteq> [] \<and> last s = c then Some (butlast s) else None)"

text \<open>\<open>a.or_else(b)\<close> on options.\<close>

definition or_else :: "'a option \<Rightarrow> 'a option \<Rightarrow> 'a option" where
  "or_else a b = (case a of None \<Rightarrow> b | Some x \<Rightarrow> Some x)"

text \<open>The text before the first occurrence of a byte, all of it if there is none
  (\<open>match raw.find(c) { Some(i) => &raw[..i], None => raw }\<close>).\<close>

definition before_char :: "char \<Rightarrow> string \<Rightarrow> string" where
  "before_char c s = takeWhile (\<lambda>x. x \<noteq> c) s"

text \<open>\<open>str::split\<close> on one ASCII character: always at least one part.\<close>

fun split_on :: "char \<Rightarrow> string \<Rightarrow> string list" where
  "split_on c [] = [[]]"
| "split_on c (x # xs) =
     (if x = c then [] # split_on c xs
      else case split_on c xs of [] \<Rightarrow> [[x]] | y # ys \<Rightarrow> (x # y) # ys)"

text \<open>\<open>split_inclusive('\n')\<close> and \<open>lines()\<close>, which drops one line feed and then one
  carriage return from each piece that ends with a line feed.\<close>

definition newline :: char where
  "newline = CHR 0x0A"

definition carriage_return :: char where
  "carriage_return = CHR 0x0D"

fun split_inclusive :: "char \<Rightarrow> string \<Rightarrow> string list" where
  "split_inclusive c [] = []"
| "split_inclusive c (x # xs) =
     (if x = c then [x] # split_inclusive c xs
      else case split_inclusive c xs of [] \<Rightarrow> [[x]] | y # ys \<Rightarrow> (x # y) # ys)"

definition chomp_line :: "string \<Rightarrow> string" where
  "chomp_line l =
     (case strip_suffix_char newline l of
        None \<Rightarrow> l
      | Some l' \<Rightarrow> (case strip_suffix_char carriage_return l' of None \<Rightarrow> l' | Some l'' \<Rightarrow> l''))"

definition lines :: "string \<Rightarrow> string list" where
  "lines s = map chomp_line (split_inclusive newline s)"

fun join :: "string \<Rightarrow> string list \<Rightarrow> string" where
  "join sep [] = []"
| "join sep [x] = x"
| "join sep (x # y # xs) = x @ sep @ join sep (y # xs)"

section \<open>Numbers in text\<close>

text \<open>\<open>char::to_digit\<close> and \<open>from_str_radix\<close>. The source's checked accumulation fails
  exactly when the value of all digits is out of range or some digit is bad, so the value
  is computed unbounded and compared once.\<close>

definition to_digit :: "int \<Rightarrow> char \<Rightarrow> int option" where
  "to_digit radix c =
     (let n = code_of c;
          d = (if 48 \<le> n \<and> n \<le> 57 then n - 48
               else if 97 \<le> n \<and> n \<le> 122 then n - 87
               else if 65 \<le> n \<and> n \<le> 90 then n - 55
               else 36)
      in if d < radix then Some d else None)"

fun digits_val :: "int \<Rightarrow> int \<Rightarrow> string \<Rightarrow> int option" where
  "digits_val radix acc [] = Some acc"
| "digits_val radix acc (c # cs) =
     (case to_digit radix c of
        None \<Rightarrow> None
      | Some d \<Rightarrow> digits_val radix (acc * radix + d) cs)"

text \<open>An unsigned type of \<open>bits\<close> bits: one leading plus sign is allowed.\<close>

definition parse_unsigned :: "nat \<Rightarrow> int \<Rightarrow> string \<Rightarrow> int option" where
  "parse_unsigned bits radix s =
     (let digits = (case s of c # cs \<Rightarrow> if c = CHR ''+'' then cs else s | [] \<Rightarrow> [])
      in if digits = [] then None
         else case digits_val radix 0 digits of
                None \<Rightarrow> None
              | Some v \<Rightarrow> if v < 2 ^ bits then Some v else None)"

text \<open>A signed type of \<open>bits\<close> bits: one leading sign is allowed.\<close>

definition parse_signed :: "nat \<Rightarrow> int \<Rightarrow> string \<Rightarrow> int option" where
  "parse_signed bits radix s =
     (let neg = (case s of c # _ \<Rightarrow> c = CHR ''-'' | [] \<Rightarrow> False);
          digits = (case s of c # cs \<Rightarrow> if c = CHR ''-'' \<or> c = CHR ''+'' then cs else s | [] \<Rightarrow> [])
      in if digits = [] then None
         else case digits_val radix 0 digits of
                None \<Rightarrow> None
              | Some v \<Rightarrow>
                  (let i = (if neg then - v else v)
                   in if - (2 ^ (bits - 1)) \<le> i \<and> i < 2 ^ (bits - 1) then Some i else None))"

text \<open>The \<open>Display\<close> and \<open>LowerHex\<close> texts of numbers. \<open>radix_str b n\<close> is the text of a
  non-negative \<open>n\<close> in base \<open>b\<close>.\<close>

definition digit_char :: "int \<Rightarrow> char" where
  "digit_char d = (if d < 10 then char_of (48 + d) else char_of (87 + d))"

function radix_str :: "int \<Rightarrow> int \<Rightarrow> string" where
  "radix_str b n =
     (if n < b \<or> b < 2 then [digit_char n] else radix_str b (n div b) @ [digit_char (n mod b)])"
  by pat_completeness auto
termination
proof (relation "measure (\<lambda>(b, n). nat n)")
  fix b n :: int
  assume "\<not> (n < b \<or> b < 2)"
  then have "0 \<le> n div b" and "n div b < n"
    by (auto simp: pos_imp_zdiv_nonneg_iff int_div_less_self)
  then show "((b, n div b), (b, n)) \<in> measure (\<lambda>(b, n). nat n)"
    by simp
qed simp

declare radix_str.simps [simp del]

definition int_str :: "int \<Rightarrow> string" where
  "int_str i = (if i < 0 then CHR ''-'' # radix_str 10 (- i) else radix_str 10 i)"

definition nat_str :: "nat \<Rightarrow> string" where
  "nat_str n = int_str (int n)"

text \<open>An unsigned word, in decimal and in zero-padded hexadecimal.\<close>

definition word_str :: "u32 \<Rightarrow> string" where
  "word_str w = int_str (uint w)"

definition hex_padded :: "nat \<Rightarrow> int \<Rightarrow> string" where
  "hex_padded width n =
     (let s = radix_str 16 n in replicate (width - length s) CHR ''0'' @ s)"

definition quoted :: "string \<Rightarrow> string" where
  "quoted s = [CHR 0x27] @ s @ [CHR 0x27]"

end
