(* ===== verification/Isa.thy ===== *)
theory Isa
  imports Rust_Text
begin

text \<open>
  The instruction encoding (\<open>tools/warpvm-asm/src/isa.rs\<close>): the field layout and the
  opcode numbers, the two encoders \<open>enc_r\<close> and \<open>enc_i\<close>, the decoder, and the text of a
  guard field. The lemmas give the layout algebra: the decoder reads back what an encoder
  packed, every word is the encoding of its own fields, and 13-bit immediates survive the
  trip through the \<open>lo\<close> field.
\<close>

unbundle bit_operations_syntax

named_theorems isa_defs \<open>layout constants\<close>
named_theorems op_defs \<open>opcode numbers\<close>

section \<open>Constants\<close>

definition LANES :: nat where [isa_defs]: "LANES = 32"
definition MAX_CODE_WORDS :: nat where [isa_defs]: "MAX_CODE_WORDS = 4096"
definition MAX_LITERALS :: nat where [isa_defs]: "MAX_LITERALS = 256"
definition OPCODE_SHIFT :: nat where [isa_defs]: "OPCODE_SHIFT = 25"
definition GUARD_SHIFT :: nat where [isa_defs]: "GUARD_SHIFT = 21"
definition RD_SHIFT :: nat where [isa_defs]: "RD_SHIFT = 17"
definition RS1_SHIFT :: nat where [isa_defs]: "RS1_SHIFT = 13"
definition REG_FIELD_MASK :: u32 where [isa_defs]: "REG_FIELD_MASK = 0xF"
definition LO_MASK :: u32 where [isa_defs]: "LO_MASK = 0x1FFF"
definition IMM_MIN :: int where [isa_defs]: "IMM_MIN = - 4096"
definition IMM_MAX :: int where [isa_defs]: "IMM_MAX = 4095"
definition OP_NOP :: u32 where [op_defs]: "OP_NOP = 0x00"
definition OP_MOV :: u32 where [op_defs]: "OP_MOV = 0x01"
definition OP_ADD :: u32 where [op_defs]: "OP_ADD = 0x02"
definition OP_SUB :: u32 where [op_defs]: "OP_SUB = 0x03"
definition OP_MUL :: u32 where [op_defs]: "OP_MUL = 0x04"
definition OP_DIV :: u32 where [op_defs]: "OP_DIV = 0x05"
definition OP_MOD :: u32 where [op_defs]: "OP_MOD = 0x06"
definition OP_MIN :: u32 where [op_defs]: "OP_MIN = 0x07"
definition OP_MAX :: u32 where [op_defs]: "OP_MAX = 0x08"
definition OP_AND :: u32 where [op_defs]: "OP_AND = 0x09"
definition OP_OR :: u32 where [op_defs]: "OP_OR = 0x0A"
definition OP_XOR :: u32 where [op_defs]: "OP_XOR = 0x0B"
definition OP_SHL :: u32 where [op_defs]: "OP_SHL = 0x0C"
definition OP_SHR :: u32 where [op_defs]: "OP_SHR = 0x0D"
definition OP_MOV_I :: u32 where [op_defs]: "OP_MOV_I = 0x10"
definition OP_ADD_I :: u32 where [op_defs]: "OP_ADD_I = 0x11"
definition OP_SUB_I :: u32 where [op_defs]: "OP_SUB_I = 0x12"
definition OP_MUL_I :: u32 where [op_defs]: "OP_MUL_I = 0x13"
definition OP_AND_I :: u32 where [op_defs]: "OP_AND_I = 0x14"
definition OP_OR_I :: u32 where [op_defs]: "OP_OR_I = 0x15"
definition OP_XOR_I :: u32 where [op_defs]: "OP_XOR_I = 0x16"
definition OP_SHL_I :: u32 where [op_defs]: "OP_SHL_I = 0x17"
definition OP_SHR_I :: u32 where [op_defs]: "OP_SHR_I = 0x18"
definition OP_LDW :: u32 where [op_defs]: "OP_LDW = 0x19"
definition OP_S_BCAST :: u32 where [op_defs]: "OP_S_BCAST = 0x1A"
definition OP_S_GET :: u32 where [op_defs]: "OP_S_GET = 0x1B"
definition OP_ABS :: u32 where [op_defs]: "OP_ABS = 0x20"
definition OP_NEG :: u32 where [op_defs]: "OP_NEG = 0x21"
definition OP_NOT :: u32 where [op_defs]: "OP_NOT = 0x22"
definition OP_CMP_EQ :: u32 where [op_defs]: "OP_CMP_EQ = 0x28"
definition OP_CMP_NE :: u32 where [op_defs]: "OP_CMP_NE = 0x29"
definition OP_CMP_LT :: u32 where [op_defs]: "OP_CMP_LT = 0x2A"
definition OP_CMP_LE :: u32 where [op_defs]: "OP_CMP_LE = 0x2B"
definition OP_CMP_GT :: u32 where [op_defs]: "OP_CMP_GT = 0x2C"
definition OP_CMP_GE :: u32 where [op_defs]: "OP_CMP_GE = 0x2D"
definition OP_CMP_EQ_I :: u32 where [op_defs]: "OP_CMP_EQ_I = 0x30"
definition OP_CMP_NE_I :: u32 where [op_defs]: "OP_CMP_NE_I = 0x31"
definition OP_CMP_LT_I :: u32 where [op_defs]: "OP_CMP_LT_I = 0x32"
definition OP_CMP_LE_I :: u32 where [op_defs]: "OP_CMP_LE_I = 0x33"
definition OP_CMP_GT_I :: u32 where [op_defs]: "OP_CMP_GT_I = 0x34"
definition OP_CMP_GE_I :: u32 where [op_defs]: "OP_CMP_GE_I = 0x35"
definition OP_NOTMASK :: u32 where [op_defs]: "OP_NOTMASK = 0x38"
definition OP_ANDMASK :: u32 where [op_defs]: "OP_ANDMASK = 0x39"
definition OP_ORMASK :: u32 where [op_defs]: "OP_ORMASK = 0x3A"
definition OP_BALLOT :: u32 where [op_defs]: "OP_BALLOT = 0x3B"
definition OP_ANY :: u32 where [op_defs]: "OP_ANY = 0x3C"
definition OP_ALL :: u32 where [op_defs]: "OP_ALL = 0x3D"
definition OP_LANEID :: u32 where [op_defs]: "OP_LANEID = 0x40"
definition OP_BROADCAST :: u32 where [op_defs]: "OP_BROADCAST = 0x41"
definition OP_SHUFFLE :: u32 where [op_defs]: "OP_SHUFFLE = 0x42"
definition OP_SHUFFLE_XOR :: u32 where [op_defs]: "OP_SHUFFLE_XOR = 0x43"
definition OP_REDUCE_ADD :: u32 where [op_defs]: "OP_REDUCE_ADD = 0x44"
definition OP_REDUCE_MIN :: u32 where [op_defs]: "OP_REDUCE_MIN = 0x45"
definition OP_REDUCE_MAX :: u32 where [op_defs]: "OP_REDUCE_MAX = 0x46"
definition OP_REDUCE_AND :: u32 where [op_defs]: "OP_REDUCE_AND = 0x47"
definition OP_REDUCE_OR :: u32 where [op_defs]: "OP_REDUCE_OR = 0x48"
definition OP_REDUCE_XOR :: u32 where [op_defs]: "OP_REDUCE_XOR = 0x49"
definition OP_VMID :: u32 where [op_defs]: "OP_VMID = 0x4A"
definition OP_CLOCK :: u32 where [op_defs]: "OP_CLOCK = 0x4B"
definition OP_RAND :: u32 where [op_defs]: "OP_RAND = 0x4C"
definition OP_LOAD :: u32 where [op_defs]: "OP_LOAD = 0x50"
definition OP_STORE :: u32 where [op_defs]: "OP_STORE = 0x51"
definition OP_LOG :: u32 where [op_defs]: "OP_LOG = 0x58"
definition OP_LOG_I :: u32 where [op_defs]: "OP_LOG_I = 0x59"
definition OP_FLIP :: u32 where [op_defs]: "OP_FLIP = 0x5A"
definition OP_SEND :: u32 where [op_defs]: "OP_SEND = 0x60"
definition OP_TRY_RECV :: u32 where [op_defs]: "OP_TRY_RECV = 0x61"
definition RAM_SIZE_WORDS :: int where [isa_defs]: "RAM_SIZE_WORDS = 65536"
definition VIDEO_BASE :: int where [isa_defs]: "VIDEO_BASE = 0x00100000"
definition VIDEO_WIDTH :: int where [isa_defs]: "VIDEO_WIDTH = 128"
definition VIDEO_HEIGHT :: int where [isa_defs]: "VIDEO_HEIGHT = 128"
definition VIDEO_WORDS :: int where [isa_defs]: "VIDEO_WORDS = 16384"
definition OP_JMP :: u32 where [op_defs]: "OP_JMP = 0x70"
definition OP_JMP_IF_ANY :: u32 where [op_defs]: "OP_JMP_IF_ANY = 0x71"
definition OP_JMP_IF_ALL :: u32 where [op_defs]: "OP_JMP_IF_ALL = 0x72"
definition OP_CALL :: u32 where [op_defs]: "OP_CALL = 0x73"
definition OP_RET :: u32 where [op_defs]: "OP_RET = 0x74"
definition OP_HALT :: u32 where [op_defs]: "OP_HALT = 0x75"
definition OP_YIELD :: u32 where [op_defs]: "OP_YIELD = 0x76"
definition OP_STEP_TRAP :: u32 where [op_defs]: "OP_STEP_TRAP = 0x77"
definition OP_S_MOV :: u32 where [op_defs]: "OP_S_MOV = 0x78"
definition OP_S_MOV_I :: u32 where [op_defs]: "OP_S_MOV_I = 0x79"
definition OP_S_ADD :: u32 where [op_defs]: "OP_S_ADD = 0x7A"
definition OP_S_ADD_I :: u32 where [op_defs]: "OP_S_ADD_I = 0x7B"
definition OP_S_LDW :: u32 where [op_defs]: "OP_S_LDW = 0x7C"
definition OP_S_CMP_LT :: u32 where [op_defs]: "OP_S_CMP_LT = 0x7D"
definition OP_S_CMP_LT_I :: u32 where [op_defs]: "OP_S_CMP_LT_I = 0x7E"

section \<open>Encoding and decoding\<close>

definition enc_r :: "u32 \<Rightarrow> u32 \<Rightarrow> u32 \<Rightarrow> u32 \<Rightarrow> u32 \<Rightarrow> u32" where
  "enc_r op guard rd rs1 rs2 =
     push_bit OPCODE_SHIFT op
     OR push_bit GUARD_SHIFT guard
     OR push_bit RD_SHIFT rd
     OR push_bit RS1_SHIFT rs1
     OR (rs2 AND REG_FIELD_MASK)"

text \<open>The immediate is an \<open>i32\<close> of the source; \<open>imm as u32\<close> is its two's complement word.\<close>

definition enc_i :: "u32 \<Rightarrow> u32 \<Rightarrow> u32 \<Rightarrow> u32 \<Rightarrow> int \<Rightarrow> u32" where
  "enc_i op guard rd rs1 imm =
     push_bit OPCODE_SHIFT op
     OR push_bit GUARD_SHIFT guard
     OR push_bit RD_SHIFT rd
     OR push_bit RS1_SHIFT rs1
     OR (word_of_int imm AND LO_MASK)"

record decoded =
  d_op :: u32
  d_guard :: u32
  d_rd :: u32
  d_rs1 :: u32
  d_lo :: u32

definition d_rs2 :: "decoded \<Rightarrow> u32" where
  "d_rs2 d = d_lo d AND REG_FIELD_MASK"

definition sign_ext13 :: "u32 \<Rightarrow> int" where
  "sign_ext13 lo = (if lo AND 0x1000 \<noteq> 0 then sint (lo OR 0xFFFFE000) else sint lo)"

definition d_imm :: "decoded \<Rightarrow> int" where
  "d_imm d = sign_ext13 (d_lo d)"

definition decode :: "u32 \<Rightarrow> decoded" where
  "decode word =
     \<lparr>d_op = drop_bit OPCODE_SHIFT word AND 0x7F,
      d_guard = drop_bit GUARD_SHIFT word AND 0xF,
      d_rd = drop_bit RD_SHIFT word AND REG_FIELD_MASK,
      d_rs1 = drop_bit RS1_SHIFT word AND REG_FIELD_MASK,
      d_lo = word AND LO_MASK\<rparr>"

definition guard_text :: "u32 \<Rightarrow> string" where
  "guard_text guard =
     (if guard = 0 then []
      else if 1 \<le> guard \<and> guard \<le> 4 then ''@p'' @ word_str (guard - 1)
      else if 5 \<le> guard \<and> guard \<le> 8 then ''@!p'' @ word_str (guard - 5)
      else ''@?<'' @ word_str guard @ ''>'')"

section \<open>The layout algebra\<close>

text \<open>Field bounds are used as fixed points of \<open>take_bit\<close>.\<close>

lemma word_lt_take_bit: "(w::u32) < 2 ^ k \<Longrightarrow> k < 32 \<Longrightarrow> take_bit k w = w"
  by (simp add: take_bit_eq_mask less_mask_eq)

lemma field_masks: "(0x7F::u32) = mask 7" "(0xF::u32) = mask 4" "(0x1FFF::u32) = mask 13"
  by (simp_all add: mask_eq_exp_minus_1)

lemma decode_fields:
  "decode w =
     \<lparr>d_op = take_bit 7 (drop_bit 25 w), d_guard = take_bit 4 (drop_bit 21 w),
      d_rd = take_bit 4 (drop_bit 17 w), d_rs1 = take_bit 4 (drop_bit 13 w),
      d_lo = take_bit 13 w\<rparr>"
  by (simp add: decode_def isa_defs field_masks take_bit_eq_mask)

definition pack_word :: "u32 \<Rightarrow> u32 \<Rightarrow> u32 \<Rightarrow> u32 \<Rightarrow> u32 \<Rightarrow> u32" where
  "pack_word op guard rd rs1 lo =
     push_bit 25 op OR push_bit 21 guard OR push_bit 17 rd OR push_bit 13 rs1 OR lo"

lemma enc_r_pack: "enc_r op g rd rs1 rs2 = pack_word op g rd rs1 (take_bit 4 rs2)"
  by (simp add: enc_r_def pack_word_def isa_defs field_masks take_bit_eq_mask)

lemma enc_i_pack: "enc_i op g rd rs1 imm = pack_word op g rd rs1 (take_bit 13 (word_of_int imm))"
  by (simp add: enc_i_def pack_word_def isa_defs field_masks take_bit_eq_mask)

text \<open>The fields of an instruction are in range.\<close>

definition fields_ok :: "u32 \<Rightarrow> u32 \<Rightarrow> u32 \<Rightarrow> u32 \<Rightarrow> bool" where
  "fields_ok op g rd rs1 \<longleftrightarrow> op < 128 \<and> g < 16 \<and> rd < 16 \<and> rs1 < 16"

lemma fields_ok_take_bit:
  assumes "fields_ok op g rd rs1"
  shows "take_bit 7 op = op" "take_bit 4 g = g" "take_bit 4 rd = rd" "take_bit 4 rs1 = rs1"
  using assms by (auto simp: fields_ok_def intro!: word_lt_take_bit)

lemma take_bits_of_pack_word:
  fixes op g rd rs1 lo :: u32
  defines "w \<equiv> pack_word (take_bit 7 op) (take_bit 4 g) (take_bit 4 rd) (take_bit 4 rs1)
    (take_bit 13 lo)"
  shows "take_bit 7 (drop_bit 25 w) = take_bit 7 op"
    and "take_bit 4 (drop_bit 21 w) = take_bit 4 g"
    and "take_bit 4 (drop_bit 17 w) = take_bit 4 rd"
    and "take_bit 4 (drop_bit 13 w) = take_bit 4 rs1"
    and "take_bit 13 w = take_bit 13 lo"
  unfolding w_def pack_word_def
  by (rule bit_word_eqI; simp add: bit_simps; linarith?; auto; fail)+

lemma decode_pack_word:
  assumes "fields_ok op g rd rs1" and "take_bit 13 lo = lo"
  shows "decode (pack_word op g rd rs1 lo) =
    \<lparr>d_op = op, d_guard = g, d_rd = rd, d_rs1 = rs1, d_lo = lo\<rparr>"
  using take_bits_of_pack_word [of op g rd rs1 lo] fields_ok_take_bit [OF assms(1)] assms(2)
  by (simp add: decode_fields)

lemma pack_word_decode:
  "pack_word (d_op (decode w)) (d_guard (decode w)) (d_rd (decode w)) (d_rs1 (decode w))
     (d_lo (decode w)) = w"
proof (rule bit_word_eqI)
  fix n
  assume "n < LENGTH(32)"
  then consider "n < 13" | "13 \<le> n" "n < 17" | "17 \<le> n" "n < 21" | "21 \<le> n" "n < 25"
    | "25 \<le> n" "n < 32" by fastforce
  then show "bit (pack_word (d_op (decode w)) (d_guard (decode w)) (d_rd (decode w))
      (d_rs1 (decode w)) (d_lo (decode w))) n = bit w n"
    by cases (auto simp: decode_fields pack_word_def bit_simps)
qed

lemma decode_ranges:
  "d_op (decode w) < 128" "d_guard (decode w) < 16" "d_rd (decode w) < 16"
  "d_rs1 (decode w) < 16" "d_lo (decode w) < 8192"
proof -
  have lt: "take_bit k (v::u32) < 2 ^ k" if "k < 32" for k v
    using that and_mask_less_size [of k v] by (simp add: take_bit_eq_mask word_size)
  show "d_op (decode w) < 128" "d_guard (decode w) < 16" "d_rd (decode w) < 16"
    "d_rs1 (decode w) < 16" "d_lo (decode w) < 8192"
    using lt [of 7 "drop_bit 25 w"] lt [of 4 "drop_bit 21 w"] lt [of 4 "drop_bit 17 w"]
      lt [of 4 "drop_bit 13 w"] lt [of 13 w]
    by (simp_all add: decode_fields)
qed

lemma fields_ok_decode:
  "fields_ok (d_op (decode w)) (d_guard (decode w)) (d_rd (decode w)) (d_rs1 (decode w))"
  by (simp add: fields_ok_def decode_ranges)

section \<open>Immediates\<close>

lemma sign_ext13_uint:
  assumes "lo < 0x2000"
  shows "sign_ext13 lo = (if uint lo < 4096 then uint lo else uint lo - 8192)"
proof -
  have bound: "0 \<le> uint lo" "uint lo < 8192"
    using assms by (simp_all add: word_less_def)
  have small: "sint lo = uint lo"
    unfolding sint_uint
  proof (rule signed_take_bit_int_eq_self)
    show "- (2 ^ (LENGTH(32) - Suc 0)) \<le> uint lo"
      by (rule order_trans [OF _ bound(1)]) simp
    show "uint lo < 2 ^ (LENGTH(32) - Suc 0)"
      using bound(2) by simp
  qed
  have b12: "lo AND 0x1000 \<noteq> 0 \<longleftrightarrow> 4096 \<le> uint lo"
  proof -
    have "lo AND 0x1000 \<noteq> 0 \<longleftrightarrow> bit lo 12"
      using and_exp_eq_0_iff_not_bit [of lo 12] by simp
    also have "\<dots> \<longleftrightarrow> bit (uint lo) 12"
      by (simp add: bit_uint_iff)
    also have "\<dots> \<longleftrightarrow> odd (uint lo div 4096)"
      by (simp add: bit_iff_odd)
    also have "uint lo div 4096 = (if 4096 \<le> uint lo then 1 else 0)"
      using bound by (simp add: div_pos_geq div_pos_pos_trivial)
    finally show ?thesis by (simp split: if_splits)
  qed
  show ?thesis
  proof (cases "4096 \<le> uint lo")
    case True
    have "lo AND 0xFFFFE000 = 0"
    proof (rule bit_word_eqI)
      fix n
      have "(0xFFFFE000::u32) = push_bit 13 (mask 19)"
        by (simp add: mask_eq_exp_minus_1 push_bit_eq_mult)
      moreover have "take_bit 13 lo = lo" using assms by (intro word_lt_take_bit) simp_all
      ultimately show "bit (lo AND 0xFFFFE000) n = bit 0 n"
        by (metis bit_and_iff bit_push_bit_iff bit_take_bit_iff bit_0_eq bot_apply bot_bool_def not_le)
    qed
    then have "lo OR 0xFFFFE000 = lo + 0xFFFFE000"
      by (metis disjunctive_add_eq_or)
    moreover have "sint (lo + 0xFFFFE000) = uint lo - 8192"
    proof -
      have "lo + 0xFFFFE000 = word_of_int (uint lo - 8192)"
        by (simp add: wi_hom_syms)
      then show ?thesis
        using bound True small by (simp add: sint_word_ariths signed_take_bit_int_eq_self_iff)
    qed
    ultimately show ?thesis using True b12 by (simp add: sign_ext13_def)
  next
    case False
    with small b12 show ?thesis by (simp add: sign_ext13_def)
  qed
qed


lemma uint_take_bit_13: "uint (take_bit 13 (word_of_int imm :: u32)) = imm mod 8192"
proof -
  have "uint (take_bit 13 (word_of_int imm :: u32)) = take_bit 13 (take_bit 32 imm)"
    by (simp add: unsigned_take_bit_eq uint_word_of_int_eq)
  also have "\<dots> = take_bit 13 imm"
    by simp
  also have "\<dots> = imm mod 8192"
    by (simp add: take_bit_eq_mod)
  finally show ?thesis .
qed

lemma take_bit_13_less: "take_bit 13 (w :: u32) < 8192"
  using and_mask_less_size [of 13 w] by (simp add: take_bit_eq_mask word_size)

lemma mod_8192_signed:
  fixes imm :: int
  assumes "IMM_MIN \<le> imm" and "imm \<le> IMM_MAX"
  shows "imm mod 8192 = (if 0 \<le> imm then imm else imm + 8192)"
proof (cases "0 \<le> imm")
  case True
  with assms show ?thesis by (simp add: isa_defs)
next
  case False
  then have "(imm + 8192) mod 8192 = imm + 8192"
    using assms by (intro mod_pos_pos_trivial) (simp_all add: isa_defs)
  with False show ?thesis by simp
qed

lemma sign_ext13_of_imm:
  assumes "IMM_MIN \<le> imm" and "imm \<le> IMM_MAX"
  shows "sign_ext13 (take_bit 13 (word_of_int imm)) = imm"
  using assms mod_8192_signed [OF assms] take_bit_13_less [of "word_of_int imm"]
  by (auto simp: sign_ext13_uint uint_take_bit_13 isa_defs)

lemma sign_ext13_range:
  assumes "lo < 0x2000"
  shows "IMM_MIN \<le> sign_ext13 lo" and "sign_ext13 lo \<le> IMM_MAX"
proof -
  have "0 \<le> uint lo" and "uint lo < 8192"
    using assms by (simp_all add: word_less_def)
  then show "IMM_MIN \<le> sign_ext13 lo" and "sign_ext13 lo \<le> IMM_MAX"
    unfolding sign_ext13_uint [OF assms] isa_defs
    by (cases "uint lo < 4096"; simp only: if_True if_False; linarith)+
qed

lemma take_bit_of_sign_ext13:
  assumes "lo < 0x2000"
  shows "take_bit 13 (word_of_int (sign_ext13 lo)) = lo"
proof -
  have "uint (take_bit 13 (word_of_int (sign_ext13 lo) :: u32)) = sign_ext13 lo mod 8192"
    by (rule uint_take_bit_13)
  also have "\<dots> = uint lo"
    using assms mod_8192_signed [OF sign_ext13_range [OF assms]]
    by (auto simp: sign_ext13_uint word_less_def split: if_splits)
  finally show ?thesis by (simp add: word_uint_eq_iff)
qed

lemma d_imm_range: "IMM_MIN \<le> d_imm (decode w)" "d_imm (decode w) \<le> IMM_MAX"
  using sign_ext13_range [of "d_lo (decode w)"] decode_ranges(5) [of w]
  by (simp_all add: d_imm_def)

section \<open>The encoders against the decoder\<close>

lemma decode_enc_r:
  assumes "fields_ok op g rd rs1" and "rs2 < 16"
  shows "decode (enc_r op g rd rs1 rs2) =
    \<lparr>d_op = op, d_guard = g, d_rd = rd, d_rs1 = rs1, d_lo = rs2\<rparr>"
proof -
  have "take_bit 4 rs2 = rs2" and "take_bit 13 rs2 = rs2"
    using assms(2) by (auto intro!: word_lt_take_bit simp: word_less_nat_alt)
  with assms(1) show ?thesis by (simp add: enc_r_pack decode_pack_word)
qed

lemma decode_enc_i:
  assumes "fields_ok op g rd rs1"
  shows "decode (enc_i op g rd rs1 imm) =
    \<lparr>d_op = op, d_guard = g, d_rd = rd, d_rs1 = rs1, d_lo = take_bit 13 (word_of_int imm)\<rparr>"
  using assms by (simp add: enc_i_pack decode_pack_word)

lemma enc_i_decode:
  "enc_i (d_op (decode w)) (d_guard (decode w)) (d_rd (decode w)) (d_rs1 (decode w))
     (d_imm (decode w)) = w"
  using pack_word_decode [of w] take_bit_of_sign_ext13 [of "d_lo (decode w)"]
    decode_ranges(5) [of w]
  by (simp add: enc_i_pack d_imm_def)

lemma enc_i_uint_decode:
  "enc_i (d_op (decode w)) (d_guard (decode w)) (d_rd (decode w)) (d_rs1 (decode w))
     (uint (d_lo (decode w))) = w"
  using pack_word_decode [of w] decode_ranges(5) [of w]
    word_lt_take_bit [of "d_lo (decode w)" 13]
  by (simp add: enc_i_pack)

lemma enc_r_decode:
  assumes "d_lo (decode w) < 16"
  shows "enc_r (d_op (decode w)) (d_guard (decode w)) (d_rd (decode w)) (d_rs1 (decode w))
     (d_rs2 (decode w)) = w"
  using pack_word_decode [of w] word_lt_take_bit [of "d_lo (decode w)" 4] assms
  by (simp add: enc_r_pack d_rs2_def isa_defs field_masks flip: take_bit_eq_mask)

text \<open>\<open>rs2\<close> of a decoded word, and the R-form with that field absent.\<close>

lemma d_rs2_small: "d_lo (decode w) < 16 \<Longrightarrow> d_rs2 (decode w) = d_lo (decode w)"
  using word_lt_take_bit [of "d_lo (decode w)" 4]
  by (simp add: d_rs2_def isa_defs field_masks flip: take_bit_eq_mask)

lemma d_rs2_less: "d_rs2 (decode w) < 16"
  using and_mask_less_size [of 4 "d_lo (decode w)"]
  by (simp add: d_rs2_def isa_defs field_masks word_size)

section \<open>Properties\<close>

text \<open>
  C13. The instruction word: fields within their widths and an immediate of the 13-bit signed
  range come back from the encoded word unchanged, and every word is the encoding of its own
  decoded fields.
\<close>

theorem instruction_word_roundtrip:
  assumes "fields_ok op g rd rs1" and "IMM_MIN \<le> imm" and "imm \<le> IMM_MAX" and "rs2 < 16"
  shows "(let d = decode (enc_i op g rd rs1 imm) in
      d_op d = op \<and> d_guard d = g \<and> d_rd d = rd \<and> d_rs1 d = rs1 \<and> d_imm d = imm)
    \<and> decode (enc_r op g rd rs1 rs2) = \<lparr>d_op = op, d_guard = g, d_rd = rd, d_rs1 = rs1, d_lo = rs2\<rparr>
    \<and> (let d = decode w in enc_i (d_op d) (d_guard d) (d_rd d) (d_rs1 d) (d_imm d) = w)"
  using assms
  by (simp add: decode_enc_i decode_enc_r d_imm_def sign_ext13_of_imm Let_def enc_i_decode)
    (metis d_imm_def enc_i_decode)

theorem instruction_word_roundtrip_witness:
  "d_imm (decode (enc_i OP_ADD_I 5 15 3 (-4096))) = -4096"
  using instruction_word_roundtrip [of OP_ADD_I 5 15 3 "-4096" 0 0]
  by (simp add: fields_ok_def op_defs isa_defs Let_def)

end
