(* ===== verification/Asm_Parse.thy ===== *)
theory Asm_Parse
  imports Isa
begin

text \<open>
  The assembly reader (\<open>tools/warpvm-asm/src/parse.rs\<close>): source text to a list of
  statements, one physical line at a time. A line is an optional label, an optional guard
  and either a directive with its words or a mnemonic with comma-separated operands. The
  loop of \<open>parse\<close> over the lines is \<open>map_res\<close>; its body is \<open>parse_line\<close>.

  Errors are the source's messages (\<open>Err\<close>); a panic of the source is \<open>Panic\<close>. The only
  one the reader can raise is a string slice that does not begin at a character boundary.
\<close>

datatype asm_error = Err string | Panic string

type_synonym 'a res = "asm_error + 'a"

definition err :: "nat \<Rightarrow> string \<Rightarrow> 'a res" where
  "err line msg = Inl (Err (''line '' @ nat_str line @ '': '' @ msg))"

lemma err_not_Inr [simp]: "err line msg \<noteq> Inr x" "Inr x \<noteq> err line msg"
  by (simp_all add: err_def)

datatype operand =
    VReg u32
  | SReg u32
  | Pred u32
  | Imm int
  | Name string

datatype stmt =
    Label nat string
  | Instr nat u32 string "operand list"
  | Directive nat string "string list"

record program =
  stmts :: "stmt list"

section \<open>Words of a line\<close>

definition is_ident_first :: "char \<Rightarrow> bool" where
  "is_ident_first c \<longleftrightarrow> is_ascii_alphabetic c \<or> c = CHR ''_''"

definition is_ident_rest :: "char \<Rightarrow> bool" where
  "is_ident_rest c \<longleftrightarrow> is_ascii_alphanumeric c \<or> c = CHR ''_''"

definition is_ident :: "string \<Rightarrow> bool" where
  "is_ident s = (case s of [] \<Rightarrow> False | c # cs \<Rightarrow> is_ident_first c \<and> list_all is_ident_rest cs)"

definition is_identifier :: "string \<Rightarrow> bool" where
  "is_identifier s = is_ident s"

definition parse_pred :: "string \<Rightarrow> nat \<Rightarrow> u32 res" where
  "parse_pred s line =
     (case Option.bind (strip_prefix_char CHR ''p'' s) (parse_unsigned 32 10) of
        Some n \<Rightarrow> if n < 4 then Inr (word_of_int n)
                  else err line (''bad predicate '' @ quoted s @ '' (want p0-p3)'')
      | None \<Rightarrow> err line (''bad predicate '' @ quoted s @ '' (want p0-p3)''))"

definition parse_guard :: "string \<Rightarrow> nat \<Rightarrow> u32 res" where
  "parse_guard g line =
     (let (inv, rest) = (case strip_prefix_char CHR ''!'' g of
                           Some r \<Rightarrow> (True, r) | None \<Rightarrow> (False, g))
      in rbind (parse_pred rest line) (\<lambda>pred. Inr (if inv then 5 + pred else 1 + pred)))"

text \<open>
  \<open>-value\<close> on an \<open>i64\<close>. The least value has no negation: the release profile the build
  uses wraps it to itself (a debug build panics there).
\<close>

definition neg_i64 :: "int \<Rightarrow> int" where
  "neg_i64 v = (if v = - (2 ^ 63) then v else - v)"

definition parse_number :: "string \<Rightarrow> nat \<Rightarrow> int res" where
  "parse_number s line =
     (let (neg, rest) = (case strip_prefix_char CHR ''-'' s of
                           Some r \<Rightarrow> (True, r) | None \<Rightarrow> (False, s));
          value = (case or_else (strip_prefix ''0x'' rest) (strip_prefix ''0X'' rest) of
                     Some hex \<Rightarrow> parse_signed 64 16 hex
                   | None \<Rightarrow>
                       (case or_else (strip_prefix ''0b'' rest) (strip_prefix ''0B'' rest) of
                          Some bin \<Rightarrow> parse_signed 64 2 bin
                        | None \<Rightarrow> parse_signed 64 10 rest))
      in rbind (case value of
                  None \<Rightarrow> err line (''bad number '' @ quoted s)
                | Some v \<Rightarrow> Inr v)
           (\<lambda>v. Inr (if neg then neg_i64 v else v)))"

text \<open>The digits of a register name, as a register number below \<open>limit\<close>.\<close>

definition parse_reg_no :: "string \<Rightarrow> string \<Rightarrow> int \<Rightarrow> string \<Rightarrow> nat \<Rightarrow> u32 res" where
  "parse_reg_no s digits limit kind line =
     (case parse_unsigned 32 10 digits of
        None \<Rightarrow> err line (''bad register '' @ quoted s)
      | Some n \<Rightarrow>
          if limit \<le> n then err line (kind @ '' register out of range '' @ quoted s)
          else Inr (word_of_int n))"

text \<open>The part of \<open>parse_operand\<close> behind the register forms.\<close>

definition parse_operand_word :: "string \<Rightarrow> nat \<Rightarrow> operand res" where
  "parse_operand_word s line =
     (let first = (case s of [] \<Rightarrow> CHR '' '' | c # _ \<Rightarrow> c)
      in if is_ascii_digit first \<or> first = CHR ''-''
         then rbind (parse_number s line) (\<lambda>n. Inr (Imm n))
         else if is_ident s then Inr (Name s)
         else err line (''bad operand '' @ quoted s))"

definition all_digits :: "string \<Rightarrow> bool" where
  "all_digits ds \<longleftrightarrow> ds \<noteq> [] \<and> list_all is_ascii_digit ds"

text \<open>\<open>&s[1..]\<close> panics when byte 1 continues a multi-byte character.\<close>

definition slice1_panics :: "string \<Rightarrow> bool" where
  "slice1_panics s = (case s of _ # b # _ \<Rightarrow> is_continuation b | _ \<Rightarrow> False)"

definition parse_operand :: "string \<Rightarrow> nat \<Rightarrow> operand res" where
  "parse_operand s line =
     (case strip_prefix_char CHR ''#'' s of
        Some num \<Rightarrow> rbind (parse_number num line) (\<lambda>n. Inr (Imm n))
      | None \<Rightarrow>
          (case s of
             [] \<Rightarrow> parse_operand_word s line
           | cls # digits \<Rightarrow>
               if slice1_panics s then Inl (Panic ''byte index 1 is not a char boundary'')
               else if cls = CHR ''r'' \<and> all_digits digits
               then rbind (parse_reg_no s digits 16 ''vector'' line) (\<lambda>n. Inr (VReg n))
               else if cls = CHR ''s'' \<and> all_digits digits
               then rbind (parse_reg_no s digits 8 ''scalar'' line) (\<lambda>n. Inr (SReg n))
               else if cls = CHR ''p'' \<and> all_digits digits
               then rbind (parse_pred s line) (\<lambda>n. Inr (Pred n))
               else parse_operand_word s line))"

section \<open>Lines\<close>

text \<open>The optional leading label: the statements it contributes and the words behind it.\<close>

definition leading_label :: "nat \<Rightarrow> string \<Rightarrow> string list \<Rightarrow> (stmt list \<times> string list) res" where
  "leading_label line first tokens =
     (case strip_suffix_char CHR '':'' first of
        Some name \<Rightarrow>
          if name = [] \<or> \<not> is_ident name then err line (''bad label '' @ quoted first)
          else Inr ([Label line name], tokens)
      | None \<Rightarrow> Inr ([], first # tokens))"

text \<open>The optional guard: its field value, the mnemonic or directive word, and the rest.\<close>

definition leading_guard ::
  "nat \<Rightarrow> string \<Rightarrow> string list \<Rightarrow> (u32 \<times> string \<times> string list) res" where
  "leading_guard line tok tokens =
     (case strip_prefix_char CHR ''@'' tok of
        Some g \<Rightarrow>
          rbind (parse_guard g line) (\<lambda>parsed.
            case tokens of
              [] \<Rightarrow> err line ''guard with no instruction''
            | t # ts \<Rightarrow> Inr (parsed, t, ts))
      | None \<Rightarrow> Inr (0, tok, tokens))"

definition parse_part :: "nat \<Rightarrow> string \<Rightarrow> operand res" where
  "parse_part line part =
     (let p = trim part
      in if p = [] then err line ''empty operand'' else parse_operand p line)"

definition parse_operands :: "nat \<Rightarrow> string list \<Rightarrow> operand list res" where
  "parse_operands line tokens =
     (let joined = join '' '' tokens
      in if trim joined = [] then Inr []
         else map_res (parse_part line) (split_on CHR '','' joined))"

definition parse_line :: "nat \<Rightarrow> string \<Rightarrow> stmt list res" where
  "parse_line line raw =
     (let trimmed = trim (before_char CHR '';'' raw)
      in if trimmed = [] then Inr []
         else
           case split_whitespace trimmed of
             [] \<Rightarrow> Inl (Panic ''called unwrap on a None value'')
           | first # tokens \<Rightarrow>
               rbind (leading_label line first tokens) (\<lambda>(labels, words).
                 case words of
                   [] \<Rightarrow> Inr labels
                 | tok # tokens \<Rightarrow>
                     rbind (leading_guard line tok tokens) (\<lambda>(guard, tok, tokens).
                       case strip_prefix_char CHR ''.'' tok of
                         Some dir \<Rightarrow>
                           if dir = [] then err line ''empty directive''
                           else Inr (labels @ [Directive line dir tokens])
                       | None \<Rightarrow>
                           rbind (parse_operands line tokens) (\<lambda>operands.
                             Inr (labels @ [Instr line guard (to_ascii_uppercase tok) operands])))))"

definition parse :: "string \<Rightarrow> program res" where
  "parse src =
     rbind (map_res (\<lambda>(idx, raw). parse_line (idx + 1) raw) (enumerate 0 (lines src)))
       (\<lambda>parts. Inr \<lparr>stmts = concat parts\<rparr>)"

end
