(* ===== verification/Assemble.thy ===== *)
theory Assemble
  imports Asm_Parse
begin

text \<open>
  The assembler (\<open>tools/warpvm-asm/src/assemble.rs\<close>): one pass over the statements that
  appends words to the code, interns literals, records labels, pending label references and
  literal-pool references, and then patches the references. The state \<open>asm\<close> is the struct
  \<open>Asm\<close>; each method that takes \<open>&mut self\<close> is a function from a state to a result with
  the new state. A state behind an error is never used, so errors carry none.
\<close>

unbundle bit_operations_syntax

record assembled =
  out_code :: "u32 list"
  out_literals :: "u32 list"

definition DEFAULT_SCRATCH :: u32 where "DEFAULT_SCRATCH = 15"
definition SCRATCH_SCALAR :: u32 where "SCRATCH_SCALAR = 7"

record asm =
  a_code :: "u32 list"
  a_literals :: "u32 list"
  a_lit_by_value :: "u32 \<rightharpoonup> u32"
  a_consts :: "string \<rightharpoonup> int"
  a_labels :: "string \<rightharpoonup> u32"
  a_fixups :: "(nat \<times> string \<times> nat) list"
  a_ldw_refs :: "(nat \<times> u32) list"
  a_scratch :: u32

datatype imm_res = Inline int | ViaLit u32

text \<open>Casts: \<open>value as u32\<close> of an \<open>i64\<close>, \<open>v as i32\<close> of an \<open>i64\<close> and of a \<open>u32\<close>.\<close>

definition as_u32 :: "int \<Rightarrow> u32" where
  "as_u32 v = word_of_int v"

definition as_i32 :: "int \<Rightarrow> int" where
  "as_i32 v = sint (word_of_int v :: u32)"

definition u32_as_i32 :: "u32 \<Rightarrow> int" where
  "u32_as_i32 w = sint w"

definition predefined_consts :: "string \<rightharpoonup> int" where
  "predefined_consts =
     [''RAM_SIZE_WORDS'' \<mapsto> RAM_SIZE_WORDS, ''VIDEO_BASE'' \<mapsto> VIDEO_BASE,
      ''VIDEO_WIDTH'' \<mapsto> VIDEO_WIDTH, ''VIDEO_HEIGHT'' \<mapsto> VIDEO_HEIGHT,
      ''VIDEO_WORDS'' \<mapsto> VIDEO_WORDS]"

definition new_asm :: asm where
  "new_asm =
     \<lparr>a_code = [], a_literals = [], a_lit_by_value = Map.empty, a_consts = predefined_consts,
      a_labels = Map.empty, a_fixups = [], a_ldw_refs = [], a_scratch = DEFAULT_SCRATCH\<rparr>"

definition emit :: "asm \<Rightarrow> u32 \<Rightarrow> asm" where
  "emit s word = s\<lparr>a_code := a_code s @ [word]\<rparr>"

definition intern :: "asm \<Rightarrow> u32 \<Rightarrow> (u32 \<times> asm) res" where
  "intern s value =
     (case a_lit_by_value s value of
        Some idx \<Rightarrow> Inr (idx, s)
      | None \<Rightarrow>
          if MAX_LITERALS \<le> length (a_literals s) then Inl (Err ''literal pool full'')
          else
            let idx = of_nat (length (a_literals s))
            in Inr (idx, s\<lparr>a_literals := a_literals s @ [value],
                            a_lit_by_value := (a_lit_by_value s)(value \<mapsto> idx)\<rparr>))"

definition imm_value :: "asm \<Rightarrow> operand \<Rightarrow> nat \<Rightarrow> int res" where
  "imm_value s op line =
     (case op of
        Imm v \<Rightarrow> Inr v
      | Name n \<Rightarrow>
          (case a_consts s n of
             Some v \<Rightarrow> Inr v
           | None \<Rightarrow> err line (''unknown constant '' @ quoted n
                              @ '' (define it with .const before use)''))
      | _ \<Rightarrow> err line ''expected immediate or constant'')"

definition resolve_imm :: "asm \<Rightarrow> operand \<Rightarrow> nat \<Rightarrow> (imm_res \<times> asm) res" where
  "resolve_imm s op line =
     rbind (imm_value s op line) (\<lambda>value.
       if IMM_MIN \<le> value \<and> value \<le> IMM_MAX then Inr (Inline (as_i32 value), s)
       else rbind (intern s (as_u32 value)) (\<lambda>(idx, s). Inr (ViaLit idx, s)))"

section \<open>Operand extractors\<close>

definition vreg :: "operand \<Rightarrow> nat \<Rightarrow> string \<Rightarrow> u32 res" where
  "vreg o' line what =
     (case o' of VReg n \<Rightarrow> Inr n | _ \<Rightarrow> err line (what @ '' must be a vector register''))"

definition sreg :: "operand \<Rightarrow> nat \<Rightarrow> string \<Rightarrow> u32 res" where
  "sreg o' line what =
     (case o' of SReg n \<Rightarrow> Inr n | _ \<Rightarrow> err line (what @ '' must be a scalar register''))"

definition pred :: "operand \<Rightarrow> nat \<Rightarrow> string \<Rightarrow> u32 res" where
  "pred o' line what =
     (case o' of Pred n \<Rightarrow> Inr n | _ \<Rightarrow> err line (what @ '' must be a predicate (p0-p3)''))"

section \<open>Instruction encoders\<close>

definition encode_mov :: "asm \<Rightarrow> u32 \<Rightarrow> operand list \<Rightarrow> nat \<Rightarrow> asm res" where
  "encode_mov s guard ops line =
     (case ops of
        [rd, third] \<Rightarrow>
          (case third of
             VReg rs1 \<Rightarrow>
               rbind (vreg rd line ''destination'') (\<lambda>rd.
                 Inr (emit s (enc_r OP_MOV guard rd rs1 0)))
           | _ \<Rightarrow>
               rbind (vreg rd line ''destination'') (\<lambda>rd.
               rbind (resolve_imm s third line) (\<lambda>(r, s).
                 case r of
                   Inline imm \<Rightarrow> Inr (emit s (enc_i OP_MOV_I guard rd 0 imm))
                 | ViaLit idx \<Rightarrow>
                     let s = emit s (enc_i OP_LDW 0 (a_scratch s) 0 (u32_as_i32 idx))
                     in Inr (emit s (enc_r OP_MOV guard rd (a_scratch s) 0)))))
      | _ \<Rightarrow> err line ''MOV takes rD, rS1 or rD, immediate'')"

definition encode_bin3 ::
  "asm \<Rightarrow> u32 \<Rightarrow> u32 option \<Rightarrow> u32 \<Rightarrow> operand list \<Rightarrow> nat \<Rightarrow> asm res" where
  "encode_bin3 s op_r op_i guard ops line =
     (case ops of
        [rd, rs1, third] \<Rightarrow>
          rbind (vreg rd line ''destination'') (\<lambda>rd.
          rbind (vreg rs1 line ''first source'') (\<lambda>rs1.
            case third of
              VReg rs2 \<Rightarrow> Inr (emit s (enc_r op_r guard rd rs1 rs2))
            | _ \<Rightarrow>
                rbind (resolve_imm s third line) (\<lambda>(r, s).
                  case r of
                    Inline imm \<Rightarrow>
                      (case op_i of
                         Some op_i \<Rightarrow> Inr (emit s (enc_i op_i guard rd rs1 imm))
                       | None \<Rightarrow>
                           let s = emit s (enc_i OP_MOV_I 0 (a_scratch s) 0 imm)
                           in Inr (emit s (enc_r op_r guard rd rs1 (a_scratch s))))
                  | ViaLit idx \<Rightarrow>
                      let s = emit s (enc_i OP_LDW 0 (a_scratch s) 0 (u32_as_i32 idx))
                      in Inr (emit s (enc_r op_r guard rd rs1 (a_scratch s))))))
      | _ \<Rightarrow> err line ''expected rD, rS1, rS2/immediate'')"

definition encode_cmp ::
  "asm \<Rightarrow> u32 \<Rightarrow> u32 \<Rightarrow> u32 \<Rightarrow> operand list \<Rightarrow> nat \<Rightarrow> asm res" where
  "encode_cmp s op_r op_i guard ops line =
     (case ops of
        [pd, rs1, third] \<Rightarrow>
          rbind (pred pd line ''destination predicate'') (\<lambda>pd.
          rbind (vreg rs1 line ''first source'') (\<lambda>rs1.
            case third of
              VReg rs2 \<Rightarrow> Inr (emit s (enc_r op_r guard pd rs1 rs2))
            | _ \<Rightarrow>
                rbind (resolve_imm s third line) (\<lambda>(r, s).
                  case r of
                    Inline imm \<Rightarrow> Inr (emit s (enc_i op_i guard pd rs1 imm))
                  | ViaLit idx \<Rightarrow>
                      let s = emit s (enc_i OP_LDW 0 (a_scratch s) 0 (u32_as_i32 idx))
                      in Inr (emit s (enc_r op_r guard pd rs1 (a_scratch s))))))
      | _ \<Rightarrow> err line ''expected pD, rS1, rS2/immediate'')"

definition encode_unary :: "asm \<Rightarrow> u32 \<Rightarrow> u32 \<Rightarrow> operand list \<Rightarrow> nat \<Rightarrow> asm res" where
  "encode_unary s op guard ops line =
     (case ops of
        [rd, rs1] \<Rightarrow>
          rbind (vreg rd line ''destination'') (\<lambda>rd.
          rbind (vreg rs1 line ''source'') (\<lambda>rs1.
            Inr (emit s (enc_r op guard rd rs1 0))))
      | _ \<Rightarrow> err line ''expected rD, rS1'')"

definition encode_dest_only :: "asm \<Rightarrow> u32 \<Rightarrow> u32 \<Rightarrow> operand list \<Rightarrow> nat \<Rightarrow> asm res" where
  "encode_dest_only s op guard ops line =
     (case ops of
        [rd] \<Rightarrow>
          rbind (vreg rd line ''destination'') (\<lambda>rd. Inr (emit s (enc_r op guard rd 0 0)))
      | _ \<Rightarrow> err line ''expected rD'')"

definition encode_mask2 :: "asm \<Rightarrow> u32 \<Rightarrow> u32 \<Rightarrow> operand list \<Rightarrow> nat \<Rightarrow> asm res" where
  "encode_mask2 s op guard ops line =
     (case ops of
        [pd, ps1] \<Rightarrow>
          rbind (pred pd line ''destination predicate'') (\<lambda>pd.
          rbind (pred ps1 line ''source predicate'') (\<lambda>ps1.
            Inr (emit s (enc_r op guard pd ps1 0))))
      | _ \<Rightarrow> err line ''expected pD, pS'')"

definition encode_mask3 :: "asm \<Rightarrow> u32 \<Rightarrow> u32 \<Rightarrow> operand list \<Rightarrow> nat \<Rightarrow> asm res" where
  "encode_mask3 s op guard ops line =
     (case ops of
        [pd, pa, pb] \<Rightarrow>
          rbind (pred pd line ''destination predicate'') (\<lambda>pd.
          rbind (pred pa line ''first source predicate'') (\<lambda>pa.
          rbind (pred pb line ''second source predicate'') (\<lambda>pb.
            Inr (emit s (enc_r op guard pd pa pb)))))
      | _ \<Rightarrow> err line ''expected pD, pA, pB'')"

definition encode_ballot :: "asm \<Rightarrow> u32 \<Rightarrow> operand list \<Rightarrow> nat \<Rightarrow> asm res" where
  "encode_ballot s guard ops line =
     (case ops of
        [pd, rs1] \<Rightarrow>
          rbind (pred pd line ''destination predicate'') (\<lambda>pd.
          rbind (vreg rs1 line ''source'') (\<lambda>rs1.
            Inr (emit s (enc_r OP_BALLOT guard pd rs1 0))))
      | _ \<Rightarrow> err line ''expected pD, rS'')"

definition encode_anyall :: "asm \<Rightarrow> u32 \<Rightarrow> u32 \<Rightarrow> operand list \<Rightarrow> nat \<Rightarrow> asm res" where
  "encode_anyall s op guard ops line =
     (case ops of
        [pd, ps1] \<Rightarrow>
          rbind (pred pd line ''destination predicate'') (\<lambda>pd.
          rbind (pred ps1 line ''source predicate'') (\<lambda>ps1.
            Inr (emit s (enc_r op guard pd ps1 0))))
      | _ \<Rightarrow> err line ''expected pD, pS'')"

definition encode_lane_imm :: "asm \<Rightarrow> u32 \<Rightarrow> u32 \<Rightarrow> operand list \<Rightarrow> nat \<Rightarrow> asm res" where
  "encode_lane_imm s op guard ops line =
     (case ops of
        [rd, rs1, Imm v] \<Rightarrow>
          rbind (vreg rd line ''destination'') (\<lambda>rd.
          rbind (vreg rs1 line ''source'') (\<lambda>rs1.
            if \<not> (0 \<le> v \<and> v < 32) then err line ''lane/mask must be 0..31''
            else Inr (emit s (enc_i op guard rd rs1 (as_i32 v)))))
      | _ \<Rightarrow> err line ''expected rD, rS, #imm'')"

definition encode_shuffle :: "asm \<Rightarrow> u32 \<Rightarrow> operand list \<Rightarrow> nat \<Rightarrow> asm res" where
  "encode_shuffle s guard ops line =
     (case ops of
        [rd, rs1, rs2] \<Rightarrow>
          rbind (vreg rd line ''destination'') (\<lambda>rd.
          rbind (vreg rs1 line ''first source'') (\<lambda>rs1.
          rbind (vreg rs2 line ''second source'') (\<lambda>rs2.
            Inr (emit s (enc_r OP_SHUFFLE guard rd rs1 rs2)))))
      | _ \<Rightarrow> err line ''expected rD, rS1, rS2'')"

section \<open>Control flow\<close>

definition emit_branch :: "asm \<Rightarrow> u32 \<Rightarrow> u32 \<Rightarrow> operand \<Rightarrow> nat \<Rightarrow> asm res" where
  "emit_branch s op guard target line =
     (let idx = length (a_code s)
      in case target of
           Imm v \<Rightarrow>
             if v < 0 then err line ''negative jump target''
             else Inr (emit s (enc_i op guard 0 0 (as_i32 v)))
         | Name n \<Rightarrow>
             let s = s\<lparr>a_fixups := a_fixups s @ [(idx, n, line)]\<rparr>
             in Inr (emit s (enc_i op guard 0 0 0))
         | _ \<Rightarrow> err line ''jump target must be a label or address'')"

definition encode_jmp_if :: "asm \<Rightarrow> u32 \<Rightarrow> u32 \<Rightarrow> operand list \<Rightarrow> nat \<Rightarrow> asm res" where
  "encode_jmp_if s op guard ops line =
     (if guard \<noteq> 0
      then err line ''JMP_IF_* takes its predicate as an operand, not an @-guard''
      else case ops of
             [pn, target] \<Rightarrow>
               rbind (pred pn line ''condition predicate'') (\<lambda>pn.
                 emit_branch s op (1 + pn) target line)
           | _ \<Rightarrow> err line ''expected pN, target'')"

text \<open>One pending reference: the loop body of \<open>resolve_fixups\<close>. The length is read before
  the loop, and patching does not change it.\<close>

definition apply_fixup :: "u32 \<Rightarrow> asm \<Rightarrow> nat \<times> string \<times> nat \<Rightarrow> asm res" where
  "apply_fixup len s fixup =
     (case fixup of (idx, name, line) \<Rightarrow>
        case a_labels s name of
          None \<Rightarrow> err line (''undefined label '' @ quoted name)
        | Some target \<Rightarrow>
            if len < target then err line (''label '' @ quoted name @ '' out of range'')
            else if length (a_code s) \<le> idx then Inl (Panic ''index out of bounds'')
            else Inr (s\<lparr>a_code := (a_code s)[idx :=
                         ((a_code s ! idx) AND NOT LO_MASK) OR (target AND LO_MASK)]\<rparr>))"

definition resolve_fixups :: "asm \<Rightarrow> asm res" where
  "resolve_fixups s =
     (let len = of_nat (length (a_code s))
      in fold_res (apply_fixup len) (s\<lparr>a_fixups := []\<rparr>) (a_fixups s))"

section \<open>Directives\<close>

definition directive :: "asm \<Rightarrow> string \<Rightarrow> string list \<Rightarrow> nat \<Rightarrow> asm res" where
  "directive s name args line =
     (if name = ''const'' then
        (case args of
           [symb, value] \<Rightarrow>
             if \<not> is_identifier symb then err line (''bad constant name '' @ quoted symb)
             else
               rbind (parse_number value line) (\<lambda>v.
                 if \<not> (0 \<le> v \<and> v \<le> 0xFFFFFFFF) then err line ''constant out of u32 range''
                 else if a_consts s symb \<noteq> None then err line (''duplicate constant '' @ quoted symb)
                 else
                   rbind (intern (s\<lparr>a_consts := (a_consts s)(symb \<mapsto> v)\<rparr>) (as_u32 v))
                     (\<lambda>(_, s). Inr s))
         | _ \<Rightarrow> err line ''.const takes NAME VALUE'')
      else if name = ''scratch'' then
        (case args of
           [reg] \<Rightarrow>
             rbind (parse_operand reg line) (\<lambda>r.
               case r of
                 VReg n \<Rightarrow> Inr (s\<lparr>a_scratch := n\<rparr>)
               | _ \<Rightarrow> err line ''.scratch needs a vector register'')
         | _ \<Rightarrow> err line ''.scratch takes one register'')
      else if name = ''word'' then
        (case args of
           [value] \<Rightarrow>
             rbind (parse_number value line) (\<lambda>v.
               if \<not> (0 \<le> v \<and> v \<le> 0xFFFFFFFF) then err line ''.word out of u32 range''
               else Inr (emit s (as_u32 v)))
         | _ \<Rightarrow> err line ''.word takes one value'')
      else err line (''unknown directive '' @ quoted (CHR ''.'' # name)))"

section \<open>Instructions\<close>

text \<open>The arms of \<open>instr\<close> that do not only call one encoder, in the source's order.\<close>

definition instr_load_store :: "asm \<Rightarrow> u32 \<Rightarrow> string \<Rightarrow> operand list \<Rightarrow> nat \<Rightarrow> asm res" where
  "instr_load_store s guard mnemonic ops line =
     (case ops of
        [a, b] \<Rightarrow>
          rbind (vreg a line ''first operand'') (\<lambda>a.
          rbind (vreg b line ''second operand'') (\<lambda>b.
            let op = (if mnemonic = ''LOAD'' then OP_LOAD else OP_STORE)
            in Inr (emit s (enc_r op guard a b 0))))
      | _ \<Rightarrow> err line (mnemonic @ '' takes two vector registers''))"

definition instr_ldw :: "asm \<Rightarrow> u32 \<Rightarrow> operand list \<Rightarrow> nat \<Rightarrow> asm res" where
  "instr_ldw s guard ops line =
     (case ops of
        [rd, Imm idx] \<Rightarrow>
          rbind (vreg rd line ''destination'') (\<lambda>rd.
            if idx < 0 then err line ''negative literal index''
            else
              let s = s\<lparr>a_ldw_refs := a_ldw_refs s @ [(line, as_u32 idx)]\<rparr>
              in Inr (emit s (enc_i OP_LDW guard rd 0 (as_i32 idx))))
      | _ \<Rightarrow> err line ''LDW takes rD and a literal-pool index'')"

definition instr_log :: "asm \<Rightarrow> u32 \<Rightarrow> operand list \<Rightarrow> nat \<Rightarrow> asm res" where
  "instr_log s guard ops line =
     (case ops of
        [rval, rtag] \<Rightarrow>
          rbind (vreg rval line ''value'') (\<lambda>rval.
          rbind (vreg rtag line ''tag'') (\<lambda>rtag.
            Inr (emit s (enc_r OP_LOG guard 0 rval rtag))))
      | _ \<Rightarrow> err line ''LOG takes rValue, rTag'')"

definition instr_log_i :: "asm \<Rightarrow> u32 \<Rightarrow> operand list \<Rightarrow> nat \<Rightarrow> asm res" where
  "instr_log_i s guard ops line =
     (case ops of
        [rval, tag] \<Rightarrow>
          rbind (vreg rval line ''value'') (\<lambda>rval.
          rbind (resolve_imm s tag line) (\<lambda>(r, s).
            case r of
              Inline v \<Rightarrow> Inr (emit s (enc_i OP_LOG_I guard 0 rval v))
            | ViaLit _ \<Rightarrow> err line ''LOG_I tag must fit in 13 bits''))
      | _ \<Rightarrow> err line ''LOG_I takes rValue, #tag'')"

definition instr_flip :: "asm \<Rightarrow> u32 \<Rightarrow> operand list \<Rightarrow> nat \<Rightarrow> asm res" where
  "instr_flip s guard ops line =
     (if guard \<noteq> 0 then err line ''FLIP is unguardable''
      else if ops \<noteq> [] then err line ''FLIP takes no operands''
      else Inr (emit s (enc_r OP_FLIP 0 0 0 0)))"

definition instr_send :: "asm \<Rightarrow> u32 \<Rightarrow> operand list \<Rightarrow> nat \<Rightarrow> asm res" where
  "instr_send s guard ops line =
     (case ops of
        [rdest, rtype, rpayload] \<Rightarrow>
          rbind (vreg rdest line ''dest'') (\<lambda>rdest.
          rbind (vreg rtype line ''type'') (\<lambda>rtype.
          rbind (vreg rpayload line ''payload'') (\<lambda>rpayload.
            Inr (emit s (enc_r OP_SEND guard rdest rtype rpayload)))))
      | _ \<Rightarrow> err line ''SEND takes rDest, rType, rPayload'')"

definition instr_try_recv :: "asm \<Rightarrow> u32 \<Rightarrow> operand list \<Rightarrow> nat \<Rightarrow> asm res" where
  "instr_try_recv s guard ops line =
     (case ops of
        [Pred pgot, rpayload, rmeta] \<Rightarrow>
          rbind (vreg rpayload line ''payload'') (\<lambda>rpayload.
          rbind (vreg rmeta line ''meta'') (\<lambda>rmeta.
            Inr (emit s (enc_r OP_TRY_RECV guard pgot rpayload rmeta))))
      | _ \<Rightarrow> err line ''TRY_RECV takes pGot, rPayload, rMeta'')"

definition instr_s_mov :: "asm \<Rightarrow> u32 \<Rightarrow> operand list \<Rightarrow> nat \<Rightarrow> asm res" where
  "instr_s_mov s guard ops line =
     (case ops of
        [sd, ss1] \<Rightarrow>
          rbind (sreg sd line ''dest'') (\<lambda>sd.
          rbind (sreg ss1 line ''source'') (\<lambda>ss1.
            Inr (emit s (enc_r OP_S_MOV guard sd ss1 0))))
      | _ \<Rightarrow> err line ''S_MOV takes sD, sS'')"

definition instr_s_mov_i :: "asm \<Rightarrow> u32 \<Rightarrow> operand list \<Rightarrow> nat \<Rightarrow> asm res" where
  "instr_s_mov_i s guard ops line =
     (case ops of
        [sd, imm] \<Rightarrow>
          rbind (sreg sd line ''destination'') (\<lambda>sd.
          rbind (resolve_imm s imm line) (\<lambda>(r, s).
            case r of
              Inline v \<Rightarrow> Inr (emit s (enc_i OP_S_MOV_I guard sd 0 v))
            | ViaLit idx \<Rightarrow> Inr (emit s (enc_i OP_S_LDW guard sd 0 (u32_as_i32 idx)))))
      | _ \<Rightarrow> err line ''S_MOV_I takes sD, immediate'')"

definition instr_s_add :: "asm \<Rightarrow> u32 \<Rightarrow> operand list \<Rightarrow> nat \<Rightarrow> asm res" where
  "instr_s_add s guard ops line =
     (case ops of
        [sd, sa, sb] \<Rightarrow>
          rbind (sreg sd line ''dest'') (\<lambda>sd.
          rbind (sreg sa line ''src1'') (\<lambda>sa.
          rbind (sreg sb line ''src2'') (\<lambda>sb.
            Inr (emit s (enc_r OP_S_ADD guard sd sa sb)))))
      | _ \<Rightarrow> err line ''S_ADD takes sD, sA, sB'')"

definition instr_s_add_i :: "asm \<Rightarrow> u32 \<Rightarrow> operand list \<Rightarrow> nat \<Rightarrow> asm res" where
  "instr_s_add_i s guard ops line =
     (case ops of
        [sd, sa, imm] \<Rightarrow>
          rbind (sreg sd line ''destination'') (\<lambda>sd.
          rbind (sreg sa line ''source'') (\<lambda>sa.
          rbind (resolve_imm s imm line) (\<lambda>(r, s).
            case r of
              Inline v \<Rightarrow> Inr (emit s (enc_i OP_S_ADD_I guard sd sa v))
            | ViaLit idx \<Rightarrow>
                let s = emit s (enc_i OP_S_LDW 0 SCRATCH_SCALAR 0 (u32_as_i32 idx))
                in Inr (emit s (enc_r OP_S_ADD guard sd sa SCRATCH_SCALAR)))))
      | _ \<Rightarrow> err line ''S_ADD_I takes sD, sA, immediate'')"

definition instr_s_ldw :: "asm \<Rightarrow> u32 \<Rightarrow> operand list \<Rightarrow> nat \<Rightarrow> asm res" where
  "instr_s_ldw s guard ops line =
     (case ops of
        [sd, Imm idx] \<Rightarrow>
          rbind (sreg sd line ''destination'') (\<lambda>sd.
            if idx < 0 then err line ''negative literal index''
            else
              let s = s\<lparr>a_ldw_refs := a_ldw_refs s @ [(line, as_u32 idx)]\<rparr>
              in Inr (emit s (enc_i OP_S_LDW guard sd 0 (as_i32 idx))))
      | _ \<Rightarrow> err line ''S_LDW takes sD and a literal-pool index'')"

definition instr_s_cmp_lt :: "asm \<Rightarrow> u32 \<Rightarrow> operand list \<Rightarrow> nat \<Rightarrow> asm res" where
  "instr_s_cmp_lt s guard ops line =
     (case ops of
        [pd, sa, sb] \<Rightarrow>
          rbind (pred pd line ''dest predicate'') (\<lambda>pd.
          rbind (sreg sa line ''src1'') (\<lambda>sa.
          rbind (sreg sb line ''src2'') (\<lambda>sb.
            Inr (emit s (enc_r OP_S_CMP_LT guard pd sa sb)))))
      | _ \<Rightarrow> err line ''S_CMP_LT takes pD, sA, sB'')"

definition instr_s_cmp_lt_i :: "asm \<Rightarrow> u32 \<Rightarrow> operand list \<Rightarrow> nat \<Rightarrow> asm res" where
  "instr_s_cmp_lt_i s guard ops line =
     (case ops of
        [pd, sa, imm] \<Rightarrow>
          rbind (pred pd line ''dest predicate'') (\<lambda>pd.
          rbind (sreg sa line ''source'') (\<lambda>sa.
          rbind (resolve_imm s imm line) (\<lambda>(r, s).
            case r of
              Inline v \<Rightarrow> Inr (emit s (enc_i OP_S_CMP_LT_I guard pd sa v))
            | ViaLit idx \<Rightarrow>
                let s = emit s (enc_i OP_S_LDW 0 SCRATCH_SCALAR 0 (u32_as_i32 idx))
                in Inr (emit s (enc_r OP_S_CMP_LT guard pd sa SCRATCH_SCALAR)))))
      | _ \<Rightarrow> err line ''S_CMP_LT_I takes pD, sA, immediate'')"

definition instr_s_bcast :: "asm \<Rightarrow> u32 \<Rightarrow> operand list \<Rightarrow> nat \<Rightarrow> asm res" where
  "instr_s_bcast s guard ops line =
     (case ops of
        [rd, ss1] \<Rightarrow>
          rbind (vreg rd line ''dest'') (\<lambda>rd.
          rbind (sreg ss1 line ''source'') (\<lambda>ss1.
            Inr (emit s (enc_r OP_S_BCAST guard rd ss1 0))))
      | _ \<Rightarrow> err line ''S_BCAST takes rD, sS'')"

definition instr_s_get :: "asm \<Rightarrow> u32 \<Rightarrow> operand list \<Rightarrow> nat \<Rightarrow> asm res" where
  "instr_s_get s guard ops line =
     (case ops of
        [sd, rs1] \<Rightarrow>
          rbind (sreg sd line ''dest'') (\<lambda>sd.
          rbind (vreg rs1 line ''source'') (\<lambda>rs1.
            Inr (emit s (enc_r OP_S_GET guard sd rs1 0))))
      | _ \<Rightarrow> err line ''S_GET takes sD, rS'')"

definition instr_jump :: "asm \<Rightarrow> u32 \<Rightarrow> u32 \<Rightarrow> string \<Rightarrow> operand list \<Rightarrow> nat \<Rightarrow> asm res" where
  "instr_jump s op guard mnemonic ops line =
     (case ops of
        [target] \<Rightarrow> emit_branch s op guard target line
      | _ \<Rightarrow> err line (mnemonic @ '' takes a target''))"

definition instr :: "asm \<Rightarrow> u32 \<Rightarrow> string \<Rightarrow> operand list \<Rightarrow> nat \<Rightarrow> asm res" where
  "instr s guard mnemonic ops line =
     (if mnemonic = ''NOP'' then Inr (emit s (enc_r OP_NOP guard 0 0 0))
      else if mnemonic = ''HALT'' then Inr (emit s (enc_r OP_HALT guard 0 0 0))
      else if mnemonic = ''YIELD'' then Inr (emit s (enc_r OP_YIELD guard 0 0 0))
      else if mnemonic = ''MOV'' \<or> mnemonic = ''MOV_I'' then encode_mov s guard ops line
      else if mnemonic = ''ADD'' \<or> mnemonic = ''ADD_I'' then encode_bin3 s OP_ADD (Some OP_ADD_I) guard ops line
      else if mnemonic = ''SUB'' \<or> mnemonic = ''SUB_I'' then encode_bin3 s OP_SUB (Some OP_SUB_I) guard ops line
      else if mnemonic = ''MUL'' \<or> mnemonic = ''MUL_I'' then encode_bin3 s OP_MUL (Some OP_MUL_I) guard ops line
      else if mnemonic = ''AND'' \<or> mnemonic = ''AND_I'' then encode_bin3 s OP_AND (Some OP_AND_I) guard ops line
      else if mnemonic = ''OR'' \<or> mnemonic = ''OR_I'' then encode_bin3 s OP_OR (Some OP_OR_I) guard ops line
      else if mnemonic = ''XOR'' \<or> mnemonic = ''XOR_I'' then encode_bin3 s OP_XOR (Some OP_XOR_I) guard ops line
      else if mnemonic = ''SHL'' \<or> mnemonic = ''SHL_I'' then encode_bin3 s OP_SHL (Some OP_SHL_I) guard ops line
      else if mnemonic = ''SHR'' \<or> mnemonic = ''SHR_I'' then encode_bin3 s OP_SHR (Some OP_SHR_I) guard ops line
      else if mnemonic = ''DIV'' then encode_bin3 s OP_DIV None guard ops line
      else if mnemonic = ''MOD'' then encode_bin3 s OP_MOD None guard ops line
      else if mnemonic = ''MIN'' then encode_bin3 s OP_MIN None guard ops line
      else if mnemonic = ''MAX'' then encode_bin3 s OP_MAX None guard ops line
      else if mnemonic = ''ABS'' then encode_unary s OP_ABS guard ops line
      else if mnemonic = ''NEG'' then encode_unary s OP_NEG guard ops line
      else if mnemonic = ''NOT'' then encode_unary s OP_NOT guard ops line
      else if mnemonic = ''CMP_EQ'' then encode_cmp s OP_CMP_EQ OP_CMP_EQ_I guard ops line
      else if mnemonic = ''CMP_NE'' then encode_cmp s OP_CMP_NE OP_CMP_NE_I guard ops line
      else if mnemonic = ''CMP_LT'' then encode_cmp s OP_CMP_LT OP_CMP_LT_I guard ops line
      else if mnemonic = ''CMP_LE'' then encode_cmp s OP_CMP_LE OP_CMP_LE_I guard ops line
      else if mnemonic = ''CMP_GT'' then encode_cmp s OP_CMP_GT OP_CMP_GT_I guard ops line
      else if mnemonic = ''CMP_GE'' then encode_cmp s OP_CMP_GE OP_CMP_GE_I guard ops line
      else if mnemonic = ''NOTMASK'' then encode_mask2 s OP_NOTMASK guard ops line
      else if mnemonic = ''ANDMASK'' then encode_mask3 s OP_ANDMASK guard ops line
      else if mnemonic = ''ORMASK'' then encode_mask3 s OP_ORMASK guard ops line
      else if mnemonic = ''BALLOT'' then encode_ballot s guard ops line
      else if mnemonic = ''ANY'' then encode_anyall s OP_ANY guard ops line
      else if mnemonic = ''ALL'' then encode_anyall s OP_ALL guard ops line
      else if mnemonic = ''LANEID'' then encode_dest_only s OP_LANEID guard ops line
      else if mnemonic = ''VMID'' then encode_dest_only s OP_VMID guard ops line
      else if mnemonic = ''CLOCK'' then encode_dest_only s OP_CLOCK guard ops line
      else if mnemonic = ''RAND'' then encode_dest_only s OP_RAND guard ops line
      else if mnemonic = ''BROADCAST'' then encode_lane_imm s OP_BROADCAST guard ops line
      else if mnemonic = ''SHUFFLE_XOR'' then encode_lane_imm s OP_SHUFFLE_XOR guard ops line
      else if mnemonic = ''SHUFFLE'' then encode_shuffle s guard ops line
      else if mnemonic = ''REDUCE_ADD'' then encode_unary s OP_REDUCE_ADD guard ops line
      else if mnemonic = ''REDUCE_MIN'' then encode_unary s OP_REDUCE_MIN guard ops line
      else if mnemonic = ''REDUCE_MAX'' then encode_unary s OP_REDUCE_MAX guard ops line
      else if mnemonic = ''REDUCE_AND'' then encode_unary s OP_REDUCE_AND guard ops line
      else if mnemonic = ''REDUCE_OR'' then encode_unary s OP_REDUCE_OR guard ops line
      else if mnemonic = ''REDUCE_XOR'' then encode_unary s OP_REDUCE_XOR guard ops line
      else if mnemonic = ''LOAD'' \<or> mnemonic = ''STORE'' then instr_load_store s guard mnemonic ops line
      else if mnemonic = ''LDW'' then instr_ldw s guard ops line
      else if mnemonic = ''LOG'' then instr_log s guard ops line
      else if mnemonic = ''LOG_I'' then instr_log_i s guard ops line
      else if mnemonic = ''FLIP'' then instr_flip s guard ops line
      else if mnemonic = ''SEND'' then instr_send s guard ops line
      else if mnemonic = ''TRY_RECV'' then instr_try_recv s guard ops line
      else if mnemonic = ''S_MOV'' then instr_s_mov s guard ops line
      else if mnemonic = ''S_MOV_I'' then instr_s_mov_i s guard ops line
      else if mnemonic = ''S_ADD'' then instr_s_add s guard ops line
      else if mnemonic = ''S_ADD_I'' then instr_s_add_i s guard ops line
      else if mnemonic = ''S_LDW'' then instr_s_ldw s guard ops line
      else if mnemonic = ''S_CMP_LT'' then instr_s_cmp_lt s guard ops line
      else if mnemonic = ''S_CMP_LT_I'' then instr_s_cmp_lt_i s guard ops line
      else if mnemonic = ''S_BCAST'' then instr_s_bcast s guard ops line
      else if mnemonic = ''S_GET'' then instr_s_get s guard ops line
      else if mnemonic = ''JMP'' then instr_jump s OP_JMP guard mnemonic ops line
      else if mnemonic = ''CALL'' then instr_jump s OP_CALL guard mnemonic ops line
      else if mnemonic = ''RET'' then Inr (emit s (enc_r OP_RET guard 0 0 0))
      else if mnemonic = ''JMP_IF_ANY'' then encode_jmp_if s OP_JMP_IF_ANY guard ops line
      else if mnemonic = ''JMP_IF_ALL'' then encode_jmp_if s OP_JMP_IF_ALL guard ops line
      else err line (''unknown mnemonic '' @ quoted mnemonic @ '' (see docs/isa.md for the v0.1 set)''))"

section \<open>The pass and its result\<close>

definition step_stmt :: "asm \<Rightarrow> stmt \<Rightarrow> asm res" where
  "step_stmt s st =
     (case st of
        Label line name \<Rightarrow>
          if a_labels s name \<noteq> None then err line (''duplicate label '' @ quoted name)
          else Inr (s\<lparr>a_labels := (a_labels s)(name \<mapsto> of_nat (length (a_code s)))\<rparr>)
      | Directive line name args \<Rightarrow> directive s name args line
      | Instr line guard mnemonic operands \<Rightarrow> instr s guard mnemonic operands line)"

definition pass :: "asm \<Rightarrow> program \<Rightarrow> asm res" where
  "pass s prog = fold_res step_stmt s (stmts prog)"

definition check_ldw_ref :: "asm \<Rightarrow> unit \<Rightarrow> nat \<times> u32 \<Rightarrow> unit res" where
  "check_ldw_ref s u ref =
     (case ref of (line, idx) \<Rightarrow>
        if length (a_literals s) \<le> unat idx
        then err line (''literal index '' @ word_str idx @ '' out of range'')
        else Inr ())"

definition finish :: "asm \<Rightarrow> assembled res" where
  "finish s =
     rbind (resolve_fixups s) (\<lambda>s.
     rbind (fold_res (check_ldw_ref s) () (a_ldw_refs s)) (\<lambda>_.
       if MAX_CODE_WORDS < length (a_code s)
       then Inl (Err (''program too long ('' @ nat_str (length (a_code s)) @ '' words)''))
       else if a_code s = [] then Inl (Err ''empty program'')
       else Inr \<lparr>out_code = a_code s, out_literals = a_literals s\<rparr>))"

definition assemble :: "string \<Rightarrow> assembled res" where
  "assemble src =
     rbind (parse src) (\<lambda>prog.
     rbind (pass new_asm prog) finish)"

end
