(* ===== verification/Disasm.thy ===== *)
theory Disasm
  imports Isa
begin

text \<open>
  The disassembler (\<open>tools/warpvm-asm/src/disasm.rs\<close>): one line of assembly per word, a
  \<open>.const\<close> line per literal. \<open>render\<close> is the body of a line, \<open>None\<close> when a field is out of
  range for the operand class; such a word is written with \<open>.word\<close>.

  A register name is built in the source by \<open>vreg\<close>, \<open>sreg\<close> and \<open>pred\<close>; they are \<open>vreg_text\<close>,
  \<open>sreg_text\<close> and \<open>pred_text\<close> here, since the assembler has extractors of those names.
\<close>

definition vreg_text :: "u32 \<Rightarrow> string" where "vreg_text n = CHR ''r'' # word_str n"
definition sreg_text :: "u32 \<Rightarrow> string" where "sreg_text n = CHR ''s'' # word_str n"
definition pred_text :: "u32 \<Rightarrow> string" where "pred_text n = CHR ''p'' # word_str n"
definition sreg_ok :: "u32 \<Rightarrow> bool" where "sreg_ok n \<longleftrightarrow> n < 8"
definition pred_ok :: "u32 \<Rightarrow> bool" where "pred_ok n \<longleftrightarrow> n < 4"

text \<open>The formats \<open>OP a, b\<close>, \<open>OP a, b, c\<close> and \<open>OP a\<close> of the source's format strings.\<close>

definition fmt1 :: "string \<Rightarrow> string \<Rightarrow> string" where
  "fmt1 name a = name @ '' '' @ a"

definition fmt2 :: "string \<Rightarrow> string \<Rightarrow> string \<Rightarrow> string" where
  "fmt2 name a b = name @ '' '' @ a @ '', '' @ b"

definition fmt3 :: "string \<Rightarrow> string \<Rightarrow> string \<Rightarrow> string \<Rightarrow> string" where
  "fmt3 name a b c = name @ '' '' @ a @ '', '' @ b @ '', '' @ c"

definition imm_text :: "int \<Rightarrow> string" where
  "imm_text i = CHR ''#'' # int_str i"

definition bin3 :: "decoded \<Rightarrow> string \<Rightarrow> string \<Rightarrow> bool \<Rightarrow> string" where
  "bin3 d name name_i is_imm =
     (if is_imm then fmt3 name_i (vreg_text (d_rd d)) (vreg_text (d_rs1 d)) (imm_text (d_imm d))
      else fmt3 name (vreg_text (d_rd d)) (vreg_text (d_rs1 d)) (vreg_text (d_rs2 d)))"

text \<open>The mnemonic shared by the two forms of a comparison.\<close>

definition cmp_name :: "u32 \<Rightarrow> string" where
  "cmp_name op =
     (if op = OP_CMP_EQ then ''CMP_EQ'' else if op = OP_CMP_NE then ''CMP_NE''
      else if op = OP_CMP_LT then ''CMP_LT'' else if op = OP_CMP_LE then ''CMP_LE''
      else if op = OP_CMP_GT then ''CMP_GT'' else ''CMP_GE'')"

definition cmp_i_name :: "u32 \<Rightarrow> string" where
  "cmp_i_name op =
     (if op = OP_CMP_EQ_I then ''CMP_EQ'' else if op = OP_CMP_NE_I then ''CMP_NE''
      else if op = OP_CMP_LT_I then ''CMP_LT'' else if op = OP_CMP_LE_I then ''CMP_LE''
      else if op = OP_CMP_GT_I then ''CMP_GT'' else ''CMP_GE'')"

definition ldw_note :: "u32 list \<Rightarrow> u32 \<Rightarrow> string" where
  "ldw_note literals lo =
     (if unat lo < length literals then '' ; lit='' @ word_str (literals ! unat lo) else [])"

definition when_ok :: "bool \<Rightarrow> string \<Rightarrow> string option" where
  "when_ok ok body = (if ok then Some body else None)"

definition render_body :: "decoded \<Rightarrow> u32 list \<Rightarrow> string option" where
  "render_body d literals =
     (let op = d_op d; rd = d_rd d; rs1 = d_rs1 d; rs2 = d_rs2 d in
      if op = OP_NOP then Some ''NOP''
      else if op = OP_HALT then Some ''HALT''
      else if op = OP_YIELD then Some ''YIELD''
      else if op = OP_MOV then Some (fmt2 ''MOV'' (vreg_text rd) (vreg_text rs1))
      else if op = OP_MOV_I then Some (fmt2 ''MOV_I'' (vreg_text rd) (imm_text (d_imm d)))
      else if op = OP_ADD then Some (bin3 d ''ADD'' ''ADD_I'' False)
      else if op = OP_SUB then Some (bin3 d ''SUB'' ''SUB_I'' False)
      else if op = OP_MUL then Some (bin3 d ''MUL'' ''MUL_I'' False)
      else if op = OP_AND then Some (bin3 d ''AND'' ''AND_I'' False)
      else if op = OP_OR then Some (bin3 d ''OR'' ''OR_I'' False)
      else if op = OP_XOR then Some (bin3 d ''XOR'' ''XOR_I'' False)
      else if op = OP_SHL then Some (bin3 d ''SHL'' ''SHL_I'' False)
      else if op = OP_SHR then Some (bin3 d ''SHR'' ''SHR_I'' False)
      else if op = OP_ADD_I then Some (bin3 d ''ADD'' ''ADD_I'' True)
      else if op = OP_SUB_I then Some (bin3 d ''SUB'' ''SUB_I'' True)
      else if op = OP_MUL_I then Some (bin3 d ''MUL'' ''MUL_I'' True)
      else if op = OP_AND_I then Some (bin3 d ''AND'' ''AND_I'' True)
      else if op = OP_OR_I then Some (bin3 d ''OR'' ''OR_I'' True)
      else if op = OP_XOR_I then Some (bin3 d ''XOR'' ''XOR_I'' True)
      else if op = OP_SHL_I then Some (bin3 d ''SHL'' ''SHL_I'' True)
      else if op = OP_SHR_I then Some (bin3 d ''SHR'' ''SHR_I'' True)
      else if op = OP_DIV then Some (bin3 d ''DIV'' [] False)
      else if op = OP_MOD then Some (bin3 d ''MOD'' [] False)
      else if op = OP_MIN then Some (bin3 d ''MIN'' [] False)
      else if op = OP_MAX then Some (bin3 d ''MAX'' [] False)
      else if op = OP_ABS then Some (fmt2 ''ABS'' (vreg_text rd) (vreg_text rs1))
      else if op = OP_NEG then Some (fmt2 ''NEG'' (vreg_text rd) (vreg_text rs1))
      else if op = OP_NOT then Some (fmt2 ''NOT'' (vreg_text rd) (vreg_text rs1))
      else if op = OP_CMP_EQ \<or> op = OP_CMP_NE \<or> op = OP_CMP_LT \<or> op = OP_CMP_LE \<or> op = OP_CMP_GT \<or> op = OP_CMP_GE then 
          when_ok (pred_ok rd) (fmt3 (cmp_name op) (pred_text rd) (vreg_text rs1) (vreg_text rs2))
      else if op = OP_CMP_EQ_I \<or> op = OP_CMP_NE_I \<or> op = OP_CMP_LT_I \<or> op = OP_CMP_LE_I \<or> op = OP_CMP_GT_I \<or> op = OP_CMP_GE_I then 
          when_ok (pred_ok rd) (fmt3 (cmp_i_name op) (pred_text rd) (vreg_text rs1) (imm_text (d_imm d)))
      else if op = OP_NOTMASK then 
          when_ok (pred_ok rd \<and> pred_ok rs1) (fmt2 ''NOTMASK'' (pred_text rd) (pred_text rs1))
      else if op = OP_ANDMASK \<or> op = OP_ORMASK then 
          when_ok (pred_ok rd \<and> pred_ok rs1 \<and> pred_ok rs2)
            (fmt3 (if op = OP_ANDMASK then ''ANDMASK'' else ''ORMASK'')
              (pred_text rd) (pred_text rs1) (pred_text rs2))
      else if op = OP_BALLOT then 
          when_ok (pred_ok rd) (fmt2 ''BALLOT'' (pred_text rd) (vreg_text rs1))
      else if op = OP_ANY \<or> op = OP_ALL then 
          when_ok (pred_ok rd \<and> pred_ok rs1)
            (fmt2 (if op = OP_ANY then ''ANY'' else ''ALL'') (pred_text rd) (pred_text rs1))
      else if op = OP_LANEID then Some (fmt1 ''LANEID'' (vreg_text rd))
      else if op = OP_VMID then Some (fmt1 ''VMID'' (vreg_text rd))
      else if op = OP_CLOCK then Some (fmt1 ''CLOCK'' (vreg_text rd))
      else if op = OP_RAND then Some (fmt1 ''RAND'' (vreg_text rd))
      else if op = OP_BROADCAST then Some (fmt3 ''BROADCAST'' (vreg_text rd) (vreg_text rs1) (CHR ''#'' # word_str (d_lo d)))
      else if op = OP_SHUFFLE then Some (fmt3 ''SHUFFLE'' (vreg_text rd) (vreg_text rs1) (vreg_text rs2))
      else if op = OP_SHUFFLE_XOR then Some (fmt3 ''SHUFFLE_XOR'' (vreg_text rd) (vreg_text rs1) (CHR ''#'' # word_str (d_lo d)))
      else if op = OP_REDUCE_ADD then Some (fmt2 ''REDUCE_ADD'' (vreg_text rd) (vreg_text rs1))
      else if op = OP_REDUCE_MIN then Some (fmt2 ''REDUCE_MIN'' (vreg_text rd) (vreg_text rs1))
      else if op = OP_REDUCE_MAX then Some (fmt2 ''REDUCE_MAX'' (vreg_text rd) (vreg_text rs1))
      else if op = OP_REDUCE_AND then Some (fmt2 ''REDUCE_AND'' (vreg_text rd) (vreg_text rs1))
      else if op = OP_REDUCE_OR then Some (fmt2 ''REDUCE_OR'' (vreg_text rd) (vreg_text rs1))
      else if op = OP_REDUCE_XOR then Some (fmt2 ''REDUCE_XOR'' (vreg_text rd) (vreg_text rs1))
      else if op = OP_LOAD then Some (fmt2 ''LOAD'' (vreg_text rd) (vreg_text rs1))
      else if op = OP_STORE then Some (fmt2 ''STORE'' (vreg_text rd) (vreg_text rs1))
      else if op = OP_LDW then Some (fmt2 ''LDW'' (vreg_text rd) (CHR ''#'' # word_str (d_lo d) @ ldw_note literals (d_lo d)))
      else if op = OP_LOG then Some (fmt2 ''LOG'' (vreg_text rs1) (vreg_text rs2))
      else if op = OP_LOG_I then Some (fmt2 ''LOG_I'' (vreg_text rs1) (imm_text (d_imm d)))
      else if op = OP_FLIP then Some ''FLIP''
      else if op = OP_SEND then Some (fmt3 ''SEND'' (vreg_text rd) (vreg_text rs1) (vreg_text rs2))
      else if op = OP_TRY_RECV then 
          when_ok (pred_ok rd) (fmt3 ''TRY_RECV'' (pred_text rd) (vreg_text rs1) (vreg_text rs2))
      else if op = OP_S_MOV then 
          when_ok (sreg_ok rd \<and> sreg_ok rs1) (fmt2 ''S_MOV'' (sreg_text rd) (sreg_text rs1))
      else if op = OP_S_MOV_I then 
          when_ok (sreg_ok rd) (fmt2 ''S_MOV_I'' (sreg_text rd) (imm_text (d_imm d)))
      else if op = OP_S_ADD then 
          when_ok (sreg_ok rd \<and> sreg_ok rs1 \<and> sreg_ok rs2)
            (fmt3 ''S_ADD'' (sreg_text rd) (sreg_text rs1) (sreg_text rs2))
      else if op = OP_S_ADD_I then 
          when_ok (sreg_ok rd \<and> sreg_ok rs1)
            (fmt3 ''S_ADD_I'' (sreg_text rd) (sreg_text rs1) (imm_text (d_imm d)))
      else if op = OP_S_LDW then 
          when_ok (sreg_ok rd) (fmt2 ''S_LDW'' (sreg_text rd) (CHR ''#'' # word_str (d_lo d)))
      else if op = OP_S_CMP_LT then 
          when_ok (pred_ok rd \<and> sreg_ok rs1 \<and> sreg_ok rs2)
            (fmt3 ''S_CMP_LT'' (pred_text rd) (sreg_text rs1) (sreg_text rs2))
      else if op = OP_S_CMP_LT_I then 
          when_ok (pred_ok rd \<and> sreg_ok rs1)
            (fmt3 ''S_CMP_LT_I'' (pred_text rd) (sreg_text rs1) (imm_text (d_imm d)))
      else if op = OP_S_BCAST then 
          when_ok (sreg_ok rs1) (fmt2 ''S_BCAST'' (vreg_text rd) (sreg_text rs1))
      else if op = OP_S_GET then 
          when_ok (sreg_ok rd) (fmt2 ''S_GET'' (sreg_text rd) (vreg_text rs1))
      else if op = OP_JMP then Some (fmt1 ''JMP'' (imm_text (d_imm d)))
      else if op = OP_CALL then Some (fmt1 ''CALL'' (imm_text (d_imm d)))
      else if op = OP_RET then Some ''RET''
      else if op = OP_JMP_IF_ANY \<or> op = OP_JMP_IF_ALL then 
          when_ok (1 \<le> d_guard d \<and> d_guard d \<le> 4)
            (fmt2 (if op = OP_JMP_IF_ANY then ''JMP_IF_ANY'' else ''JMP_IF_ALL'')
              (pred_text (d_guard d - 1)) (imm_text (d_imm d)))
      else None)"

definition render :: "decoded \<Rightarrow> u32 list \<Rightarrow> string option" where
  "render d literals =
     (let g = guard_text (d_guard d);
          suppress_guard = (d_op d = OP_JMP_IF_ANY \<or> d_op d = OP_JMP_IF_ALL)
      in case render_body d literals of
           None \<Rightarrow> None
         | Some body \<Rightarrow> if g = [] \<or> suppress_guard then Some body else Some (g @ '' '' @ body))"

definition const_line :: "nat \<times> u32 \<Rightarrow> string" where
  "const_line iv = (case iv of (i, v) \<Rightarrow> ''.const L'' @ nat_str i @ '' '' @ word_str v @ [newline])"

definition code_line :: "u32 list \<Rightarrow> nat \<times> u32 \<Rightarrow> string" where
  "code_line literals aw =
     (case aw of (addr, word) \<Rightarrow>
        let body = (case render (decode word) literals of
                      Some b \<Rightarrow> b
                    | None \<Rightarrow> ''.word 0x'' @ hex_padded 8 (uint word))
        in body @ '' ; '' @ hex_padded 4 (int addr) @ [newline])"

definition disassemble :: "u32 list \<Rightarrow> u32 list \<Rightarrow> string" where
  "disassemble code literals =
     ''; warpvm disassembly'' @ [newline]
     @ ''; code: '' @ nat_str (length code) @ '' words, literals: '' @ nat_str (length literals)
     @ [newline]
     @ concat (map const_line (enumerate 0 literals))
     @ (if literals \<noteq> [] then [newline] else [])
     @ concat (map (code_line literals) (enumerate 0 code))"

end
