(* ===== verification/Asm_Table.thy ===== *)
theory Asm_Table
  imports Assemble Disasm
begin

text \<open>
  The assembly language as a table, and both tools against it. A row gives an opcode, its
  mnemonic and the shape of its operands. \<open>render_row\<close> shows that the disassembler's match
  prints the row, \<open>instr_row\<close> that the assembler's match encodes it: the two long matches of
  the source agree because each agrees with the table.
\<close>

section \<open>The table\<close>

datatype reg_class = VecR | ScaR | PreR

datatype shape =
    Bare
  | Unguarded
  | Rd reg_class
  | RdRs reg_class reg_class
  | RdImm reg_class
  | Regs3 reg_class reg_class reg_class
  | Regs2Imm reg_class reg_class
  | Lane
  | PoolRef reg_class
  | Sources
  | SourceImm
  | Target
  | CondTarget

definition asm_table :: "(u32 \<times> string \<times> shape) list" where
  "asm_table =
     [(OP_NOP, ''NOP'', Bare),
      (OP_HALT, ''HALT'', Bare),
      (OP_YIELD, ''YIELD'', Bare),
      (OP_MOV, ''MOV'', RdRs VecR VecR),
      (OP_MOV_I, ''MOV_I'', RdImm VecR),
      (OP_ADD, ''ADD'', Regs3 VecR VecR VecR),
      (OP_SUB, ''SUB'', Regs3 VecR VecR VecR),
      (OP_MUL, ''MUL'', Regs3 VecR VecR VecR),
      (OP_AND, ''AND'', Regs3 VecR VecR VecR),
      (OP_OR, ''OR'', Regs3 VecR VecR VecR),
      (OP_XOR, ''XOR'', Regs3 VecR VecR VecR),
      (OP_SHL, ''SHL'', Regs3 VecR VecR VecR),
      (OP_SHR, ''SHR'', Regs3 VecR VecR VecR),
      (OP_ADD_I, ''ADD_I'', Regs2Imm VecR VecR),
      (OP_SUB_I, ''SUB_I'', Regs2Imm VecR VecR),
      (OP_MUL_I, ''MUL_I'', Regs2Imm VecR VecR),
      (OP_AND_I, ''AND_I'', Regs2Imm VecR VecR),
      (OP_OR_I, ''OR_I'', Regs2Imm VecR VecR),
      (OP_XOR_I, ''XOR_I'', Regs2Imm VecR VecR),
      (OP_SHL_I, ''SHL_I'', Regs2Imm VecR VecR),
      (OP_SHR_I, ''SHR_I'', Regs2Imm VecR VecR),
      (OP_DIV, ''DIV'', Regs3 VecR VecR VecR),
      (OP_MOD, ''MOD'', Regs3 VecR VecR VecR),
      (OP_MIN, ''MIN'', Regs3 VecR VecR VecR),
      (OP_MAX, ''MAX'', Regs3 VecR VecR VecR),
      (OP_ABS, ''ABS'', RdRs VecR VecR),
      (OP_NEG, ''NEG'', RdRs VecR VecR),
      (OP_NOT, ''NOT'', RdRs VecR VecR),
      (OP_CMP_EQ, ''CMP_EQ'', Regs3 PreR VecR VecR),
      (OP_CMP_NE, ''CMP_NE'', Regs3 PreR VecR VecR),
      (OP_CMP_LT, ''CMP_LT'', Regs3 PreR VecR VecR),
      (OP_CMP_LE, ''CMP_LE'', Regs3 PreR VecR VecR),
      (OP_CMP_GT, ''CMP_GT'', Regs3 PreR VecR VecR),
      (OP_CMP_GE, ''CMP_GE'', Regs3 PreR VecR VecR),
      (OP_CMP_EQ_I, ''CMP_EQ'', Regs2Imm PreR VecR),
      (OP_CMP_NE_I, ''CMP_NE'', Regs2Imm PreR VecR),
      (OP_CMP_LT_I, ''CMP_LT'', Regs2Imm PreR VecR),
      (OP_CMP_LE_I, ''CMP_LE'', Regs2Imm PreR VecR),
      (OP_CMP_GT_I, ''CMP_GT'', Regs2Imm PreR VecR),
      (OP_CMP_GE_I, ''CMP_GE'', Regs2Imm PreR VecR),
      (OP_NOTMASK, ''NOTMASK'', RdRs PreR PreR),
      (OP_ANDMASK, ''ANDMASK'', Regs3 PreR PreR PreR),
      (OP_ORMASK, ''ORMASK'', Regs3 PreR PreR PreR),
      (OP_BALLOT, ''BALLOT'', RdRs PreR VecR),
      (OP_ANY, ''ANY'', RdRs PreR PreR),
      (OP_ALL, ''ALL'', RdRs PreR PreR),
      (OP_LANEID, ''LANEID'', Rd VecR),
      (OP_VMID, ''VMID'', Rd VecR),
      (OP_CLOCK, ''CLOCK'', Rd VecR),
      (OP_RAND, ''RAND'', Rd VecR),
      (OP_BROADCAST, ''BROADCAST'', Lane),
      (OP_SHUFFLE, ''SHUFFLE'', Regs3 VecR VecR VecR),
      (OP_SHUFFLE_XOR, ''SHUFFLE_XOR'', Lane),
      (OP_REDUCE_ADD, ''REDUCE_ADD'', RdRs VecR VecR),
      (OP_REDUCE_MIN, ''REDUCE_MIN'', RdRs VecR VecR),
      (OP_REDUCE_MAX, ''REDUCE_MAX'', RdRs VecR VecR),
      (OP_REDUCE_AND, ''REDUCE_AND'', RdRs VecR VecR),
      (OP_REDUCE_OR, ''REDUCE_OR'', RdRs VecR VecR),
      (OP_REDUCE_XOR, ''REDUCE_XOR'', RdRs VecR VecR),
      (OP_LOAD, ''LOAD'', RdRs VecR VecR),
      (OP_STORE, ''STORE'', RdRs VecR VecR),
      (OP_LDW, ''LDW'', PoolRef VecR),
      (OP_LOG, ''LOG'', Sources),
      (OP_LOG_I, ''LOG_I'', SourceImm),
      (OP_FLIP, ''FLIP'', Unguarded),
      (OP_SEND, ''SEND'', Regs3 VecR VecR VecR),
      (OP_TRY_RECV, ''TRY_RECV'', Regs3 PreR VecR VecR),
      (OP_S_MOV, ''S_MOV'', RdRs ScaR ScaR),
      (OP_S_MOV_I, ''S_MOV_I'', RdImm ScaR),
      (OP_S_ADD, ''S_ADD'', Regs3 ScaR ScaR ScaR),
      (OP_S_ADD_I, ''S_ADD_I'', Regs2Imm ScaR ScaR),
      (OP_S_LDW, ''S_LDW'', PoolRef ScaR),
      (OP_S_CMP_LT, ''S_CMP_LT'', Regs3 PreR ScaR ScaR),
      (OP_S_CMP_LT_I, ''S_CMP_LT_I'', Regs2Imm PreR ScaR),
      (OP_S_BCAST, ''S_BCAST'', RdRs VecR ScaR),
      (OP_S_GET, ''S_GET'', RdRs ScaR VecR),
      (OP_JMP, ''JMP'', Target),
      (OP_CALL, ''CALL'', Target),
      (OP_RET, ''RET'', Bare),
      (OP_JMP_IF_ANY, ''JMP_IF_ANY'', CondTarget),
      (OP_JMP_IF_ALL, ''JMP_IF_ALL'', CondTarget)]"

text \<open>Registers by class: their text, their operand, the numbers a class has.\<close>

fun reg_text :: "reg_class \<Rightarrow> u32 \<Rightarrow> string" where
  "reg_text VecR n = vreg_text n"
| "reg_text ScaR n = sreg_text n"
| "reg_text PreR n = pred_text n"

fun reg_operand :: "reg_class \<Rightarrow> u32 \<Rightarrow> operand" where
  "reg_operand VecR n = VReg n"
| "reg_operand ScaR n = SReg n"
| "reg_operand PreR n = Pred n"

fun in_class :: "reg_class \<Rightarrow> u32 \<Rightarrow> bool" where
  "in_class VecR n \<longleftrightarrow> True"
| "in_class ScaR n \<longleftrightarrow> n < 8"
| "in_class PreR n \<longleftrightarrow> n < 4"

text \<open>What a shape prints, what it is read as, and the word it stands for.\<close>

fun shape_texts :: "shape \<Rightarrow> decoded \<Rightarrow> string list" where
  "shape_texts Bare d = []"
| "shape_texts Unguarded d = []"
| "shape_texts (Rd a) d = [reg_text a (d_rd d)]"
| "shape_texts (RdRs a b) d = [reg_text a (d_rd d), reg_text b (d_rs1 d)]"
| "shape_texts (RdImm a) d = [reg_text a (d_rd d), imm_text (d_imm d)]"
| "shape_texts (Regs3 a b c) d = [reg_text a (d_rd d), reg_text b (d_rs1 d), reg_text c (d_rs2 d)]"
| "shape_texts (Regs2Imm a b) d = [reg_text a (d_rd d), reg_text b (d_rs1 d), imm_text (d_imm d)]"
| "shape_texts Lane d = [vreg_text (d_rd d), vreg_text (d_rs1 d), CHR ''#'' # word_str (d_lo d)]"
| "shape_texts (PoolRef a) d = [reg_text a (d_rd d), CHR ''#'' # word_str (d_lo d)]"
| "shape_texts Sources d = [vreg_text (d_rs1 d), vreg_text (d_rs2 d)]"
| "shape_texts SourceImm d = [vreg_text (d_rs1 d), imm_text (d_imm d)]"
| "shape_texts Target d = [imm_text (d_imm d)]"
| "shape_texts CondTarget d = [pred_text (d_guard d - 1), imm_text (d_imm d)]"

fun shape_note :: "shape \<Rightarrow> u32 list \<Rightarrow> decoded \<Rightarrow> string" where
  "shape_note (PoolRef VecR) lits d = ldw_note lits (d_lo d)"
| "shape_note _ lits d = []"

fun shape_printable :: "shape \<Rightarrow> decoded \<Rightarrow> bool" where
  "shape_printable (Rd a) d \<longleftrightarrow> in_class a (d_rd d)"
| "shape_printable (RdRs a b) d \<longleftrightarrow> in_class a (d_rd d) \<and> in_class b (d_rs1 d)"
| "shape_printable (RdImm a) d \<longleftrightarrow> in_class a (d_rd d)"
| "shape_printable (Regs3 a b c) d \<longleftrightarrow> in_class a (d_rd d) \<and> in_class b (d_rs1 d) \<and> in_class c (d_rs2 d)"
| "shape_printable (Regs2Imm a b) d \<longleftrightarrow> in_class a (d_rd d) \<and> in_class b (d_rs1 d)"
| "shape_printable (PoolRef a) d \<longleftrightarrow> in_class a (d_rd d)"
| "shape_printable CondTarget d \<longleftrightarrow> 1 \<le> d_guard d \<and> d_guard d \<le> 4"
| "shape_printable _ d \<longleftrightarrow> True"

fun shape_operands :: "shape \<Rightarrow> decoded \<Rightarrow> operand list" where
  "shape_operands Bare d = []"
| "shape_operands Unguarded d = []"
| "shape_operands (Rd a) d = [reg_operand a (d_rd d)]"
| "shape_operands (RdRs a b) d = [reg_operand a (d_rd d), reg_operand b (d_rs1 d)]"
| "shape_operands (RdImm a) d = [reg_operand a (d_rd d), Imm (d_imm d)]"
| "shape_operands (Regs3 a b c) d =
     [reg_operand a (d_rd d), reg_operand b (d_rs1 d), reg_operand c (d_rs2 d)]"
| "shape_operands (Regs2Imm a b) d = [reg_operand a (d_rd d), reg_operand b (d_rs1 d), Imm (d_imm d)]"
| "shape_operands Lane d = [VReg (d_rd d), VReg (d_rs1 d), Imm (uint (d_lo d))]"
| "shape_operands (PoolRef a) d = [reg_operand a (d_rd d), Imm (uint (d_lo d))]"
| "shape_operands Sources d = [VReg (d_rs1 d), VReg (d_rs2 d)]"
| "shape_operands SourceImm d = [VReg (d_rs1 d), Imm (d_imm d)]"
| "shape_operands Target d = [Imm (d_imm d)]"
| "shape_operands CondTarget d = [Pred (d_guard d - 1), Imm (d_imm d)]"

text \<open>The guard in front of the mnemonic: a conditional jump has its predicate as operand.\<close>

fun shape_guard :: "shape \<Rightarrow> decoded \<Rightarrow> u32" where
  "shape_guard CondTarget d = 0"
| "shape_guard _ d = d_guard d"

fun shape_word :: "shape \<Rightarrow> u32 \<Rightarrow> decoded \<Rightarrow> u32" where
  "shape_word (Rd _) op d = enc_r op (d_guard d) (d_rd d) 0 0"
| "shape_word (RdRs _ _) op d = enc_r op (d_guard d) (d_rd d) (d_rs1 d) 0"
| "shape_word (RdImm _) op d = enc_i op (d_guard d) (d_rd d) 0 (d_imm d)"
| "shape_word (Regs3 _ _ _) op d = enc_r op (d_guard d) (d_rd d) (d_rs1 d) (d_rs2 d)"
| "shape_word (Regs2Imm _ _) op d = enc_i op (d_guard d) (d_rd d) (d_rs1 d) (d_imm d)"
| "shape_word Lane op d = enc_i op (d_guard d) (d_rd d) (d_rs1 d) (uint (d_lo d))"
| "shape_word (PoolRef _) op d = enc_i op (d_guard d) (d_rd d) 0 (uint (d_lo d))"
| "shape_word Sources op d = enc_r op (d_guard d) 0 (d_rs1 d) (d_rs2 d)"
| "shape_word SourceImm op d = enc_i op (d_guard d) 0 (d_rs1 d) (d_imm d)"
| "shape_word Target op d = enc_i op (d_guard d) 0 0 (d_imm d)"
| "shape_word CondTarget op d = enc_i op (d_guard d) 0 0 (d_imm d)"
| "shape_word _ op d = enc_r op (d_guard d) 0 0 0"

fun shape_refs :: "shape \<Rightarrow> nat \<Rightarrow> decoded \<Rightarrow> (nat \<times> u32) list" where
  "shape_refs (PoolRef _) line d = [(line, d_lo d)]"
| "shape_refs _ line d = []"

text \<open>The words of a shape that assembly text can state.\<close>

fun shape_canonical :: "shape \<Rightarrow> u32 list \<Rightarrow> decoded \<Rightarrow> bool" where
  "shape_canonical Bare lits d \<longleftrightarrow> d_rd d = 0 \<and> d_rs1 d = 0 \<and> d_lo d = 0"
| "shape_canonical Unguarded lits d \<longleftrightarrow> d_guard d = 0 \<and> d_rd d = 0 \<and> d_rs1 d = 0 \<and> d_lo d = 0"
| "shape_canonical (Rd _) lits d \<longleftrightarrow> d_rs1 d = 0 \<and> d_lo d = 0"
| "shape_canonical (RdRs _ _) lits d \<longleftrightarrow> d_lo d = 0"
| "shape_canonical (RdImm _) lits d \<longleftrightarrow> d_rs1 d = 0"
| "shape_canonical (Regs3 _ _ _) lits d \<longleftrightarrow> d_lo d < 16"
| "shape_canonical (Regs2Imm _ _) lits d \<longleftrightarrow> True"
| "shape_canonical Lane lits d \<longleftrightarrow> d_lo d < 32"
| "shape_canonical (PoolRef _) lits d \<longleftrightarrow> d_rs1 d = 0 \<and> unat (d_lo d) < length lits"
| "shape_canonical Sources lits d \<longleftrightarrow> d_rd d = 0 \<and> d_lo d < 16"
| "shape_canonical SourceImm lits d \<longleftrightarrow> d_rd d = 0"
| "shape_canonical Target lits d \<longleftrightarrow> d_rd d = 0 \<and> d_rs1 d = 0 \<and> d_lo d < 4096"
| "shape_canonical CondTarget lits d \<longleftrightarrow> d_rd d = 0 \<and> d_rs1 d = 0 \<and> d_lo d < 4096"

section \<open>The disassembler prints the table\<close>

definition shape_body :: "string \<Rightarrow> shape \<Rightarrow> u32 list \<Rightarrow> decoded \<Rightarrow> string option" where
  "shape_body name shape lits d =
     when_ok (shape_printable shape d)
       (name @ (if shape_texts shape d = [] then [] else '' '' @ join '', '' (shape_texts shape d))
        @ shape_note shape lits d)"

lemma fmt_join:
  "fmt1 name a = name @ '' '' @ join '', '' [a]"
  "fmt2 name a b = name @ '' '' @ join '', '' [a, b]"
  "fmt3 name a b c = name @ '' '' @ join '', '' [a, b, c]"
  by (simp_all add: fmt1_def fmt2_def fmt3_def)

lemma render_row:
  "\<forall>(op, name, shape)\<in>set asm_table. d_op d = op \<longrightarrow> render_body d lits = shape_body name shape lits d"
  by (simp add: asm_table_def render_body_def op_defs bin3_def cmp_name_def cmp_i_name_def Let_def
      shape_body_def when_ok_def fmt_join pred_ok_def sreg_ok_def)

lemma render_no_row:
  "d_op d \<notin> fst ` set asm_table \<Longrightarrow> render_body d lits = None"
  by (simp add: asm_table_def render_body_def Let_def)

section \<open>The assembler encodes the table\<close>

text \<open>The arms of the assembler's match by mnemonic.\<close>

lemma instr_dispatch:
  "instr s guard ''NOP'' ops line = Inr (emit s (enc_r OP_NOP guard 0 0 0))"
  "instr s guard ''HALT'' ops line = Inr (emit s (enc_r OP_HALT guard 0 0 0))"
  "instr s guard ''YIELD'' ops line = Inr (emit s (enc_r OP_YIELD guard 0 0 0))"
  "instr s guard ''MOV'' ops line = encode_mov s guard ops line"
  "instr s guard ''MOV_I'' ops line = encode_mov s guard ops line"
  "instr s guard ''ADD'' ops line = encode_bin3 s OP_ADD (Some OP_ADD_I) guard ops line"
  "instr s guard ''ADD_I'' ops line = encode_bin3 s OP_ADD (Some OP_ADD_I) guard ops line"
  "instr s guard ''SUB'' ops line = encode_bin3 s OP_SUB (Some OP_SUB_I) guard ops line"
  "instr s guard ''SUB_I'' ops line = encode_bin3 s OP_SUB (Some OP_SUB_I) guard ops line"
  "instr s guard ''MUL'' ops line = encode_bin3 s OP_MUL (Some OP_MUL_I) guard ops line"
  "instr s guard ''MUL_I'' ops line = encode_bin3 s OP_MUL (Some OP_MUL_I) guard ops line"
  "instr s guard ''AND'' ops line = encode_bin3 s OP_AND (Some OP_AND_I) guard ops line"
  "instr s guard ''AND_I'' ops line = encode_bin3 s OP_AND (Some OP_AND_I) guard ops line"
  "instr s guard ''OR'' ops line = encode_bin3 s OP_OR (Some OP_OR_I) guard ops line"
  "instr s guard ''OR_I'' ops line = encode_bin3 s OP_OR (Some OP_OR_I) guard ops line"
  "instr s guard ''XOR'' ops line = encode_bin3 s OP_XOR (Some OP_XOR_I) guard ops line"
  "instr s guard ''XOR_I'' ops line = encode_bin3 s OP_XOR (Some OP_XOR_I) guard ops line"
  "instr s guard ''SHL'' ops line = encode_bin3 s OP_SHL (Some OP_SHL_I) guard ops line"
  "instr s guard ''SHL_I'' ops line = encode_bin3 s OP_SHL (Some OP_SHL_I) guard ops line"
  "instr s guard ''SHR'' ops line = encode_bin3 s OP_SHR (Some OP_SHR_I) guard ops line"
  "instr s guard ''SHR_I'' ops line = encode_bin3 s OP_SHR (Some OP_SHR_I) guard ops line"
  "instr s guard ''DIV'' ops line = encode_bin3 s OP_DIV None guard ops line"
  "instr s guard ''MOD'' ops line = encode_bin3 s OP_MOD None guard ops line"
  "instr s guard ''MIN'' ops line = encode_bin3 s OP_MIN None guard ops line"
  "instr s guard ''MAX'' ops line = encode_bin3 s OP_MAX None guard ops line"
  "instr s guard ''ABS'' ops line = encode_unary s OP_ABS guard ops line"
  "instr s guard ''NEG'' ops line = encode_unary s OP_NEG guard ops line"
  "instr s guard ''NOT'' ops line = encode_unary s OP_NOT guard ops line"
  "instr s guard ''CMP_EQ'' ops line = encode_cmp s OP_CMP_EQ OP_CMP_EQ_I guard ops line"
  "instr s guard ''CMP_NE'' ops line = encode_cmp s OP_CMP_NE OP_CMP_NE_I guard ops line"
  "instr s guard ''CMP_LT'' ops line = encode_cmp s OP_CMP_LT OP_CMP_LT_I guard ops line"
  "instr s guard ''CMP_LE'' ops line = encode_cmp s OP_CMP_LE OP_CMP_LE_I guard ops line"
  "instr s guard ''CMP_GT'' ops line = encode_cmp s OP_CMP_GT OP_CMP_GT_I guard ops line"
  "instr s guard ''CMP_GE'' ops line = encode_cmp s OP_CMP_GE OP_CMP_GE_I guard ops line"
  "instr s guard ''NOTMASK'' ops line = encode_mask2 s OP_NOTMASK guard ops line"
  "instr s guard ''ANDMASK'' ops line = encode_mask3 s OP_ANDMASK guard ops line"
  "instr s guard ''ORMASK'' ops line = encode_mask3 s OP_ORMASK guard ops line"
  "instr s guard ''BALLOT'' ops line = encode_ballot s guard ops line"
  "instr s guard ''ANY'' ops line = encode_anyall s OP_ANY guard ops line"
  "instr s guard ''ALL'' ops line = encode_anyall s OP_ALL guard ops line"
  "instr s guard ''LANEID'' ops line = encode_dest_only s OP_LANEID guard ops line"
  "instr s guard ''VMID'' ops line = encode_dest_only s OP_VMID guard ops line"
  "instr s guard ''CLOCK'' ops line = encode_dest_only s OP_CLOCK guard ops line"
  "instr s guard ''RAND'' ops line = encode_dest_only s OP_RAND guard ops line"
  "instr s guard ''BROADCAST'' ops line = encode_lane_imm s OP_BROADCAST guard ops line"
  "instr s guard ''SHUFFLE_XOR'' ops line = encode_lane_imm s OP_SHUFFLE_XOR guard ops line"
  "instr s guard ''SHUFFLE'' ops line = encode_shuffle s guard ops line"
  "instr s guard ''REDUCE_ADD'' ops line = encode_unary s OP_REDUCE_ADD guard ops line"
  "instr s guard ''REDUCE_MIN'' ops line = encode_unary s OP_REDUCE_MIN guard ops line"
  "instr s guard ''REDUCE_MAX'' ops line = encode_unary s OP_REDUCE_MAX guard ops line"
  "instr s guard ''REDUCE_AND'' ops line = encode_unary s OP_REDUCE_AND guard ops line"
  "instr s guard ''REDUCE_OR'' ops line = encode_unary s OP_REDUCE_OR guard ops line"
  "instr s guard ''REDUCE_XOR'' ops line = encode_unary s OP_REDUCE_XOR guard ops line"
  "instr s guard ''LOAD'' ops line = instr_load_store s guard ''LOAD'' ops line"
  "instr s guard ''STORE'' ops line = instr_load_store s guard ''STORE'' ops line"
  "instr s guard ''LDW'' ops line = instr_ldw s guard ops line"
  "instr s guard ''LOG'' ops line = instr_log s guard ops line"
  "instr s guard ''LOG_I'' ops line = instr_log_i s guard ops line"
  "instr s guard ''FLIP'' ops line = instr_flip s guard ops line"
  "instr s guard ''SEND'' ops line = instr_send s guard ops line"
  "instr s guard ''TRY_RECV'' ops line = instr_try_recv s guard ops line"
  "instr s guard ''S_MOV'' ops line = instr_s_mov s guard ops line"
  "instr s guard ''S_MOV_I'' ops line = instr_s_mov_i s guard ops line"
  "instr s guard ''S_ADD'' ops line = instr_s_add s guard ops line"
  "instr s guard ''S_ADD_I'' ops line = instr_s_add_i s guard ops line"
  "instr s guard ''S_LDW'' ops line = instr_s_ldw s guard ops line"
  "instr s guard ''S_CMP_LT'' ops line = instr_s_cmp_lt s guard ops line"
  "instr s guard ''S_CMP_LT_I'' ops line = instr_s_cmp_lt_i s guard ops line"
  "instr s guard ''S_BCAST'' ops line = instr_s_bcast s guard ops line"
  "instr s guard ''S_GET'' ops line = instr_s_get s guard ops line"
  "instr s guard ''JMP'' ops line = instr_jump s OP_JMP guard ''JMP'' ops line"
  "instr s guard ''CALL'' ops line = instr_jump s OP_CALL guard ''CALL'' ops line"
  "instr s guard ''RET'' ops line = Inr (emit s (enc_r OP_RET guard 0 0 0))"
  "instr s guard ''JMP_IF_ANY'' ops line = encode_jmp_if s OP_JMP_IF_ANY guard ops line"
  "instr s guard ''JMP_IF_ALL'' ops line = encode_jmp_if s OP_JMP_IF_ALL guard ops line"
  by (simp_all add: instr_def)

lemma as_i32_range: "- (2 ^ 31) \<le> i \<Longrightarrow> i < 2 ^ 31 \<Longrightarrow> as_i32 i = i"
  by (simp add: as_i32_def sint_sbintrunc' signed_take_bit_int_eq_self)

text \<open>An immediate of the machine's range is resolved without the pool.\<close>

lemma resolve_imm_inline:
  assumes "IMM_MIN \<le> i" and "i \<le> IMM_MAX"
  shows "resolve_imm s (Imm i) line = Inr (Inline i, s)"
proof -
  have "as_i32 i = i"
    using assms as_i32_range by (simp add: isa_defs)
  with assms show ?thesis by (simp add: resolve_imm_def imm_value_def)
qed

lemma shape_imm_cases:
  assumes "d_lo d < 8192"
  shows "uint (d_lo d) < 8192" "as_i32 (uint (d_lo d)) = uint (d_lo d)" "as_u32 (uint (d_lo d)) = d_lo d"
proof -
  show "uint (d_lo d) < 8192" using assms by (simp add: word_less_def)
  then show "as_i32 (uint (d_lo d)) = uint (d_lo d)" by (intro as_i32_range) (auto intro: order_trans [OF _ uint_ge_0])
qed (simp add: as_u32_def)

lemma d_imm_target:
  assumes "d_lo d < 4096"
  shows "d_imm d = uint (d_lo d)"
  using assms sign_ext13_uint [of "d_lo d"] by (simp add: d_imm_def word_less_def)

lemma instr_row:
  assumes "d_lo d < 8192" and "IMM_MIN \<le> d_imm d" and "d_imm d \<le> IMM_MAX"
  shows "\<forall>(op, name, shape)\<in>set asm_table.
    shape_canonical shape lits d \<and> shape_printable shape d \<longrightarrow>
    instr s (shape_guard shape d) name (shape_operands shape d) line =
    Inr (emit (s\<lparr>a_ldw_refs := a_ldw_refs s @ shape_refs shape line d\<rparr>) (shape_word shape op d))"
proof -
  note imm = resolve_imm_inline [OF assms(2,3)] shape_imm_cases [OF assms(1)]
  note encoders = encode_mov_def encode_bin3_def encode_cmp_def encode_unary_def encode_dest_only_def
    encode_mask2_def encode_mask3_def encode_ballot_def encode_anyall_def encode_lane_imm_def
    encode_shuffle_def encode_jmp_if_def instr_load_store_def instr_ldw_def instr_log_def
    instr_log_i_def instr_flip_def instr_send_def instr_try_recv_def instr_s_mov_def
    instr_s_mov_i_def instr_s_add_def instr_s_add_i_def instr_s_ldw_def instr_s_cmp_lt_def
    instr_s_cmp_lt_i_def instr_s_bcast_def instr_s_get_def instr_jump_def emit_branch_def
    vreg_def sreg_def pred_def
  have "d_lo d < 32 \<Longrightarrow> uint (d_lo d) < 32" by (simp add: word_less_def)
  moreover have "d_lo d < 4096 \<Longrightarrow> \<not> d_imm d < 0" by (simp add: d_imm_target)
  moreover have "as_i32 (d_imm d) = d_imm d" using assms(2,3) as_i32_range by (simp add: isa_defs)
  ultimately show ?thesis
    unfolding asm_table_def
    by (simp add: instr_dispatch encoders imm)
qed

end
