(* ===== verification/Wvm.thy ===== *)
theory Wvm
  imports Isa
begin

text \<open>
  The binary file format (\<open>tools/warpvm-asm/src/wvm.rs\<close>): an eight-word little-endian
  header (magic, version, flags, code length, literal count, entry, two reserved words)
  followed by the code and the literal pool. Words are written by \<open>push32\<close>; the reader
  checks the header before it touches the body, so no read is out of range.
\<close>

definition MAGIC :: u32 where "MAGIC = 0x304D5657"
definition VERSION :: u32 where "VERSION = 1"
definition HEADER_BYTES :: nat where "HEADER_BYTES = 32"

lemmas wvm_defs = MAGIC_def VERSION_def HEADER_BYTES_def

section \<open>Little-endian words\<close>

definition to_le_bytes :: "u32 \<Rightarrow> u8 list" where
  "to_le_bytes v = [ucast v, ucast (drop_bit 8 v), ucast (drop_bit 16 v), ucast (drop_bit 24 v)]"

fun from_le_bytes :: "u8 list \<Rightarrow> u32" where
  "from_le_bytes [] = 0"
| "from_le_bytes (b # bs) = ucast b OR push_bit 8 (from_le_bytes bs)"

definition push32 :: "u8 list \<Rightarrow> u32 \<Rightarrow> u8 list" where
  "push32 out v = out @ to_le_bytes v"

text \<open>\<open>vec.len() as u32\<close>.\<close>

definition len_u32 :: "'a list \<Rightarrow> u32" where
  "len_u32 xs = of_nat (length xs)"

definition encode_file :: "u32 list \<Rightarrow> u32 list \<Rightarrow> u8 list" where
  "encode_file code literals =
     (let out = push32 [] MAGIC;
          out = push32 out VERSION;
          out = push32 out 0;
          out = push32 out (len_u32 code);
          out = push32 out (len_u32 literals);
          out = push32 out 0;
          out = push32 out 0;
          out = push32 out 0
      in foldl push32 out (code @ literals))"

text \<open>\<open>rd(off)\<close>: the word at a byte offset.\<close>

definition rd :: "u8 list \<Rightarrow> nat \<Rightarrow> u32" where
  "rd bytes off = from_le_bytes (take 4 (drop off bytes))"

definition parse_file :: "u8 list \<Rightarrow> string + u32 list \<times> u32 list" where
  "parse_file bytes =
     (if length bytes < HEADER_BYTES then Inl ''truncated header''
      else if rd bytes 0 \<noteq> MAGIC then Inl ''bad magic (not a .wvm file)''
      else if rd bytes 4 \<noteq> VERSION then Inl ''unsupported .wvm version''
      else
        let code_len = unat (rd bytes 12);
            lit_len = unat (rd bytes 16)
        in
          if code_len = 0 \<or> code_len > MAX_CODE_WORDS then Inl ''bad code_len''
          else if lit_len > MAX_LITERALS then Inl ''bad literals_len''
          else
            let need = HEADER_BYTES + 4 * (code_len + lit_len)
            in
              if length bytes < need then Inl ''truncated body''
              else Inr (map (\<lambda>i. rd bytes (HEADER_BYTES + 4 * i)) [0..<code_len],
                        map (\<lambda>i. rd bytes (HEADER_BYTES + 4 * (code_len + i))) [0..<lit_len]))"

section \<open>Words and bytes\<close>

lemma length_to_le_bytes [simp]: "length (to_le_bytes v) = 4"
  by (simp add: to_le_bytes_def)

lemma from_to_le_bytes [simp]: "from_le_bytes (to_le_bytes v) = v"
proof (rule bit_word_eqI)
  fix n
  assume "n < LENGTH(32)"
  then consider "n < 8" | "8 \<le> n" "n < 16" | "16 \<le> n" "n < 24" | "24 \<le> n" "n < 32"
    by fastforce
  then show "bit (from_le_bytes (to_le_bytes v)) n = bit v n"
    by cases (auto simp: to_le_bytes_def bit_simps)
qed

text \<open>A word read off the front of a byte stream: \<open>to_le_bytes\<close> is a codec of it.\<close>

definition read_word :: "u8 list \<Rightarrow> string + u32 \<times> u8 list" where
  "read_word bs = (if length bs < 4 then Inl ''truncated word''
                   else Inr (from_le_bytes (take 4 bs), drop 4 bs))"

interpretation le_word: codec to_le_bytes read_word "\<lambda>_. True"
  by unfold_locales (simp add: read_word_def)

lemma foldl_push32: "foldl push32 out ws = out @ concat (map to_le_bytes ws)"
  by (induction ws arbitrary: out) (simp_all add: push32_def)

definition header_words :: "u32 list \<Rightarrow> u32 list \<Rightarrow> u32 list" where
  "header_words code literals =
     [MAGIC, VERSION, 0, len_u32 code, len_u32 literals, 0, 0, 0]"

lemma encode_file_words:
  "encode_file code literals =
     concat (map to_le_bytes (header_words code literals @ code @ literals))"
  by (simp add: encode_file_def foldl_push32 header_words_def) (simp add: push32_def)

lemma drop_concat_words: "drop (4 * i) (concat (map to_le_bytes ws)) = concat (map to_le_bytes (drop i ws))"
proof (induction ws arbitrary: i)
  case (Cons w ws)
  then show ?case by (cases i) (simp_all add: drop_Cons')
qed simp

lemma length_concat_words [simp]: "length (concat (map to_le_bytes ws)) = 4 * length ws"
  by (induction ws) simp_all

lemma rd_concat_words:
  assumes "i < length ws"
  shows "rd (concat (map to_le_bytes ws)) (4 * i) = ws ! i"
proof -
  have "drop i ws = ws ! i # drop (Suc i) ws"
    using assms by (simp add: Cons_nth_drop_Suc)
  then show ?thesis by (simp add: rd_def drop_concat_words)
qed

lemma length_encode_file:
  "length (encode_file code literals) = HEADER_BYTES + 4 * (length code + length literals)"
  by (simp add: encode_file_words header_words_def wvm_defs)

text \<open>The header and the body of an encoded file, read back.\<close>

lemma rd_encode_file:
  assumes "i < 8 + length code + length literals"
  shows "rd (encode_file code literals) (4 * i) =
    (header_words code literals @ code @ literals) ! i"
  unfolding encode_file_words using assms
  by (intro rd_concat_words) (simp add: header_words_def)

lemma rd_encode_header:
  "rd (encode_file code literals) 0 = MAGIC"
  "rd (encode_file code literals) 4 = VERSION"
  "rd (encode_file code literals) 12 = len_u32 code"
  "rd (encode_file code literals) 16 = len_u32 literals"
  using rd_encode_file [of 0 code literals] rd_encode_file [of 1 code literals]
    rd_encode_file [of 3 code literals] rd_encode_file [of 4 code literals]
  by (simp_all add: header_words_def)

lemma rd_encode_body:
  assumes "i < length code + length literals"
  shows "rd (encode_file code literals) (HEADER_BYTES + 4 * i) = (code @ literals) ! i"
  using rd_encode_file [of "8 + i" code literals] assms
  by (simp add: wvm_defs header_words_def)

lemma unat_len_u32: "length xs < 2 ^ 32 \<Longrightarrow> unat (len_u32 xs) = length xs"
  by (simp add: len_u32_def unat_of_nat)

section \<open>The file round trip\<close>

definition file_ok :: "u32 list \<Rightarrow> u32 list \<Rightarrow> bool" where
  "file_ok code literals \<longleftrightarrow>
     code \<noteq> [] \<and> length code \<le> MAX_CODE_WORDS \<and> length literals \<le> MAX_LITERALS"

lemma parse_encode_file:
  assumes "file_ok code literals"
  shows "parse_file (encode_file code literals) = Inr (code, literals)"
proof -
  have len: "length code \<le> 4096" "length literals \<le> 256" "code \<noteq> []"
    using assms by (simp_all add: file_ok_def isa_defs)
  then have u: "unat (len_u32 code) = length code" "unat (len_u32 literals) = length literals"
    by (simp_all add: unat_len_u32)
  have "map (\<lambda>i. rd (encode_file code literals) (HEADER_BYTES + 4 * i)) [0..<length code] = code"
    by (rule nth_equalityI) (simp_all add: rd_encode_body nth_append)
  moreover have "map (\<lambda>i. rd (encode_file code literals) (HEADER_BYTES + 4 * (length code + i)))
      [0..<length literals] = literals"
  proof (rule nth_equalityI)
    fix i
    assume "i < length (map (\<lambda>i. rd (encode_file code literals)
      (HEADER_BYTES + 4 * (length code + i))) [0..<length literals])"
    then show "map (\<lambda>i. rd (encode_file code literals) (HEADER_BYTES + 4 * (length code + i)))
      [0..<length literals] ! i = literals ! i"
      using rd_encode_body [of "length code + i" code literals] by simp
  qed simp
  ultimately show ?thesis
    using len by (simp add: parse_file_def rd_encode_header u length_encode_file isa_defs)
qed

text \<open>What the reader accepts satisfies the writer's contract: the reader never returns a
  program the writer could not have produced.\<close>

lemma parse_file_ok:
  assumes "parse_file bytes = Inr (code, literals)"
  shows "file_ok code literals"
    and "length bytes \<ge> HEADER_BYTES + 4 * (length code + length literals)"
  using assms by (auto simp: parse_file_def file_ok_def Let_def split: if_splits)

text \<open>The reader looks at nothing behind the body: trailing bytes are ignored.\<close>

lemma rd_append: "off + 4 \<le> length bs \<Longrightarrow> rd (bs @ tail) off = rd bs off"
  by (simp add: rd_def)

lemma parse_file_append:
  assumes "parse_file bytes = Inr (code, literals)"
  shows "parse_file (bytes @ tail) = Inr (code, literals)"
proof -
  have len: "length bytes \<ge> 32 + 4 * (unat (rd bytes 12) + unat (rd bytes 16))"
    using assms by (auto simp: parse_file_def Let_def wvm_defs split: if_splits)
  then have "rd (bytes @ tail) off = rd bytes off"
    if "off < 32 + 4 * (unat (rd bytes 12) + unat (rd bytes 16))" "4 dvd off" for off
  proof -
    from that obtain k where "off = 4 * k" by auto
    with that(1) len show ?thesis by (intro rd_append) presburger
  qed
  with assms len show ?thesis
    by (auto simp: parse_file_def Let_def wvm_defs split: if_splits)
qed

section \<open>Properties\<close>

text \<open>
  C14. The reader of \<open>.wvm\<close> files accepts only programs the writer can write, of which it has
  all the bytes; it ignores what follows the body, and it reads back what the writer wrote.
\<close>

theorem wvm_reader_sound:
  assumes "parse_file bytes = Inr (code, literals)"
  shows "file_ok code literals
    \<and> HEADER_BYTES + 4 * (length code + length literals) \<le> length bytes
    \<and> parse_file (bytes @ tail) = Inr (code, literals)
    \<and> parse_file (encode_file code literals) = Inr (code, literals)"
  using parse_file_ok [OF assms] parse_file_append [OF assms] parse_encode_file by blast

theorem wvm_reader_sound_witness:
  "parse_file (encode_file [3960471552] [7] @ [1, 2, 3]) = Inr ([3960471552], [7])"
proof -
  have "parse_file (encode_file [3960471552] [7]) = Inr ([3960471552], [7])"
    by code_simp
  from wvm_reader_sound [OF this] show ?thesis by blast
qed

end
