(* ===== verification/Asm_Invariant.thy ===== *)
theory Asm_Invariant
  imports Assemble Wvm
begin

text \<open>
  What every statement does to the assembler's state. The locale \<open>asm_relation\<close> states the
  laws of the primitive state changes (emitting a word, interning a literal, recording a
  reference, a constant, the scratch register, a label); its lemmas lift a relation that
  respects them through every encoder, every arm of \<open>instr\<close>, every directive and the whole
  pass. It is interpreted on the state invariant and on the extension order.
\<close>

section \<open>Lifting a relation through the assembler\<close>

text \<open>\<open>related R s r\<close>: the computation \<open>r\<close>, started in \<open>s\<close>, ends in a related state if
  it returns.\<close>

definition related :: "(asm \<Rightarrow> asm \<Rightarrow> bool) \<Rightarrow> asm \<Rightarrow> asm res \<Rightarrow> bool" where
  "related R s r \<longleftrightarrow> (\<forall>s'. r = Inr s' \<longrightarrow> R s s')"

lemma related_err [simp]: "related R s (err line msg)" "related R s (Inl e)"
  by (simp_all add: related_def err_def)

lemma related_Inr: "R s s' \<Longrightarrow> related R s (Inr s')"
  by (simp add: related_def)

lemma relatedD: "related R s r \<Longrightarrow> r = Inr s' \<Longrightarrow> R s s'"
  by (simp add: related_def)

lemma related_if: "related R s a \<Longrightarrow> related R s b \<Longrightarrow> related R s (if c then a else b)"
  by simp

lemma related_rbind: "(\<And>x. m = Inr x \<Longrightarrow> related R s (f x)) \<Longrightarrow> related R s (rbind m f)"
  by (cases m) auto

text \<open>A register operand of a directive is in range: the reader checks it.\<close>

lemma digits_val_nonneg: "0 \<le> acc \<Longrightarrow> 0 \<le> radix \<Longrightarrow> digits_val radix acc s = Some v \<Longrightarrow> 0 \<le> v"
proof (induction s arbitrary: acc)
  case (Cons c s)
  then obtain d where d: "to_digit radix c = Some d" "digits_val radix (acc * radix + d) s = Some v"
    by (auto split: option.splits)
  then have "0 \<le> d" by (auto simp: to_digit_def Let_def split: if_splits)
  then have "0 \<le> acc * radix + d" using Cons.prems by simp
  then show ?case using Cons.IH Cons.prems(2) d(2) by blast
qed simp

lemma parse_unsigned_range:
  assumes "parse_unsigned bits radix s = Some n" and "0 \<le> radix"
  shows "0 \<le> n" and "n < 2 ^ bits"
  using assms by (auto simp: parse_unsigned_def Let_def simp del: digits_val.simps
      split: option.splits if_splits list.splits intro: digits_val_nonneg [of 0 radix])

lemma word_of_int_less:
  assumes "0 \<le> n" and "n < k" and "k \<le> 2 ^ 32"
  shows "(word_of_int n :: u32) < word_of_int k \<or> k = 2 ^ 32"
proof (cases "k = 2 ^ 32")
  case False
  with assms have "uint (word_of_int n :: u32) = n" "uint (word_of_int k :: u32) = k"
    by (simp_all add: uint_word_of_int_eq take_bit_int_eq_self)
  with assms(2) show ?thesis by (simp add: word_less_def)
qed simp

lemma parse_reg_no_less:
  assumes "parse_reg_no s digits limit kind line = Inr n" and "limit < 2 ^ 32"
  shows "n < word_of_int limit"
proof -
  from assms(1) obtain i where i: "parse_unsigned 32 10 digits = Some i" "i < limit" "n = word_of_int i"
    by (auto simp: parse_reg_no_def split: option.splits if_splits)
  then show ?thesis
    using parse_unsigned_range [OF i(1)] word_of_int_less [of i limit] assms(2) by auto
qed

lemma parse_operand_VReg: "parse_operand s line = Inr (VReg n) \<Longrightarrow> n < 16"
  by (auto simp: parse_operand_def parse_operand_word_def res_simps Let_def
      dest: parse_reg_no_less split: option.splits list.splits if_splits)

locale asm_relation =
  fixes R :: "asm \<Rightarrow> asm \<Rightarrow> bool"
  assumes R_refl: "R s s"
    and R_trans: "R s t \<Longrightarrow> R t u \<Longrightarrow> R s u"
    and R_emit: "R s (emit s w)"
    and R_intern: "intern s v = Inr (i, s') \<Longrightarrow> R s s'"
    and R_fixup: "R s (emit (s\<lparr>a_fixups := a_fixups s @ [(length (a_code s), n, l)]\<rparr>) w)"
    and R_ldw: "R s (s\<lparr>a_ldw_refs := a_ldw_refs s @ [ref]\<rparr>)"
    and R_const: "a_consts s name = None \<Longrightarrow> R s (s\<lparr>a_consts := (a_consts s)(name \<mapsto> c)\<rparr>)"
    and R_scratch: "r < 16 \<Longrightarrow> R s (s\<lparr>a_scratch := r\<rparr>)"
    and R_label: "a_labels s name = None \<Longrightarrow>
      R s (s\<lparr>a_labels := (a_labels s)(name \<mapsto> of_nat (length (a_code s)))\<rparr>)"
begin

lemma related_trans: "R s t \<Longrightarrow> related R t r \<Longrightarrow> related R s r"
  by (auto simp: related_def intro: R_trans)

lemma related_emit: "related R s (Inr (emit s w))"
  by (rule related_Inr, rule R_emit)

lemma related_emit2: "related R s (Inr (emit (emit s w) w'))"
  by (rule related_Inr) (blast intro: R_trans R_emit)

lemma R_resolve_imm: "resolve_imm s op line = Inr (r, s') \<Longrightarrow> R s s'"
  by (auto simp: resolve_imm_def res_simps split: if_splits intro: R_refl R_intern)

text \<open>Words emitted behind an immediate that was resolved.\<close>

lemma related_imm_emit:
  assumes "resolve_imm s op line = Inr (r, t)"
  shows "related R s (Inr (emit t w))" and "related R s (Inr (emit (emit t w) w'))"
  using related_trans [OF R_resolve_imm [OF assms] related_emit]
    related_trans [OF R_resolve_imm [OF assms] related_emit2] by auto

lemma related_ldw_emit: "related R s (Inr (emit (s\<lparr>a_ldw_refs := a_ldw_refs s @ [ref]\<rparr>) w))"
  by (rule related_Inr) (blast intro: R_trans R_emit R_ldw)

lemma related_emit_branch: "related R s (emit_branch s op guard target line)"
  by (cases target) (auto simp: emit_branch_def Let_def intro: related_emit related_Inr R_fixup)

lemma related_encoders:
  "related R s (encode_mov s guard ops line)"
  "related R s (encode_bin3 s op_r op_i guard ops line)"
  "related R s (encode_cmp s op_r op_i' guard ops line)"
  "related R s (encode_unary s op guard ops line)"
  "related R s (encode_dest_only s op guard ops line)"
  "related R s (encode_mask2 s op guard ops line)"
  "related R s (encode_mask3 s op guard ops line)"
  "related R s (encode_ballot s guard ops line)"
  "related R s (encode_anyall s op guard ops line)"
  "related R s (encode_lane_imm s op guard ops line)"
  "related R s (encode_shuffle s guard ops line)"
  "related R s (encode_jmp_if s op guard ops line)"
  unfolding encode_mov_def encode_bin3_def encode_cmp_def encode_unary_def encode_dest_only_def
    encode_mask2_def encode_mask3_def encode_ballot_def encode_anyall_def encode_lane_imm_def
    encode_shuffle_def encode_jmp_if_def Let_def
  by (auto split: list.split operand.split imm_res.split option.split
      intro!: related_rbind related_emit related_emit_branch) (erule related_imm_emit)+

lemma related_arms:
  "related R s (instr_load_store s guard mnemonic ops line)"
  "related R s (instr_ldw s guard ops line)"
  "related R s (instr_log s guard ops line)"
  "related R s (instr_log_i s guard ops line)"
  "related R s (instr_flip s guard ops line)"
  "related R s (instr_send s guard ops line)"
  "related R s (instr_try_recv s guard ops line)"
  "related R s (instr_s_mov s guard ops line)"
  "related R s (instr_s_mov_i s guard ops line)"
  "related R s (instr_s_add s guard ops line)"
  "related R s (instr_s_add_i s guard ops line)"
  "related R s (instr_s_ldw s guard ops line)"
  "related R s (instr_s_cmp_lt s guard ops line)"
  "related R s (instr_s_cmp_lt_i s guard ops line)"
  "related R s (instr_s_bcast s guard ops line)"
  "related R s (instr_s_get s guard ops line)"
  "related R s (instr_jump s op guard mnemonic ops line)"
  unfolding instr_load_store_def instr_ldw_def instr_log_def instr_log_i_def instr_flip_def
    instr_send_def instr_try_recv_def instr_s_mov_def instr_s_mov_i_def instr_s_add_def
    instr_s_add_i_def instr_s_ldw_def instr_s_cmp_lt_def instr_s_cmp_lt_i_def instr_s_bcast_def
    instr_s_get_def instr_jump_def Let_def
  by (auto split: list.split operand.split imm_res.split
      intro!: related_rbind related_emit related_emit2 related_ldw_emit related_emit_branch)
    (erule related_imm_emit)+

lemma related_instr: "related R s (instr s guard mnemonic ops line)"
  unfolding instr_def
  by (intro related_if related_encoders related_arms related_emit related_err)

lemma related_const:
  assumes "a_consts s name = None"
  shows "related R s (rbind (intern (s\<lparr>a_consts := (a_consts s)(name \<mapsto> c)\<rparr>) v) (\<lambda>(_, t). Inr t))"
  using R_trans [OF R_const [OF assms] R_intern] by (auto simp: related_def res_simps)

lemma related_scratch:
  "related R s (rbind (parse_operand reg line) (\<lambda>r.
     case r of VReg n \<Rightarrow> Inr (s\<lparr>a_scratch := n\<rparr>) | _ \<Rightarrow> err line msg))"
proof (rule related_rbind)
  fix r
  assume "parse_operand reg line = Inr r"
  then show "related R s (case r of VReg n \<Rightarrow> Inr (s\<lparr>a_scratch := n\<rparr>) | _ \<Rightarrow> err line msg)"
    by (cases r) (auto intro!: related_Inr R_scratch dest: parse_operand_VReg)
qed

lemma related_cond:
  "(c \<Longrightarrow> related R s a) \<Longrightarrow> (\<not> c \<Longrightarrow> related R s b) \<Longrightarrow> related R s (if c then a else b)"
  by simp

lemma related_list_case:
  "related R s a \<Longrightarrow> (\<And>x xs. related R s (f x xs)) \<Longrightarrow>
   related R s (case l of [] \<Rightarrow> a | x # xs \<Rightarrow> f x xs)"
  by (cases l) auto

lemma related_directive: "related R s (directive s name args line)"
  unfolding directive_def
  by (intro related_cond related_list_case related_scratch related_rbind related_const
      related_emit related_err; simp)

lemma R_step_stmt: "step_stmt s st = Inr s' \<Longrightarrow> R s s'"
  using relatedD [OF related_instr] relatedD [OF related_directive]
  by (auto simp: step_stmt_def split: stmt.splits if_splits intro: R_label)

lemma R_fold: "fold_res step_stmt s sts = Inr s' \<Longrightarrow> R s s'"
  by (induction sts arbitrary: s) (auto simp: R_refl res_simps intro: R_trans R_step_stmt)

lemma R_pass: "pass s prog = Inr s' \<Longrightarrow> R s s'"
  unfolding pass_def by (rule R_fold)

end

section \<open>The state invariant and the extension order\<close>

text \<open>
  The pool holds at most 256 different literals and \<open>lit_by_value\<close> is its index; every label
  is a code offset that has been reached; the pending references are to distinct words that
  have been emitted, in the order of emission; the scratch register is a register.
\<close>

definition pool_inv :: "u32 list \<Rightarrow> (u32 \<rightharpoonup> u32) \<Rightarrow> bool" where
  "pool_inv lits index \<longleftrightarrow>
     length lits \<le> MAX_LITERALS \<and> distinct lits
   \<and> (\<forall>v i. index v = Some i \<longleftrightarrow> unat i < length lits \<and> lits ! unat i = v)"

definition labels_inv :: "(string \<rightharpoonup> u32) \<Rightarrow> nat \<Rightarrow> bool" where
  "labels_inv labels n \<longleftrightarrow> (\<forall>name t. labels name = Some t \<longrightarrow> (\<exists>k\<le>n. t = of_nat k))"

definition fixups_inv :: "(nat \<times> string \<times> nat) list \<Rightarrow> nat \<Rightarrow> bool" where
  "fixups_inv fixups n \<longleftrightarrow>
     sorted_wrt (<) (map fst fixups) \<and> (\<forall>f\<in>set fixups. fst f < n)"

definition asm_inv :: "asm \<Rightarrow> bool" where
  "asm_inv s \<longleftrightarrow>
     pool_inv (a_literals s) (a_lit_by_value s)
   \<and> labels_inv (a_labels s) (length (a_code s))
   \<and> fixups_inv (a_fixups s) (length (a_code s))
   \<and> a_scratch s < 16"

lemma labels_inv_Suc: "labels_inv labels n \<Longrightarrow> labels_inv labels (Suc n)"
  unfolding labels_inv_def by (meson le_SucI)

lemma labels_inv_upd: "labels_inv labels n \<Longrightarrow> labels_inv (labels(name \<mapsto> of_nat n)) n"
  by (auto simp: labels_inv_def)

lemma fixups_inv_Suc: "fixups_inv fixups n \<Longrightarrow> fixups_inv fixups (Suc n)"
  by (auto simp: fixups_inv_def less_Suc_eq)

lemma fixups_inv_snoc: "fixups_inv fixups n \<Longrightarrow> fixups_inv (fixups @ [(n, name, line)]) (Suc n)"
  by (auto simp: fixups_inv_def sorted_wrt_append less_Suc_eq)

lemma pool_inv_Nil: "pool_inv [] Map.empty"
  by (simp add: pool_inv_def)

definition asm_ext :: "asm \<Rightarrow> asm \<Rightarrow> bool" where
  "asm_ext s t \<longleftrightarrow>
     (\<exists>c. a_code t = a_code s @ c) \<and> (\<exists>l. a_literals t = a_literals s @ l)
   \<and> (\<exists>f. a_fixups t = a_fixups s @ f) \<and> (\<exists>r. a_ldw_refs t = a_ldw_refs s @ r)
   \<and> a_labels s \<subseteq>\<^sub>m a_labels t \<and> a_consts s \<subseteq>\<^sub>m a_consts t"

lemma asm_inv_new: "asm_inv new_asm"
  by (simp add: asm_inv_def new_asm_def pool_inv_Nil labels_inv_def fixups_inv_def
      DEFAULT_SCRATCH_def)

lemma emit_fields [simp]:
  "a_code (emit s w) = a_code s @ [w]" "a_literals (emit s w) = a_literals s"
  "a_lit_by_value (emit s w) = a_lit_by_value s" "a_consts (emit s w) = a_consts s"
  "a_labels (emit s w) = a_labels s" "a_fixups (emit s w) = a_fixups s"
  "a_ldw_refs (emit s w) = a_ldw_refs s" "a_scratch (emit s w) = a_scratch s"
  by (simp_all add: emit_def)

lemma asm_inv_emit: "asm_inv s \<Longrightarrow> asm_inv (emit s w)"
  by (simp add: asm_inv_def labels_inv_Suc fixups_inv_Suc)

lemma unat_of_nat_small: "n < 2 ^ 32 \<Longrightarrow> unat (of_nat n :: u32) = n"
  by (simp add: unat_of_nat)

lemma pool_inv_snoc:
  assumes inv: "pool_inv lits index" and fresh: "index v = None" and n: "length lits < MAX_LITERALS"
  shows "pool_inv (lits @ [v]) (index(v \<mapsto> of_nat (length lits)))"
proof -
  let ?n = "length lits" and ?i = "of_nat (length lits) :: u32"
  from n have u: "unat ?i = ?n" by (intro unat_of_nat_small) (simp add: isa_defs)
  have notin: "v \<notin> set lits"
  proof
    assume "v \<in> set lits"
    then obtain k where k: "k < ?n" "lits ! k = v" by (auto simp: in_set_conv_nth)
    then have "unat (of_nat k :: u32) = k"
      using n by (intro unat_of_nat_small) (simp add: isa_defs)
    with k inv have "index v = Some (of_nat k)" by (simp add: pool_inv_def)
    with fresh show False by simp
  qed
  have "(index(v \<mapsto> ?i)) w = Some j \<longleftrightarrow> unat j < Suc ?n \<and> (lits @ [v]) ! unat j = w" for w j
  proof (cases "unat j = ?n")
    case True
    then have "j = ?i" using u by (simp add: word_unat_eq_iff)
    moreover have "index w \<noteq> Some j" if "w \<noteq> v"
      using inv True by (auto simp: pool_inv_def)
    ultimately show ?thesis using True by auto
  next
    case False
    then have "j \<noteq> ?i" using u by auto
    moreover have "index w = Some j \<longleftrightarrow> unat j < ?n \<and> lits ! unat j = w"
      using inv by (simp add: pool_inv_def)
    moreover have "lits ! unat j \<noteq> v" if "unat j < ?n"
      using that notin nth_mem by blast
    ultimately show ?thesis using False fresh by (auto simp: nth_append less_Suc_eq)
  qed
  with inv n notin show ?thesis by (simp add: pool_inv_def)
qed

lemma asm_inv_intern:
  assumes inv: "asm_inv s" and int: "intern s v = Inr (i, t)"
  shows "asm_inv t" and "unat i < length (a_literals t)" and "a_literals t ! unat i = v"
proof -
  have "asm_inv t \<and> unat i < length (a_literals t) \<and> a_literals t ! unat i = v"
  proof (cases "a_lit_by_value s v")
    case (Some j)
    with int inv show ?thesis by (auto simp: intern_def asm_inv_def pool_inv_def)
  next
    case None
    let ?n = "length (a_literals s)"
    from None int have n: "?n < MAX_LITERALS" and i: "i = of_nat ?n"
      and t: "t = s\<lparr>a_literals := a_literals s @ [v],
        a_lit_by_value := (a_lit_by_value s)(v \<mapsto> i)\<rparr>"
      by (auto simp: intern_def Let_def split: if_splits)
    have "unat i = ?n" unfolding i using n by (intro unat_of_nat_small) (simp add: isa_defs)
    with n inv None show ?thesis
      by (simp add: asm_inv_def t pool_inv_snoc [of _ _ v, folded i] i)
  qed
  then show "asm_inv t" and "unat i < length (a_literals t)" and "a_literals t ! unat i = v"
    by auto
qed

lemma intern_frame:
  assumes "intern s v = Inr (i, t)"
  shows "a_code t = a_code s" "a_labels t = a_labels s" "a_fixups t = a_fixups s"
    "a_ldw_refs t = a_ldw_refs s" "a_consts t = a_consts s" "a_scratch t = a_scratch s"
    "\<exists>l. a_literals t = a_literals s @ l"
  using assms by (auto simp: intern_def Let_def split: option.splits if_splits)

lemma asm_inv_fixup:
  "asm_inv s \<Longrightarrow> asm_inv (emit (s\<lparr>a_fixups := a_fixups s @ [(length (a_code s), n, l)]\<rparr>) w)"
  by (simp add: asm_inv_def labels_inv_Suc fixups_inv_snoc)

lemma asm_inv_label:
  "asm_inv s \<Longrightarrow> asm_inv (s\<lparr>a_labels := (a_labels s)(name \<mapsto> of_nat (length (a_code s)))\<rparr>)"
  by (simp add: asm_inv_def labels_inv_upd)

interpretation asm_keeps: asm_relation "\<lambda>s t. asm_inv s \<longrightarrow> asm_inv t"
  by unfold_locales
    (auto simp: asm_inv_emit asm_inv_label asm_inv_fixup intro: asm_inv_intern(1),
      simp_all add: asm_inv_def)

interpretation asm_extends: asm_relation asm_ext
proof
  fix s t u :: asm
  show "asm_ext s t \<Longrightarrow> asm_ext t u \<Longrightarrow> asm_ext s u"
    unfolding asm_ext_def by (auto intro: map_le_trans)
qed (auto simp: asm_ext_def map_le_def intern_frame)

interpretation asm_step: checked_step step_stmt asm_inv asm_ext
  using asm_keeps.R_step_stmt asm_extends.R_step_stmt asm_extends.R_refl asm_extends.R_trans
  by unfold_locales blast+

end
