(* ===== verification/Text_Facts.thy ===== *)
theory Text_Facts
  imports Asm_Parse
begin

text \<open>
  Facts about text that the round trips need: numbers printed and read back, words without
  white space, lines joined and split again.
\<close>

section \<open>Digits\<close>

lemma code_of_char_of [simp]: "0 \<le> n \<Longrightarrow> n < 256 \<Longrightarrow> code_of (char_of n) = n"
  by (simp add: of_char_of)

lemma code_of_digit_char: "0 \<le> d \<Longrightarrow> d < 16 \<Longrightarrow> code_of (digit_char d) = (if d < 10 then 48 + d else 87 + d)"
  by (simp add: digit_char_def)

lemma to_digit_digit_char:
  assumes "0 \<le> d" and "d < b" and "b \<le> 16"
  shows "to_digit b (digit_char d) = Some d"
  using assms code_of_digit_char [of d] by (auto simp: to_digit_def Let_def)

lemma digits_val_append:
  "digits_val b acc (xs @ ys) = Option.bind (digits_val b acc xs) (\<lambda>v. digits_val b v ys)"
  by (induction xs arbitrary: acc) (auto split: option.splits)

lemma radix_str_induct:
  assumes "0 \<le> (n::int)" and "2 \<le> b"
    and base: "\<And>n. 0 \<le> n \<Longrightarrow> n < b \<Longrightarrow> P [digit_char n] n"
    and step: "\<And>n. b \<le> n \<Longrightarrow> P (radix_str b (n div b)) (n div b) \<Longrightarrow>
      P (radix_str b (n div b) @ [digit_char (n mod b)]) n"
  shows "P (radix_str b n) n"
  using assms(1)
proof (induction "nat n" arbitrary: n rule: less_induct)
  case less
  show ?case
  proof (cases "n < b")
    case True
    with base less.prems show ?thesis by (subst radix_str.simps) simp
  next
    case False
    then have "0 \<le> n div b" "n div b < n"
      using assms(2) less.prems by (auto simp: pos_imp_zdiv_nonneg_iff int_div_less_self)
    then have "P (radix_str b (n div b)) (n div b)" by (intro less.hyps) auto
    with step False assms(2) show ?thesis by (subst radix_str.simps) simp
  qed
qed

lemma digits_val_radix_str:
  assumes "0 \<le> n" and "2 \<le> b" and "b \<le> 16"
  shows "digits_val b 0 (radix_str b n) = Some n"
  using assms(1,2)
proof (rule radix_str_induct [where P = "\<lambda>s n. digits_val b 0 s = Some n"])
  fix n
  assume "b \<le> n" and "digits_val b 0 (radix_str b (n div b)) = Some (n div b)"
  then show "digits_val b 0 (radix_str b (n div b) @ [digit_char (n mod b)]) = Some n"
    using assms by (simp add: digits_val_append to_digit_digit_char div_mult_mod_eq)
qed (use assms in \<open>simp add: to_digit_digit_char\<close>)

lemma radix_str_chars:
  assumes "0 \<le> n" and "2 \<le> b" and "\<And>d. 0 \<le> d \<Longrightarrow> d < b \<Longrightarrow> P (digit_char d)"
  shows "list_all P (radix_str b n)"
  using assms(1,2)
  by (rule radix_str_induct [where P = "\<lambda>s n. list_all P s"]) (use assms in auto)

lemma radix_str_not_Nil [simp]: "radix_str b n \<noteq> []"
  by (subst radix_str.simps) simp

lemma digit_char_decimal: "0 \<le> d \<Longrightarrow> d < 10 \<Longrightarrow> is_ascii_digit (digit_char d)"
  by (simp add: is_ascii_digit_def code_of_digit_char)

lemma digit_char_hex: "0 \<le> d \<Longrightarrow> d < 16 \<Longrightarrow> is_ascii_alphanumeric (digit_char d)"
  by (auto simp: ascii_class_defs code_of_digit_char)

lemma decimal_digits: "0 \<le> n \<Longrightarrow> list_all is_ascii_digit (radix_str 10 n)"
  by (rule radix_str_chars) (auto simp: digit_char_decimal)

lemma hex_digits: "0 \<le> n \<Longrightarrow> list_all is_ascii_alphanumeric (radix_str 16 n)"
  by (rule radix_str_chars) (auto simp: digit_char_hex)

lemma digits_val_zeros: "digits_val b 0 (replicate k CHR ''0'' @ s) = digits_val b 0 s" if "0 < b"
  using that by (induction k) (auto simp: to_digit_def)

section \<open>Numbers printed and read back\<close>

text \<open>A text of digits begins with no sign and no radix prefix.\<close>

lemma digit_not_sign:
  "is_ascii_digit c \<Longrightarrow> c \<noteq> CHR ''+''" "is_ascii_digit c \<Longrightarrow> c \<noteq> CHR ''-''"
  "is_ascii_digit c \<Longrightarrow> c \<noteq> CHR ''x''" "is_ascii_digit c \<Longrightarrow> c \<noteq> CHR ''X''"
  "is_ascii_digit c \<Longrightarrow> c \<noteq> CHR ''b''" "is_ascii_digit c \<Longrightarrow> c \<noteq> CHR ''B''"
  by (auto simp: is_ascii_digit_def)

lemma parse_unsigned_decimal:
  assumes "0 \<le> n" and "n < 2 ^ bits"
  shows "parse_unsigned bits 10 (radix_str 10 n) = Some n"
proof -
  obtain c cs where s: "radix_str 10 n = c # cs" by (meson radix_str_not_Nil neq_Nil_conv)
  with decimal_digits [OF assms(1)] have "c \<noteq> CHR ''+''" by (auto dest: digit_not_sign)
  with s assms digits_val_radix_str [of n 10] show ?thesis
    by (simp add: parse_unsigned_def del: digits_val.simps)
qed

lemma parse_signed_decimal:
  assumes "0 \<le> n" and "n < 2 ^ (bits - 1)"
  shows "parse_signed bits 10 (radix_str 10 n) = Some n"
proof -
  obtain c cs where s: "radix_str 10 n = c # cs" by (meson radix_str_not_Nil neq_Nil_conv)
  with decimal_digits [OF assms(1)] have "c \<noteq> CHR ''+''" "c \<noteq> CHR ''-''"
    by (auto dest: digit_not_sign)
  moreover have "- (2 ^ (bits - 1)) \<le> n" using assms(1) by (rule order_trans [rotated]) simp
  ultimately show ?thesis
    using s assms digits_val_radix_str [of n 10]
    by (simp add: parse_signed_def del: digits_val.simps)
qed

lemma no_prefix_of_digits:
  assumes "list_all is_ascii_digit s" and "c \<in> {CHR ''x'', CHR ''X'', CHR ''b'', CHR ''B''}"
  shows "strip_prefix [CHR ''0'', c] s = None"
  using assms by (cases s; cases "tl s") (auto simp: strip_prefix_def is_ascii_digit_def)

lemma parse_number_decimal:
  assumes "0 \<le> n" and "n < 2 ^ 63"
  shows "parse_number (radix_str 10 n) line = Inr n"
    and "0 < n \<Longrightarrow> parse_number (CHR ''-'' # radix_str 10 n) line = Inr (- n)"
proof -
  obtain c cs where s: "radix_str 10 n = c # cs" by (meson radix_str_not_Nil neq_Nil_conv)
  have d: "list_all is_ascii_digit (radix_str 10 n)" using assms(1) by (rule decimal_digits)
  then have "c \<noteq> CHR ''-''" using s by (auto dest: digit_not_sign)
  then have "strip_prefix_char CHR ''-'' (radix_str 10 n) = None"
    by (simp add: s strip_prefix_char_def)
  moreover have v: "parse_signed 64 10 (radix_str 10 n) = Some n"
    using assms by (intro parse_signed_decimal) simp_all
  ultimately show "parse_number (radix_str 10 n) line = Inr n"
    by (simp add: parse_number_def no_prefix_of_digits [OF d] or_else_def)
  show "parse_number (CHR ''-'' # radix_str 10 n) line = Inr (- n)" if "0 < n"
    using v that
    by (simp add: parse_number_def no_prefix_of_digits [OF d] or_else_def strip_prefix_char_def
        neg_i64_def)
qed

lemma parse_number_int_str:
  assumes "- (2 ^ 63) < i" and "i < 2 ^ 63"
  shows "parse_number (int_str i) line = Inr i"
  using assms parse_number_decimal [of "- i" line] parse_number_decimal [of i line]
  by (auto simp: int_str_def)

lemma parse_number_word_str: "parse_number (word_str w) line = Inr (uint w)"
proof -
  have "uint w < 2 ^ 32" using uint_lt2p [of w] by simp
  then show ?thesis unfolding word_str_def
    by (intro parse_number_int_str) (auto intro: less_le_trans [OF _ uint_ge_0])
qed

lemma parse_number_hex:
  assumes "0 \<le> n" and "n < 2 ^ 63"
  shows "parse_number (''0x'' @ hex_padded k n) line = Inr n"
proof -
  let ?h = "hex_padded k n"
  have v: "digits_val 16 0 ?h = Some n"
    using assms(1) by (simp add: hex_padded_def Let_def digits_val_zeros digits_val_radix_str)
  have "list_all is_ascii_alphanumeric ?h"
    using hex_digits [OF assms(1)]
    by (auto simp: hex_padded_def Let_def list_all_iff ascii_class_defs)
  moreover obtain c cs where s: "?h = c # cs"
    by (metis hex_padded_def append_is_Nil_conv neq_Nil_conv radix_str_not_Nil)
  ultimately have "c \<noteq> CHR ''+''" "c \<noteq> CHR ''-''"
    by (auto simp: ascii_class_defs)
  moreover have "- (2 ^ 63) \<le> n" using assms(1) by (rule order_trans [rotated]) simp
  ultimately have "parse_signed 64 16 ?h = Some n"
    using s v assms by (simp add: parse_signed_def del: digits_val.simps)
  then show ?thesis
    by (simp add: parse_number_def or_else_def strip_prefix_char_def strip_prefix_def)
qed

section \<open>Words\<close>

text \<open>The characters a mnemonic, an operand or a number is made of: ASCII, no white space,
  none of the separators.\<close>

definition plain :: "char \<Rightarrow> bool" where
  "plain c \<longleftrightarrow> is_ascii c \<and> \<not> is_ascii_ws c \<and> c \<noteq> CHR '';'' \<and> c \<noteq> CHR '',''"

definition word_ok :: "string \<Rightarrow> bool" where
  "word_ok w \<longleftrightarrow> w \<noteq> [] \<and> list_all plain w"

lemma alnum_plain: "is_ascii_alphanumeric c \<Longrightarrow> plain c"
  by (auto simp: plain_def ascii_class_defs is_ascii_ws_def)

lemma digit_plain: "is_ascii_digit c \<Longrightarrow> plain c"
  by (rule alnum_plain) (simp add: is_ascii_alphanumeric_def)

lemma list_all_mono': "list_all P xs \<Longrightarrow> (\<And>x. P x \<Longrightarrow> Q x) \<Longrightarrow> list_all Q xs"
  by (auto simp: list_all_iff)

lemma plain_decimal: "0 \<le> n \<Longrightarrow> list_all plain (radix_str 10 n)"
  by (rule list_all_mono' [OF decimal_digits digit_plain])

lemma plain_int_str: "list_all plain (int_str i)"
  by (auto simp: int_str_def plain_decimal) (simp add: plain_def is_ascii_def is_ascii_ws_def)

lemma plain_word_str: "list_all plain (word_str w)"
  by (simp add: word_str_def plain_int_str)

lemma plain_hex: "0 \<le> n \<Longrightarrow> list_all plain (hex_padded k n)"
proof -
  assume "0 \<le> n"
  then have "list_all plain (radix_str 16 n)"
    by (rule list_all_mono' [OF hex_digits alnum_plain])
  moreover have "list_all plain (replicate m CHR ''0'')" for m
    by (induction m) (simp_all add: plain_def is_ascii_def is_ascii_ws_def)
  ultimately show ?thesis by (simp add: hex_padded_def Let_def)
qed

section \<open>Trimming\<close>

lemma plain_ws [simp]: "plain c \<Longrightarrow> ws_len (c # s) = 0" "plain c \<Longrightarrow> ws_len_end (c # s) = 0"
  by (simp_all add: plain_def)

lemma trim_start_plain: "plain c \<Longrightarrow> trim_start (c # s) = c # s"
  by (subst trim_start.simps) simp

lemma trim_start_space: "trim_start (CHR '' '' # s) = trim_start s"
proof -
  have "ws_len (CHR '' '' # s) = 1" by (simp add: is_ascii_def is_ascii_ws_def)
  then show ?thesis by (subst trim_start.simps) simp
qed

lemma trim_end_plain: "plain c \<Longrightarrow> trim_end (s @ [c]) = s @ [c]"
  by (simp add: trim_end_def trim_end_rev.simps)

lemma trim_end_space: "trim_end (s @ '' '') = trim_end s"
proof -
  have "ws_len_end (CHR '' '' # rev s) = 1" by (simp add: is_ascii_def is_ascii_ws_def)
  then show ?thesis by (simp add: trim_end_def trim_end_rev.simps [of "CHR '' '' # rev s"])
qed

lemma trim_Nil [simp]: "trim [] = []"
  by (simp add: trim_def trim_end_def trim_start.simps trim_end_rev.simps)

text \<open>A text that begins and ends with a plain character is its own trimming, also with a
  space in front of it or behind it.\<close>

lemma trim_plain:
  assumes "s \<noteq> []" and "plain (hd s)" and "plain (last s)"
  shows "trim s = s" and "trim (CHR '' '' # s) = s" and "trim (s @ '' '') = s"
proof -
  obtain c cs where s: "s = c # cs" using assms(1) by (cases s) auto
  obtain d ds where s': "s = ds @ [d]" using assms(1) by (cases s rule: rev_cases) auto
  have start: "trim_start s = s" "trim_start (s @ '' '') = s @ '' ''"
    using assms(2) by (simp_all add: s trim_start_plain)
  have "trim_end s = s" using assms(3) by (simp add: s' trim_end_plain)
  with start show "trim s = s" "trim (CHR '' '' # s) = s" "trim (s @ '' '') = s"
    by (simp_all add: trim_def trim_start_space trim_end_space)
qed

lemma word_ok_ends: "word_ok w \<Longrightarrow> w \<noteq> [] \<and> plain (hd w) \<and> plain (last w)"
  by (auto simp: word_ok_def list_all_iff)

section \<open>Splitting at white space\<close>

lemma split_ws_plain: "list_all plain w \<Longrightarrow> split_ws acc (w @ s) = split_ws (rev w @ acc) s"
proof (induction w arbitrary: acc)
  case (Cons c w)
  then show ?case by (subst split_ws.simps) simp
qed simp

lemma split_ws_space:
  "split_ws acc (CHR '' '' # s) = (if acc = [] then [] else [rev acc]) @ split_ws [] s"
proof -
  have "ws_len (CHR '' '' # s) = 1" by (simp add: is_ascii_def is_ascii_ws_def)
  then show ?thesis by (subst split_ws.simps) simp
qed

lemma split_whitespace_join:
  assumes "\<forall>w\<in>set ws. w \<noteq> [] \<and> list_all (\<lambda>c. plain c \<or> c = CHR '','') w"
  shows "split_whitespace (join '' '' ws) = ws"
proof -
  have plain_ws': "ws_len (c # s) = 0" if "plain c \<or> c = CHR '',''" for c s
    using that by (auto simp: is_ascii_def is_ascii_ws_def)
  have run: "split_ws acc (w @ s) = split_ws (rev w @ acc) s"
    if "list_all (\<lambda>c. plain c \<or> c = CHR '','') w" for w acc s
    using that
  proof (induction w arbitrary: acc)
    case (Cons c w)
    then show ?case by (subst split_ws.simps) (simp add: plain_ws')
  qed simp
  have nil: "split_ws acc [] = (if acc = [] then [] else [rev acc])" for acc
    by (subst split_ws.simps) simp
  from assms show ?thesis
    unfolding split_whitespace_def
  proof (induction ws rule: induct_list012)
    case 1
    then show ?case by (simp add: nil)
  next
    case (2 w)
    then show ?case using run [of w "[]" "[]"] by (simp add: nil)
  next
    case (3 w v ws)
    then have "split_ws [] (join '' '' (v # ws)) = v # ws" by simp
    with 3 show ?case
      using run [of w "[]" "CHR '' '' # join '' '' (v # ws)"] by (simp add: split_ws_space)
  qed
qed

section \<open>Splitting at a separator\<close>

lemma split_on_not_Nil [simp]: "split_on c s \<noteq> []"
  by (cases s) (auto split: list.splits)

lemma split_on_none: "c \<notin> set s \<Longrightarrow> split_on c s = [s]"
  by (induction s) auto

lemma split_on_append: "c \<notin> set w \<Longrightarrow> split_on c (w @ c # s) = w # split_on c s"
  by (induction w) auto

lemma split_on_join:
  "\<forall>w\<in>set ws. c \<notin> set w \<Longrightarrow> ws \<noteq> [] \<Longrightarrow> split_on c (join [c] ws) = ws"
  by (induction ws rule: induct_list012) (simp_all add: split_on_none split_on_append)

lemma join_Cons: "join sep (x # xs) = x @ (if xs = [] then [] else sep @ join sep xs)"
  by (cases xs) auto

lemma join_eq_Nil: "ws \<noteq> [] \<Longrightarrow> hd ws \<noteq> [] \<Longrightarrow> join sep ws \<noteq> []"
  by (cases ws) (auto simp: join_Cons)

lemma join_hd: "ws \<noteq> [] \<Longrightarrow> hd ws \<noteq> [] \<Longrightarrow> hd (join sep ws) = hd (hd ws)"
  by (cases ws) (auto simp: join_Cons)

lemma join_last: "\<forall>w\<in>set ws. w \<noteq> [] \<Longrightarrow> ws \<noteq> [] \<Longrightarrow> last (join sep ws) = last (last ws)"
proof (induction ws)
  case (Cons w ws)
  then show ?case using join_eq_Nil [of ws sep] by (auto simp: join_Cons)
qed simp

lemma join_append_sep:
  "xs \<noteq> [] \<Longrightarrow> ys \<noteq> [] \<Longrightarrow> join sep (xs @ ys) = join sep xs @ sep @ join sep ys"
proof (induction xs rule: induct_list012)
  case (2 x)
  then show ?case by (cases ys) auto
qed auto

text \<open>Comma-separated parts with a space behind each comma, as words of a line.\<close>

fun comma_words :: "string list \<Rightarrow> string list" where
  "comma_words [] = []"
| "comma_words [x] = [x]"
| "comma_words (x # y # xs) = (x @ '','') # comma_words (y # xs)"

lemma join_comma_words: "join '' '' (comma_words ws) = join '', '' ws"
proof (induction ws rule: comma_words.induct)
  case (3 x y xs)
  then show ?case by (cases xs) auto
qed auto

lemma split_join_comma:
  "CHR '','' \<notin> set w \<Longrightarrow> \<forall>v\<in>set ws. CHR '','' \<notin> set v \<Longrightarrow>
   split_on CHR '','' (join '', '' (w # ws)) = w # map ((#) CHR '' '') ws"
proof (induction ws arbitrary: w)
  case (Cons v ws)
  have "join '', '' ((CHR '' '' # v) # ws) = CHR '' '' # join '', '' (v # ws)"
    by (cases ws) simp_all
  moreover have "split_on CHR '','' (join '', '' ((CHR '' '' # v) # ws)) = (CHR '' '' # v) # map ((#) CHR '' '') ws"
    using Cons.prems by (intro Cons.IH) auto
  ultimately show ?case using Cons.prems by (simp add: split_on_append)
qed (simp add: split_on_none)

section \<open>The characters of a part\<close>

lemma set_trim_start: "set (trim_start s) \<subseteq> set s"
proof (induction s rule: trim_start.induct)
  case (1 s)
  then show ?case
    using set_drop_subset [of "ws_len s" s] by (subst trim_start.simps) auto
qed

lemma set_trim_end_rev: "set (trim_end_rev s) \<subseteq> set s"
proof (induction s rule: trim_end_rev.induct)
  case (1 s)
  then show ?case
    using set_drop_subset [of "ws_len_end s" s] by (subst trim_end_rev.simps) auto
qed

lemma set_trim: "set (trim s) \<subseteq> set s"
  using set_trim_end_rev [of "rev (trim_start s)"] set_trim_start [of s]
  by (auto simp: trim_def trim_end_def)

lemma set_split_ws: "w \<in> set (split_ws acc s) \<Longrightarrow> set w \<subseteq> set acc \<union> set s"
proof (induction acc s rule: split_ws.induct)
  case (1 acc s)
  have tl: "s \<noteq> [] \<Longrightarrow> set (hd s # acc) \<union> set (tl s) \<subseteq> set acc \<union> set s"
    by (cases s) auto
  show ?case
  proof (cases "s = []")
    case True
    then show ?thesis using "1.prems" by (subst (asm) split_ws.simps) (auto split: if_splits)
  next
    case False
    show ?thesis
    proof (cases "ws_len s = 0")
      case True
      then have "w \<in> set (split_ws (hd s # acc) (tl s))"
        using "1.prems" False by (subst (asm) split_ws.simps) simp
      from "1.IH"(1) [OF False True this] tl [OF False] show ?thesis by blast
    next
      case ws: False
      have "w \<in> set (split_ws acc s) \<longleftrightarrow>
          w \<in> set (if acc = [] then [] else [rev acc]) \<or> w \<in> set (split_ws [] (drop (ws_len s) s))"
        using False ws by (subst split_ws.simps) simp
      then consider "w = rev acc" | "w \<in> set (split_ws [] (drop (ws_len s) s))"
        using "1.prems" by (auto split: if_splits)
      then show ?thesis
        using "1.IH"(2) [OF False ws] set_drop_subset [of "ws_len s" s] by cases auto
    qed
  qed
qed

lemma set_split_whitespace: "w \<in> set (split_whitespace s) \<Longrightarrow> set w \<subseteq> set s"
  using set_split_ws [of w "[]" s] by (simp add: split_whitespace_def)

lemma set_split_on: "w \<in> set (split_on c s) \<Longrightarrow> set w \<subseteq> set s"
  by (induction s arbitrary: w) (fastforce split: if_splits list.splits)+

lemma set_split_inclusive: "w \<in> set (split_inclusive c s) \<Longrightarrow> set w \<subseteq> set s"
  by (induction s arbitrary: w) (fastforce split: if_splits list.splits)+

lemma set_chomp_line: "set (chomp_line l) \<subseteq> set l"
  by (auto simp: chomp_line_def strip_suffix_char_def dest!: in_set_butlastD split: if_splits)

lemma set_lines: "l \<in> set (lines s) \<Longrightarrow> set l \<subseteq> set s"
  using set_split_inclusive set_chomp_line by (fastforce simp: lines_def)

lemma set_before_char: "set (before_char c s) \<subseteq> set s"
  by (auto simp: before_char_def dest: set_takeWhileD)

text \<open>A trimmed text that is not empty has a word.\<close>

lemma ws_len_take: "ws_len (s @ t) = 0 \<Longrightarrow> s \<noteq> [] \<Longrightarrow> ws_len s = 0"
  by (cases s; cases "tl s"; cases "tl (tl s)")
    (auto simp: ws_len.simps split: if_splits list.splits)

lemma trim_start_ws_len: "ws_len (trim_start s) = 0"
  by (induction s rule: trim_start.induct) (subst trim_start.simps, simp)

lemma trim_end_rev_suffix: "\<exists>t. s = t @ trim_end_rev s"
proof (induction s rule: trim_end_rev.induct)
  case (1 s)
  show ?case
  proof (cases "ws_len_end s = 0")
    case False
    with 1 obtain t where "drop (ws_len_end s) s = t @ trim_end_rev (drop (ws_len_end s) s)" by blast
    then have "s = (take (ws_len_end s) s @ t) @ trim_end_rev (drop (ws_len_end s) s)"
      by (metis append.assoc append_take_drop_id)
    moreover have "trim_end_rev s = trim_end_rev (drop (ws_len_end s) s)"
      using False by (subst trim_end_rev.simps) simp
    ultimately show ?thesis by metis
  qed (subst trim_end_rev.simps, simp)
qed

lemma trim_ws_len: "trim s \<noteq> [] \<Longrightarrow> ws_len (trim s) = 0"
proof -
  assume ne: "trim s \<noteq> []"
  obtain t where "rev (trim_start s) = t @ trim_end_rev (rev (trim_start s))"
    using trim_end_rev_suffix by blast
  then have "trim_start s = trim s @ rev t"
    unfolding trim_def trim_end_def by (metis rev_append rev_rev_ident)
  then show ?thesis using trim_start_ws_len [of s] ws_len_take ne by metis
qed

lemma split_ws_not_Nil: "acc \<noteq> [] \<Longrightarrow> split_ws acc s \<noteq> []"
proof (induction acc s rule: split_ws.induct)
  case (1 acc s)
  then show ?case by (subst split_ws.simps) simp
qed

lemma split_whitespace_trim: "trim s \<noteq> [] \<Longrightarrow> split_whitespace (trim s) \<noteq> []"
  unfolding split_whitespace_def by (subst split_ws.simps) (simp add: trim_ws_len split_ws_not_Nil)

end
