(* ===== verification/Asm_Correct.thy ===== *)
theory Asm_Correct
  imports Asm_Invariant Text_Facts
begin

text \<open>
  What a successful assembly is: references patched to their labels, the pool and the sizes
  the file format asks for, and no panic on ASCII source.
\<close>

section \<open>Patching references\<close>

definition patch_target :: "u32 \<Rightarrow> u32 \<Rightarrow> u32" where
  "patch_target w t = (w AND NOT LO_MASK) OR (t AND LO_MASK)"

text \<open>Patching changes the low field only.\<close>

lemma decode_patch_target: "decode (patch_target w t) = (decode w)\<lparr>d_lo := t AND LO_MASK\<rparr>"
proof -
  let ?p = "(w AND NOT (mask 13)) OR (t AND mask 13)"
  have "drop_bit k ?p = drop_bit k w" if "13 \<le> k" for k
    using that by (auto simp: bit_eq_iff bit_simps dest: bit_imp_le_length)
  moreover have "?p AND mask 13 = t AND mask 13"
    by (auto simp: bit_eq_iff bit_simps)
  ultimately show ?thesis
    by (simp add: decode_def patch_target_def isa_defs field_masks)
qed

lemma d_lo_target:
  assumes "k \<le> 4096"
  shows "(of_nat k :: u32) AND LO_MASK = of_nat k"
proof -
  have "of_nat k < (2 ^ 13 :: u32)"
    using assms by (simp add: word_less_nat_alt unat_of_nat)
  then have "take_bit 13 (of_nat k :: u32) = of_nat k" by (rule word_lt_take_bit) simp
  then show ?thesis by (simp add: isa_defs field_masks take_bit_eq_mask)
qed

text \<open>The code behind the patches: a word with a pending reference points at its label.\<close>

definition patched :: "(string \<rightharpoonup> u32) \<Rightarrow> (nat \<times> string \<times> nat) list \<Rightarrow> u32 list \<Rightarrow> u32 list" where
  "patched labels fixups code =
     map (\<lambda>i. case map_of fixups i of
                None \<Rightarrow> code ! i
              | Some (name, _) \<Rightarrow> patch_target (code ! i) (the (labels name)))
       [0..<length code]"

lemma length_patched [simp]: "length (patched labels fixups code) = length code"
  by (simp add: patched_def)

lemma nth_patched:
  "i < length code \<Longrightarrow> patched labels fixups code ! i =
     (case map_of fixups i of
        None \<Rightarrow> code ! i | Some (name, _) \<Rightarrow> patch_target (code ! i) (the (labels name)))"
  by (simp add: patched_def split: option.split)

lemma patched_Nil [simp]: "patched labels [] code = code"
  by (rule nth_equalityI) (simp_all add: nth_patched)

lemma patched_Cons:
  assumes "i < length code" and "i \<notin> fst ` set fixups"
  shows "patched labels fixups (code[i := patch_target (code ! i) (the (labels n))]) =
    patched labels ((i, n, l) # fixups) code"
proof -
  have "map_of fixups i = None" using assms(2) by (simp add: map_of_eq_None_iff)
  with assms(1) show ?thesis
    by (intro nth_equalityI) (auto simp: nth_patched nth_list_update split: option.split)
qed

lemma labels_inv_le:
  assumes "labels_inv labels n" and "labels name = Some t" and "n < 2 ^ 32"
  shows "unat t \<le> n"
proof -
  from assms obtain k where "k \<le> n" "t = of_nat k" by (auto simp: labels_inv_def)
  with assms(3) show ?thesis by (simp add: unat_of_nat_small)
qed

text \<open>
  The loop of \<open>resolve_fixups\<close> either patches every reference or stops at the first one
  whose label is unknown. The length test of the source never fires, and no index is out of
  bounds.
\<close>

fun first_undefined :: "(string \<rightharpoonup> u32) \<Rightarrow> (nat \<times> string \<times> nat) list \<Rightarrow> (string \<times> nat) option" where
  "first_undefined labels [] = None"
| "first_undefined labels ((i, name, line) # fs) =
     (if labels name = None then Some (name, line) else first_undefined labels fs)"

lemma fold_apply_fixup:
  assumes "fixups_inv fixups (length (a_code s))" and "labels_inv (a_labels s) (length (a_code s))"
    and "length (a_code s) < 2 ^ 32"
  shows "fold_res (apply_fixup (of_nat (length (a_code s)))) s fixups =
    (case first_undefined (a_labels s) fixups of
       Some (name, line) \<Rightarrow> err line (''undefined label '' @ quoted name)
     | None \<Rightarrow> Inr (s\<lparr>a_code := patched (a_labels s) fixups (a_code s)\<rparr>))"
  using assms
proof (induction fixups arbitrary: s)
  case Nil
  then show ?case by simp
next
  case (Cons f fs)
  obtain i n l where f: "f = (i, n, l)" by (cases f)
  show ?case
  proof (cases "a_labels s n")
    case None
    then show ?thesis by (simp add: f apply_fixup_def err_def)
  next
    case (Some t)
    let ?c = "(a_code s)[i := patch_target (a_code s ! i) t]"
    have i: "i < length (a_code s)" and fs: "fixups_inv fs (length (a_code s))" "i \<notin> fst ` set fs"
      using Cons.prems(1) by (auto simp: fixups_inv_def f)
    have "unat t \<le> length (a_code s)"
      using labels_inv_le [OF Cons.prems(2) Some Cons.prems(3)] .
    then have "\<not> of_nat (length (a_code s)) < t"
      using Cons.prems(3) by (simp add: word_less_nat_alt unat_of_nat_small)
    then have "apply_fixup (of_nat (length (a_code s))) s f = Inr (s\<lparr>a_code := ?c\<rparr>)"
      using Some i by (simp add: f apply_fixup_def patch_target_def)
    moreover have "patched (a_labels s) fs ?c = patched (a_labels s) (f # fs) (a_code s)"
      using patched_Cons [OF i fs(2), of "a_labels s" n l] Some by (simp add: f)
    ultimately show ?thesis
      using Cons.IH [of "s\<lparr>a_code := ?c\<rparr>"] Cons.prems fs(1) Some
      by (auto simp: f split: option.splits)
  qed
qed

lemma resolve_fixups_eq:
  assumes "asm_inv s" and "length (a_code s) < 2 ^ 32"
  shows "resolve_fixups s =
    (case first_undefined (a_labels s) (a_fixups s) of
       Some (name, line) \<Rightarrow> err line (''undefined label '' @ quoted name)
     | None \<Rightarrow> Inr (s\<lparr>a_code := patched (a_labels s) (a_fixups s) (a_code s), a_fixups := []\<rparr>))"
  using fold_apply_fixup [of "a_fixups s" "s\<lparr>a_fixups := []\<rparr>"] assms
  by (simp add: resolve_fixups_def asm_inv_def split: option.splits)

lemma first_undefined_None:
  "first_undefined labels fixups = None \<longleftrightarrow> (\<forall>(i, name, line)\<in>set fixups. labels name \<noteq> None)"
  by (induction labels fixups rule: first_undefined.induct) auto

section \<open>The result\<close>

lemma finish_Inr:
  assumes "finish s = Inr p"
  obtains t where "resolve_fixups s = Inr t" and "fold_res (check_ldw_ref t) () (a_ldw_refs t) = Inr ()"
    and "p = \<lparr>out_code = a_code t, out_literals = a_literals t\<rparr>"
    and "a_code t \<noteq> []" and "length (a_code t) \<le> MAX_CODE_WORDS"
  using assms by (auto simp: finish_def res_simps split: if_splits)

lemma assemble_Inr:
  assumes "assemble src = Inr p"
  obtains prog s where "parse src = Inr prog" and "pass new_asm prog = Inr s" and "asm_inv s"
    and "finish s = Inr p"
  using assms asm_keeps.R_pass asm_inv_new by (auto simp: assemble_def res_simps)

lemma apply_fixup_length: "apply_fixup len s f = Inr t \<Longrightarrow> length (a_code t) = length (a_code s)"
  by (auto simp: apply_fixup_def split: prod.splits option.splits if_splits)

lemma fold_apply_fixup_length:
  "fold_res (apply_fixup len) s fs = Inr t \<Longrightarrow> length (a_code t) = length (a_code s)"
  by (induction fs arbitrary: s) (auto simp: res_simps apply_fixup_length)

lemma resolve_fixups_length: "resolve_fixups s = Inr t \<Longrightarrow> length (a_code t) = length (a_code s)"
  by (auto simp: resolve_fixups_def Let_def dest: fold_apply_fixup_length)

text \<open>Everything a successful run of \<open>finish\<close> says about the state it started from.\<close>

lemma finish_facts:
  assumes "asm_inv s" and "finish s = Inr p"
  shows "out_code p = patched (a_labels s) (a_fixups s) (a_code s)"
    and "out_literals p = a_literals s"
    and "length (out_code p) = length (a_code s)"
    and "\<forall>(i, name, line)\<in>set (a_fixups s). a_labels s name \<noteq> None"
    and "\<forall>(line, idx)\<in>set (a_ldw_refs s). unat idx < length (a_literals s)"
    and "file_ok (out_code p) (out_literals p)"
proof -
  from assms(2) obtain t where t: "resolve_fixups s = Inr t"
    "fold_res (check_ldw_ref t) () (a_ldw_refs t) = Inr ()"
    "p = \<lparr>out_code = a_code t, out_literals = a_literals t\<rparr>"
    "a_code t \<noteq> []" "length (a_code t) \<le> MAX_CODE_WORDS"
    by (rule finish_Inr)
  have len: "length (a_code s) < 2 ^ 32"
    using t(5) resolve_fixups_length [OF t(1)] by (simp add: isa_defs)
  have none: "first_undefined (a_labels s) (a_fixups s) = None"
    and t': "t = s\<lparr>a_code := patched (a_labels s) (a_fixups s) (a_code s), a_fixups := []\<rparr>"
    using t(1) resolve_fixups_eq [OF assms(1) len] by (auto split: option.splits)
  show "out_code p = patched (a_labels s) (a_fixups s) (a_code s)"
    and "out_literals p = a_literals s" and "length (out_code p) = length (a_code s)"
    by (simp_all add: t(3) t')
  show "\<forall>(i, name, line)\<in>set (a_fixups s). a_labels s name \<noteq> None"
    using none by (simp add: first_undefined_None)
  have "fold_res (check_ldw_ref t) () refs = Inr () \<Longrightarrow>
      \<forall>(line, idx)\<in>set refs. unat idx < length (a_literals t)" for refs
    by (induction refs) (auto simp: res_simps check_ldw_ref_def split: if_splits)
  then show "\<forall>(line, idx)\<in>set (a_ldw_refs s). unat idx < length (a_literals s)"
    using t(2) by (simp add: t')
  show "file_ok (out_code p) (out_literals p)"
    using t(4,5) assms(1) by (simp add: file_ok_def t(3) t' asm_inv_def pool_inv_def)
qed

section \<open>No panic\<close>

definition no_panic :: "'a res \<Rightarrow> bool" where
  "no_panic r \<longleftrightarrow> (\<forall>m. r \<noteq> Inl (Panic m))"

lemma no_panic_simps [simp]:
  "no_panic (Inr x)" "no_panic (Inl (Err e))" "no_panic (err line msg)"
  by (simp_all add: no_panic_def err_def)

lemma no_panic_rbind: "no_panic m \<Longrightarrow> (\<And>x. m = Inr x \<Longrightarrow> no_panic (f x)) \<Longrightarrow> no_panic (rbind m f)"
  by (auto simp: no_panic_def rbind_eq_Inl)

lemma no_panic_if: "(c \<Longrightarrow> no_panic a) \<Longrightarrow> (\<not> c \<Longrightarrow> no_panic b) \<Longrightarrow> no_panic (if c then a else b)"
  by simp

lemma no_panic_map_res: "(\<And>x. x \<in> set xs \<Longrightarrow> no_panic (f x)) \<Longrightarrow> no_panic (map_res f xs)"
  by (induction xs) (auto intro!: no_panic_rbind)

lemma no_panic_fold_res:
  "(\<And>s x. x \<in> set xs \<Longrightarrow> no_panic (f s x)) \<Longrightarrow> no_panic (fold_res f s xs)"
  by (induction xs arbitrary: s) (auto intro!: no_panic_rbind)

lemma no_panic_operands:
  "no_panic (vreg op line what)" "no_panic (sreg op line what)" "no_panic (pred op line what)"
  "no_panic (parse_pred s line)" "no_panic (parse_guard s line)" "no_panic (parse_number s line)"
  "no_panic (parse_reg_no s digits limit kind line)" "no_panic (parse_operand_word s line)"
  "no_panic (intern st v)" "no_panic (resolve_imm st op line)"
proof -
  show pred: "no_panic (parse_pred s line)" for s line
    by (auto simp: parse_pred_def split: option.split)
  show num: "no_panic (parse_number s line)" for s line
    by (auto simp: parse_number_def Let_def split: option.split intro!: no_panic_rbind)
  show "no_panic (parse_guard s line)"
    by (auto simp: parse_guard_def Let_def split: option.split intro!: no_panic_rbind pred)
  show "no_panic (parse_reg_no s digits limit kind line)"
    by (auto simp: parse_reg_no_def split: option.split)
  show "no_panic (parse_operand_word s line)"
    by (auto simp: parse_operand_word_def Let_def intro!: no_panic_rbind num)
  show int: "no_panic (intern st v)" for st v
    by (auto simp: intern_def Let_def split: option.split)
  show "no_panic (resolve_imm st op line)"
    by (auto simp: resolve_imm_def imm_value_def split: operand.split option.split
        intro!: no_panic_rbind int)
qed (auto simp: vreg_def sreg_def pred_def split: operand.split)

lemma ascii_slice1: "list_all is_ascii s \<Longrightarrow> \<not> slice1_panics s"
  by (cases s rule: remdups_adj.cases)
    (auto simp: slice1_panics_def is_ascii_def is_continuation_def)

lemma no_panic_parse_operand: "list_all is_ascii s \<Longrightarrow> no_panic (parse_operand s line)"
  using ascii_slice1 [of s]
  by (auto simp: parse_operand_def split: option.split list.split
      intro!: no_panic_rbind no_panic_operands)

text \<open>The text of a directive's arguments is a part of the source.\<close>

definition ascii :: "string \<Rightarrow> bool" where
  "ascii s \<longleftrightarrow> list_all is_ascii s"

definition stmt_ascii :: "stmt \<Rightarrow> bool" where
  "stmt_ascii st = (case st of Directive line name args \<Rightarrow> list_all ascii args | _ \<Rightarrow> True)"

lemma ascii_subset: "set s \<subseteq> set t \<Longrightarrow> ascii t \<Longrightarrow> ascii s"
  by (auto simp: ascii_def list_all_iff)

lemma ascii_simps [simp]: "ascii []" "ascii (c # s) \<longleftrightarrow> is_ascii c \<and> ascii s"
  "ascii (s @ t) \<longleftrightarrow> ascii s \<and> ascii t"
  by (simp_all add: ascii_def)

lemma ascii_join: "ascii sep \<Longrightarrow> list_all ascii ws \<Longrightarrow> ascii (join sep ws)"
  by (induction ws) (simp_all add: join_Cons)

lemma no_panic_parse_operands: "list_all ascii ws \<Longrightarrow> no_panic (parse_operands line ws)"
proof -
  assume "list_all ascii ws"
  then have "ascii (join '' '' ws)" by (intro ascii_join) (simp_all add: is_ascii_def)
  then have "ascii (trim w)" if "w \<in> set (split_on CHR '','' (join '' '' ws))" for w
    using set_split_on [OF that] set_trim [of w] ascii_subset by blast
  then show ?thesis
    by (auto simp: parse_operands_def Let_def parse_part_def ascii_def
        intro!: no_panic_map_res no_panic_parse_operand)
qed

text \<open>The words behind a label and behind a guard are words of the line.\<close>

lemma leading_label_words:
  "leading_label line first ts = Inr (labels, words) \<Longrightarrow>
   set words \<subseteq> insert first (set ts) \<and> (\<forall>st\<in>set labels. stmt_ascii st)"
  by (auto simp: leading_label_def stmt_ascii_def split: option.splits if_splits)

lemma leading_guard_words:
  "leading_guard line tok ts = Inr (g, tok', ts') \<Longrightarrow> set ts' \<subseteq> set ts"
  by (cases ts) (auto simp: leading_guard_def res_simps split: option.splits)

lemma no_panic_leading:
  "no_panic (leading_label line first ts)" "no_panic (leading_guard line tok ts)"
  by (auto simp: leading_label_def leading_guard_def split: option.split list.split
      intro!: no_panic_rbind no_panic_operands)

lemma line_words_ascii:
  assumes "ascii raw" and "split_whitespace (trim (before_char c raw)) = first # ts"
  shows "ascii first" and "list_all ascii ts"
    and "leading_label line first ts = Inr (labels, tok # ts') \<Longrightarrow>
      leading_guard line tok ts' = Inr (g, tok', ws) \<Longrightarrow> list_all ascii ws"
proof -
  have all: "ascii w" if "w \<in> set (first # ts)" for w
  proof -
    have "set w \<subseteq> set (trim (before_char c raw))"
      using that by (intro set_split_whitespace) (simp add: assms(2))
    also have "\<dots> \<subseteq> set (before_char c raw)" by (rule set_trim)
    also have "\<dots> \<subseteq> set raw" by (rule set_before_char)
    finally show ?thesis using assms(1) by (rule ascii_subset)
  qed
  then show "ascii first" and "list_all ascii ts" by (auto simp: list_all_iff)
  show "list_all ascii ws"
    if "leading_label line first ts = Inr (labels, tok # ts')"
      "leading_guard line tok ts' = Inr (g, tok', ws)"
    using leading_label_words [OF that(1)] leading_guard_words [OF that(2)] all
    by (auto simp: list_all_iff)
qed

lemma no_panic_parse_line:
  assumes "ascii raw"
  shows "no_panic (parse_line line raw)"
proof (cases "trim (before_char CHR '';'' raw) = []")
  case False
  then obtain first ts where w: "split_whitespace (trim (before_char CHR '';'' raw)) = first # ts"
    using split_whitespace_trim [of "before_char CHR '';'' raw"] by (meson neq_Nil_conv)
  with False line_words_ascii(3) [OF assms w, of line] show ?thesis
    by (auto simp: parse_line_def Let_def split: list.split option.split
        intro!: no_panic_rbind no_panic_leading no_panic_parse_operands)
qed (simp add: parse_line_def)

lemma parse_line_ascii:
  assumes "ascii raw" and "parse_line line raw = Inr sts"
  shows "\<forall>st\<in>set sts. stmt_ascii st"
proof (cases "trim (before_char CHR '';'' raw) = []")
  case True
  with assms(2) show ?thesis by (simp add: parse_line_def)
next
  case False
  then obtain first ts where w: "split_whitespace (trim (before_char CHR '';'' raw)) = first # ts"
    using split_whitespace_trim [of "before_char CHR '';'' raw"] by (meson neq_Nil_conv)
  with False assms(2) obtain labels words where l: "leading_label line first ts = Inr (labels, words)"
    and r: "(case words of [] \<Rightarrow> Inr labels
     | tok # tokens \<Rightarrow>
         rbind (leading_guard line tok tokens) (\<lambda>(guard, tok, tokens).
           case strip_prefix_char CHR ''.'' tok of
             Some dir \<Rightarrow>
               if dir = [] then err line ''empty directive''
               else Inr (labels @ [Directive line dir tokens])
           | None \<Rightarrow>
               rbind (parse_operands line tokens) (\<lambda>operands.
                 Inr (labels @ [Instr line guard (to_ascii_uppercase tok) operands])))) = Inr sts"
    by (auto simp: parse_line_def Let_def res_simps)
  show ?thesis
  proof (cases words)
    case Nil
    with l r leading_label_words [OF l] show ?thesis by simp
  next
    case (Cons tok ts')
    with r obtain g tok' ws where g: "leading_guard line tok ts' = Inr (g, tok', ws)"
      by (auto simp: res_simps)
    have "list_all ascii ws"
      using line_words_ascii(3) [OF assms(1) w] l g Cons by blast
    with g r Cons leading_label_words [OF l] show ?thesis
      by (auto simp: res_simps stmt_ascii_def split: option.splits if_splits)
  qed
qed

lemma ascii_lines: "ascii src \<Longrightarrow> l \<in> set (lines src) \<Longrightarrow> ascii l"
  using set_lines ascii_subset by blast

lemma enumerate_snd: "(i, x) \<in> set (enumerate n xs) \<Longrightarrow> x \<in> set xs"
  by (auto simp: in_set_enumerate_eq)

lemma no_panic_parse: "ascii src \<Longrightarrow> no_panic (parse src)"
  by (auto simp: parse_def dest: enumerate_snd
      intro!: no_panic_rbind no_panic_map_res no_panic_parse_line ascii_lines [of src])

lemma map_res_set: "map_res f xs = Inr ys \<Longrightarrow> y \<in> set ys \<Longrightarrow> \<exists>x\<in>set xs. f x = Inr y"
  by (induction xs arbitrary: ys) (auto simp: res_simps)

lemma parse_ascii:
  assumes "ascii src" and "parse src = Inr prog"
  shows "\<forall>st\<in>set (stmts prog). stmt_ascii st"
proof -
  from assms(2) obtain parts where p:
    "map_res (\<lambda>(idx, raw). parse_line (idx + 1) raw) (enumerate 0 (lines src)) = Inr parts"
    "stmts prog = concat parts"
    by (auto simp: parse_def res_simps)
  have "\<forall>st\<in>set part. stmt_ascii st" if part: "part \<in> set parts" for part
  proof -
    obtain idx raw where "(idx, raw) \<in> set (enumerate 0 (lines src))"
      and e: "parse_line (idx + 1) raw = Inr part"
      using map_res_set [OF p(1) part] by auto
    then have "raw \<in> set (lines src)"
      using enumerate_snd [of idx raw 0 "lines src"] by simp
    from parse_line_ascii [OF ascii_lines [OF assms(1) this] e] show ?thesis .
  qed
  then show ?thesis by (auto simp: p(2))
qed

lemma no_panic_emit_branch: "no_panic (emit_branch s op guard target line)"
  by (cases target) (simp_all add: emit_branch_def Let_def)

lemma no_panic_encoders:
  "no_panic (encode_mov s guard ops line)"
  "no_panic (encode_bin3 s op_r op_i guard ops line)"
  "no_panic (encode_cmp s op_r op_i' guard ops line)"
  "no_panic (encode_unary s op guard ops line)"
  "no_panic (encode_dest_only s op guard ops line)"
  "no_panic (encode_mask2 s op guard ops line)"
  "no_panic (encode_mask3 s op guard ops line)"
  "no_panic (encode_ballot s guard ops line)"
  "no_panic (encode_anyall s op guard ops line)"
  "no_panic (encode_lane_imm s op guard ops line)"
  "no_panic (encode_shuffle s guard ops line)"
  "no_panic (encode_jmp_if s op guard ops line)"
  unfolding encode_mov_def encode_bin3_def encode_cmp_def encode_unary_def encode_dest_only_def
    encode_mask2_def encode_mask3_def encode_ballot_def encode_anyall_def encode_lane_imm_def
    encode_shuffle_def encode_jmp_if_def Let_def
  by (auto split: list.split operand.split imm_res.split option.split
      intro!: no_panic_rbind no_panic_operands no_panic_emit_branch)

lemma no_panic_arms:
  "no_panic (instr_load_store s guard mnemonic ops line)"
  "no_panic (instr_ldw s guard ops line)"
  "no_panic (instr_log s guard ops line)"
  "no_panic (instr_log_i s guard ops line)"
  "no_panic (instr_flip s guard ops line)"
  "no_panic (instr_send s guard ops line)"
  "no_panic (instr_try_recv s guard ops line)"
  "no_panic (instr_s_mov s guard ops line)"
  "no_panic (instr_s_mov_i s guard ops line)"
  "no_panic (instr_s_add s guard ops line)"
  "no_panic (instr_s_add_i s guard ops line)"
  "no_panic (instr_s_ldw s guard ops line)"
  "no_panic (instr_s_cmp_lt s guard ops line)"
  "no_panic (instr_s_cmp_lt_i s guard ops line)"
  "no_panic (instr_s_bcast s guard ops line)"
  "no_panic (instr_s_get s guard ops line)"
  "no_panic (instr_jump s op guard mnemonic ops line)"
  unfolding instr_load_store_def instr_ldw_def instr_log_def instr_log_i_def instr_flip_def
    instr_send_def instr_try_recv_def instr_s_mov_def instr_s_mov_i_def instr_s_add_def
    instr_s_add_i_def instr_s_ldw_def instr_s_cmp_lt_def instr_s_cmp_lt_i_def instr_s_bcast_def
    instr_s_get_def instr_jump_def Let_def
  by (auto split: list.split operand.split imm_res.split
      intro!: no_panic_rbind no_panic_operands no_panic_emit_branch)

lemma no_panic_instr: "no_panic (instr s guard mnemonic ops line)"
  unfolding instr_def
  by (intro no_panic_if no_panic_encoders no_panic_arms no_panic_simps)

lemma no_panic_list_case:
  "no_panic a \<Longrightarrow> (\<And>x xs. l = x # xs \<Longrightarrow> no_panic (f x xs)) \<Longrightarrow>
   no_panic (case l of [] \<Rightarrow> a | x # xs \<Rightarrow> f x xs)"
  by (cases l) auto

lemma no_panic_directive: "list_all ascii args \<Longrightarrow> no_panic (directive s name args line)"
  unfolding directive_def
  by (intro no_panic_if no_panic_list_case no_panic_rbind no_panic_operands no_panic_simps
      no_panic_parse_operand)
    (auto simp: ascii_def split: operand.split)

lemma no_panic_pass:
  assumes "\<forall>st\<in>set (stmts prog). stmt_ascii st"
  shows "no_panic (pass s prog)"
  unfolding pass_def
proof (rule no_panic_fold_res)
  fix s st
  assume "st \<in> set (stmts prog)"
  with assms have "stmt_ascii st" by blast
  then show "no_panic (step_stmt s st)"
    by (cases st) (auto simp: step_stmt_def stmt_ascii_def no_panic_instr no_panic_directive)
qed

lemma no_panic_fold_apply_fixup:
  "\<forall>f\<in>set fs. fst f < length (a_code s) \<Longrightarrow> no_panic (fold_res (apply_fixup len) s fs)"
proof (induction fs arbitrary: s)
  case (Cons f fs)
  have "no_panic (apply_fixup len s f)"
    using Cons.prems by (auto simp: apply_fixup_def split: prod.split option.split)
  then show ?case
    using Cons by (auto intro!: no_panic_rbind dest: apply_fixup_length)
qed simp

lemma no_panic_finish: "asm_inv s \<Longrightarrow> no_panic (finish s)"
  unfolding finish_def
proof (intro no_panic_rbind no_panic_fold_res no_panic_if no_panic_simps)
  show "no_panic (resolve_fixups s)" if "asm_inv s"
    using that by (auto simp: resolve_fixups_def Let_def asm_inv_def fixups_inv_def
        intro!: no_panic_fold_apply_fixup)
qed (simp_all add: check_ldw_ref_def split: prod.split)

lemma no_panic_assemble:
  assumes "ascii src"
  shows "no_panic (assemble src)"
  unfolding assemble_def
proof (intro no_panic_rbind no_panic_parse assms)
  fix prog s
  assume p: "parse src = Inr prog"
  show "no_panic (pass new_asm prog)" by (intro no_panic_pass parse_ascii [OF assms p])
  assume "pass new_asm prog = Inr s"
  then show "no_panic (finish s)"
    using asm_keeps.R_pass asm_inv_new by (intro no_panic_finish) blast
qed

section \<open>Labels\<close>

lemma pass_append:
  "pass s \<lparr>stmts = pre @ post\<rparr> = rbind (pass s \<lparr>stmts = pre\<rparr>) (\<lambda>t. pass t \<lparr>stmts = post\<rparr>)"
  by (simp add: pass_def fold_res_append)

lemma pass_label:
  assumes "pass new_asm \<lparr>stmts = pre @ Label line name # post\<rparr> = Inr s"
  obtains s0 rest where "pass new_asm \<lparr>stmts = pre\<rparr> = Inr s0" and "a_code s = a_code s0 @ rest"
    and "a_labels s name = Some (of_nat (length (a_code s0)))"
proof -
  from assms obtain s0 s1 where s0: "pass new_asm \<lparr>stmts = pre\<rparr> = Inr s0"
    "step_stmt s0 (Label line name) = Inr s1" "pass s1 \<lparr>stmts = post\<rparr> = Inr s"
    unfolding pass_append by (auto simp: res_simps pass_def)
  then have s1: "s1 = s0\<lparr>a_labels := (a_labels s0)(name \<mapsto> of_nat (length (a_code s0)))\<rparr>"
    by (auto simp: step_stmt_def split: if_splits)
  have "asm_ext s1 s" using asm_extends.R_pass s0(3) by blast
  then obtain rest where "a_code s = a_code s1 @ rest" "a_labels s1 \<subseteq>\<^sub>m a_labels s"
    by (auto simp: asm_ext_def)
  moreover have "a_labels s1 name = Some (of_nat (length (a_code s0)))" "a_code s1 = a_code s0"
    by (simp_all add: s1)
  ultimately show thesis
    using that s0(1) by (metis domI map_le_def)
qed

section \<open>Properties\<close>

text \<open>
  C8. Whatever source the assembler accepts, its output is a program the file format can hold
  (1 to 4096 words, at most 256 literals, no literal twice), and the written file reads back
  as exactly that program.
\<close>

theorem assemble_output_readable:
  assumes "assemble src = Inr p"
  shows "file_ok (out_code p) (out_literals p) \<and> distinct (out_literals p)
    \<and> parse_file (encode_file (out_code p) (out_literals p)) = Inr (out_code p, out_literals p)"
proof -
  obtain prog s where s: "asm_inv s" "finish s = Inr p"
    using assms by (rule assemble_Inr)
  have "file_ok (out_code p) (out_literals p)" using finish_facts(6) [OF s] .
  moreover have "distinct (out_literals p)"
    using s(1) finish_facts(2) [OF s] by (simp add: asm_inv_def pool_inv_def)
  ultimately show ?thesis by (simp add: parse_encode_file)
qed

theorem assemble_output_readable_witness:
  "file_ok [840826880, 67248143, 3762290688] [70000] \<and> distinct [70000 :: u32]
   \<and> parse_file (encode_file [840826880, 67248143, 3762290688] [70000])
     = Inr ([840826880, 67248143, 3762290688], [70000])"
proof -
  have "assemble (''loop: ADD r1, r1, 70000'' @ [newline] @ ''@p1 JMP loop'') =
    Inr \<lparr>out_code = [840826880, 67248143, 3762290688], out_literals = [70000]\<rparr>"
    by code_simp
  from assemble_output_readable [OF this] show ?thesis by simp
qed

text \<open>
  C9. On ASCII source the assembler never panics: it returns a program or a message.
\<close>

theorem assemble_never_panics:
  assumes "list_all is_ascii src"
  shows "assemble src \<noteq> Inl (Panic m)"
  using no_panic_assemble assms by (auto simp: no_panic_def ascii_def)

theorem assemble_never_panics_witness:
  "\<forall>m. assemble ''.scratch #'' \<noteq> Inl (Panic m)"
proof (intro allI assemble_never_panics)
  show "list_all is_ascii ''.scratch #''" by code_simp
qed


text \<open>
  C12. A label stands for the number of words emitted in front of it, whatever follows: the
  statements in front emit \<open>a_code s0\<close>, the final code extends it, and the label's value is
  its length.
\<close>

theorem label_is_offset:
  assumes "pass new_asm \<lparr>stmts = pre @ Label line name # post\<rparr> = Inr s"
  shows "\<exists>s0 rest. pass new_asm \<lparr>stmts = pre\<rparr> = Inr s0 \<and> a_code s = a_code s0 @ rest
    \<and> a_labels s name = Some (of_nat (length (a_code s0)))"
  using pass_label [OF assms] by metis

theorem label_is_offset_witness:
  "\<exists>s. pass new_asm \<lparr>stmts = [Instr 1 0 ''NOP'' [], Label 2 ''end'']\<rparr> = Inr s
    \<and> a_labels s ''end'' = Some 1"
proof -
  let ?e = "emit new_asm (enc_r OP_NOP 0 0 0 0)"
  let ?s = "?e\<lparr>a_labels := [''end'' \<mapsto> 1]\<rparr>"
  have pre: "pass new_asm \<lparr>stmts = [Instr 1 0 ''NOP'' []]\<rparr> = Inr ?e"
    by (simp add: pass_def step_stmt_def instr_def)
  have all: "pass new_asm \<lparr>stmts = [Instr 1 0 ''NOP'' []] @ Label 2 ''end'' # []\<rparr> = Inr ?s"
    by (simp add: pass_def step_stmt_def instr_def emit_def new_asm_def)
  from label_is_offset [OF all] pre have "a_labels ?s ''end'' = Some 1"
    by (simp add: emit_def new_asm_def)
  with all show ?thesis by (intro exI [of _ ?s]) simp
qed

text \<open>
  C5. Branches to labels: in the final code every word with a pending reference is the
  emitted word with its low field set to its label, a code offset inside the program or just
  behind it; its opcode, guard and registers are those emitted; every other word is as
  emitted.
\<close>

theorem finish_patches_branches:
  assumes "pass new_asm prog = Inr s" and "finish s = Inr p"
  shows "length (out_code p) = length (a_code s) \<and> (\<forall>i<length (out_code p).
    case map_of (a_fixups s) i of
      None \<Rightarrow> out_code p ! i = a_code s ! i
    | Some (name, line) \<Rightarrow>
        (\<exists>k\<le>length (out_code p). a_labels s name = Some (of_nat k)
          \<and> decode (out_code p ! i) = (decode (a_code s ! i))\<lparr>d_lo := of_nat k\<rparr>))"
proof -
  have inv: "asm_inv s" using assms(1) asm_keeps.R_pass asm_inv_new by blast
  note facts = finish_facts [OF inv assms(2)]
  have le: "length (a_code s) \<le> 4096"
    using facts(3,6) by (simp add: file_ok_def isa_defs)
  show ?thesis
  proof (intro conjI allI impI)
    fix i
    assume i: "i < length (out_code p)"
    show "case map_of (a_fixups s) i of
      None \<Rightarrow> out_code p ! i = a_code s ! i
    | Some (name, line) \<Rightarrow>
        (\<exists>k\<le>length (out_code p). a_labels s name = Some (of_nat k)
          \<and> decode (out_code p ! i) = (decode (a_code s ! i))\<lparr>d_lo := of_nat k\<rparr>)"
    proof (cases "map_of (a_fixups s) i")
      case None
      with i show ?thesis by (simp add: facts(1) nth_patched)
    next
      case (Some nl)
      obtain name line where nl: "nl = (name, line)" by (cases nl)
      with Some have "(i, name, line) \<in> set (a_fixups s)" by (simp add: map_of_SomeD)
      with facts(4) obtain t where t: "a_labels s name = Some t" by auto
      with inv obtain k where k: "k \<le> length (a_code s)" "a_labels s name = Some (of_nat k)"
        unfolding asm_inv_def labels_inv_def by metis
      moreover have "out_code p ! i = patch_target (a_code s ! i) (of_nat k)"
        using i Some nl k by (simp add: facts(1) nth_patched)
      ultimately show ?thesis
        using le nl Some by (auto simp: decode_patch_target d_lo_target facts(3) intro!: exI [of _ k])
    qed
  qed (rule facts(3))
qed

theorem finish_patches_branches_witness:
  "\<exists>s p. pass new_asm \<lparr>stmts = [Instr 1 0 ''JMP'' [Name ''end''], Label 2 ''end'']\<rparr> = Inr s
    \<and> finish s = Inr p \<and> map_of (a_fixups s) 0 = Some (''end'', 1) \<and> d_lo (decode (out_code p ! 0)) = 1"
proof -
  let ?e = "emit (new_asm\<lparr>a_fixups := [(0, ''end'', 1)]\<rparr>) (enc_i OP_JMP 0 0 0 0)"
  let ?s = "?e\<lparr>a_labels := [''end'' \<mapsto> 1]\<rparr>"
  have pass: "pass new_asm \<lparr>stmts = [Instr 1 0 ''JMP'' [Name ''end''], Label 2 ''end'']\<rparr> = Inr ?s"
    by (simp add: pass_def step_stmt_def instr_def instr_jump_def emit_branch_def emit_def new_asm_def)
  define p where "p = \<lparr>out_code = [patch_target (enc_i OP_JMP 0 0 0 0) 1], out_literals = []\<rparr>"
  have fin: "finish ?s = Inr p"
    by (simp add: finish_def resolve_fixups_def apply_fixup_def emit_def new_asm_def p_def
        patch_target_def MAX_CODE_WORDS_def)
  from finish_patches_branches [OF pass fin] have "d_lo (decode (out_code p ! 0)) = 1"
    by (auto simp: emit_def new_asm_def p_def)
  with pass fin show ?thesis by (auto simp: emit_def new_asm_def)
qed

text \<open>
  C10. Every statement keeps the assembler's invariant and only extends its state: code,
  literals, pending references, labels and constants are never taken back or changed.
\<close>

theorem statement_keeps_state:
  assumes "asm_inv s" and "step_stmt s st = Inr t"
  shows "asm_inv t \<and> asm_ext s t"
  using asm_step.step_inv [OF assms] asm_step.step_ext [OF assms] by blast

theorem statement_keeps_state_witness:
  "asm_inv (emit new_asm 0) \<and> asm_ext new_asm (emit new_asm 0)"
  by (rule statement_keeps_state [OF asm_inv_new, of "Directive 1 ''word'' [''0'']"])
    (simp add: step_stmt_def directive_def parse_number_def strip_prefix_char_def strip_prefix_def
      or_else_def parse_signed_def to_digit_def as_u32_def)

text \<open>
  C11. Immediates: a value of the 13-bit range is put into the word and reads back from it
  with its sign; any other value comes back from the literal pool as its low 32 bits.
\<close>

theorem immediate_is_stored:
  assumes "asm_inv s" and "imm_value s op line = Inr v" and "resolve_imm s op line = Inr (r, t)"
    and "fields_ok opc g dst rs1"
  shows "(case r of
      Inline i \<Rightarrow> t = s \<and> d_imm (decode (enc_i opc g dst rs1 i)) = v
    | ViaLit idx \<Rightarrow> unat idx < length (a_literals t) \<and> a_literals t ! unat idx = word_of_int v
        \<and> asm_inv t \<and> d_lo (decode (enc_i opc g dst rs1 (u32_as_i32 idx))) = idx)"
proof (cases "IMM_MIN \<le> v \<and> v \<le> IMM_MAX")
  case True
  with assms(2,3) have r: "r = Inline (as_i32 v)" "t = s" by (auto simp: resolve_imm_def)
  have "as_i32 v = v" using True by (simp add: as_i32_def isa_defs sint_sbintrunc' signed_take_bit_int_eq_self)
  moreover have "d_imm (decode (enc_i opc g dst rs1 v)) = v"
    using True by (simp add: decode_enc_i [OF assms(4)] d_imm_def sign_ext13_of_imm)
  ultimately show ?thesis by (simp add: r)
next
  case False
  with assms(2,3) obtain idx where r: "r = ViaLit idx" "intern s (as_u32 v) = Inr (idx, t)"
    by (auto simp: resolve_imm_def res_simps split: if_splits)
  note i = asm_inv_intern [OF assms(1) r(2)]
  have "unat idx < 256" using i(1,2) by (simp add: asm_inv_def pool_inv_def isa_defs)
  then have "idx < 2 ^ 13" by (simp add: word_less_nat_alt)
  then have "take_bit 13 idx = idx" by (rule word_lt_take_bit) simp
  then have "d_lo (decode (enc_i opc g dst rs1 (u32_as_i32 idx))) = idx"
    by (simp add: decode_enc_i [OF assms(4)] u32_as_i32_def)
  with i show ?thesis by (simp add: r as_u32_def)
qed

theorem immediate_is_stored_witness:
  "\<exists>t. resolve_imm new_asm (Imm 70000) 1 = Inr (ViaLit 0, t) \<and> a_literals t ! unat (0 :: u32) = 70000"
proof -
  have r: "resolve_imm new_asm (Imm 70000) 1 = Inr (ViaLit 0,
    new_asm\<lparr>a_literals := [70000], a_lit_by_value := [70000 \<mapsto> 0]\<rparr>)"
    by (simp add: resolve_imm_def imm_value_def intern_def new_asm_def isa_defs as_u32_def)
  have v: "imm_value new_asm (Imm 70000) 1 = Inr 70000" by (simp add: imm_value_def)
  have "fields_ok OP_LDW 0 15 0" by (simp add: fields_ok_def op_defs)
  from immediate_is_stored [OF asm_inv_new v r this] r show ?thesis by auto
qed

end
