(* ===== verification/Line_Facts.thy ===== *)
theory Line_Facts
  imports Text_Facts
begin

text \<open>
  What the assembly reader makes of the texts the disassembler writes: operands, guards,
  and whole lines with their comments. \<open>fmt_args\<close> is the common form of the disassembler's
  format strings: a mnemonic and its comma-separated operand texts.
\<close>

named_theorems operand_simps \<open>operand texts and what the reader makes of them\<close>

section \<open>Operands\<close>

lemma word_str_digits: "list_all is_ascii_digit (word_str w)" "word_str w \<noteq> []"
  by (simp_all add: word_str_def int_str_def decimal_digits)

lemma parse_unsigned_word_str: "parse_unsigned 32 10 (word_str w) = Some (uint w)"
  using uint_lt2p [of w] by (simp add: word_str_def int_str_def parse_unsigned_decimal)

lemma digit_not_continuation: "is_ascii_digit c \<Longrightarrow> \<not> is_continuation c"
  by (auto simp: is_ascii_digit_def is_continuation_def)

lemma slice1_ok: "\<not> slice1_panics (c # word_str w)"
  using word_str_digits [of w]
  by (cases "word_str w") (auto simp: slice1_panics_def digit_not_continuation)

lemma reg_word_plain: "plain c \<Longrightarrow> word_ok (c # word_str w)"
  using plain_word_str [of w] by (simp add: word_ok_def)

lemma plain_letters [simp]:
  "plain CHR ''r''" "plain CHR ''s''" "plain CHR ''p''" "plain CHR ''#''" "plain CHR ''@''"
  "plain CHR ''!''" "plain CHR ''.''" "plain CHR ''L''" "plain CHR ''0''" "plain CHR ''x''"
  "plain CHR ''=''"
  by (simp_all add: plain_def is_ascii_def is_ascii_ws_def)

lemma parse_operand_vreg [operand_simps]:
  assumes "n < 16"
  shows "parse_operand (CHR ''r'' # word_str n) line = Inr (VReg n)"
proof -
  have "uint n < 16" using assms by (simp add: word_less_def)
  then show ?thesis
    using word_str_digits [of n]
    by (simp add: parse_operand_def strip_prefix_char_def all_digits_def slice1_ok parse_reg_no_def
        parse_unsigned_word_str)
qed

lemma parse_operand_sreg [operand_simps]:
  assumes "n < 8"
  shows "parse_operand (CHR ''s'' # word_str n) line = Inr (SReg n)"
proof -
  have "uint n < 8" using assms by (simp add: word_less_def)
  then show ?thesis
    using word_str_digits [of n]
    by (simp add: parse_operand_def strip_prefix_char_def all_digits_def slice1_ok parse_reg_no_def
        parse_unsigned_word_str)
qed

lemma parse_pred_word_str [operand_simps]:
  assumes "n < 4"
  shows "parse_pred (CHR ''p'' # word_str n) line = Inr n"
proof -
  have "uint n < 4" using assms by (simp add: word_less_def)
  then show ?thesis by (simp add: parse_pred_def strip_prefix_char_def parse_unsigned_word_str)
qed

lemma parse_operand_pred [operand_simps]:
  assumes "n < 4"
  shows "parse_operand (CHR ''p'' # word_str n) line = Inr (Pred n)"
  using word_str_digits [of n]
  by (simp add: parse_operand_def strip_prefix_char_def all_digits_def slice1_ok
      parse_pred_word_str [OF assms])

lemma parse_operand_imm [operand_simps]:
  assumes "- (2 ^ 63) < i" and "i < 2 ^ 63"
  shows "parse_operand (CHR ''#'' # int_str i) line = Inr (Imm i)"
  using parse_number_int_str [OF assms] by (simp add: parse_operand_def strip_prefix_char_def)

lemma parse_operand_word_imm [operand_simps]:
  "parse_operand (CHR ''#'' # word_str w) line = Inr (Imm (uint w))"
  by (simp add: parse_operand_def strip_prefix_char_def parse_number_word_str)

section \<open>Guards\<close>

text \<open>The guard field values that have a name are 0 (none) and 1 to 8.\<close>

definition guard_ok :: "u32 \<Rightarrow> bool" where
  "guard_ok g \<longleftrightarrow> g \<le> 8"

lemma guard_cases:
  assumes "guard_ok g"
  obtains "g = 0" | n where "1 \<le> g" "g \<le> 4" "n = g - 1" "n < 4"
    | n where "5 \<le> g" "g \<le> 8" "n = g - 5" "n < 4"
proof -
  have "unat g \<le> 8" using assms by (simp add: guard_ok_def word_le_nat_alt)
  then have "g = word_of_nat (unat g) \<and> unat g \<in> {0,1,2,3,4,5,6,7,8}" by auto
  then have "g \<in> {0,1,2,3,4,5,6,7,8}" by (auto simp: word_unat_eq_iff)
  then show thesis using that by auto
qed

lemma guard_text_ok:
  assumes "guard_ok g" and "g \<noteq> 0"
  shows "word_ok (guard_text g)"
    and "\<exists>t. guard_text g = CHR ''@'' # t \<and> t \<noteq> [] \<and> (\<forall>line. parse_guard t line = Inr g)
           \<and> is_ascii_digit (last t)"
proof -
  have d: "is_ascii_digit (last (word_str n))" for n
    using word_str_digits [of n] by (auto simp: list_all_iff)
  from assms(1)
  have "word_ok (guard_text g) \<and> (\<exists>t. guard_text g = CHR ''@'' # t \<and> t \<noteq> []
      \<and> (\<forall>line. parse_guard t line = Inr g) \<and> is_ascii_digit (last t))"
  proof (cases rule: guard_cases)
    case 1
    with assms(2) show ?thesis by simp
  next
    case (2 n)
    then have t: "guard_text g = CHR ''@'' # CHR ''p'' # word_str n"
      using assms(2) by (simp add: guard_text_def)
    have "parse_guard (CHR ''p'' # word_str n) line = Inr g" for line
      using 2 parse_pred_word_str [OF 2(4)]
      by (simp add: parse_guard_def strip_prefix_char_def)
    with t d [of n] show ?thesis
      using reg_word_plain [of "CHR ''p''" n] word_str_digits [of n] by (simp add: word_ok_def)
  next
    case (3 n)
    then have "\<not> g \<le> 4" by (auto simp: word_le_nat_alt)
    then have t: "guard_text g = CHR ''@'' # CHR ''!'' # CHR ''p'' # word_str n"
      using assms(2) 3 by (simp add: guard_text_def)
    have "parse_guard (CHR ''!'' # CHR ''p'' # word_str n) line = Inr g" for line
      using 3 parse_pred_word_str [OF 3(4)]
      by (simp add: parse_guard_def strip_prefix_char_def)
    with t d [of n] show ?thesis
      using reg_word_plain [of "CHR ''p''" n] word_str_digits [of n] by (simp add: word_ok_def)
  qed
  then show "word_ok (guard_text g)"
    and "\<exists>t. guard_text g = CHR ''@'' # t \<and> t \<noteq> [] \<and> (\<forall>line. parse_guard t line = Inr g)
           \<and> is_ascii_digit (last t)"
    by blast+
qed

section \<open>Instruction lines\<close>

definition fmt_args :: "string \<Rightarrow> string list \<Rightarrow> string" where
  "fmt_args name ws = name @ (if ws = [] then [] else '' '' @ join '', '' ws)"

definition guard_words :: "u32 \<Rightarrow> string list" where
  "guard_words g = (if g = 0 then [] else [guard_text g])"

definition guarded :: "u32 \<Rightarrow> string \<Rightarrow> string" where
  "guarded g body = (if g = 0 then body else guard_text g @ '' '' @ body)"

text \<open>A mnemonic is a word that is no label, guard or directive.\<close>

definition mnemonic_ok :: "string \<Rightarrow> bool" where
  "mnemonic_ok w \<longleftrightarrow> word_ok w \<and> hd w \<noteq> CHR ''@'' \<and> hd w \<noteq> CHR ''.'' \<and> last w \<noteq> CHR '':''"

lemma comma_words_eq_Nil [simp]: "comma_words ws = [] \<longleftrightarrow> ws = []"
  by (cases ws rule: comma_words.cases) auto

lemma line_words:
  "guarded g (fmt_args name ws) = join '' '' (guard_words g @ name # comma_words ws)"
proof -
  have "join '' '' (name # comma_words ws) = fmt_args name ws"
    by (simp add: fmt_args_def join_Cons join_comma_words)
  then show ?thesis
    by (simp add: guarded_def guard_words_def join_Cons)
qed

lemma comma_words_set:
  "w \<in> set (comma_words ws) \<Longrightarrow> w \<in> set ws \<or> (\<exists>v\<in>set ws. w = v @ '','')"
  by (induction ws rule: comma_words.induct) auto

lemma word_ok_comma:
  "word_ok w \<Longrightarrow> w \<noteq> [] \<and> list_all (\<lambda>c. plain c \<or> c = CHR '','') w"
  "word_ok w \<Longrightarrow> w @ '','' \<noteq> [] \<and> list_all (\<lambda>c. plain c \<or> c = CHR '','') (w @ '','')"
  by (auto simp: word_ok_def list_all_iff)

lemma comma_words_chars:
  "\<forall>w\<in>set ws. word_ok w \<Longrightarrow>
   \<forall>w\<in>set (comma_words ws). w \<noteq> [] \<and> list_all (\<lambda>c. plain c \<or> c = CHR '','') w"
  using word_ok_comma by (metis comma_words_set)

lemma line_split:
  assumes "guard_ok g" and "word_ok name" and "\<forall>w\<in>set ws. word_ok w"
  shows "split_whitespace (guarded g (fmt_args name ws)) = guard_words g @ name # comma_words ws"
  unfolding line_words
proof (rule split_whitespace_join)
  have "\<forall>w\<in>set (guard_words g). word_ok w"
    using assms(1) guard_text_ok(1) by (simp add: guard_words_def)
  then show "\<forall>w\<in>set (guard_words g @ name # comma_words ws).
      w \<noteq> [] \<and> list_all (\<lambda>c. plain c \<or> c = CHR '','') w"
    using word_ok_comma(1) [OF assms(2)] word_ok_comma(1) comma_words_chars [OF assms(3)]
    by (metis (no_types, lifting) Un_iff set_append set_ConsD)
qed

lemma plain_not_sep: "plain c \<Longrightarrow> c \<noteq> CHR '';''" "plain c \<Longrightarrow> c \<noteq> CHR '',''" "plain c \<Longrightarrow> c \<noteq> CHR '' ''"
  "plain c \<Longrightarrow> c \<noteq> newline" "plain c \<Longrightarrow> c \<noteq> carriage_return"
  by (auto simp: plain_def is_ascii_ws_def newline_def carriage_return_def)

lemma word_ok_no_comma: "word_ok w \<Longrightarrow> CHR '','' \<notin> set w"
  by (auto simp: word_ok_def list_all_iff dest: plain_not_sep)

text \<open>The ends of a line are plain, so trimming leaves it.\<close>

lemma line_ends:
  assumes "guard_ok g" and "word_ok name" and "\<forall>w\<in>set ws. word_ok w"
  shows "guarded g (fmt_args name ws) \<noteq> []" and "plain (hd (guarded g (fmt_args name ws)))"
    and "plain (last (guarded g (fmt_args name ws)))"
proof -
  have last: "last (fmt_args name ws) = last (last (name # ws))"
    using assms(3) join_last [of ws "'', ''"] join_eq_Nil [of ws "'', ''"] word_ok_ends
    by (auto simp: fmt_args_def)
  moreover have "plain (last (last (name # ws)))"
    using assms(2,3) word_ok_ends by auto
  moreover have "fmt_args name ws \<noteq> []" "plain (hd (fmt_args name ws))"
    using word_ok_ends [OF assms(2)] by (auto simp: fmt_args_def)
  moreover have "g \<noteq> 0 \<Longrightarrow> guard_text g \<noteq> [] \<and> plain (hd (guard_text g))"
    using word_ok_ends [OF guard_text_ok(1) [OF assms(1)]] by blast
  ultimately show "guarded g (fmt_args name ws) \<noteq> []" "plain (hd (guarded g (fmt_args name ws)))"
    "plain (last (guarded g (fmt_args name ws)))"
    by (auto simp: guarded_def)
qed

text \<open>The operand texts, split at their commas again.\<close>

lemma parse_part_word:
  assumes "word_ok w"
  shows "parse_part line w = parse_operand w line" "parse_part line (CHR '' '' # w) = parse_operand w line"
  using word_ok_ends [OF assms] trim_plain [of w] by (simp_all add: parse_part_def)

lemma parse_operands_words:
  assumes "\<forall>w\<in>set ws. word_ok w"
  shows "parse_operands line (comma_words ws) = map_res (\<lambda>w. parse_operand w line) ws"
proof (cases ws)
  case Nil
  then show ?thesis by (simp add: parse_operands_def)
next
  case (Cons w vs)
  have "join '', '' ws \<noteq> []" "plain (hd (join '', '' ws))" "plain (last (join '', '' ws))"
    using Cons assms join_eq_Nil [of ws] join_hd [of ws] join_last [of ws] word_ok_ends by auto
  then have "trim (join '', '' ws) \<noteq> []" using trim_plain(1) by metis
  moreover have "split_on CHR '','' (join '', '' ws) = w # map ((#) CHR '' '') vs"
    using assms Cons by (auto intro!: split_join_comma simp: word_ok_no_comma)
  moreover have "map_res (parse_part line) (map ((#) CHR '' '') vs) = map_res (\<lambda>w. parse_operand w line) vs"
    using assms by (simp add: Cons) (induction vs; simp add: parse_part_word)
  ultimately show ?thesis
    using assms by (simp add: parse_operands_def join_comma_words Cons parse_part_word)
qed

lemma before_char_append: "c \<notin> set s \<Longrightarrow> before_char c (s @ c # t) = s"
  by (induction s) (auto simp: before_char_def)

lemma plain_list_no_sep: "list_all plain w \<Longrightarrow> CHR '';'' \<notin> set w"
  by (auto simp: list_all_iff dest: plain_not_sep)

lemma set_join: "set (join sep ws) \<subseteq> set sep \<union> (\<Union>w\<in>set ws. set w)"
  by (induction ws) (auto simp: join_Cons)

lemma line_chars:
  assumes "guard_ok g" and "word_ok name" and "\<forall>w\<in>set ws. word_ok w"
    and "c \<in> set (guarded g (fmt_args name ws))"
  shows "plain c \<or> c = CHR '','' \<or> c = CHR '' ''"
proof -
  have "c \<in> set (guard_text g) \<and> g \<noteq> 0 \<or> c \<in> set name \<or> c = CHR '' '' \<or> c \<in> set (join '', '' ws)"
    using assms(4) by (auto simp: guarded_def fmt_args_def split: if_splits)
  moreover have "c \<in> set (join '', '' ws) \<Longrightarrow> plain c \<or> c = CHR '','' \<or> c = CHR '' ''"
    using set_join [of "'', ''" ws] assms(3) by (auto simp: word_ok_def list_all_iff)
  moreover have "g \<noteq> 0 \<Longrightarrow> list_all plain (guard_text g)"
    using guard_text_ok(1) [OF assms(1)] by (simp add: word_ok_def)
  ultimately show ?thesis using assms(2) by (auto simp: word_ok_def list_all_iff)
qed

text \<open>A rendered line with a comment behind it reads as one instruction.\<close>

lemma leading_label_none: "w \<noteq> [] \<Longrightarrow> last w \<noteq> CHR '':'' \<Longrightarrow> leading_label line w ts = Inr ([], w # ts)"
  by (simp add: leading_label_def strip_suffix_char_def)

lemma parse_line_instr:
  assumes "guard_ok g" and name: "mnemonic_ok name" and ws: "\<forall>w\<in>set ws. word_ok w"
    and ops: "map_res (\<lambda>w. parse_operand w line) ws = Inr operands"
  shows "parse_line line (guarded g (fmt_args name ws) @ '' ;'' @ comment) =
    Inr [Instr line g (to_ascii_uppercase name) operands]"
proof -
  let ?l = "guarded g (fmt_args name ws)"
  have word: "word_ok name" using name by (simp add: mnemonic_ok_def)
  note ends = line_ends [OF assms(1) word ws]
  have "CHR '';'' \<notin> set (?l @ '' '')"
    using line_chars [OF assms(1) word ws] plain_not_sep(1) by auto
  from before_char_append [OF this, of comment]
  have trimmed: "trim (before_char CHR '';'' (?l @ '' ;'' @ comment)) = ?l"
    using trim_plain(3) [OF ends] by simp
  have n: "name \<noteq> []" "hd name \<noteq> CHR ''@''" "hd name \<noteq> CHR ''.''" "last name \<noteq> CHR '':''"
    using name by (auto simp: mnemonic_ok_def word_ok_def)
  have nodot: "strip_prefix_char CHR ''.'' name = None" "strip_prefix_char CHR ''@'' name = None"
    using n by (cases name; simp add: strip_prefix_char_def)+
  have rest: "rbind (parse_operands line (comma_words ws)) f = f operands" for f :: "operand list \<Rightarrow> stmt list res"
    by (simp add: parse_operands_words [OF ws] ops)
  show ?thesis
  proof (cases "g = 0")
    case True
    then show ?thesis
      using line_split [OF assms(1) word ws] trimmed ends(1)
      by (simp add: parse_line_def guard_words_def leading_label_none n leading_guard_def nodot rest)
  next
    case False
    obtain t where t: "guard_text g = CHR ''@'' # t" "t \<noteq> []" "parse_guard t line = Inr g"
      "is_ascii_digit (last t)"
      using guard_text_ok(2) [OF assms(1) False] by blast
    then have "last t \<noteq> CHR '':''" by (auto simp: is_ascii_digit_def)
    moreover have "strip_prefix_char CHR ''@'' (CHR ''@'' # t) = Some t"
      by (simp add: strip_prefix_char_def)
    ultimately show ?thesis
      using False t line_split [OF assms(1) word ws] trimmed ends(1)
      by (simp add: parse_line_def guard_words_def leading_label_none n leading_guard_def nodot rest)
  qed
qed

text \<open>Lines that hold only a comment, and directive lines.\<close>

lemma parse_line_comment [simp]: "parse_line line (CHR '';'' # s) = Inr []" "parse_line line [] = Inr []"
  by (simp_all add: parse_line_def before_char_def)

lemma parse_line_directive:
  assumes "word_ok dir" and "last dir \<noteq> CHR '':''" and ws: "\<forall>w\<in>set ws. word_ok w"
  shows "parse_line line (CHR ''.'' # join '' '' (dir # ws)) = Inr [Directive line dir ws]"
    and "parse_line line (CHR ''.'' # join '' '' (dir # ws) @ '' ;'' @ comment) = Inr [Directive line dir ws]"
proof -
  let ?l = "CHR ''.'' # join '' '' (dir # ws)"
  have words: "?l = join '' '' ((CHR ''.'' # dir) # ws)" by (simp add: join_Cons)
  have dot: "word_ok (CHR ''.'' # dir)" using assms(1) by (simp add: word_ok_def)
  have all: "\<forall>w\<in>set ((CHR ''.'' # dir) # ws). word_ok w" using dot ws by simp
  have split: "split_whitespace ?l = (CHR ''.'' # dir) # ws"
    unfolding words using all word_ok_comma(1) by (intro split_whitespace_join) blast
  have nosemi: "CHR '';'' \<notin> set ?l"
    unfolding words using set_join [of "'' ''" "(CHR ''.'' # dir) # ws"] all plain_not_sep(1)
    by (fastforce simp: word_ok_def list_all_iff)
  have ends: "?l \<noteq> []" "plain (hd ?l)" "plain (last ?l)"
    unfolding words using join_eq_Nil [of "(CHR ''.'' # dir) # ws"] join_hd [of "(CHR ''.'' # dir) # ws"]
      join_last [of "(CHR ''.'' # dir) # ws"] all word_ok_ends by auto
  have "dir \<noteq> []" using assms(1) by (simp add: word_ok_def)
  then have core: "parse_line line s = Inr [Directive line dir ws]"
    if "trim (before_char CHR '';'' s) = ?l" for s
    using that split assms(2) ends(1)
    by (simp add: parse_line_def leading_label_none leading_guard_def strip_prefix_char_def)
  have "before_char CHR '';'' ?l = ?l"
    using nosemi by (auto simp: before_char_def takeWhile_eq_all_conv)
  then show "parse_line line ?l = Inr [Directive line dir ws]"
    using trim_plain(1) [OF ends] core by simp
  have "CHR '';'' \<notin> set (?l @ '' '')" using nosemi by simp
  from before_char_append [OF this, of comment]
  have "trim (before_char CHR '';'' (?l @ '' ;'' @ comment)) = ?l"
    using trim_plain(3) [OF ends] by simp
  from core [OF this]
  show "parse_line line (CHR ''.'' # join '' '' (dir # ws) @ '' ;'' @ comment) = Inr [Directive line dir ws]"
    by simp
qed

section \<open>Whole texts\<close>

lemma split_inclusive_append:
  "c \<notin> set l \<Longrightarrow> split_inclusive c (l @ c # s) = (l @ [c]) # split_inclusive c s"
  by (induction l) auto

lemma lines_concat:
  assumes "\<forall>l\<in>set ls. newline \<notin> set l \<and> (l = [] \<or> last l \<noteq> carriage_return)"
  shows "lines (concat (map (\<lambda>l. l @ [newline]) ls)) = ls"
  using assms
proof (induction ls)
  case (Cons l ls)
  then have "chomp_line (l @ [newline]) = l"
    by (auto simp: chomp_line_def strip_suffix_char_def)
  with Cons show ?case by (simp add: lines_def split_inclusive_append)
qed (simp add: lines_def)

end
