(* ===== verification/Asm_Roundtrip.thy ===== *)
theory Asm_Roundtrip
  imports Asm_Table Asm_Correct Line_Facts
begin

text \<open>
  Disassembling and assembling again. \<open>canonical lits w\<close> says that assembly text can state
  the word \<open>w\<close>: its unused fields are zero, its guard has a name, its literal index is in the
  pool, its jump target is not negative; or the disassembler falls back to \<open>.word\<close>. For
  programs of canonical words with a pool without duplicates the assembler inverts the
  disassembler; the conditions are needed.
\<close>

section \<open>Rows of the table\<close>

lemma asm_table_names:
  assumes "(op, name, shape) \<in> set asm_table"
  shows "mnemonic_ok name" and "to_ascii_uppercase name = name"
proof -
  have "list_all (\<lambda>(op, name, shape). mnemonic_ok name \<and> to_ascii_uppercase name = name) asm_table"
    by code_simp
  with assms show "mnemonic_ok name" and "to_ascii_uppercase name = name"
    by (auto simp: list_all_iff)
qed

lemma reg_text_word_ok: "word_ok (reg_text a n)"
  by (cases a) (simp_all add: vreg_text_def sreg_text_def pred_text_def reg_word_plain)

lemma num_text_word_ok: "word_ok (CHR ''#'' # word_str n)" "word_ok (imm_text i)"
  using plain_int_str [of i] plain_word_str [of n]
  by (simp_all add: imm_text_def word_ok_def)

lemma shape_texts_word_ok: "\<forall>w\<in>set (shape_texts shape d). word_ok w"
  using reg_text_word_ok [of VecR] reg_text_word_ok [of PreR] num_text_word_ok
  by (cases shape) (simp_all add: reg_text_word_ok)

lemma parse_reg_text:
  assumes "in_class a n" and "n < 16"
  shows "parse_operand (reg_text a n) line = Inr (reg_operand a n)"
  using assms by (cases a) (simp_all add: vreg_text_def sreg_text_def pred_text_def operand_simps)

lemma parse_imm_text: "parse_operand (imm_text (d_imm (decode w))) line = Inr (Imm (d_imm (decode w)))"
  using d_imm_range [of w] unfolding imm_text_def
  by (intro parse_operand_imm) (simp_all add: isa_defs)

lemma shape_texts_read:
  assumes "shape_printable shape (decode w)"
  shows "map_res (\<lambda>t. parse_operand t line) (shape_texts shape (decode w)) =
    Inr (shape_operands shape (decode w))"
proof -
  have r: "d_rd (decode w) < 16" "d_rs1 (decode w) < 16" "d_rs2 (decode w) < 16"
    using decode_ranges [of w] d_rs2_less [of w] by simp_all
  have g: "d_guard (decode w) - 1 < 4" if "1 \<le> d_guard (decode w)" "d_guard (decode w) \<le> 4"
    using that by (auto simp: word_less_nat_alt word_le_nat_alt unat_sub)
  have p: "parse_operand (pred_text n) line = Inr (Pred n)" if "n < 4" for n
    using that by (simp add: pred_text_def operand_simps)
  note v = parse_reg_text [of VecR, simplified]
  from assms show ?thesis
    by (cases shape) (simp_all add: r g v p parse_reg_text parse_imm_text operand_simps)
qed

text \<open>A canonical word is the word its shape stands for.\<close>

lemma shape_word_canonical:
  assumes "shape_canonical shape lits (decode w)"
  shows "shape_word shape (d_op (decode w)) (decode w) = w"
proof -
  let ?d = "decode w"
  have zero: "d_lo ?d = 0 \<Longrightarrow> enc_r (d_op ?d) (d_guard ?d) (d_rd ?d) (d_rs1 ?d) 0 = w"
    using enc_r_decode [of w] d_rs2_small [of w] by simp
  from assms show ?thesis
    using enc_i_decode [of w] enc_i_uint_decode [of w] enc_r_decode [of w] zero
    by (cases shape) auto
qed

section \<open>Canonical words\<close>

definition canonical :: "u32 list \<Rightarrow> u32 \<Rightarrow> bool" where
  "canonical lits w \<longleftrightarrow>
     (case map_of asm_table (d_op (decode w)) of
        None \<Rightarrow> True
      | Some (name, shape) \<Rightarrow>
          \<not> shape_printable shape (decode w)
          \<or> (guard_ok (d_guard (decode w)) \<and> shape_canonical shape lits (decode w)))"

text \<open>The statements a rendered word is read as.\<close>

definition word_stmts :: "nat \<Rightarrow> u32 \<Rightarrow> stmt list" where
  "word_stmts line w =
     (case map_of asm_table (d_op (decode w)) of
        Some (name, shape) \<Rightarrow>
          if shape_printable shape (decode w)
          then [Instr line (shape_guard shape (decode w)) name (shape_operands shape (decode w))]
          else [Directive line ''word'' [''0x'' @ hex_padded 8 (uint w)]]
      | None \<Rightarrow> [Directive line ''word'' [''0x'' @ hex_padded 8 (uint w)]])"

lemma guard_text_0: "guard_text g = [] \<longleftrightarrow> g = 0"
  by (simp add: guard_text_def)

lemma render_printable:
  assumes row: "map_of asm_table (d_op (decode w)) = Some (name, shape)"
    and "shape_printable shape (decode w)"
  shows "render (decode w) lits =
    Some (guarded (shape_guard shape (decode w)) (fmt_args name (shape_texts shape (decode w)))
      @ shape_note shape lits (decode w))"
proof -
  let ?d = "decode w"
  have mem: "(d_op ?d, name, shape) \<in> set asm_table" using row by (rule map_of_SomeD)
  have "render_body ?d lits = Some (fmt_args name (shape_texts shape ?d) @ shape_note shape lits ?d)"
    using render_row [of ?d lits] mem assms(2) by (auto simp: shape_body_def when_ok_def fmt_args_def)
  moreover have "(d_op ?d = OP_JMP_IF_ANY \<or> d_op ?d = OP_JMP_IF_ALL) \<longleftrightarrow> shape = CondTarget"
  proof -
    have "list_all (\<lambda>(op, name, shape).
        (op = OP_JMP_IF_ANY \<or> op = OP_JMP_IF_ALL) \<longleftrightarrow> shape = CondTarget) asm_table"
      by code_simp
    with mem show ?thesis by (auto simp: list_all_iff)
  qed
  moreover have "shape_guard shape ?d = (if shape = CondTarget then 0 else d_guard ?d)"
    by (cases shape) simp_all
  ultimately show ?thesis
    by (auto simp: render_def Let_def guarded_def guard_text_0)
qed

lemma render_not_printable:
  assumes "\<And>name shape. map_of asm_table (d_op (decode w)) = Some (name, shape) \<Longrightarrow>
    \<not> shape_printable shape (decode w)"
  shows "render (decode w) lits = None"
proof (cases "map_of asm_table (d_op (decode w))")
  case None
  then show ?thesis
    by (simp add: render_def render_no_row map_of_eq_None_iff)
next
  case (Some row)
  obtain name shape where row: "row = (name, shape)" by (cases row)
  with Some have "(d_op (decode w), name, shape) \<in> set asm_table" by (simp add: map_of_SomeD)
  with render_row [of "decode w" lits] assms Some row have "render_body (decode w) lits = None"
    by (auto simp: shape_body_def when_ok_def)
  then show ?thesis by (simp add: render_def)
qed

section \<open>Lines of code\<close>

definition code_text :: "u32 list \<Rightarrow> nat \<times> u32 \<Rightarrow> string" where
  "code_text lits aw =
     (case aw of (addr, w) \<Rightarrow>
        (case render (decode w) lits of
           Some b \<Rightarrow> b | None \<Rightarrow> ''.word 0x'' @ hex_padded 8 (uint w))
        @ '' ; '' @ hex_padded 4 (int addr))"

lemma code_line_text: "code_line lits aw = code_text lits aw @ [newline]"
  by (cases aw) (simp add: code_line_def code_text_def Let_def)

lemma shape_note_comment:
  "\<exists>comment. shape_note shape lits d @ '' ; '' @ t = '' ;'' @ comment"
  by (cases "(shape, lits, d)" rule: shape_note.cases) (auto simp: ldw_note_def)

lemma hex_word_ok: "0 \<le> n \<Longrightarrow> word_ok (''0x'' @ hex_padded k n)"
  using plain_hex [of n k] by (simp add: word_ok_def)

lemma word_directive_ok: "word_ok ''word''" "word_ok ''const''"
  by code_simp+

lemma code_text_read:
  assumes "canonical lits w"
  shows "parse_line line (code_text lits (addr, w)) = Inr (word_stmts line w)"
proof (cases "\<exists>name shape. map_of asm_table (d_op (decode w)) = Some (name, shape)
    \<and> shape_printable shape (decode w)")
  case True
  let ?d = "decode w"
  obtain name shape where row: "map_of asm_table (d_op ?d) = Some (name, shape)"
    and pr: "shape_printable shape ?d" using True by blast
  have mem: "(d_op ?d, name, shape) \<in> set asm_table" using row by (rule map_of_SomeD)
  have "guard_ok (d_guard ?d)" using assms row pr by (simp add: canonical_def)
  then have g: "guard_ok (shape_guard shape ?d)" by (cases shape) (simp_all add: guard_ok_def)
  obtain comment where c: "shape_note shape lits ?d @ '' ; '' @ hex_padded 4 (int addr) = '' ;'' @ comment"
    using shape_note_comment by blast
  have "code_text lits (addr, w) =
    guarded (shape_guard shape ?d) (fmt_args name (shape_texts shape ?d)) @ '' ;'' @ comment"
    using c by (simp add: code_text_def render_printable [OF row pr])
  then show ?thesis
    using parse_line_instr [OF g asm_table_names(1) [OF mem] shape_texts_word_ok shape_texts_read [OF pr]]
      asm_table_names(2) [OF mem] row pr by (simp add: word_stmts_def)
next
  case False
  then have "render (decode w) lits = None" by (intro render_not_printable) blast
  then have "code_text lits (addr, w) = CHR ''.'' # join '' '' [''word'', ''0x'' @ hex_padded 8 (uint w)]
      @ '' ;'' @ '' '' @ hex_padded 4 (int addr)"
    by (simp add: code_text_def)
  moreover have "word_stmts line w = [Directive line ''word'' [''0x'' @ hex_padded 8 (uint w)]]"
    using False by (auto simp: word_stmts_def split: option.splits)
  ultimately show ?thesis
    using parse_line_directive(2) [OF word_directive_ok(1), of "[''0x'' @ hex_padded 8 (uint w)]"]
      hex_word_ok [of "uint w" 8] by simp
qed

definition word_refs :: "nat \<Rightarrow> u32 \<Rightarrow> (nat \<times> u32) list" where
  "word_refs line w =
     (case map_of asm_table (d_op (decode w)) of
        Some (name, shape) \<Rightarrow>
          if shape_printable shape (decode w) then shape_refs shape line (decode w) else []
      | None \<Rightarrow> [])"

lemma word_directive_step:
  "directive s ''word'' [''0x'' @ hex_padded 8 (uint w)] line = Inr (emit s w)"
proof -
  have "uint w < 2 ^ 32" using uint_lt2p [of w] by simp
  then have "parse_number (''0x'' @ hex_padded 8 (uint w)) line = Inr (uint w)"
    by (intro parse_number_hex) simp_all
  with \<open>uint w < 2 ^ 32\<close> show ?thesis by (simp add: directive_def as_u32_def)
qed

lemma word_stmts_step:
  assumes "canonical lits w"
  shows "fold_res step_stmt s (word_stmts line w) =
    Inr (emit (s\<lparr>a_ldw_refs := a_ldw_refs s @ word_refs line w\<rparr>) w)"
proof (cases "\<exists>name shape. map_of asm_table (d_op (decode w)) = Some (name, shape)
    \<and> shape_printable shape (decode w)")
  case True
  let ?d = "decode w"
  obtain name shape where row: "map_of asm_table (d_op ?d) = Some (name, shape)"
    and pr: "shape_printable shape ?d" using True by blast
  have mem: "(d_op ?d, name, shape) \<in> set asm_table" using row by (rule map_of_SomeD)
  have canon: "shape_canonical shape lits ?d" using assms row pr by (simp add: canonical_def)
  have "instr s (shape_guard shape ?d) name (shape_operands shape ?d) line =
    Inr (emit (s\<lparr>a_ldw_refs := a_ldw_refs s @ shape_refs shape line ?d\<rparr>) w)"
    using instr_row [OF decode_ranges(5) d_imm_range, where lits=lits and s=s and line=line] mem canon pr
      shape_word_canonical [OF canon] by fastforce
  with row pr show ?thesis by (simp add: word_stmts_def step_stmt_def word_refs_def)
next
  case False
  then have "word_stmts line w = [Directive line ''word'' [''0x'' @ hex_padded 8 (uint w)]]"
    "word_refs line w = []"
    by (auto simp: word_stmts_def word_refs_def split: option.splits)
  then show ?thesis using word_directive_step [of s w line] by (simp add: step_stmt_def)
qed

lemma word_refs_valid:
  assumes "canonical lits w" and "(l, i) \<in> set (word_refs line w)"
  shows "unat i < length lits"
proof -
  have "unat i < length lits"
    if "shape_canonical shape lits d" "(l, i) \<in> set (shape_refs shape line d)" for shape d
    using that by (cases shape) simp_all
  with assms show ?thesis
    by (auto simp: word_refs_def canonical_def split: option.splits if_splits)
qed

text \<open>Lines of code, read and assembled from line number \<open>n\<close> on.\<close>

definition code_stmts :: "nat \<Rightarrow> u32 list \<Rightarrow> stmt list" where
  "code_stmts n ws = concat (map (\<lambda>(line, w). word_stmts line w) (enumerate n ws))"

definition code_refs :: "nat \<Rightarrow> u32 list \<Rightarrow> (nat \<times> u32) list" where
  "code_refs n ws = concat (map (\<lambda>(line, w). word_refs line w) (enumerate n ws))"

lemma code_stmts_step:
  "\<forall>w\<in>set ws. canonical lits w \<Longrightarrow>
   fold_res step_stmt s (code_stmts n ws) =
     Inr (s\<lparr>a_code := a_code s @ ws, a_ldw_refs := a_ldw_refs s @ code_refs n ws\<rparr>)"
proof (induction ws arbitrary: n s)
  case (Cons w ws)
  then show ?case
    by (simp add: code_stmts_def code_refs_def fold_res_append word_stmts_step [of lits] emit_def)
qed (simp add: code_stmts_def code_refs_def)

lemma code_refs_valid:
  assumes "\<forall>w\<in>set ws. canonical lits w" and "(l, i) \<in> set (code_refs n ws)"
  shows "unat i < length lits"
proof -
  from assms(2) obtain line w where "(line, w) \<in> set (enumerate n ws)" "(l, i) \<in> set (word_refs line w)"
    by (auto simp: code_refs_def)
  with assms(1) enumerate_snd [of line w n ws] show ?thesis
    by (blast intro: word_refs_valid)
qed

section \<open>Lines of constants\<close>

definition const_text :: "nat \<times> u32 \<Rightarrow> string" where
  "const_text iv = (case iv of (i, v) \<Rightarrow> ''.const L'' @ nat_str i @ '' '' @ word_str v)"

lemma const_line_text: "const_line iv = const_text iv @ [newline]"
  by (cases iv) (simp add: const_line_def const_text_def)

definition const_name :: "nat \<Rightarrow> string" where
  "const_name i = CHR ''L'' # nat_str i"

lemma digits_val_nat_str: "digits_val 10 0 (nat_str i) = Some (int i)"
  unfolding nat_str_def int_str_def
  by (simp add: digits_val_radix_str del: digits_val.simps)

lemma const_name_inject [simp]: "const_name i = const_name j \<longleftrightarrow> i = j"
proof
  assume "const_name i = const_name j"
  then have "nat_str i = nat_str j" by (simp add: const_name_def)
  then have "Some (int i) = Some (int j)" unfolding digits_val_nat_str [symmetric] by (rule arg_cong)
  then show "i = j" by simp
qed simp

lemma const_text_read:
  "parse_line line (const_text (i, v)) = Inr [Directive line ''const'' [const_name i, word_str v]]"
proof -
  have "const_text (i, v) = CHR ''.'' # join '' '' [''const'', const_name i, word_str v]"
    by (simp add: const_text_def const_name_def)
  moreover have "word_ok (const_name i)" "word_ok (word_str v)"
    using plain_int_str [of "int i"] plain_word_str [of v] word_str_digits(2) [of v]
    by (simp_all add: const_name_def nat_str_def word_ok_def)
  ultimately show ?thesis
    using parse_line_directive(1) [OF word_directive_ok(2), of "[const_name i, word_str v]" line]
    by simp
qed

lemma const_name_identifier: "is_identifier (const_name i)"
proof -
  have "list_all is_ascii_digit (nat_str i)"
    by (simp add: nat_str_def int_str_def decimal_digits)
  then show ?thesis
    by (auto simp: is_identifier_def is_ident_def const_name_def is_ident_first_def is_ident_rest_def
        list_all_iff is_ascii_alphanumeric_def is_ascii_alphabetic_def is_ascii_upper_def)
qed

lemma const_directive_step:
  assumes "a_consts s (const_name i) = None" and "a_lit_by_value s v = None"
    and "length (a_literals s) < MAX_LITERALS"
  shows "directive s ''const'' [const_name i, word_str v] line =
    Inr (s\<lparr>a_consts := (a_consts s)(const_name i \<mapsto> uint v),
           a_literals := a_literals s @ [v],
           a_lit_by_value := (a_lit_by_value s)(v \<mapsto> of_nat (length (a_literals s)))\<rparr>)"
proof -
  have "uint v < 2 ^ 32" using uint_lt2p [of v] by simp
  with assms show ?thesis
    by (simp add: directive_def const_name_identifier parse_number_word_str intern_def as_u32_def
        Let_def)
qed

fun const_stmts :: "nat \<Rightarrow> nat \<Rightarrow> u32 list \<Rightarrow> stmt list" where
  "const_stmts n i [] = []"
| "const_stmts n i (v # vs) =
     Directive n ''const'' [const_name i, word_str v] # const_stmts (Suc n) (Suc i) vs"

lemma const_stmts_step:
  assumes "distinct vs" and "\<forall>v\<in>set vs. a_lit_by_value s v = None"
    and "\<forall>j\<ge>i. a_consts s (const_name j) = None"
    and "length (a_literals s) + length vs \<le> MAX_LITERALS"
  shows "\<exists>t. fold_res step_stmt s (const_stmts n i vs) = Inr t \<and> a_literals t = a_literals s @ vs
    \<and> a_code t = a_code s \<and> a_fixups t = a_fixups s \<and> a_ldw_refs t = a_ldw_refs s"
  using assms
proof (induction vs arbitrary: s n i)
  case (Cons v vs)
  let ?s = "s\<lparr>a_consts := (a_consts s)(const_name i \<mapsto> uint v),
           a_literals := a_literals s @ [v],
           a_lit_by_value := (a_lit_by_value s)(v \<mapsto> of_nat (length (a_literals s)))\<rparr>"
  have "directive s ''const'' [const_name i, word_str v] n = Inr ?s"
    using Cons.prems by (intro const_directive_step) auto
  then have step: "step_stmt s (Directive n ''const'' [const_name i, word_str v]) = Inr ?s"
    by (simp add: step_stmt_def)
  have "\<exists>t. fold_res step_stmt ?s (const_stmts (Suc n) (Suc i) vs) = Inr t
    \<and> a_literals t = a_literals ?s @ vs
    \<and> a_code t = a_code ?s \<and> a_fixups t = a_fixups ?s \<and> a_ldw_refs t = a_ldw_refs ?s"
    using Cons.prems by (intro Cons.IH) auto
  with step show ?case by auto
qed simp

section \<open>The whole text\<close>

definition disasm_lines :: "u32 list \<Rightarrow> u32 list \<Rightarrow> string list" where
  "disasm_lines code lits =
     [''; warpvm disassembly'',
      ''; code: '' @ nat_str (length code) @ '' words, literals: '' @ nat_str (length lits)]
     @ map const_text (enumerate 0 lits)
     @ (if lits \<noteq> [] then [[]] else [])
     @ map (code_text lits) (enumerate 0 code)"

lemma disassemble_lines:
  "disassemble code lits = concat (map (\<lambda>l. l @ [newline]) (disasm_lines code lits))"
proof -
  have "const_line = (\<lambda>iv. const_text iv @ [newline])" "code_line lits = (\<lambda>aw. code_text lits aw @ [newline])"
    by (simp_all add: fun_eq_iff const_line_text code_line_text)
  then show ?thesis by (simp add: disassemble_def disasm_lines_def comp_def)
qed

text \<open>No line holds a line break.\<close>

definition line_ok :: "string \<Rightarrow> bool" where
  "line_ok l \<longleftrightarrow> list_all (\<lambda>c. plain c \<or> c \<in> set '' ,;'') l"

lemma line_ok_simps [simp]: "line_ok []" "line_ok (c # l) \<longleftrightarrow> (plain c \<or> c \<in> set '' ,;'') \<and> line_ok l"
  "line_ok (l @ m) \<longleftrightarrow> line_ok l \<and> line_ok m"
  by (simp_all add: line_ok_def)

lemma plain_line_ok: "list_all plain l \<Longrightarrow> line_ok l"
  by (simp add: line_ok_def list_all_iff)

lemma word_line_ok: "word_ok l \<Longrightarrow> line_ok l"
  by (simp add: word_ok_def plain_line_ok)

lemma line_ok_no_break:
  assumes "line_ok l"
  shows "newline \<notin> set l \<and> (l = [] \<or> last l \<noteq> carriage_return)"
proof -
  have "newline \<notin> set '' ,;''" "carriage_return \<notin> set '' ,;''"
    by (simp_all add: newline_def carriage_return_def)
  then have "newline \<notin> set l" "carriage_return \<notin> set l"
    using assms plain_not_sep(4,5) by (auto simp: line_ok_def list_all_iff)
  then show ?thesis by (metis last_in_set)
qed

lemma line_ok_numbers: "line_ok (nat_str n)" "line_ok (word_str w)" "0 \<le> i \<Longrightarrow> line_ok (hex_padded k i)"
  using plain_int_str [of "int n"] plain_word_str [of w] plain_hex [of i k]
  by (simp_all add: nat_str_def plain_line_ok)

lemma line_ok_letters:
  "line_ok ''.const L''" "line_ok ''.word 0x''" "line_ok '' ; ''" "line_ok '' ; lit=''"
  "line_ok ''; warpvm disassembly''" "line_ok ''; code: ''" "line_ok '' words, literals: ''"
  by code_simp+

lemma code_text_line_ok:
  assumes "canonical lits w"
  shows "line_ok (code_text lits (addr, w))"
proof -
  let ?d = "decode w"
  have "line_ok (case render ?d lits of Some b \<Rightarrow> b | None \<Rightarrow> ''.word 0x'' @ hex_padded 8 (uint w))"
  proof (cases "\<exists>name shape. map_of asm_table (d_op ?d) = Some (name, shape) \<and> shape_printable shape ?d")
    case True
    then obtain name shape where row: "map_of asm_table (d_op ?d) = Some (name, shape)"
      and pr: "shape_printable shape ?d" by blast
    have mem: "(d_op ?d, name, shape) \<in> set asm_table" using row by (rule map_of_SomeD)
    have "guard_ok (d_guard ?d)" using assms row pr by (simp add: canonical_def)
    then have g: "guard_ok (shape_guard shape ?d)" by (cases shape) (simp_all add: guard_ok_def)
    have "word_ok name" using asm_table_names(1) [OF mem] by (simp add: mnemonic_ok_def)
    then have "line_ok (guarded (shape_guard shape ?d) (fmt_args name (shape_texts shape ?d)))"
      using line_chars [OF g _ shape_texts_word_ok] by (auto simp: line_ok_def list_all_iff)
    moreover have "line_ok (shape_note shape lits ?d)"
      using line_ok_letters(4) line_ok_numbers(2)
      by (cases "(shape, lits, ?d)" rule: shape_note.cases) (auto simp: ldw_note_def)
    ultimately show ?thesis by (simp add: render_printable [OF row pr])
  next
    case False
    then have "render ?d lits = None" by (intro render_not_printable) blast
    then show ?thesis
      using line_ok_letters(2) line_ok_numbers(3) [of "uint w" 8] by simp
  qed
  then show ?thesis
    using line_ok_letters(3) line_ok_numbers(3) [of "int addr" 4] by (simp add: code_text_def)
qed

lemma disasm_lines_ok:
  assumes "\<forall>w\<in>set code. canonical lits w" and "l \<in> set (disasm_lines code lits)"
  shows "line_ok l"
proof -
  have "line_ok (const_text iv)" for iv
    using line_ok_letters(1) line_ok_numbers(1,2) by (cases iv) (simp add: const_text_def)
  moreover have "line_ok (code_text lits (addr, w))" if "(addr, w) \<in> set (enumerate 0 code)" for addr w
    using code_text_line_ok assms(1) enumerate_snd [OF that] by blast
  ultimately show ?thesis
    using assms(2) line_ok_letters(5-7) line_ok_numbers(1)
    by (auto simp: disasm_lines_def split: if_splits)
qed

lemma lines_disassemble:
  "\<forall>w\<in>set code. canonical lits w \<Longrightarrow> lines (disassemble code lits) = disasm_lines code lits"
  unfolding disassemble_lines
  using disasm_lines_ok line_ok_no_break by (intro lines_concat) blast

text \<open>\<open>parse\<close>, from line \<open>n\<close> on.\<close>

definition parse_from :: "nat \<Rightarrow> string list \<Rightarrow> stmt list res" where
  "parse_from n ls =
     rbind (map_res (\<lambda>(idx, raw). parse_line (idx + 1) raw) (enumerate n ls)) (\<lambda>parts. Inr (concat parts))"

lemma parse_parse_from: "parse src = rbind (parse_from 0 (lines src)) (\<lambda>sts. Inr \<lparr>stmts = sts\<rparr>)"
  by (simp add: parse_def parse_from_def rbind_assoc)

lemma parse_from_simps [simp]:
  "parse_from n [] = Inr []"
  "parse_from n (l # ls) =
     rbind (parse_line (n + 1) l) (\<lambda>a. rbind (parse_from (Suc n) ls) (\<lambda>b. Inr (a @ b)))"
  by (simp_all add: parse_from_def rbind_assoc)

lemma parse_from_append:
  "parse_from n (ls @ ms) =
     rbind (parse_from n ls) (\<lambda>a. rbind (parse_from (n + length ls) ms) (\<lambda>b. Inr (a @ b)))"
proof (induction ls arbitrary: n)
  case Nil
  show ?case by (cases "parse_from n ms") simp_all
qed (simp add: rbind_assoc)

lemma parse_from_consts:
  "parse_from n (map const_text (enumerate i vs)) = Inr (const_stmts (Suc n) i vs)"
  by (induction vs arbitrary: n i) (simp_all add: const_text_read)

lemma parse_from_code:
  "\<forall>w\<in>set ws. canonical lits w \<Longrightarrow>
   parse_from n (map (code_text lits) (enumerate i ws)) = Inr (code_stmts (Suc n) ws)"
  by (induction ws arbitrary: n i) (simp_all add: code_text_read code_stmts_def)

lemma parse_disassemble:
  assumes "\<forall>w\<in>set code. canonical lits w"
  obtains m where "parse (disassemble code lits) =
    Inr \<lparr>stmts = const_stmts 3 0 lits @ code_stmts m code\<rparr>"
proof -
  let ?k = "length (if lits \<noteq> [] then [[]] else [] :: string list)"
  have blank: "parse_from n (if lits \<noteq> [] then [[]] else []) = Inr []" for n
    by simp
  have "parse_from 0 (disasm_lines code lits) =
      Inr (const_stmts 3 0 lits @ code_stmts (Suc (Suc (Suc (length lits + ?k)))) code)"
    using assms
    by (simp add: disasm_lines_def parse_from_append parse_from_consts parse_from_code blank
        numeral_3_eq_3)
  with that show thesis
    by (simp add: parse_parse_from lines_disassemble [OF assms])
qed

section \<open>The round trip\<close>

lemma predefined_not_const_name: "predefined_consts (const_name i) = None"
  by (simp add: predefined_consts_def const_name_def)

lemma check_ldw_refs_pass:
  "a_literals u = lits \<Longrightarrow> \<forall>(l, i)\<in>set refs. unat i < length lits \<Longrightarrow>
   fold_res (check_ldw_ref u) () refs = Inr ()"
  by (induction refs) (auto simp: check_ldw_ref_def)

lemma assemble_disassemble_canonical:
  assumes "file_ok code lits" and "distinct lits" and canon: "\<forall>w\<in>set code. canonical lits w"
  shows "assemble (disassemble code lits) = Inr \<lparr>out_code = code, out_literals = lits\<rparr>"
proof -
  obtain m where p: "parse (disassemble code lits) =
    Inr \<lparr>stmts = const_stmts 3 0 lits @ code_stmts m code\<rparr>"
    by (rule parse_disassemble [OF canon])
  obtain t where t: "fold_res step_stmt new_asm (const_stmts 3 0 lits) = Inr t"
    "a_literals t = lits" "a_code t = []" "a_fixups t = []" "a_ldw_refs t = []"
    using const_stmts_step [of lits new_asm 0 3] assms(1,2) predefined_not_const_name
    by (auto simp: file_ok_def new_asm_def)
  let ?s = "t\<lparr>a_code := code, a_ldw_refs := code_refs m code\<rparr>"
  have "pass new_asm \<lparr>stmts = const_stmts 3 0 lits @ code_stmts m code\<rparr> = Inr ?s"
    using code_stmts_step [OF canon, of t m] t by (simp add: pass_def fold_res_append)
  moreover have "resolve_fixups ?s = Inr (?s\<lparr>a_fixups := []\<rparr>)"
    using t by (simp add: resolve_fixups_def)
  moreover have "fold_res (check_ldw_ref (?s\<lparr>a_fixups := []\<rparr>)) () (code_refs m code) = Inr ()"
  proof (rule check_ldw_refs_pass)
    show "a_literals (?s\<lparr>a_fixups := []\<rparr>) = lits" using t(2) by simp
    show "\<forall>(l, i)\<in>set (code_refs m code). unat i < length lits"
      using code_refs_valid [OF canon, of _ _ m] by blast
  qed
  ultimately show ?thesis
    using p t assms(1) by (simp add: assemble_def finish_def file_ok_def)
qed

section \<open>Properties\<close>

text \<open>
  C3. The assembler inverts the disassembler: a program of canonical words whose literals are
  all different is assembled again, word for word and literal for literal, from its
  disassembly.
\<close>

theorem assemble_disassemble:
  assumes "file_ok code lits" and "distinct lits" and "\<forall>w\<in>set code. canonical lits w"
  shows "assemble (disassemble code lits) = Inr \<lparr>out_code = code, out_literals = lits\<rparr>"
  using assms by (rule assemble_disassemble_canonical)

theorem assemble_disassemble_witness:
  "assemble (disassemble [840826880, 67248143, 3762290688, 0xFFFFFFFF] [70000]) =
    Inr \<lparr>out_code = [840826880, 67248143, 3762290688, 0xFFFFFFFF], out_literals = [70000]\<rparr>"
proof (rule assemble_disassemble)
  show "file_ok [840826880, 67248143, 3762290688, 0xFFFFFFFF] [70000]"
    by (simp add: file_ok_def isa_defs)
  have "list_all (canonical [70000]) [840826880, 67248143, 3762290688, 0xFFFFFFFF]"
    by code_simp
  then show "\<forall>w\<in>set [840826880, 67248143, 3762290688, 0xFFFFFFFF]. canonical [70000] w"
    by (simp add: list_all_iff)
qed simp



end
