(* ===== verification/Span.thy ===== *)
theory Span
  imports Rust_Text
begin

text \<open>
  Source positions and diagnostics (\<open>tools/warpc/src/span.rs\<close>), and the errors of the WarpC
  front end: a diagnostic the source returns, a panic of the source, or the end of a
  recursion bound of the model. The last is shown not to occur.
\<close>

record span =
  s_offset :: nat
  s_line :: nat
  s_column :: nat

definition span_new :: "nat \<Rightarrow> nat \<Rightarrow> nat \<Rightarrow> span" where
  "span_new offset line column = \<lparr>s_offset = offset, s_line = line, s_column = column\<rparr>"

record diagnostic =
  d_span :: span
  d_message :: string

definition diagnostic_new :: "span \<Rightarrow> string \<Rightarrow> diagnostic" where
  "diagnostic_new sp message = \<lparr>d_span = sp, d_message = message\<rparr>"

definition diagnostic_render :: "diagnostic \<Rightarrow> string \<Rightarrow> string" where
  "diagnostic_render d path =
     path @ '':'' @ nat_str (s_line (d_span d)) @ '':'' @ nat_str (s_column (d_span d))
     @ '': error: '' @ d_message d"

definition diagnostic_fmt :: "diagnostic \<Rightarrow> string" where
  "diagnostic_fmt d =
     nat_str (s_line (d_span d)) @ '':'' @ nat_str (s_column (d_span d)) @ '': '' @ d_message d"

datatype cc_error = Diag diagnostic | CPanic string | OutOfFuel

type_synonym 'a cc = "cc_error + 'a"

definition diag :: "span \<Rightarrow> string \<Rightarrow> 'a cc" where
  "diag sp message = Inl (Diag (diagnostic_new sp message))"

lemma diag_not_Inr [simp]: "diag sp m \<noteq> Inr x" "Inr x \<noteq> diag sp m"
  by (simp_all add: diag_def)

lemma diag_not_fuel [simp]: "diag sp m \<noteq> Inl OutOfFuel" "diag sp m \<noteq> Inl (CPanic p)"
  by (simp_all add: diag_def)

end
