(* ===== verification/Lexer.thy ===== *)
theory Lexer
  imports Span
begin

text \<open>
  The WarpC lexer (\<open>tools/warpc/src/lexer.rs\<close>). The source keeps the bytes and an offset; the
  state here keeps the bytes from the offset on together with the position, and
  \<open>lexer_at\<close> below states that the two agree. The loops of the source are recursions on the
  remaining bytes. Text is UTF-8 bytes, one \<open>char\<close> per byte; the characters of an identifier
  or a number are ASCII, so the source's \<open>from_utf8\<close> on them cannot fail.

  The token kinds carry the source's names with a \<open>T\<close> in front, since the syntax tree uses
  some of the names again. \<open>discriminant\<close> numbers them in their order; comparing token kinds
  by variant compares these numbers, as the source's \<open>mem::discriminant\<close> does.
\<close>

section \<open>Tokens\<close>

datatype (plugins only: code size) token_kind =
    TIdent string
  | TNumber string
  | TChar u32
  | TString "u32 list"
  | TInt
  | TUnsigned
  | TCharKw
  | TVoid
  | TReturn
  | TIf
  | TElse
  | TWhile
  | TDo
  | TFor
  | TBreak
  | TContinue
  | TSwitch
  | TCase
  | TDefault
  | TStruct
  | TUniform
  | TSizeof
  | TLParen
  | TRParen
  | TLBrace
  | TRBrace
  | TLBracket
  | TRBracket
  | TSemicolon
  | TComma
  | TQuestion
  | TColon
  | TDot
  | TArrow
  | TPlus
  | TMinus
  | TStar
  | TSlash
  | TPercent
  | TAmp
  | TPipe
  | TCaret
  | TTilde
  | TBang
  | TPlusPlus
  | TMinusMinus
  | TEqual
  | TPlusEqual
  | TMinusEqual
  | TStarEqual
  | TSlashEqual
  | TPercentEqual
  | TAmpEqual
  | TPipeEqual
  | TCaretEqual
  | TShl
  | TShr
  | TShlEqual
  | TShrEqual
  | TEqualEqual
  | TBangEqual
  | TLess
  | TLessEqual
  | TGreater
  | TGreaterEqual
  | TAndAnd
  | TOrOr
  | TEof

primrec discriminant :: "token_kind \<Rightarrow> int" where
  "discriminant (TIdent _) = 0"
| "discriminant (TNumber _) = 1"
| "discriminant (TChar _) = 2"
| "discriminant (TString _) = 3"
| "discriminant TInt = 4"
| "discriminant TUnsigned = 5"
| "discriminant TCharKw = 6"
| "discriminant TVoid = 7"
| "discriminant TReturn = 8"
| "discriminant TIf = 9"
| "discriminant TElse = 10"
| "discriminant TWhile = 11"
| "discriminant TDo = 12"
| "discriminant TFor = 13"
| "discriminant TBreak = 14"
| "discriminant TContinue = 15"
| "discriminant TSwitch = 16"
| "discriminant TCase = 17"
| "discriminant TDefault = 18"
| "discriminant TStruct = 19"
| "discriminant TUniform = 20"
| "discriminant TSizeof = 21"
| "discriminant TLParen = 22"
| "discriminant TRParen = 23"
| "discriminant TLBrace = 24"
| "discriminant TRBrace = 25"
| "discriminant TLBracket = 26"
| "discriminant TRBracket = 27"
| "discriminant TSemicolon = 28"
| "discriminant TComma = 29"
| "discriminant TQuestion = 30"
| "discriminant TColon = 31"
| "discriminant TDot = 32"
| "discriminant TArrow = 33"
| "discriminant TPlus = 34"
| "discriminant TMinus = 35"
| "discriminant TStar = 36"
| "discriminant TSlash = 37"
| "discriminant TPercent = 38"
| "discriminant TAmp = 39"
| "discriminant TPipe = 40"
| "discriminant TCaret = 41"
| "discriminant TTilde = 42"
| "discriminant TBang = 43"
| "discriminant TPlusPlus = 44"
| "discriminant TMinusMinus = 45"
| "discriminant TEqual = 46"
| "discriminant TPlusEqual = 47"
| "discriminant TMinusEqual = 48"
| "discriminant TStarEqual = 49"
| "discriminant TSlashEqual = 50"
| "discriminant TPercentEqual = 51"
| "discriminant TAmpEqual = 52"
| "discriminant TPipeEqual = 53"
| "discriminant TCaretEqual = 54"
| "discriminant TShl = 55"
| "discriminant TShr = 56"
| "discriminant TShlEqual = 57"
| "discriminant TShrEqual = 58"
| "discriminant TEqualEqual = 59"
| "discriminant TBangEqual = 60"
| "discriminant TLess = 61"
| "discriminant TLessEqual = 62"
| "discriminant TGreater = 63"
| "discriminant TGreaterEqual = 64"
| "discriminant TAndAnd = 65"
| "discriminant TOrOr = 66"
| "discriminant TEof = 67"

record token =
  t_kind :: token_kind
  t_span :: span

section \<open>The state\<close>

record lexer =
  l_rest :: string
  l_offset :: nat
  l_line :: nat
  l_column :: nat

definition lexer_new :: "string \<Rightarrow> lexer" where
  "lexer_new source = \<lparr>l_rest = source, l_offset = 0, l_line = 1, l_column = 1\<rparr>"

definition span_of :: "lexer \<Rightarrow> span" where
  "span_of s = span_new (l_offset s) (l_line s) (l_column s)"

definition peek_byte :: "lexer \<Rightarrow> nat \<Rightarrow> char option" where
  "peek_byte s ahead = (if ahead < length (l_rest s) then Some (l_rest s ! ahead) else None)"

text \<open>\<open>bump\<close> moves over one byte, if there is one; \<open>bump_state\<close> is its effect.\<close>

definition bump_state :: "lexer \<Rightarrow> lexer" where
  "bump_state s =
     (case l_rest s of
        [] \<Rightarrow> s
      | byte # rest \<Rightarrow>
          if byte = newline
          then s\<lparr>l_rest := rest, l_offset := l_offset s + 1, l_line := l_line s + 1, l_column := 1\<rparr>
          else s\<lparr>l_rest := rest, l_offset := l_offset s + 1, l_column := l_column s + 1\<rparr>)"

definition bump_byte :: "lexer \<Rightarrow> char option \<times> lexer" where
  "bump_byte s = (peek_byte s 0, bump_state s)"

lemma bump_rest [simp]: "l_rest (bump_state s) = tl (l_rest s)"
  by (simp add: bump_state_def split: list.split)

text \<open>\<open>while matches!(self.peek(0), Some(byte) if p(byte)) { self.bump(); }\<close>: the bytes
  passed and the state behind them.\<close>

function bump_while :: "(char \<Rightarrow> bool) \<Rightarrow> lexer \<Rightarrow> string \<times> lexer" where
  "bump_while p s =
     (case l_rest s of
        [] \<Rightarrow> ([], s)
      | byte # _ \<Rightarrow>
          if p byte then let (text, t) = bump_while p (bump_state s) in (byte # text, t)
          else ([], s))"
  by pat_completeness auto
termination by (relation "measure (\<lambda>(p, s). length (l_rest s))") auto

declare bump_while.simps [simp del]

section \<open>Trivia\<close>

definition is_blank :: "char \<Rightarrow> bool" where
  "is_blank b \<longleftrightarrow> b = CHR '' '' \<or> b = CHR 0x09 \<or> b = carriage_return \<or> b = newline"

text \<open>The body of a block comment, up to its end; \<open>start\<close> is where the comment began.\<close>

function skip_block :: "span \<Rightarrow> lexer \<Rightarrow> lexer cc" where
  "skip_block start s =
     (if peek_byte s 0 = Some CHR ''*'' \<and> peek_byte s 1 = Some CHR ''/''
      then Inr (bump_state (bump_state s))
      else if l_rest s = [] then diag start ''unterminated block comment''
      else skip_block start (bump_state s))"
  by pat_completeness auto
termination by (relation "measure (\<lambda>(start, s). length (l_rest s))") auto

declare skip_block.simps [simp del]

lemma bump_while_shorter: "length (l_rest (snd (bump_while p s))) \<le> length (l_rest s)"
proof (induction p s rule: bump_while.induct)
  case (1 p s)
  show ?case
  proof (cases "l_rest s")
    case (Cons b bs)
    then show ?thesis
      using "1.IH" [OF Cons] by (subst bump_while.simps) (auto simp: split_beta Let_def)
  qed (subst bump_while.simps, simp)
qed

lemma skip_block_shorter: "skip_block start s = Inr t \<Longrightarrow> length (l_rest t) \<le> length (l_rest s)"
proof (induction start s rule: skip_block.induct)
  case (1 start s)
  let ?closed = "peek_byte s 0 = Some CHR ''*'' \<and> peek_byte s 1 = Some CHR ''/''"
  show ?case
  proof (cases "?closed \<or> l_rest s = []")
    case True
    with "1.prems" show ?thesis by (subst (asm) skip_block.simps) (auto split: if_splits)
  next
    case False
    then have "skip_block start s = skip_block start (bump_state s)"
      by (subst skip_block.simps) auto
    then have "length (l_rest t) \<le> length (l_rest (bump_state s))"
      using "1.IH" "1.prems" False by simp
    then show ?thesis by simp
  qed
qed

function skip_trivia :: "lexer \<Rightarrow> lexer cc" where
  "skip_trivia s =
     (let s = snd (bump_while is_blank s) in
      if peek_byte s 0 = Some CHR ''/'' \<and> peek_byte s 1 = Some CHR ''/''
      then skip_trivia (snd (bump_while (\<lambda>b. b \<noteq> newline) s))
      else if peek_byte s 0 = Some CHR ''/'' \<and> peek_byte s 1 = Some CHR ''*''
      then rbind (skip_block (span_of s) (bump_state (bump_state s))) skip_trivia
      else Inr s)"
  by pat_completeness auto
termination
proof (relation "measure (\<lambda>s. length (l_rest s))")
  fix s t :: lexer
  assume t: "t = snd (bump_while is_blank s)"
    and slash: "peek_byte t 0 = Some CHR ''/'' \<and> peek_byte t 1 = Some CHR ''/''"
  have le: "length (l_rest t) \<le> length (l_rest s)" using bump_while_shorter t by blast
  obtain rest where r: "l_rest t = CHR ''/'' # rest"
    using slash by (cases "l_rest t") (auto simp: peek_byte_def split: if_splits)
  then have "length (l_rest (snd (bump_while (\<lambda>b. b \<noteq> newline) t))) < length (l_rest t)"
    using bump_while_shorter [of "\<lambda>b. b \<noteq> newline" "bump_state t"]
    by (subst bump_while.simps) (simp add: newline_def split_beta Let_def)
  with le show "(snd (bump_while (\<lambda>b. b \<noteq> newline) t), s) \<in> measure (\<lambda>s. length (l_rest s))"
    by simp
next
  fix s t u :: lexer
  assume t: "t = snd (bump_while is_blank s)"
    and slash: "peek_byte t 0 = Some CHR ''/'' \<and> peek_byte t 1 = Some CHR ''*''"
    and u: "skip_block (span_of t) (bump_state (bump_state t)) = Inr u"
  have "length (l_rest t) \<le> length (l_rest s)" using bump_while_shorter t by blast
  moreover have "l_rest t \<noteq> []" using slash by (auto simp: peek_byte_def)
  moreover have "length (l_rest u) \<le> length (tl (tl (l_rest t)))"
    using skip_block_shorter [OF u] by simp
  ultimately show "(u, s) \<in> measure (\<lambda>s. length (l_rest s))"
    by (cases "l_rest t") auto
qed simp

declare skip_trivia.simps [simp del]

section \<open>Words and literals\<close>

definition is_ident_start :: "char \<Rightarrow> bool" where
  "is_ident_start b \<longleftrightarrow> is_ascii_alphabetic b \<or> b = CHR ''_''"

definition is_ident_continue :: "char \<Rightarrow> bool" where
  "is_ident_continue b \<longleftrightarrow> is_ident_start b \<or> is_ascii_digit b"

definition keyword :: "string \<Rightarrow> token_kind" where
  "keyword text =
     (if text = ''int'' then TInt
      else if text = ''unsigned'' then TUnsigned
      else if text = ''char'' then TCharKw
      else if text = ''void'' then TVoid
      else if text = ''return'' then TReturn
      else if text = ''if'' then TIf
      else if text = ''else'' then TElse
      else if text = ''while'' then TWhile
      else if text = ''do'' then TDo
      else if text = ''for'' then TFor
      else if text = ''break'' then TBreak
      else if text = ''continue'' then TContinue
      else if text = ''switch'' then TSwitch
      else if text = ''case'' then TCase
      else if text = ''default'' then TDefault
      else if text = ''struct'' then TStruct
      else if text = ''uniform'' then TUniform
      else if text = ''sizeof'' then TSizeof
      else TIdent text)"

definition lex_identifier :: "lexer \<Rightarrow> token_kind \<times> lexer" where
  "lex_identifier s = (let (text, t) = bump_while is_ident_continue s in (keyword text, t))"

definition lex_number :: "lexer \<Rightarrow> token_kind \<times> lexer" where
  "lex_number s =
     (let (text, t) = bump_while (\<lambda>b. is_ascii_alphanumeric b \<or> b = CHR ''_'') s
      in (TNumber text, t))"

text \<open>\<open>byte as u32\<close>, and \<open>byte as char\<close> in a message: the Latin-1 character, in UTF-8.\<close>

definition byte_u32 :: "char \<Rightarrow> u32" where
  "byte_u32 b = word_of_int (code_of b)"

definition byte_as_char :: "char \<Rightarrow> string" where
  "byte_as_char b =
     (if code_of b < 128 then [b]
      else [char_of (0xC0 + code_of b div 64), char_of (0x80 + code_of b mod 64)])"

text \<open>The escapes the two kinds of literal share.\<close>

definition common_escape :: "char \<Rightarrow> u32 option" where
  "common_escape b =
     (if b = CHR ''n'' then Some (byte_u32 newline)
      else if b = CHR ''r'' then Some (byte_u32 carriage_return)
      else if b = CHR ''t'' then Some (byte_u32 (CHR 0x09))
      else if b = CHR ''0'' then Some 0
      else if b = CHR 0x5C then Some (byte_u32 (CHR 0x5C))
      else if b = CHR 0x27 then Some (byte_u32 (CHR 0x27))
      else None)"

definition character_value :: "span \<Rightarrow> lexer \<Rightarrow> (u32 \<times> lexer) cc" where
  "character_value start s =
     (let (byte, s) = bump_byte s in
      case byte of
        None \<Rightarrow> diag start ''unterminated character literal''
      | Some byte \<Rightarrow>
          if byte = newline then diag start ''unterminated character literal''
          else if byte = CHR 0x5C then
            (let (esc, s) = bump_byte s in
             case esc of
               None \<Rightarrow> diag start ''unterminated character escape''
             | Some other \<Rightarrow>
                 (case common_escape other of
                    Some v \<Rightarrow> Inr (v, s)
                  | None \<Rightarrow> diag start (''unsupported character escape '' @ [CHR 0x27, CHR 0x5C]
                              @ byte_as_char other @ [CHR 0x27])))
          else if is_ascii byte then Inr (byte_u32 byte, s)
          else diag start ''non-ASCII character literal is not yet supported'')"

definition character :: "lexer \<Rightarrow> (u32 \<times> lexer) cc" where
  "character s =
     (let start = span_of s; s = bump_state s in
      rbind (character_value start s) (\<lambda>(value, s).
        let (byte, s) = bump_byte s in
        if byte \<noteq> Some CHR 0x27 then diag start ''character literal must contain one character''
        else Inr (value, s)))"

text \<open>The loop of \<open>string\<close> behind the opening quote: the words up to the closing quote.\<close>

function string_words :: "span \<Rightarrow> lexer \<Rightarrow> (u32 list \<times> lexer) cc" where
  "string_words start s =
     (case l_rest s of
        [] \<Rightarrow> diag start ''unterminated string literal''
      | byte # _ \<Rightarrow>
          let s = bump_state s in
          if byte = CHR 0x22 then Inr ([], s)
          else if byte = newline then diag start ''unterminated string literal''
          else if byte = CHR 0x5C then
            (case l_rest s of
               [] \<Rightarrow> diag start ''unterminated string escape''
             | other # _ \<Rightarrow>
                 let s = bump_state s in
                 case or_else (common_escape other)
                        (if other = CHR 0x22 then Some (byte_u32 (CHR 0x22)) else None) of
                   Some v \<Rightarrow> rbind (string_words start s) (\<lambda>(words, t). Inr (v # words, t))
                 | None \<Rightarrow> diag start (''unsupported string escape '' @ [CHR 0x27, CHR 0x5C]
                             @ byte_as_char other @ [CHR 0x27]))
          else if is_ascii byte then
            rbind (string_words start s) (\<lambda>(words, t). Inr (byte_u32 byte # words, t))
          else diag start ''non-ASCII string literal is not yet supported'')"
  by pat_completeness auto
termination by (relation "measure (\<lambda>(start, s). length (l_rest s))") auto

declare string_words.simps [simp del]

definition string_literal :: "lexer \<Rightarrow> (u32 list \<times> lexer) cc" where
  "string_literal s =
     rbind (string_words (span_of s) (bump_state s)) (\<lambda>(words, t). Inr (words @ [0], t))"

section \<open>Operators\<close>

text \<open>The match of \<open>operator\<close> on three bytes: the kind and how many bytes behind the first
  it takes. The arms are in the source's order; a missing byte is \<open>None\<close>.\<close>

definition operator_kind :: "char \<Rightarrow> char option \<Rightarrow> char option \<Rightarrow> (token_kind \<times> nat) option" where
  "operator_kind a b c =
     (if a = CHR ''<'' \<and> b = Some CHR ''<'' \<and> c = Some CHR ''='' then Some (TShlEqual, 2)
      else if a = CHR ''>'' \<and> b = Some CHR ''>'' \<and> c = Some CHR ''='' then Some (TShrEqual, 2)
      else if a = CHR ''+'' \<and> b = Some CHR ''+'' then Some (TPlusPlus, 1)
      else if a = CHR ''-'' \<and> b = Some CHR ''-'' then Some (TMinusMinus, 1)
      else if a = CHR ''-'' \<and> b = Some CHR ''>'' then Some (TArrow, 1)
      else if a = CHR ''+'' \<and> b = Some CHR ''='' then Some (TPlusEqual, 1)
      else if a = CHR ''-'' \<and> b = Some CHR ''='' then Some (TMinusEqual, 1)
      else if a = CHR ''*'' \<and> b = Some CHR ''='' then Some (TStarEqual, 1)
      else if a = CHR ''/'' \<and> b = Some CHR ''='' then Some (TSlashEqual, 1)
      else if a = CHR ''%'' \<and> b = Some CHR ''='' then Some (TPercentEqual, 1)
      else if a = CHR ''&'' \<and> b = Some CHR ''='' then Some (TAmpEqual, 1)
      else if a = CHR ''|'' \<and> b = Some CHR ''='' then Some (TPipeEqual, 1)
      else if a = CHR ''^'' \<and> b = Some CHR ''='' then Some (TCaretEqual, 1)
      else if a = CHR ''='' \<and> b = Some CHR ''='' then Some (TEqualEqual, 1)
      else if a = CHR ''!'' \<and> b = Some CHR ''='' then Some (TBangEqual, 1)
      else if a = CHR ''<'' \<and> b = Some CHR ''='' then Some (TLessEqual, 1)
      else if a = CHR ''>'' \<and> b = Some CHR ''='' then Some (TGreaterEqual, 1)
      else if a = CHR ''&'' \<and> b = Some CHR ''&'' then Some (TAndAnd, 1)
      else if a = CHR ''|'' \<and> b = Some CHR ''|'' then Some (TOrOr, 1)
      else if a = CHR ''<'' \<and> b = Some CHR ''<'' then Some (TShl, 1)
      else if a = CHR ''>'' \<and> b = Some CHR ''>'' then Some (TShr, 1)
      else if a = CHR ''('' then Some (TLParen, 0)
      else if a = CHR '')'' then Some (TRParen, 0)
      else if a = CHR ''{'' then Some (TLBrace, 0)
      else if a = CHR ''}'' then Some (TRBrace, 0)
      else if a = CHR ''['' then Some (TLBracket, 0)
      else if a = CHR '']'' then Some (TRBracket, 0)
      else if a = CHR '';'' then Some (TSemicolon, 0)
      else if a = CHR '','' then Some (TComma, 0)
      else if a = CHR ''?'' then Some (TQuestion, 0)
      else if a = CHR '':'' then Some (TColon, 0)
      else if a = CHR ''.'' then Some (TDot, 0)
      else if a = CHR ''+'' then Some (TPlus, 0)
      else if a = CHR ''-'' then Some (TMinus, 0)
      else if a = CHR ''*'' then Some (TStar, 0)
      else if a = CHR ''/'' then Some (TSlash, 0)
      else if a = CHR ''%'' then Some (TPercent, 0)
      else if a = CHR ''&'' then Some (TAmp, 0)
      else if a = CHR ''|'' then Some (TPipe, 0)
      else if a = CHR ''^'' then Some (TCaret, 0)
      else if a = CHR ''~'' then Some (TTilde, 0)
      else if a = CHR ''!'' then Some (TBang, 0)
      else if a = CHR ''='' then Some (TEqual, 0)
      else if a = CHR ''<'' then Some (TLess, 0)
      else if a = CHR ''>'' then Some (TGreater, 0)
      else None)"

text \<open>\<open>self.bump().unwrap()\<close> panics at the end of the source; \<open>run\<close> calls it only with a
  byte at hand.\<close>

definition operator :: "lexer \<Rightarrow> (token_kind \<times> lexer) cc" where
  "operator s =
     (let sp = span_of s; (a, s) = bump_byte s in
      case a of
        None \<Rightarrow> Inl (CPanic ''called unwrap on a None value'')
      | Some a \<Rightarrow>
          (case operator_kind a (peek_byte s 0) (peek_byte s 1) of
             Some (kind, n) \<Rightarrow> Inr (kind, (bump_state ^^ n) s)
           | None \<Rightarrow> diag sp (''unexpected character '' @ [CHR 0x27] @ byte_as_char a @ [CHR 0x27])))"

section \<open>The token loop\<close>

text \<open>One token behind the trivia, at a byte.\<close>

definition next_kind :: "char \<Rightarrow> lexer \<Rightarrow> (token_kind \<times> lexer) cc" where
  "next_kind byte s =
     (if is_ident_start byte then Inr (lex_identifier s)
      else if is_ascii_digit byte then Inr (lex_number s)
      else if byte = CHR 0x27 then rbind (character s) (\<lambda>(v, t). Inr (TChar v, t))
      else if byte = CHR 0x22 then rbind (string_literal s) (\<lambda>(v, t). Inr (TString v, t))
      else operator s)"

section \<open>Progress\<close>

text \<open>Every operation of the lexer moves by bumping. \<open>reaches s t\<close>: some number of bumps lead
  from \<open>s\<close> to \<open>t\<close>.\<close>

definition reaches :: "lexer \<Rightarrow> lexer \<Rightarrow> bool" where
  "reaches s t \<longleftrightarrow> (\<exists>n. t = (bump_state ^^ n) s)"

lemma reaches_refl [simp]: "reaches s s"
  unfolding reaches_def by (rule exI [of _ 0]) simp

lemma reaches_bump: "reaches (bump_state s) t \<Longrightarrow> reaches s t"
  unfolding reaches_def by (metis comp_apply funpow_Suc_right)

lemma reaches_bump1 [simp]: "reaches s (bump_state s)"
  by (rule reaches_bump) simp

lemma reaches_trans: "reaches s t \<Longrightarrow> reaches t u \<Longrightarrow> reaches s u"
  unfolding reaches_def by (metis comp_apply funpow_add)

lemma reaches_funpow [simp]: "reaches s ((bump_state ^^ n) s)"
  unfolding reaches_def by blast

lemma reaches_shorter: "reaches s t \<Longrightarrow> length (l_rest t) \<le> length (l_rest s)"
proof -
  have "length (l_rest ((bump_state ^^ n) s)) \<le> length (l_rest s)" for n
    by (induction n) auto
  then show "reaches s t \<Longrightarrow> length (l_rest t) \<le> length (l_rest s)"
    unfolding reaches_def by blast
qed

lemma reaches_bump_while: "reaches s (snd (bump_while p s))"
proof (induction p s rule: bump_while.induct)
  case (1 p s)
  show ?case
  proof (cases "l_rest s")
    case (Cons b bs)
    then show ?thesis
      using "1.IH" [OF Cons] by (subst bump_while.simps) (auto simp: split_beta Let_def intro: reaches_bump)
  qed (subst bump_while.simps, simp)
qed

text \<open>A word at its first byte takes that byte.\<close>

lemma reaches_bump_while_first:
  assumes "l_rest s = b # bs" and "p b"
  shows "reaches (bump_state s) (snd (bump_while p s))"
  using reaches_bump_while [of "bump_state s" p] assms
  by (subst bump_while.simps) (simp add: split_beta Let_def)

lemma reaches_skip_block: "skip_block start s = Inr t \<Longrightarrow> reaches s t"
proof (induction start s rule: skip_block.induct)
  case (1 start s)
  let ?closed = "peek_byte s 0 = Some CHR ''*'' \<and> peek_byte s 1 = Some CHR ''/''"
  show ?case
  proof (cases "?closed \<or> l_rest s = []")
    case True
    with "1.prems" show ?thesis
      by (subst (asm) skip_block.simps) (auto split: if_splits intro: reaches_bump)
  next
    case False
    then have "skip_block start s = skip_block start (bump_state s)"
      by (subst skip_block.simps) auto
    then have "reaches (bump_state s) t" using "1.IH" "1.prems" False by simp
    then show ?thesis by (rule reaches_bump)
  qed
qed

lemma reaches_skip_trivia: "skip_trivia s = Inr t \<Longrightarrow> reaches s t"
proof (induction s rule: skip_trivia.induct)
  case (1 s)
  let ?t = "snd (bump_while is_blank s)"
  have st: "reaches s ?t" by (rule reaches_bump_while)
  consider (line) "peek_byte ?t 0 = Some CHR ''/'' \<and> peek_byte ?t 1 = Some CHR ''/''"
    | (block) "\<not> (peek_byte ?t 0 = Some CHR ''/'' \<and> peek_byte ?t 1 = Some CHR ''/'')"
      "peek_byte ?t 0 = Some CHR ''/'' \<and> peek_byte ?t 1 = Some CHR ''*''"
    | (none) "\<not> (peek_byte ?t 0 = Some CHR ''/'' \<and> peek_byte ?t 1 = Some CHR ''/'')"
      "\<not> (peek_byte ?t 0 = Some CHR ''/'' \<and> peek_byte ?t 1 = Some CHR ''*'')"
    by blast
  then show ?case
  proof cases
    case line
    then have "skip_trivia s = skip_trivia (snd (bump_while (\<lambda>b. b \<noteq> newline) ?t))"
      by (subst skip_trivia.simps) (simp add: Let_def)
    then have "reaches (snd (bump_while (\<lambda>b. b \<noteq> newline) ?t)) t"
      using "1.IH"(1) [OF refl line] "1.prems" by simp
    then show ?thesis using st reaches_bump_while reaches_trans by blast
  next
    case block
    then have "rbind (skip_block (span_of ?t) (bump_state (bump_state ?t))) skip_trivia = Inr t"
      using "1.prems" by (subst (asm) skip_trivia.simps) (auto simp: Let_def)
    then obtain u where u: "skip_block (span_of ?t) (bump_state (bump_state ?t)) = Inr u"
      "skip_trivia u = Inr t" by (rule rbind_InrE)
    have "reaches ?t u" using reaches_skip_block [OF u(1)] by (blast intro: reaches_bump)
    moreover have "reaches u t" using "1.IH"(2) [OF refl block u(1) u(2)] .
    ultimately show ?thesis using st reaches_trans by blast
  next
    case none
    then have "skip_trivia s = Inr ?t" by (subst skip_trivia.simps) (auto simp: Let_def)
    with "1.prems" st show ?thesis by simp
  qed
qed

text \<open>A string that is accepted ends at its quote, or has one word in front of the rest.\<close>

lemma string_words_Inr:
  assumes "string_words start s = Inr (ws, t)"
  obtains (quote) bs where "l_rest s = CHR 0x22 # bs" and "ws = []" and "t = bump_state s"
    | (word) b bs v vs u where "l_rest s = b # bs" and "b \<noteq> CHR 0x22"
      and "string_words start u = Inr (vs, t)" and "ws = v # vs"
      and "u = bump_state s \<or> u = bump_state (bump_state s) \<and> bs \<noteq> []"
proof (cases "l_rest s")
  case Nil
  with assms show thesis by (subst (asm) string_words.simps) simp
next
  case (Cons b bs)
  let ?u = "bump_state s"
  have eq: "string_words start s =
    (if b = CHR 0x22 then Inr ([], ?u)
     else if b = newline then diag start ''unterminated string literal''
     else if b = CHR 0x5C then
       (case bs of
          [] \<Rightarrow> diag start ''unterminated string escape''
        | other # _ \<Rightarrow>
            (case or_else (common_escape other)
                    (if other = CHR 0x22 then Some (byte_u32 (CHR 0x22)) else None) of
               Some v \<Rightarrow> rbind (string_words start (bump_state ?u)) (\<lambda>(words, t). Inr (v # words, t))
             | None \<Rightarrow> diag start (''unsupported string escape '' @ [CHR 0x27, CHR 0x5C]
                        @ byte_as_char other @ [CHR 0x27])))
     else if is_ascii b then
       rbind (string_words start ?u) (\<lambda>(words, t). Inr (byte_u32 b # words, t))
     else diag start ''non-ASCII string literal is not yet supported'')"
    by (subst string_words.simps) (simp add: Cons Let_def cong: list.case_cong option.case_cong)
  show thesis
  proof (cases "b = CHR 0x22")
    case True
    with assms eq Cons quote show thesis by simp
  next
    case b: False
    show thesis
    proof (cases "b = CHR 0x5C")
      case True
      with assms eq b obtain other bs' v vs where "bs = other # bs'"
        "string_words start (bump_state ?u) = Inr (vs, t)" "ws = v # vs"
        by (auto simp: res_simps newline_def split: list.splits option.splits)
      with word [OF Cons b] show thesis by blast
    next
      case False
      with assms eq b obtain vs where "string_words start ?u = Inr (vs, t)" "ws = byte_u32 b # vs"
        by (auto simp: res_simps split: if_splits)
      with word [OF Cons b] show thesis by blast
    qed
  qed
qed

lemma reaches_string_words: "string_words start s = Inr (ws, t) \<Longrightarrow> reaches s t"
proof (induction "length (l_rest s)" arbitrary: s ws t rule: less_induct)
  case less
  from less.prems show ?case
  proof (cases rule: string_words_Inr)
    case quote
    then show ?thesis by simp
  next
    case (word b bs v vs u)
    then have "length (l_rest u) < length (l_rest s)" by auto
    with less.hyps word(3) have "reaches u t" by blast
    with word(5) show ?thesis by (auto intro: reaches_bump)
  qed
qed

lemma reaches_character: "character s = Inr (v, t) \<Longrightarrow> reaches (bump_state s) t"
proof -
  have val: "character_value start s = Inr (v, t) \<Longrightarrow> reaches s t" for start s v t
    by (auto simp: character_value_def bump_byte_def Let_def intro: reaches_bump
        split: option.splits if_splits)
  assume "character s = Inr (v, t)"
  then obtain u where "character_value (span_of s) (bump_state s) = Inr (v, u)" "t = bump_state u"
    by (auto simp: character_def Let_def bump_byte_def res_simps split: if_splits)
  then show ?thesis using val reaches_trans reaches_bump1 by blast
qed

lemma reaches_next_kind:
  assumes "l_rest s = byte # bs" and "next_kind byte s = Inr (kind, t)"
  shows "reaches (bump_state s) t"
proof -
  have op: "operator s = Inr (kind, t) \<Longrightarrow> reaches (bump_state s) t"
    by (auto simp: operator_def bump_byte_def Let_def split: option.splits)
  have id: "is_ident_start byte \<Longrightarrow> lex_identifier s = (kind, t) \<Longrightarrow> reaches (bump_state s) t"
    using reaches_bump_while_first [OF assms(1), of is_ident_continue]
    by (auto simp: lex_identifier_def split_beta is_ident_continue_def)
  have num: "is_ascii_digit byte \<Longrightarrow> lex_number s = (kind, t) \<Longrightarrow> reaches (bump_state s) t"
    using reaches_bump_while_first [OF assms(1), of "\<lambda>b. is_ascii_alphanumeric b \<or> b = CHR ''_''"]
    by (auto simp: lex_number_def split_beta is_ascii_alphanumeric_def)
  show ?thesis
    using assms(2) op id num reaches_character reaches_string_words
    by (auto simp: next_kind_def string_literal_def res_simps split: if_splits)
qed

lemma next_kind_shorter:
  assumes "l_rest s = byte # bs" and "next_kind byte s = Inr (kind, t)"
  shows "length (l_rest t) < length (l_rest s)"
  using reaches_shorter [OF reaches_next_kind [OF assms]] assms(1) by simp

section \<open>The token list\<close>

function run :: "lexer \<Rightarrow> token list cc" where
  "run s =
     rbind (skip_trivia s) (\<lambda>s.
       case l_rest s of
         [] \<Rightarrow> Inr [\<lparr>t_kind = TEof, t_span = span_of s\<rparr>]
       | byte # _ \<Rightarrow>
           rbind (next_kind byte s) (\<lambda>(kind, t).
           rbind (run t) (\<lambda>tokens. Inr (\<lparr>t_kind = kind, t_span = span_of s\<rparr> # tokens))))"
  by pat_completeness auto
termination
proof (relation "measure (\<lambda>s. length (l_rest s))")
  fix s t byte bs kt kind u
  assume "skip_trivia s = Inr t" and "l_rest t = byte # bs" and "next_kind byte t = Inr kt"
    and "(kind, u) = kt"
  then show "(u, s) \<in> measure (\<lambda>s. length (l_rest s))"
    using reaches_shorter [OF reaches_skip_trivia] next_kind_shorter by fastforce
qed simp

declare run.simps [simp del]

definition lex :: "string \<Rightarrow> token list cc" where
  "lex source = run (lexer_new source)"

section \<open>Totality\<close>

text \<open>The lexer has no panic and no recursion bound: it returns tokens or a diagnostic.\<close>

definition diagnoses :: "'a cc \<Rightarrow> bool" where
  "diagnoses r \<longleftrightarrow> (\<forall>e. r = Inl e \<longrightarrow> (\<exists>d. e = Diag d))"

lemma diagnoses_simps [simp]: "diagnoses (Inr x)" "diagnoses (diag sp m)" "diagnoses (Inl (Diag d))"
  by (simp_all add: diagnoses_def diag_def)

lemma diagnoses_rbind: "diagnoses m \<Longrightarrow> (\<And>x. m = Inr x \<Longrightarrow> diagnoses (f x)) \<Longrightarrow> diagnoses (rbind m f)"
  by (cases m) (auto simp: diagnoses_def)

lemma diagnoses_skip_block: "diagnoses (skip_block start s)"
proof (induction start s rule: skip_block.induct)
  case (1 start s)
  then show ?case by (subst skip_block.simps) auto
qed

lemma diagnoses_skip_trivia: "diagnoses (skip_trivia s)"
proof (induction s rule: skip_trivia.induct)
  case (1 s)
  show ?case
    by (subst skip_trivia.simps)
      (auto simp: Let_def intro!: diagnoses_rbind diagnoses_skip_block "1.IH" [OF refl])
qed

lemma diagnoses_string_words: "diagnoses (string_words start s)"
proof (induction "length (l_rest s)" arbitrary: s rule: less_induct)
  case less
  show ?case
    by (subst string_words.simps)
      (auto simp: Let_def intro!: diagnoses_rbind less.hyps split: list.split option.split)
qed

lemma diagnoses_cases:
  "diagnoses a \<Longrightarrow> diagnoses b \<Longrightarrow> diagnoses (if c then a else b)"
  "diagnoses a \<Longrightarrow> (\<And>x. o' = Some x \<Longrightarrow> diagnoses (f x)) \<Longrightarrow>
   diagnoses (case o' of None \<Rightarrow> a | Some x \<Rightarrow> f x)"
  by (auto split: option.split)

lemma diagnoses_character: "diagnoses (character s)"
  unfolding character_def character_value_def bump_byte_def Let_def prod.case
  by (intro diagnoses_rbind diagnoses_cases diagnoses_simps) (simp split: prod.split)

lemma diagnoses_operator: "l_rest s \<noteq> [] \<Longrightarrow> diagnoses (operator s)"
  unfolding operator_def bump_byte_def Let_def prod.case
  by (auto simp: peek_byte_def split: option.split)

lemma diagnoses_next_kind:
  assumes "l_rest s = byte # bs"
  shows "diagnoses (next_kind byte s)"
  unfolding next_kind_def string_literal_def
  by (intro diagnoses_cases diagnoses_rbind diagnoses_simps diagnoses_character diagnoses_string_words
      diagnoses_operator) (simp_all add: assms split: prod.split)

lemma diagnoses_run: "diagnoses (run s)"
proof (induction s rule: run.induct)
  case (1 s)
  show ?case
    by (subst run.simps)
      (auto intro!: diagnoses_rbind diagnoses_skip_trivia diagnoses_next_kind "1.IH" split: list.split)
qed

section \<open>Positions\<close>

text \<open>The position behind a text: its length, one more than its line breaks, one more than
  the bytes since the last of them.\<close>

definition position :: "string \<Rightarrow> span" where
  "position pre =
     \<lparr>s_offset = length pre, s_line = 1 + length (filter (\<lambda>b. b = newline) pre),
      s_column = 1 + length (takeWhile (\<lambda>b. b \<noteq> newline) (rev pre))\<rparr>"

definition lexer_at :: "string \<Rightarrow> lexer \<Rightarrow> bool" where
  "lexer_at source s \<longleftrightarrow> (\<exists>pre. source = pre @ l_rest s \<and> span_of s = position pre)"

lemma lexer_at_new: "lexer_at source (lexer_new source)"
  by (simp add: lexer_at_def lexer_new_def span_of_def span_new_def position_def)

lemma lexer_at_bump: "lexer_at source s \<Longrightarrow> lexer_at source (bump_state s)"
proof -
  assume "lexer_at source s"
  then obtain pre where pre: "source = pre @ l_rest s" "span_of s = position pre"
    by (auto simp: lexer_at_def)
  show ?thesis
  proof (cases "l_rest s")
    case Nil
    with pre show ?thesis by (auto simp: lexer_at_def bump_state_def)
  next
    case (Cons b bs)
    then have "source = (pre @ [b]) @ l_rest (bump_state s)" using pre(1) by simp
    moreover have "span_of (bump_state s) = position (pre @ [b])"
      using pre(2) Cons
      by (simp add: bump_state_def span_of_def span_new_def position_def)
    ultimately show ?thesis unfolding lexer_at_def by blast
  qed
qed

lemma lexer_at_reaches: "reaches s t \<Longrightarrow> lexer_at source s \<Longrightarrow> lexer_at source t"
proof -
  have "lexer_at source s \<Longrightarrow> lexer_at source ((bump_state ^^ n) s)" for n
    by (induction n) (auto intro: lexer_at_bump)
  then show "reaches s t \<Longrightarrow> lexer_at source s \<Longrightarrow> lexer_at source t"
    unfolding reaches_def by blast
qed

lemma lexer_at_offset: "lexer_at source s \<Longrightarrow> l_offset s + length (l_rest s) = length source"
  by (auto simp: lexer_at_def span_of_def span_new_def position_def)

lemma operator_kind_not_Eof: "operator_kind a b c \<noteq> Some (TEof, n)"
  unfolding operator_kind_def by (simp del: if_split split: if_split_asm cong: if_cong)

lemma keyword_not_Eof: "keyword text \<noteq> TEof"
  unfolding keyword_def by simp

lemma next_kind_not_Eof: "next_kind byte s \<noteq> Inr (TEof, t)"
  using operator_kind_not_Eof keyword_not_Eof
  by (auto simp: next_kind_def lex_identifier_def lex_number_def operator_def bump_byte_def Let_def
      res_simps split_beta split: if_splits option.splits)

text \<open>What a token list says of its source.\<close>

definition tokens_of :: "string \<Rightarrow> nat \<Rightarrow> token list \<Rightarrow> bool" where
  "tokens_of source from ts \<longleftrightarrow>
     (\<exists>ts' e. ts = ts' @ [e] \<and> e = \<lparr>t_kind = TEof, t_span = position source\<rparr>
        \<and> (\<forall>t\<in>set ts'. t_kind t \<noteq> TEof))
   \<and> (\<forall>t\<in>set ts. from \<le> s_offset (t_span t)
        \<and> t_span t = position (take (s_offset (t_span t)) source))
   \<and> sorted_wrt (<) (map (\<lambda>t. s_offset (t_span t)) ts)"

lemma lexer_at_span:
  assumes "lexer_at source s"
  shows "span_of s = position (take (s_offset (span_of s)) source)" and "s_offset (span_of s) = l_offset s"
proof -
  from assms obtain pre where "source = pre @ l_rest s" "span_of s = position pre"
    by (auto simp: lexer_at_def)
  then show "span_of s = position (take (s_offset (span_of s)) source)"
    by (simp add: position_def)
qed (simp add: span_of_def span_new_def)

lemma run_tokens_of:
  assumes "run s = Inr ts" and "lexer_at source s"
  shows "tokens_of source (l_offset s) ts"
  using assms
proof (induction "length (l_rest s)" arbitrary: s ts rule: less_induct)
  case less
  from less.prems(1) obtain t where t: "skip_trivia s = Inr t"
    and r: "(case l_rest t of
         [] \<Rightarrow> Inr [\<lparr>t_kind = TEof, t_span = span_of t\<rparr>]
       | byte # _ \<Rightarrow>
           rbind (next_kind byte t) (\<lambda>(kind, u).
           rbind (run u) (\<lambda>tokens. Inr (\<lparr>t_kind = kind, t_span = span_of t\<rparr> # tokens)))) = Inr ts"
    by (subst (asm) run.simps) (auto elim: rbind_InrE)
  have at: "lexer_at source t"
    using lexer_at_reaches [OF reaches_skip_trivia [OF t]] less.prems(2) by blast
  have "length (l_rest t) \<le> length (l_rest s)"
    using reaches_shorter [OF reaches_skip_trivia [OF t]] .
  then have le: "l_offset s \<le> l_offset t"
    using lexer_at_offset [OF at] lexer_at_offset [OF less.prems(2)] by linarith
  note sp = lexer_at_span [OF at]
  show ?case
  proof (cases "l_rest t")
    case Nil
    then have "span_of t = position source"
      using at by (auto simp: lexer_at_def)
    with r Nil le sp show ?thesis by (auto simp: tokens_of_def)
  next
    case (Cons b bs)
    with r obtain kind u tokens where u: "next_kind b t = Inr (kind, u)" "run u = Inr tokens"
      "ts = \<lparr>t_kind = kind, t_span = span_of t\<rparr> # tokens"
      by (auto simp: res_simps)
    have "reaches t u" using reaches_next_kind [OF Cons u(1)] by (rule reaches_bump)
    then have atu: "lexer_at source u" using at lexer_at_reaches by blast
    have "length (l_rest u) < length (l_rest t)" using next_kind_shorter [OF Cons u(1)] .
    then have lt: "l_offset t < l_offset u" and short: "length (l_rest u) < length (l_rest s)"
      using lexer_at_offset [OF at] lexer_at_offset [OF atu]
        reaches_shorter [OF reaches_skip_trivia [OF t]] by linarith+
    from less.hyps [OF short u(2) atu] have rest: "tokens_of source (l_offset u) tokens" .
    have "kind \<noteq> TEof" using next_kind_not_Eof u(1) by blast
    with rest obtain ts' e where "ts = (\<lparr>t_kind = kind, t_span = span_of t\<rparr> # ts') @ [e]"
      "e = \<lparr>t_kind = TEof, t_span = position source\<rparr>"
      "\<forall>x\<in>set (\<lparr>t_kind = kind, t_span = span_of t\<rparr> # ts'). t_kind x \<noteq> TEof"
      unfolding tokens_of_def u(3) by fastforce
    moreover have "\<forall>x\<in>set tokens. l_offset s < s_offset (t_span x) \<and> l_offset t < s_offset (t_span x)
        \<and> t_span x = position (take (s_offset (t_span x)) source)"
      using rest lt le unfolding tokens_of_def by fastforce
    moreover have "sorted_wrt (<) (map (\<lambda>t. s_offset (t_span t)) tokens)"
      using rest by (simp add: tokens_of_def)
    ultimately show ?thesis
      using sp le unfolding tokens_of_def u(3) by auto
  qed
qed

section \<open>Properties\<close>

text \<open>
  C17. The lexer is total: on any bytes it returns a diagnostic or a token list that ends with
  its only end-of-file token, whose tokens begin at strictly increasing offsets and carry the
  line and the column of their offset in the source.
\<close>

theorem lex_total:
  "(\<exists>ts. lex source = Inr ts \<and> tokens_of source 0 ts) \<or> (\<exists>d. lex source = Inl (Diag d))"
proof (cases "lex source")
  case (Inl e)
  then show ?thesis using diagnoses_run [of "lexer_new source"] by (auto simp: diagnoses_def lex_def)
next
  case (Inr ts)
  then show ?thesis
    using run_tokens_of [OF _ lexer_at_new, of source ts] by (simp add: lex_def lexer_new_def)
qed

end
