(* ===== verification/Lexer_Roundtrip.thy ===== *)
theory Lexer_Roundtrip
  imports Lexer
begin

text \<open>
  The lexer against a printer. \<open>token_text\<close> spells a token kind, with escapes in literals;
  lexing spelled tokens with a space behind each gives them back: the longest operator
  wins, keywords are told from identifiers, escapes are read as they are written.
\<close>

section \<open>Spelling\<close>

text \<open>A character of a literal; in strings the double quote is escaped too.\<close>

definition escaped :: "bool \<Rightarrow> u32 \<Rightarrow> string" where
  "escaped in_string v =
     (if v = 10 then [CHR 0x5C, CHR ''n'']
      else if v = 13 then [CHR 0x5C, CHR ''r'']
      else if v = 9 then [CHR 0x5C, CHR ''t'']
      else if v = 0 then [CHR 0x5C, CHR ''0'']
      else if v = 0x5C then [CHR 0x5C, CHR 0x5C]
      else if v = 0x27 then [CHR 0x5C, CHR 0x27]
      else if in_string \<and> v = 0x22 then [CHR 0x5C, CHR 0x22]
      else [char_of (uint v)])"

definition ident_ok :: "string \<Rightarrow> bool" where
  "ident_ok s \<longleftrightarrow> s \<noteq> [] \<and> is_ident_start (hd s) \<and> list_all is_ident_continue s \<and> keyword s = TIdent s"

definition number_ok :: "string \<Rightarrow> bool" where
  "number_ok s \<longleftrightarrow> s \<noteq> [] \<and> is_ascii_digit (hd s)
     \<and> list_all (\<lambda>b. is_ascii_alphanumeric b \<or> b = CHR ''_'') s"

primrec token_text :: "token_kind \<Rightarrow> string" where
  "token_text (TIdent s) = s"
| "token_text (TNumber s) = s"
| "token_text (TChar v) = [CHR 0x27] @ escaped False v @ [CHR 0x27]"
| "token_text (TString vs) = [CHR 0x22] @ concat (map (escaped True) (butlast vs)) @ [CHR 0x22]"
| "token_text TInt = ''int''"
| "token_text TUnsigned = ''unsigned''"
| "token_text TCharKw = ''char''"
| "token_text TVoid = ''void''"
| "token_text TReturn = ''return''"
| "token_text TIf = ''if''"
| "token_text TElse = ''else''"
| "token_text TWhile = ''while''"
| "token_text TDo = ''do''"
| "token_text TFor = ''for''"
| "token_text TBreak = ''break''"
| "token_text TContinue = ''continue''"
| "token_text TSwitch = ''switch''"
| "token_text TCase = ''case''"
| "token_text TDefault = ''default''"
| "token_text TStruct = ''struct''"
| "token_text TUniform = ''uniform''"
| "token_text TSizeof = ''sizeof''"
| "token_text TLParen = ''(''"
| "token_text TRParen = '')''"
| "token_text TLBrace = ''{''"
| "token_text TRBrace = ''}''"
| "token_text TLBracket = ''[''"
| "token_text TRBracket = '']''"
| "token_text TSemicolon = '';''"
| "token_text TComma = '',''"
| "token_text TQuestion = ''?''"
| "token_text TColon = '':''"
| "token_text TDot = ''.''"
| "token_text TArrow = ''->''"
| "token_text TPlus = ''+''"
| "token_text TMinus = ''-''"
| "token_text TStar = ''*''"
| "token_text TSlash = ''/''"
| "token_text TPercent = ''%''"
| "token_text TAmp = ''&''"
| "token_text TPipe = ''|''"
| "token_text TCaret = ''^''"
| "token_text TTilde = ''~''"
| "token_text TBang = ''!''"
| "token_text TPlusPlus = ''++''"
| "token_text TMinusMinus = ''--''"
| "token_text TEqual = ''=''"
| "token_text TPlusEqual = ''+=''"
| "token_text TMinusEqual = ''-=''"
| "token_text TStarEqual = ''*=''"
| "token_text TSlashEqual = ''/=''"
| "token_text TPercentEqual = ''%=''"
| "token_text TAmpEqual = ''&=''"
| "token_text TPipeEqual = ''|=''"
| "token_text TCaretEqual = ''^=''"
| "token_text TShl = ''<<''"
| "token_text TShr = ''>>''"
| "token_text TShlEqual = ''<<=''"
| "token_text TShrEqual = ''>>=''"
| "token_text TEqualEqual = ''==''"
| "token_text TBangEqual = ''!=''"
| "token_text TLess = ''<''"
| "token_text TLessEqual = ''<=''"
| "token_text TGreater = ''>''"
| "token_text TGreaterEqual = ''>=''"
| "token_text TAndAnd = ''&&''"
| "token_text TOrOr = ''||''"
| "token_text TEof = []"

primrec token_printable :: "token_kind \<Rightarrow> bool" where
  "token_printable (TIdent s) \<longleftrightarrow> ident_ok s"
| "token_printable (TNumber s) \<longleftrightarrow> number_ok s"
| "token_printable (TChar v) \<longleftrightarrow> v < 128"
| "token_printable (TString vs) \<longleftrightarrow> vs \<noteq> [] \<and> last vs = 0 \<and> (\<forall>v\<in>set vs. v < 128)"
| "token_printable TInt \<longleftrightarrow> True"
| "token_printable TUnsigned \<longleftrightarrow> True"
| "token_printable TCharKw \<longleftrightarrow> True"
| "token_printable TVoid \<longleftrightarrow> True"
| "token_printable TReturn \<longleftrightarrow> True"
| "token_printable TIf \<longleftrightarrow> True"
| "token_printable TElse \<longleftrightarrow> True"
| "token_printable TWhile \<longleftrightarrow> True"
| "token_printable TDo \<longleftrightarrow> True"
| "token_printable TFor \<longleftrightarrow> True"
| "token_printable TBreak \<longleftrightarrow> True"
| "token_printable TContinue \<longleftrightarrow> True"
| "token_printable TSwitch \<longleftrightarrow> True"
| "token_printable TCase \<longleftrightarrow> True"
| "token_printable TDefault \<longleftrightarrow> True"
| "token_printable TStruct \<longleftrightarrow> True"
| "token_printable TUniform \<longleftrightarrow> True"
| "token_printable TSizeof \<longleftrightarrow> True"
| "token_printable TLParen \<longleftrightarrow> True"
| "token_printable TRParen \<longleftrightarrow> True"
| "token_printable TLBrace \<longleftrightarrow> True"
| "token_printable TRBrace \<longleftrightarrow> True"
| "token_printable TLBracket \<longleftrightarrow> True"
| "token_printable TRBracket \<longleftrightarrow> True"
| "token_printable TSemicolon \<longleftrightarrow> True"
| "token_printable TComma \<longleftrightarrow> True"
| "token_printable TQuestion \<longleftrightarrow> True"
| "token_printable TColon \<longleftrightarrow> True"
| "token_printable TDot \<longleftrightarrow> True"
| "token_printable TArrow \<longleftrightarrow> True"
| "token_printable TPlus \<longleftrightarrow> True"
| "token_printable TMinus \<longleftrightarrow> True"
| "token_printable TStar \<longleftrightarrow> True"
| "token_printable TSlash \<longleftrightarrow> True"
| "token_printable TPercent \<longleftrightarrow> True"
| "token_printable TAmp \<longleftrightarrow> True"
| "token_printable TPipe \<longleftrightarrow> True"
| "token_printable TCaret \<longleftrightarrow> True"
| "token_printable TTilde \<longleftrightarrow> True"
| "token_printable TBang \<longleftrightarrow> True"
| "token_printable TPlusPlus \<longleftrightarrow> True"
| "token_printable TMinusMinus \<longleftrightarrow> True"
| "token_printable TEqual \<longleftrightarrow> True"
| "token_printable TPlusEqual \<longleftrightarrow> True"
| "token_printable TMinusEqual \<longleftrightarrow> True"
| "token_printable TStarEqual \<longleftrightarrow> True"
| "token_printable TSlashEqual \<longleftrightarrow> True"
| "token_printable TPercentEqual \<longleftrightarrow> True"
| "token_printable TAmpEqual \<longleftrightarrow> True"
| "token_printable TPipeEqual \<longleftrightarrow> True"
| "token_printable TCaretEqual \<longleftrightarrow> True"
| "token_printable TShl \<longleftrightarrow> True"
| "token_printable TShr \<longleftrightarrow> True"
| "token_printable TShlEqual \<longleftrightarrow> True"
| "token_printable TShrEqual \<longleftrightarrow> True"
| "token_printable TEqualEqual \<longleftrightarrow> True"
| "token_printable TBangEqual \<longleftrightarrow> True"
| "token_printable TLess \<longleftrightarrow> True"
| "token_printable TLessEqual \<longleftrightarrow> True"
| "token_printable TGreater \<longleftrightarrow> True"
| "token_printable TGreaterEqual \<longleftrightarrow> True"
| "token_printable TAndAnd \<longleftrightarrow> True"
| "token_printable TOrOr \<longleftrightarrow> True"
| "token_printable TEof \<longleftrightarrow> False"

section \<open>Words\<close>

lemma bump_while_run:
  "list_all p w \<Longrightarrow> \<not> p c \<Longrightarrow> l_rest s = w @ c # r \<Longrightarrow>
   fst (bump_while p s) = w \<and> l_rest (snd (bump_while p s)) = c # r"
proof (induction w arbitrary: s)
  case Nil
  then show ?case by (subst (1 2) bump_while.simps) simp
next
  case (Cons b w)
  then have "fst (bump_while p (bump_state s)) = w \<and> l_rest (snd (bump_while p (bump_state s))) = c # r"
    by (intro Cons.IH) auto
  with Cons.prems show ?case
    by (subst (1 2) bump_while.simps) (simp add: split_beta Let_def)
qed

text \<open>\<open>reads k text\<close>: at \<open>text\<close> with a space behind, the next token is \<open>k\<close>.\<close>

definition reads :: "token_kind \<Rightarrow> string \<Rightarrow> bool" where
  "reads k text \<longleftrightarrow> (\<forall>s r. l_rest s = text @ CHR '' '' # r \<longrightarrow>
     (\<exists>t. next_kind (hd text) s = Inr (k, t) \<and> l_rest t = CHR '' '' # r))"

lemma space_not_ident: "\<not> is_ident_continue CHR '' ''" "\<not> (is_ascii_alphanumeric CHR '' '' \<or> CHR '' '' = CHR ''_'')"
  by code_simp+

lemma reads_word:
  assumes "w \<noteq> []" and "is_ident_start (hd w)" and "list_all is_ident_continue w"
  shows "reads (keyword w) w"
proof -
  have "fst (bump_while is_ident_continue s) = w \<and> l_rest (snd (bump_while is_ident_continue s)) = CHR '' '' # r"
    if "l_rest s = w @ CHR '' '' # r" for s r
    using bump_while_run [OF assms(3) space_not_ident(1) that] .
  then show ?thesis
    using assms(2) by (simp add: reads_def next_kind_def lex_identifier_def split_beta)
qed

lemma digit_not_ident: "is_ascii_digit b \<Longrightarrow> \<not> is_ident_start b"
  by (auto simp: is_ascii_digit_def is_ident_start_def ascii_class_defs)

lemma reads_number:
  assumes "number_ok w"
  shows "reads (TNumber w) w"
proof -
  let ?p = "\<lambda>b. is_ascii_alphanumeric b \<or> b = CHR ''_''"
  have "fst (bump_while ?p s) = w \<and> l_rest (snd (bump_while ?p s)) = CHR '' '' # r"
    if "l_rest s = w @ CHR '' '' # r" for s r
    using assms bump_while_run [where p = ?p, OF _ space_not_ident(2) that]
    by (simp add: number_ok_def)
  then show ?thesis
    using assms digit_not_ident by (simp add: reads_def next_kind_def number_ok_def lex_number_def split_beta)
qed

section \<open>Operators\<close>

definition op_start :: "char \<Rightarrow> bool" where
  "op_start a \<longleftrightarrow> \<not> is_ident_start a \<and> \<not> is_ascii_digit a \<and> a \<noteq> CHR 0x27 \<and> a \<noteq> CHR 0x22"

lemma next_kind_operator: "op_start a \<Longrightarrow> next_kind a s = operator s"
  by (simp add: op_start_def next_kind_def)

lemma reads_op1:
  assumes "op_start a" and "\<And>c. operator_kind a (Some CHR '' '') c = Some (k, 0)"
  shows "reads k [a]"
  using assms by (simp add: reads_def next_kind_operator operator_def bump_byte_def peek_byte_def)

lemma reads_op2:
  assumes "op_start a" and "operator_kind a (Some b) (Some CHR '' '') = Some (k, 1)"
  shows "reads k [a, b]"
  using assms by (simp add: reads_def next_kind_operator operator_def bump_byte_def peek_byte_def)

lemma reads_op3:
  assumes "op_start a" and "operator_kind a (Some b) (Some c) = Some (k, 2)"
  shows "reads k [a, b, c]"
  using assms
  by (simp add: reads_def next_kind_operator operator_def bump_byte_def peek_byte_def numeral_2_eq_2)

section \<open>Literals\<close>

lemma code_of_char_uint: "v < 128 \<Longrightarrow> code_of (char_of (uint (v :: u32))) = uint v"
  by (simp add: of_char_of word_less_def)

lemma byte_u32_char: "v < 128 \<Longrightarrow> byte_u32 (char_of (uint v)) = v"
  unfolding byte_u32_def by (subst code_of_char_uint) simp_all

text \<open>An escaped character is either one plain byte or a backslash and an escape.\<close>

lemma escaped_cases:
  assumes "v < 128"
  obtains (esc) e where "escaped q v = [CHR 0x5C, e]"
      and "or_else (common_escape e) (if q \<and> e = CHR 0x22 then Some (byte_u32 (CHR 0x22)) else None) = Some v"
      and "q \<or> common_escape e = Some v"
    | (plain) b where "escaped q v = [b]" and "byte_u32 b = v" and "is_ascii b"
      and "b \<noteq> newline" and "b \<noteq> CHR 0x5C" and "b \<noteq> CHR 0x27" and "q \<longrightarrow> b \<noteq> CHR 0x22"
proof -
  let ?b = "char_of (uint v) :: char"
  have u: "uint v < 128" using assms by (simp add: word_less_def)
  note c = code_of_char_uint [OF assms] byte_u32_char [OF assms]
  have vals: "byte_u32 newline = 10" "byte_u32 carriage_return = 13" "byte_u32 (CHR 0x09) = 9"
    "byte_u32 (CHR 0x5C) = 0x5C" "byte_u32 (CHR 0x27) = 0x27" "byte_u32 (CHR 0x22) = 0x22"
    by code_simp+
  consider (1) "v = 10" | (2) "v = 13" | (3) "v = 9" | (4) "v = 0" | (5) "v = 0x5C" | (6) "v = 0x27"
    | (7) "q" "v = 0x22" | (8) "v \<notin> {10, 13, 9, 0, 0x5C, 0x27}" "q \<longrightarrow> v \<noteq> 0x22" by blast
  note cases = this
  have escapes: "common_escape (CHR ''n'') = Some 10" "common_escape (CHR ''r'') = Some 13"
    "common_escape (CHR ''t'') = Some 9" "common_escape (CHR ''0'') = Some 0"
    "common_escape (CHR 0x5C) = Some 0x5C" "common_escape (CHR 0x27) = Some 0x27"
    "common_escape (CHR 0x22) = None"
    by code_simp+
  have esc': thesis if "escaped q v = [CHR 0x5C, e]" "common_escape e = Some v" for e
    using that esc by (simp add: or_else_def)
  from cases show thesis
  proof cases
    case 7
    then show thesis using escapes(7) vals(6)
      by (intro esc [of "CHR 0x22"]) (simp_all add: escaped_def or_else_def)
  next
    case 8
    then have e: "escaped q v = [?b]" by (auto simp: escaped_def)
    have "?b \<noteq> newline" "?b \<noteq> CHR 0x5C" "?b \<noteq> CHR 0x27" "q \<longrightarrow> ?b \<noteq> CHR 0x22"
      using 8 c(2) vals by auto
    moreover have "is_ascii ?b" using u c(1) by (simp add: is_ascii_def)
    ultimately show thesis using plain [OF e c(2)] by blast
  qed (use escapes in \<open>auto simp: escaped_def intro!: esc'\<close>)
qed

lemma character_value_escaped:
  assumes "v < 128" and "l_rest s = escaped False v @ r"
  shows "\<exists>t. character_value start s = Inr (v, t) \<and> l_rest t = r"
  using assms(1)
proof (cases rule: escaped_cases [where q = False])
  case (esc e)
  then show ?thesis
    using assms(2) by (simp add: character_value_def bump_byte_def peek_byte_def newline_def)
next
  case (plain b)
  then show ?thesis
    using assms(2) by (simp add: character_value_def bump_byte_def peek_byte_def)
qed

lemma reads_character:
  assumes "v < 128"
  shows "reads (TChar v) ([CHR 0x27] @ escaped False v @ [CHR 0x27])"
  unfolding reads_def
proof (intro allI impI)
  fix s :: lexer and r
  assume s: "l_rest s = ([CHR 0x27] @ escaped False v @ [CHR 0x27]) @ CHR '' '' # r"
  then obtain t where "character_value (span_of s) (bump_state s) = Inr (v, t)"
    "l_rest t = CHR 0x27 # CHR '' '' # r"
    using character_value_escaped [OF assms, of "bump_state s"] by auto
  then have "character s = Inr (v, bump_state t)" "l_rest (bump_state t) = CHR '' '' # r"
    by (simp_all add: character_def bump_byte_def peek_byte_def)
  moreover have "\<not> is_ident_start CHR 0x27" "\<not> is_ascii_digit CHR 0x27" by code_simp+
  ultimately show "\<exists>t. next_kind (hd ([CHR 0x27] @ escaped False v @ [CHR 0x27])) s = Inr (TChar v, t)
      \<and> l_rest t = CHR '' '' # r"
    by (simp add: next_kind_def)
qed

lemma string_words_escaped:
  "\<forall>v\<in>set vs. v < 128 \<Longrightarrow> l_rest s = concat (map (escaped True) vs) @ CHR 0x22 # r \<Longrightarrow>
   \<exists>t. string_words start s = Inr (vs, t) \<and> l_rest t = r"
proof (induction vs arbitrary: s)
  case Nil
  then show ?case by (subst string_words.simps) simp
next
  case (Cons v vs)
  have v: "v < 128" using Cons.prems(1) by simp
  have IH: "\<exists>t. string_words start u = Inr (vs, t) \<and> l_rest t = r"
    if "l_rest u = concat (map (escaped True) vs) @ CHR 0x22 # r" for u
    using Cons.IH [OF _ that] Cons.prems(1) by simp
  from v show ?case
  proof (cases rule: escaped_cases [where q = True])
    case (esc e)
    then have r: "l_rest s = CHR 0x5C # e # concat (map (escaped True) vs) @ CHR 0x22 # r"
      using Cons.prems(2) by simp
    then obtain t where "string_words start (bump_state (bump_state s)) = Inr (vs, t)" "l_rest t = r"
      using IH [of "bump_state (bump_state s)"] by auto
    with r esc(2) show ?thesis
      by (subst string_words.simps) (simp add: newline_def)
  next
    case (plain b)
    then have r: "l_rest s = b # concat (map (escaped True) vs) @ CHR 0x22 # r"
      using Cons.prems(2) by simp
    then obtain t where "string_words start (bump_state s) = Inr (vs, t)" "l_rest t = r"
      using IH [of "bump_state s"] by auto
    with r plain show ?thesis
      by (subst string_words.simps) simp
  qed
qed

lemma reads_string:
  assumes "vs \<noteq> []" and "last vs = 0" and "\<forall>v\<in>set vs. v < 128"
  shows "reads (TString vs) ([CHR 0x22] @ concat (map (escaped True) (butlast vs)) @ [CHR 0x22])"
  unfolding reads_def
proof (intro allI impI)
  fix s :: lexer and r
  assume s: "l_rest s = ([CHR 0x22] @ concat (map (escaped True) (butlast vs)) @ [CHR 0x22]) @ CHR '' '' # r"
  have "\<forall>v\<in>set (butlast vs). v < 128" using assms(3) by (blast dest: in_set_butlastD)
  then obtain t where "string_words (span_of s) (bump_state s) = Inr (butlast vs, t)"
    "l_rest t = CHR '' '' # r"
    using string_words_escaped [of "butlast vs" "bump_state s" "CHR '' '' # r" "span_of s"] s by auto
  moreover have "butlast vs @ [0] = vs" using assms(1,2) by (metis append_butlast_last_id)
  ultimately have "string_literal s = Inr (vs, t)" by (simp add: string_literal_def)
  moreover have "\<not> is_ident_start CHR 0x22" "\<not> is_ascii_digit CHR 0x22" by code_simp+
  ultimately show "\<exists>t. next_kind (hd ([CHR 0x22] @ concat (map (escaped True) (butlast vs)) @ [CHR 0x22])) s
      = Inr (TString vs, t) \<and> l_rest t = CHR '' '' # r"
    using \<open>l_rest t = CHR '' '' # r\<close> by (simp add: next_kind_def)
qed

section \<open>All kinds\<close>

lemma reads_keyword:
  assumes "keyword w = k" and "w \<noteq> []" and "is_ident_start (hd w)" and "list_all is_ident_continue w"
  shows "reads k w"
  using reads_word [OF assms(2-)] assms(1) by simp

lemma reads_keywords:
  "reads TInt ''int''"
  "reads TUnsigned ''unsigned''"
  "reads TCharKw ''char''"
  "reads TVoid ''void''"
  "reads TReturn ''return''"
  "reads TIf ''if''"
  "reads TElse ''else''"
  "reads TWhile ''while''"
  "reads TDo ''do''"
  "reads TFor ''for''"
  "reads TBreak ''break''"
  "reads TContinue ''continue''"
  "reads TSwitch ''switch''"
  "reads TCase ''case''"
  "reads TDefault ''default''"
  "reads TStruct ''struct''"
  "reads TUniform ''uniform''"
  "reads TSizeof ''sizeof''"
  by (rule reads_keyword; code_simp)+

text \<open>The operators by length.\<close>

lemma reads_operators1:
  "reads TLParen ''(''"
  "reads TRParen '')''"
  "reads TLBrace ''{''"
  "reads TRBrace ''}''"
  "reads TLBracket ''[''"
  "reads TRBracket '']''"
  "reads TSemicolon '';''"
  "reads TComma '',''"
  "reads TQuestion ''?''"
  "reads TColon '':''"
  "reads TDot ''.''"
  "reads TPlus ''+''"
  "reads TMinus ''-''"
  "reads TStar ''*''"
  "reads TSlash ''/''"
  "reads TPercent ''%''"
  "reads TAmp ''&''"
  "reads TPipe ''|''"
  "reads TCaret ''^''"
  "reads TTilde ''~''"
  "reads TBang ''!''"
  "reads TEqual ''=''"
  "reads TLess ''<''"
  "reads TGreater ''>''"
  by (rule reads_op1; simp add: operator_kind_def op_start_def is_ident_start_def ascii_class_defs)+

lemma reads_operators2:
  "reads TArrow ''->''"
  "reads TPlusPlus ''++''"
  "reads TMinusMinus ''--''"
  "reads TPlusEqual ''+=''"
  "reads TMinusEqual ''-=''"
  "reads TStarEqual ''*=''"
  "reads TSlashEqual ''/=''"
  "reads TPercentEqual ''%=''"
  "reads TAmpEqual ''&=''"
  "reads TPipeEqual ''|=''"
  "reads TCaretEqual ''^=''"
  "reads TShl ''<<''"
  "reads TShr ''>>''"
  "reads TEqualEqual ''==''"
  "reads TBangEqual ''!=''"
  "reads TLessEqual ''<=''"
  "reads TGreaterEqual ''>=''"
  "reads TAndAnd ''&&''"
  "reads TOrOr ''||''"
  by (rule reads_op2; simp add: operator_kind_def op_start_def is_ident_start_def ascii_class_defs)+

lemma reads_operators3:
  "reads TShlEqual ''<<=''"
  "reads TShrEqual ''>>=''"
  by (rule reads_op3; simp add: operator_kind_def op_start_def is_ident_start_def ascii_class_defs)+

lemma reads_identifier: "ident_ok s \<Longrightarrow> reads (TIdent s) s"
  by (rule reads_keyword) (simp_all add: ident_ok_def)

lemma token_reads:
  assumes "token_printable k"
  shows "reads k (token_text k)"
proof (cases "\<exists>vs. k = TString vs")
  case True
  with assms reads_string show ?thesis by auto
next
  case False
  with assms show ?thesis
    by (cases k)
      (simp_all only: token_printable.simps token_text.simps reads_keywords reads_operators1
        reads_operators2 reads_operators3 reads_identifier reads_number reads_character
        token_kind.inject ex_simps simp_thms)
qed

section \<open>Spelled token lists\<close>

definition spell :: "token_kind list \<Rightarrow> string" where
  "spell ks = concat (map (\<lambda>k. token_text k @ '' '') ks)"

text \<open>A spelled token begins neither with a blank nor with a comment.\<close>

definition starts_token :: "string \<Rightarrow> bool" where
  "starts_token s \<longleftrightarrow> s \<noteq> [] \<and> \<not> is_blank (hd s)
     \<and> (hd s = CHR ''/'' \<longrightarrow> tl s \<noteq> [] \<and> hd (tl s) \<noteq> CHR ''/'' \<and> hd (tl s) \<noteq> CHR ''*'')"

lemma word_starts_token:
  assumes "w \<noteq> []" and "is_ident_start (hd w) \<or> is_ascii_digit (hd w)"
  shows "starts_token (w @ r)"
proof -
  have "\<not> is_blank (hd w)" "hd w \<noteq> CHR ''/''"
    using assms(2) by (auto simp: is_ident_start_def ascii_class_defs is_blank_def newline_def
        carriage_return_def)
  with assms(1) show ?thesis by (simp add: starts_token_def)
qed

lemma token_starts:
  assumes "token_printable k"
  shows "starts_token (token_text k @ CHR '' '' # r)"
proof (cases "(\<exists>s. k = TIdent s) \<or> (\<exists>s. k = TNumber s)")
  case True
  with assms show ?thesis
    by (auto simp: ident_ok_def number_ok_def intro!: word_starts_token)
next
  case False
  with assms show ?thesis
    by (cases k) (simp_all add: starts_token_def is_blank_def newline_def carriage_return_def)
qed

lemma skip_trivia_none:
  assumes "l_rest s = [] \<or> starts_token (l_rest s)"
  shows "skip_trivia s = Inr s"
proof -
  have "bump_while is_blank s = ([], s)"
    using assms by (subst bump_while.simps) (auto simp: starts_token_def split: list.split)
  moreover have "\<not> (peek_byte s 0 = Some CHR ''/'' \<and> peek_byte s 1 = Some CHR ''/'')"
    "\<not> (peek_byte s 0 = Some CHR ''/'' \<and> peek_byte s 1 = Some CHR ''*'')"
    using assms by (cases "l_rest s"; cases "tl (l_rest s)"; auto simp: peek_byte_def starts_token_def)+
  ultimately show ?thesis by (subst skip_trivia.simps) (auto simp: Let_def)
qed

lemma skip_trivia_space:
  assumes "l_rest s = CHR '' '' # text" and "text = [] \<or> starts_token text"
  shows "skip_trivia s = Inr (bump_state s)"
proof -
  have r: "l_rest (bump_state s) = text" using assms(1) by simp
  have n: "bump_while is_blank (bump_state s) = ([], bump_state s)"
    using assms(2) r by (subst bump_while.simps) (auto simp: starts_token_def split: list.split)
  then have "snd (bump_while is_blank s) = bump_state s"
    using assms(1) by (subst bump_while.simps) (simp add: is_blank_def)
  moreover have "snd (bump_while is_blank (bump_state s)) = bump_state s" using n by simp
  ultimately have "skip_trivia s = skip_trivia (bump_state s)"
    by (subst (1 2) skip_trivia.simps) (simp add: Let_def)
  then show ?thesis using skip_trivia_none [of "bump_state s"] assms(2) r by simp
qed

lemma spell_starts: "\<forall>k\<in>set ks. token_printable k \<Longrightarrow> spell ks = [] \<or> starts_token (spell ks)"
  by (cases ks) (auto simp: spell_def token_starts)

lemma run_spelled:
  assumes "\<forall>k\<in>set ks. token_printable k" and "l_rest s = spell ks \<or> l_rest s = CHR '' '' # spell ks"
  shows "\<exists>ts. run s = Inr ts \<and> map t_kind ts = ks @ [TEof]"
  using assms
proof (induction ks arbitrary: s)
  case Nil
  obtain t where t: "skip_trivia s = Inr t" "l_rest t = []"
    using skip_trivia_none [of s] skip_trivia_space [of s "[]"] Nil.prems(2) by (auto simp: spell_def)
  then show ?case by (subst run.simps) simp
next
  case (Cons k ks)
  obtain t where t: "skip_trivia s = Inr t" "l_rest t = spell (k # ks)"
    using skip_trivia_none [of s] skip_trivia_space [of s "spell (k # ks)"] Cons.prems
      spell_starts [OF Cons.prems(1)] by fastforce
  have k: "token_printable k" using Cons.prems(1) by simp
  have spelled: "l_rest t = token_text k @ CHR '' '' # spell ks" using t(2) by (simp add: spell_def)
  then obtain u where u: "next_kind (hd (token_text k)) t = Inr (k, u)" "l_rest u = CHR '' '' # spell ks"
    using token_reads [OF k] unfolding reads_def by blast
  have "l_rest t \<noteq> []" "hd (l_rest t) = hd (token_text k)"
    using token_starts [OF k, of "spell ks"] spelled token_starts [OF k, of "[]"]
    by (auto simp: starts_token_def is_blank_def hd_append)
  then obtain bs where b: "l_rest t = hd (token_text k) # bs" by (cases "l_rest t") auto
  obtain ts where "run u = Inr ts" "map t_kind ts = ks @ [TEof]"
    using Cons.IH [of u] Cons.prems(1) u(2) by auto
  then show ?case using t(1) b u(1) by (subst run.simps) simp
qed

section \<open>Properties\<close>

text \<open>
  C16. Spelled tokens lex back to themselves: keywords, identifiers, numbers, every operator
  (the longest match wins) and literals with their escapes.
\<close>

theorem lex_spell:
  assumes "\<forall>k\<in>set ks. token_printable k"
  shows "\<exists>ts. lex (spell ks) = Inr ts \<and> map t_kind ts = ks @ [TEof]"
  using run_spelled [OF assms, of "lexer_new (spell ks)"] by (simp add: lex_def lexer_new_def)

theorem lex_spell_witness:
  "\<exists>ts. lex (''x <<= sizeof '' @ [CHR 0x22, CHR ''a'', CHR 0x22] @ '' '') = Inr ts
    \<and> map t_kind ts = [TIdent ''x'', TShlEqual, TSizeof, TString [97, 0], TEof]"
proof -
  have "\<forall>k\<in>set [TIdent ''x'', TShlEqual, TSizeof, TString [97, 0]]. token_printable k"
    by (simp add: ident_ok_def keyword_def is_ident_start_def is_ident_continue_def ascii_class_defs)
  moreover have "spell [TIdent ''x'', TShlEqual, TSizeof, TString [97, 0]] =
      ''x <<= sizeof '' @ [CHR 0x22, CHR ''a'', CHR 0x22] @ '' ''"
    by code_simp
  ultimately show ?thesis
    using lex_spell [of "[TIdent ''x'', TShlEqual, TSizeof, TString [97, 0]]"] by simp
qed

end
