(* ===== verification/Ast.thy ===== *)
theory Ast
  imports Span
begin

text \<open>
  The syntax tree of WarpC (\<open>tools/warpc/src/ast.rs\<close>). Enums are datatypes with the source's
  constructors behind a prefix (\<open>TN_\<close> type names, \<open>E_\<close> expressions, \<open>S_\<close> statements, \<open>U_\<close>,
  \<open>B_\<close>, \<open>A_\<close> operators), since several of them use the same names. The structs that are
  recursive with expressions are one-constructor datatypes with selectors; the others are
  records. A \<open>Box\<close> is its content.
\<close>

datatype type_name = TN_Int | TN_Unsigned | TN_Char | TN_Void | TN_Struct string

datatype unary_op =
    U_Plus | U_Minus | U_BitNot | U_LogicalNot | U_AddressOf | U_Deref
  | U_PreInc | U_PreDec | U_PostInc | U_PostDec

datatype binary_op =
    B_Mul | B_Div | B_Mod | B_Add | B_Sub | B_Shl | B_Shr | B_Lt | B_Le | B_Gt | B_Ge
  | B_Eq | B_Ne | B_BitAnd | B_BitXor | B_BitOr | B_LogicalAnd | B_LogicalOr | B_Comma

datatype assign_op =
    A_Assign | A_Add | A_Sub | A_Mul | A_Div | A_Mod | A_Shl | A_Shr
  | A_BitAnd | A_BitXor | A_BitOr

datatype expr = Expr (e_kind: expr_kind) (e_span: span)
and expr_kind =
    E_Number string
  | E_Char u32
  | E_String "u32 list"
  | E_Name string
  | E_Call string "expr list"
  | E_Unary unary_op expr
  | E_Binary binary_op expr expr
  | E_Conditional expr expr expr
  | E_Assign assign_op expr expr
  | E_Index expr expr
  | E_Member expr string bool
  | E_SizeofExpr expr
  | E_SizeofType decl_type
and decl_type = DeclType (dt_uniform: bool) (dt_base: type_name) (dt_declarator: declarator)
and declarator =
  Declarator (dc_name: "string option") (dc_pointers: nat) (dc_array_len: "expr option option")
    (dc_span: span)

datatype for_init =
    F_Decl decl_type "expr option" span
  | F_Expr expr

datatype stmt =
    S_Decl decl_type "expr option" span
  | S_Expr "expr option" span
  | S_Return "expr option" span
  | S_Block block
  | S_If expr stmt "stmt option" span
  | S_While expr stmt span
  | S_DoWhile stmt expr span
  | S_For "for_init option" "expr option" "expr option" stmt span
  | S_Break span
  | S_Continue span
  | S_Switch expr stmt span
  | S_Case expr stmt span
  | S_Default stmt span
and block = Block (b_statements: "stmt list") (b_span: span)

record field_decl =
  fd_ty :: decl_type
  fd_span :: span

record struct_decl =
  sd_name :: string
  sd_fields :: "field_decl list"
  sd_span :: span

record global =
  g_ty :: decl_type
  g_init :: "expr option"
  g_span :: span

record parameter =
  p_ty :: decl_type
  p_span :: span

record function_decl =
  f_return_type :: decl_type
  f_name :: string
  f_params :: "parameter list"
  f_body :: "block option"
  f_span :: span

record program =
  pr_structs :: "struct_decl list"
  pr_globals :: "global list"
  pr_functions :: "function_decl list"

end
