(* ===== verification/Sema_Types.thy ===== *)
theory Sema_Types
  imports Ast
begin

text \<open>
  The data of the semantic analysis (\<open>tools/warpc/src/sema.rs\<close>, first part): types, the
  uniformity lattice, layouts, the typed tree and the state of the analyser. Enums are
  datatypes behind a prefix, structs are records, except for those that are recursive with
  the typed expressions. Identifiers (\<open>LocalId\<close>, \<open>StructId\<close>, \<dots>) are indices, \<open>usize\<close> is
  \<open>nat\<close> with the operations that may overflow checked.
\<close>

section \<open>Errors of the standard library\<close>

definition unwrap :: "'a option \<Rightarrow> 'a cc" where
  "unwrap o' = (case o' of Some x \<Rightarrow> Inr x
     | None \<Rightarrow> Inl (CPanic ''called Option::unwrap() on a None value''))"

definition index_at :: "'a list \<Rightarrow> nat \<Rightarrow> 'a cc" where
  "index_at xs i = (if i < length xs then Inr (xs ! i) else Inl (CPanic ''index out of bounds''))"

text \<open>\<open>usize\<close> arithmetic with overflow checks (a build without them wraps instead).\<close>

definition mul_usize :: "nat \<Rightarrow> nat \<Rightarrow> nat cc" where
  "mul_usize a b =
     (if a * b < 2 ^ 64 then Inr (a * b) else Inl (CPanic ''attempt to multiply with overflow''))"

definition add_usize :: "nat \<Rightarrow> nat \<Rightarrow> nat cc" where
  "add_usize a b =
     (if a + b < 2 ^ 64 then Inr (a + b) else Inl (CPanic ''attempt to add with overflow''))"

section \<open>Types\<close>

definition RAM_SIZE_WORDS :: nat where
  "RAM_SIZE_WORDS = 65536"

datatype base_type = BT_I32 | BT_U32 | BT_Char | BT_Void | BT_Struct nat

record ctype =
  ty_base :: base_type
  ty_pointers :: nat
  ty_array_len :: "nat option"

definition scalar_type :: "base_type \<Rightarrow> ctype" where
  "scalar_type b = \<lparr>ty_base = b, ty_pointers = 0, ty_array_len = None\<rparr>"

definition T_I32 :: ctype where "T_I32 = scalar_type BT_I32"
definition T_U32 :: ctype where "T_U32 = scalar_type BT_U32"
definition T_CHAR :: ctype where "T_CHAR = scalar_type BT_Char"
definition T_VOID :: ctype where "T_VOID = scalar_type BT_Void"

definition pointer_to :: "ctype \<Rightarrow> ctype" where
  "pointer_to t = t\<lparr>ty_array_len := None, ty_pointers := ty_pointers t + 1\<rparr>"

definition decay :: "ctype \<Rightarrow> ctype" where
  "decay t =
     (if ty_array_len t \<noteq> None then t\<lparr>ty_array_len := None, ty_pointers := ty_pointers t + 1\<rparr> else t)"

definition pointee :: "ctype \<Rightarrow> ctype option" where
  "pointee t =
     (if ty_pointers t = 0 then None
      else Some (t\<lparr>ty_pointers := ty_pointers t - 1, ty_array_len := None\<rparr>))"

definition is_integer :: "ctype \<Rightarrow> bool" where
  "is_integer t \<longleftrightarrow> ty_pointers t = 0 \<and> ty_array_len t = None
     \<and> (case ty_base t of BT_I32 \<Rightarrow> True | BT_U32 \<Rightarrow> True | BT_Char \<Rightarrow> True | _ \<Rightarrow> False)"

definition is_unsigned :: "ctype \<Rightarrow> bool" where
  "is_unsigned t \<longleftrightarrow> ty_pointers t > 0
     \<or> (case ty_base t of BT_U32 \<Rightarrow> True | BT_Char \<Rightarrow> True | _ \<Rightarrow> False)"

definition is_pointer :: "ctype \<Rightarrow> bool" where
  "is_pointer t \<longleftrightarrow> ty_pointers t > 0 \<and> ty_array_len t = None"

definition is_array :: "ctype \<Rightarrow> bool" where
  "is_array t \<longleftrightarrow> ty_array_len t \<noteq> None"

definition is_void :: "ctype \<Rightarrow> bool" where
  "is_void t \<longleftrightarrow> t = T_VOID"

definition is_struct :: "ctype \<Rightarrow> bool" where
  "is_struct t \<longleftrightarrow> ty_pointers t = 0 \<and> ty_array_len t = None
     \<and> (case ty_base t of BT_Struct _ \<Rightarrow> True | _ \<Rightarrow> False)"

definition is_scalar :: "ctype \<Rightarrow> bool" where
  "is_scalar t \<longleftrightarrow> is_integer t \<or> is_pointer t"

definition promoted :: "ctype \<Rightarrow> ctype" where
  "promoted t = (if t = T_CHAR then T_U32 else t)"

section \<open>Uniformity\<close>

datatype uniformity = Uniform | Divergent

datatype value_shape = Shape_Warp | Shape_Uniform

definition expression_uniformity :: "value_shape \<Rightarrow> uniformity" where
  "expression_uniformity s = (case s of Shape_Warp \<Rightarrow> Divergent | Shape_Uniform \<Rightarrow> Uniform)"

definition uniformity_join :: "uniformity \<Rightarrow> uniformity \<Rightarrow> uniformity" where
  "uniformity_join a b = (if a = Divergent \<or> b = Divergent then Divergent else Uniform)"

section \<open>Layouts\<close>

record field_info =
  fi_name :: string
  fi_ty :: ctype
  fi_offset :: nat
  fi_span :: span

record struct_info =
  si_name :: string
  si_fields :: "field_info list"
  si_size :: nat
  si_span :: span

record global_info =
  gi_name :: string
  gi_ty :: ctype
  gi_address :: nat
  gi_span :: span

record local_info =
  li_name :: string
  li_ty :: ctype
  li_span :: span
  li_uniformity :: uniformity
  li_shape :: value_shape
  li_address_taken :: bool
  li_frame_offset :: "nat option"

text \<open>The text of a type in a diagnostic; \<open>structs[id]\<close> may panic.\<close>

definition base_name :: "base_type \<Rightarrow> struct_info list \<Rightarrow> string cc" where
  "base_name b structs =
     (case b of
        BT_I32 \<Rightarrow> Inr ''int''
      | BT_U32 \<Rightarrow> Inr ''unsigned''
      | BT_Char \<Rightarrow> Inr ''char''
      | BT_Void \<Rightarrow> Inr ''void''
      | BT_Struct i \<Rightarrow> rbind (index_at structs i) (\<lambda>s. Inr (''struct '' @ si_name s)))"

definition ctype_name :: "ctype \<Rightarrow> struct_info list \<Rightarrow> string cc" where
  "ctype_name t structs =
     rbind (base_name (ty_base t) structs) (\<lambda>name.
       Inr (name @ replicate (ty_pointers t) CHR ''*''
         @ (case ty_array_len t of None \<Rightarrow> [] | Some n \<Rightarrow> ''['' @ nat_str n @ '']'')))"

section \<open>The typed tree\<close>

datatype intrinsic =
    I_LaneId | I_VmId | I_Framebuffer | I_Flip | I_Argb | I_SetPixel | I_Send | I_TryRecv
  | I_Broadcast | I_Shuffle | I_ShuffleXor | I_Ballot | I_Any | I_All | I_ReduceAdd
  | I_ReduceAddUnsigned | I_ReduceMinSigned | I_ReduceMaxSigned | I_ReduceMinUnsigned
  | I_ReduceMaxUnsigned | I_ReduceAnd | I_ReduceOr | I_ReduceXor | I_MinSigned | I_MaxSigned
  | I_MinUnsigned | I_MaxUnsigned

record switch_label =
  sl_id :: nat
  sl_value :: "u32 option"
  sl_span :: span

datatype (plugins only: code size) typed_expr =
    TExpr (te_kind: typed_kind) (te_ty: ctype) (te_uniformity: uniformity) (te_span: span)
and typed_kind =
    TE_Literal u32
  | TE_StringAddress nat
  | TE_Intrinsic intrinsic "typed_expr list"
  | TE_LValue lvalue
  | TE_AddressOf lvalue
  | TE_Unary unary_op typed_expr
  | TE_Binary binary_op typed_expr typed_expr ctype
  | TE_Conditional typed_expr typed_expr typed_expr
  | TE_PointerAdd typed_expr typed_expr nat bool
  | TE_PointerDiff typed_expr typed_expr nat
  | TE_Assign lvalue assign_op typed_expr ctype nat
  | TE_IncDec lvalue bool bool nat
  | TE_Inline "typed_stmt list" typed_expr
  | TE_Call nat "typed_expr list"
and lvalue =
    LV_Local nat
  | LV_Global nat
  | LV_Deref typed_expr
  | LV_Index typed_expr typed_expr nat
  | LV_Member lvalue nat
and typed_initializer =
    TI_Expr typed_expr
  | TI_Words "u32 list"
and typed_stmt =
    TS_Decl nat "typed_initializer option" span
  | TS_Expr "typed_expr option"
  | TS_Return "typed_expr option" span
  | TS_Block typed_block
  | TS_If typed_expr typed_stmt "typed_stmt option" span
  | TS_While typed_expr typed_stmt span
  | TS_DoWhile typed_stmt typed_expr span
  | TS_For "typed_for_init option" "typed_expr option" "typed_expr option" typed_stmt "nat list" span
  | TS_Break span
  | TS_Continue span
  | TS_Switch typed_expr typed_stmt "switch_label list" span
  | TS_Case nat typed_stmt span
  | TS_Default nat typed_stmt span
and typed_for_init =
    TF_Decl nat "typed_initializer option" span
  | TF_Expr typed_expr
and typed_block =
    TBlock (tb_statements: "typed_stmt list") (tb_local_ids: "nat list") (tb_span: span)

record typed_function =
  tf_id :: nat
  tf_name :: string
  tf_return_type :: ctype
  tf_return_shape :: value_shape
  tf_params :: "nat list"
  tf_body :: typed_block
  tf_frame_words :: nat
  tf_span :: span

record typed_program =
  tp_functions :: "typed_function list"
  tp_function_names :: "string list"
  tp_function_param_shapes :: "value_shape list list"
  tp_function_return_shapes :: "value_shape list"
  tp_main :: nat
  tp_locals :: "local_info list"
  tp_globals :: "global_info list"
  tp_structs :: "struct_info list"
  tp_data_words :: "u32 list"

definition requires_uniform_argument :: "intrinsic \<Rightarrow> nat \<Rightarrow> bool" where
  "requires_uniform_argument i index =
     (case i of I_Send \<Rightarrow> True | I_TryRecv \<Rightarrow> True | I_Broadcast \<Rightarrow> index = 1 | _ \<Rightarrow> False)"

definition warp_wide_result :: "intrinsic \<Rightarrow> bool" where
  "warp_wide_result i \<longleftrightarrow>
     i \<in> {I_Broadcast, I_Ballot, I_Any, I_All, I_ReduceAdd, I_ReduceAddUnsigned,
          I_ReduceMinSigned, I_ReduceMaxSigned, I_ReduceMinUnsigned, I_ReduceMaxUnsigned,
          I_ReduceAnd, I_ReduceOr, I_ReduceXor}"

definition result_uniformity :: "intrinsic \<Rightarrow> typed_expr list \<Rightarrow> uniformity \<Rightarrow> uniformity cc" where
  "result_uniformity i args operand_uniformity =
     (if warp_wide_result i then Inr Uniform
      else if i = I_Shuffle then
        rbind (index_at args 1) (\<lambda>a.
          Inr (if te_uniformity a = Uniform then Uniform else operand_uniformity))
      else Inr operand_uniformity)"

section \<open>The analyser\<close>

record function_symbol =
  fs_name :: string
  fs_return_type :: ctype
  fs_params :: "ctype list"
  fs_param_shapes :: "value_shape list"
  fs_param_names :: "string option list"
  fs_param_spans :: "span list"
  fs_return_shape :: value_shape
  fs_defined :: bool
  fs_span :: span

record inline_candidate =
  ic_params :: "parameter list"
  ic_statements :: "stmt list"
  ic_result :: expr

record switch_context =
  sc_labels :: "switch_label list"
  sc_values :: "u32 \<rightharpoonup> span"
  sc_default_span :: "span option"

record analyzer =
  an_scopes :: "(string \<rightharpoonup> nat) list"
  an_locals :: "local_info list"
  an_globals :: "global_info list"
  an_global_ids :: "string \<rightharpoonup> nat"
  an_structs :: "struct_info list"
  an_struct_ids :: "string \<rightharpoonup> nat"
  an_data_words :: "u32 list"
  an_return_type :: ctype
  an_return_shape :: value_shape
  an_functions :: "function_symbol list"
  an_function_ids :: "string \<rightharpoonup> nat"
  an_inline_candidates :: "nat \<rightharpoonup> inline_candidate"
  an_current_function :: "nat option"
  an_call_edges :: "nat list list"
  an_loop_depth :: nat
  an_switch_stack :: "switch_context list"
  an_next_switch_label :: nat
  an_divergent_depth :: nat

definition analyzer_new :: analyzer where
  "analyzer_new =
     \<lparr>an_scopes = [], an_locals = [], an_globals = [], an_global_ids = Map.empty,
      an_structs = [], an_struct_ids = Map.empty, an_data_words = [], an_return_type = T_VOID,
      an_return_shape = Shape_Warp, an_functions = [], an_function_ids = Map.empty,
      an_inline_candidates = Map.empty, an_current_function = None, an_call_edges = [],
      an_loop_depth = 0, an_switch_stack = [], an_next_switch_label = 0, an_divergent_depth = 0\<rparr>"

section \<open>Types of values\<close>

definition value_type :: "ctype \<Rightarrow> ctype" where
  "value_type t = decay t"

definition compatible_pointers :: "ctype \<Rightarrow> ctype \<Rightarrow> bool" where
  "compatible_pointers a b \<longleftrightarrow>
     is_pointer a \<and> is_pointer b
     \<and> (a = b \<or> pointee a = Some T_VOID \<or> pointee b = Some T_VOID)"

definition is_zero_literal :: "typed_expr \<Rightarrow> bool" where
  "is_zero_literal e = (case te_kind e of TE_Literal v \<Rightarrow> v = 0 | _ \<Rightarrow> False)"

definition take_lvalue :: "typed_kind \<Rightarrow> span \<Rightarrow> string \<Rightarrow> lvalue cc" where
  "take_lvalue k sp role =
     (case k of TE_LValue v \<Rightarrow> Inr v | _ \<Rightarrow> diag sp (role @ '' must be an lvalue''))"

definition usual_type :: "ctype \<Rightarrow> ctype \<Rightarrow> ctype" where
  "usual_type left right =
     (if is_unsigned (promoted left) \<or> is_unsigned (promoted right) then T_U32 else T_I32)"

definition require_integer :: "typed_expr \<Rightarrow> string \<Rightarrow> unit cc" where
  "require_integer e role =
     (if is_integer (value_type (te_ty e)) then Inr ()
      else diag (te_span e) (role @ '' must have integer type''))"

definition require_assignable :: "analyzer \<Rightarrow> ctype \<Rightarrow> typed_expr \<Rightarrow> string \<Rightarrow> unit cc" where
  "require_assignable s target e role =
     (let source = value_type (te_ty e) in
      if (is_integer target \<and> is_integer source) \<or> compatible_pointers target source
         \<or> (is_pointer target \<and> is_zero_literal e)
      then Inr ()
      else rbind (ctype_name target (an_structs s)) (\<lambda>name.
             diag (te_span e) (role @ '' has incompatible type (expected '' @ name @ '')'')))"

definition reject_warp_declaration :: "string \<Rightarrow> span \<Rightarrow> unit cc" where
  "reject_warp_declaration name sp =
     (if name = ''WARP''
      then diag sp (quoted ''WARP'' @ '' is a reserved predefined Warp C identifier'')
      else Inr ())"

text \<open>The size of a type in words.\<close>

definition element_size :: "ctype \<Rightarrow> struct_info list \<Rightarrow> nat cc" where
  "element_size t structs =
     (if ty_pointers t > 0 then Inr 1
      else case ty_base t of
             BT_Void \<Rightarrow> Inr 0
           | BT_Struct i \<Rightarrow> rbind (index_at structs i) (\<lambda>s. Inr (si_size s))
           | _ \<Rightarrow> Inr 1)"

definition type_size :: "ctype \<Rightarrow> struct_info list \<Rightarrow> nat cc" where
  "type_size t structs =
     (case ty_array_len t of
        Some n \<Rightarrow> rbind (element_size t structs) (\<lambda>k. mul_usize n k)
      | None \<Rightarrow> element_size t structs)"

end
