(* ===== verification/Sema_Const.thy ===== *)
theory Sema_Const
  imports Sema_Types "HOL-Library.Signed_Division"
begin

text \<open>
  Constants of the semantic analysis (\<open>tools/warpc/src/sema.rs\<close>): integer literals, the
  predefined names, and the two evaluators of constant expressions, \<open>constant_ast\<close> over the
  syntax tree (array sizes, globals) and \<open>constant_u32\<close> over typed expressions (case labels).
  Values are 32-bit words; the signed operations read them in two's complement.
\<close>

unbundle bit_operations_syntax

section \<open>Integer literals\<close>

definition ends_alphabetic :: "string \<Rightarrow> bool" where
  "ends_alphabetic s \<longleftrightarrow> s \<noteq> [] \<and> is_ascii_alphabetic (last s)"

text \<open>The number without its \<open>0x\<close>, and its radix.\<close>

definition split_radix :: "string \<Rightarrow> int \<times> string" where
  "split_radix digits =
     (case or_else (strip_prefix ''0x'' digits) (strip_prefix ''0X'' digits) of
        Some v \<Rightarrow> (16, v)
      | None \<Rightarrow> (10, digits))"

definition parse_integer :: "string \<Rightarrow> span \<Rightarrow> (u32 \<times> ctype) cc" where
  "parse_integer text' sp =
     (let compact = filter (\<lambda>c. c \<noteq> CHR ''_'') text';
          stripped = or_else (strip_suffix_char CHR ''u'' compact) (strip_suffix_char CHR ''U'' compact);
          unsigned = (stripped \<noteq> None);
          digits = (case stripped of Some d \<Rightarrow> d | None \<Rightarrow> compact)
      in if ends_alphabetic digits \<and> strip_prefix ''0x'' digits = None \<and> strip_prefix ''0X'' digits = None
         then diag sp (''unsupported integer suffix in '' @ quoted text')
         else
           (let (radix, number) = split_radix digits in
            case parse_unsigned 64 radix number of
              None \<Rightarrow> diag sp (''invalid integer literal '' @ quoted text')
            | Some v \<Rightarrow>
                if v > 2 ^ 32 - 1
                then diag sp (''integer literal '' @ quoted text' @ '' exceeds 32 bits'')
                else Inr (word_of_int v, if unsigned \<or> v > 2 ^ 31 - 1 then T_U32 else T_I32)))"

section \<open>Predefined names\<close>

definition WARP_VIDEO_WIDTH :: u32 where "WARP_VIDEO_WIDTH = 128"
definition WARP_VIDEO_HEIGHT :: u32 where "WARP_VIDEO_HEIGHT = 128"
definition WARP_VIDEO_WORDS :: u32 where "WARP_VIDEO_WORDS = WARP_VIDEO_WIDTH * WARP_VIDEO_HEIGHT"
definition WARP_VIDEO_BASE :: u32 where "WARP_VIDEO_BASE = 0x00100000"

definition builtin_constant :: "string \<Rightarrow> u32 option" where
  "builtin_constant name =
     (if name = ''WARP_RAM_WORDS'' \<or> name = ''WARP_RAM_SIZE_WORDS'' then Some (of_nat RAM_SIZE_WORDS)
      else if name = ''WARP_VIDEO_WIDTH'' then Some WARP_VIDEO_WIDTH
      else if name = ''WARP_VIDEO_HEIGHT'' then Some WARP_VIDEO_HEIGHT
      else if name = ''WARP_VIDEO_WORDS'' then Some WARP_VIDEO_WORDS
      else if name = ''WARP_VIDEO_BASE'' then Some WARP_VIDEO_BASE
      else None)"

section \<open>Constant expressions of the syntax tree\<close>

definition from_bool :: "bool \<Rightarrow> u32" where
  "from_bool b = (if b then 1 else 0)"

definition not_constant :: "span \<Rightarrow> 'a cc" where
  "not_constant sp = diag sp ''not a constant integer expression''"

text \<open>The operators on values; \<open>None\<close> for an operator that no constant has, and for a
  division by zero.\<close>

definition const_unary :: "unary_op \<Rightarrow> u32 \<Rightarrow> u32 option" where
  "const_unary op v =
     (case op of
        U_Plus \<Rightarrow> Some v
      | U_Minus \<Rightarrow> Some (0 - v)
      | U_BitNot \<Rightarrow> Some (NOT v)
      | U_LogicalNot \<Rightarrow> Some (from_bool (v = 0))
      | _ \<Rightarrow> None)"

definition shift_amount :: "u32 \<Rightarrow> nat" where
  "shift_amount w = unat (w AND 31)"

definition const_binary :: "binary_op \<Rightarrow> u32 \<Rightarrow> u32 \<Rightarrow> u32 option" where
  "const_binary op l r =
     (case op of
        B_Add \<Rightarrow> Some (l + r)
      | B_Sub \<Rightarrow> Some (l - r)
      | B_Mul \<Rightarrow> Some (l * r)
      | B_Div \<Rightarrow> if r \<noteq> 0 then Some (l div r) else None
      | B_Mod \<Rightarrow> if r \<noteq> 0 then Some (l mod r) else None
      | B_Shl \<Rightarrow> Some (push_bit (shift_amount r) l)
      | B_Shr \<Rightarrow> Some (drop_bit (shift_amount r) l)
      | B_Lt \<Rightarrow> Some (from_bool (l < r))
      | B_Le \<Rightarrow> Some (from_bool (l \<le> r))
      | B_Gt \<Rightarrow> Some (from_bool (l > r))
      | B_Ge \<Rightarrow> Some (from_bool (l \<ge> r))
      | B_Eq \<Rightarrow> Some (from_bool (l = r))
      | B_Ne \<Rightarrow> Some (from_bool (l \<noteq> r))
      | B_BitAnd \<Rightarrow> Some (l AND r)
      | B_BitXor \<Rightarrow> Some (l XOR r)
      | B_BitOr \<Rightarrow> Some (l OR r)
      | B_LogicalAnd \<Rightarrow> Some (from_bool (l \<noteq> 0 \<and> r \<noteq> 0))
      | B_LogicalOr \<Rightarrow> Some (from_bool (l \<noteq> 0 \<or> r \<noteq> 0))
      | B_Comma \<Rightarrow> Some r)"

fun constant_ast :: "expr \<Rightarrow> u32 cc" where
  "constant_ast (Expr (E_Number text') sp) = rbind (parse_integer text' sp) (\<lambda>(v, _). Inr v)"
| "constant_ast (Expr (E_Char v) sp) = Inr v"
| "constant_ast (Expr (E_Name name) sp) =
     (case builtin_constant name of Some v \<Rightarrow> Inr v | None \<Rightarrow> not_constant sp)"
| "constant_ast (Expr (E_Unary op e) sp) =
     rbind (constant_ast e) (\<lambda>v.
       case const_unary op v of Some r \<Rightarrow> Inr r | None \<Rightarrow> not_constant sp)"
| "constant_ast (Expr (E_Binary op l r) sp) =
     rbind (constant_ast l) (\<lambda>x.
     rbind (constant_ast r) (\<lambda>y.
       case const_binary op x y of
         Some v \<Rightarrow> Inr v
       | None \<Rightarrow> diag sp ''division by zero in constant expression''))"
| "constant_ast (Expr (E_Conditional c t e) sp) =
     rbind (constant_ast c) (\<lambda>v. if v \<noteq> 0 then constant_ast t else constant_ast e)"
| "constant_ast (Expr _ sp) = not_constant sp"

section \<open>Constant expressions of the typed tree\<close>

text \<open>\<open>as i32\<close> and back; the division is done in 64 bits, so it does not overflow.\<close>

definition as_i32 :: "u32 \<Rightarrow> int" where
  "as_i32 w = sint w"

definition div_signed :: "u32 \<Rightarrow> u32 \<Rightarrow> u32" where
  "div_signed l r = word_of_int (as_i32 l sdiv as_i32 r)"

definition mod_signed :: "u32 \<Rightarrow> u32 \<Rightarrow> u32" where
  "mod_signed l r = word_of_int (as_i32 l smod as_i32 r)"

definition shr_signed :: "u32 \<Rightarrow> u32 \<Rightarrow> u32" where
  "shr_signed l r = signed_drop_bit (shift_amount r) l"

definition case_error :: "span \<Rightarrow> 'a cc" where
  "case_error sp = diag sp ''case value must be a constant integer expression''"

definition case_binary :: "span \<Rightarrow> bool \<Rightarrow> binary_op \<Rightarrow> u32 \<Rightarrow> u32 \<Rightarrow> u32 cc" where
  "case_binary sp is_signed op l r =
     (case op of
        B_Add \<Rightarrow> Inr (l + r)
      | B_Sub \<Rightarrow> Inr (l - r)
      | B_Mul \<Rightarrow> Inr (l * r)
      | B_Div \<Rightarrow> if r = 0 then diag sp ''division by zero in case value''
                else Inr (if is_signed then div_signed l r else l div r)
      | B_Mod \<Rightarrow> if r = 0 then diag sp ''division by zero in case value''
                else Inr (if is_signed then mod_signed l r else l mod r)
      | B_Shl \<Rightarrow> Inr (push_bit (shift_amount r) l)
      | B_Shr \<Rightarrow> Inr (if is_signed then shr_signed l r else drop_bit (shift_amount r) l)
      | B_Lt \<Rightarrow> Inr (from_bool (if is_signed then as_i32 l < as_i32 r else l < r))
      | B_Le \<Rightarrow> Inr (from_bool (if is_signed then as_i32 l \<le> as_i32 r else l \<le> r))
      | B_Gt \<Rightarrow> Inr (from_bool (if is_signed then as_i32 l > as_i32 r else l > r))
      | B_Ge \<Rightarrow> Inr (from_bool (if is_signed then as_i32 l \<ge> as_i32 r else l \<ge> r))
      | B_Eq \<Rightarrow> Inr (from_bool (l = r))
      | B_Ne \<Rightarrow> Inr (from_bool (l \<noteq> r))
      | B_BitAnd \<Rightarrow> Inr (l AND r)
      | B_BitXor \<Rightarrow> Inr (l XOR r)
      | B_BitOr \<Rightarrow> Inr (l OR r)
      | B_LogicalAnd \<Rightarrow> Inr (from_bool (r \<noteq> 0))
      | B_LogicalOr \<Rightarrow> Inr (from_bool (r \<noteq> 0))
      | B_Comma \<Rightarrow> diag sp ''comma is not allowed in a case constant expression'')"

fun constant_u32 :: "typed_expr \<Rightarrow> u32 cc" where
  "constant_u32 (TExpr (TE_Literal v) ty u sp) = Inr v"
| "constant_u32 (TExpr (TE_Unary op e) ty u sp) =
     rbind (constant_u32 e) (\<lambda>v.
       case const_unary op v of Some r \<Rightarrow> Inr r | None \<Rightarrow> case_error sp)"
| "constant_u32 (TExpr (TE_Binary op l r operand_type) ty u sp) =
     rbind (constant_u32 l) (\<lambda>x.
       if op = B_LogicalAnd \<and> x = 0 then Inr 0
       else if op = B_LogicalOr \<and> x \<noteq> 0 then Inr 1
       else rbind (constant_u32 r) (\<lambda>y. case_binary sp (operand_type = T_I32) op x y))"
| "constant_u32 (TExpr (TE_Conditional c t e) ty u sp) =
     rbind (constant_u32 c) (\<lambda>v. if v \<noteq> 0 then constant_u32 t else constant_u32 e)"
| "constant_u32 (TExpr _ ty u sp) = case_error sp"

end
