(* ===== verification/Sema_Layout.thy ===== *)
theory Sema_Layout
  imports Sema_Const
begin

text \<open>
  Declarations of a translation unit (\<open>tools/warpc/src/sema.rs\<close>): structure names and
  layouts, globals with their place in the data words, function signatures, and the lowering
  of declared types. Each operation of the analyser takes its state and returns the new one;
  a \<open>HashMap\<close> is a map, and indexing it with an absent key panics.
\<close>

section \<open>State helpers\<close>

definition map_at :: "('k \<rightharpoonup> 'v) \<Rightarrow> 'k \<Rightarrow> 'v cc" where
  "map_at m k = (case m k of Some v \<Rightarrow> Inr v | None \<Rightarrow> Inl (CPanic ''key not found in map''))"

definition set_at :: "'a list \<Rightarrow> nat \<Rightarrow> 'a \<Rightarrow> 'a list cc" where
  "set_at xs i x = (if i < length xs then Inr (xs[i := x]) else Inl (CPanic ''index out of bounds''))"

text \<open>\<open>xs[at..at + ws.len()].copy_from_slice(ws)\<close>\<close>

definition copy_words :: "'a list \<Rightarrow> nat \<Rightarrow> 'a list \<Rightarrow> 'a list cc" where
  "copy_words xs at ws =
     (if at + length ws \<le> length xs
      then Inr (take at xs @ ws @ drop (at + length ws) xs)
      else Inl (CPanic ''range end index out of range for slice''))"

section \<open>Declared types\<close>

definition lower_base :: "analyzer \<Rightarrow> decl_type \<Rightarrow> base_type cc" where
  "lower_base s decl =
     (case dt_base decl of
        TN_Int \<Rightarrow> Inr BT_I32
      | TN_Unsigned \<Rightarrow> Inr BT_U32
      | TN_Char \<Rightarrow> Inr BT_Char
      | TN_Void \<Rightarrow> Inr BT_Void
      | TN_Struct name \<Rightarrow>
          (case an_struct_ids s name of
             Some i \<Rightarrow> Inr (BT_Struct i)
           | None \<Rightarrow> diag (dc_span (dt_declarator decl)) (''unknown structure '' @ quoted name)))"

definition lower_array_len :: "decl_type \<Rightarrow> nat option \<Rightarrow> nat option cc" where
  "lower_array_len decl inferred_array =
     (case dc_array_len (dt_declarator decl) of
        None \<Rightarrow> Inr None
      | Some (Some e) \<Rightarrow>
          rbind (constant_ast e) (\<lambda>w.
            let v = unat w in
            if v = 0 then diag (e_span e) ''array size must be positive''
            else if v > RAM_SIZE_WORDS then diag (e_span e) ''array exceeds the 65,536-word VM RAM''
            else Inr (Some v))
      | Some None \<Rightarrow>
          (case inferred_array of
             Some n \<Rightarrow> Inr (Some n)
           | None \<Rightarrow> diag (dc_span (dt_declarator decl))
               ''array size is required unless inferred from a string literal''))"

definition lower_decl_type :: "analyzer \<Rightarrow> decl_type \<Rightarrow> nat option \<Rightarrow> ctype cc" where
  "lower_decl_type s decl inferred_array =
     rbind (lower_base s decl) (\<lambda>base.
     rbind (lower_array_len decl inferred_array) (\<lambda>array_len.
       if base = BT_Void \<and> dc_pointers (dt_declarator decl) = 0 \<and> array_len \<noteq> None
       then diag (dc_span (dt_declarator decl)) ''array element type cannot be void''
       else Inr \<lparr>ty_base = base, ty_pointers = dc_pointers (dt_declarator decl),
                 ty_array_len = array_len\<rparr>))"

section \<open>Structures\<close>

definition register_struct_name :: "analyzer \<Rightarrow> struct_decl \<Rightarrow> analyzer cc" where
  "register_struct_name s decl =
     (if an_struct_ids s (sd_name decl) \<noteq> None
      then diag (sd_span decl) (''duplicate definition of struct '' @ quoted (sd_name decl))
      else Inr (s\<lparr>an_struct_ids := (an_struct_ids s)(sd_name decl \<mapsto> length (an_structs s)),
                  an_structs := an_structs s @
                    [\<lparr>si_name = sd_name decl, si_fields = [], si_size = 0, si_span = sd_span decl\<rparr>]\<rparr>))"

definition register_struct_names :: "analyzer \<Rightarrow> struct_decl list \<Rightarrow> analyzer cc" where
  "register_struct_names = fold_res register_struct_name"

text \<open>One field of the structure \<open>id\<close>, over the fields so far, their names and the offset.\<close>

type_synonym layout_state = "field_info list \<times> string set \<times> nat"

definition layout_field :: "analyzer \<Rightarrow> nat \<Rightarrow> layout_state \<Rightarrow> field_decl \<Rightarrow> layout_state cc" where
  "layout_field s sid st field =
     (let (fields, names, offset) = st in
      if dt_uniform (fd_ty field)
      then diag (fd_span field)
        (quoted ''uniform'' @ '' is a value qualifier and is not supported on structure fields'')
      else
        rbind (unwrap (dc_name (dt_declarator (fd_ty field)))) (\<lambda>name.
        if name \<in> names then diag (fd_span field) (''duplicate field '' @ quoted name)
        else
          rbind (lower_decl_type s (fd_ty field) None) (\<lambda>ty.
          if is_void ty \<or> (ty_base ty = BT_Struct sid \<and> ty_pointers ty = 0)
          then diag (fd_span field) ''structure field has incomplete or void type''
          else
            rbind (type_size ty (an_structs s)) (\<lambda>size.
            if size = 0 then diag (fd_span field) ''structure field has incomplete type''
            else
              rbind (add_usize offset size) (\<lambda>offset'.
                Inr (fields @ [\<lparr>fi_name = name, fi_ty = ty, fi_offset = offset,
                                fi_span = fd_span field\<rparr>],
                     insert name names, offset'))))))"

definition layout_struct :: "analyzer \<Rightarrow> struct_decl \<Rightarrow> analyzer cc" where
  "layout_struct s decl =
     rbind (map_at (an_struct_ids s) (sd_name decl)) (\<lambda>sid.
     rbind (fold_res (layout_field s sid) ([], {}, 0) (sd_fields decl)) (\<lambda>(fields, _, offset).
       if fields = [] then diag (sd_span decl) ''empty structures are not supported''
       else
         rbind (index_at (an_structs s) sid) (\<lambda>info.
         rbind (set_at (an_structs s) sid (info\<lparr>si_fields := fields, si_size := offset\<rparr>)) (\<lambda>structs.
           Inr (s\<lparr>an_structs := structs\<rparr>)))))"

definition layout_structs :: "analyzer \<Rightarrow> struct_decl list \<Rightarrow> analyzer cc" where
  "layout_structs = fold_res layout_struct"

section \<open>Globals\<close>

definition init_words :: "expr option \<Rightarrow> u32 list option" where
  "init_words e = (case e of Some (Expr (E_String words) _) \<Rightarrow> Some words | _ \<Rightarrow> None)"

definition allocate_words :: "analyzer \<Rightarrow> u32 list \<Rightarrow> nat \<times> analyzer" where
  "allocate_words s words =
     (length (an_data_words s), s\<lparr>an_data_words := an_data_words s @ words\<rparr>)"

text \<open>The initial value of a global of type \<open>ty\<close> at \<open>address\<close>.\<close>

definition init_global :: "analyzer \<Rightarrow> ctype \<Rightarrow> nat \<Rightarrow> expr \<Rightarrow> analyzer cc" where
  "init_global s ty address init =
     (case (ty_array_len ty, init_words (Some init)) of
        (Some n, words) \<Rightarrow>
          (case words of
             Some ws \<Rightarrow>
               if ty_base ty = BT_Char \<and> ty_pointers ty = 0 then
                 if length ws > n then diag (e_span init) ''string literal is too long for character array''
                 else rbind (copy_words (an_data_words s) address ws) (\<lambda>data.
                        Inr (s\<lparr>an_data_words := data\<rparr>))
               else diag (e_span init)
                 ''only character arrays may currently have aggregate global initializers''
           | None \<Rightarrow> diag (e_span init)
               ''only character arrays may currently have aggregate global initializers'')
      | (None, words) \<Rightarrow>
          if words \<noteq> None \<and> is_pointer ty \<and> ty_base ty = BT_Char \<and> ty_pointers ty = 1 then
            (let (literal_address, s) = allocate_words s (the words) in
             rbind (set_at (an_data_words s) address (of_nat literal_address)) (\<lambda>data.
               Inr (s\<lparr>an_data_words := data\<rparr>)))
          else if is_integer ty \<or> is_pointer ty then
            rbind (constant_ast init) (\<lambda>v.
            rbind (set_at (an_data_words s) address v) (\<lambda>data.
              Inr (s\<lparr>an_data_words := data\<rparr>)))
          else diag (e_span init) ''unsupported global initializer'')"

definition register_global :: "analyzer \<Rightarrow> global \<Rightarrow> analyzer cc" where
  "register_global s g =
     (if dt_uniform (g_ty g)
      then diag (g_span g) (quoted ''uniform'' @
        '' is currently supported on automatic values and function signatures, not globals'')
      else
        rbind (unwrap (dc_name (dt_declarator (g_ty g)))) (\<lambda>name.
        rbind (reject_warp_declaration name (g_span g)) (\<lambda>_.
        if an_global_ids s name \<noteq> None
        then diag (g_span g) (''duplicate global '' @ quoted name)
        else
          rbind (lower_decl_type s (g_ty g) (map_option length (init_words (g_init g)))) (\<lambda>ty.
          if is_void ty then diag (g_span g) ''global variable cannot have type void''
          else
            (let address = length (an_data_words s) in
             rbind (type_size ty (an_structs s)) (\<lambda>size.
             if address + size > RAM_SIZE_WORDS
             then diag (g_span g) ''global data exceeds the 65,536-word VM RAM''
             else
               rbind (let s = s\<lparr>an_data_words := an_data_words s @ replicate size 0\<rparr> in
                      case g_init g of None \<Rightarrow> Inr s | Some e \<Rightarrow> init_global s ty address e) (\<lambda>s.
                 Inr (s\<lparr>an_global_ids := (an_global_ids s)(name \<mapsto> length (an_globals s)),
                        an_globals := an_globals s @
                          [\<lparr>gi_name = name, gi_ty = ty, gi_address = address,
                            gi_span = g_span g\<rparr>]\<rparr>))))))))"

section \<open>Functions\<close>

definition reserved_intrinsics :: "string list" where
  "reserved_intrinsics =
     [''warp_lane_id'', ''warp_vm_id'', ''warp_framebuffer'', ''warp_flip'', ''warp_argb'',
      ''warp_set_pixel'', ''warp_send'', ''warp_try_recv'', ''warp_broadcast'', ''warp_shuffle'',
      ''warp_shuffle_xor'', ''warp_ballot'', ''warp_any'', ''warp_all'', ''warp_reduce_add'',
      ''warp_reduce_add_u'', ''warp_reduce_min'', ''warp_reduce_max'', ''warp_reduce_min_u'',
      ''warp_reduce_max_u'', ''warp_reduce_and'', ''warp_reduce_or'', ''warp_reduce_xor'',
      ''min'', ''max'']"

definition declared_shape :: "decl_type \<Rightarrow> value_shape" where
  "declared_shape ty = (if dt_uniform ty then Shape_Uniform else Shape_Warp)"

definition lower_parameter :: "analyzer \<Rightarrow> parameter \<Rightarrow> ctype cc" where
  "lower_parameter s p =
     rbind (case dc_name (dt_declarator (p_ty p)) of
              Some name \<Rightarrow> reject_warp_declaration name (p_span p)
            | None \<Rightarrow> Inr ()) (\<lambda>_.
     rbind (lower_decl_type s (p_ty p) None) (\<lambda>ty0.
       let ty = (if is_array ty0 then decay ty0 else ty0) in
       if is_void ty \<or> is_struct ty
       then diag (p_span p) ''parameter must have scalar or pointer type''
       else Inr ty))"

text \<open>A further declaration of a known function.\<close>

definition redeclare :: "function_symbol \<Rightarrow> function_decl \<Rightarrow> ctype \<Rightarrow> ctype list \<Rightarrow> function_symbol cc" where
  "redeclare symbol f return_type params =
     (if fs_return_type symbol \<noteq> return_type
         \<or> fs_return_shape symbol \<noteq> declared_shape (f_return_type f)
         \<or> fs_params symbol \<noteq> params
         \<or> fs_param_shapes symbol \<noteq> map (declared_shape \<circ> p_ty) (f_params f)
      then diag (f_span f) (''conflicting declaration of function '' @ quoted (f_name f))
      else if f_body f = None then Inr symbol
      else if fs_defined symbol
      then diag (f_span f) (''duplicate definition of function '' @ quoted (f_name f))
      else Inr (symbol\<lparr>fs_defined := True, fs_span := f_span f\<rparr>))"

definition register_function :: "analyzer \<Rightarrow> function_decl \<Rightarrow> analyzer cc" where
  "register_function s f =
     rbind (reject_warp_declaration (f_name f) (f_span f)) (\<lambda>_.
     if f_name f \<in> set reserved_intrinsics
     then diag (f_span f) (quoted (f_name f) @ '' is a reserved Warp C intrinsic'')
     else if an_global_ids s (f_name f) \<noteq> None
     then diag (f_span f) (quoted (f_name f) @ '' is already declared as a global variable'')
     else
       rbind (lower_decl_type s (f_return_type f) None) (\<lambda>return_type.
       let return_shape = declared_shape (f_return_type f) in
       if return_shape = Shape_Uniform \<and> is_void return_type
       then diag (f_span f) (quoted ''uniform'' @ '' cannot qualify a void return type'')
       else if is_array return_type \<or> is_struct return_type
       then diag (f_span f) ''functions may not return arrays or structs in this slice''
       else
         rbind (map_res (lower_parameter s) (f_params f)) (\<lambda>params.
         if length params > 4
         then diag (f_span f) ''the first Warp C ABI supports at most four parameters''
         else
           case an_function_ids s (f_name f) of
             Some i \<Rightarrow>
               rbind (index_at (an_functions s) i) (\<lambda>symbol.
               rbind (redeclare symbol f return_type params) (\<lambda>symbol'.
               rbind (set_at (an_functions s) i symbol') (\<lambda>functions.
                 Inr (s\<lparr>an_functions := functions\<rparr>))))
           | None \<Rightarrow>
               Inr (s\<lparr>an_function_ids := (an_function_ids s)(f_name f \<mapsto> length (an_functions s)),
                      an_functions := an_functions s @
                        [\<lparr>fs_name = f_name f, fs_return_type = return_type, fs_params = params,
                          fs_param_shapes = map (declared_shape \<circ> p_ty) (f_params f),
                          fs_param_names = map (dc_name \<circ> dt_declarator \<circ> p_ty) (f_params f),
                          fs_param_spans = map p_span (f_params f),
                          fs_return_shape = return_shape, fs_defined = (f_body f \<noteq> None),
                          fs_span = f_span f\<rparr>]\<rparr>))))"

section \<open>The declarations of a program\<close>

text \<open>The passes over the declarations, as the analysis of a program makes them first.\<close>

definition register_declarations :: "program \<Rightarrow> analyzer cc" where
  "register_declarations p =
     rbind (register_struct_names analyzer_new (pr_structs p)) (\<lambda>s.
     rbind (layout_structs s (pr_structs p)) (\<lambda>s.
     rbind (fold_res register_global s (pr_globals p)) (\<lambda>s.
       fold_res register_function s (pr_functions p))))"

end
