(* ===== verification/Sema_Calls.thy ===== *)
theory Sema_Calls
  imports Sema_Layout
begin

text \<open>
  Calls in the semantic analysis (\<open>tools/warpc/src/sema.rs\<close>): which functions are small
  enough to be expanded at their calls, and the depth of the call graph, which is limited by
  the call stack of the machine.
\<close>

section \<open>Inline candidates\<close>

definition MAX_INLINE_STATEMENTS :: nat where "MAX_INLINE_STATEMENTS = 6"
definition MAX_INLINE_AST_NODES :: nat where "MAX_INLINE_AST_NODES = 48"

definition plain_scalar_decl :: "decl_type \<Rightarrow> bool" where
  "plain_scalar_decl d \<longleftrightarrow>
     dc_pointers (dt_declarator d) = 0 \<and> dc_array_len (dt_declarator d) = None
     \<and> (case dt_base d of TN_Int \<Rightarrow> True | TN_Unsigned \<Rightarrow> True | TN_Char \<Rightarrow> True | _ \<Rightarrow> False)"

fun inline_expr_nodes :: "expr \<Rightarrow> nat" where
  "inline_expr_nodes (Expr (E_Call f args) sp) = 1 + sum_list (map inline_expr_nodes args)"
| "inline_expr_nodes (Expr (E_Unary op e) sp) = 1 + inline_expr_nodes e"
| "inline_expr_nodes (Expr (E_SizeofExpr e) sp) = 1 + inline_expr_nodes e"
| "inline_expr_nodes (Expr (E_Binary op l r) sp) = 1 + inline_expr_nodes l + inline_expr_nodes r"
| "inline_expr_nodes (Expr (E_Assign op l r) sp) = 1 + inline_expr_nodes l + inline_expr_nodes r"
| "inline_expr_nodes (Expr (E_Index l r) sp) = 1 + inline_expr_nodes l + inline_expr_nodes r"
| "inline_expr_nodes (Expr (E_Conditional c t e) sp) =
     1 + inline_expr_nodes c + inline_expr_nodes t + inline_expr_nodes e"
| "inline_expr_nodes (Expr (E_Member b f p) sp) = 1 + inline_expr_nodes b"
| "inline_expr_nodes (Expr _ sp) = 1"

definition inline_statement_nodes :: "stmt \<Rightarrow> nat" where
  "inline_statement_nodes s =
     (case s of
        S_Decl ty init sp \<Rightarrow> 1 + (case init of None \<Rightarrow> 0 | Some e \<Rightarrow> inline_expr_nodes e)
      | S_Expr e sp \<Rightarrow> 1 + (case e of None \<Rightarrow> 0 | Some e \<Rightarrow> inline_expr_nodes e)
      | _ \<Rightarrow> MAX_INLINE_AST_NODES + 1)"

fun unsupported :: "expr \<Rightarrow> bool" where
  "unsupported (Expr (E_Call f args) sp) = True"
| "unsupported (Expr (E_Index l r) sp) = True"
| "unsupported (Expr (E_Member b f p) sp) = True"
| "unsupported (Expr (E_String ws) sp) = True"
| "unsupported (Expr (E_Unary op e) sp) = (op = U_AddressOf \<or> op = U_Deref \<or> unsupported e)"
| "unsupported (Expr (E_Binary op l r) sp) = (unsupported l \<or> unsupported r)"
| "unsupported (Expr (E_Assign op l r) sp) = (unsupported l \<or> unsupported r)"
| "unsupported (Expr (E_Conditional c t e) sp) = (unsupported c \<or> unsupported t \<or> unsupported e)"
| "unsupported (Expr (E_SizeofExpr e) sp) = unsupported e"
| "unsupported (Expr _ sp) = False"

definition unsupported_statement :: "stmt \<Rightarrow> bool" where
  "unsupported_statement s =
     (case s of
        S_Decl ty init sp \<Rightarrow>
          \<not> plain_scalar_decl ty \<or> (case init of None \<Rightarrow> False | Some e \<Rightarrow> unsupported e)
      | S_Expr (Some e) sp \<Rightarrow> unsupported e
      | _ \<Rightarrow> True)"

text \<open>The last statement of a body, if it returns a value, and the ones before it.\<close>

definition split_return :: "stmt list \<Rightarrow> (stmt list \<times> expr) option" where
  "split_return stmts =
     (if stmts = [] then None
      else case last stmts of
             S_Return (Some result) _ \<Rightarrow> Some (butlast stmts, result)
           | _ \<Rightarrow> None)"

definition candidate_of :: "function_decl \<Rightarrow> inline_candidate option" where
  "candidate_of f =
     (case f_body f of
        None \<Rightarrow> None
      | Some body \<Rightarrow>
          if \<not> plain_scalar_decl (f_return_type f)
             \<or> list_ex (\<lambda>p. dc_name (dt_declarator (p_ty p)) = None \<or> \<not> plain_scalar_decl (p_ty p))
                 (f_params f)
             \<or> b_statements body = [] \<or> length (b_statements body) > MAX_INLINE_STATEMENTS
          then None
          else
            case split_return (b_statements body) of
              None \<Rightarrow> None
            | Some (stmts, result) \<Rightarrow>
                if list_ex unsupported_statement stmts \<or> unsupported result
                   \<or> sum_list (map inline_statement_nodes stmts) + inline_expr_nodes result
                       > MAX_INLINE_AST_NODES
                then None
                else Some \<lparr>ic_params = f_params f, ic_statements = stmts, ic_result = result\<rparr>)"

definition collect_inline_candidates ::
    "function_decl list \<Rightarrow> (string \<rightharpoonup> nat) \<Rightarrow> (nat \<rightharpoonup> inline_candidate) cc" where
  "collect_inline_candidates functions ids =
     fold_res (\<lambda>m f. case candidate_of f of
         None \<Rightarrow> Inr m
       | Some c \<Rightarrow> rbind (map_at ids (f_name f)) (\<lambda>i. Inr (m(i \<mapsto> c))))
       Map.empty functions"

section \<open>Depth of the call graph\<close>

text \<open>\<open>call_depth\<close> walks the graph depth first. \<open>state\<close> is 0 for a function not yet visited, 1
  for one whose calls are being followed, 2 for one whose depth is known. The function and the
  loop over its callees recurse through each other: the callees of a function in state 0 are
  followed with one more function in state 1, or the walk ends.\<close>

record walk =
  w_state :: "nat list"
  w_depths :: "nat list"

definition recursive_call :: "function_symbol \<Rightarrow> 'a cc" where
  "recursive_call f = diag (fs_span f)
     (''recursive call cycle involving '' @ quoted (fs_name f) @ '' is not supported'')"

definition undefined_callee :: "function_symbol \<Rightarrow> 'a cc" where
  "undefined_callee f = diag (fs_span f)
     (''function '' @ quoted (fs_name f) @ '' is declared but not defined'')"

text \<open>The loop over the callees, with the walk \<open>r\<close> of one of them.\<close>

fun callee_loop :: "(nat \<Rightarrow> walk \<Rightarrow> (nat \<times> walk) cc) \<Rightarrow> function_symbol list \<Rightarrow> nat list \<Rightarrow> nat \<Rightarrow> walk
    \<Rightarrow> (nat \<times> walk) cc" where
  "callee_loop r functions [] depth w = Inr (depth, w)"
| "callee_loop r functions (callee # callees) depth w =
     rbind (index_at functions callee) (\<lambda>symbol.
     if \<not> fs_defined symbol then undefined_callee symbol
     else rbind (r callee w) (\<lambda>(d, w').
       callee_loop r functions callees (max depth (1 + d)) w'))"

fun call_depth :: "nat \<Rightarrow> function_symbol list \<Rightarrow> nat list list \<Rightarrow> nat \<Rightarrow> walk \<Rightarrow> (nat \<times> walk) cc" where
  "call_depth 0 functions edges f w = Inl OutOfFuel"
| "call_depth (Suc fuel) functions edges f w =
     rbind (index_at (w_state w) f) (\<lambda>st.
     if st = 1 then rbind (index_at functions f) recursive_call
     else if st = 2 then rbind (index_at (w_depths w) f) (\<lambda>d. Inr (d, w))
     else
       rbind (index_at edges f) (\<lambda>callees.
       rbind (callee_loop (call_depth fuel functions edges) functions callees 0
                (w\<lparr>w_state := (w_state w)[f := 1]\<rparr>)) (\<lambda>(depth, w').
       rbind (set_at (w_state w') f 2) (\<lambda>state.
       rbind (set_at (w_depths w') f depth) (\<lambda>depths.
         Inr (depth, \<lparr>w_state = state, w_depths = depths\<rparr>))))))"

text \<open>The fuel of one walk is the number of functions and one more: each call inside another
  is from a function in state 1.\<close>

definition validate_one :: "analyzer \<Rightarrow> walk \<Rightarrow> nat \<Rightarrow> walk cc" where
  "validate_one s w f =
     rbind (index_at (an_functions s) f) (\<lambda>symbol.
     if \<not> fs_defined symbol then Inr w
     else
       rbind (call_depth (Suc (length (an_functions s))) (an_functions s) (an_call_edges s) f w) (\<lambda>(depth, w').
       if depth > 8
       then diag (fs_span symbol) (''function '' @ quoted (fs_name symbol) @ '' can exceed WarpVM''
              @ [CHR 0x27] @ ''s eight-entry call stack'')
       else Inr w'))"

definition validate_call_graph :: "analyzer \<Rightarrow> unit cc" where
  "validate_call_graph s =
     (let n = length (an_functions s) in
      rbind (fold_res (validate_one s) \<lparr>w_state = replicate n 0, w_depths = replicate n 0\<rparr> [0..<n])
        (\<lambda>_. Inr ()))"

end
