(* ===== verification/Call_Graph.thy ===== *)
theory Call_Graph
  imports Sema_Calls
begin

text \<open>
  The walk over the call graph against its specification: a program passes exactly when no
  chain of calls from a defined function has more than eight calls or reaches a function
  without a body. The walk does not run out of its recursion bound, a function in state 1 is
  met only on a cycle, and the recorded depth is the length of a longest chain.
\<close>

section \<open>Chains of calls\<close>

inductive chain :: "nat list list \<Rightarrow> nat \<Rightarrow> nat \<Rightarrow> nat \<Rightarrow> bool" for edges where
  chain_refl: "chain edges 0 f f"
| chain_step: "c \<in> set (edges ! f) \<Longrightarrow> chain edges k c g \<Longrightarrow> chain edges (Suc k) f g"

inductive_cases chain_SucE: "chain edges (Suc k) f g"

lemma chain_trans: "chain edges k f g \<Longrightarrow> chain edges l g h \<Longrightarrow> chain edges (k + l) f h"
  by (induction rule: chain.induct) (auto intro: chain_step)

lemma chain_cycle: "chain edges k g g \<Longrightarrow> chain edges (m * k) g g"
  by (induction m) (auto intro: chain_refl chain_trans)

text \<open>A set closed under calls on which a measure drops bounds the chains inside.\<close>

lemma chain_bounded:
  assumes "chain edges k f g" and "f \<in> S"
    and "\<And>i c. i \<in> S \<Longrightarrow> c \<in> set (edges ! i) \<Longrightarrow> c \<in> S \<and> m c + 1 \<le> (m i :: nat)"
  shows "g \<in> S \<and> m g + k \<le> m f"
  using assms(1,2)
  by (induction rule: chain.induct) (use assms(3) in fastforce)+

definition calls_ok :: "function_symbol list \<Rightarrow> nat list list \<Rightarrow> bool" where
  "calls_ok functions edges \<longleftrightarrow>
     (\<forall>f k g. f < length functions \<and> fs_defined (functions ! f) \<and> chain edges k f g
        \<longrightarrow> k \<le> 8 \<and> fs_defined (functions ! g))"

section \<open>The walk\<close>

definition edges_ok :: "function_symbol list \<Rightarrow> nat list list \<Rightarrow> bool" where
  "edges_ok functions edges \<longleftrightarrow> length edges = length functions
     \<and> (\<forall>cs\<in>set edges. \<forall>c\<in>set cs. c < length functions)"

abbreviation (input) mark_of :: "walk \<Rightarrow> nat \<Rightarrow> nat" where
  "mark_of w i \<equiv> w_state w ! i"

text \<open>A finished function has finished callees of smaller depth, and a chain as long as its
  depth.\<close>

definition finished_ok :: "function_symbol list \<Rightarrow> nat list list \<Rightarrow> walk \<Rightarrow> nat \<Rightarrow> bool" where
  "finished_ok functions edges w i \<longleftrightarrow>
     (\<forall>c\<in>set (edges ! i). fs_defined (functions ! c) \<and> mark_of w c = 2
        \<and> w_depths w ! c + 1 \<le> w_depths w ! i)
     \<and> (\<exists>g. chain edges (w_depths w ! i) i g)"

definition walk_inv :: "function_symbol list \<Rightarrow> nat list list \<Rightarrow> walk \<Rightarrow> bool" where
  "walk_inv functions edges w \<longleftrightarrow>
     length (w_state w) = length functions \<and> length (w_depths w) = length functions
     \<and> (\<forall>i<length functions. mark_of w i \<le> 2 \<and> (mark_of w i = 2 \<longrightarrow> finished_ok functions edges w i))"

text \<open>What a walk leaves as it was.\<close>

definition extends :: "walk \<Rightarrow> walk \<Rightarrow> bool" where
  "extends w w' \<longleftrightarrow> length (w_state w') = length (w_state w)
     \<and> (\<forall>i<length (w_state w). (mark_of w' i = 1 \<longleftrightarrow> mark_of w i = 1) \<and> (mark_of w' i = 0 \<longrightarrow> mark_of w i = 0)
          \<and> (mark_of w i = 2 \<longrightarrow> mark_of w' i = 2 \<and> w_depths w' ! i = w_depths w ! i))"

definition whites :: "walk \<Rightarrow> nat" where
  "whites w = card {i. i < length (w_state w) \<and> mark_of w i = 0}"

lemma extends_refl [simp]: "extends w w"
  by (simp add: extends_def)

lemma extendsD:
  assumes "extends w w'" and "i < length (w_state w)"
  shows "mark_of w' i = 1 \<longleftrightarrow> mark_of w i = 1" "mark_of w' i = 0 \<Longrightarrow> mark_of w i = 0"
    "mark_of w i = 2 \<Longrightarrow> mark_of w' i = 2" "mark_of w i = 2 \<Longrightarrow> w_depths w' ! i = w_depths w ! i"
  using assms by (simp_all add: extends_def)

lemma extends_length: "extends w w' \<Longrightarrow> length (w_state w') = length (w_state w)"
  by (simp add: extends_def)

lemma extends_trans:
  assumes "extends w v" and "extends v u"
  shows "extends w u"
proof -
  have "(mark_of u i = 1 \<longleftrightarrow> mark_of w i = 1) \<and> (mark_of u i = 0 \<longrightarrow> mark_of w i = 0)
      \<and> (mark_of w i = 2 \<longrightarrow> mark_of u i = 2 \<and> w_depths u ! i = w_depths w ! i)"
    if i: "i < length (w_state w)" for i
  proof -
    have "i < length (w_state v)" using i extends_length [OF assms(1)] by simp
    note v = extendsD [OF assms(1) i] and u = extendsD [OF assms(2) this]
    show ?thesis
    proof (intro conjI impI)
      show "mark_of u i = 1 \<longleftrightarrow> mark_of w i = 1" by (simp only: u(1) v(1))
      show "mark_of w i = 0" if "mark_of u i = 0" by (rule v(2) [OF u(2) [OF that]])
      show "mark_of u i = 2" if "mark_of w i = 2" by (rule u(3) [OF v(3) [OF that]])
      show "w_depths u ! i = w_depths w ! i" if "mark_of w i = 2"
        by (rule trans [OF u(4) [OF v(3) [OF that]] v(4) [OF that]])
    qed
  qed
  with extends_length [OF assms(1)] extends_length [OF assms(2)] show ?thesis
    by (simp add: extends_def)
qed

lemma extends_whites:
  assumes "extends w w'"
  shows "whites w' \<le> whites w"
proof -
  have "{i. i < length (w_state w') \<and> mark_of w' i = 0} \<subseteq> {i. i < length (w_state w) \<and> mark_of w i = 0}"
    using extends_length [OF assms] extendsD(2) [OF assms] by auto
  then show ?thesis unfolding whites_def by (intro card_mono) simp
qed

lemma walk_invD:
  assumes "walk_inv functions edges w" and "i < length functions"
  shows "mark_of w i \<le> 2" "mark_of w i = 2 \<Longrightarrow> finished_ok functions edges w i"
    "length (w_state w) = length functions" "length (w_depths w) = length functions"
  using assms by (simp_all add: walk_inv_def)

lemma edges_okD: "edges_ok functions edges \<Longrightarrow> i < length functions \<Longrightarrow> c \<in> set (edges ! i)
    \<Longrightarrow> c < length functions"
  unfolding edges_ok_def by (metis nth_mem)

lemma chain_range:
  assumes "edges_ok functions edges"
  shows "chain edges k f g \<Longrightarrow> f < length functions \<Longrightarrow> g < length functions"
  by (induction rule: chain.induct) (auto dest: edges_okD [OF assms])

section \<open>The result of a walk\<close>

text \<open>Why a walk may fail: from \<open>f\<close>, calls lead to a function without a body, one whose calls
  are being followed, or one on a cycle.\<close>

definition bad :: "function_symbol list \<Rightarrow> nat list list \<Rightarrow> walk \<Rightarrow> nat \<Rightarrow> bool" where
  "bad functions edges w f \<longleftrightarrow>
     (\<exists>k g. chain edges k f g
        \<and> (\<not> fs_defined (functions ! g) \<or> mark_of w g = 1 \<or> (\<exists>j>0. chain edges j g g)))"

lemma bad_extends:
  assumes "edges_ok functions edges" and "extends w w'" and "f < length functions"
    and "length (w_state w) = length functions" and "bad functions edges w' f"
  shows "bad functions edges w f"
proof -
  from assms(5) obtain k g where g: "chain edges k f g"
    "\<not> fs_defined (functions ! g) \<or> mark_of w' g = 1 \<or> (\<exists>j>0. chain edges j g g)"
    by (auto simp: bad_def)
  have "g < length (w_state w)" using chain_range [OF assms(1) g(1) assms(3)] assms(4) by simp
  from extendsD(1) [OF assms(2) this] g show ?thesis unfolding bad_def by blast
qed

definition walked :: "function_symbol list \<Rightarrow> nat list list \<Rightarrow> nat \<Rightarrow> walk \<Rightarrow> (nat \<times> walk) cc \<Rightarrow> bool" where
  "walked functions edges f w r \<longleftrightarrow>
     (case r of
        Inl e \<Rightarrow> (\<exists>d. e = Diag d) \<and> bad functions edges w f
      | Inr (d, w') \<Rightarrow> walk_inv functions edges w' \<and> extends w w' \<and> mark_of w' f = 2 \<and> w_depths w' ! f = d)"

definition looped :: "function_symbol list \<Rightarrow> nat list list \<Rightarrow> nat list \<Rightarrow> nat \<Rightarrow> walk
    \<Rightarrow> (nat \<times> walk) cc \<Rightarrow> bool" where
  "looped functions edges cs d0 w r \<longleftrightarrow>
     (case r of
        Inl e \<Rightarrow> (\<exists>d. e = Diag d)
          \<and> (\<exists>c\<in>set cs. \<not> fs_defined (functions ! c) \<or> bad functions edges w c)
      | Inr (d, w') \<Rightarrow> walk_inv functions edges w' \<and> extends w w' \<and> d0 \<le> d
          \<and> (\<forall>c\<in>set cs. fs_defined (functions ! c) \<and> mark_of w' c = 2 \<and> 1 + w_depths w' ! c \<le> d)
          \<and> (d = d0 \<or> (\<exists>c\<in>set cs. d = 1 + w_depths w' ! c)))"

lemma callee_loop_walks:
  assumes edges: "edges_ok functions edges"
    and r: "\<And>c v. c < length functions \<Longrightarrow> walk_inv functions edges v \<Longrightarrow> whites v < n \<Longrightarrow>
      walked functions edges c v (r c v)"
  shows "\<forall>c\<in>set cs. c < length functions \<Longrightarrow> walk_inv functions edges w \<Longrightarrow> whites w < n \<Longrightarrow>
    looped functions edges cs d0 w (callee_loop r functions cs d0 w)"
proof (induction cs arbitrary: d0 w)
  case Nil
  then show ?case by (simp add: looped_def)
next
  case (Cons c cs)
  then have c: "c < length functions" and len: "length (w_state w) = length functions"
    by (auto simp: walk_inv_def)
  have ix: "index_at functions c = Inr (functions ! c)" using c by (simp add: index_at_def)
  show ?case
  proof (cases "fs_defined (functions ! c)")
    case False
    then show ?thesis by (auto simp: ix looped_def undefined_callee_def diag_def)
  next
    case True
    have walked: "walked functions edges c w (r c w)" using r c Cons.prems by blast
    show ?thesis
    proof (cases "r c w")
      case (Inl e)
      with walked True show ?thesis by (auto simp: ix looped_def walked_def)
    next
      case (Inr y)
      obtain d v where y: "y = (d, v)" by (cases y)
      with walked Inr have v: "walk_inv functions edges v" "extends w v" "mark_of v c = 2"
        "w_depths v ! c = d" by (auto simp: walked_def)
      have "whites v < n" using extends_whites [OF v(2)] Cons.prems(3) by simp
      with Cons.IH [of v "max d0 (1 + d)"] Cons.prems(1) v(1)
      have rest: "looped functions edges cs (max d0 (1 + d)) v
          (callee_loop r functions cs (max d0 (1 + d)) v)" by simp
      have eq: "callee_loop r functions (c # cs) d0 w = callee_loop r functions cs (max d0 (1 + d)) v"
        using True Inr y by (simp add: ix)
      show ?thesis
      proof (cases "callee_loop r functions cs (max d0 (1 + d)) v")
        case (Inl e)
        with rest obtain x where x: "\<exists>d. e = Diag d" "x \<in> set cs"
          "\<not> fs_defined (functions ! x) \<or> bad functions edges v x"
          by (auto simp: looped_def)
        with Cons.prems(1) len have "\<not> fs_defined (functions ! x) \<or> bad functions edges w x"
          using bad_extends [OF edges v(2)] by auto
        with x show ?thesis unfolding looped_def eq Inl sum.case by auto
      next
        case (Inr z)
        obtain d' u where z: "z = (d', u)" by (cases z)
        with rest Inr have u: "walk_inv functions edges u" "extends v u" "max d0 (1 + d) \<le> d'"
          "\<forall>c\<in>set cs. fs_defined (functions ! c) \<and> mark_of u c = 2 \<and> 1 + w_depths u ! c \<le> d'"
          "d' = max d0 (1 + d) \<or> (\<exists>c\<in>set cs. d' = 1 + w_depths u ! c)"
          by (auto simp: looped_def)
        have "c < length (w_state v)" using c v(1) by (simp add: walk_inv_def)
        from extendsD(3,4) [OF u(2) this v(3)] v(4) have "mark_of u c = 2" "w_depths u ! c = d" by auto
        with u True extends_trans [OF v(2) u(2)] show ?thesis
          unfolding looped_def eq Inr z sum.case prod.case
          by (auto simp: max_def split: if_splits)
      qed
    qed
  qed
qed

section \<open>The walk of one function\<close>

lemma whites_mark:
  assumes "f < length (w_state w)" and "mark_of w f = 0"
  shows "whites (w\<lparr>w_state := (w_state w)[f := 1]\<rparr>) < whites w"
proof -
  let ?A = "{i. i < length (w_state w) \<and> mark_of w i = 0}"
  have "{i. i < length (w_state w) \<and> (w_state w)[f := 1] ! i = 0} = ?A - {f}"
    using assms by (auto simp: nth_list_update)
  moreover have "card (?A - {f}) < card ?A"
    using assms by (intro card_Diff1_less) auto
  ultimately show ?thesis by (simp add: whites_def)
qed

lemma mark_inv:
  assumes "walk_inv functions edges w" and "f < length functions" and "mark_of w f = 0"
  shows "walk_inv functions edges (w\<lparr>w_state := (w_state w)[f := 1]\<rparr>)"
proof -
  have same: "(w_state w)[f := 1] ! c = 2" if "mark_of w c = 2" for c
    using that assms(3) by (cases "c = f") simp_all
  have "finished_ok functions edges (w\<lparr>w_state := (w_state w)[f := 1]\<rparr>) i"
    if "finished_ok functions edges w i" for i
    using that same by (simp add: finished_ok_def)
  with assms show ?thesis by (auto simp: walk_inv_def nth_list_update)
qed

lemma finish_inv:
  assumes w: "walk_inv functions edges w" and f: "f < length functions" and grey: "mark_of w f = 1"
    and cs: "\<forall>c\<in>set (edges ! f). fs_defined (functions ! c) \<and> mark_of w c = 2 \<and> 1 + w_depths w ! c \<le> d"
    and d: "d = 0 \<or> (\<exists>c\<in>set (edges ! f). d = 1 + w_depths w ! c)"
    and edges: "edges_ok functions edges"
  shows "walk_inv functions edges \<lparr>w_state = (w_state w)[f := 2], w_depths = (w_depths w)[f := d]\<rparr>"
    (is "walk_inv functions edges ?w")
proof -
  have len: "length (w_state w) = length functions" "length (w_depths w) = length functions"
    using w by (auto simp: walk_inv_def)
  have same: "mark_of ?w i = 2" "w_depths ?w ! i = w_depths w ! i" if "mark_of w i = 2" for i
  proof -
    have "i \<noteq> f" using that grey by auto
    with that show "mark_of ?w i = 2" "w_depths ?w ! i = w_depths w ! i" by simp_all
  qed
  have "finished_ok functions edges ?w f"
  proof -
    have "\<exists>g. chain edges d f g"
    proof (cases "d = 0")
      case True
      then show ?thesis by (auto intro: chain_refl)
    next
      case False
      with d obtain c where c: "c \<in> set (edges ! f)" "d = Suc (w_depths w ! c)" by auto
      with cs have "mark_of w c = 2" by blast
      moreover have "c < length functions" using edges_okD [OF edges f c(1)] .
      ultimately obtain g where "chain edges (w_depths w ! c) c g"
        using walk_invD(2) [OF w] by (auto simp: finished_ok_def)
      with c show ?thesis by (auto intro: chain_step)
    qed
    with cs f len same show ?thesis by (simp add: finished_ok_def)
  qed
  moreover have "finished_ok functions edges ?w i"
    if "i < length functions" "i \<noteq> f" "mark_of w i = 2" for i
    using walk_invD(2) [OF w that(1,3)] same that by (auto simp: finished_ok_def)
  ultimately show ?thesis
    using w len f walk_invD(1) [OF w] by (auto simp: walk_inv_def nth_list_update)
qed

lemma call_depth_walks:
  assumes edges: "edges_ok functions edges"
  shows "f < length functions \<Longrightarrow> walk_inv functions edges w \<Longrightarrow> whites w < fuel \<Longrightarrow>
    walked functions edges f w (call_depth fuel functions edges f w)"
proof (induction fuel arbitrary: f w)
  case (Suc n)
  note f = Suc.prems(1) and inv = Suc.prems(2)
  have len: "length (w_state w) = length functions" "length (w_depths w) = length functions"
    using inv by (auto simp: walk_inv_def)
  have ix: "index_at (w_state w) f = Inr (mark_of w f)" "index_at (w_depths w) f = Inr (w_depths w ! f)"
    "index_at functions f = Inr (functions ! f)" "index_at edges f = Inr (edges ! f)"
    using f len edges by (simp_all add: index_at_def edges_ok_def)
  consider "mark_of w f = 1" | "mark_of w f = 2" | "mark_of w f = 0"
    using walk_invD(1) [OF inv f] by fastforce
  then show ?case
  proof cases
    case 1
    have "bad functions edges w f" using 1 chain_refl unfolding bad_def by blast
    with 1 show ?thesis by (simp add: ix walked_def recursive_call_def diag_def)
  next
    case 2
    with inv show ?thesis by (simp add: ix walked_def)
  next
    case 3
    let ?w = "w\<lparr>w_state := (w_state w)[f := 1]\<rparr>"
    let ?loop = "callee_loop (call_depth n functions edges) functions (edges ! f) 0 ?w"
    have fl: "f < length (w_state w)" using f len by simp
    have grey: "mark_of ?w i = 1 \<longleftrightarrow> i = f \<or> mark_of w i = 1" for i
      using fl by (auto simp: nth_list_update)
    have "whites ?w < n" using whites_mark [OF fl 3] Suc.prems(3) by simp
    with mark_inv [OF inv f 3] have loop: "looped functions edges (edges ! f) 0 ?w ?loop"
      using edges_okD [OF edges f] by (intro callee_loop_walks [OF edges Suc.IH]) auto
    have run: "call_depth (Suc n) functions edges f w = rbind ?loop (\<lambda>(depth, w').
        rbind (set_at (w_state w') f 2) (\<lambda>state. rbind (set_at (w_depths w') f depth) (\<lambda>depths.
          Inr (depth, \<lparr>w_state = state, w_depths = depths\<rparr>))))"
      using 3 by (simp add: ix)
    show ?thesis
    proof (cases ?loop)
      case (Inl e)
      with loop obtain c where c: "\<exists>d. e = Diag d" "c \<in> set (edges ! f)"
        "\<not> fs_defined (functions ! c) \<or> bad functions edges ?w c"
        by (auto simp: looped_def)
      have step: "chain edges (Suc k) f g" if "chain edges k c g" for k g
        using c(2) that by (rule chain_step)
      from c(3) have "bad functions edges w f"
      proof
        assume "\<not> fs_defined (functions ! c)"
        then show ?thesis unfolding bad_def using step [OF chain_refl] by blast
      next
        assume "bad functions edges ?w c"
        then obtain k g where g: "chain edges k c g"
          "\<not> fs_defined (functions ! g) \<or> mark_of ?w g = 1 \<or> (\<exists>j>0. chain edges j g g)"
          by (auto simp: bad_def)
        then consider "g = f" | "\<not> fs_defined (functions ! g) \<or> mark_of w g = 1 \<or> (\<exists>j>0. chain edges j g g)"
          using grey by blast
        then show ?thesis
        proof cases
          case 1
          then have "chain edges (Suc k) f f" using step [OF g(1)] by simp
          then show ?thesis unfolding bad_def using chain_refl zero_less_Suc by blast
        next
          case 2
          then show ?thesis unfolding bad_def using step [OF g(1)] by blast
        qed
      qed
      with c(1) show ?thesis unfolding run Inl by (simp add: walked_def)
    next
      case (Inr y)
      obtain d v where y: "y = (d, v)" by (cases y)
      with loop Inr have v: "walk_inv functions edges v" "extends ?w v"
        "\<forall>c\<in>set (edges ! f). fs_defined (functions ! c) \<and> mark_of v c = 2 \<and> 1 + w_depths v ! c \<le> d"
        "d = 0 \<or> (\<exists>c\<in>set (edges ! f). d = 1 + w_depths v ! c)"
        by (auto simp: looped_def)
      have vl: "length (w_state v) = length functions" "length (w_depths v) = length functions"
        using v(1) by (auto simp: walk_inv_def)
      have vf: "mark_of v f = 1" using extendsD(1) [OF v(2), of f] fl grey by simp
      let ?u = "\<lparr>w_state = (w_state v)[f := 2], w_depths = (w_depths v)[f := d]\<rparr>"
      have res: "call_depth (Suc n) functions edges f w = Inr (d, ?u)"
        unfolding run Inr y using f vl by (simp add: set_at_def)
      have "walk_inv functions edges ?u" by (rule finish_inv [OF v(1) f vf v(3,4) edges])
      moreover have "extends w ?u"
      proof -
        have "(mark_of ?u i = 1 \<longleftrightarrow> mark_of w i = 1) \<and> (mark_of ?u i = 0 \<longrightarrow> mark_of w i = 0)
            \<and> (mark_of w i = 2 \<longrightarrow> mark_of ?u i = 2 \<and> w_depths ?u ! i = w_depths w ! i)"
          if "i < length (w_state w)" for i
        proof (cases "i = f")
          case True
          with 3 f vl show ?thesis by simp
        next
          case False
          with that extendsD [OF v(2), of i] show ?thesis by simp
        qed
        then show ?thesis using vl len by (simp add: extends_def)
      qed
      ultimately show ?thesis using f vl unfolding walked_def res by simp
    qed
  qed
qed simp

section \<open>The whole graph\<close>

lemma walk_ends:
  assumes "edges_ok functions edges" and "walk_inv functions edges w" and "f < length functions"
    and "call_depth (Suc (length functions)) functions edges f w = r"
  shows "walked functions edges f w r"
proof -
  have "whites w \<le> card {i. i < length (w_state w)}"
    unfolding whites_def by (rule card_mono) auto
  then have "whites w < Suc (length functions)" using assms(2) by (simp add: walk_inv_def)
  from call_depth_walks [OF assms(1,3,2) this] assms(4) show ?thesis by simp
qed

lemma finished_bounds:
  assumes edges: "edges_ok functions edges" and inv: "walk_inv functions edges w"
    and f: "f < length functions" "mark_of w f = 2" and c: "chain edges k f g"
  shows "k \<le> w_depths w ! f \<and> (fs_defined (functions ! f) \<longrightarrow> fs_defined (functions ! g))"
proof -
  let ?S = "{i. i < length functions \<and> mark_of w i = 2}"
  have step: "c \<in> ?S \<and> w_depths w ! c + 1 \<le> w_depths w ! i \<and> fs_defined (functions ! c)"
    if i: "i \<in> ?S" and c: "c \<in> set (edges ! i)" for i c
  proof -
    from i have "finished_ok functions edges w i" "i < length functions"
      using walk_invD(2) [OF inv] by simp_all
    with c edges_okD [OF edges _ c] show ?thesis unfolding finished_ok_def by blast
  qed
  have "f \<in> ?S" using f by simp
  have "g \<in> ?S \<and> w_depths w ! g + k \<le> w_depths w ! f"
    by (rule chain_bounded [OF c \<open>f \<in> ?S\<close>]) (use step in blast)
  then have "k \<le> w_depths w ! f" by simp
  moreover have "fs_defined (functions ! f) \<longrightarrow> fs_defined (functions ! g)"
    using c \<open>f \<in> ?S\<close>
  proof (induction rule: chain.induct)
    case (chain_step c f k g)
    with step show ?case by blast
  qed simp
  ultimately show ?thesis by simp
qed

text \<open>A walk without functions in state 1 fails only for a reason the specification names.\<close>

lemma bad_not_ok:
  assumes "bad functions edges w f" and "\<forall>i. mark_of w i = 1 \<longrightarrow> \<not> i < length functions"
    and "f < length functions" and "fs_defined (functions ! f)" and "edges_ok functions edges"
  shows "\<not> calls_ok functions edges"
proof
  assume ok: "calls_ok functions edges"
  from assms(1) obtain k g where g: "chain edges k f g"
    "\<not> fs_defined (functions ! g) \<or> mark_of w g = 1 \<or> (\<exists>j>0. chain edges j g g)"
    by (auto simp: bad_def)
  have "g < length functions" by (rule chain_range [OF assms(5) g(1) assms(3)])
  moreover have "fs_defined (functions ! g)" using ok assms(3,4) g(1) by (auto simp: calls_ok_def)
  ultimately obtain j where j: "j > 0" "chain edges j g g" using g(2) assms(2) by blast
  have "chain edges (k + 9 * j) f g" by (rule chain_trans [OF g(1) chain_cycle [OF j(2)]])
  with ok assms(3,4) have "k + 9 * j \<le> 8" unfolding calls_ok_def by blast
  with j(1) show False by simp
qed

text \<open>The loop over the functions: all before \<open>m\<close> are finished, none is in state 1.\<close>

definition validated :: "function_symbol list \<Rightarrow> nat list list \<Rightarrow> nat \<Rightarrow> walk \<Rightarrow> bool" where
  "validated functions edges m w \<longleftrightarrow> walk_inv functions edges w
     \<and> (\<forall>i<length functions. mark_of w i \<noteq> 1)
     \<and> (\<forall>i<m. i < length functions \<and> fs_defined (functions ! i) \<longrightarrow> mark_of w i = 2 \<and> w_depths w ! i \<le> 8)"

lemma validate_one_step:
  assumes edges: "edges_ok (an_functions s) (an_call_edges s)" and m: "m < length (an_functions s)"
    and v: "validated (an_functions s) (an_call_edges s) m w"
  shows "case validate_one s w m of
      Inl e \<Rightarrow> (\<exists>d. e = Diag d) \<and> \<not> calls_ok (an_functions s) (an_call_edges s)
    | Inr w' \<Rightarrow> validated (an_functions s) (an_call_edges s) (Suc m) w'"
proof (cases "fs_defined (an_functions s ! m)")
  case False
  with m v show ?thesis by (auto simp: validate_one_def index_at_def validated_def less_Suc_eq)
next
  case True
  let ?F = "an_functions s" and ?E = "an_call_edges s"
  have inv: "walk_inv ?F ?E w" and grey: "\<forall>i<length ?F. mark_of w i \<noteq> 1"
    using v by (auto simp: validated_def)
  obtain r where r: "call_depth (Suc (length ?F)) ?F ?E m w = r" by simp
  have w: "walked ?F ?E m w r" by (rule walk_ends [OF edges inv m r])
  show ?thesis
  proof (cases r)
    case (Inl e)
    with w have "\<exists>d. e = Diag d" "bad ?F ?E w m" by (auto simp: walked_def)
    moreover have "\<not> calls_ok ?F ?E"
      by (rule bad_not_ok [OF \<open>bad ?F ?E w m\<close> _ m True edges]) (use grey in blast)
    ultimately show ?thesis
      using True m r Inl by (simp add: validate_one_def index_at_def)
  next
    case (Inr y)
    obtain d w' where y: "y = (d, w')" by (cases y)
    with w Inr have w': "walk_inv ?F ?E w'" "extends w w'" "mark_of w' m = 2" "w_depths w' ! m = d"
      by (auto simp: walked_def)
    have len: "length (w_state w) = length ?F" using inv by (simp add: walk_inv_def)
    have run: "validate_one s w m = (if d > 8
       then diag (fs_span (?F ! m)) (''function '' @ quoted (fs_name (?F ! m)) @ '' can exceed WarpVM''
              @ [CHR 0x27] @ ''s eight-entry call stack'') else Inr w')"
      using True m r Inr y by (simp add: validate_one_def index_at_def)
    show ?thesis
    proof (cases "d > 8")
      case True
      have "\<exists>g. chain ?E d m g"
        using walk_invD(2) [OF w'(1) m w'(3)] w'(4) by (simp add: finished_ok_def)
      with True m \<open>fs_defined (?F ! m)\<close> have "\<not> calls_ok ?F ?E"
        unfolding calls_ok_def by (meson not_le)
      with True show ?thesis unfolding run by (simp add: diag_def)
    next
      case False
      have "mark_of w' i = 2 \<and> w_depths w' ! i \<le> 8"
        if "i < Suc m" "i < length ?F" "fs_defined (?F ! i)" for i
      proof (cases "i = m")
        case True
        with w' False show ?thesis by simp
      next
        case neq: False
        with that v have i: "mark_of w i = 2" "w_depths w ! i \<le> 8" by (auto simp: validated_def)
        from extendsD(3,4) [OF w'(2) _ i(1)] that(2) len i(2) show ?thesis by simp
      qed
      moreover have "\<forall>i<length ?F. mark_of w' i \<noteq> 1"
        using extendsD(1) [OF w'(2)] grey len by simp
      ultimately show ?thesis using w'(1) False unfolding run by (simp add: validated_def)
    qed
  qed
qed

lemma validate_loop:
  assumes edges: "edges_ok (an_functions s) (an_call_edges s)" and n: "n = length (an_functions s)"
  shows "m \<le> n \<Longrightarrow> validated (an_functions s) (an_call_edges s) m w \<Longrightarrow>
    case fold_res (validate_one s) w [m..<n] of
      Inl e \<Rightarrow> (\<exists>d. e = Diag d) \<and> \<not> calls_ok (an_functions s) (an_call_edges s)
    | Inr w' \<Rightarrow> validated (an_functions s) (an_call_edges s) n w'"
proof (induction "n - m" arbitrary: m w)
  case (Suc k)
  have m: "m < length (an_functions s)" and split: "[m..<n] = m # [Suc m..<n]"
    using Suc.hyps(2) n by (simp_all add: upt_conv_Cons)
  note one = validate_one_step [OF edges m Suc.prems(2)]
  show ?case
  proof (cases "validate_one s w m")
    case (Inl e)
    with one show ?thesis unfolding split by simp
  next
    case (Inr w')
    with one have "validated (an_functions s) (an_call_edges s) (Suc m) w'" by simp
    with Suc.hyps(1) [of "Suc m" w'] Suc.hyps(2) Inr show ?thesis unfolding split by simp
  qed
qed simp

lemma validated_start:
  "validated functions edges 0
     \<lparr>w_state = replicate (length functions) 0, w_depths = replicate (length functions) 0\<rparr>"
  by (simp add: validated_def walk_inv_def)

lemma validated_calls_ok:
  assumes "edges_ok functions edges" and "validated functions edges (length functions) w"
  shows "calls_ok functions edges"
  unfolding calls_ok_def
proof (intro allI impI)
  fix f k g
  assume f: "f < length functions \<and> fs_defined (functions ! f) \<and> chain edges k f g"
  with assms(2) have "mark_of w f = 2" "w_depths w ! f \<le> 8" "walk_inv functions edges w"
    by (auto simp: validated_def)
  with finished_bounds [OF assms(1), of w f k g] f show "k \<le> 8 \<and> fs_defined (functions ! g)"
    by auto
qed

section \<open>Properties\<close>

lemma validate_call_graph_cases:
  assumes "edges_ok (an_functions s) (an_call_edges s)"
  shows "validate_call_graph s = Inr () \<and> calls_ok (an_functions s) (an_call_edges s)
    \<or> (\<exists>d. validate_call_graph s = Inl (Diag d)) \<and> \<not> calls_ok (an_functions s) (an_call_edges s)"
proof -
  let ?n = "length (an_functions s)"
  let ?r = "fold_res (validate_one s) \<lparr>w_state = replicate ?n 0, w_depths = replicate ?n 0\<rparr> [0..<?n]"
  have "case ?r of
      Inl e \<Rightarrow> (\<exists>d. e = Diag d) \<and> \<not> calls_ok (an_functions s) (an_call_edges s)
    | Inr w' \<Rightarrow> validated (an_functions s) (an_call_edges s) ?n w'"
    by (rule validate_loop [OF assms refl _ validated_start]) simp
  then show ?thesis
    using validated_calls_ok [OF assms]
    by (cases ?r) (auto simp: validate_call_graph_def Let_def)
qed

text \<open>
  C24. The check of the call graph accepts a program exactly when every chain of calls from a
  defined function has at most eight calls and ends in a defined function; it rejects all
  others, recursive ones among them, with a diagnostic. The walk needs no more recursion than
  one level for each function, which is the bound of the model.
\<close>

theorem call_graph_decided:
  assumes "edges_ok (an_functions s) (an_call_edges s)"
  shows "validate_call_graph s = Inr () \<and> calls_ok (an_functions s) (an_call_edges s)
    \<or> (\<exists>d. validate_call_graph s = Inl (Diag d)) \<and> \<not> calls_ok (an_functions s) (an_call_edges s)"
  by (rule validate_call_graph_cases [OF assms])

definition sample_symbol :: "string \<Rightarrow> function_symbol" where
  "sample_symbol name =
     \<lparr>fs_name = name, fs_return_type = T_I32, fs_params = [], fs_param_shapes = [],
      fs_param_names = [], fs_param_spans = [], fs_return_shape = Shape_Warp,
      fs_defined = True, fs_span = span_new 0 1 1\<rparr>"

definition sample_calls :: analyzer where
  "sample_calls = analyzer_new\<lparr>an_functions := map sample_symbol [''a'', ''b'', ''main''],
     an_call_edges := [[], [0], [0, 1]]\<rparr>"

lemma sample_calls_pass: "validate_call_graph sample_calls = Inr ()"
  by code_simp

lemma call_graph_decided_witness:
  "edges_ok (an_functions sample_calls) (an_call_edges sample_calls)
   \<and> calls_ok (an_functions sample_calls) (an_call_edges sample_calls)"
proof -
  have ok: "edges_ok (an_functions sample_calls) (an_call_edges sample_calls)"
    by (simp add: sample_calls_def edges_ok_def)
  from call_graph_decided [OF ok] ok sample_calls_pass show ?thesis by auto
qed

end
