(* ===== verification/Layout_Facts.thy ===== *)
theory Layout_Facts
  imports Sema_Layout
begin

text \<open>
  Where declarations are placed: the fields of a structure tile it, globals lie behind each
  other inside the machine's memory and hold their initial values. The passes over the
  declarations keep this, a later one never moving what an earlier one placed.
\<close>

section \<open>Sizes\<close>

lemma mul_usize_Inr: "mul_usize a b = Inr k \<longleftrightarrow> k = a * b \<and> a * b < 2 ^ 64"
  by (auto simp: mul_usize_def)

lemma add_usize_Inr: "add_usize a b = Inr k \<longleftrightarrow> k = a + b \<and> a + b < 2 ^ 64"
  by (auto simp: add_usize_def)

lemma index_at_Inr: "index_at xs i = Inr x \<longleftrightarrow> i < length xs \<and> x = xs ! i"
  by (auto simp: index_at_def)

lemma set_at_Inr: "set_at xs i x = Inr ys \<longleftrightarrow> i < length xs \<and> ys = xs[i := x]"
  by (auto simp: set_at_def)

lemma map_at_Inr: "map_at m k = Inr v \<longleftrightarrow> m k = Some v"
  by (auto simp: map_at_def split: option.split)

lemma unwrap_Inr: "unwrap x = Inr v \<longleftrightarrow> x = Some v"
  by (auto simp: unwrap_def split: option.split)

lemmas access_Inr = mul_usize_Inr add_usize_Inr index_at_Inr set_at_Inr map_at_Inr unwrap_Inr

text \<open>A positive size does not depend on a structure of size zero.\<close>

lemma element_size_update:
  assumes "element_size t S = Inr k" and "0 < k" and "si_size (S ! i) = 0"
  shows "element_size t (S[i := x]) = Inr k"
proof -
  have "S[i := x] ! j = S ! j" if "0 < si_size (S ! j)" for j
    using that assms(3) by (cases "i = j") simp_all
  with assms show ?thesis
    by (auto simp: element_size_def res_simps access_Inr split: if_splits base_type.splits)
qed

lemma type_size_update:
  assumes "type_size t S = Inr k" and "0 < k" and "si_size (S ! i) = 0"
  shows "type_size t (S[i := x]) = Inr k"
proof (cases "ty_array_len t")
  case None
  with assms show ?thesis by (simp add: type_size_def element_size_update)
next
  case (Some n)
  with assms(1) obtain e where e: "element_size t S = Inr e" "mul_usize n e = Inr k"
    by (auto simp: type_size_def res_simps)
  with assms(2) have "0 < e" by (auto simp: mul_usize_Inr)
  with Some e assms(3) show ?thesis by (simp add: type_size_def element_size_update)
qed

section \<open>Structures\<close>

text \<open>The fields lie one behind the other, without gaps, from \<open>from\<close> to \<open>to\<close>.\<close>

fun tiles :: "struct_info list \<Rightarrow> nat \<Rightarrow> field_info list \<Rightarrow> nat \<Rightarrow> bool" where
  "tiles S from [] to \<longleftrightarrow> from = to"
| "tiles S from (f # fs) to \<longleftrightarrow> fi_offset f = from
     \<and> (\<exists>k>0. type_size (fi_ty f) S = Inr k \<and> tiles S (from + k) fs to)"

definition laid_out :: "struct_info list \<Rightarrow> struct_info \<Rightarrow> bool" where
  "laid_out S info \<longleftrightarrow> si_fields info \<noteq> [] \<and> distinct (map fi_name (si_fields info))
     \<and> tiles S 0 (si_fields info) (si_size info)"

lemma tiles_append: "tiles S from (fs @ gs) to \<longleftrightarrow> (\<exists>m. tiles S from fs m \<and> tiles S m gs to)"
  by (induction fs arbitrary: "from") auto

lemma tiles_update:
  assumes "si_size (S ! i) = 0"
  shows "tiles S from fs to \<Longrightarrow> tiles (S[i := x]) from fs to"
  by (induction fs arbitrary: "from") (auto intro: type_size_update [OF _ _ assms])

lemma tiles_le: "tiles S from fs to \<Longrightarrow> from \<le> to"
  by (induction fs arbitrary: "from") fastforce+

text \<open>The fields of one structure.\<close>

definition fields_ok :: "struct_info list \<Rightarrow> field_decl list \<Rightarrow> layout_state \<Rightarrow> bool" where
  "fields_ok S decls st \<longleftrightarrow>
     (case st of (fds, names, offset) \<Rightarrow>
        tiles S 0 fds offset \<and> distinct (map fi_name fds) \<and> names = set (map fi_name fds)
        \<and> map (\<lambda>d. dc_name (dt_declarator (fd_ty d))) decls = map (Some \<circ> fi_name) fds)"

lemma layout_field_ok:
  assumes "fields_ok (an_structs s) decls st" and "layout_field s i st d = Inr st'"
  shows "fields_ok (an_structs s) (decls @ [d]) st'"
proof -
  obtain fds names offset where st: "st = (fds, names, offset)" by (cases st)
  from assms(2) obtain name ty size where
    name: "dc_name (dt_declarator (fd_ty d)) = Some name" "name \<notin> names"
    and size: "type_size ty (an_structs s) = Inr size" "size \<noteq> 0"
    and st': "st' = (fds @ [\<lparr>fi_name = name, fi_ty = ty, fi_offset = offset, fi_span = fd_span d\<rparr>],
      insert name names, offset + size)"
    by (auto simp: st layout_field_def Let_def res_simps access_Inr split: if_splits)
  from assms(1) name size show ?thesis
    by (auto simp: st st' fields_ok_def tiles_append)
qed

lemma layout_fields_ok:
  assumes "fold_res (layout_field s i) st ds = Inr st'" and "fields_ok (an_structs s) decls st"
  shows "fields_ok (an_structs s) (decls @ ds) st'"
  using assms
proof (induction ds arbitrary: st decls)
  case (Cons d ds)
  from Cons.prems(1) obtain u where u: "layout_field s i st d = Inr u"
    "fold_res (layout_field s i) u ds = Inr st'"
    by (auto simp: res_simps)
  from Cons.IH [OF u(2) layout_field_ok [OF Cons.prems(2) u(1)]] show ?case by simp
qed simp

text \<open>Names of structures are their positions.\<close>

definition names_ok :: "struct_decl list \<Rightarrow> analyzer \<Rightarrow> bool" where
  "names_ok ds s \<longleftrightarrow> length (an_structs s) = length ds
     \<and> (\<forall>i<length ds. an_struct_ids s (sd_name (ds ! i)) = Some i
          \<and> si_name (an_structs s ! i) = sd_name (ds ! i))"

lemma register_struct_name_ok:
  assumes "names_ok ds s" and "register_struct_name s d = Inr s'"
  shows "names_ok (ds @ [d]) s'" "an_structs s' = an_structs s @
      [\<lparr>si_name = sd_name d, si_fields = [], si_size = 0, si_span = sd_span d\<rparr>]"
proof -
  from assms(2) have new: "an_struct_ids s (sd_name d) = None"
    and s': "s' = s\<lparr>an_struct_ids := (an_struct_ids s)(sd_name d \<mapsto> length (an_structs s)),
      an_structs := an_structs s @
        [\<lparr>si_name = sd_name d, si_fields = [], si_size = 0, si_span = sd_span d\<rparr>]\<rparr>"
    by (auto simp: register_struct_name_def split: if_splits)
  then show "an_structs s' = an_structs s @
      [\<lparr>si_name = sd_name d, si_fields = [], si_size = 0, si_span = sd_span d\<rparr>]" by simp
  from assms(1) new show "names_ok (ds @ [d]) s'"
    by (auto simp: names_ok_def s' nth_append less_Suc_eq)
qed

lemma register_struct_names_ok:
  assumes "register_struct_names s ds = Inr s'" and "names_ok pre s"
    and "\<forall>info\<in>set (an_structs s). si_size info = 0"
  shows "names_ok (pre @ ds) s' \<and> (\<forall>info\<in>set (an_structs s'). si_size info = 0)"
  using assms
proof (induction ds arbitrary: s pre)
  case (Cons d ds)
  from Cons.prems(1) obtain t where t: "register_struct_name s d = Inr t"
    "register_struct_names t ds = Inr s'"
    by (auto simp: register_struct_names_def res_simps)
  note one = register_struct_name_ok [OF Cons.prems(2) t(1)]
  have "\<forall>info\<in>set (an_structs t). si_size info = 0"
    using Cons.prems(3) by (simp add: one(2))
  from Cons.IH [OF t(2) one(1) this] show ?case by simp
qed (simp add: register_struct_names_def)

text \<open>The structures up to \<open>m\<close> are laid out, the others have no size yet.\<close>

definition layouts_ok :: "struct_decl list \<Rightarrow> nat \<Rightarrow> analyzer \<Rightarrow> bool" where
  "layouts_ok ds m s \<longleftrightarrow> names_ok ds s
     \<and> (\<forall>i<length ds. if i < m
          then laid_out (an_structs s) (an_structs s ! i)
            \<and> map (\<lambda>d. dc_name (dt_declarator (fd_ty d))) (sd_fields (ds ! i))
              = map (Some \<circ> fi_name) (si_fields (an_structs s ! i))
          else si_size (an_structs s ! i) = 0)"

lemma layout_struct_ok:
  assumes "layouts_ok ds m s" and "m < length ds" and "layout_struct s (ds ! m) = Inr s'"
  shows "layouts_ok ds (Suc m) s'"
proof -
  let ?S = "an_structs s"
  have m: "an_struct_ids s (sd_name (ds ! m)) = Some m" "length ?S = length ds"
    using assms(1,2) by (auto simp: layouts_ok_def names_ok_def)
  have zero: "si_size (?S ! m) = 0" using assms(1,2) by (auto simp: layouts_ok_def)
  from assms(3) m obtain fds names offset where
    run: "fold_res (layout_field s m) ([], {}, 0) (sd_fields (ds ! m)) = Inr (fds, names, offset)"
    and fds: "fds \<noteq> []"
    and s': "s' = s\<lparr>an_structs := ?S[m := (?S ! m)\<lparr>si_fields := fds, si_size := offset\<rparr>]\<rparr>"
    by (auto simp: layout_struct_def res_simps access_Inr split: if_splits)
  have "fields_ok ?S [] ([], {}, 0)" by (simp add: fields_ok_def)
  from layout_fields_ok [OF run this] have ok: "tiles ?S 0 fds offset"
    "distinct (map fi_name fds)"
    "map (\<lambda>d. dc_name (dt_declarator (fd_ty d))) (sd_fields (ds ! m)) = map (Some \<circ> fi_name) fds"
    by (auto simp: fields_ok_def)
  have keep: "laid_out ?S info \<Longrightarrow> laid_out (an_structs s') info" for info
    by (simp add: laid_out_def s' tiles_update [OF zero])
  have new: "laid_out (an_structs s') (an_structs s' ! m)"
    using ok(1,2) fds m(2) assms(2) by (simp add: laid_out_def s' tiles_update [OF zero])
  have "si_name (an_structs s' ! i) = si_name (?S ! i)" for i
    using m(2) assms(2) by (cases "i = m") (simp_all add: s')
  then have "names_ok ds s'"
    using assms(1) unfolding layouts_ok_def names_ok_def by (simp add: s')
  moreover have "if i < Suc m
      then laid_out (an_structs s') (an_structs s' ! i)
        \<and> map (\<lambda>d. dc_name (dt_declarator (fd_ty d))) (sd_fields (ds ! i))
          = map (Some \<circ> fi_name) (si_fields (an_structs s' ! i))
      else si_size (an_structs s' ! i) = 0" if i: "i < length ds" for i
  proof (cases "i = m")
    case True
    with new ok(3) m(2) i show ?thesis by (simp add: s')
  next
    case False
    then have same: "an_structs s' ! i = ?S ! i" by (simp add: s')
    from assms(1) i False keep show ?thesis unfolding same layouts_ok_def by auto
  qed
  ultimately show ?thesis by (simp add: layouts_ok_def)
qed

lemma layout_structs_ok:
  assumes "layout_structs s (drop m ds) = Inr s'" and "layouts_ok ds m s" and "m \<le> length ds"
  shows "layouts_ok ds (length ds) s'"
  using assms
proof (induction "length ds - m" arbitrary: m s)
  case 0
  then show ?case by (simp add: layout_structs_def)
next
  case (Suc k)
  then have m: "m < length ds" by simp
  then have "drop m ds = ds ! m # drop (Suc m) ds" by (simp add: Cons_nth_drop_Suc)
  with Suc.prems(1) obtain t where t: "layout_struct s (ds ! m) = Inr t"
    "layout_structs t (drop (Suc m) ds) = Inr s'"
    by (auto simp: layout_structs_def res_simps)
  from Suc.hyps(1) [OF _ t(2) layout_struct_ok [OF Suc.prems(2) m t(1)]] Suc.hyps(2) m
  show ?case by simp
qed

lemma names_ok_start: "names_ok [] analyzer_new"
  by (simp add: names_ok_def analyzer_new_def)

lemma layouts_start:
  assumes "register_struct_names analyzer_new ds = Inr s"
  shows "layouts_ok ds 0 s"
  using register_struct_names_ok [OF assms names_ok_start]
  by (auto simp: layouts_ok_def names_ok_def analyzer_new_def)

section \<open>Globals\<close>

text \<open>The words of a global hold its initial value: zeros without one, the text of a character
  array followed by zeros, the address of a text for a character pointer, or the value of the
  constant expression.\<close>

definition holds_init :: "u32 list \<Rightarrow> ctype \<Rightarrow> expr option \<Rightarrow> u32 list \<Rightarrow> bool" where
  "holds_init data ty init words \<longleftrightarrow>
     (case init of
        None \<Rightarrow> words = replicate (length words) 0
      | Some e \<Rightarrow>
          (case init_words init of
             Some ws \<Rightarrow>
               if is_array ty
               then length ws \<le> length words \<and> words = ws @ replicate (length words - length ws) 0
               else \<exists>a. words = [of_nat a] \<and> a + length ws \<le> length data
                      \<and> take (length ws) (drop a data) = ws
           | None \<Rightarrow> \<exists>v. constant_ast e = Inr v \<and> words = [v]))"

definition global_placed :: "struct_info list \<Rightarrow> u32 list \<Rightarrow> global \<Rightarrow> global_info \<Rightarrow> nat \<Rightarrow> bool" where
  "global_placed S data decl g k \<longleftrightarrow>
     Some (gi_name g) = dc_name (dt_declarator (g_ty decl))
     \<and> type_size (gi_ty g) S = Inr k \<and> gi_address g + k \<le> RAM_SIZE_WORDS
     \<and> gi_address g + k \<le> length data
     \<and> holds_init data (gi_ty g) (g_init decl) (take k (drop (gi_address g) data))"

text \<open>The globals of the declarations, each behind the one before it.\<close>

fun globals_placed :: "struct_info list \<Rightarrow> u32 list \<Rightarrow> nat \<Rightarrow> global list \<Rightarrow> global_info list \<Rightarrow> bool" where
  "globals_placed S data from [] [] \<longleftrightarrow> from \<le> length data"
| "globals_placed S data from (d # ds) (g # gs) \<longleftrightarrow> from \<le> gi_address g
     \<and> (\<exists>k. global_placed S data d g k \<and> globals_placed S data (gi_address g + k) ds gs)"
| "globals_placed S data from _ _ \<longleftrightarrow> False"

text \<open>Appended words move nothing.\<close>

lemma holds_init_append: "holds_init data ty init words \<Longrightarrow> holds_init (data @ ext) ty init words"
  by (fastforce simp: holds_init_def split: option.splits if_splits)

lemma global_placed_append:
  "global_placed S data d g k \<Longrightarrow> global_placed S (data @ ext) d g k"
  by (auto simp: global_placed_def intro: holds_init_append)

lemma globals_placed_append:
  "globals_placed S data from ds gs \<Longrightarrow> globals_placed S (data @ ext) from ds gs"
  by (induction S data "from" ds gs rule: globals_placed.induct) (auto intro: global_placed_append)

lemma globals_placed_snoc:
  assumes "globals_placed S data from ds gs" and "length data \<le> gi_address g"
    and "global_placed S (data @ ext) d g k" and "gi_address g + k \<le> length (data @ ext)"
  shows "globals_placed S (data @ ext) from (ds @ [d]) (gs @ [g])"
  using assms
  by (induction S data "from" ds gs rule: globals_placed.induct) (auto intro: global_placed_append)

text \<open>A single word, and a run of words, written into the words of a new global.\<close>

lemma take_drop_append: "k = length ys \<Longrightarrow> take k (drop (length xs) (xs @ ys @ zs)) = ys"
  by simp

lemma element_size_scalar:
  assumes "is_integer ty \<or> is_pointer ty"
  shows "type_size ty S = Inr 1"
  using assms
  by (auto simp: is_integer_def is_pointer_def type_size_def element_size_def split: base_type.splits)

lemma char_array_size:
  "ty_base ty = BT_Char \<Longrightarrow> ty_pointers ty = 0 \<Longrightarrow> ty_array_len ty = Some n \<Longrightarrow>
   type_size ty S = Inr k \<Longrightarrow> k = n"
  by (auto simp: type_size_def element_size_def mul_usize_Inr)

lemma init_global_ok:
  assumes "init_global (s\<lparr>an_data_words := data @ replicate k 0\<rparr>) ty (length data) e = Inr s'"
    and "type_size ty S = Inr k"
  shows "\<exists>words ext. length words = k \<and> s' = s\<lparr>an_data_words := data @ words @ ext\<rparr>
    \<and> holds_init (data @ words @ ext) ty (Some e) words"
proof (cases "ty_array_len ty")
  case (Some n)
  with assms(1) obtain ws where ws: "init_words (Some e) = Some ws" "ty_base ty = BT_Char"
    "ty_pointers ty = 0" "length ws \<le> n"
    and run: "rbind (copy_words (data @ replicate k 0) (length data) ws) (\<lambda>d.
        Inr (s\<lparr>an_data_words := d\<rparr>)) = Inr s'"
    by (auto simp: init_global_def split: option.splits if_splits)
  have k: "k = n" by (rule char_array_size [OF ws(2,3) Some assms(2)])
  let ?words = "ws @ replicate (k - length ws) 0"
  have "s' = s\<lparr>an_data_words := data @ ?words @ []\<rparr>"
    using run ws(4) k by (auto simp: copy_words_def split: if_splits)
  moreover have "holds_init (data @ ?words @ []) ty (Some e) ?words"
    using ws Some by (simp add: holds_init_def is_array_def)
  moreover have "length ?words = k" using ws(4) k by simp
  ultimately show ?thesis by blast
next
  case None
  show ?thesis
  proof (cases "init_words (Some e) \<noteq> None \<and> is_pointer ty \<and> ty_base ty = BT_Char \<and> ty_pointers ty = 1")
    case True
    then obtain ws where ws: "init_words (Some e) = Some ws" by blast
    have k: "k = 1" using element_size_scalar [of ty S] True assms(2) by simp
    let ?words = "[of_nat (length data + 1)] :: u32 list"
    have "s' = s\<lparr>an_data_words := data @ ?words @ ws\<rparr>"
      using assms(1) None True ws k
      by (auto simp: init_global_def allocate_words_def set_at_def list_update_append)
    moreover have "holds_init (data @ ?words @ ws) ty (Some e) ?words"
      using ws None by (auto simp: holds_init_def is_array_def intro!: exI [of _ "length data + 1"])
    ultimately show ?thesis using k by (intro exI [of _ ?words] exI [of _ ws]) simp
  next
    case False
    with assms(1) None obtain v where v: "constant_ast e = Inr v" "is_integer ty \<or> is_pointer ty"
      and run: "set_at (data @ replicate k 0) (length data) v = Inr (an_data_words s')"
        "s' = s\<lparr>an_data_words := an_data_words s'\<rparr>"
      by (auto simp: init_global_def res_simps split: if_splits)
    have k: "k = 1" using element_size_scalar [OF v(2), of S] assms(2) by simp
    have "init_words (Some e) = None"
      using v(1) by (cases e; cases "e_kind e") (auto simp: init_words_def not_constant_def)
    then have "holds_init (data @ [v] @ []) ty (Some e) [v]"
      using v(1) by (simp add: holds_init_def)
    moreover have "s' = s\<lparr>an_data_words := data @ [v] @ []\<rparr>"
      using run k by (auto simp: set_at_def list_update_append)
    ultimately show ?thesis using k by (intro exI [of _ "[v]"] exI [of _ "[]"]) simp
  qed
qed

lemma register_global_ok:
  assumes "register_global s d = Inr s'"
    and "globals_placed (an_structs s) (an_data_words s) 0 ds (an_globals s)"
  shows "an_structs s' = an_structs s
    \<and> globals_placed (an_structs s') (an_data_words s') 0 (ds @ [d]) (an_globals s')"
proof -
  let ?S = "an_structs s" and ?data = "an_data_words s"
  from assms(1) obtain name ty k t where name: "dc_name (dt_declarator (g_ty d)) = Some name"
    and k: "type_size ty ?S = Inr k" "length ?data + k \<le> RAM_SIZE_WORDS"
    and t: "(let s = s\<lparr>an_data_words := ?data @ replicate k 0\<rparr> in
        case g_init d of None \<Rightarrow> Inr s | Some e \<Rightarrow> init_global s ty (length ?data) e) = Inr t"
    and s': "s' = t\<lparr>an_global_ids := (an_global_ids t)(name \<mapsto> length (an_globals t)),
      an_globals := an_globals t @
        [\<lparr>gi_name = name, gi_ty = ty, gi_address = length ?data, gi_span = g_span d\<rparr>]\<rparr>"
    by (auto simp: register_global_def Let_def res_simps access_Inr split: if_splits)
  have "\<exists>words ext. length words = k \<and> t = s\<lparr>an_data_words := ?data @ words @ ext\<rparr>
      \<and> holds_init (?data @ words @ ext) ty (g_init d) words"
  proof (cases "g_init d")
    case None
    with t show ?thesis
      by (intro exI [of _ "replicate k 0"] exI [of _ "[]"]) (simp add: holds_init_def)
  next
    case (Some e)
    with t have "init_global (s\<lparr>an_data_words := ?data @ replicate k 0\<rparr>) ty (length ?data) e = Inr t"
      by (simp add: Let_def)
    from init_global_ok [OF this k(1)] Some show ?thesis by simp
  qed
  then obtain words ext where w: "length words = k" "t = s\<lparr>an_data_words := ?data @ words @ ext\<rparr>"
    "holds_init (?data @ words @ ext) ty (g_init d) words" by blast
  let ?g = "\<lparr>gi_name = name, gi_ty = ty, gi_address = length ?data, gi_span = g_span d\<rparr>"
  have "global_placed ?S (?data @ words @ ext) d ?g k"
    using name k w by (simp add: global_placed_def)
  with assms(2) w show ?thesis
    using globals_placed_snoc [of ?S ?data 0 ds "an_globals s" ?g "words @ ext" d k]
    by (simp add: s')
qed

lemma register_globals_ok:
  assumes "fold_res register_global s gs = Inr s'"
    and "globals_placed (an_structs s) (an_data_words s) 0 ds (an_globals s)"
  shows "an_structs s' = an_structs s
    \<and> globals_placed (an_structs s') (an_data_words s') 0 (ds @ gs) (an_globals s')"
  using assms
proof (induction gs arbitrary: s ds)
  case (Cons g gs)
  from Cons.prems(1) obtain t where t: "register_global s g = Inr t"
    "fold_res register_global t gs = Inr s'" by (auto simp: res_simps)
  from register_global_ok [OF t(1) Cons.prems(2)]
  have one: "an_structs t = an_structs s"
    "globals_placed (an_structs t) (an_data_words t) 0 (ds @ [g]) (an_globals t)" by auto
  from Cons.IH [OF t(2) one(2)] one(1) show ?case by auto
qed simp

text \<open>What the passes leave alone.\<close>

lemma register_function_frame:
  assumes "register_function s f = Inr s'"
  shows "an_structs s' = an_structs s \<and> an_data_words s' = an_data_words s
    \<and> an_globals s' = an_globals s"
  using assms
  by (auto simp: register_function_def Let_def res_simps split: if_splits option.splits)

lemma register_functions_frame:
  "fold_res register_function s fs = Inr s' \<Longrightarrow> an_structs s' = an_structs s
    \<and> an_data_words s' = an_data_words s \<and> an_globals s' = an_globals s"
  by (induction fs arbitrary: s) (auto simp: res_simps dest!: register_function_frame)

lemma layout_struct_frame:
  "layout_struct s d = Inr s' \<Longrightarrow> an_data_words s' = an_data_words s \<and> an_globals s' = an_globals s"
  by (auto simp: layout_struct_def res_simps split: if_splits prod.splits)

lemma register_struct_name_frame:
  "register_struct_name s d = Inr s' \<Longrightarrow>
   an_data_words s' = an_data_words s \<and> an_globals s' = an_globals s"
  by (auto simp: register_struct_name_def split: if_splits)

lemma fold_res_frame:
  assumes "\<And>s x t. f s x = Inr t \<Longrightarrow> g t = g s" and "fold_res f s xs = Inr t"
  shows "g t = g s"
  using assms(2) by (induction xs arbitrary: s) (auto simp: res_simps dest: assms(1))

lemma structs_frame:
  assumes "register_struct_names analyzer_new ds = Inr s" and "layout_structs s ds = Inr t"
  shows "an_data_words t = [] \<and> an_globals t = []"
proof -
  have "(an_data_words t, an_globals t) = (an_data_words s, an_globals s)"
    using assms(2) unfolding layout_structs_def
    by (rule fold_res_frame [rotated, where g = "\<lambda>s. (an_data_words s, an_globals s)"])
      (simp add: layout_struct_frame)
  also have "\<dots> = (an_data_words analyzer_new, an_globals analyzer_new)"
    using assms(1) unfolding register_struct_names_def
    by (rule fold_res_frame [rotated, where g = "\<lambda>s. (an_data_words s, an_globals s)"])
      (simp add: register_struct_name_frame)
  finally show ?thesis by (simp add: analyzer_new_def)
qed

lemma register_declarations_parts:
  assumes "register_declarations p = Inr s"
  obtains t u v where "register_struct_names analyzer_new (pr_structs p) = Inr t"
    "layout_structs t (pr_structs p) = Inr u" "fold_res register_global u (pr_globals p) = Inr v"
    "fold_res register_function v (pr_functions p) = Inr s"
  using assms by (auto simp: register_declarations_def res_simps)

section \<open>Properties\<close>

text \<open>
  C25. In an accepted program the fields of every structure are the declared ones with different
  names and tile the structure: each begins where the one before it ends, the last ends at the
  size of the structure, and all sizes are those of the final table. So no field overlaps
  another and no structure contains itself.
\<close>

theorem struct_fields_tile:
  assumes "register_declarations p = Inr s" and "i < length (pr_structs p)"
  shows "laid_out (an_structs s) (an_structs s ! i)
    \<and> si_name (an_structs s ! i) = sd_name (pr_structs p ! i)
    \<and> map (\<lambda>d. dc_name (dt_declarator (fd_ty d))) (sd_fields (pr_structs p ! i))
      = map (Some \<circ> fi_name) (si_fields (an_structs s ! i))"
proof -
  obtain t u v where parts: "register_struct_names analyzer_new (pr_structs p) = Inr t"
    "layout_structs t (pr_structs p) = Inr u" "fold_res register_global u (pr_globals p) = Inr v"
    "fold_res register_function v (pr_functions p) = Inr s"
    using assms(1) by (rule register_declarations_parts)
  have "layouts_ok (pr_structs p) (length (pr_structs p)) u"
    using layout_structs_ok [of t 0 "pr_structs p" u] parts(2) layouts_start [OF parts(1)] by simp
  moreover have "globals_placed (an_structs u) (an_data_words u) 0 [] (an_globals u)"
    using structs_frame [OF parts(1,2)] by simp
  then have "an_structs v = an_structs u" using register_globals_ok [OF parts(3)] by simp
  moreover have "an_structs s = an_structs v" using register_functions_frame [OF parts(4)] by simp
  ultimately show ?thesis using assms(2) by (simp add: layouts_ok_def names_ok_def)
qed

text \<open>
  C26. In an accepted program the globals lie behind each other in the declared order, inside
  the 65,536 words of memory and inside the program's data words, and their words hold what
  they are initialised with: zeros, the text of a character array padded with zeros, the
  address of a text that is in the data words, or the value of the constant expression.
\<close>

theorem globals_hold_their_values:
  assumes "register_declarations p = Inr s"
  shows "globals_placed (an_structs s) (an_data_words s) 0 (pr_globals p) (an_globals s)"
proof -
  obtain t u v where parts: "register_struct_names analyzer_new (pr_structs p) = Inr t"
    "layout_structs t (pr_structs p) = Inr u" "fold_res register_global u (pr_globals p) = Inr v"
    "fold_res register_function v (pr_functions p) = Inr s"
    using assms by (rule register_declarations_parts)
  have "globals_placed (an_structs u) (an_data_words u) 0 [] (an_globals u)"
    using structs_frame [OF parts(1,2)] by simp
  from register_globals_ok [OF parts(3) this] register_functions_frame [OF parts(4)]
  show ?thesis by auto
qed

text \<open>A program with a structure of two fields, one an array, and three globals.\<close>

definition sample_span :: span where
  "sample_span = span_new 0 1 1"

definition sample_decl :: "type_name \<Rightarrow> string \<Rightarrow> nat \<Rightarrow> string option \<Rightarrow> decl_type" where
  "sample_decl base name pointers len = DeclType False base (Declarator (Some name) pointers
     (map_option (\<lambda>n. Some (Expr (E_Number n) sample_span)) len) sample_span)"

definition sample_program :: program where
  "sample_program =
     \<lparr>pr_structs = [\<lparr>sd_name = ''pair'',
        sd_fields = [\<lparr>fd_ty = sample_decl TN_Int ''a'' 0 (Some ''3''), fd_span = sample_span\<rparr>,
                     \<lparr>fd_ty = sample_decl (TN_Struct ''pair'') ''next'' 1 None, fd_span = sample_span\<rparr>],
        sd_span = sample_span\<rparr>],
      pr_globals = [\<lparr>g_ty = sample_decl (TN_Struct ''pair'') ''p'' 0 None, g_init = None, g_span = sample_span\<rparr>,
                    \<lparr>g_ty = sample_decl TN_Char ''s'' 1 None,
                     g_init = Some (Expr (E_String [104, 105, 0]) sample_span), g_span = sample_span\<rparr>,
                    \<lparr>g_ty = sample_decl TN_Int ''x'' 0 None,
                     g_init = Some (Expr (E_Number ''7'') sample_span), g_span = sample_span\<rparr>],
      pr_functions = []\<rparr>"

definition sample_analyzer :: analyzer where
  "sample_analyzer =
     (case register_declarations sample_program of Inr s \<Rightarrow> s | Inl _ \<Rightarrow> analyzer_new)"

lemma sample_number: "parse_integer ''3'' sp = Inr (3, T_I32)" "parse_integer ''7'' sp = Inr (7, T_I32)"
  by (simp_all add: parse_integer_def split_radix_def or_else_def strip_suffix_char_def
      strip_prefix_def ends_alphabetic_def is_ascii_alphabetic_def is_ascii_upper_def
      is_ascii_lower_def parse_unsigned_def to_digit_def)

lemmas sample_run = register_declarations_def sample_program_def register_struct_names_def
  register_struct_name_def layout_structs_def layout_struct_def layout_field_def sample_decl_def
  lower_decl_type_def lower_base_def lower_array_len_def register_global_def init_global_def
  init_words_def allocate_words_def type_size_def element_size_def mul_usize_def add_usize_def
  set_at_def index_at_def map_at_def unwrap_def is_void_def is_integer_def is_pointer_def T_VOID_def
  scalar_type_def RAM_SIZE_WORDS_def analyzer_new_def reject_warp_declaration_def sample_number

lemma sample_registers: "register_declarations sample_program = Inr sample_analyzer"
proof -
  have "\<not> isl (register_declarations sample_program)" by (simp add: sample_run)
  then show ?thesis
    by (cases "register_declarations sample_program") (simp_all add: sample_analyzer_def)
qed

lemma struct_fields_tile_witness:
  "laid_out (an_structs sample_analyzer) (an_structs sample_analyzer ! 0)
   \<and> si_name (an_structs sample_analyzer ! 0) = ''pair''"
  using struct_fields_tile [OF sample_registers, of 0] by (simp add: sample_program_def)

lemma globals_hold_their_values_witness:
  "globals_placed (an_structs sample_analyzer) (an_data_words sample_analyzer) 0
     (pr_globals sample_program) (an_globals sample_analyzer)
   \<and> an_data_words sample_analyzer = [0, 0, 0, 0, 5, 104, 105, 0, 7]"
proof
  show "an_data_words sample_analyzer = [0, 0, 0, 0, 5, 104, 105, 0, 7]"
    by (simp add: sample_analyzer_def sample_run, simp add: numeral_eq_Suc)
qed (rule globals_hold_their_values [OF sample_registers])

end
