(* ===== verification/Sema_Expr.thy ===== *)
theory Sema_Expr
  imports Sema_Calls
begin

text \<open>
  Typing and uniformity of expressions (\<open>tools/warpc/src/sema.rs\<close>). \<open>te_expr\<close> is the method
  \<open>expr\<close>; each form of expression has a definition that finishes it once its operands are
  typed (\<open>binary\<close>, \<open>unary\<close>, \<open>assignment\<close>, \<open>member\<close>, \<dots>), named after the method of the source.
  An analysis takes the analyser's state and returns its value with the new state. The
  expansion of an inline candidate, which closes a cycle with the statements, is the parameter
  \<open>inl\<close> and is supplied in the theory \<open>Sema\<close>. Where the source analyses both branches of a
  conditional before it looks at the first one's error, that error is returned at once: the
  state behind an error is never used.
\<close>

type_synonym 'a an = "analyzer \<Rightarrow> ('a \<times> analyzer) cc"
type_synonym inliner = "inline_candidate \<Rightarrow> typed_expr list \<Rightarrow> function_symbol \<Rightarrow> span \<Rightarrow> typed_expr an"

section \<open>State\<close>

fun find_map :: "('a \<Rightarrow> 'b option) \<Rightarrow> 'a list \<Rightarrow> 'b option" where
  "find_map f [] = None"
| "find_map f (x # xs) = (case f x of Some y \<Rightarrow> Some y | None \<Rightarrow> find_map f xs)"

definition lookup_local :: "analyzer \<Rightarrow> string \<Rightarrow> nat option" where
  "lookup_local s name = find_map (\<lambda>scope. scope name) (rev (an_scopes s))"

definition local_at :: "analyzer \<Rightarrow> nat \<Rightarrow> local_info cc" where
  "local_at s i = index_at (an_locals s) i"

definition take_address :: "nat \<Rightarrow> analyzer \<Rightarrow> analyzer cc" where
  "take_address i s =
     rbind (local_at s i) (\<lambda>info.
       Inr (s\<lparr>an_locals := (an_locals s)[i := info\<lparr>li_address_taken := True\<rparr>]\<rparr>))"

fun mark_address_taken :: "lvalue \<Rightarrow> analyzer \<Rightarrow> analyzer cc" where
  "mark_address_taken (LV_Local i) s = take_address i s"
| "mark_address_taken (LV_Member base offset) s = mark_address_taken base s"
| "mark_address_taken _ s = Inr s"

section \<open>Leaves\<close>

definition literal :: "u32 \<Rightarrow> ctype \<Rightarrow> span \<Rightarrow> typed_expr" where
  "literal v ty sp = TExpr (TE_Literal v) ty Uniform sp"

definition name_expr :: "string \<Rightarrow> span \<Rightarrow> analyzer \<Rightarrow> typed_expr cc" where
  "name_expr name sp s =
     (if name = ''WARP'' then Inr (TExpr (TE_Intrinsic I_LaneId []) T_I32 Divergent sp)
      else
        case builtin_constant name of
          Some v \<Rightarrow> Inr (literal v T_U32 sp)
        | None \<Rightarrow>
            (case lookup_local s name of
               Some i \<Rightarrow>
                 rbind (local_at s i) (\<lambda>info.
                   Inr (TExpr (TE_LValue (LV_Local i)) (li_ty info) (li_uniformity info) sp))
             | None \<Rightarrow>
                 (case an_global_ids s name of
                    Some g \<Rightarrow>
                      rbind (index_at (an_globals s) g) (\<lambda>info.
                        Inr (TExpr (TE_LValue (LV_Global g)) (gi_ty info) Uniform sp))
                  | None \<Rightarrow> diag sp (''unknown identifier '' @ quoted name))))"

definition sizeof_type :: "decl_type \<Rightarrow> span \<Rightarrow> analyzer \<Rightarrow> typed_expr cc" where
  "sizeof_type decl sp s =
     rbind (lower_decl_type s decl None) (\<lambda>ty.
     rbind (type_size ty (an_structs s)) (\<lambda>size.
       if size = 0 then diag sp ''sizeof incomplete type''
       else Inr (literal (of_nat size) T_U32 sp)))"

section \<open>Operators\<close>

definition unary_address_of :: "typed_expr \<Rightarrow> span \<Rightarrow> typed_expr an" where
  "unary_address_of e sp s =
     rbind (take_lvalue (te_kind e) (te_span e) ''address-of operand'') (\<lambda>lv.
     rbind (case lv of
              LV_Local i \<Rightarrow> rbind (local_at s i) (\<lambda>info. Inr (li_shape info = Shape_Uniform))
            | _ \<Rightarrow> Inr False) (\<lambda>uniform_local.
       if uniform_local then diag sp ''taking the address of a uniform local is not supported''
       else
         rbind (mark_address_taken lv s) (\<lambda>s.
           Inr (TExpr (TE_AddressOf lv)
                  (if is_array (te_ty e) then decay (te_ty e) else pointer_to (te_ty e))
                  (te_uniformity e) sp, s))))"

definition unary_deref :: "typed_expr \<Rightarrow> span \<Rightarrow> typed_expr cc" where
  "unary_deref e sp =
     (case pointee (value_type (te_ty e)) of
        None \<Rightarrow> diag sp ''cannot dereference a non-pointer value''
      | Some ty \<Rightarrow> Inr (TExpr (TE_LValue (LV_Deref e)) ty (te_uniformity e) sp))"

text \<open>The size of what a pointer points to; the source unwraps \<open>pointee\<close>.\<close>

definition pointee_size :: "ctype \<Rightarrow> analyzer \<Rightarrow> nat cc" where
  "pointee_size ty s = rbind (unwrap (pointee ty)) (\<lambda>t. type_size t (an_structs s))"

text \<open>The uniformity of an access to an assigned target: its declared shape for a local, else
  what \<open>other\<close> says outside divergent control flow.\<close>

definition target_uniformity :: "analyzer \<Rightarrow> lvalue \<Rightarrow> uniformity \<Rightarrow> uniformity cc" where
  "target_uniformity s target other =
     (case target of
        LV_Local i \<Rightarrow> rbind (local_at s i) (\<lambda>info. Inr (expression_uniformity (li_shape info)))
      | _ \<Rightarrow> Inr (if an_divergent_depth s \<noteq> 0 then Divergent else other))"

definition is_increment :: "unary_op \<Rightarrow> bool" where
  "is_increment op \<longleftrightarrow> op = U_PreInc \<or> op = U_PreDec \<or> op = U_PostInc \<or> op = U_PostDec"

definition unary_increment :: "unary_op \<Rightarrow> typed_expr \<Rightarrow> span \<Rightarrow> analyzer \<Rightarrow> typed_expr cc" where
  "unary_increment op e sp s =
     (let ty = value_type (te_ty e) in
      if \<not> is_scalar ty then diag sp ''increment target must have integer or pointer type''
      else
        rbind (take_lvalue (te_kind e) (te_span e) ''increment target'') (\<lambda>target.
        rbind (target_uniformity s target (te_uniformity e)) (\<lambda>uniformity.
        rbind (if is_pointer ty then pointee_size ty s else Inr 1) (\<lambda>scale.
          Inr (TExpr (TE_IncDec target (op = U_PreInc \<or> op = U_PostInc)
                        (op = U_PostInc \<or> op = U_PostDec) scale) ty uniformity sp)))))"

definition unary_plain :: "unary_op \<Rightarrow> typed_expr \<Rightarrow> span \<Rightarrow> typed_expr cc" where
  "unary_plain op e sp =
     rbind (require_integer e ''unary operand'') (\<lambda>_.
       Inr (TExpr (TE_Unary op e)
              (if op = U_LogicalNot then T_I32 else promoted (value_type (te_ty e)))
              (te_uniformity e) sp))"

definition unary :: "unary_op \<Rightarrow> typed_expr \<Rightarrow> span \<Rightarrow> typed_expr an" where
  "unary op e sp s =
     (if op = U_AddressOf then unary_address_of e sp s
      else rbind (if op = U_Deref then unary_deref e sp
                  else if is_increment op then unary_increment op e sp s
                  else unary_plain op e sp) (\<lambda>t. Inr (t, s)))"

definition index :: "typed_expr \<Rightarrow> typed_expr \<Rightarrow> span \<Rightarrow> analyzer \<Rightarrow> typed_expr cc" where
  "index base idx sp s =
     rbind (require_integer idx ''array index'') (\<lambda>_.
       case pointee (value_type (te_ty base)) of
         None \<Rightarrow> diag (te_span base) ''indexing requires an array or pointer''
       | Some ty \<Rightarrow>
           rbind (type_size ty (an_structs s)) (\<lambda>scale.
             Inr (TExpr (TE_LValue (LV_Index base idx scale)) ty
                    (uniformity_join (te_uniformity base) (te_uniformity idx)) sp)))"

definition member_base :: "typed_expr \<Rightarrow> bool \<Rightarrow> span \<Rightarrow> (lvalue \<times> ctype) cc" where
  "member_base base through_pointer sp =
     (if through_pointer then
        (case pointee (value_type (te_ty base)) of
           None \<Rightarrow> diag sp (quoted ''->'' @ '' requires a pointer to structure'')
         | Some t \<Rightarrow> Inr (LV_Deref base, t))
      else
        rbind (take_lvalue (te_kind base) (te_span base) ''member base'') (\<lambda>lv.
          Inr (lv, te_ty base)))"

definition member :: "typed_expr \<Rightarrow> string \<Rightarrow> bool \<Rightarrow> span \<Rightarrow> analyzer \<Rightarrow> typed_expr cc" where
  "member base field through_pointer sp s =
     rbind (member_base base through_pointer sp) (\<lambda>(lv, struct_ty).
       case ty_base struct_ty of
         BT_Struct i \<Rightarrow>
           if \<not> is_struct struct_ty then diag sp ''member access requires a structure object''
           else
             rbind (index_at (an_structs s) i) (\<lambda>info.
               case find (\<lambda>f. fi_name f = field) (si_fields info) of
                 None \<Rightarrow> diag sp (''struct '' @ quoted (si_name info) @ '' has no field '' @ quoted field)
               | Some f \<Rightarrow>
                   Inr (TExpr (TE_LValue (LV_Member lv (fi_offset f))) (fi_ty f) (te_uniformity base) sp))
       | _ \<Rightarrow> diag sp ''member access requires a structure'')"

text \<open>The pointer forms of addition and subtraction, if it is one of them.\<close>

definition pointer_binary ::
    "binary_op \<Rightarrow> typed_expr \<Rightarrow> typed_expr \<Rightarrow> uniformity \<Rightarrow> span \<Rightarrow> analyzer \<Rightarrow> typed_expr option cc" where
  "pointer_binary op left right u sp s =
     (let lt = value_type (te_ty left); rt = value_type (te_ty right) in
      if \<not> (op = B_Add \<or> op = B_Sub) then Inr None
      else if is_pointer lt \<and> is_integer rt then
        rbind (pointee_size lt s) (\<lambda>scale.
          Inr (Some (TExpr (TE_PointerAdd left right scale (op = B_Sub)) lt u sp)))
      else if op = B_Add \<and> is_pointer rt \<and> is_integer lt then
        rbind (pointee_size rt s) (\<lambda>scale.
          Inr (Some (TExpr (TE_PointerAdd right left scale False) rt u sp)))
      else if op = B_Sub \<and> compatible_pointers lt rt then
        rbind (pointee_size lt s) (\<lambda>scale.
          Inr (Some (TExpr (TE_PointerDiff left right scale) T_I32 u sp)))
      else Inr None)"

definition binary_result_type :: "binary_op \<Rightarrow> ctype \<Rightarrow> ctype \<Rightarrow> ctype \<Rightarrow> ctype" where
  "binary_result_type op left_ty right_ty operand_type =
     (if op \<in> {B_Lt, B_Le, B_Gt, B_Ge, B_Eq, B_Ne, B_LogicalAnd, B_LogicalOr} then T_I32
      else if op = B_Shl \<or> op = B_Shr then promoted left_ty
      else if op = B_Comma then right_ty
      else operand_type)"

definition binary :: "binary_op \<Rightarrow> typed_expr \<Rightarrow> typed_expr \<Rightarrow> span \<Rightarrow> analyzer \<Rightarrow> typed_expr cc" where
  "binary op left right sp s =
     (let lt = value_type (te_ty left); rt = value_type (te_ty right);
          u = uniformity_join (te_uniformity left) (te_uniformity right) in
      if (op = B_LogicalAnd \<or> op = B_LogicalOr) \<and> (u = Divergent \<or> an_divergent_depth s \<noteq> 0)
      then diag sp (''varying short-circuit control is not supported; use lane-wise '' @ quoted ''&''
             @ '' or '' @ quoted ''|'' @ '' for predicate composition'')
      else
        rbind (pointer_binary op left right u sp s) (\<lambda>p.
        case p of
          Some t \<Rightarrow> Inr t
        | None \<Rightarrow>
            if (op = B_Eq \<or> op = B_Ne) \<and> (is_pointer lt \<or> is_pointer rt) then
              if \<not> (compatible_pointers lt rt \<or> (is_pointer lt \<and> is_zero_literal right)
                     \<or> (is_pointer rt \<and> is_zero_literal left))
              then diag sp ''incompatible pointer comparison''
              else Inr (TExpr (TE_Binary op left right T_U32) T_I32 u sp)
            else
              rbind (require_integer left ''left operand'') (\<lambda>_.
              rbind (require_integer right ''right operand'') (\<lambda>_.
                let operand_type = usual_type lt rt in
                Inr (TExpr (TE_Binary op left right operand_type)
                       (binary_result_type op lt rt operand_type) u sp)))))"

text \<open>Assignment, once the target and the value are typed.\<close>

definition assignment_target :: "typed_expr \<Rightarrow> lvalue cc" where
  "assignment_target left =
     (if \<not> is_scalar (value_type (te_ty left))
      then diag (te_span left) ''assignment target must be a scalar lvalue''
      else take_lvalue (te_kind left) (te_span left) ''assignment target'')"

definition assignment_check :: "assign_op \<Rightarrow> ctype \<Rightarrow> typed_expr \<Rightarrow> span \<Rightarrow> analyzer \<Rightarrow> unit cc" where
  "assignment_check op left_ty right sp s =
     (if op = A_Assign then require_assignable s left_ty right ''assignment value''
      else if is_pointer left_ty then
        if \<not> (op = A_Add \<or> op = A_Sub) \<or> \<not> is_integer (value_type (te_ty right))
        then diag sp ''pointer compound assignment only supports += or -= an integer''
        else Inr ()
      else require_integer right ''assignment value'')"

definition assignment ::
    "assign_op \<Rightarrow> typed_expr \<Rightarrow> lvalue \<Rightarrow> typed_expr \<Rightarrow> span \<Rightarrow> analyzer \<Rightarrow> typed_expr cc" where
  "assignment op left target right sp s =
     (let left_ty = value_type (te_ty left) in
      rbind (assignment_check op left_ty right sp s) (\<lambda>_.
      rbind (if is_pointer left_ty then pointee_size left_ty s else Inr 1) (\<lambda>scale.
      rbind (case target of
               LV_Local i \<Rightarrow>
                 rbind (local_at s i) (\<lambda>info.
                   if li_shape info = Shape_Uniform \<and> te_uniformity right \<noteq> Uniform
                   then diag (te_span right) (''varying expression cannot be assigned to uniform local ''
                          @ quoted (li_name info))
                   else Inr ())
             | _ \<Rightarrow> Inr ()) (\<lambda>_.
      rbind (target_uniformity s target
               (if op = A_Assign then te_uniformity right
                else uniformity_join (te_uniformity left) (te_uniformity right))) (\<lambda>uniformity.
        Inr (TExpr (TE_Assign target op right
                      (if is_pointer left_ty then T_U32
                       else usual_type left_ty (value_type (te_ty right))) scale)
               left_ty uniformity sp))))))"

section \<open>Conditions\<close>

definition check_condition :: "string \<Rightarrow> typed_expr \<Rightarrow> unit cc" where
  "check_condition role e =
     (if \<not> is_scalar (value_type (te_ty e)) then diag (te_span e) (role @ '' must have scalar type'')
      else Inr ())"

definition is_masked :: "analyzer \<Rightarrow> typed_expr \<Rightarrow> bool" where
  "is_masked s condition \<longleftrightarrow> te_uniformity condition = Divergent \<or> an_divergent_depth s \<noteq> 0"

definition enter_mask :: "bool \<Rightarrow> analyzer \<Rightarrow> analyzer" where
  "enter_mask masked s = (if masked then s\<lparr>an_divergent_depth := an_divergent_depth s + 1\<rparr> else s)"

definition leave_mask :: "bool \<Rightarrow> analyzer \<Rightarrow> analyzer" where
  "leave_mask masked s = (if masked then s\<lparr>an_divergent_depth := an_divergent_depth s - 1\<rparr> else s)"

definition conditional_type :: "typed_expr \<Rightarrow> typed_expr \<Rightarrow> span \<Rightarrow> ctype cc" where
  "conditional_type t e sp =
     (let tt = value_type (te_ty t); et = value_type (te_ty e) in
      if tt = T_VOID \<and> et = T_VOID then Inr T_VOID
      else if is_integer tt \<and> is_integer et then Inr (usual_type tt et)
      else if compatible_pointers tt et then Inr (if pointee tt = Some T_VOID then tt else et)
      else if is_pointer tt \<and> is_zero_literal e then Inr tt
      else if is_pointer et \<and> is_zero_literal t then Inr et
      else diag sp ''conditional arms must have compatible scalar types'')"

definition conditional :: "typed_expr \<Rightarrow> typed_expr \<Rightarrow> typed_expr \<Rightarrow> span \<Rightarrow> typed_expr cc" where
  "conditional c t e sp =
     rbind (conditional_type t e sp) (\<lambda>ty.
       Inr (TExpr (TE_Conditional c t e) ty
              (uniformity_join (uniformity_join (te_uniformity c) (te_uniformity t)) (te_uniformity e)) sp))"

section \<open>Intrinsics\<close>

text \<open>Arity, type and uniformity without operands of the intrinsics called by name.\<close>

definition signatures :: "(string \<times> intrinsic \<times> nat \<times> ctype \<times> uniformity) list" where
  "signatures =
     [(''warp_lane_id'', (I_LaneId, 0, T_I32, Divergent)),
      (''warp_vm_id'', (I_VmId, 0, T_U32, Uniform)),
      (''warp_framebuffer'', (I_Framebuffer, 0, pointer_to T_U32, Uniform)),
      (''warp_flip'', (I_Flip, 0, T_VOID, Uniform)),
      (''warp_argb'', (I_Argb, 4, T_U32, Uniform)),
      (''warp_set_pixel'', (I_SetPixel, 3, T_VOID, Uniform)),
      (''warp_send'', (I_Send, 3, T_VOID, Uniform)),
      (''warp_try_recv'', (I_TryRecv, 2, T_I32, Uniform)),
      (''warp_broadcast'', (I_Broadcast, 2, T_I32, Uniform)),
      (''warp_shuffle'', (I_Shuffle, 2, T_I32, Uniform)),
      (''warp_shuffle_xor'', (I_ShuffleXor, 2, T_I32, Uniform)),
      (''warp_ballot'', (I_Ballot, 1, T_U32, Uniform)),
      (''warp_any'', (I_Any, 1, T_I32, Uniform)),
      (''warp_all'', (I_All, 1, T_I32, Uniform)),
      (''warp_reduce_add'', (I_ReduceAdd, 1, T_I32, Uniform)),
      (''warp_reduce_add_u'', (I_ReduceAddUnsigned, 1, T_U32, Uniform)),
      (''warp_reduce_min'', (I_ReduceMinSigned, 1, T_I32, Uniform)),
      (''warp_reduce_max'', (I_ReduceMaxSigned, 1, T_I32, Uniform)),
      (''warp_reduce_min_u'', (I_ReduceMinUnsigned, 1, T_U32, Uniform)),
      (''warp_reduce_max_u'', (I_ReduceMaxUnsigned, 1, T_U32, Uniform)),
      (''warp_reduce_and'', (I_ReduceAnd, 1, T_U32, Uniform)),
      (''warp_reduce_or'', (I_ReduceOr, 1, T_U32, Uniform)),
      (''warp_reduce_xor'', (I_ReduceXor, 1, T_U32, Uniform))]"

definition signature :: "string \<Rightarrow> (intrinsic \<times> nat \<times> ctype \<times> uniformity) option" where
  "signature callee = map_of signatures callee"

text \<open>The constant mask of \<open>warp_shuffle_xor\<close>, read before the operands are typed.\<close>

definition shuffle_xor_mask :: "intrinsic \<Rightarrow> expr list \<Rightarrow> u32 option cc" where
  "shuffle_xor_mask i args =
     (if i = I_ShuffleXor then
        rbind (index_at args 1) (\<lambda>a.
          case constant_ast a of
            Inr m \<Rightarrow>
              if m < 32 then Inr (Some m)
              else diag (e_span a) ''warp_shuffle_xor mask must be a constant from 0 to 31''
          | Inl (Diag _) \<Rightarrow> diag (e_span a) ''warp_shuffle_xor mask must be a constant from 0 to 31''
          | Inl e \<Rightarrow> Inl e)
      else Inr None)"

definition collective :: "intrinsic \<Rightarrow> bool" where
  "collective i \<longleftrightarrow>
     i \<in> {I_Broadcast, I_Shuffle, I_ShuffleXor, I_Ballot, I_Any, I_All, I_ReduceAdd,
          I_ReduceAddUnsigned, I_ReduceMinSigned, I_ReduceMaxSigned, I_ReduceMinUnsigned,
          I_ReduceMaxUnsigned, I_ReduceAnd, I_ReduceOr, I_ReduceXor}"

definition whole_warp :: "intrinsic \<Rightarrow> bool" where
  "whole_warp i \<longleftrightarrow> i = I_Flip \<or> i = I_Send \<or> i = I_TryRecv \<or> collective i"

definition check_intrinsic_arg :: "intrinsic \<Rightarrow> typed_expr \<Rightarrow> unit cc" where
  "check_intrinsic_arg i a =
     (if i = I_TryRecv then
        if value_type (te_ty a) \<noteq> pointer_to T_U32
        then diag (te_span a) ''warp_try_recv arguments must have type unsigned *''
        else Inr ()
      else require_integer a ''Warp intrinsic argument'')"

definition with_mask :: "u32 option \<Rightarrow> typed_expr list \<Rightarrow> typed_expr list cc" where
  "with_mask xmask args =
     (case xmask of
        None \<Rightarrow> Inr args
      | Some m \<Rightarrow>
          rbind (index_at args 1) (\<lambda>a.
            Inr (args[1 := TExpr (TE_Literal m) (te_ty a) Uniform (te_span a)])))"

fun check_uniform_args :: "string \<Rightarrow> intrinsic \<Rightarrow> nat \<Rightarrow> typed_expr list \<Rightarrow> unit cc" where
  "check_uniform_args callee i n [] = Inr ()"
| "check_uniform_args callee i n (a # as) =
     (if requires_uniform_argument i n \<and> te_uniformity a \<noteq> Uniform
      then diag (te_span a) (callee @ '' '' @ (if i = I_Broadcast then ''lane'' else ''argument'')
             @ '' must be uniform'')
      else check_uniform_args callee i (n + 1) as)"

definition finish_intrinsic :: "string \<Rightarrow> intrinsic \<Rightarrow> ctype \<Rightarrow> uniformity \<Rightarrow> u32 option
    \<Rightarrow> typed_expr list \<Rightarrow> span \<Rightarrow> typed_expr cc" where
  "finish_intrinsic callee i ty base_uniformity xmask args sp =
     (let u = foldl (\<lambda>u a. uniformity_join u (te_uniformity a)) base_uniformity args in
      rbind (with_mask xmask args) (\<lambda>args.
      rbind (check_uniform_args callee i 0 args) (\<lambda>_.
      rbind (result_uniformity i args u) (\<lambda>u.
        Inr (TExpr (TE_Intrinsic i args) ty u sp)))))"

definition wrong_arity :: "string \<Rightarrow> string \<Rightarrow> nat \<Rightarrow> nat \<Rightarrow> span \<Rightarrow> 'a cc" where
  "wrong_arity what callee arity given sp =
     diag sp (what @ '' '' @ quoted callee @ '' expects '' @ nat_str arity @
       '' arguments but received '' @ nat_str given)"

section \<open>Minimum and maximum\<close>

definition fold_min_max :: "bool \<Rightarrow> bool \<Rightarrow> u32 \<Rightarrow> u32 \<Rightarrow> u32" where
  "fold_min_max maximum is_signed a b =
     (if is_signed then
        (if maximum then word_of_int (max (as_i32 a) (as_i32 b))
         else word_of_int (min (as_i32 a) (as_i32 b)))
      else if maximum then max a b
      else min a b)"

definition min_max_intrinsic :: "bool \<Rightarrow> bool \<Rightarrow> intrinsic" where
  "min_max_intrinsic maximum is_signed =
     (if is_signed then (if maximum then I_MaxSigned else I_MinSigned)
      else if maximum then I_MaxUnsigned
      else I_MinUnsigned)"

definition literal_value :: "typed_expr \<Rightarrow> u32 option" where
  "literal_value e = (case te_kind e of TE_Literal v \<Rightarrow> Some v | _ \<Rightarrow> None)"

definition finish_min_max :: "bool \<Rightarrow> typed_expr \<Rightarrow> typed_expr \<Rightarrow> span \<Rightarrow> typed_expr cc" where
  "finish_min_max maximum left right sp =
     rbind (require_integer left ''min/max argument'') (\<lambda>_.
     rbind (require_integer right ''min/max argument'') (\<lambda>_.
       let ty = usual_type (value_type (te_ty left)) (value_type (te_ty right)) in
       case (literal_value left, literal_value right) of
         (Some a, Some b) \<Rightarrow> Inr (literal (fold_min_max maximum (ty = T_I32) a b) ty sp)
       | _ \<Rightarrow>
           Inr (TExpr (TE_Intrinsic (min_max_intrinsic maximum (ty = T_I32)) [left, right]) ty
                  (uniformity_join (te_uniformity left) (te_uniformity right)) sp)))"

section \<open>Calls of functions\<close>

text \<open>The check of argument \<open>n\<close> of a function.\<close>

definition check_arg :: "function_symbol \<Rightarrow> nat \<Rightarrow> typed_expr \<Rightarrow> analyzer \<Rightarrow> unit cc" where
  "check_arg symbol n a s =
     rbind (index_at (fs_params symbol) n) (\<lambda>param.
     rbind (require_assignable s param a ''function argument'') (\<lambda>_.
     rbind (index_at (fs_param_shapes symbol) n) (\<lambda>shape.
       if shape = Shape_Uniform \<and> te_uniformity a \<noteq> Uniform then
         rbind (index_at (fs_param_names symbol) n) (\<lambda>pname.
         rbind (index_at (fs_param_spans symbol) n) (\<lambda>declared.
           diag (te_span a) (''varying argument passed to uniform parameter ''
             @ quoted (case pname of Some x \<Rightarrow> x | None \<Rightarrow> ''<unnamed>'') @ '' of function ''
             @ quoted (fs_name symbol) @ '' (declared at '' @ nat_str (s_line declared) @ '':''
             @ nat_str (s_column declared) @ '')'')))
       else Inr ())))"

definition add_call_edge :: "nat \<Rightarrow> analyzer \<Rightarrow> analyzer cc" where
  "add_call_edge function s =
     rbind (unwrap (an_current_function s)) (\<lambda>caller.
     rbind (index_at (an_call_edges s) caller) (\<lambda>callees.
       Inr (if function \<in> set callees then s
            else s\<lparr>an_call_edges := (an_call_edges s)[caller := callees @ [function]]\<rparr>)))"

definition finish_call :: "nat \<Rightarrow> function_symbol \<Rightarrow> typed_expr list \<Rightarrow> span \<Rightarrow> typed_expr an" where
  "finish_call function symbol args sp s =
     rbind (add_call_edge function s) (\<lambda>s.
       Inr (TExpr (TE_Call function args) (fs_return_type symbol)
              (expression_uniformity (fs_return_shape symbol)) sp, s))"

text \<open>What a call will do, decided before its arguments are typed.\<close>

datatype call_plan =
    Plan_MinMax bool
  | Plan_Intrinsic intrinsic ctype uniformity "u32 option"
  | Plan_Inline inline_candidate function_symbol
  | Plan_Call nat function_symbol

definition plan_intrinsic :: "string \<Rightarrow> intrinsic \<Rightarrow> nat \<Rightarrow> ctype \<Rightarrow> uniformity \<Rightarrow> expr list \<Rightarrow> span
    \<Rightarrow> analyzer \<Rightarrow> call_plan cc" where
  "plan_intrinsic callee i arity ty u args sp s =
     (if length args \<noteq> arity then wrong_arity ''intrinsic'' callee arity (length args) sp
      else
        rbind (shuffle_xor_mask i args) (\<lambda>xmask.
        if whole_warp i \<and> an_divergent_depth s \<noteq> 0
        then diag sp (callee @ ''() is not allowed inside divergent control flow'')
        else Inr (Plan_Intrinsic i ty u xmask)))"

definition plan_function :: "string \<Rightarrow> expr list \<Rightarrow> span \<Rightarrow> analyzer \<Rightarrow> call_plan cc" where
  "plan_function callee args sp s =
     (case an_function_ids s callee of
        None \<Rightarrow> diag sp (''unknown function '' @ quoted callee)
      | Some function \<Rightarrow>
          if callee = ''main'' then diag sp ''calling main is not supported''
          else
            rbind (index_at (an_functions s) function) (\<lambda>symbol.
            if length args \<noteq> length (fs_params symbol)
            then wrong_arity ''function'' callee (length (fs_params symbol)) (length args) sp
            else
              case an_inline_candidates s function of
                Some candidate \<Rightarrow> Inr (Plan_Inline candidate symbol)
              | None \<Rightarrow>
                  if an_divergent_depth s \<noteq> 0
                  then diag sp ''function calls inside divergent control flow are not supported in Slice E''
                  else Inr (Plan_Call function symbol)))"

definition plan_call :: "string \<Rightarrow> expr list \<Rightarrow> span \<Rightarrow> analyzer \<Rightarrow> call_plan cc" where
  "plan_call callee args sp s =
     (if callee = ''min'' \<or> callee = ''max'' then
        if length args \<noteq> 2 then wrong_arity ''intrinsic'' callee 2 (length args) sp
        else Inr (Plan_MinMax (callee = ''max''))
      else
        case signature callee of
          Some (i, arity, ty, u) \<Rightarrow> plan_intrinsic callee i arity ty u args sp s
        | None \<Rightarrow> plan_function callee args sp s)"

text \<open>The check that follows the typing of argument \<open>n\<close>, and the end of the call.\<close>

definition plan_check :: "call_plan \<Rightarrow> nat \<Rightarrow> typed_expr \<Rightarrow> analyzer \<Rightarrow> unit cc" where
  "plan_check plan n a s =
     (case plan of
        Plan_MinMax _ \<Rightarrow> Inr ()
      | Plan_Intrinsic i _ _ _ \<Rightarrow> check_intrinsic_arg i a
      | Plan_Inline _ symbol \<Rightarrow> check_arg symbol n a s
      | Plan_Call _ symbol \<Rightarrow> check_arg symbol n a s)"

definition plan_finish :: "inliner \<Rightarrow> string \<Rightarrow> call_plan \<Rightarrow> typed_expr list \<Rightarrow> span \<Rightarrow> typed_expr an" where
  "plan_finish inl callee plan args sp s =
     (case plan of
        Plan_MinMax maximum \<Rightarrow>
          rbind (index_at args 0) (\<lambda>l. rbind (index_at args 1) (\<lambda>r.
          rbind (finish_min_max maximum l r sp) (\<lambda>t. Inr (t, s))))
      | Plan_Intrinsic i ty u xmask \<Rightarrow>
          rbind (finish_intrinsic callee i ty u xmask args sp) (\<lambda>t. Inr (t, s))
      | Plan_Inline candidate symbol \<Rightarrow> inl candidate args symbol sp s
      | Plan_Call function symbol \<Rightarrow> finish_call function symbol args sp s)"

section \<open>Expressions\<close>

fun te_expr :: "inliner \<Rightarrow> expr \<Rightarrow> typed_expr an"
and te_args :: "inliner \<Rightarrow> call_plan \<Rightarrow> nat \<Rightarrow> expr list \<Rightarrow> typed_expr list an" where
  "te_expr inl (Expr (E_Number text') sp) s =
     rbind (parse_integer text' sp) (\<lambda>(v, ty). Inr (literal v ty sp, s))"
| "te_expr inl (Expr (E_Char v) sp) s = Inr (literal v T_CHAR sp, s)"
| "te_expr inl (Expr (E_String words) sp) s =
     (let (address, s) = allocate_words s words in
      Inr (TExpr (TE_StringAddress address) (pointer_to T_CHAR) Uniform sp, s))"
| "te_expr inl (Expr (E_Name name) sp) s = rbind (name_expr name sp s) (\<lambda>t. Inr (t, s))"
| "te_expr inl (Expr (E_Call callee args) sp) s =
     rbind (plan_call callee args sp s) (\<lambda>plan.
     rbind (te_args inl plan 0 args s) (\<lambda>(args, s).
       plan_finish inl callee plan args sp s))"
| "te_expr inl (Expr (E_Unary op e) sp) s =
     rbind (te_expr inl e s) (\<lambda>(e, s). unary op e sp s)"
| "te_expr inl (Expr (E_Binary op l r) sp) s =
     rbind (te_expr inl l s) (\<lambda>(left, s).
     rbind (te_expr inl r s) (\<lambda>(right, s).
     rbind (binary op left right sp s) (\<lambda>t. Inr (t, s))))"
| "te_expr inl (Expr (E_Conditional c t e) sp) s =
     rbind (te_expr inl c s) (\<lambda>(condition, s).
     rbind (check_condition ''conditional condition'' condition) (\<lambda>_.
     let masked = is_masked s condition in
     if masked \<and> an_divergent_depth s \<ge> 2
     then diag sp ''divergent conditional nesting exceeds the two predicate masks available in Slice E''
     else
       rbind (te_expr inl t (enter_mask masked s)) (\<lambda>(then_expr, s).
       rbind (te_expr inl e s) (\<lambda>(else_expr, s).
       rbind (conditional condition then_expr else_expr sp) (\<lambda>x. Inr (x, leave_mask masked s))))))"
| "te_expr inl (Expr (E_Assign op l r) sp) s =
     rbind (te_expr inl l s) (\<lambda>(left, s).
     rbind (assignment_target left) (\<lambda>target.
     rbind (te_expr inl r s) (\<lambda>(right, s).
     rbind (assignment op left target right sp s) (\<lambda>t. Inr (t, s)))))"
| "te_expr inl (Expr (E_Index b i) sp) s =
     rbind (te_expr inl b s) (\<lambda>(base, s).
     rbind (te_expr inl i s) (\<lambda>(idx, s).
     rbind (index base idx sp s) (\<lambda>t. Inr (t, s))))"
| "te_expr inl (Expr (E_Member b field through_pointer) sp) s =
     rbind (te_expr inl b s) (\<lambda>(base, s).
     rbind (member base field through_pointer sp s) (\<lambda>t. Inr (t, s)))"
| "te_expr inl (Expr (E_SizeofExpr e) sp) s =
     rbind (te_expr inl e s) (\<lambda>(operand, s).
     rbind (type_size (te_ty operand) (an_structs s)) (\<lambda>size.
       Inr (literal (of_nat size) T_U32 sp, s)))"
| "te_expr inl (Expr (E_SizeofType decl) sp) s = rbind (sizeof_type decl sp s) (\<lambda>t. Inr (t, s))"
| "te_args inl plan n [] s = Inr ([], s)"
| "te_args inl plan n (a # as) s =
     rbind (te_expr inl a s) (\<lambda>(t, s).
     rbind (plan_check plan n t s) (\<lambda>_.
     rbind (te_args inl plan (n + 1) as s) (\<lambda>(ts, s). Inr (t # ts, s))))"

end
