(* ===== verification/Sema_Stmt.thy ===== *)
theory Sema_Stmt
  imports Sema_Expr
begin

text \<open>
  Typing of statements (\<open>tools/warpc/src/sema.rs\<close>): declarations with their shape contract,
  control flow with its uniformity rules, loops, switches and their labels, scopes. The
  expansion of inline candidates is again the parameter \<open>inl\<close>.
\<close>

section \<open>Where a value varies\<close>

text \<open>The first varying source of an expression, for a diagnostic.\<close>

definition or_else_res :: "'a option cc \<Rightarrow> 'a option cc \<Rightarrow> 'a option cc" where
  "or_else_res a b = rbind a (\<lambda>x. case x of Some y \<Rightarrow> Inr (Some y) | None \<Rightarrow> b)"

lemma or_else_res_cong [fundef_cong]:
  "a = a' \<Longrightarrow> b = b' \<Longrightarrow> or_else_res a b = or_else_res a' b'"
  by simp

fun varying_source :: "local_info list \<Rightarrow> typed_expr \<Rightarrow> string option cc"
and varying_sources :: "local_info list \<Rightarrow> typed_expr list \<Rightarrow> string option cc" where
  "varying_source locals (TExpr (TE_Intrinsic i args) ty u sp) =
     (if i = I_LaneId then Inr (Some (''varying lane value '' @ quoted ''WARP''))
      else varying_sources locals args)"
| "varying_source locals (TExpr (TE_LValue (LV_Local n)) ty u sp) =
     rbind (index_at locals n) (\<lambda>info.
       if li_shape info = Shape_Warp
       then Inr (Some (''ordinary warp value '' @ quoted (li_name info) @ '' declared at '' @
              nat_str (s_line (li_span info)) @ '':'' @ nat_str (s_column (li_span info))))
       else Inr None)"
| "varying_source locals (TExpr (TE_Unary op e) ty u sp) = varying_source locals e"
| "varying_source locals (TExpr (TE_Binary op l r ot) ty u sp) =
     or_else_res (varying_source locals l) (varying_source locals r)"
| "varying_source locals (TExpr (TE_PointerDiff l r k) ty u sp) =
     or_else_res (varying_source locals l) (varying_source locals r)"
| "varying_source locals (TExpr (TE_Conditional c t e) ty u sp) =
     or_else_res (or_else_res (varying_source locals c) (varying_source locals t))
       (varying_source locals e)"
| "varying_source locals (TExpr (TE_PointerAdd p i k sub) ty u sp) =
     or_else_res (varying_source locals p) (varying_source locals i)"
| "varying_source locals (TExpr (TE_Call f args) ty u sp) =
     Inr (Some ''an ordinary warp-valued function result'')"
| "varying_source locals (TExpr _ ty u sp) = Inr None"
| "varying_sources locals [] = Inr None"
| "varying_sources locals (a # as) =
     or_else_res (varying_source locals a) (varying_sources locals as)"

section \<open>Conditions\<close>

definition reject_divergent_control :: "span \<Rightarrow> string \<Rightarrow> analyzer \<Rightarrow> unit cc" where
  "reject_divergent_control sp construct s =
     (if an_divergent_depth s = 0 then Inr ()
      else diag sp (construct @ '' inside divergent control flow is not supported in Slice E''))"

definition condition_expr :: "inliner \<Rightarrow> expr \<Rightarrow> string \<Rightarrow> typed_expr an" where
  "condition_expr inl e role s =
     rbind (te_expr inl e s) (\<lambda>(t, s). rbind (check_condition role t) (\<lambda>_. Inr (t, s)))"

definition contains_text :: "string \<Rightarrow> string \<Rightarrow> bool" where
  "contains_text pattern xs \<longleftrightarrow>
     list_ex (\<lambda>i. take (length pattern) (drop i xs) = pattern) [0..<length xs + 1]"

definition uniform_condition :: "inliner \<Rightarrow> expr \<Rightarrow> string \<Rightarrow> typed_expr an" where
  "uniform_condition inl e role s =
     rbind (condition_expr inl e role s) (\<lambda>(t, s).
       if te_uniformity t \<noteq> Uniform then
         rbind (varying_source (an_locals s) t) (\<lambda>source.
           diag (te_span t) (role @ '' is varying''
             @ (case source of Some x \<Rightarrow> '' because it uses '' @ x | None \<Rightarrow> [])
             @ (if contains_text ''condition'' role
                then ''; use a separately named '' @ quoted ''uniform'' @ '' control variable'' else [])))
       else Inr (t, s))"

section \<open>Scopes and declarations\<close>

definition push_scope :: "(string \<rightharpoonup> nat) \<Rightarrow> analyzer \<Rightarrow> analyzer" where
  "push_scope m s = s\<lparr>an_scopes := an_scopes s @ [m]\<rparr>"

definition pop_scope :: "analyzer \<Rightarrow> analyzer" where
  "pop_scope s = s\<lparr>an_scopes := butlast (an_scopes s)\<rparr>"

definition last_scope :: "analyzer \<Rightarrow> (string \<rightharpoonup> nat) cc" where
  "last_scope s = unwrap (if an_scopes s = [] then None else Some (last (an_scopes s)))"

definition bind_local :: "string \<Rightarrow> nat \<Rightarrow> analyzer \<Rightarrow> analyzer cc" where
  "bind_local name i s =
     rbind (last_scope s) (\<lambda>m.
       Inr (s\<lparr>an_scopes := butlast (an_scopes s) @ [m(name \<mapsto> i)]\<rparr>))"

definition new_local :: "string \<Rightarrow> ctype \<Rightarrow> span \<Rightarrow> value_shape \<Rightarrow> bool \<Rightarrow> analyzer \<Rightarrow> nat \<times> analyzer" where
  "new_local name ty sp shape address_taken s =
     (length (an_locals s),
      s\<lparr>an_locals := an_locals s @
          [\<lparr>li_name = name, li_ty = ty, li_span = sp, li_uniformity = expression_uniformity shape,
            li_shape = shape, li_address_taken = address_taken, li_frame_offset = None\<rparr>]\<rparr>)"

definition typed_init :: "inliner \<Rightarrow> ctype \<Rightarrow> expr option \<Rightarrow> typed_initializer option an" where
  "typed_init inl ty init s =
     (case init of
        None \<Rightarrow> Inr (None, s)
      | Some e \<Rightarrow>
          (case init_words init of
             Some words \<Rightarrow>
               if is_array ty \<and> ty_base ty = BT_Char \<and> ty_pointers ty = 0 then
                 rbind (unwrap (ty_array_len ty)) (\<lambda>n.
                 if length words > n
                 then diag (e_span e) ''string literal is too long for character array''
                 else Inr (Some (TI_Words words), s))
               else if is_array ty \<or> is_struct ty
               then diag (e_span e) ''aggregate initializer is not supported here''
               else
                 rbind (te_expr inl e s) (\<lambda>(t, s).
                 rbind (require_assignable s ty t ''initializer'') (\<lambda>_. Inr (Some (TI_Expr t), s)))
           | None \<Rightarrow>
               if is_array ty \<or> is_struct ty
               then diag (e_span e) ''aggregate initializer is not supported here''
               else
                 rbind (te_expr inl e s) (\<lambda>(t, s).
                 rbind (require_assignable s ty t ''initializer'') (\<lambda>_. Inr (Some (TI_Expr t), s)))))"

definition check_uniform_init :: "string \<Rightarrow> value_shape \<Rightarrow> typed_initializer option \<Rightarrow> unit cc" where
  "check_uniform_init name shape init =
     (case init of
        Some (TI_Expr t) \<Rightarrow>
          if shape = Shape_Uniform \<and> te_uniformity t \<noteq> Uniform
          then diag (te_span t) (''varying expression cannot initialize uniform local '' @ quoted name)
          else Inr ()
      | _ \<Rightarrow> Inr ())"

definition local_declaration :: "inliner \<Rightarrow> decl_type \<Rightarrow> expr option \<Rightarrow> span
    \<Rightarrow> (nat \<times> typed_initializer option) an" where
  "local_declaration inl decl init sp s =
     rbind (unwrap (dc_name (dt_declarator decl))) (\<lambda>name.
     rbind (reject_warp_declaration name sp) (\<lambda>_.
     rbind (last_scope s) (\<lambda>scope.
     if scope name \<noteq> None then diag sp (''duplicate local '' @ quoted name)
     else
       rbind (lower_decl_type s decl (map_option length (init_words init))) (\<lambda>ty.
       if is_void ty then diag sp ''variable cannot have type void''
       else
         let shape = declared_shape decl in
         if shape = Shape_Uniform \<and> (is_array ty \<or> is_struct ty)
         then diag sp (quoted ''uniform'' @
           '' currently supports scalar and pointer locals, not aggregates'')
         else
           rbind (typed_init inl ty init s) (\<lambda>(tinit, s).
           rbind (check_uniform_init name shape tinit) (\<lambda>_.
             let (i, s) = new_local name ty sp shape False s in
             rbind (bind_local name i s) (\<lambda>s. Inr ((i, tinit), s))))))))"

section \<open>Statements\<close>

definition optional_expr :: "inliner \<Rightarrow> expr option \<Rightarrow> typed_expr option an" where
  "optional_expr inl e s =
     (case e of
        None \<Rightarrow> Inr (None, s)
      | Some e \<Rightarrow> rbind (te_expr inl e s) (\<lambda>(t, s). Inr (Some t, s)))"

definition check_return :: "typed_expr option \<Rightarrow> span \<Rightarrow> analyzer \<Rightarrow> unit cc" where
  "check_return result sp s =
     (if is_void (an_return_type s) then
        if result \<noteq> None then diag sp ''void function cannot return a value'' else Inr ()
      else
        case result of
          None \<Rightarrow> diag sp ''non-void function must return a value''
        | Some t \<Rightarrow>
            rbind (require_assignable s (an_return_type s) t ''return value'') (\<lambda>_.
            if an_return_shape s = Shape_Uniform \<and> te_uniformity t \<noteq> Uniform
            then diag (te_span t) ''varying expression cannot be returned from a uniform function''
            else Inr ()))"

definition return_stmt :: "inliner \<Rightarrow> expr option \<Rightarrow> span \<Rightarrow> typed_stmt an" where
  "return_stmt inl e sp s =
     (if an_divergent_depth s \<noteq> 0
      then diag sp ''return inside divergent control flow is not supported in Slice E''
      else
        rbind (optional_expr inl e s) (\<lambda>(t, s).
        rbind (check_return t sp s) (\<lambda>_. Inr (TS_Return t sp, s))))"

definition in_loop :: "typed_stmt an \<Rightarrow> typed_stmt an" where
  "in_loop body s =
     rbind (body (s\<lparr>an_loop_depth := an_loop_depth s + 1\<rparr>)) (\<lambda>(t, s).
       Inr (t, s\<lparr>an_loop_depth := an_loop_depth s - 1\<rparr>))"

lemma in_loop_cong [fundef_cong]:
  "s = s' \<Longrightarrow> (\<And>v. body v = body' v) \<Longrightarrow> in_loop body s = in_loop body' s'"
  by (simp add: in_loop_def)

definition jump_stmt :: "bool \<Rightarrow> span \<Rightarrow> typed_stmt an" where
  "jump_stmt is_break sp s =
     rbind (reject_divergent_control sp (if is_break then ''break'' else ''continue'') s) (\<lambda>_.
       if is_break then
         if an_loop_depth s = 0 \<and> an_switch_stack s = []
         then diag sp ''break is not inside a loop or switch''
         else Inr (TS_Break sp, s)
       else if an_loop_depth s = 0 then diag sp ''continue is not inside a loop''
       else Inr (TS_Continue sp, s))"

text \<open>A new label of the innermost switch; the number is the next one of the analyser.\<close>

definition add_label :: "switch_context \<Rightarrow> u32 option \<Rightarrow> span \<Rightarrow> nat an" where
  "add_label context value' sp s =
     (let i = an_next_switch_label s;
          context' = context\<lparr>sc_labels := sc_labels context @
            [\<lparr>sl_id = i, sl_value = value', sl_span = sp\<rparr>]\<rparr>
      in Inr (i, s\<lparr>an_next_switch_label := i + 1,
                   an_switch_stack := butlast (an_switch_stack s) @ [context']\<rparr>))"

definition case_label :: "inliner \<Rightarrow> expr \<Rightarrow> span \<Rightarrow> nat an" where
  "case_label inl e sp s =
     (if an_switch_stack s = [] then diag sp ''case is not inside a switch''
      else
        rbind (te_expr inl e s) (\<lambda>(t, s).
        rbind (require_integer t ''case value'') (\<lambda>_.
        rbind (constant_u32 t) (\<lambda>v.
        rbind (unwrap (if an_switch_stack s = [] then None else Some (last (an_switch_stack s)))) (\<lambda>context.
        if sc_values context v \<noteq> None then diag sp (''duplicate case value '' @ word_str v)
        else add_label (context\<lparr>sc_values := (sc_values context)(v \<mapsto> sp)\<rparr>) (Some v) sp s)))))"

definition default_label :: "span \<Rightarrow> nat an" where
  "default_label sp s =
     (if an_switch_stack s = [] then diag sp ''default is not inside a switch''
      else
        let context = last (an_switch_stack s) in
        if sc_default_span context \<noteq> None then diag sp ''duplicate default label''
        else add_label (context\<lparr>sc_default_span := Some sp\<rparr>) None sp s)"

definition push_switch :: "analyzer \<Rightarrow> analyzer" where
  "push_switch s = s\<lparr>an_switch_stack := an_switch_stack s @
     [\<lparr>sc_labels = [], sc_values = Map.empty, sc_default_span = None\<rparr>]\<rparr>"

definition pop_switch :: "analyzer \<Rightarrow> (switch_label list \<times> analyzer) cc" where
  "pop_switch s =
     rbind (unwrap (if an_switch_stack s = [] then None else Some (last (an_switch_stack s)))) (\<lambda>context.
       Inr (sc_labels context, s\<lparr>an_switch_stack := butlast (an_switch_stack s)\<rparr>))"

definition for_init_typed :: "inliner \<Rightarrow> for_init option \<Rightarrow> (typed_for_init option \<times> nat list) an" where
  "for_init_typed inl init s =
     (case init of
        None \<Rightarrow> Inr ((None, []), s)
      | Some (F_Decl ty e sp) \<Rightarrow>
          rbind (local_declaration inl ty e sp s) (\<lambda>((i, t), s). Inr ((Some (TF_Decl i t sp), [i]), s))
      | Some (F_Expr e) \<Rightarrow>
          rbind (te_expr inl e s) (\<lambda>(t, s). Inr ((Some (TF_Expr t), []), s)))"

definition for_condition :: "inliner \<Rightarrow> expr option \<Rightarrow> typed_expr option an" where
  "for_condition inl c s =
     (case c of
        None \<Rightarrow> Inr (None, s)
      | Some e \<Rightarrow> rbind (uniform_condition inl e ''for condition'' s) (\<lambda>(t, s). Inr (Some t, s)))"

definition decl_local :: "typed_stmt \<Rightarrow> nat list" where
  "decl_local t = (case t of TS_Decl i _ _ \<Rightarrow> [i] | _ \<Rightarrow> [])"

fun te_stmt :: "inliner \<Rightarrow> stmt \<Rightarrow> typed_stmt an"
and te_stmts :: "inliner \<Rightarrow> stmt list \<Rightarrow> (typed_stmt list \<times> nat list) an"
and te_block :: "inliner \<Rightarrow> block \<Rightarrow> (string \<rightharpoonup> nat) \<Rightarrow> typed_block an" where
  "te_stmt inl (S_Decl ty init sp) s =
     rbind (local_declaration inl ty init sp s) (\<lambda>((i, t), s). Inr (TS_Decl i t sp, s))"
| "te_stmt inl (S_Expr e sp) s = rbind (optional_expr inl e s) (\<lambda>(t, s). Inr (TS_Expr t, s))"
| "te_stmt inl (S_Return e sp) s = return_stmt inl e sp s"
| "te_stmt inl (S_Block b) s = rbind (te_block inl b Map.empty s) (\<lambda>(t, s). Inr (TS_Block t, s))"
| "te_stmt inl (S_If c t e sp) s =
     rbind (condition_expr inl c ''if condition'' s) (\<lambda>(condition, s).
     let masked = is_masked s condition in
     if masked \<and> an_divergent_depth s \<ge> 2
     then diag sp ''divergent if nesting exceeds the two predicate masks available in Slice E''
     else
       rbind (te_stmt inl t (enter_mask masked s)) (\<lambda>(then_branch, s).
       rbind (case e of
                None \<Rightarrow> Inr (None, s)
              | Some e \<Rightarrow> rbind (te_stmt inl e s) (\<lambda>(x, s). Inr (Some x, s))) (\<lambda>(else_branch, s).
         Inr (TS_If condition then_branch else_branch sp, leave_mask masked s))))"
| "te_stmt inl (S_While c b sp) s =
     rbind (reject_divergent_control sp ''while loop'' s) (\<lambda>_.
     rbind (uniform_condition inl c ''while condition'' s) (\<lambda>(condition, s).
     rbind (in_loop (te_stmt inl b) s) (\<lambda>(body, s).
       Inr (TS_While condition body sp, s))))"
| "te_stmt inl (S_DoWhile b c sp) s =
     rbind (reject_divergent_control sp ''do/while loop'' s) (\<lambda>_.
     rbind (in_loop (te_stmt inl b) s) (\<lambda>(body, s).
     rbind (uniform_condition inl c ''do/while condition'' s) (\<lambda>(condition, s).
       Inr (TS_DoWhile body condition sp, s))))"
| "te_stmt inl (S_For init c step b sp) s =
     rbind (reject_divergent_control sp ''for loop'' s) (\<lambda>_.
     rbind (for_init_typed inl init (push_scope Map.empty s)) (\<lambda>((tinit, local_ids), s).
     rbind (for_condition inl c s) (\<lambda>(condition, s).
     rbind (optional_expr inl step s) (\<lambda>(tstep, s).
     rbind (in_loop (te_stmt inl b) s) (\<lambda>(body, s).
       Inr (TS_For tinit condition tstep body local_ids sp, pop_scope s))))))"
| "te_stmt inl (S_Break sp) s = jump_stmt True sp s"
| "te_stmt inl (S_Continue sp) s = jump_stmt False sp s"
| "te_stmt inl (S_Switch e b sp) s =
     rbind (reject_divergent_control sp ''switch'' s) (\<lambda>_.
     rbind (uniform_condition inl e ''switch expression'' s) (\<lambda>(expression, s).
     rbind (te_stmt inl b (push_switch s)) (\<lambda>(body, s).
     rbind (pop_switch s) (\<lambda>(labels, s).
       Inr (TS_Switch expression body labels sp, s)))))"
| "te_stmt inl (S_Case e b sp) s =
     rbind (case_label inl e sp s) (\<lambda>(i, s).
     rbind (te_stmt inl b s) (\<lambda>(body, s). Inr (TS_Case i body sp, s)))"
| "te_stmt inl (S_Default b sp) s =
     rbind (default_label sp s) (\<lambda>(i, s).
     rbind (te_stmt inl b s) (\<lambda>(body, s). Inr (TS_Default i body sp, s)))"
| "te_stmts inl [] s = Inr (([], []), s)"
| "te_stmts inl (x # xs) s =
     rbind (te_stmt inl x s) (\<lambda>(t, s).
     rbind (te_stmts inl xs s) (\<lambda>((ts, ids), s). Inr ((t # ts, decl_local t @ ids), s)))"
| "te_block inl (Block xs sp) bindings s =
     rbind (te_stmts inl xs (push_scope bindings s)) (\<lambda>((ts, ids), s).
       Inr (TBlock ts ids sp, pop_scope s))"

end
