(* ===== verification/Sema.thy ===== *)
theory Sema
  imports Sema_Stmt
begin

text \<open>
  The analysis of a whole program (\<open>analyze\<close>, \<open>Analyzer::program\<close>, \<open>inline_call\<close> and
  \<open>dump_uniformity\<close> of \<open>tools/warpc/src/sema.rs\<close>). Expanding an inline candidate analyses its
  statements, whose own calls would be expanded in turn. Candidates contain no calls, so one
  level of expansion is all there is; \<open>inliner\<close> is the chain of levels, and \<open>Sema_Equations\<close> shows
  that its end is not reached.
\<close>

section \<open>Expansion of a candidate\<close>

text \<open>The parameters, as locals of the caller initialised with the arguments.\<close>

fun inline_params :: "function_symbol \<Rightarrow> nat \<Rightarrow> parameter list \<Rightarrow> ctype list \<Rightarrow> typed_expr list
    \<Rightarrow> typed_stmt list an" where
  "inline_params symbol n (p # ps) (ty # tys) (a # as) s =
     rbind (unwrap (dc_name (dt_declarator (p_ty p)))) (\<lambda>name.
     rbind (index_at (fs_param_shapes symbol) n) (\<lambda>shape.
       let (i, s) = new_local (name @ '' [inlined '' @ fs_name symbol @ '']'') ty (p_span p) shape True s in
       rbind (bind_local name i s) (\<lambda>s.
       rbind (inline_params symbol (n + 1) ps tys as s) (\<lambda>(ts, s).
         Inr (TS_Decl i (Some (TI_Expr a)) (p_span p) # ts, s)))))"
| "inline_params symbol n _ _ _ s = Inr ([], s)"

fun inline_stmts :: "(stmt \<Rightarrow> typed_stmt an) \<Rightarrow> stmt list \<Rightarrow> typed_stmt list an" where
  "inline_stmts st [] s = Inr ([], s)"
| "inline_stmts st (x # xs) s =
     rbind (st x s) (\<lambda>(t, s).
     rbind (case t of TS_Decl i _ _ \<Rightarrow> take_address i s | _ \<Rightarrow> Inr s) (\<lambda>s.
     rbind (inline_stmts st xs s) (\<lambda>(ts, s). Inr (t # ts, s))))"

definition inline_body :: "(expr \<Rightarrow> typed_expr an) \<Rightarrow> (stmt \<Rightarrow> typed_stmt an) \<Rightarrow> inliner" where
  "inline_body ex st candidate args symbol sp s =
     rbind (inline_params symbol 0 (ic_params candidate) (fs_params symbol) args
              (push_scope Map.empty s)) (\<lambda>(decls, s).
     rbind (inline_stmts st (ic_statements candidate) s) (\<lambda>(stmts, s).
     rbind (ex (ic_result candidate) s) (\<lambda>(result, s).
     rbind (require_assignable s (fs_return_type symbol) result ''return value'') (\<lambda>_.
     if fs_return_shape symbol = Shape_Uniform \<and> te_uniformity result \<noteq> Uniform
     then diag (te_span result) ''varying expression cannot be returned from a uniform function''
     else Inr (TExpr (TE_Inline (decls @ stmts) result) (fs_return_type symbol)
                 (expression_uniformity (fs_return_shape symbol)) sp, pop_scope s)))))"

fun expander :: "nat \<Rightarrow> inliner" where
  "expander 0 = (\<lambda>candidate args symbol sp s. Inl OutOfFuel)"
| "expander (Suc n) = inline_body (te_expr (expander n)) (te_stmt (expander n))"

definition analyze_expr :: "expr \<Rightarrow> typed_expr an" where
  "analyze_expr = te_expr (expander 1)"

definition analyze_stmt :: "stmt \<Rightarrow> typed_stmt an" where
  "analyze_stmt = te_stmt (expander 1)"

definition analyze_block :: "block \<Rightarrow> (string \<rightharpoonup> nat) \<Rightarrow> typed_block an" where
  "analyze_block = te_block (expander 1)"

section \<open>Functions\<close>

text \<open>The parameters of a definition, with the scope of their names.\<close>

fun bind_params :: "function_symbol \<Rightarrow> nat \<Rightarrow> parameter list \<Rightarrow> (string \<rightharpoonup> nat)
    \<Rightarrow> ((string \<rightharpoonup> nat) \<times> nat list) an" where
  "bind_params symbol n [] bindings s = Inr ((bindings, []), s)"
| "bind_params symbol n (p # ps) bindings s =
     (case dc_name (dt_declarator (p_ty p)) of
        None \<Rightarrow> diag (p_span p) ''function definitions require parameter names''
      | Some name \<Rightarrow>
          rbind (reject_warp_declaration name (p_span p)) (\<lambda>_.
          if bindings name \<noteq> None then diag (p_span p) (''duplicate parameter '' @ quoted name)
          else
            rbind (index_at (fs_param_shapes symbol) n) (\<lambda>shape.
            rbind (index_at (fs_params symbol) n) (\<lambda>ty.
              let (i, s) = new_local name ty (p_span p) shape False s in
              rbind (bind_params symbol (n + 1) ps (bindings(name \<mapsto> i)) s) (\<lambda>((b, is), s).
                Inr ((b, i # is), s))))))"

text \<open>Frame slots of the locals that need memory, from offset \<open>words\<close> on.\<close>

fun place_locals :: "struct_info list \<Rightarrow> local_info list \<Rightarrow> nat \<Rightarrow> (local_info list \<times> nat) cc" where
  "place_locals structs [] words = Inr ([], words)"
| "place_locals structs (l # ls) words =
     (if li_address_taken l \<or> \<not> is_scalar (li_ty l) then
        rbind (type_size (li_ty l) structs) (\<lambda>size.
        rbind (add_usize words size) (\<lambda>words'.
        rbind (place_locals structs ls words') (\<lambda>(ls', total).
          Inr (l\<lparr>li_frame_offset := Some words\<rparr> # ls', total))))
      else rbind (place_locals structs ls words) (\<lambda>(ls', total). Inr (l # ls', total)))"

definition frame_fits :: "nat \<Rightarrow> nat \<Rightarrow> bool cc" where
  "frame_fits data_words frame_words =
     rbind (mul_usize frame_words 32) (\<lambda>f.
     rbind (add_usize data_words f) (\<lambda>total. Inr (total < RAM_SIZE_WORDS)))"

definition analyze_function :: "function_decl \<Rightarrow> block \<Rightarrow> typed_function an" where
  "analyze_function f body s =
     rbind (map_at (an_function_ids s) (f_name f)) (\<lambda>i.
     rbind (index_at (an_functions s) i) (\<lambda>symbol.
       let s = s\<lparr>an_current_function := Some i, an_divergent_depth := 0,
                 an_return_type := fs_return_type symbol, an_return_shape := fs_return_shape symbol\<rparr>;
           local_start = length (an_locals s)
       in
       rbind (bind_params symbol 0 (f_params f) Map.empty s) (\<lambda>((bindings, params), s).
       rbind (analyze_block body bindings s) (\<lambda>(tbody, s).
       rbind (place_locals (an_structs s) (drop local_start (an_locals s)) 0) (\<lambda>(placed, frame_words).
       let s = s\<lparr>an_locals := take local_start (an_locals s) @ placed\<rparr> in
       rbind (frame_fits (length (an_data_words s)) frame_words) (\<lambda>fits.
       if \<not> fits then diag (f_span f) ''Warp C data and local stack frame exceed VM RAM''
       else
         Inr (\<lparr>tf_id = i, tf_name = f_name f, tf_return_type = an_return_type s,
                tf_return_shape = an_return_shape s, tf_params = params, tf_body = tbody,
                tf_frame_words = frame_words, tf_span = f_span f\<rparr>, s)))))))"

fun analyze_functions :: "function_decl list \<Rightarrow> typed_function list an" where
  "analyze_functions [] s = Inr ([], s)"
| "analyze_functions (f # fs) s =
     (case f_body f of
        None \<Rightarrow> analyze_functions fs s
      | Some body \<Rightarrow>
          rbind (analyze_function f body s) (\<lambda>(t, s).
          rbind (analyze_functions fs s) (\<lambda>(ts, s). Inr (t # ts, s))))"

section \<open>Programs\<close>

definition check_main :: "program \<Rightarrow> analyzer \<Rightarrow> nat cc" where
  "check_main p s =
     (case an_function_ids s ''main'' of
        None \<Rightarrow>
          rbind (index_at (pr_functions p) 0) (\<lambda>f.
            diag (f_span f) ''the current frontend requires int main(void)'')
      | Some main \<Rightarrow>
          rbind (index_at (an_functions s) main) (\<lambda>symbol.
          if \<not> fs_defined symbol \<or> fs_return_type symbol \<noteq> T_I32 \<or> fs_params symbol \<noteq> []
          then diag (fs_span symbol) ''program entry must be a definition of int main(void)''
          else Inr main))"

definition analyze :: "program \<Rightarrow> typed_program cc" where
  "analyze p =
     rbind (register_declarations p) (\<lambda>s.
     rbind (collect_inline_candidates (pr_functions p) (an_function_ids s)) (\<lambda>candidates.
     let s = s\<lparr>an_inline_candidates := candidates,
               an_call_edges := replicate (length (an_functions s)) []\<rparr> in
     rbind (check_main p s) (\<lambda>main.
     rbind (analyze_functions (pr_functions p) s) (\<lambda>(functions, s).
     rbind (validate_call_graph (s\<lparr>an_current_function := None\<rparr>)) (\<lambda>_.
       let called = set (concat (an_call_edges s)) in
       Inr \<lparr>tp_functions = filter (\<lambda>f. tf_id f = main \<or> an_inline_candidates s (tf_id f) = None
                                    \<or> tf_id f \<in> called) functions,
            tp_function_names = map fs_name (an_functions s),
            tp_function_param_shapes = map fs_param_shapes (an_functions s),
            tp_function_return_shapes = map fs_return_shape (an_functions s),
            tp_main = main, tp_locals = an_locals s, tp_globals = an_globals s,
            tp_structs = an_structs s, tp_data_words = an_data_words s\<rparr>)))))"

section \<open>The uniformity report\<close>

definition shape_debug :: "value_shape \<Rightarrow> string" where
  "shape_debug s = (case s of Shape_Warp \<Rightarrow> ''Warp'' | Shape_Uniform \<Rightarrow> ''Uniform'')"

definition uniformity_debug :: "uniformity \<Rightarrow> string" where
  "uniformity_debug u = (case u of Uniform \<Rightarrow> ''Uniform'' | Divergent \<Rightarrow> ''Divergent'')"

definition dump_local :: "struct_info list \<Rightarrow> nat \<times> local_info \<Rightarrow> string cc" where
  "dump_local structs = (\<lambda>(i, l).
     rbind (ctype_name (li_ty l) structs) (\<lambda>ty.
       Inr (''local #'' @ nat_str i @ '' '' @ li_name l @ '': '' @ ty @ '' at ''
         @ nat_str (s_line (li_span l)) @ '':'' @ nat_str (s_column (li_span l))
         @ '' => shape='' @ shape_debug (li_shape l) @ '', expression=''
         @ uniformity_debug (li_uniformity l) @ [newline])))"

definition dump_uniformity :: "typed_program \<Rightarrow> string cc" where
  "dump_uniformity p =
     rbind (map_res (dump_local (tp_structs p)) (enumerate 0 (tp_locals p))) (\<lambda>ls. Inr (concat ls))"

end
