(* ===== verification/Typing.thy ===== *)
theory Typing
  imports Sema
begin

text \<open>
  The typing rules of the typed tree, written apart from the analysis: when a tree is well
  typed over the types of the locals, the globals, the structures and the function signatures.
  All identifiers are in range, the type of an lvalue is what it refers to, scales of pointers
  are sizes of what they point to, calls match their signatures, and operators have operands
  of the types they take.
\<close>

section \<open>Environments\<close>

record typing =
  en_locals :: "ctype list"
  en_globals :: "ctype list"
  en_structs :: "struct_info list"
  en_functions :: "function_symbol list"

definition env_of :: "analyzer \<Rightarrow> typing" where
  "env_of s = \<lparr>en_locals = map li_ty (an_locals s), en_globals = map gi_ty (an_globals s),
     en_structs = an_structs s, en_functions = an_functions s\<rparr>"

text \<open>Later analysis only adds locals.\<close>

definition env_le :: "typing \<Rightarrow> typing \<Rightarrow> bool" where
  "env_le G H \<longleftrightarrow> (\<exists>ts. en_locals H = en_locals G @ ts) \<and> en_globals H = en_globals G
     \<and> en_structs H = en_structs G \<and> en_functions H = en_functions G"

section \<open>Types\<close>

definition type_ok :: "typing \<Rightarrow> ctype \<Rightarrow> bool" where
  "type_ok G t \<longleftrightarrow> (case ty_base t of BT_Struct i \<Rightarrow> i < length (en_structs G) | _ \<Rightarrow> True)"

fun lv_type :: "typing \<Rightarrow> lvalue \<Rightarrow> ctype option" where
  "lv_type G (LV_Local i) = (if i < length (en_locals G) then Some (en_locals G ! i) else None)"
| "lv_type G (LV_Global i) = (if i < length (en_globals G) then Some (en_globals G ! i) else None)"
| "lv_type G (LV_Deref p) = pointee (value_type (te_ty p))"
| "lv_type G (LV_Index b i k) = pointee (value_type (te_ty b))"
| "lv_type G (LV_Member l offset) =
     (case lv_type G l of
        None \<Rightarrow> None
      | Some t \<Rightarrow>
          (case ty_base t of
             BT_Struct i \<Rightarrow>
               if is_struct t \<and> i < length (en_structs G)
               then map_option fi_ty (find (\<lambda>f. fi_offset f = offset) (si_fields (en_structs G ! i)))
               else None
           | _ \<Rightarrow> None))"

definition assignable :: "ctype \<Rightarrow> typed_expr \<Rightarrow> bool" where
  "assignable target e \<longleftrightarrow>
     (let source = value_type (te_ty e) in
      (is_integer target \<and> is_integer source) \<or> compatible_pointers target source
      \<or> (is_pointer target \<and> is_zero_literal e))"

text \<open>What one step of a pointer of the type \<open>t\<close> is, and the step of other types.\<close>

definition step_of :: "typing \<Rightarrow> ctype \<Rightarrow> nat \<Rightarrow> bool" where
  "step_of G t k \<longleftrightarrow>
     (if is_pointer t then \<exists>p\<in>set_option (pointee t). type_size p (en_structs G) = Inr k else k = 1)"

definition address_type :: "ctype \<Rightarrow> ctype" where
  "address_type t = (if is_array t then decay t else pointer_to t)"

section \<open>Operators\<close>

definition unary_ok :: "unary_op \<Rightarrow> ctype \<Rightarrow> ctype \<Rightarrow> bool" where
  "unary_ok op operand ty \<longleftrightarrow> op \<in> {U_Plus, U_Minus, U_BitNot, U_LogicalNot} \<and> is_integer operand
     \<and> ty = (if op = U_LogicalNot then T_I32 else promoted operand)"

definition comparable :: "typed_expr \<Rightarrow> typed_expr \<Rightarrow> bool" where
  "comparable l r \<longleftrightarrow>
     (let lt = value_type (te_ty l); rt = value_type (te_ty r) in
      compatible_pointers lt rt \<or> (is_pointer lt \<and> is_zero_literal r) \<or> (is_pointer rt \<and> is_zero_literal l))"

definition binary_ok :: "binary_op \<Rightarrow> typed_expr \<Rightarrow> typed_expr \<Rightarrow> ctype \<Rightarrow> ctype \<Rightarrow> bool" where
  "binary_ok op l r operand_type ty \<longleftrightarrow>
     (let lt = value_type (te_ty l); rt = value_type (te_ty r) in
      if is_integer lt \<and> is_integer rt
      then operand_type = usual_type lt rt \<and> ty = binary_result_type op lt rt operand_type
      else op \<in> {B_Eq, B_Ne} \<and> comparable l r \<and> operand_type = T_U32 \<and> ty = T_I32)"

definition arm_ok :: "ctype \<Rightarrow> typed_expr \<Rightarrow> bool" where
  "arm_ok ty e \<longleftrightarrow> value_type (te_ty e) = ty \<or> assignable ty e"

definition conditional_ok :: "typed_expr \<Rightarrow> typed_expr \<Rightarrow> ctype \<Rightarrow> bool" where
  "conditional_ok t e ty \<longleftrightarrow> (ty = T_VOID \<or> is_scalar ty) \<and> arm_ok ty t \<and> arm_ok ty e"

definition assign_ok :: "assign_op \<Rightarrow> ctype \<Rightarrow> typed_expr \<Rightarrow> ctype \<Rightarrow> bool" where
  "assign_ok op ty r operand_type \<longleftrightarrow>
     (if op = A_Assign then assignable ty r
      else is_integer (value_type (te_ty r)) \<and> (is_pointer ty \<longrightarrow> op = A_Add \<or> op = A_Sub))
     \<and> operand_type = (if is_pointer ty then T_U32 else usual_type ty (value_type (te_ty r)))"

definition intrinsic_arg_ok :: "intrinsic \<Rightarrow> typed_expr \<Rightarrow> bool" where
  "intrinsic_arg_ok i a \<longleftrightarrow>
     (if i = I_TryRecv then value_type (te_ty a) = pointer_to T_U32 else is_integer (value_type (te_ty a)))"

definition min_max_ok :: "intrinsic \<Rightarrow> typed_expr list \<Rightarrow> ctype \<Rightarrow> bool" where
  "min_max_ok i args ty \<longleftrightarrow>
     (case args of
        [l, r] \<Rightarrow> ty = usual_type (value_type (te_ty l)) (value_type (te_ty r))
          \<and> i \<in> (if ty = T_I32 then {I_MinSigned, I_MaxSigned} else {I_MinUnsigned, I_MaxUnsigned})
      | _ \<Rightarrow> False)"

definition intrinsic_ok :: "intrinsic \<Rightarrow> typed_expr list \<Rightarrow> ctype \<Rightarrow> bool" where
  "intrinsic_ok i args ty \<longleftrightarrow> list_all (intrinsic_arg_ok i) args
     \<and> (list_ex (\<lambda>(_, j, n, t, _). j = i \<and> n = length args \<and> t = ty) signatures \<or> min_max_ok i args ty)"

definition call_ok :: "typing \<Rightarrow> nat \<Rightarrow> typed_expr list \<Rightarrow> ctype \<Rightarrow> bool" where
  "call_ok G f args ty \<longleftrightarrow> f < length (en_functions G)
     \<and> list_all2 assignable (fs_params (en_functions G ! f)) args
     \<and> ty = fs_return_type (en_functions G ! f)"

section \<open>Trees\<close>

text \<open>The parameter \<open>ret\<close> of a statement is the type its function returns.\<close>

text \<open>An expansion holds declarations and expressions only.\<close>

fun straight :: "typed_stmt \<Rightarrow> bool" where
  "straight (TS_Decl i init sp) \<longleftrightarrow> True"
| "straight (TS_Expr e) \<longleftrightarrow> True"
| "straight _ \<longleftrightarrow> False"

fun te_ok :: "typing \<Rightarrow> typed_expr \<Rightarrow> bool"
and kind_ok :: "typing \<Rightarrow> ctype \<Rightarrow> typed_kind \<Rightarrow> bool"
and lv_ok :: "typing \<Rightarrow> lvalue \<Rightarrow> bool"
and init_ok :: "typing \<Rightarrow> ctype \<Rightarrow> typed_initializer \<Rightarrow> bool"
and ts_ok :: "typing \<Rightarrow> ctype \<Rightarrow> typed_stmt \<Rightarrow> bool"
and for_ok :: "typing \<Rightarrow> typed_for_init \<Rightarrow> bool"
and tb_ok :: "typing \<Rightarrow> ctype \<Rightarrow> typed_block \<Rightarrow> bool" where
  "te_ok G (TExpr k ty u sp) \<longleftrightarrow> type_ok G ty \<and> kind_ok G ty k"
| "kind_ok G ty (TE_Literal v) \<longleftrightarrow> is_integer ty"
| "kind_ok G ty (TE_StringAddress a) \<longleftrightarrow> ty = pointer_to T_CHAR"
| "kind_ok G ty (TE_Intrinsic i args) \<longleftrightarrow> intrinsic_ok i args ty \<and> list_all (te_ok G) args"
| "kind_ok G ty (TE_LValue l) \<longleftrightarrow> lv_ok G l \<and> lv_type G l = Some ty"
| "kind_ok G ty (TE_AddressOf l) \<longleftrightarrow> lv_ok G l \<and> map_option address_type (lv_type G l) = Some ty"
| "kind_ok G ty (TE_Unary op e) \<longleftrightarrow> te_ok G e \<and> unary_ok op (value_type (te_ty e)) ty"
| "kind_ok G ty (TE_Binary op l r ot) \<longleftrightarrow> te_ok G l \<and> te_ok G r \<and> binary_ok op l r ot ty"
| "kind_ok G ty (TE_Conditional c t e) \<longleftrightarrow> te_ok G c \<and> te_ok G t \<and> te_ok G e
     \<and> is_scalar (value_type (te_ty c)) \<and> conditional_ok t e ty"
| "kind_ok G ty (TE_PointerAdd p i k subtract) \<longleftrightarrow> te_ok G p \<and> te_ok G i
     \<and> is_pointer ty \<and> value_type (te_ty p) = ty \<and> is_integer (value_type (te_ty i)) \<and> step_of G ty k"
| "kind_ok G ty (TE_PointerDiff l r k) \<longleftrightarrow> te_ok G l \<and> te_ok G r \<and> ty = T_I32
     \<and> compatible_pointers (value_type (te_ty l)) (value_type (te_ty r))
     \<and> step_of G (value_type (te_ty l)) k"
| "kind_ok G ty (TE_Assign l op r ot k) \<longleftrightarrow> lv_ok G l \<and> te_ok G r
     \<and> map_option value_type (lv_type G l) = Some ty \<and> is_scalar ty \<and> assign_ok op ty r ot \<and> step_of G ty k"
| "kind_ok G ty (TE_IncDec l increment post k) \<longleftrightarrow> lv_ok G l
     \<and> map_option value_type (lv_type G l) = Some ty \<and> is_scalar ty \<and> step_of G ty k"
| "kind_ok G ty (TE_Inline stmts e) \<longleftrightarrow> list_all straight stmts
     \<and> list_all (ts_ok G T_VOID) stmts \<and> te_ok G e \<and> assignable ty e"
| "kind_ok G ty (TE_Call f args) \<longleftrightarrow> call_ok G f args ty \<and> list_all (te_ok G) args"
| "lv_ok G (LV_Local i) \<longleftrightarrow> i < length (en_locals G)"
| "lv_ok G (LV_Global i) \<longleftrightarrow> i < length (en_globals G)"
| "lv_ok G (LV_Deref p) \<longleftrightarrow> te_ok G p \<and> pointee (value_type (te_ty p)) \<noteq> None"
| "lv_ok G (LV_Index b i k) \<longleftrightarrow> te_ok G b \<and> te_ok G i \<and> is_integer (value_type (te_ty i))
     \<and> is_pointer (value_type (te_ty b)) \<and> step_of G (value_type (te_ty b)) k"
| "lv_ok G (LV_Member l offset) \<longleftrightarrow> lv_ok G l \<and> lv_type G (LV_Member l offset) \<noteq> None"
| "init_ok G ty (TI_Expr e) \<longleftrightarrow> te_ok G e \<and> assignable ty e"
| "init_ok G ty (TI_Words ws) \<longleftrightarrow> ty_base ty = BT_Char \<and> ty_pointers ty = 0
     \<and> (case ty_array_len ty of None \<Rightarrow> False | Some n \<Rightarrow> length ws \<le> n)"
| "ts_ok G ret (TS_Decl i init sp) \<longleftrightarrow> i < length (en_locals G)
     \<and> (case init of None \<Rightarrow> True | Some t \<Rightarrow> init_ok G (en_locals G ! i) t)"
| "ts_ok G ret (TS_Expr e) \<longleftrightarrow> (case e of None \<Rightarrow> True | Some t \<Rightarrow> te_ok G t)"
| "ts_ok G ret (TS_Return e sp) \<longleftrightarrow>
     (case e of None \<Rightarrow> is_void ret | Some t \<Rightarrow> \<not> is_void ret \<and> te_ok G t \<and> assignable ret t)"
| "ts_ok G ret (TS_Block b) \<longleftrightarrow> tb_ok G ret b"
| "ts_ok G ret (TS_If c t e sp) \<longleftrightarrow> te_ok G c \<and> is_scalar (value_type (te_ty c)) \<and> ts_ok G ret t
     \<and> (case e of None \<Rightarrow> True | Some x \<Rightarrow> ts_ok G ret x)"
| "ts_ok G ret (TS_While c b sp) \<longleftrightarrow> te_ok G c \<and> is_scalar (value_type (te_ty c)) \<and> ts_ok G ret b"
| "ts_ok G ret (TS_DoWhile b c sp) \<longleftrightarrow> te_ok G c \<and> is_scalar (value_type (te_ty c)) \<and> ts_ok G ret b"
| "ts_ok G ret (TS_For init c step b is sp) \<longleftrightarrow> (case init of None \<Rightarrow> True | Some i \<Rightarrow> for_ok G i)
     \<and> (case c of None \<Rightarrow> True | Some t \<Rightarrow> te_ok G t \<and> is_scalar (value_type (te_ty t)))
     \<and> (case step of None \<Rightarrow> True | Some t \<Rightarrow> te_ok G t) \<and> ts_ok G ret b
     \<and> list_all (\<lambda>i. i < length (en_locals G)) is"
| "ts_ok G ret (TS_Break sp) \<longleftrightarrow> True"
| "ts_ok G ret (TS_Continue sp) \<longleftrightarrow> True"
| "ts_ok G ret (TS_Switch e b labels sp) \<longleftrightarrow> te_ok G e \<and> is_scalar (value_type (te_ty e)) \<and> ts_ok G ret b"
| "ts_ok G ret (TS_Case i b sp) \<longleftrightarrow> ts_ok G ret b"
| "ts_ok G ret (TS_Default i b sp) \<longleftrightarrow> ts_ok G ret b"
| "for_ok G (TF_Decl i init sp) \<longleftrightarrow> i < length (en_locals G)
     \<and> (case init of None \<Rightarrow> True | Some t \<Rightarrow> init_ok G (en_locals G ! i) t)"
| "for_ok G (TF_Expr e) \<longleftrightarrow> te_ok G e"
| "tb_ok G ret (TBlock stmts is sp) \<longleftrightarrow> list_all (ts_ok G ret) stmts
     \<and> list_all (\<lambda>i. i < length (en_locals G)) is"

section \<open>More locals\<close>

lemma env_le_refl [simp]: "env_le G G"
  by (simp add: env_le_def)

lemma env_le_trans: "env_le G H \<Longrightarrow> env_le H K \<Longrightarrow> env_le G K"
  by (auto simp: env_le_def)

lemma lv_type_mono:
  assumes "env_le G H" "lv_type G l = Some t"
  shows "lv_type H l = Some t"
  using assms(2)
proof (induction l arbitrary: t)
  case (LV_Member l offset)
  then show ?case
    using assms(1) by (auto simp: env_le_def split: option.splits base_type.splits if_splits)
qed (use assms(1) in \<open>auto simp: env_le_def nth_append split: if_splits\<close>)

lemma step_of_mono: "env_le G H \<Longrightarrow> step_of H t k = step_of G t k"
  by (simp add: step_of_def env_le_def)

lemma type_ok_mono: "env_le G H \<Longrightarrow> type_ok H t = type_ok G t"
  by (cases "ty_base t") (simp_all add: type_ok_def env_le_def)

lemma call_ok_mono: "env_le G H \<Longrightarrow> call_ok H f args t = call_ok G f args t"
  by (simp add: call_ok_def env_le_def)

lemma locals_mono: "env_le G H \<Longrightarrow> i < length (en_locals G) \<Longrightarrow> i < length (en_locals H)"
  by (auto simp: env_le_def)

lemma local_mono: "env_le G H \<Longrightarrow> i < length (en_locals G) \<Longrightarrow> en_locals H ! i = en_locals G ! i"
  by (auto simp: env_le_def nth_append)

lemma globals_mono: "env_le G H \<Longrightarrow> en_globals H = en_globals G"
  by (simp add: env_le_def)

lemmas env_mono = step_of_mono type_ok_mono call_ok_mono locals_mono local_mono globals_mono

lemma typing_mono:
  shows "te_ok G e \<Longrightarrow> env_le G H \<Longrightarrow> te_ok H e" "kind_ok G ty k \<Longrightarrow> env_le G H \<Longrightarrow> kind_ok H ty k"
    "lv_ok G l \<Longrightarrow> env_le G H \<Longrightarrow> lv_ok H l" "init_ok G t i \<Longrightarrow> env_le G H \<Longrightarrow> init_ok H t i"
    "ts_ok G ret s \<Longrightarrow> env_le G H \<Longrightarrow> ts_ok H ret s" "for_ok G f \<Longrightarrow> env_le G H \<Longrightarrow> for_ok H f"
    "tb_ok G ret b \<Longrightarrow> env_le G H \<Longrightarrow> tb_ok H ret b"
proof (induction G e and G ty k and G l and G t i and G ret s and G f and G ret b
    rule: te_ok_kind_ok_lv_ok_init_ok_ts_ok_for_ok_tb_ok.induct)
qed (auto simp: env_mono list_all_iff simp del: lv_type.simps(5) dest: lv_type_mono split: option.splits)

end
