(* ===== verification/Sema_Frame.thy ===== *)
theory Sema_Frame
  imports Sema
begin

text \<open>
  What the analysis of an expression or a statement may change in the analyser. The locales
  state the contract between the analysis and a relation on its states: the relation is kept
  by each primitive change the analysis makes. That the whole analysis keeps it is proved once
  in the locale, and the relations of the development are interpretations.
\<close>

section \<open>Results that lead to related states\<close>

definition leads :: "(analyzer \<Rightarrow> analyzer \<Rightarrow> bool) \<Rightarrow> analyzer \<Rightarrow> ('a \<times> analyzer) cc \<Rightarrow> bool" where
  "leads R s r \<longleftrightarrow> (\<forall>x t. r = Inr (x, t) \<longrightarrow> R s t)"

lemma leads_diag [simp]: "leads R s (diag sp m)" "leads R s (Inl e)"
  by (simp_all add: leads_def)

lemma leads_Inr [simp]: "leads R s (Inr (x, t)) \<longleftrightarrow> R s t"
  by (simp add: leads_def)

lemma leads_if: "(c \<Longrightarrow> leads R s a) \<Longrightarrow> (\<not> c \<Longrightarrow> leads R s b) \<Longrightarrow> leads R s (if c then a else b)"
  by simp

lemma leads_option:
  "(o' = None \<Longrightarrow> leads R s a) \<Longrightarrow> (\<And>x. o' = Some x \<Longrightarrow> leads R s (b x)) \<Longrightarrow>
   leads R s (case o' of None \<Rightarrow> a | Some x \<Rightarrow> b x)"
  by (simp split: option.split)

text \<open>A step that only computes a value. The two trivial premises make the classical reasoner
  try the rules for steps with a state first.\<close>

lemma leads_pure: "True \<Longrightarrow> True \<Longrightarrow> (\<And>x. m = Inr x \<Longrightarrow> leads R s (f x)) \<Longrightarrow> leads R s (rbind m f)"
  by (cases m) (simp_all add: leads_def)

lemma leads_mono: "leads R s r \<Longrightarrow> (\<And>t. R s t \<Longrightarrow> Q s t) \<Longrightarrow> leads Q s r"
  by (simp add: leads_def)

section \<open>The contract of expressions\<close>

locale expr_contract =
  fixes R :: "analyzer \<Rightarrow> analyzer \<Rightarrow> bool"
  assumes same: "R s s"
    and chain: "R s t \<Longrightarrow> R t u \<Longrightarrow> R s u"
    and words: "R s (s\<lparr>an_data_words := an_data_words s @ ws\<rparr>)"
    and address: "take_address i s = Inr t \<Longrightarrow> R s t"
    and edge: "add_call_edge f s = Inr t \<Longrightarrow> R s t"
    and masked: "R (enter_mask b s) t \<Longrightarrow> R s (leave_mask b t)"
begin

lemma bind: "leads R s m \<Longrightarrow> (\<And>x t. m = Inr (x, t) \<Longrightarrow> R s t \<Longrightarrow> leads R t (f (x, t))) \<Longrightarrow>
    leads R s (rbind m f)"
  unfolding leads_def by (cases m) (auto intro: chain)

lemma mark: "mark_address_taken lv s = Inr t \<Longrightarrow> R s t"
  by (induction lv s rule: mark_address_taken.induct) (auto intro: same address)

lemma step: "R s t \<Longrightarrow> leads R t r \<Longrightarrow> leads R s r"
  by (auto simp: leads_def intro: chain)

lemma finished: "leads R s (rbind m (\<lambda>x. Inr (x, s)))"
  by (cases m) (simp_all add: same)

lemma arms:
  assumes "leads R (enter_mask b s) m" "\<And>x t. m = Inr (x, t) \<Longrightarrow> leads R t (g x t)"
  shows "leads R s (rbind m (\<lambda>(x, t). rbind (g x t) (\<lambda>(y, u). rbind (h x y) (\<lambda>z. Inr (z, leave_mask b u)))))"
proof -
  have "leads R (enter_mask b s) (rbind m (\<lambda>(x, t). rbind (g x t) (\<lambda>(y, u). rbind (h x y) (\<lambda>z. Inr (z, u)))))"
    using assms by (auto intro!: bind finished)
  then show ?thesis
    unfolding leads_def by (auto simp: rbind_def intro!: masked split: sum.splits)
qed

lemma unary: "leads R s (unary op e sp s)"
proof -
  have "leads R s (unary_address_of e sp s)"
    unfolding unary_address_of_def
    by (intro leads_pure leads_if) (auto intro: mark)
  then show ?thesis
    unfolding unary_def by (auto intro: finished)
qed

lemma finish_call: "leads R s (finish_call f symbol args sp s)"
  unfolding finish_call_def by (auto intro!: leads_pure intro: edge)

lemma plan_finish:
  assumes "\<And>c args symbol sp s. leads R s (inl c args symbol sp s)"
  shows "leads R s (plan_finish inl callee plan args sp s)"
  unfolding plan_finish_def
  by (cases plan) (auto intro!: leads_pure same finish_call assms)

lemma te_expr:
  assumes "\<And>c args symbol sp s. leads R s (inl c args symbol sp s)"
  shows "leads R s (te_expr inl e s)" "leads R s (te_args inl plan n es s)"
  using assms
proof (induction inl e s and inl plan n es s rule: te_expr_te_args.induct)
  case (8 inl c t e sp s)
  note IH = 8(1) [OF 8(4)] 8(2) [OF _ _ _ _ _ 8(4)] 8(3) [OF _ _ _ _ _ _ _ 8(4)]
  have "leads R t' (rbind (check_condition ''conditional condition'' x) (\<lambda>_.
      if is_masked t' x \<and> an_divergent_depth t' \<ge> 2
      then diag sp ''divergent conditional nesting exceeds the two predicate masks available in Slice E''
      else rbind (te_expr inl t (enter_mask (is_masked t' x) t')) (\<lambda>(a, s).
        rbind (te_expr inl e s) (\<lambda>(b, s).
        rbind (conditional x a b sp) (\<lambda>y. Inr (y, leave_mask (is_masked t' x) s))))))"
    if "te_expr inl c s = Inr (x, t')" for x t'
    using that by (intro leads_pure leads_if leads_diag arms TrueI) (auto intro: IH)
  then show ?case
    unfolding te_expr.simps Let_def by (auto intro!: bind IH)
qed (auto simp: allocate_words_def intro!: bind leads_pure
      intro: same words step [OF _ unary] step [OF _ plan_finish])

end

section \<open>The contract of statements\<close>

text \<open>A statement may also declare names in the innermost scope: \<open>Q\<close> is the weaker relation.\<close>

locale stmt_contract = expr_contract R for R +
  fixes Q :: "analyzer \<Rightarrow> analyzer \<Rightarrow> bool"
  assumes weaken: "R s t \<Longrightarrow> Q s t"
    and chain_Q: "Q s t \<Longrightarrow> Q t u \<Longrightarrow> Q s u"
    and masked_Q: "Q (enter_mask b s) t \<Longrightarrow> Q s (leave_mask b t)"
    and declared: "new_local title ty sp shape taken s = (i, t) \<Longrightarrow> bind_local name i t = Inr u \<Longrightarrow> Q s u"
    and scoped: "Q (push_scope m s) t \<Longrightarrow> R s (pop_scope t)"
    and looped: "Q (s\<lparr>an_loop_depth := an_loop_depth s + 1\<rparr>) t \<Longrightarrow>
      Q s (t\<lparr>an_loop_depth := an_loop_depth t - 1\<rparr>)"
    and case_labelled: "an_switch_stack s \<noteq> [] \<Longrightarrow> c = last (an_switch_stack s) \<Longrightarrow> sc_values c v = None \<Longrightarrow>
      add_label (c\<lparr>sc_values := (sc_values c)(v \<mapsto> sp)\<rparr>) (Some v) sp s = Inr (i, t) \<Longrightarrow> R s t"
    and default_labelled: "an_switch_stack s \<noteq> [] \<Longrightarrow> c = last (an_switch_stack s) \<Longrightarrow>
      sc_default_span c = None \<Longrightarrow>
      add_label (c\<lparr>sc_default_span := Some sp\<rparr>) None sp s = Inr (i, t) \<Longrightarrow> R s t"
    and switched: "Q (push_switch s) t \<Longrightarrow> pop_switch t = Inr (ls, u) \<Longrightarrow> Q s u"
begin

lemma bind_Q: "leads Q s m \<Longrightarrow> (\<And>x t. m = Inr (x, t) \<Longrightarrow> Q s t \<Longrightarrow> leads Q t (f (x, t))) \<Longrightarrow>
    leads Q s (rbind m f)"
  unfolding leads_def by (cases m) (auto intro: chain_Q)

lemma same_Q: "Q s s"
  by (rule weaken [OF same])

lemma expr_bind: "leads R s m \<Longrightarrow> (\<And>x t. m = Inr (x, t) \<Longrightarrow> leads Q t (f (x, t))) \<Longrightarrow> leads Q s (rbind m f)"
  by (rule bind_Q) (auto simp: leads_def weaken)

lemma state_Q: "(\<And>t. m = Inr t \<Longrightarrow> Q s t) \<Longrightarrow> (\<And>t. m = Inr t \<Longrightarrow> leads Q t (f t)) \<Longrightarrow> leads Q s (rbind m f)"
  unfolding leads_def by (cases m) (auto intro: chain_Q)

lemma inside_loop: "leads Q (s\<lparr>an_loop_depth := an_loop_depth s + 1\<rparr>) (b (s\<lparr>an_loop_depth := an_loop_depth s + 1\<rparr>))
    \<Longrightarrow> leads Q s (in_loop b s)"
  unfolding in_loop_def leads_def by (auto simp: rbind_eq_Inr dest: looped [simplified])

lemma optional_expr:
  assumes "\<And>e s. leads R s (te_expr inl e s)"
  shows "leads R s (optional_expr inl e s)"
  unfolding optional_expr_def by (auto intro!: leads_option bind assms same)

lemma condition_expr:
  assumes "\<And>e s. leads R s (te_expr inl e s)"
  shows "leads R s (condition_expr inl e role s)" "leads R s (uniform_condition inl e role s)"
proof -
  show condition: "leads R s (condition_expr inl e role s)" for s
    unfolding condition_expr_def by (auto intro!: bind leads_pure assms same)
  show "leads R s (uniform_condition inl e role s)"
    unfolding uniform_condition_def by (auto intro!: bind leads_pure condition same)
qed

lemma typed_init:
  assumes "\<And>e s. leads R s (te_expr inl e s)"
  shows "leads R s (typed_init inl ty e s)"
  unfolding typed_init_def
  by (auto intro!: leads_option leads_pure bind leads_if assms same split: option.splits)

lemma local_declaration:
  assumes "\<And>e s. leads R s (te_expr inl e s)"
  shows "leads Q s (local_declaration inl decl e sp s)"
  unfolding local_declaration_def Let_def
  by (auto intro!: leads_pure expr_bind [OF typed_init] assms split: prod.splits; blast intro: declared)

lemma labels:
  assumes "\<And>e s. leads R s (te_expr inl e s)"
  shows "leads R s (case_label inl e sp s)" "leads R s (default_label sp s)"
proof -
  show "leads R s (default_label sp s)"
    unfolding default_label_def Let_def by (auto simp: leads_def intro: default_labelled)
  have tail: "leads R t (rbind (unwrap (if an_switch_stack t = [] then None else Some (last (an_switch_stack t)))) (\<lambda>c.
      if sc_values c v \<noteq> None then diag sp (''duplicate case value '' @ word_str v)
      else add_label (c\<lparr>sc_values := (sc_values c)(v \<mapsto> sp)\<rparr>) (Some v) sp t))" for t v
    by (auto simp: leads_def unwrap_def intro: case_labelled)
  show "leads R s (case_label inl e sp s)"
    unfolding case_label_def
    by (rule leads_if, simp, rule bind [OF assms], unfold prod.case, 
        rule leads_pure [OF TrueI TrueI], rule leads_pure [OF TrueI TrueI], rule tail)
qed

lemma return_stmt:
  assumes "\<And>e s. leads R s (te_expr inl e s)"
  shows "leads R s (return_stmt inl e sp s)"
  unfolding return_stmt_def by (auto intro!: bind leads_pure optional_expr assms same)

lemma jump_stmt: "leads R s (jump_stmt b sp s)"
  unfolding jump_stmt_def by (auto intro!: leads_pure same)

lemma for_init_typed:
  assumes "\<And>e s. leads R s (te_expr inl e s)"
  shows "leads Q s (for_init_typed inl init s)"
proof (cases init)
  case (Some i)
  then show ?thesis
    unfolding for_init_typed_def
    by (cases i) (auto intro!: bind_Q [OF local_declaration] expr_bind [OF assms] assms same_Q)
qed (simp add: for_init_typed_def same_Q)

lemma for_condition:
  assumes "\<And>e s. leads R s (te_expr inl e s)"
  shows "leads R s (for_condition inl c s)"
  unfolding for_condition_def by (auto intro!: leads_option bind condition_expr assms same)

lemma branches:
  assumes "leads Q (enter_mask b s) m"
    and "\<And>x t y. m = Inr (x, t) \<Longrightarrow> e = Some y \<Longrightarrow> leads Q t (te_stmt inl y t)"
  shows "leads Q s (rbind m (\<lambda>(x, t). rbind (case e of None \<Rightarrow> Inr (None, t)
    | Some y \<Rightarrow> rbind (te_stmt inl y t) (\<lambda>(y, u). Inr (Some y, u))) (\<lambda>(y, u). Inr (f x y, leave_mask b u))))"
proof -
  have "leads Q t (case e of None \<Rightarrow> Inr (None, t) | Some y \<Rightarrow> rbind (te_stmt inl y t) (\<lambda>(y, u). Inr (Some y, u)))"
    if "m = Inr (x, t)" for x t
    using assms(2) [OF that] by (auto intro!: leads_option bind_Q same_Q)
  then have "leads Q (enter_mask b s) (rbind m (\<lambda>(x, t). rbind (case e of None \<Rightarrow> Inr (None, t)
    | Some y \<Rightarrow> rbind (te_stmt inl y t) (\<lambda>(y, u). Inr (Some y, u))) (\<lambda>(y, u). Inr (f x y, u))))"
    by (auto intro!: bind_Q assms(1) same_Q)
  then show ?thesis
    unfolding leads_def by (auto simp: rbind_eq_Inr dest: masked_Q)
qed

lemma te_stmt:
  assumes inl: "\<And>c args symbol sp s. leads R s (inl c args symbol sp s)"
  shows "leads Q s (te_stmt inl x s)" "leads Q s (te_stmts inl xs s)" "leads R s (te_block inl b m s)"
  using assms
proof (induction inl x s and inl xs s and inl b m s rule: te_stmt_te_stmts_te_block.induct)
  case (1 inl ty init sp s)
  show ?case
    by (auto intro!: bind_Q [OF local_declaration] te_expr 1 same_Q)
next
  case (2 inl e sp s)
  show ?case by (auto intro!: expr_bind [OF optional_expr] te_expr 2 same_Q)
next
  case (3 inl e sp s)
  show ?case by (auto intro!: leads_mono [OF return_stmt] te_expr 3 weaken)
next
  case (4 inl b s)
  show ?case by (auto intro!: expr_bind 4 same_Q)
next
  case (5 inl c t e sp s)
  have "leads Q t' (if is_masked t' x \<and> an_divergent_depth t' \<ge> 2
      then diag sp ''divergent if nesting exceeds the two predicate masks available in Slice E''
      else rbind (te_stmt inl t (enter_mask (is_masked t' x) t')) (\<lambda>(y, s).
        rbind (case e of None \<Rightarrow> Inr (None, s)
               | Some e \<Rightarrow> rbind (te_stmt inl e s) (\<lambda>(x, s). Inr (Some x, s))) (\<lambda>(z, s).
          Inr (TS_If x y z sp, leave_mask (is_masked t' x) s))))"
    if "condition_expr inl c ''if condition'' s = Inr (x, t')" for x t'
    by (intro leads_if leads_diag branches) (use that 5 in auto)
  then show ?case
    unfolding te_stmt.simps Let_def by (auto intro!: expr_bind [OF condition_expr(1)] te_expr 5)
next
  case (6 inl c b sp s)
  show ?case
    by (auto intro!: leads_pure expr_bind [OF condition_expr(2)] bind_Q [OF inside_loop] te_expr 6 same_Q)
next
  case (7 inl b c sp s)
  show ?case
    by (auto intro!: leads_pure expr_bind [OF condition_expr(2)] bind_Q [OF inside_loop] te_expr 7 same_Q)
next
  case (8 inl init c step b sp s)
  let ?s = "push_scope Map.empty s"
  have "leads Q ?s (rbind (for_init_typed inl init ?s) (\<lambda>((tinit, local_ids), s).
      rbind (for_condition inl c s) (\<lambda>(condition, s).
      rbind (optional_expr inl step s) (\<lambda>(tstep, s).
      rbind (in_loop (te_stmt inl b) s) (\<lambda>(body, s).
        Inr (TS_For tinit condition tstep body local_ids sp, s))))))"
    if "reject_divergent_control sp ''for loop'' s = Inr ()"
    using that by (auto intro!: bind_Q [OF for_init_typed] expr_bind [OF for_condition]
      expr_bind [OF optional_expr] bind_Q [OF inside_loop] te_expr 8 same_Q)
  then show ?case
    by (auto simp: leads_def rbind_eq_Inr intro!: weaken [OF scoped])
next
  case (11 inl e b sp s)
  have "leads Q t (rbind (te_stmt inl b (push_switch t)) (\<lambda>(body, s).
      rbind (pop_switch s) (\<lambda>(labels, s). Inr (TS_Switch x body labels sp, s))))"
    if "reject_divergent_control sp ''switch'' s = Inr ()"
      "uniform_condition inl e ''switch expression'' s = Inr (x, t)" for x t
    using 11(1) [OF that HOL.refl 11(2)] by (auto simp: leads_def rbind_eq_Inr dest: switched)
  then show ?case
    by (auto intro!: leads_pure expr_bind [OF condition_expr(2)] te_expr 11)
next
  case (12 inl e b sp s)
  show ?case
    by (auto intro!: expr_bind [OF labels(1) [OF te_expr(1) [OF 12(2)]]] bind_Q [OF 12(1)] 12(2) same_Q)
next
  case (13 inl b sp s)
  show ?case
    by (auto intro!: expr_bind [OF labels(2) [OF te_expr(1) [OF 13(2)]]] bind_Q [OF 13(1)] 13(2) same_Q)
next
  case (15 inl x xs s)
  then show ?case
    by (auto intro!: bind_Q 15 same_Q)
next
  case (16 inl xs sp bindings s)
  then show ?case
    by (auto simp: leads_def rbind_eq_Inr dest: scoped)
qed (auto intro!: leads_mono [OF jump_stmt] weaken same_Q)

lemma inline_params: "leads Q s (inline_params symbol n ps tys as s)"
proof (induction ps arbitrary: n tys as s)
  case (Cons p ps)
  show ?case
  proof (cases "tys = [] \<or> as = []")
    case True
    then show ?thesis by (auto simp: same_Q)
  next
    case False
    then obtain ty tys' a as' where "tys = ty # tys'" "as = a # as'" by (metis neq_Nil_conv)
    then show ?thesis
      by (auto simp: Let_def intro!: leads_pure state_Q bind_Q same_Q Cons.IH split: prod.split)
        (blast intro: declared)
  qed
qed (simp add: same_Q)

lemma inline_stmts:
  assumes "\<And>x s. leads Q s (st x s)"
  shows "leads Q s (inline_stmts st xs s)"
proof (induction xs arbitrary: s)
  case (Cons x xs)
  have address: "leads Q s (rbind (case t of TS_Decl i y z \<Rightarrow> take_address i s | _ \<Rightarrow> Inr s) f)"
    if "\<And>s. leads Q s (f s)" for t s and f :: "analyzer \<Rightarrow> ('a \<times> analyzer) cc"
    using that by (cases t) (auto simp: leads_def rbind_eq_Inr intro: chain_Q [OF weaken [OF address]])
  show ?case
    by (auto intro!: bind_Q assms address Cons.IH same_Q)
qed (simp add: same_Q)

lemma inline_body:
  assumes "\<And>e s. leads R s (ex e s)" "\<And>x s. leads Q s (st x s)"
  shows "leads R s (inline_body ex st candidate args symbol sp s)"
proof -
  let ?s = "push_scope Map.empty s"
  have "leads Q ?s (rbind (inline_params symbol 0 (ic_params candidate) (fs_params symbol) args ?s) (\<lambda>(decls, s).
     rbind (inline_stmts st (ic_statements candidate) s) (\<lambda>(stmts, s).
     rbind (ex (ic_result candidate) s) (\<lambda>(result, s).
     rbind (require_assignable s (fs_return_type symbol) result ''return value'') (\<lambda>_.
     if fs_return_shape symbol = Shape_Uniform \<and> te_uniformity result \<noteq> Uniform
     then diag (te_span result) ''varying expression cannot be returned from a uniform function''
     else Inr (TExpr (TE_Inline (decls @ stmts) result) (fs_return_type symbol)
                 (expression_uniformity (fs_return_shape symbol)) sp, s))))))"
    by (auto intro!: bind_Q [OF inline_params] bind_Q [OF inline_stmts [OF assms(2)]] expr_bind leads_pure assms same_Q)
  then show ?thesis
    unfolding inline_body_def leads_def by (auto simp: rbind_eq_Inr intro!: scoped)
qed

lemma expander: "leads R s (expander n candidate args symbol sp s)"
  by (induction n arbitrary: s candidate args symbol sp) (auto intro!: inline_body te_expr te_stmt)

lemma analysis:
  "leads R s (analyze_expr e s)" "leads Q s (analyze_stmt x s)" "leads R s (analyze_block b m s)"
  unfolding analyze_expr_def analyze_stmt_def analyze_block_def
  by (intro te_expr te_stmt expander)+

end

section \<open>What the analysis keeps\<close>

text \<open>The tables of the program's declarations, which the bodies never change.\<close>

definition static_of :: "analyzer \<Rightarrow> _" where
  "static_of s = (an_globals s, an_global_ids s, an_structs s, an_struct_ids s, an_functions s,
     an_function_ids s, an_inline_candidates s, an_current_function s, an_return_type s,
     an_return_shape s)"

text \<open>A local may only come to need a place in memory.\<close>

definition local_kept :: "local_info \<Rightarrow> local_info \<Rightarrow> bool" where
  "local_kept l m \<longleftrightarrow> m = l \<or> m = l\<lparr>li_address_taken := True\<rparr>"

definition locals_kept :: "local_info list \<Rightarrow> local_info list \<Rightarrow> bool" where
  "locals_kept ls ms \<longleftrightarrow> length ls \<le> length ms \<and> (\<forall>i<length ls. local_kept (ls ! i) (ms ! i))"

definition edges_kept :: "nat list list \<Rightarrow> nat list list \<Rightarrow> bool" where
  "edges_kept es fs \<longleftrightarrow> length fs = length es \<and> (\<forall>i<length es. set (es ! i) \<subseteq> set (fs ! i))"

definition body_kept :: "analyzer \<Rightarrow> analyzer \<Rightarrow> bool" where
  "body_kept s t \<longleftrightarrow> static_of t = static_of s
     \<and> (\<exists>ws. an_data_words t = an_data_words s @ ws)
     \<and> locals_kept (an_locals s) (an_locals t)
     \<and> edges_kept (an_call_edges s) (an_call_edges t)
     \<and> an_loop_depth t = an_loop_depth s \<and> an_divergent_depth t = an_divergent_depth s
     \<and> length (an_switch_stack t) = length (an_switch_stack s)
     \<and> butlast (an_switch_stack t) = butlast (an_switch_stack s)
     \<and> an_next_switch_label s \<le> an_next_switch_label t"

definition expr_frame :: "analyzer \<Rightarrow> analyzer \<Rightarrow> bool" where
  "expr_frame s t \<longleftrightarrow> body_kept s t \<and> an_scopes t = an_scopes s"

text \<open>A statement may add names to the innermost scope, for locals that are new.\<close>

definition scope_grown :: "nat \<Rightarrow> nat \<Rightarrow> (string \<rightharpoonup> nat) list \<Rightarrow> (string \<rightharpoonup> nat) list \<Rightarrow> bool" where
  "scope_grown n m xs ys \<longleftrightarrow> length ys = length xs \<and> butlast ys = butlast xs
     \<and> (\<forall>x. xs \<noteq> [] \<longrightarrow> last ys x = last xs x \<or> (\<exists>i\<in>{n..<m}. last ys x = Some i))"

definition stmt_frame :: "analyzer \<Rightarrow> analyzer \<Rightarrow> bool" where
  "stmt_frame s t \<longleftrightarrow> body_kept s t
     \<and> scope_grown (length (an_locals s)) (length (an_locals t)) (an_scopes s) (an_scopes t)"

lemma locals_kept_refl: "locals_kept ls ls"
  by (simp add: locals_kept_def local_kept_def)

lemma local_kept_trans: "local_kept l m \<Longrightarrow> local_kept m n \<Longrightarrow> local_kept l n"
  by (auto simp: local_kept_def)

lemma locals_kept_trans: "locals_kept ls ms \<Longrightarrow> locals_kept ms ns \<Longrightarrow> locals_kept ls ns"
  unfolding locals_kept_def by (meson local_kept_trans order.strict_trans2 order.trans)

lemma edges_kept_trans: "edges_kept ls ms \<Longrightarrow> edges_kept ms ns \<Longrightarrow> edges_kept ls ns"
  unfolding edges_kept_def by fastforce

lemma body_kept_trans: "body_kept s t \<Longrightarrow> body_kept t u \<Longrightarrow> body_kept s u"
  unfolding body_kept_def by (auto intro: locals_kept_trans edges_kept_trans)

lemma body_kept_refl: "body_kept s s"
  by (simp add: body_kept_def locals_kept_refl edges_kept_def)

lemma body_kept_scopes [simp]:
  "body_kept (s\<lparr>an_scopes := m\<rparr>) t \<longleftrightarrow> body_kept s t" "body_kept s (t\<lparr>an_scopes := m\<rparr>) \<longleftrightarrow> body_kept s t"
  by (simp_all add: body_kept_def static_of_def)

lemma scope_grown_refl: "scope_grown n m xs xs"
  by (simp add: scope_grown_def)

lemma scope_grown_trans:
  assumes "scope_grown n m xs ys" "scope_grown m k ys zs" "n \<le> m" "m \<le> k"
  shows "scope_grown n k xs zs"
proof -
  have "last zs x = last xs x \<or> (\<exists>i\<in>{n..<k}. last zs x = Some i)" if "xs \<noteq> []" for x
  proof -
    have "ys \<noteq> []" using assms(1) that by (auto simp: scope_grown_def)
    then have ys: "last ys x = last xs x \<or> (\<exists>i\<in>{n..<m}. last ys x = Some i)"
      and zs: "last zs x = last ys x \<or> (\<exists>i\<in>{m..<k}. last zs x = Some i)"
      using assms that by (simp_all add: scope_grown_def)
    from zs show ?thesis
    proof
      assume eq: "last zs x = last ys x"
      from ys show ?thesis
      proof
        assume "\<exists>i\<in>{n..<m}. last ys x = Some i"
        then obtain i where "i \<in> {n..<m}" "last ys x = Some i" by blast
        with eq assms(4) have "i \<in> {n..<k} \<and> last zs x = Some i" by simp
        then show ?thesis by blast
      qed (simp add: eq)
    next
      assume "\<exists>i\<in>{m..<k}. last zs x = Some i"
      then obtain i where "i \<in> {m..<k}" "last zs x = Some i" by blast
      with assms(3) have "i \<in> {n..<k} \<and> last zs x = Some i" by simp
      then show ?thesis by blast
    qed
  qed
  with assms show ?thesis by (auto simp: scope_grown_def)
qed

lemma body_kept_locals: "body_kept s t \<Longrightarrow> length (an_locals s) \<le> length (an_locals t)"
  by (simp add: body_kept_def locals_kept_def)

interpretation frame: stmt_contract expr_frame stmt_frame
proof
  show "expr_frame s s" for s
    by (simp add: expr_frame_def body_kept_refl)
  show "expr_frame s t \<Longrightarrow> expr_frame t u \<Longrightarrow> expr_frame s u" for s t u
    by (auto simp: expr_frame_def intro: body_kept_trans)
  show "expr_frame s (s\<lparr>an_data_words := an_data_words s @ ws\<rparr>)" for s ws
    by (simp add: expr_frame_def body_kept_def static_of_def locals_kept_refl edges_kept_def)
  show "take_address i s = Inr t \<Longrightarrow> expr_frame s t" for i s t
    by (auto simp: take_address_def local_at_def index_at_def rbind_eq_Inr expr_frame_def body_kept_def
        static_of_def locals_kept_def local_kept_def nth_list_update edges_kept_def split: if_splits)
  show "add_call_edge f s = Inr t \<Longrightarrow> expr_frame s t" for f s t
    by (auto simp: add_call_edge_def index_at_def unwrap_def rbind_eq_Inr expr_frame_def body_kept_def
        static_of_def locals_kept_refl nth_list_update edges_kept_def split: if_splits option.splits)
  show "expr_frame (enter_mask b s) t \<Longrightarrow> expr_frame s (leave_mask b t)" for b s t
    by (cases b) (auto simp: enter_mask_def leave_mask_def expr_frame_def body_kept_def static_of_def)
  show "expr_frame s t \<Longrightarrow> stmt_frame s t" for s t
    by (simp add: expr_frame_def stmt_frame_def scope_grown_refl)
  show "stmt_frame s t \<Longrightarrow> stmt_frame t u \<Longrightarrow> stmt_frame s u" for s t u
    by (auto simp: stmt_frame_def intro: body_kept_trans scope_grown_trans body_kept_locals)
  show "stmt_frame (enter_mask b s) t \<Longrightarrow> stmt_frame s (leave_mask b t)" for b s t
    by (cases b) (auto simp: enter_mask_def leave_mask_def stmt_frame_def body_kept_def static_of_def)
  show "stmt_frame s u" if "new_local title ty sp shape taken s = (i, t)" "bind_local name i t = Inr u"
    for title ty sp shape taken s i t name u
    using that by (auto simp: new_local_def bind_local_def last_scope_def unwrap_def rbind_eq_Inr
        stmt_frame_def body_kept_def static_of_def locals_kept_def local_kept_def edges_kept_def
        nth_append scope_grown_def split: if_splits)
  show "stmt_frame (push_scope m s) t \<Longrightarrow> expr_frame s (pop_scope t)" for m s t
    by (auto simp: push_scope_def pop_scope_def stmt_frame_def expr_frame_def scope_grown_def)
  show "stmt_frame (s\<lparr>an_loop_depth := an_loop_depth s + 1\<rparr>) t \<Longrightarrow>
      stmt_frame s (t\<lparr>an_loop_depth := an_loop_depth t - 1\<rparr>)" for s t
    by (auto simp: stmt_frame_def body_kept_def static_of_def)
  have added: "expr_frame s t" if "add_label c v sp s = Inr (i, t)" "an_switch_stack s \<noteq> []" for c v sp s i t
    using that by (auto simp: add_label_def Let_def expr_frame_def body_kept_def static_of_def locals_kept_refl
        edges_kept_def)
  from added show "expr_frame s t" if "an_switch_stack s \<noteq> []"
      "add_label (c\<lparr>sc_values := (sc_values c)(v \<mapsto> sp)\<rparr>) (Some v) sp s = Inr (i, t)" for c v sp s i t
    using that by blast
  show "expr_frame s t" if "an_switch_stack s \<noteq> []"
      "add_label (c\<lparr>sc_default_span := Some sp\<rparr>) None sp s = Inr (i, t)" for c sp s i t
    using added that by blast
  show "stmt_frame (push_switch s) t \<Longrightarrow> pop_switch t = Inr (ls, u) \<Longrightarrow> stmt_frame s u" for s t ls u
    by (auto simp: push_switch_def pop_switch_def unwrap_def rbind_eq_Inr stmt_frame_def body_kept_def
        static_of_def)
qed

text \<open>
  C23. The analysis of an expression or a block gives back the scopes, the depths of loops,
  switches and masks, and the tables of the declarations as it found them; data words, locals,
  call edges and switch labels are only added to, and a known local can at most come to need
  memory. A statement may in addition bind names of the innermost scope, to new locals.
\<close>

theorem analysis_keeps_state:
  "leads expr_frame s (analyze_expr e s) \<and> leads expr_frame s (analyze_block b m s)
   \<and> leads stmt_frame s (analyze_stmt x s)"
  by (intro conjI frame.analysis)

end
