(* ===== verification/Typed_Expr.thy ===== *)
theory Typed_Expr
  imports Typing Sema_Frame Layout_Facts Call_Graph
begin

text \<open>
  The analysis accepts an expression only with a well-typed tree, and it never panics on one
  except by an overflow of a size. Each step of the analysis is shown to keep well-formed
  tables, scopes and locals, to end in a diagnostic or an overflow if it fails, and to return a
  tree that the rules of \<open>Typing\<close> accept. The expansion of inline candidates is a parameter with
  a contract, which \<open>Typed_Stmt\<close> discharges.
\<close>

section \<open>Results\<close>

text \<open>The errors that are no defect of the analysis itself: a diagnostic, or a size of more
  than 64 bits.\<close>

fun benign :: "cc_error \<Rightarrow> bool" where
  "benign (Diag d) \<longleftrightarrow> True"
| "benign (CPanic m) \<longleftrightarrow>
     m = ''attempt to multiply with overflow'' \<or> m = ''attempt to add with overflow''"
| "benign OutOfFuel \<longleftrightarrow> False"

definition okres :: "('a \<Rightarrow> bool) \<Rightarrow> 'a cc \<Rightarrow> bool" where
  "okres P r \<longleftrightarrow> (case r of Inl e \<Rightarrow> benign e | Inr x \<Rightarrow> P x)"

lemma okres_simps [simp]: "okres P (Inr x) \<longleftrightarrow> P x" "okres P (Inl e) \<longleftrightarrow> benign e" "okres P (diag sp m)"
  by (simp_all add: okres_def diag_def)

lemma okres_bind:
  "okres P m \<Longrightarrow> (\<And>x. m = Inr x \<Longrightarrow> P x \<Longrightarrow> okres Q (f x)) \<Longrightarrow> okres Q (rbind m f)"
  by (cases m) (simp_all add: okres_def)

lemma okres_mono: "okres P r \<Longrightarrow> (\<And>x. r = Inr x \<Longrightarrow> P x \<Longrightarrow> Q x) \<Longrightarrow> okres Q r"
  by (cases r) (simp_all add: okres_def)

lemma okres_conj: "okres P r \<Longrightarrow> okres Q r \<Longrightarrow> okres (\<lambda>x. P x \<and> Q x) r"
  by (cases r) simp_all

lemma okres_Inr: "okres P r \<Longrightarrow> r = Inr x \<Longrightarrow> P x"
  by simp

abbreviation calm :: "'a cc \<Rightarrow> bool" where
  "calm r \<equiv> okres (\<lambda>_. True) r"

text \<open>The two trivial premises put the rule behind the ones for particular steps.\<close>

lemma calm_bind: "calm m \<Longrightarrow> (\<And>x. m = Inr x \<Longrightarrow> okres Q (f x)) \<Longrightarrow> okres Q (rbind m f)"
  by (cases m) simp_all

lemma okres_if: "(c \<Longrightarrow> okres Q a) \<Longrightarrow> (\<not> c \<Longrightarrow> okres Q b) \<Longrightarrow> okres Q (if c then a else b)"
  by simp

lemma okres_diag: "okres P (diag sp m)"
  by simp

lemma okres_leads:
  "okres P r \<Longrightarrow> leads R s r \<Longrightarrow> (\<And>x t. P (x, t) \<Longrightarrow> R s t \<Longrightarrow> Q (x, t)) \<Longrightarrow> okres Q r"
  by (cases r) (auto simp: leads_def okres_def)

section \<open>Primitive steps\<close>

lemma calm_primitives [simp]:
  "calm (mul_usize a b)" "calm (add_usize a b)" "i < length xs \<Longrightarrow> calm (index_at xs i)"
  "i < length xs \<Longrightarrow> calm (set_at xs i x)" "m k \<noteq> None \<Longrightarrow> calm (map_at m k)" "calm (unwrap (Some y))"
  by (auto simp: mul_usize_def add_usize_def index_at_def set_at_def map_at_def unwrap_def)

lemma calm_unwrap: "x \<noteq> None \<Longrightarrow> calm (unwrap x)"
  by auto

lemma index_at_lt: "i < length xs \<Longrightarrow> index_at xs i = Inr (xs ! i)"
  by (simp add: index_at_def)

lemma calm_parse_integer: "calm (parse_integer x sp)"
  by (simp add: parse_integer_def Let_def split: prod.split option.split)

lemma calm_constant_ast: "calm (constant_ast e)"
  by (induction e rule: constant_ast.induct)
    (auto simp: not_constant_def calm_parse_integer intro!: calm_bind split: option.splits)

lemma calm_constant_u32: "calm (constant_u32 e)"
proof (induction e rule: constant_u32.induct)
  case (3 op l r operand_type ty u sp)
  have "calm (case_binary sp b op x y)" for b x y
    by (cases op) (simp_all add: case_binary_def)
  with 3 show ?case by (auto intro!: calm_bind)
qed (auto simp: case_error_def intro!: calm_bind split: option.splits)

lemma parse_integer_type: "parse_integer x sp = Inr (v, ty) \<Longrightarrow> is_integer ty"
  by (auto simp: parse_integer_def Let_def T_U32_def T_I32_def scalar_type_def is_integer_def
      split: prod.splits option.splits if_splits)

section \<open>Types\<close>

lemma type_ok_simps [simp]:
  "type_ok G T_I32" "type_ok G T_U32" "type_ok G T_CHAR" "type_ok G T_VOID"
  "type_ok G (pointer_to t) \<longleftrightarrow> type_ok G t" "type_ok G (decay t) \<longleftrightarrow> type_ok G t"
  "type_ok G (value_type t) \<longleftrightarrow> type_ok G t"
  by (simp_all add: type_ok_def T_I32_def T_U32_def T_CHAR_def T_VOID_def scalar_type_def pointer_to_def
      decay_def value_type_def)

lemma type_ok_pointee: "pointee t = Some p \<Longrightarrow> type_ok G t \<Longrightarrow> type_ok G p"
  by (auto simp: pointee_def type_ok_def split: if_splits base_type.splits)

lemma type_ok_integer: "is_integer t \<Longrightarrow> type_ok G t"
  by (auto simp: is_integer_def type_ok_def split: base_type.splits)

lemma integer_simps [simp]: "is_integer T_I32" "is_integer T_U32" "is_integer T_CHAR"
  "\<not> is_integer T_VOID" "\<not> is_pointer T_I32" "\<not> is_pointer T_U32" "\<not> is_pointer T_CHAR" "\<not> is_pointer T_VOID"
  by (simp_all add: is_integer_def is_pointer_def T_I32_def T_U32_def T_CHAR_def T_VOID_def scalar_type_def)

lemma usual_type_cases: "usual_type a b = T_U32 \<or> usual_type a b = T_I32"
  by (simp add: usual_type_def)

lemma type_ok_usual [simp]: "type_ok G (usual_type a b)" "is_integer (usual_type a b)"
  using usual_type_cases [of a b] by auto

lemma type_ok_promoted [simp]: "type_ok G (promoted t) \<longleftrightarrow> type_ok G t"
  by (simp add: promoted_def)

lemma pointer_not_integer: "is_pointer t \<Longrightarrow> \<not> is_integer t"
  by (simp add: is_pointer_def is_integer_def)

lemma pointer_pointee: "is_pointer t \<Longrightarrow> pointee t \<noteq> None"
  by (simp add: is_pointer_def pointee_def)

lemma te_ok_type: "te_ok G e \<Longrightarrow> type_ok G (te_ty e)"
  by (cases e) simp

lemma te_ok_kind: "te_ok G e \<Longrightarrow> kind_ok G (te_ty e) (te_kind e)"
  by (cases e) simp

lemma calm_type_size: "type_ok G t \<Longrightarrow> S = en_structs G \<Longrightarrow> calm (type_size t S)"
  unfolding type_size_def element_size_def type_ok_def
  by (auto intro!: calm_bind split: option.split base_type.splits)

lemma calm_ctype_name: "type_ok G t \<Longrightarrow> S = en_structs G \<Longrightarrow> calm (ctype_name t S)"
  unfolding ctype_name_def base_name_def type_ok_def by (auto intro!: calm_bind split: base_type.splits)

lemma okres_require_integer: "okres (\<lambda>_. is_integer (value_type (te_ty e))) (require_integer e role)"
  by (simp add: require_integer_def)

lemma okres_take_lvalue: "okres (\<lambda>l. k = TE_LValue l) (take_lvalue k sp role)"
  by (auto simp: take_lvalue_def split: typed_kind.split)

lemma okres_check_condition: "okres (\<lambda>_. is_scalar (value_type (te_ty e))) (check_condition role e)"
  by (simp add: check_condition_def)

lemma okres_require_assignable:
  "type_ok (env_of s) target \<Longrightarrow> okres (\<lambda>_. assignable target e) (require_assignable s target e role)"
  unfolding require_assignable_def Let_def assignable_def
  by (auto intro!: calm_bind calm_ctype_name [where G = "env_of s"] simp: env_of_def)

lemma calm_reject_warp: "calm (reject_warp_declaration name sp)"
  by (simp add: reject_warp_declaration_def)

section \<open>Well-formed analysers\<close>

definition symbol_ok :: "typing \<Rightarrow> function_symbol \<Rightarrow> bool" where
  "symbol_ok G f \<longleftrightarrow> type_ok G (fs_return_type f) \<and> list_all (type_ok G) (fs_params f)
     \<and> length (fs_param_shapes f) = length (fs_params f)
     \<and> length (fs_param_names f) = length (fs_params f)
     \<and> length (fs_param_spans f) = length (fs_params f)"

definition struct_ok :: "typing \<Rightarrow> struct_info \<Rightarrow> bool" where
  "struct_ok G S \<longleftrightarrow> list_all (\<lambda>f. type_ok G (fi_ty f)) (si_fields S)
     \<and> distinct (map fi_offset (si_fields S))"

definition map_below :: "('k \<rightharpoonup> nat) \<Rightarrow> nat \<Rightarrow> bool" where
  "map_below m n \<longleftrightarrow> (\<forall>k i. m k = Some i \<longrightarrow> i < n)"

text \<open>Local declarations have names.\<close>

definition has_name :: "decl_type \<Rightarrow> bool" where
  "has_name ty \<longleftrightarrow> dc_name (dt_declarator ty) \<noteq> None"

fun stmt_named :: "stmt \<Rightarrow> bool"
and block_named :: "block \<Rightarrow> bool" where
  "stmt_named (S_Decl ty e sp) \<longleftrightarrow> has_name ty"
| "stmt_named (S_Block b) \<longleftrightarrow> block_named b"
| "stmt_named (S_If c t e sp) \<longleftrightarrow> stmt_named t \<and> (case e of None \<Rightarrow> True | Some x \<Rightarrow> stmt_named x)"
| "stmt_named (S_While c b sp) \<longleftrightarrow> stmt_named b"
| "stmt_named (S_DoWhile b c sp) \<longleftrightarrow> stmt_named b"
| "stmt_named (S_For init c step b sp) \<longleftrightarrow> stmt_named b
     \<and> (case init of Some (F_Decl ty e sp) \<Rightarrow> has_name ty | _ \<Rightarrow> True)"
| "stmt_named (S_Switch e b sp) \<longleftrightarrow> stmt_named b"
| "stmt_named (S_Case e b sp) \<longleftrightarrow> stmt_named b"
| "stmt_named (S_Default b sp) \<longleftrightarrow> stmt_named b"
| "stmt_named _ \<longleftrightarrow> True"
| "block_named (Block xs sp) \<longleftrightarrow> list_all stmt_named xs"

text \<open>What an inline candidate is: a body without calls whose parameters are those of the
  function.\<close>

definition candidate_ok :: "function_symbol \<Rightarrow> inline_candidate \<Rightarrow> bool" where
  "candidate_ok f c \<longleftrightarrow> length (ic_params c) = length (fs_params f)
     \<and> list_all (has_name \<circ> p_ty) (ic_params c)
     \<and> list_all (\<lambda>x. \<not> unsupported_statement x \<and> stmt_named x) (ic_statements c)
     \<and> \<not> unsupported (ic_result c)"

text \<open>What the tables of the declarations hold.\<close>

definition tables_ok :: "analyzer \<Rightarrow> bool" where
  "tables_ok s \<longleftrightarrow>
     (let G = env_of s in
      list_all (struct_ok G) (an_structs s) \<and> list_all (symbol_ok G) (an_functions s)
      \<and> list_all (type_ok G \<circ> gi_ty) (an_globals s)
      \<and> map_below (an_struct_ids s) (length (an_structs s))
      \<and> map_below (an_global_ids s) (length (an_globals s))
      \<and> map_below (an_function_ids s) (length (an_functions s))
      \<and> (\<forall>f c. an_inline_candidates s f = Some c \<longrightarrow>
            f < length (an_functions s) \<and> candidate_ok (an_functions s ! f) c))"

text \<open>What the analysis of the bodies adds to: the locals and the edges of the call graph.\<close>

definition bodies_ok :: "analyzer \<Rightarrow> bool" where
  "bodies_ok s \<longleftrightarrow> list_all (type_ok (env_of s) \<circ> li_ty) (an_locals s)
     \<and> edges_ok (an_functions s) (an_call_edges s)"

definition scopes_ok :: "analyzer \<Rightarrow> bool" where
  "scopes_ok s \<longleftrightarrow> list_all (\<lambda>m. map_below m (length (an_locals s))) (an_scopes s)"

text \<open>The state inside a function: calls have a caller.\<close>

definition good :: "analyzer \<Rightarrow> bool" where
  "good s \<longleftrightarrow> tables_ok s \<and> bodies_ok s \<and> scopes_ok s
     \<and> (\<exists>i. an_current_function s = Some i \<and> i < length (an_functions s))
     \<and> type_ok (env_of s) (an_return_type s)"

lemma type_ok_structs: "length (en_structs H) = length (en_structs G) \<Longrightarrow> type_ok H t = type_ok G t"
  by (cases "ty_base t") (simp_all add: type_ok_def)

lemma local_kept_type: "local_kept l m \<Longrightarrow> li_ty m = li_ty l"
  by (auto simp: local_kept_def)

lemma locals_kept_types:
  assumes "locals_kept ls ms"
  shows "\<exists>ts. map li_ty ms = map li_ty ls @ ts"
proof -
  have "map li_ty (take (length ls) ms) = map li_ty ls"
    using assms by (intro nth_equalityI) (auto simp: locals_kept_def intro!: local_kept_type)
  then have "map li_ty ms = map li_ty ls @ map li_ty (drop (length ls) ms)"
    by (metis append_take_drop_id map_append)
  then show ?thesis ..
qed

lemma kept_env_le: "body_kept s t \<Longrightarrow> env_le (env_of s) (env_of t)"
  using locals_kept_types [of "an_locals s" "an_locals t"]
  by (auto simp: env_le_def body_kept_def static_of_def env_of_def)

lemma static_type_ok: "static_of t = static_of s \<Longrightarrow> type_ok (env_of t) ty = type_ok (env_of s) ty"
  by (rule type_ok_structs) (simp add: static_of_def env_of_def)

lemma static_tables_ok: "static_of t = static_of s \<Longrightarrow> tables_ok s \<Longrightarrow> tables_ok t"
proof -
  assume st: "static_of t = static_of s" "tables_ok s"
  have "type_ok (env_of t) = type_ok (env_of s)" using static_type_ok [OF st(1)] by blast
  with st show ?thesis
    by (simp add: tables_ok_def Let_def struct_ok_def [abs_def] symbol_ok_def [abs_def] static_of_def)
qed

lemma map_below_mono: "map_below m n \<Longrightarrow> n \<le> k \<Longrightarrow> map_below m k"
  by (auto simp: map_below_def intro: order.strict_trans2)

lemma kept_good:
  assumes "good s" "body_kept s t" "bodies_ok t" "scopes_ok t"
  shows "good t"
proof -
  have static: "static_of t = static_of s" using assms(2) by (simp add: body_kept_def)
  show ?thesis
    using assms static_type_ok [OF static] static_tables_ok [OF static] static
    by (auto simp: good_def body_kept_def static_of_def edges_kept_def)
qed

lemma expr_frame_good:
  assumes "good s" "expr_frame s t" "bodies_ok t"
  shows "good t"
proof (rule kept_good [OF assms(1) _ assms(3)])
  show "body_kept s t" using assms(2) by (simp add: expr_frame_def)
  from body_kept_locals [OF this] show "scopes_ok t"
    using assms(1,2) by (auto simp: scopes_ok_def good_def expr_frame_def list_all_iff intro: map_below_mono)
qed

lemma stmt_frame_good:
  assumes "good s" "stmt_frame s t" "bodies_ok t"
  shows "good t"
proof (rule kept_good [OF assms(1) _ assms(3)])
  show kept: "body_kept s t" using assms(2) by (simp add: stmt_frame_def)
  let ?n = "length (an_locals s)" and ?m = "length (an_locals t)"
  note grown = assms(2) [unfolded stmt_frame_def, THEN conjunct2, unfolded scope_grown_def]
  show "scopes_ok t"
  proof (cases "an_scopes t = []")
    case False
    then have ne: "an_scopes s \<noteq> []" using grown by auto
    have "map_below (last (an_scopes s)) ?n" and old: "\<forall>m\<in>set (butlast (an_scopes s)). map_below m ?n"
      using assms(1) ne by (auto simp: good_def scopes_ok_def list_all_iff dest: in_set_butlastD)
    then have "map_below (last (an_scopes t)) ?m"
      using grown ne body_kept_locals [OF kept] unfolding map_below_def
      by (metis atLeastLessThan_iff option.inject order.strict_trans2)
    moreover have "\<forall>m\<in>set (butlast (an_scopes t)). map_below m ?m"
      using old grown body_kept_locals [OF kept] by (auto intro: map_below_mono)
    ultimately have "\<forall>m\<in>set (butlast (an_scopes t) @ [last (an_scopes t)]). map_below m ?m"
      by simp
    then show ?thesis
      using False by (simp add: scopes_ok_def list_all_iff)
  qed (simp add: scopes_ok_def)
qed

section \<open>Leaves\<close>

lemma env_simps [simp]: "en_structs (env_of s) = an_structs s" "en_functions (env_of s) = an_functions s"
  "length (en_locals (env_of s)) = length (an_locals s)" "length (en_globals (env_of s)) = length (an_globals s)"
  "i < length (an_locals s) \<Longrightarrow> en_locals (env_of s) ! i = li_ty (an_locals s ! i)"
  "i < length (an_globals s) \<Longrightarrow> en_globals (env_of s) ! i = gi_ty (an_globals s ! i)"
  by (simp_all add: env_of_def)

lemma good_tables: "good s \<Longrightarrow> tables_ok s" and good_locals: "good s \<Longrightarrow> bodies_ok s"
  by (simp_all add: good_def)

lemma good_local_type: "good s \<Longrightarrow> i < length (an_locals s) \<Longrightarrow> type_ok (env_of s) (li_ty (an_locals s ! i))"
  by (simp add: good_def bodies_ok_def list_all_length)

lemma good_global_type: "good s \<Longrightarrow> i < length (an_globals s) \<Longrightarrow> type_ok (env_of s) (gi_ty (an_globals s ! i))"
  by (simp add: good_def tables_ok_def Let_def list_all_length)

lemma find_map_some: "find_map f xs = Some y \<Longrightarrow> \<exists>x\<in>set xs. f x = Some y"
  by (induction xs) (auto split: option.splits)

lemma lookup_local_lt: "good s \<Longrightarrow> lookup_local s name = Some i \<Longrightarrow> i < length (an_locals s)"
  unfolding lookup_local_def
  by (auto dest!: find_map_some simp: good_def scopes_ok_def list_all_iff map_below_def)

lemma global_id_lt: "good s \<Longrightarrow> an_global_ids s name = Some i \<Longrightarrow> i < length (an_globals s)"
  by (auto simp: good_def tables_ok_def Let_def map_below_def)

lemma literal_ok: "is_integer ty \<Longrightarrow> te_ok G (literal v ty sp)"
  by (simp add: literal_def type_ok_integer)

lemma lane_id_ok: "intrinsic_ok I_LaneId [] T_I32"
  by (simp add: intrinsic_ok_def signatures_def)

lemma name_expr_ok: "good s \<Longrightarrow> okres (te_ok (env_of s)) (name_expr name sp s)"
  unfolding name_expr_def local_at_def
  by (auto simp: lane_id_ok literal_ok index_at_lt lookup_local_lt global_id_lt good_local_type
      good_global_type split: option.split)

lemma lower_decl_type_ok:
  assumes "tables_ok s"
  shows "okres (type_ok (env_of s)) (lower_decl_type s d n)"
proof -
  have base: "okres (\<lambda>b. type_ok (env_of s) \<lparr>ty_base = b, ty_pointers = p, ty_array_len = a\<rparr>) (lower_base s d)" for p a
    using assms by (auto simp: lower_base_def type_ok_def tables_ok_def Let_def map_below_def
        split: type_name.split option.split)
  have "calm (lower_array_len d n)"
    by (auto simp: lower_array_len_def Let_def intro!: calm_bind calm_constant_ast split: option.split)
  then show ?thesis
    unfolding lower_decl_type_def by (auto intro!: okres_bind [OF base] calm_bind okres_Inr [OF base])
qed

lemma sizeof_type_ok: "good s \<Longrightarrow> okres (te_ok (env_of s)) (sizeof_type d sp s)"
  unfolding sizeof_type_def
  by (rule okres_bind [OF lower_decl_type_ok]) (auto simp: literal_ok good_tables
      intro!: calm_bind calm_type_size [where G = "env_of s"])

section \<open>Operators\<close>

text \<open>What a finished expression is, with the state behind it.\<close>

definition expr_done :: "typed_expr \<times> analyzer \<Rightarrow> bool" where
  "expr_done = (\<lambda>(t, s). te_ok (env_of s) t \<and> bodies_ok s)"

lemma expr_done_simp [simp]: "expr_done (t, s) \<longleftrightarrow> te_ok (env_of s) t \<and> bodies_ok s"
  by (simp add: expr_done_def)

lemma take_address_env: "take_address i s = Inr t \<Longrightarrow> env_of t = env_of s \<and> bodies_ok t = bodies_ok s"
proof -
  assume "take_address i s = Inr t"
  then have t: "i < length (an_locals s)"
    "t = s\<lparr>an_locals := (an_locals s)[i := (an_locals s ! i)\<lparr>li_address_taken := True\<rparr>]\<rparr>"
    by (auto simp: take_address_def local_at_def index_at_def rbind_eq_Inr split: if_splits)
  have "map li_ty (an_locals t) = map li_ty (an_locals s)"
    using t by (auto intro!: nth_equalityI simp: nth_list_update)
  then have env: "env_of t = env_of s" using t by (simp add: env_of_def)
  moreover have "bodies_ok t = bodies_ok s"
    using env t by (auto simp: bodies_ok_def list_all_length nth_list_update)
  ultimately show ?thesis by simp
qed

lemma mark_address_env: "mark_address_taken lv s = Inr t \<Longrightarrow> env_of t = env_of s \<and> bodies_ok t = bodies_ok s"
  by (induction lv s rule: mark_address_taken.induct) (auto dest: take_address_env)

lemma calm_mark_address: "lv_ok (env_of s) lv \<Longrightarrow> calm (mark_address_taken lv s)"
  by (induction lv s rule: mark_address_taken.induct)
    (auto simp: take_address_def local_at_def index_at_lt)

lemma lvalue_ok: "te_ok G e \<Longrightarrow> te_kind e = TE_LValue l \<Longrightarrow> lv_ok G l \<and> lv_type G l = Some (te_ty e)"
  by (cases e) simp

lemma type_ok_address: "type_ok G t \<Longrightarrow> type_ok G (address_type t)"
  by (simp add: address_type_def)

lemma unary_address_of_ok:
  assumes "good s" "te_ok (env_of s) e"
  shows "okres expr_done (unary_address_of e sp s)"
  unfolding unary_address_of_def
proof (rule okres_bind [OF okres_take_lvalue], rule calm_bind)
  fix l
  assume l: "te_kind e = TE_LValue l"
  note ok = lvalue_ok [OF assms(2) l]
  show "calm (case l of LV_Local i \<Rightarrow> rbind (local_at s i) (\<lambda>info. Inr (li_shape info = Shape_Uniform))
      | _ \<Rightarrow> Inr False)"
    using ok by (auto simp: local_at_def index_at_lt split: lvalue.split)
  show "okres expr_done (if b then diag sp ''taking the address of a uniform local is not supported''
       else rbind (mark_address_taken l s) (\<lambda>s. Inr (TExpr (TE_AddressOf l)
         (if is_array (te_ty e) then decay (te_ty e) else pointer_to (te_ty e)) (te_uniformity e) sp, s)))" for b
    using ok te_ok_type [OF assms(2)] good_locals [OF assms(1)] calm_mark_address [of s l]
    by (auto intro!: calm_bind simp: type_ok_address [unfolded address_type_def] address_type_def
        dest!: mark_address_env)
qed

lemma unary_deref_ok: "te_ok G e \<Longrightarrow> okres (te_ok G) (unary_deref e sp)"
  unfolding unary_deref_def
  by (auto split: option.split intro: type_ok_pointee [OF _ iffD2 [OF type_ok_simps(7)]] te_ok_type)

lemma step_of_pointer: "is_pointer t \<Longrightarrow> pointee t = Some p \<Longrightarrow> type_size p (en_structs G) = Inr k \<Longrightarrow> step_of G t k"
  by (simp add: step_of_def)

lemma pointee_size_ok:
  assumes "is_pointer t" "type_ok (env_of s) t"
  shows "okres (step_of (env_of s) t) (pointee_size t s)"
proof -
  obtain p where p: "pointee t = Some p" using pointer_pointee [OF assms(1)] by blast
  then have "okres (\<lambda>k. type_size p (an_structs s) = Inr k) (type_size p (an_structs s))"
    using calm_type_size [OF type_ok_pointee [OF p assms(2)], of "an_structs s"]
    by (cases "type_size p (an_structs s)") simp_all
  then show ?thesis
    using p assms(1) by (auto simp: pointee_size_def unwrap_def step_of_def intro: okres_mono)
qed

lemma step_ok:
  assumes "type_ok (env_of s) t"
  shows "okres (step_of (env_of s) t) (if is_pointer t then pointee_size t s else Inr 1)"
  using pointee_size_ok [OF _ assms] by (simp add: step_of_def)

lemma calm_target_uniformity: "lv_ok (env_of s) l \<Longrightarrow> calm (target_uniformity s l u)"
  by (auto simp: target_uniformity_def local_at_def index_at_lt split: lvalue.split)

lemma unary_increment_ok:
  assumes "te_ok (env_of s) e"
  shows "okres (te_ok (env_of s)) (unary_increment op e sp s)"
proof -
  have "okres (te_ok (env_of s)) (rbind (take_lvalue (te_kind e) (te_span e) ''increment target'') (\<lambda>target.
        rbind (target_uniformity s target (te_uniformity e)) (\<lambda>uniformity.
        rbind (if is_pointer (value_type (te_ty e)) then pointee_size (value_type (te_ty e)) s else Inr 1) (\<lambda>scale.
          Inr (TExpr (TE_IncDec target (op = U_PreInc \<or> op = U_PostInc)
                        (op = U_PostInc \<or> op = U_PostDec) scale) (value_type (te_ty e)) uniformity sp)))))"
    if "is_scalar (value_type (te_ty e))"
    using that te_ok_type [OF assms] lvalue_ok [OF assms]
    by (intro okres_bind [OF okres_take_lvalue] calm_bind okres_bind [OF step_ok])
      (simp_all add: calm_target_uniformity del: okres_simps(1), auto)
  then show ?thesis
    unfolding unary_increment_def Let_def by simp
qed

lemma unary_plain_ok:
  assumes "te_ok G e" "\<not> is_increment op" "op \<noteq> U_AddressOf" "op \<noteq> U_Deref"
  shows "okres (te_ok G) (unary_plain op e sp)"
  unfolding unary_plain_def
  by (rule okres_bind [OF okres_require_integer])
    (use assms te_ok_type [OF assms(1)] in \<open>cases op; auto simp: unary_ok_def is_increment_def\<close>)

lemma unary_ok:
  assumes "good s" "te_ok (env_of s) e"
  shows "okres expr_done (unary op e sp s)"
  unfolding unary_def
  using assms unary_address_of_ok unary_deref_ok unary_increment_ok unary_plain_ok good_locals
  by (auto intro!: okres_bind [where P = "te_ok (env_of s)"])

lemma is_pointer_decayed: "pointee (value_type t) = Some p \<Longrightarrow> is_pointer (value_type t)"
  by (auto simp: pointee_def is_pointer_def value_type_def decay_def split: if_splits)

lemma index_ok:
  assumes "te_ok (env_of s) base" "te_ok (env_of s) idx"
  shows "okres (te_ok (env_of s)) (index base idx sp s)"
  unfolding index_def
proof (rule okres_bind [OF okres_require_integer])
  assume idx: "is_integer (value_type (te_ty idx))"
  show "okres (te_ok (env_of s)) (case pointee (value_type (te_ty base)) of
      None \<Rightarrow> diag (te_span base) ''indexing requires an array or pointer''
    | Some ty \<Rightarrow> rbind (type_size ty (an_structs s)) (\<lambda>scale.
        Inr (TExpr (TE_LValue (LV_Index base idx scale)) ty
          (uniformity_join (te_uniformity base) (te_uniformity idx)) sp)))"
  proof (cases "pointee (value_type (te_ty base))")
    case (Some ty)
    have ok: "type_ok (env_of s) ty"
      using type_ok_pointee [OF Some] te_ok_type [OF assms(1)] by simp
    with Some idx assms is_pointer_decayed [OF Some] show ?thesis
      by (auto intro!: calm_bind calm_type_size [OF ok] simp: step_of_def)
  qed simp
qed

lemma find_distinct:
  assumes "distinct (map g xs)" "x \<in> set xs"
  shows "find (\<lambda>y. g y = g x) xs = Some x"
  using assms by (induction xs) auto

lemma struct_field:
  assumes "good s" "i < length (an_structs s)" "f \<in> set (si_fields (an_structs s ! i))"
  shows "find (\<lambda>g. fi_offset g = fi_offset f) (si_fields (an_structs s ! i)) = Some f"
    and "type_ok (env_of s) (fi_ty f)"
proof -
  have "struct_ok (env_of s) (an_structs s ! i)"
    using assms(1,2) by (simp add: good_def tables_ok_def Let_def list_all_length)
  then show "find (\<lambda>g. fi_offset g = fi_offset f) (si_fields (an_structs s ! i)) = Some f"
    "type_ok (env_of s) (fi_ty f)"
    using assms(3) find_distinct [of fi_offset] by (auto simp: struct_ok_def list_all_iff)
qed

lemma member_base_ok:
  assumes "te_ok (env_of s) base"
  shows "okres (\<lambda>(l, t). lv_ok (env_of s) l \<and> lv_type (env_of s) l = Some t \<and> type_ok (env_of s) t)
    (member_base base through_pointer sp)"
proof (cases through_pointer)
  case True
  have "type_ok (env_of s) t" if "pointee (value_type (te_ty base)) = Some t" for t
    using type_ok_pointee [OF that] te_ok_type [OF assms] by simp
  with True assms show ?thesis
    by (simp add: member_base_def split: option.split)
next
  case False
  with lvalue_ok [OF assms] te_ok_type [OF assms] show ?thesis
    unfolding member_base_def by (auto intro!: okres_bind [OF okres_take_lvalue])
qed

lemma member_ok:
  assumes "good s" "te_ok (env_of s) base"
  shows "okres (te_ok (env_of s)) (member base field through_pointer sp s)"
  unfolding member_def
proof (rule okres_bind [OF member_base_ok [OF assms(2)]], clarify)
  fix l t
  assume l: "lv_ok (env_of s) l" "lv_type (env_of s) l = Some t" "type_ok (env_of s) t"
  show "okres (te_ok (env_of s)) (case ty_base t of
         BT_Struct i \<Rightarrow>
           if \<not> is_struct t then diag sp ''member access requires a structure object''
           else
             rbind (index_at (an_structs s) i) (\<lambda>info.
               case find (\<lambda>f. fi_name f = field) (si_fields info) of
                 None \<Rightarrow> diag sp (''struct '' @ quoted (si_name info) @ '' has no field '' @ quoted field)
               | Some f \<Rightarrow>
                   Inr (TExpr (TE_LValue (LV_Member l (fi_offset f))) (fi_ty f) (te_uniformity base) sp))
       | _ \<Rightarrow> diag sp ''member access requires a structure'')"
  proof (cases "ty_base t")
    case (BT_Struct i)
    with l have i: "i < length (an_structs s)" by (simp add: type_ok_def)
    have "f \<in> set (si_fields (an_structs s ! i))"
      if "find (\<lambda>f. fi_name f = field) (si_fields (an_structs s ! i)) = Some f" for f
      using that by (auto simp: find_Some_iff)
    with BT_Struct i l struct_field [OF assms(1) i] show ?thesis
      by (auto simp: index_at_lt split: option.split)
  qed simp_all
qed

lemma compatible_pointer: "compatible_pointers a b \<Longrightarrow> is_pointer a \<and> is_pointer b"
  by (simp add: compatible_pointers_def)

lemma pointer_binary_ok:
  assumes "te_ok (env_of s) l" "te_ok (env_of s) r"
  shows "okres (\<lambda>p. case p of Some t \<Rightarrow> te_ok (env_of s) t | None \<Rightarrow> True) (pointer_binary op l r u sp s)"
  unfolding pointer_binary_def Let_def
  using assms te_ok_type [OF assms(1)] te_ok_type [OF assms(2)] compatible_pointer
  by (auto intro!: okres_bind [OF pointee_size_ok])

lemma binary_result_ok: "type_ok G a \<Longrightarrow> type_ok G b \<Longrightarrow> type_ok G t \<Longrightarrow> type_ok G (binary_result_type op a b t)"
  by (simp add: binary_result_type_def)

lemma binary_typed:
  assumes "te_ok (env_of s) l" "te_ok (env_of s) r"
  shows "okres (te_ok (env_of s)) (binary op l r sp s)"
proof -
  let ?lt = "value_type (te_ty l)" and ?rt = "value_type (te_ty r)"
  have integers: "okres (te_ok (env_of s)) (rbind (require_integer l ''left operand'') (\<lambda>_.
              rbind (require_integer r ''right operand'') (\<lambda>_.
                let operand_type = usual_type ?lt ?rt in
                Inr (TExpr (TE_Binary op l r operand_type)
                       (binary_result_type op ?lt ?rt operand_type) u sp))))" for u
    unfolding Let_def
    by (intro okres_bind [OF okres_require_integer])
      (use assms te_ok_type [OF assms(1)] te_ok_type [OF assms(2)] in
        \<open>simp add: binary_ok_def binary_result_ok\<close>)
  show ?thesis
    unfolding binary_def Let_def
    using integers [unfolded Let_def] assms pointer_not_integer
    by (auto intro!: okres_bind [OF pointer_binary_ok [OF assms]] simp: binary_ok_def comparable_def
        split: option.split)
qed

lemma assignment_target_ok:
  assumes "te_ok G e"
  shows "okres (\<lambda>l. lv_ok G l \<and> lv_type G l = Some (te_ty e) \<and> is_scalar (value_type (te_ty e)))
    (assignment_target e)"
  unfolding assignment_target_def
  using lvalue_ok [OF assms] by (auto intro: okres_mono [OF okres_take_lvalue])

lemma assignment_check_ok:
  assumes "type_ok (env_of s) ty"
  shows "okres (\<lambda>_. assign_ok op ty r (if is_pointer ty then T_U32 else usual_type ty (value_type (te_ty r))))
    (assignment_check op ty r sp s)"
  using okres_require_assignable [OF assms] okres_require_integer
  by (auto simp: assignment_check_def assign_ok_def)

lemma assignment_ok:
  assumes "te_ok (env_of s) l" "te_ok (env_of s) r" "lv_ok (env_of s) target"
    "lv_type (env_of s) target = Some (te_ty l)" "is_scalar (value_type (te_ty l))"
  shows "okres (te_ok (env_of s)) (assignment op l target r sp s)"
proof -
  let ?ty = "value_type (te_ty l)"
  have ty: "type_ok (env_of s) ?ty" using te_ok_type [OF assms(1)] by simp
  have "calm (case target of LV_Local i \<Rightarrow> rbind (local_at s i) (\<lambda>info.
      if li_shape info = Shape_Uniform \<and> te_uniformity r \<noteq> Uniform
      then diag (te_span r) (''varying expression cannot be assigned to uniform local '' @ quoted (li_name info))
      else Inr ()) | _ \<Rightarrow> Inr ())"
    using assms(3) by (auto simp: local_at_def index_at_lt split: lvalue.split)
  then show ?thesis
    unfolding assignment_def Let_def
    by (intro okres_bind [OF assignment_check_ok [OF ty]] okres_bind [OF step_ok [OF ty]] calm_bind
        calm_target_uniformity assms) (simp_all add: assms ty te_ok_type [OF assms(1)])
qed

lemma conditional_typed:
  assumes "te_ok G c" "te_ok G t" "te_ok G e" "is_scalar (value_type (te_ty c))"
  shows "okres (te_ok G) (conditional c t e sp)"
proof -
  have "okres (\<lambda>ty. conditional_ok t e ty \<and> type_ok G ty) (conditional_type t e sp)"
    using te_ok_type [OF assms(2)] te_ok_type [OF assms(3)] usual_type_cases
    by (auto simp: conditional_type_def Let_def conditional_ok_def arm_ok_def assignable_def is_scalar_def
        compatible_pointers_def)
  then show ?thesis
    unfolding conditional_def by (rule okres_bind) (simp add: assms)
qed

section \<open>Intrinsics\<close>

lemma integer_value_type: "is_integer (value_type t) \<Longrightarrow> is_integer t"
  by (auto simp: value_type_def decay_def is_integer_def split: if_splits)

lemma signatures_types: "list_all (\<lambda>(_, i, n, t, _). type_ok G t \<and> (i = I_ShuffleXor \<or> i = I_Shuffle \<longrightarrow> n = 2)) signatures"
  by (simp add: signatures_def)

lemma signature_member: "signature f = Some (i, n, t, u) \<Longrightarrow> (f, i, n, t, u) \<in> set signatures"
  unfolding signature_def by (rule map_of_SomeD)

lemma calm_shuffle_xor_mask:
  "(i = I_ShuffleXor \<Longrightarrow> length args = 2) \<Longrightarrow>
   okres (\<lambda>m. m \<noteq> None \<longrightarrow> length args = 2) (shuffle_xor_mask i args)"
proof -
  assume len: "i = I_ShuffleXor \<Longrightarrow> length args = 2"
  have "okres (\<lambda>m. True) (case constant_ast a of
      Inr m \<Rightarrow> if m < 32 then Inr (Some m)
        else diag (e_span a) ''warp_shuffle_xor mask must be a constant from 0 to 31''
    | Inl (Diag _) \<Rightarrow> diag (e_span a) ''warp_shuffle_xor mask must be a constant from 0 to 31''
    | Inl e \<Rightarrow> Inl e)" for a
    using calm_constant_ast [of a] by (auto split: sum.split cc_error.split)
  with len show ?thesis
    unfolding shuffle_xor_mask_def by (auto intro!: calm_bind elim: okres_mono)
qed

lemma calm_check_uniform_args: "calm (check_uniform_args callee i n args)"
  by (induction args arbitrary: n) simp_all

lemma with_mask_ok:
  assumes "m \<noteq> None \<Longrightarrow> length args = 2" "list_all (te_ok G) args" "list_all (intrinsic_arg_ok I_ShuffleXor) args \<or> m = None"
  shows "okres (\<lambda>bs. length bs = length args \<and> list_all (te_ok G) bs
      \<and> (\<forall>i. list_all (intrinsic_arg_ok i) args \<longrightarrow> list_all (intrinsic_arg_ok i) bs)) (with_mask m args)"
proof (cases m)
  case (Some v)
  with assms obtain a b where args: "args = [a, b]"
    by (auto simp: length_Suc_conv numeral_2_eq_2)
  have "is_integer (te_ty b)"
    using assms(3) args Some by (auto simp: intrinsic_arg_ok_def dest: integer_value_type)
  then show ?thesis
    using assms(2) args Some by (auto simp: with_mask_def index_at_def intrinsic_arg_ok_def type_ok_integer)
qed (use assms in \<open>simp add: with_mask_def\<close>)

lemma finish_intrinsic_ok:
  assumes "(f, i, length args, ty, v) \<in> set signatures" "list_all (te_ok G) args"
    "list_all (intrinsic_arg_ok i) args" "m \<noteq> None \<Longrightarrow> i = I_ShuffleXor"
  shows "okres (te_ok G) (finish_intrinsic callee i ty u m args sp)"
proof -
  have sig: "type_ok G ty" "i = I_ShuffleXor \<or> i = I_Shuffle \<Longrightarrow> length args = 2"
    using assms(1) signatures_types [of G] by (auto simp: list_all_iff)
  have result: "calm (result_uniformity i bs w)" if "length bs = length args" for bs w
    using sig(2) that by (auto simp: result_uniformity_def index_at_lt)
  have ok: "intrinsic_ok i bs ty" if "length bs = length args" "list_all (intrinsic_arg_ok i) bs" for bs
    using assms(1) that by (auto simp: intrinsic_ok_def list_ex_iff)
  show ?thesis
    unfolding finish_intrinsic_def Let_def
    by (rule okres_bind [OF with_mask_ok [where G = G]])
      (use assms sig in \<open>auto intro!: calm_bind [OF calm_check_uniform_args] calm_bind [OF result] ok\<close>)
qed

lemma finish_min_max_ok:
  assumes "te_ok G l" "te_ok G r"
  shows "okres (te_ok G) (finish_min_max maximum l r sp)"
  unfolding finish_min_max_def Let_def
  by (intro okres_bind [OF okres_require_integer])
    (use assms in \<open>auto simp: literal_ok intrinsic_ok_def intrinsic_arg_ok_def min_max_ok_def
      min_max_intrinsic_def split: option.split\<close>)

section \<open>Calls\<close>

definition plan_ok :: "analyzer \<Rightarrow> call_plan \<Rightarrow> nat \<Rightarrow> bool" where
  "plan_ok s plan n \<longleftrightarrow>
     (case plan of
        Plan_MinMax _ \<Rightarrow> n = 2
      | Plan_Intrinsic i ty u m \<Rightarrow> (\<exists>f v. (f, i, n, ty, v) \<in> set signatures) \<and> (m \<noteq> None \<longrightarrow> i = I_ShuffleXor)
      | Plan_Inline c symbol \<Rightarrow> n = length (fs_params symbol)
          \<and> (\<exists>f<length (an_functions s). an_inline_candidates s f = Some c \<and> symbol = an_functions s ! f)
      | Plan_Call f symbol \<Rightarrow> n = length (fs_params symbol)
          \<and> f < length (an_functions s) \<and> symbol = an_functions s ! f)"

definition plan_arg_ok :: "call_plan \<Rightarrow> nat \<Rightarrow> typed_expr \<Rightarrow> bool" where
  "plan_arg_ok plan n a \<longleftrightarrow>
     (case plan of
        Plan_MinMax _ \<Rightarrow> True
      | Plan_Intrinsic i ty u m \<Rightarrow> intrinsic_arg_ok i a
      | Plan_Inline c symbol \<Rightarrow> assignable (fs_params symbol ! n) a
      | Plan_Call f symbol \<Rightarrow> assignable (fs_params symbol ! n) a)"

lemma shuffle_xor_mask_only: "shuffle_xor_mask i args = Inr m \<Longrightarrow> m \<noteq> None \<Longrightarrow> i = I_ShuffleXor"
  by (auto simp: shuffle_xor_mask_def split: if_splits)

lemma plan_call_ok:
  assumes "good s"
  shows "okres (\<lambda>plan. plan_ok s plan (length args)) (plan_call callee args sp s)"
proof -
  have intrinsic: "okres (\<lambda>plan. plan_ok s plan (length args)) (plan_intrinsic callee i n ty u args sp s)"
    if sig: "signature callee = Some (i, n, ty, u)" for i n ty u
  proof -
    note member = signature_member [OF sig]
    then have "i = I_ShuffleXor \<Longrightarrow> n = 2" using signatures_types [of "env_of s"] by (auto simp: list_all_iff)
    then have "calm (shuffle_xor_mask i args)" if "length args = n"
      using calm_shuffle_xor_mask [of i args] that by (auto elim: okres_mono)
    then show ?thesis
      unfolding plan_intrinsic_def wrong_arity_def using member shuffle_xor_mask_only
      by (auto intro!: calm_bind simp: plan_ok_def; blast)
  qed
  have ids: "f < length (an_functions s)" if "an_function_ids s callee = Some f" for f
    using assms that by (auto simp: good_def tables_ok_def Let_def map_below_def)
  have "okres (\<lambda>plan. plan_ok s plan (length args)) (plan_function callee args sp s)"
    unfolding plan_function_def wrong_arity_def
    by (auto simp: index_at_lt ids plan_ok_def split: option.split; use ids in blast)
  with intrinsic show ?thesis
    unfolding plan_call_def wrong_arity_def
    by (auto simp: plan_ok_def split: option.split)
qed

lemma symbol_facts:
  assumes "good s" "f < length (an_functions s)"
  shows "symbol_ok (env_of s) (an_functions s ! f)"
  using assms by (simp add: good_def tables_ok_def Let_def list_all_length)

lemma check_arg_ok:
  assumes "symbol_ok (env_of s) symbol" "n < length (fs_params symbol)"
  shows "okres (\<lambda>_. assignable (fs_params symbol ! n) a) (check_arg symbol n a s)"
proof -
  have "type_ok (env_of s) (fs_params symbol ! n)"
    using assms by (auto simp: symbol_ok_def list_all_length)
  then show ?thesis
    using assms unfolding check_arg_def symbol_ok_def
    by (auto intro!: okres_bind [OF okres_require_assignable] simp: index_at_lt)
qed

lemma plan_check_ok:
  assumes "good s" "plan_ok s plan k" "n < k"
  shows "okres (\<lambda>_. plan_arg_ok plan n a) (plan_check plan n a s)"
proof (cases plan)
  case (Plan_Intrinsic i ty u m)
  then show ?thesis
    by (simp add: plan_check_def plan_arg_ok_def check_intrinsic_arg_def require_integer_def intrinsic_arg_ok_def)
qed (use assms symbol_facts [OF assms(1)] in
  \<open>auto simp: plan_check_def plan_arg_ok_def plan_ok_def intro!: check_arg_ok\<close>)

text \<open>Contracts of the expansion: the state it leaves and the tree it gives.\<close>

definition inliner_frame :: "inliner \<Rightarrow> bool" where
  "inliner_frame inl \<longleftrightarrow> (\<forall>c args symbol sp s. leads expr_frame s (inl c args symbol sp s))"

definition inliner_ok :: "inliner \<Rightarrow> bool" where
  "inliner_ok inl \<longleftrightarrow> (\<forall>c args symbol sp s f. good s \<longrightarrow> an_inline_candidates s f = Some c
     \<longrightarrow> symbol = an_functions s ! f \<longrightarrow> list_all2 assignable (fs_params symbol) args
     \<longrightarrow> list_all (te_ok (env_of s)) args \<longrightarrow> okres expr_done (inl c args symbol sp s))"

lemma inliner_frameD: "inliner_frame inl \<Longrightarrow> leads expr_frame s (inl c args symbol sp s)"
  by (simp add: inliner_frame_def)

text \<open>The result of the arguments from number \<open>n\<close> on.\<close>

definition args_done :: "call_plan \<Rightarrow> nat \<Rightarrow> nat \<Rightarrow> typed_expr list \<times> analyzer \<Rightarrow> bool" where
  "args_done plan n k = (\<lambda>(ts, s). length ts = k \<and> list_all (te_ok (env_of s)) ts \<and> bodies_ok s
     \<and> (\<forall>j<k. plan_arg_ok plan (n + j) (ts ! j)))"

lemma plan_args: "length ts = length ps \<Longrightarrow> (\<forall>j<length ps. assignable (ps ! j) (ts ! j)) \<Longrightarrow> list_all2 assignable ps ts"
  by (simp add: list_all2_conv_all_nth)

lemma add_call_edge_env:
  assumes "add_call_edge f s = Inr t" "f < length (an_functions s)"
  shows "env_of t = env_of s \<and> (bodies_ok s \<longrightarrow> bodies_ok t)"
proof -
  from assms(1) obtain x xa where x: "x < length (an_call_edges s)" "xa = an_call_edges s ! x"
    "t = (if f \<in> set xa then s else s\<lparr>an_call_edges := (an_call_edges s)[x := xa @ [f]]\<rparr>)"
    by (auto simp: add_call_edge_def rbind_eq_Inr index_at_Inr)
  then have env: "env_of t = env_of s" by (simp add: env_of_def)
  have "edges_ok (an_functions s) ((an_call_edges s)[x := xa @ [f]])" if "edges_ok (an_functions s) (an_call_edges s)"
    using that nth_mem [OF x(1)] x(2) assms(2)
    by (auto simp: edges_ok_def dest!: set_update_subset_insert [THEN subsetD])
  with env x(3) show ?thesis by (simp add: bodies_ok_def)
qed

lemma calm_add_call_edge: "good s \<Longrightarrow> calm (add_call_edge f s)"
  by (auto simp: good_def bodies_ok_def edges_ok_def add_call_edge_def index_at_lt unwrap_def)

lemma plan_finish_ok:
  assumes good: "good s" and inl: "inliner_ok inl" and plan: "plan_ok s plan (length ts)"
    and args: "args_done plan 0 (length ts) (ts, s)"
  shows "okres expr_done (plan_finish inl callee plan ts sp s)"
proof (cases plan)
  case (Plan_MinMax b)
  with plan have "length ts = 2" by (simp add: plan_ok_def)
  with args good show ?thesis
    by (auto simp: Plan_MinMax plan_finish_def index_at_lt args_done_def list_all_length good_locals
        intro!: okres_bind [OF finish_min_max_ok])
next
  case (Plan_Intrinsic i ty u m)
  with plan obtain f v where "(f, i, length ts, ty, v) \<in> set signatures" "m \<noteq> None \<Longrightarrow> i = I_ShuffleXor"
    by (auto simp: plan_ok_def)
  with args good show ?thesis
    by (auto simp: Plan_Intrinsic plan_finish_def args_done_def plan_arg_ok_def list_all_length good_locals
        intro!: okres_bind [OF finish_intrinsic_ok])
next
  case (Plan_Inline c symbol)
  with plan obtain f where f: "an_inline_candidates s f = Some c" "symbol = an_functions s ! f"
    by (auto simp: plan_ok_def)
  have "list_all2 assignable (fs_params symbol) ts"
    using plan args by (intro plan_args) (simp_all add: Plan_Inline plan_ok_def args_done_def plan_arg_ok_def)
  with inl good f args show ?thesis
    unfolding inliner_ok_def Plan_Inline plan_finish_def args_done_def by auto
next
  case (Plan_Call f symbol)
  have ts: "list_all2 assignable (fs_params symbol) ts"
    using plan args by (intro plan_args) (simp_all add: Plan_Call plan_ok_def args_done_def plan_arg_ok_def)
  have f: "f < length (an_functions s)" "symbol = an_functions s ! f"
    using plan by (simp_all add: Plan_Call plan_ok_def)
  then have "type_ok (env_of s) (fs_return_type symbol)"
    using symbol_facts [OF good] by (auto simp: symbol_ok_def)
  with ts f args good show ?thesis
    by (auto simp: Plan_Call plan_finish_def finish_call_def args_done_def call_ok_def good_locals
        intro!: calm_bind calm_add_call_edge dest!: add_call_edge_env)
qed

section \<open>Expressions\<close>

lemma frame_te_expr:
  assumes "inliner_frame inl"
  shows "leads expr_frame s (te_expr inl e s)" "leads expr_frame s (te_args inl plan n es s)"
  using frame.te_expr [of inl, OF inliner_frameD [OF assms]] by blast+

text \<open>A step after a finished expression starts from a well-formed state again.\<close>

lemma expr_step:
  assumes "good s" "okres expr_done m" "leads expr_frame s m"
    and "\<And>t u. m = Inr (t, u) \<Longrightarrow> te_ok (env_of u) t \<Longrightarrow> good u \<Longrightarrow> expr_frame s u \<Longrightarrow>
      env_le (env_of s) (env_of u) \<Longrightarrow> okres Q (f (t, u))"
  shows "okres Q (rbind m f)"
proof (cases m)
  case (Inr a)
  obtain t u where a: "a = (t, u)" by (cases a)
  with Inr assms(2,3) have tu: "te_ok (env_of u) t" "bodies_ok u" "expr_frame s u"
    by (auto simp: leads_def)
  with assms(4) [of t u] expr_frame_good [OF assms(1) tu(3,2)] kept_env_le [of s u] show ?thesis
    by (simp add: Inr a expr_frame_def)
qed (use assms(2) in simp)

lemma plan_ok_static: "static_of t = static_of s \<Longrightarrow> plan_ok t plan n = plan_ok s plan n"
  by (cases plan) (simp_all add: plan_ok_def static_of_def)

lemma frame_static: "expr_frame s t \<Longrightarrow> static_of t = static_of s"
  by (simp add: expr_frame_def body_kept_def)

lemma good_mask: "good s \<Longrightarrow> good (enter_mask b s)" "env_of (enter_mask b s) = env_of s"
    "env_of (leave_mask b s) = env_of s" "bodies_ok (leave_mask b s) = bodies_ok s"
  by (simp_all add: enter_mask_def leave_mask_def good_def tables_ok_def bodies_ok_def scopes_ok_def env_of_def)

lemma allocate_env: "allocate_words s ws = (a, t) \<Longrightarrow> env_of t = env_of s \<and> bodies_ok t = bodies_ok s"
  by (auto simp: allocate_words_def env_of_def bodies_ok_def)

lemma te_expr_typed:
  assumes frame: "inliner_frame inl" and inl: "inliner_ok inl"
  shows "good s \<Longrightarrow> okres expr_done (te_expr inl e s)"
    and "good s \<Longrightarrow> plan_ok s plan (n + length es) \<Longrightarrow> okres (args_done plan n (length es)) (te_args inl plan n es s)"
  using frame inl
proof (induction inl e s and inl plan n es s rule: te_expr_te_args.induct)
  case (1 inl text' sp s)
  then show ?case
    by (auto simp: literal_ok good_locals dest: parse_integer_type intro!: calm_bind calm_parse_integer)
next
  case (2 inl v sp s)
  then show ?case by (simp add: literal_ok good_locals)
next
  case (3 inl words sp s)
  then show ?case
    by (auto simp: Let_def good_locals dest: allocate_env split: prod.split)
next
  case (4 inl name sp s)
  then show ?case by (auto intro!: okres_bind [OF name_expr_ok] simp: good_locals)
next
  case (5 inl callee args sp s)
  show ?case
    unfolding te_expr.simps
  proof (rule okres_bind [OF plan_call_ok [OF 5(2)]])
    fix plan
    assume plan: "plan_call callee args sp s = Inr plan" "plan_ok s plan (length args)"
    have args: "okres (args_done plan 0 (length args)) (te_args inl plan 0 args s)"
      using 5(1) [OF plan(1)] 5(2-) plan(2) by simp
    show "okres expr_done (rbind (te_args inl plan 0 args s) (\<lambda>(ts, s). plan_finish inl callee plan ts sp s))"
    proof (rule okres_bind [OF args], clarify)
      fix ts t
      assume ts: "te_args inl plan 0 args s = Inr (ts, t)" "args_done plan 0 (length args) (ts, t)"
      have "expr_frame s t" using frame_te_expr(2) [OF 5(3)] ts(1) by (auto simp: leads_def)
      with 5(2) ts(2) plan(2) have "good t" "plan_ok t plan (length args)"
        by (auto simp: args_done_def plan_ok_static [OF frame_static] intro: expr_frame_good)
      with 5(4) ts(2) show "okres expr_done (plan_finish inl callee plan ts sp t)"
        by (intro plan_finish_ok) (auto simp: args_done_def)
    qed
  qed
next
  case (6 inl op e sp s)
  show ?case
    unfolding te_expr.simps
    by (rule expr_step [OF 6(2) 6(1) frame_te_expr(1)]) (use 6 in \<open>auto intro: unary_ok\<close>)
next
  case (7 inl op l r sp s)
  show ?case
    unfolding te_expr.simps
  proof (rule expr_step [OF 7(3) 7(1) [OF 7(3-5)] frame_te_expr(1) [OF 7(4)]], clarify)
    fix t u
    assume t: "te_expr inl l s = Inr (t, u)" "te_ok (env_of u) t" "good u"
    show "okres expr_done (rbind (te_expr inl r u) (\<lambda>(r, s). rbind (binary op t r sp s) (\<lambda>x. Inr (x, s))))"
    proof (rule expr_step [OF t(3) _ frame_te_expr(1)], goal_cases)
      case (3 r v)
      then show ?case
        using t typing_mono(1) by (auto intro!: okres_bind [OF binary_typed] simp: good_locals)
    qed (use 7 t in auto)
  qed
next
  case (8 inl c t e sp s)
  show ?case
    unfolding te_expr.simps Let_def
  proof (rule expr_step [OF 8(4) 8(1) [OF 8(4-6)] frame_te_expr(1) [OF 8(5)]], clarify)
    fix x u
    let ?b = "is_masked u x"
    assume x: "te_expr inl c s = Inr (x, u)" "te_ok (env_of u) x" "good u"
    show "okres expr_done (rbind (check_condition ''conditional condition'' x) (\<lambda>_.
      if ?b \<and> 2 \<le> an_divergent_depth u
      then diag sp ''divergent conditional nesting exceeds the two predicate masks available in Slice E''
      else rbind (te_expr inl t (enter_mask ?b u)) (\<lambda>(y, s).
        rbind (te_expr inl e s) (\<lambda>(z, s).
        rbind (conditional x y z sp) (\<lambda>w. Inr (w, leave_mask ?b s))))))"
    proof (rule okres_bind [OF okres_check_condition])
      fix k
      assume c: "is_scalar (value_type (te_ty x))" "check_condition ''conditional condition'' x = Inr k"
      have "okres expr_done (rbind (te_expr inl t (enter_mask ?b u)) (\<lambda>(y, s).
        rbind (te_expr inl e s) (\<lambda>(z, s).
        rbind (conditional x y z sp) (\<lambda>w. Inr (w, leave_mask ?b s)))))"
        if nest: "\<not> (?b \<and> 2 \<le> an_divergent_depth u)"
      proof (rule expr_step [OF good_mask(1) [OF x(3)] _ frame_te_expr(1)], goal_cases)
        case (3 y v)
        show ?case
          unfolding prod.case
        proof (rule expr_step [OF 3(3) _ frame_te_expr(1)], goal_cases)
          case (3 z w)
          have "te_ok (env_of w) x" "te_ok (env_of w) y"
            using x(2) \<open>te_ok (env_of v) y\<close> 3(5) \<open>env_le (env_of (enter_mask ?b u)) (env_of v)\<close>
            by (auto simp: good_mask intro: typing_mono(1) env_le_trans)
          with 3 c(1) show ?case
            by (auto intro!: okres_bind [OF conditional_typed] simp: good_mask good_locals)
        qed (use 8 x c nest 3 in auto)
      qed (use 8 x c nest good_mask(1) in auto)
      then show "okres expr_done (if ?b \<and> 2 \<le> an_divergent_depth u
        then diag sp ''divergent conditional nesting exceeds the two predicate masks available in Slice E''
        else rbind (te_expr inl t (enter_mask ?b u)) (\<lambda>(y, s).
          rbind (te_expr inl e s) (\<lambda>(z, s).
          rbind (conditional x y z sp) (\<lambda>w. Inr (w, leave_mask ?b s)))))"
        by auto
    qed
  qed
next
  case (9 inl op l r sp s)
  show ?case
    unfolding te_expr.simps
  proof (rule expr_step [OF 9(3) 9(1) [OF 9(3-5)] frame_te_expr(1) [OF 9(4)]], clarify)
    fix t u
    assume t: "te_expr inl l s = Inr (t, u)" "te_ok (env_of u) t" "good u"
    show "okres expr_done (rbind (assignment_target t) (\<lambda>target.
        rbind (te_expr inl r u) (\<lambda>(x, s). rbind (assignment op t target x sp s) (\<lambda>y. Inr (y, s)))))"
    proof (rule okres_bind [OF assignment_target_ok [OF t(2)]])
      fix target
      assume target: "assignment_target t = Inr target" "lv_ok (env_of u) target
        \<and> lv_type (env_of u) target = Some (te_ty t) \<and> is_scalar (value_type (te_ty t))"
      show "okres expr_done (rbind (te_expr inl r u) (\<lambda>(x, s).
          rbind (assignment op t target x sp s) (\<lambda>y. Inr (y, s))))"
      proof (rule expr_step [OF t(3) _ frame_te_expr(1)], goal_cases)
        case (3 x v)
        then show ?case
          using t target typing_mono lv_type_mono
          by (auto intro!: okres_bind [OF assignment_ok] simp: good_locals)
      qed (use 9 t target in auto)
    qed
  qed
next
  case (10 inl b i sp s)
  show ?case
    unfolding te_expr.simps
  proof (rule expr_step [OF 10(3) 10(1) [OF 10(3-5)] frame_te_expr(1) [OF 10(4)]], clarify)
    fix t u
    assume t: "te_expr inl b s = Inr (t, u)" "te_ok (env_of u) t" "good u"
    show "okres expr_done (rbind (te_expr inl i u) (\<lambda>(r, s). rbind (index t r sp s) (\<lambda>x. Inr (x, s))))"
    proof (rule expr_step [OF t(3) _ frame_te_expr(1)], goal_cases)
      case (3 r v)
      then show ?case
        using t typing_mono(1) by (auto intro!: okres_bind [OF index_ok] simp: good_locals)
    qed (use 10 t in auto)
  qed
next
  case (11 inl b field through_pointer sp s)
  show ?case
    unfolding te_expr.simps
    by (rule expr_step [OF 11(2) 11(1) frame_te_expr(1)])
      (use 11 in \<open>auto intro!: okres_bind [OF member_ok] simp: good_locals\<close>)
next
  case (12 inl e sp s)
  show ?case
    unfolding te_expr.simps
    by (rule expr_step [OF 12(2) 12(1) frame_te_expr(1)])
      (use 12 in \<open>auto intro!: calm_bind calm_type_size te_ok_type simp: good_locals literal_ok\<close>)
next
  case (13 inl decl sp s)
  then show ?case by (auto intro!: okres_bind [OF sizeof_type_ok] simp: good_locals)
next
  case (14 inl plan n s)
  then show ?case by (simp add: args_done_def good_locals)
next
  case (15 inl plan n a as s)
  show ?case
    unfolding te_args.simps
  proof (rule expr_step [OF 15(3) 15(1) [OF 15(3,5,6)] frame_te_expr(1) [OF 15(5)]], clarify)
    fix t u
    assume t: "te_expr inl a s = Inr (t, u)" "te_ok (env_of u) t" "good u" "expr_frame s u"
    then have plan: "plan_ok u plan (n + length (a # as))"
      using 15(4) by (simp add: plan_ok_static [OF frame_static])
    show "okres (args_done plan n (length (a # as))) (rbind (plan_check plan n t u) (\<lambda>_.
        rbind (te_args inl plan (n + 1) as u) (\<lambda>(ts, s). Inr (t # ts, s))))"
    proof (rule okres_bind [OF plan_check_ok [OF t(3) plan]])
      fix k
      assume c: "plan_check plan n t u = Inr k" "plan_arg_ok plan n t"
      have rest: "okres (args_done plan (n + 1) (length as)) (te_args inl plan (n + 1) as u)"
        using 15(2) [OF t(1) HOL.refl c(1) t(3)] plan 15(5,6) by simp
      show "okres (args_done plan n (length (a # as)))
        (rbind (te_args inl plan (n + 1) as u) (\<lambda>(ts, s). Inr (t # ts, s)))"
      proof (rule okres_bind [OF rest], clarify)
        fix ts v
        assume ts: "te_args inl plan (n + 1) as u = Inr (ts, v)" "args_done plan (n + 1) (length as) (ts, v)"
        have "expr_frame u v" using frame_te_expr(2) [OF 15(5)] ts(1) by (auto simp: leads_def)
        then have "te_ok (env_of v) t"
          using t(2) kept_env_le by (auto simp: expr_frame_def intro: typing_mono(1))
        with ts(2) c(2) show "okres (args_done plan n (length (a # as))) (Inr (t # ts, v))"
          by (auto simp: args_done_def nth_Cons split: nat.split)
      qed
    qed simp
  qed
qed

end
