(* ===== verification/Typed_Stmt.thy ===== *)
theory Typed_Stmt
  imports Typed_Expr
begin

text \<open>
  Statements and the expansion of inline candidates: the analysis returns well-typed trees and
  never panics except by an overflow of a size. A candidate contains no calls, so what it is
  expanded to does not depend on how calls in it would be expanded.
\<close>

section \<open>Declarations\<close>

text \<open>A statement needs a scope for the names it declares.\<close>

definition ready :: "analyzer \<Rightarrow> bool" where
  "ready s \<longleftrightarrow> good s \<and> an_scopes s \<noteq> []"

lemma ready_good: "ready s \<Longrightarrow> good s"
  by (simp add: ready_def)

lemma stmt_frame_ready: "ready s \<Longrightarrow> stmt_frame s t \<Longrightarrow> bodies_ok t \<Longrightarrow> ready t"
  by (auto simp: ready_def scope_grown_def stmt_frame_def intro: stmt_frame_good [unfolded stmt_frame_def])

lemma stmt_step:
  assumes "ready s" "okres (\<lambda>(t, u). P u t \<and> bodies_ok u) m" "leads stmt_frame s m"
    and "\<And>t u. m = Inr (t, u) \<Longrightarrow> P u t \<Longrightarrow> ready u \<Longrightarrow> env_le (env_of s) (env_of u) \<Longrightarrow>
      an_return_type u = an_return_type s \<Longrightarrow> okres Q (f (t, u))"
  shows "okres Q (rbind m f)"
proof (cases m)
  case (Inr a)
  obtain t u where a: "a = (t, u)" by (cases a)
  with Inr assms(2,3) have tu: "P u t" "bodies_ok u" "stmt_frame s u"
    by (auto simp: leads_def)
  with assms(4) [of t u] stmt_frame_ready [OF assms(1) tu(3,2)] kept_env_le [of s u] show ?thesis
    by (simp add: Inr a stmt_frame_def body_kept_def static_of_def)
qed (use assms(2) in simp)

lemma expr_to_stmt: "leads expr_frame s r \<Longrightarrow> leads stmt_frame s r"
  by (rule leads_mono [OF _ frame.weaken])

lemma te_expr_stmt_frame: "inliner_frame inl \<Longrightarrow> leads stmt_frame s (te_expr inl e s)"
  by (rule expr_to_stmt [OF frame_te_expr(1)])

lemma te_expr_done:
  "inliner_frame inl \<Longrightarrow> inliner_ok inl \<Longrightarrow> ready s \<Longrightarrow>
   okres (\<lambda>(t, u). te_ok (env_of u) t \<and> bodies_ok u) (te_expr inl e s)"
  using te_expr_typed(1) [of inl s e] by (simp add: expr_done_def ready_def)

lemma ready_locals: "ready s \<Longrightarrow> bodies_ok s"
  by (simp add: ready_def good_def)

lemma condition_expr_done:
  assumes "inliner_frame inl" "inliner_ok inl" "ready s"
  shows "okres (\<lambda>(t, u). (te_ok (env_of u) t \<and> is_scalar (value_type (te_ty t))) \<and> bodies_ok u)
    (condition_expr inl e role s)"
  unfolding condition_expr_def
  by (rule stmt_step [OF assms(3) te_expr_done [OF assms] te_expr_stmt_frame [OF assms(1)]])
    (auto intro!: okres_bind [OF okres_check_condition] dest: ready_locals)

lemma or_else_calm: "calm a \<Longrightarrow> calm b \<Longrightarrow> calm (or_else_res a b)"
  by (auto simp: or_else_res_def intro!: calm_bind split: option.split)

lemma calm_varying_source:
  "te_ok G e \<Longrightarrow> length (en_locals G) = length ls \<Longrightarrow> calm (varying_source ls e)"
  "list_all (te_ok G) es \<Longrightarrow> length (en_locals G) = length ls \<Longrightarrow> calm (varying_sources ls es)"
  by (induction ls e and ls es rule: varying_source_varying_sources.induct)
    (auto simp: index_at_lt intro!: or_else_calm)

lemma uniform_condition_done:
  assumes "inliner_frame inl" "inliner_ok inl" "ready s"
  shows "okres (\<lambda>(t, u). (te_ok (env_of u) t \<and> is_scalar (value_type (te_ty t))) \<and> bodies_ok u)
    (uniform_condition inl e role s)"
  unfolding uniform_condition_def
  by (rule stmt_step [OF assms(3) condition_expr_done [OF assms]
      expr_to_stmt [OF frame.condition_expr(1) [OF frame_te_expr(1) [OF assms(1)]]]])
    (auto intro!: calm_bind calm_varying_source(1) dest: ready_locals)

lemma optional_expr_done:
  assumes "inliner_frame inl" "inliner_ok inl" "ready s"
  shows "okres (\<lambda>(t, u). (case t of None \<Rightarrow> e = None | Some x \<Rightarrow> te_ok (env_of u) x) \<and> bodies_ok u)
    (optional_expr inl e s)"
  unfolding optional_expr_def
  by (cases e) (auto intro!: stmt_step [OF assms(3) te_expr_done [OF assms] te_expr_stmt_frame [OF assms(1)]]
      simp: ready_locals assms)

lemma ready_return_type: "ready s \<Longrightarrow> type_ok (env_of s) (an_return_type s)"
  by (simp add: ready_def good_def)

lemma env_le_type: "env_le G H \<Longrightarrow> type_ok H t = type_ok G t"
  by (rule type_ok_mono)

lemma typed_init_done:
  assumes "inliner_frame inl" "inliner_ok inl" "ready s" "type_ok (env_of s) ty"
  shows "okres (\<lambda>(t, u). (case t of None \<Rightarrow> True | Some i \<Rightarrow> init_ok (env_of u) ty i) \<and> bodies_ok u)
    (typed_init inl ty init s)"
proof -
  have expr: "okres (\<lambda>(t, u). (case t of None \<Rightarrow> True | Some i \<Rightarrow> init_ok (env_of u) ty i) \<and> bodies_ok u)
      (rbind (te_expr inl e s) (\<lambda>(t, s).
         rbind (require_assignable s ty t ''initializer'') (\<lambda>_. Inr (Some (TI_Expr t), s))))" for e
    by (rule stmt_step [OF assms(3) te_expr_done [OF assms(1-3)] te_expr_stmt_frame [OF assms(1)]])
      (use assms(4) in \<open>auto intro!: okres_bind [OF okres_require_assignable] simp: env_le_type ready_locals\<close>)
  show ?thesis
    unfolding typed_init_def
    using expr assms(3) by (auto simp: ready_locals is_array_def unwrap_def split: option.split)
qed

lemma new_local_env:
  assumes "new_local title ty sp shape taken s = (i, t)" "bind_local name i t = Inr u"
  shows "i = length (an_locals s) \<and> length (an_locals u) = Suc (length (an_locals s))
    \<and> env_of u = (env_of s)\<lparr>en_locals := en_locals (env_of s) @ [ty]\<rparr>
    \<and> bodies_ok u = (bodies_ok s \<and> type_ok (env_of s) ty)"
proof -
  from assms have iu: "i = length (an_locals s)" "an_locals t = an_locals s @ [\<lparr>li_name = title, li_ty = ty,
      li_span = sp, li_uniformity = expression_uniformity shape, li_shape = shape,
      li_address_taken = taken, li_frame_offset = None\<rparr>]" "an_globals t = an_globals s"
    "an_structs t = an_structs s" "an_functions t = an_functions s" "an_call_edges t = an_call_edges s"
    "\<exists>m. u = t\<lparr>an_scopes := m\<rparr>"
    by (auto simp: new_local_def bind_local_def rbind_eq_Inr)
  then have "env_of u = (env_of s)\<lparr>en_locals := en_locals (env_of s) @ [ty]\<rparr>"
    by (auto simp: env_of_def)
  moreover have "type_ok ((env_of s)\<lparr>en_locals := ts\<rparr>) = type_ok (env_of s)" for ts
    by (intro ext type_ok_structs) simp
  ultimately show ?thesis
    using iu by (auto simp: bodies_ok_def comp_def)
qed

lemma calm_bind_local: "an_scopes s \<noteq> [] \<Longrightarrow> calm (bind_local name i s)"
  by (auto simp: bind_local_def last_scope_def unwrap_def)

lemma local_declaration_done:
  assumes "inliner_frame inl" "inliner_ok inl" "ready s" "has_name d"
  shows "okres (\<lambda>(x, u). (case x of (i, t) \<Rightarrow> i < length (an_locals u)
      \<and> (case t of None \<Rightarrow> True | Some t \<Rightarrow> init_ok (env_of u) (en_locals (env_of u) ! i) t)) \<and> bodies_ok u)
    (local_declaration inl d init sp s)"
proof -
  obtain name where name: "dc_name (dt_declarator d) = Some name"
    using assms(4) by (auto simp: has_name_def)
  have scope: "calm (last_scope s)"
    using assms(3) by (auto simp: ready_def last_scope_def unwrap_def)
  have uniform: "calm (check_uniform_init name shape t)" for shape t
    by (auto simp: check_uniform_init_def split: option.split typed_initializer.split)
  have init: "leads stmt_frame s (typed_init inl ty init s)" for ty
    by (rule expr_to_stmt [OF frame.typed_init [OF frame_te_expr(1) [OF assms(1)]]])
  have rest: "okres (\<lambda>(x, u). (case x of (i, t) \<Rightarrow> i < length (an_locals u)
      \<and> (case t of None \<Rightarrow> True | Some t \<Rightarrow> init_ok (env_of u) (en_locals (env_of u) ! i) t)) \<and> bodies_ok u)
      (rbind (typed_init inl ty init s) (\<lambda>(t, s). rbind (check_uniform_init name shape t) (\<lambda>_.
        let (i, s) = new_local name ty sp shape False s in
        rbind (bind_local name i s) (\<lambda>s. Inr ((i, t), s)))))"
    if ty: "type_ok (env_of s) ty" for ty shape
  proof (rule stmt_step [OF assms(3) typed_init_done [OF assms(1-3) ty] init], clarify)
    fix t u
    assume t: "case t of None \<Rightarrow> True | Some i \<Rightarrow> init_ok (env_of u) ty i" "ready u"
      "env_le (env_of s) (env_of u)"
    obtain i v where iv: "new_local name ty sp shape False u = (i, v)" by fastforce
    have v: "an_scopes v \<noteq> []" using t(2) iv by (auto simp: ready_def new_local_def)
    have "case t of None \<Rightarrow> True | Some x \<Rightarrow> init_ok ((env_of u)\<lparr>en_locals := en_locals (env_of u) @ [ty]\<rparr>) ty x"
      using t(1) by (auto intro: typing_mono(4) simp: env_le_def split: option.splits)
    then show "okres (\<lambda>(x, u). (case x of (i, t) \<Rightarrow> i < length (an_locals u)
      \<and> (case t of None \<Rightarrow> True | Some t \<Rightarrow> init_ok (env_of u) (en_locals (env_of u) ! i) t)) \<and> bodies_ok u)
      (rbind (check_uniform_init name shape t) (\<lambda>_.
        let (i, s) = new_local name ty sp shape False u in
        rbind (bind_local name i s) (\<lambda>s. Inr ((i, t), s))))"
      using ty t ready_locals [OF t(2)]
      by (auto simp: iv env_le_type nth_append intro!: calm_bind uniform calm_bind_local [OF v]
          dest!: new_local_env [OF iv] split: option.splits)
  qed
  have tables: "tables_ok s" using assms(3) by (simp add: ready_def good_def)
  show ?thesis
    unfolding local_declaration_def name unwrap_def option.case rbind_Inr Let_def
    by (intro calm_bind [OF calm_reject_warp] calm_bind [OF scope] okres_if okres_diag
        okres_bind [OF lower_decl_type_ok [OF tables]] rest [unfolded Let_def]) simp_all
qed

section \<open>Statements\<close>

definition stmt_done :: "ctype \<Rightarrow> typed_stmt \<times> analyzer \<Rightarrow> bool" where
  "stmt_done ret = (\<lambda>(t, u). ts_ok (env_of u) ret t \<and> bodies_ok u)"

lemma stmt_done_simp [simp]: "stmt_done ret (t, u) \<longleftrightarrow> ts_ok (env_of u) ret t \<and> bodies_ok u"
  by (simp add: stmt_done_def)

definition block_done :: "ctype \<Rightarrow> typed_block \<times> analyzer \<Rightarrow> bool" where
  "block_done ret = (\<lambda>(t, u). tb_ok (env_of u) ret t \<and> bodies_ok u)"

lemma block_done_simp [simp]: "block_done ret (t, u) \<longleftrightarrow> tb_ok (env_of u) ret t \<and> bodies_ok u"
  by (simp add: block_done_def)

definition stmts_done :: "ctype \<Rightarrow> (typed_stmt list \<times> nat list) \<times> analyzer \<Rightarrow> bool" where
  "stmts_done ret = (\<lambda>((ts, is), u). list_all (ts_ok (env_of u) ret) ts
     \<and> list_all (\<lambda>i. i < length (an_locals u)) is \<and> bodies_ok u)"

lemma frame_te_stmt:
  assumes "inliner_frame inl"
  shows "leads stmt_frame s (te_stmt inl x s)" "leads stmt_frame s (te_stmts inl xs s)"
    "leads expr_frame s (te_block inl b m s)"
  using frame.te_stmt [of inl, OF inliner_frameD [OF assms]] by blast+

lemma calm_reject_divergent: "calm (reject_divergent_control sp x s)"
  by (simp add: reject_divergent_control_def)

lemma ready_mask: "ready s \<Longrightarrow> ready (enter_mask b s)" "an_return_type (enter_mask b s) = an_return_type s"
  by (simp_all add: ready_def good_mask, simp_all add: enter_mask_def)

lemma return_stmt_done:
  assumes "inliner_frame inl" "inliner_ok inl" "ready s"
  shows "okres (stmt_done (an_return_type s)) (return_stmt inl e sp s)"
proof -
  have check: "okres (\<lambda>_. ts_ok (env_of u) (an_return_type u) (TS_Return t sp)) (check_return t sp u)"
    if "ready u" "case t of None \<Rightarrow> e = None | Some x \<Rightarrow> te_ok (env_of u) x" for t u
    using that ready_return_type [OF that(1)] unfolding check_return_def
    by (auto intro!: okres_bind [OF okres_require_assignable] split: option.splits)
  have "leads stmt_frame s (optional_expr inl e s)"
    by (rule expr_to_stmt [OF frame.optional_expr [OF frame_te_expr(1) [OF assms(1)]]])
  then show ?thesis
    unfolding return_stmt_def
    by (auto intro!: stmt_step [OF assms(3) optional_expr_done [OF assms]] okres_bind [OF check]
        simp: ready_locals)
qed

lemma add_label_env: "add_label c v sp s = Inr (i, t) \<Longrightarrow> env_of t = env_of s \<and> bodies_ok t = bodies_ok s"
  by (auto simp: add_label_def Let_def env_of_def bodies_ok_def)

lemma add_label_done: "bodies_ok s \<Longrightarrow> okres (\<lambda>(i, u). True \<and> bodies_ok u) (add_label c v sp s)"
  using add_label_env [of c v sp s] by (cases "add_label c v sp s") (auto simp: add_label_def Let_def)

lemma expr_frame_switch: "expr_frame s t \<Longrightarrow> an_switch_stack t = [] \<longleftrightarrow> an_switch_stack s = []"
  by (auto simp: expr_frame_def body_kept_def)

lemma case_label_done:
  assumes "inliner_frame inl" "inliner_ok inl" "ready s"
  shows "okres (\<lambda>(i, u). True \<and> bodies_ok u) (case_label inl e sp s)"
proof -
  have "okres (\<lambda>(i, u). True \<and> bodies_ok u) (rbind (te_expr inl e s) (\<lambda>(t, s).
        rbind (require_integer t ''case value'') (\<lambda>_.
        rbind (constant_u32 t) (\<lambda>v.
        rbind (unwrap (if an_switch_stack s = [] then None else Some (last (an_switch_stack s)))) (\<lambda>context.
        if sc_values context v \<noteq> None then diag sp (''duplicate case value '' @ word_str v)
        else add_label (context\<lparr>sc_values := (sc_values context)(v \<mapsto> sp)\<rparr>) (Some v) sp s)))))"
    if "an_switch_stack s \<noteq> []"
  proof (rule expr_step [OF ready_good [OF assms(3)] te_expr_typed(1) [OF assms(1,2) ready_good [OF assms(3)]]
      frame_te_expr(1) [OF assms(1)]], clarify)
    fix t u
    assume "good u" "expr_frame s u"
    then have "an_switch_stack u \<noteq> []" "bodies_ok u"
      using expr_frame_switch [of s u] that good_locals by auto
    then show "okres (\<lambda>(i, u). True \<and> bodies_ok u) (rbind (require_integer t ''case value'') (\<lambda>_.
        rbind (constant_u32 t) (\<lambda>v.
        rbind (unwrap (if an_switch_stack u = [] then None else Some (last (an_switch_stack u)))) (\<lambda>context.
        if sc_values context v \<noteq> None then diag sp (''duplicate case value '' @ word_str v)
        else add_label (context\<lparr>sc_values := (sc_values context)(v \<mapsto> sp)\<rparr>) (Some v) sp u))))"
      using add_label_done [of u]
      by (auto intro!: okres_bind [OF okres_require_integer] calm_bind [OF calm_constant_u32]
          simp: unwrap_def)
  qed
  then show ?thesis
    unfolding case_label_def by simp
qed

lemma default_label_done: "ready s \<Longrightarrow> okres (\<lambda>(i, u). True \<and> bodies_ok u) (default_label sp s)"
  using add_label_done [of s] by (simp add: default_label_def Let_def ready_locals)

lemma ready_scope:
  "good s \<Longrightarrow> map_below m (length (an_locals s)) \<Longrightarrow> ready (push_scope m s)"
  "env_of (push_scope m s) = env_of s" "an_return_type (push_scope m s) = an_return_type s"
  "env_of (pop_scope s) = env_of s" "bodies_ok (pop_scope s) = bodies_ok s"
  "an_locals (pop_scope s) = an_locals s"
  by (simp_all add: ready_def good_def push_scope_def pop_scope_def tables_ok_def bodies_ok_def scopes_ok_def env_of_def)

lemma ready_loop: "ready (s\<lparr>an_loop_depth := n\<rparr>) = ready s" "env_of (s\<lparr>an_loop_depth := n\<rparr>) = env_of s"
    "bodies_ok (s\<lparr>an_loop_depth := n\<rparr>) = bodies_ok s"
  by (simp_all add: ready_def good_def tables_ok_def bodies_ok_def scopes_ok_def env_of_def)

lemma in_loop_done:
  assumes "ready s" "\<And>v. ready v \<Longrightarrow> okres (stmt_done (an_return_type v)) (b v)"
  shows "okres (stmt_done (an_return_type s)) (in_loop b s)"
proof -
  have "okres (stmt_done (an_return_type s)) (b (s\<lparr>an_loop_depth := an_loop_depth s + 1\<rparr>))"
    using assms(2) [of "s\<lparr>an_loop_depth := an_loop_depth s + 1\<rparr>"] assms(1) by (simp add: ready_loop)
  then show ?thesis
    unfolding in_loop_def by (rule okres_bind) (auto simp: ready_loop)
qed

lemma in_loop_frame: "inliner_frame inl \<Longrightarrow> leads stmt_frame s (in_loop (te_stmt inl b) s)"
  by (rule frame.inside_loop) (rule frame_te_stmt(1))

lemma ready_switch: "ready s \<Longrightarrow> ready (push_switch s)" "env_of (push_switch s) = env_of s"
    "an_return_type (push_switch s) = an_return_type s"
  by (simp_all add: push_switch_def ready_def good_def tables_ok_def bodies_ok_def scopes_ok_def env_of_def)

lemma pop_switch_done:
  assumes "stmt_frame (push_switch s) u"
  shows "okres (\<lambda>(ls, v). env_of v = env_of u \<and> bodies_ok v = bodies_ok u) (pop_switch u)"
proof -
  have "an_switch_stack u \<noteq> []"
    using assms by (auto simp: stmt_frame_def body_kept_def push_switch_def)
  then show ?thesis
    by (simp add: pop_switch_def unwrap_def env_of_def bodies_ok_def)
qed

lemma for_init_done:
  assumes "inliner_frame inl" "inliner_ok inl" "ready s"
    and "case init of Some (F_Decl ty e sp) \<Rightarrow> has_name ty | _ \<Rightarrow> True"
  shows "okres (\<lambda>((t, is), u). (case t of None \<Rightarrow> True | Some i \<Rightarrow> for_ok (env_of u) i)
      \<and> list_all (\<lambda>i. i < length (an_locals u)) is \<and> bodies_ok u) (for_init_typed inl init s)"
proof (cases init)
  case (Some i)
  show ?thesis
  proof (cases i)
    case (F_Decl ty e sp)
    have "okres (\<lambda>((t, is), u). (case t of None \<Rightarrow> True | Some i \<Rightarrow> for_ok (env_of u) i)
        \<and> list_all (\<lambda>i. i < length (an_locals u)) is \<and> bodies_ok u)
      (rbind (local_declaration inl ty e sp s) (\<lambda>((i, t), s). Inr ((Some (TF_Decl i t sp), [i]), s)))"
      by (rule okres_bind [OF local_declaration_done [OF assms(1-3)]])
        (use assms(4) Some F_Decl in \<open>auto split: option.splits\<close>)
    with Some F_Decl show ?thesis by (simp add: for_init_typed_def)
  next
    case (F_Expr e)
    have "okres (\<lambda>((t, is), u). (case t of None \<Rightarrow> True | Some i \<Rightarrow> for_ok (env_of u) i)
        \<and> list_all (\<lambda>i. i < length (an_locals u)) is \<and> bodies_ok u)
      (rbind (te_expr inl e s) (\<lambda>(t, s). Inr ((Some (TF_Expr t), []), s)))"
      by (rule okres_bind [OF te_expr_done [OF assms(1-3)]]) auto
    with Some F_Expr show ?thesis by (simp add: for_init_typed_def)
  qed
qed (simp add: for_init_typed_def ready_locals assms)

lemma for_condition_done:
  assumes "inliner_frame inl" "inliner_ok inl" "ready s"
  shows "okres (\<lambda>(t, u). (case t of None \<Rightarrow> True | Some t \<Rightarrow> te_ok (env_of u) t \<and> is_scalar (value_type (te_ty t)))
      \<and> bodies_ok u) (for_condition inl c s)"
proof (cases c)
  case (Some e)
  have "okres (\<lambda>(t, u). (case t of None \<Rightarrow> True | Some t \<Rightarrow> te_ok (env_of u) t \<and> is_scalar (value_type (te_ty t)))
      \<and> bodies_ok u) (rbind (uniform_condition inl e ''for condition'' s) (\<lambda>(t, s). Inr (Some t, s)))"
    by (rule okres_bind [OF uniform_condition_done [OF assms]]) auto
  with Some show ?thesis by (simp add: for_condition_def)
qed (simp add: for_condition_def ready_locals assms)

lemma local_declaration_frame:
  assumes "inliner_frame inl"
  shows "leads stmt_frame s (local_declaration inl d init sp s)"
  by (rule frame.local_declaration [OF frame_te_expr(1) [OF assms]])

lemma condition_frame:
  assumes "inliner_frame inl"
  shows "leads stmt_frame s (condition_expr inl e role s)" "leads stmt_frame s (uniform_condition inl e role s)"
    "leads stmt_frame s (optional_expr inl c s)" "leads stmt_frame s (for_condition inl c s)"
    "leads stmt_frame s (for_init_typed inl i s)" "leads stmt_frame s (case_label inl e sp s)"
    "leads stmt_frame s (default_label sp s)"
  by (rule frame.for_init_typed expr_to_stmt frame.condition_expr frame.optional_expr frame.for_condition
      frame.labels frame_te_expr(1) assms)+

lemma te_stmt_typed:
  assumes frame: "inliner_frame inl" and inl: "inliner_ok inl"
  shows "stmt_named x \<Longrightarrow> ready s \<Longrightarrow> okres (stmt_done (an_return_type s)) (te_stmt inl x s)"
    and "list_all stmt_named xs \<Longrightarrow> ready s \<Longrightarrow> okres (stmts_done (an_return_type s)) (te_stmts inl xs s)"
    and "block_named b \<Longrightarrow> good s \<Longrightarrow> map_below m (length (an_locals s)) \<Longrightarrow>
      okres (block_done (an_return_type s)) (te_block inl b m s)"
  using frame inl
proof (induction inl x s and inl xs s and inl b m s rule: te_stmt_te_stmts_te_block.induct)
  case (1 inl ty init sp s)
  then show ?case
    unfolding te_stmt.simps
    by (intro okres_bind [OF local_declaration_done [OF 1(3,4,2)]]) (auto split: option.splits)
next
  case (2 inl e sp s)
  show ?case
    unfolding te_stmt.simps
    by (intro okres_bind [OF optional_expr_done [OF 2(3,4,2)]]) (auto split: option.splits)
next
  case (3 inl e sp s)
  then show ?case by (simp add: return_stmt_done)
next
  case (4 inl b s)
  have "okres (block_done (an_return_type s)) (te_block inl b Map.empty s)"
    using 4 by (intro 4(1)) (auto simp: ready_good map_below_def)
  then show ?case
    unfolding te_stmt.simps by (rule okres_bind) auto
next
  case (5 inl c t e sp s)
  show ?case
    unfolding te_stmt.simps Let_def
  proof (rule stmt_step [OF 5(4) condition_expr_done [OF 5(5,6,4)] condition_frame(1) [OF 5(5)]], unfold prod.case)
    fix x u
    let ?b = "is_masked u x"
    assume x: "condition_expr inl c ''if condition'' s = Inr (x, u)"
      "te_ok (env_of u) x \<and> is_scalar (value_type (te_ty x))" "ready u" "an_return_type u = an_return_type s"
    let ?rest = "rbind (te_stmt inl t (enter_mask ?b u)) (\<lambda>(y, s).
        rbind (case e of None \<Rightarrow> Inr (None, s)
               | Some e \<Rightarrow> rbind (te_stmt inl e s) (\<lambda>(x, s). Inr (Some x, s))) (\<lambda>(z, s).
          Inr (TS_If x y z sp, leave_mask ?b s)))"
    have "okres (stmt_done (an_return_type s)) ?rest" if nest: "\<not> (?b \<and> 2 \<le> an_divergent_depth u)"
    proof -
      have arm: "okres (stmt_done (an_return_type s)) (te_stmt inl t (enter_mask ?b u))"
        using 5(1) [OF x(1) HOL.refl HOL.refl nest] 5(3,5,6) x(3,4) by (simp add: ready_mask)
      show ?thesis
      proof (rule stmt_step [OF ready_mask(1) [OF x(3)] arm [unfolded stmt_done_def] frame_te_stmt(1) [OF 5(5)]],
          unfold prod.case)
        fix y v
        assume y: "te_stmt inl t (enter_mask ?b u) = Inr (y, v)" "ts_ok (env_of v) (an_return_type s) y"
          "ready v" "env_le (env_of (enter_mask ?b u)) (env_of v)" "an_return_type v = an_return_type (enter_mask ?b u)"
        have le: "env_le (env_of u) (env_of v)" using y(4) by (simp add: good_mask)
        show "okres (stmt_done (an_return_type s)) (rbind (case e of None \<Rightarrow> Inr (None, v)
            | Some e \<Rightarrow> rbind (te_stmt inl e v) (\<lambda>(x, s). Inr (Some x, s))) (\<lambda>(z, s).
            Inr (TS_If x y z sp, leave_mask ?b s)))"
        proof (cases e)
          case None
          then show ?thesis
            using x y le by (auto simp: good_mask ready_locals intro: typing_mono(1))
        next
          case (Some z)
          have arm: "okres (stmt_done (an_return_type s)) (te_stmt inl z v)"
            using 5(2) [OF x(1) HOL.refl HOL.refl nest y(1) HOL.refl Some] 5(3,5,6) x(4) y(3,5) Some
            by (simp add: ready_mask)
          have "okres (stmt_done (an_return_type s)) (rbind (te_stmt inl z v)
              (\<lambda>(z, s). Inr (TS_If x y (Some z) sp, leave_mask ?b s)))"
            by (rule stmt_step [OF y(3) arm [unfolded stmt_done_def] frame_te_stmt(1) [OF 5(5)]])
              (use x(2) y(2) le in \<open>auto simp: good_mask ready_locals intro: typing_mono(1,5) env_le_trans\<close>)
          moreover have "rbind (case e of None \<Rightarrow> Inr (None, v)
              | Some e \<Rightarrow> rbind (te_stmt inl e v) (\<lambda>(x, s). Inr (Some x, s))) (\<lambda>(z, s).
              Inr (TS_If x y z sp, leave_mask ?b s)) = rbind (te_stmt inl z v)
              (\<lambda>(z, s). Inr (TS_If x y (Some z) sp, leave_mask ?b s))"
            by (cases "te_stmt inl z v") (auto simp: Some)
          ultimately show ?thesis by simp
        qed
      qed
    qed
    then show "okres (stmt_done (an_return_type s)) (if ?b \<and> 2 \<le> an_divergent_depth u
        then diag sp ''divergent if nesting exceeds the two predicate masks available in Slice E'' else ?rest)"
      by (intro okres_if okres_diag) simp
  qed
next
  case (6 inl c b sp s)
  show ?case
    unfolding te_stmt.simps
  proof (intro calm_bind [OF calm_reject_divergent] stmt_step [OF 6(3) uniform_condition_done [OF 6(4,5,3)]
      condition_frame(2) [OF 6(4)]], unfold prod.case)
    fix x t u
    assume reject: "reject_divergent_control sp ''while loop'' s = Inr x"
      and t: "uniform_condition inl c ''while condition'' s = Inr (t, u)"
      "te_ok (env_of u) t \<and> is_scalar (value_type (te_ty t))" "ready u" "an_return_type u = an_return_type s"
    have body: "okres (stmt_done (an_return_type s)) (in_loop (te_stmt inl b) u)"
      using 6(1) [OF reject t(1) HOL.refl] 6(2,4,5) in_loop_done [OF t(3)] t(4) by simp
    show "okres (stmt_done (an_return_type s))
      (rbind (in_loop (te_stmt inl b) u) (\<lambda>(body, s). Inr (TS_While t body sp, s)))"
      by (rule stmt_step [OF t(3) body [unfolded stmt_done_def] in_loop_frame [OF 6(4)]])
        (use t(2) in \<open>auto simp: ready_locals intro: typing_mono(1)\<close>)
  qed
next
  case (7 inl b c sp s)
  show ?case
    unfolding te_stmt.simps
  proof (rule calm_bind [OF calm_reject_divergent])
    fix x
    assume reject: "reject_divergent_control sp ''do/while loop'' s = Inr x"
    have body: "okres (stmt_done (an_return_type s)) (in_loop (te_stmt inl b) s)"
      using 7(1) [OF reject] 7(2-5) by (intro in_loop_done) auto
    show "okres (stmt_done (an_return_type s)) (rbind (in_loop (te_stmt inl b) s) (\<lambda>(body, s).
        rbind (uniform_condition inl c ''do/while condition'' s) (\<lambda>(condition, s).
          Inr (TS_DoWhile body condition sp, s))))"
    proof (rule stmt_step [OF 7(3) body [unfolded stmt_done_def]
        in_loop_frame [OF 7(4)]], unfold prod.case)
      fix t u
      assume t: "ts_ok (env_of u) (an_return_type s) t" "ready u"
      show "okres (stmt_done (an_return_type s)) (rbind (uniform_condition inl c ''do/while condition'' u)
          (\<lambda>(condition, s). Inr (TS_DoWhile t condition sp, s)))"
        by (rule stmt_step [OF t(2) uniform_condition_done [OF 7(4,5) t(2)] condition_frame(2) [OF 7(4)]])
          (use t in \<open>auto simp: ready_locals intro: typing_mono(5)\<close>)
    qed
  qed
next
  case (8 inl init c step b sp s)
  note fr = 8(4) and io = 8(5)
  let ?s = "push_scope Map.empty s"
  have s0: "ready ?s" using 8(3) by (intro ready_scope) (auto simp: ready_good map_below_def)
  show ?case
    unfolding te_stmt.simps
  proof (rule calm_bind [OF calm_reject_divergent])
    fix x
    assume reject: "reject_divergent_control sp ''for loop'' s = Inr x"
    have init: "okres (\<lambda>((t, is), u). (case t of None \<Rightarrow> True | Some i \<Rightarrow> for_ok (env_of u) i)
      \<and> list_all (\<lambda>i. i < length (an_locals u)) is \<and> bodies_ok u) (for_init_typed inl init ?s)"
      using 8(2) by (intro for_init_done [OF fr io s0]) simp
    have init': "okres (\<lambda>(ti, u). (case ti of (t, is) \<Rightarrow>
        (case t of None \<Rightarrow> True | Some i \<Rightarrow> for_ok (env_of u) i)
        \<and> list_all (\<lambda>i. i < length (an_locals u)) is) \<and> bodies_ok u) (for_init_typed inl init ?s)"
      by (rule okres_mono [OF init]) auto
    show "okres (stmt_done (an_return_type s)) (rbind (for_init_typed inl init ?s) (\<lambda>((tinit, local_ids), s).
         rbind (for_condition inl c s) (\<lambda>(condition, s).
         rbind (optional_expr inl step s) (\<lambda>(tstep, s).
         rbind (in_loop (te_stmt inl b) s) (\<lambda>(body, s).
           Inr (TS_For tinit condition tstep body local_ids sp, pop_scope s))))))"
    proof (rule stmt_step [OF s0 init' condition_frame(5) [OF fr]], clarsimp)
      fix ti js u
      assume a: "for_init_typed inl init ?s = Inr ((ti, js), u)" "ready u"
        "case ti of None \<Rightarrow> True | Some i \<Rightarrow> for_ok (env_of u) i" "list_all (\<lambda>i. i < length (an_locals u)) js"
        "an_return_type u = an_return_type ?s"
      show "okres (stmt_done (an_return_type s)) (rbind (for_condition inl c u) (\<lambda>(condition, s).
         rbind (optional_expr inl step s) (\<lambda>(tstep, s).
         rbind (in_loop (te_stmt inl b) s) (\<lambda>(body, s).
           Inr (TS_For ti condition tstep body js sp, pop_scope s)))))"
      proof (rule stmt_step [OF a(2) for_condition_done [OF fr io a(2)] condition_frame(4) [OF fr]], unfold prod.case)
        fix tc v
        assume v: "for_condition inl c u = Inr (tc, v)" "ready v" "env_le (env_of u) (env_of v)"
          "case tc of None \<Rightarrow> True | Some t \<Rightarrow> te_ok (env_of v) t \<and> is_scalar (value_type (te_ty t))"
          "an_return_type v = an_return_type u"
        show "okres (stmt_done (an_return_type s)) (rbind (optional_expr inl step v) (\<lambda>(tstep, s).
         rbind (in_loop (te_stmt inl b) s) (\<lambda>(body, s).
           Inr (TS_For ti tc tstep body js sp, pop_scope s))))"
        proof (rule stmt_step [OF v(2) optional_expr_done [OF fr io v(2)] condition_frame(3) [OF fr]], unfold prod.case)
          fix ts w
          assume w: "optional_expr inl step v = Inr (ts, w)" "ready w" "env_le (env_of v) (env_of w)"
            "case ts of None \<Rightarrow> step = None | Some t \<Rightarrow> te_ok (env_of w) t"
            "an_return_type w = an_return_type v"
          have body: "okres (stmt_done (an_return_type s)) (in_loop (te_stmt inl b) w)"
            using 8(1) [OF reject a(1) HOL.refl HOL.refl v(1) HOL.refl w(1) HOL.refl] 8(2) fr io a(5) v(5) w(5)
              in_loop_done [OF w(2)] by (simp add: ready_scope)
          show "okres (stmt_done (an_return_type s)) (rbind (in_loop (te_stmt inl b) w) (\<lambda>(body, s).
              Inr (TS_For ti tc ts body js sp, pop_scope s)))"
          proof (rule stmt_step [OF w(2) body [unfolded stmt_done_def]
              in_loop_frame [OF fr]], unfold prod.case)
            fix y z
            assume y: "ts_ok (env_of z) (an_return_type s) y" "ready z" "env_le (env_of w) (env_of z)"
            have le: "env_le (env_of u) (env_of z)" "env_le (env_of v) (env_of z)"
              using y(3) w(3) v(3) by (blast intro: env_le_trans)+
            have "list_all (\<lambda>i. i < length (an_locals z)) js"
              using a(4) le(1) locals_mono [OF le(1)] by (auto simp: list_all_iff)
            then show "okres (stmt_done (an_return_type s)) (Inr (TS_For ti tc ts y js sp, pop_scope z))"
              using a(3) v(4) w(4) y le
              by (auto simp: ready_scope ready_locals intro: typing_mono split: option.splits)
          qed
        qed
      qed
    qed
  qed
next
  case (11 inl e b sp s)
  show ?case
    unfolding te_stmt.simps
  proof (intro calm_bind [OF calm_reject_divergent] stmt_step [OF 11(3) uniform_condition_done [OF 11(4,5,3)]
      condition_frame(2) [OF 11(4)]], unfold prod.case)
    fix x t u
    assume reject: "reject_divergent_control sp ''switch'' s = Inr x"
      and t: "uniform_condition inl e ''switch expression'' s = Inr (t, u)"
      "te_ok (env_of u) t \<and> is_scalar (value_type (te_ty t))" "ready u" "an_return_type u = an_return_type s"
    have body: "okres (stmt_done (an_return_type s)) (te_stmt inl b (push_switch u))"
      using 11(1) [OF reject t(1) HOL.refl] 11(2,4,5) t(3,4) by (simp add: ready_switch)
    have tail: "okres (stmt_done (an_return_type s)) (rbind (pop_switch v) (\<lambda>(labels, s).
        Inr (TS_Switch t y labels sp, s)))"
      if y: "te_stmt inl b (push_switch u) = Inr (y, v)" for y v
    proof -
      have fr: "stmt_frame (push_switch u) v"
        using frame_te_stmt(1) [OF 11(4)] y by (auto simp: leads_def)
      then have "env_le (env_of u) (env_of v)"
        using kept_env_le [of "push_switch u" v] by (simp add: stmt_frame_def ready_switch)
      then have t': "te_ok (env_of v) t" using t(2) by (blast intro: typing_mono(1))
      have "ts_ok (env_of v) (an_return_type s) y \<and> bodies_ok v" using body y by simp
      with t' t(2) show ?thesis
        by (intro okres_bind [OF pop_switch_done [OF fr]]) auto
    qed
    show "okres (stmt_done (an_return_type s)) (rbind (te_stmt inl b (push_switch u)) (\<lambda>(body, s).
        rbind (pop_switch s) (\<lambda>(labels, s). Inr (TS_Switch t body labels sp, s))))"
      by (rule okres_bind [OF body], unfold split_paired_all prod.case, rule tail)
  qed
next
  case (12 inl e b sp s)
  show ?case
    unfolding te_stmt.simps
  proof (rule stmt_step [OF 12(3) case_label_done [OF 12(4,5,3)] condition_frame(6) [OF 12(4)]], unfold prod.case)
    fix i u
    assume u: "case_label inl e sp s = Inr (i, u)" "ready u" "an_return_type u = an_return_type s"
    show "okres (stmt_done (an_return_type s)) (rbind (te_stmt inl b u) (\<lambda>(body, s). Inr (TS_Case i body sp, s)))"
      by (rule okres_bind [OF 12(1) [OF u(1) HOL.refl]]) (use u 12 in auto)
  qed
next
  case (13 inl b sp s)
  show ?case
    unfolding te_stmt.simps
  proof (rule stmt_step [OF 13(3) default_label_done [OF 13(3)] condition_frame(7) [OF 13(4)]], unfold prod.case)
    fix i u
    assume u: "default_label sp s = Inr (i, u)" "ready u" "an_return_type u = an_return_type s"
    show "okres (stmt_done (an_return_type s)) (rbind (te_stmt inl b u) (\<lambda>(body, s). Inr (TS_Default i body sp, s)))"
      by (rule okres_bind [OF 13(1) [OF u(1) HOL.refl]]) (use u 13 in auto)
  qed
next
  case (15 inl x xs s)
  have one: "okres (stmt_done (an_return_type s)) (te_stmt inl x s)" using 15 by simp
  show ?case
    unfolding te_stmts.simps
  proof (rule stmt_step [OF 15(4) one [unfolded stmt_done_def] frame_te_stmt(1) [OF 15(5)]], unfold prod.case)
    fix t u
    assume t: "te_stmt inl x s = Inr (t, u)" "ts_ok (env_of u) (an_return_type s) t" "ready u"
      "an_return_type u = an_return_type s"
    have rest: "okres (stmts_done (an_return_type s)) (te_stmts inl xs u)"
      using 15(2) [OF t(1) HOL.refl] 15(3,5,6) t(3,4) by simp
    show "okres (stmts_done (an_return_type s)) (rbind (te_stmts inl xs u) (\<lambda>((ts, ids), s).
        Inr ((t # ts, decl_local t @ ids), s)))"
    proof (rule okres_bind [OF rest], clarify)
      fix ts ids v
      assume ts: "te_stmts inl xs u = Inr ((ts, ids), v)" "stmts_done (an_return_type s) ((ts, ids), v)"
      have "stmt_frame u v" using frame_te_stmt(2) [OF 15(5)] ts(1) by (auto simp: leads_def)
      then have "env_le (env_of u) (env_of v)" by (simp add: kept_env_le stmt_frame_def)
      with t(2) have t': "ts_ok (env_of v) (an_return_type s) t" by (blast intro: typing_mono(5))
      then have "list_all (\<lambda>i. i < length (an_locals v)) (decl_local t)"
        by (cases t) (auto simp: decl_local_def)
      with t' ts(2) show "okres (stmts_done (an_return_type s)) (Inr ((t # ts, decl_local t @ ids), v))"
        by (simp add: stmts_done_def)
    qed
  qed
next
  case (16 inl xs sp bindings s)
  then have "okres (stmts_done (an_return_type s)) (te_stmts inl xs (push_scope bindings s))"
    by (simp add: ready_scope)
  then show ?case
    unfolding te_block.simps by (rule okres_bind) (auto simp: stmts_done_def ready_scope)
qed (simp_all add: stmts_done_def ready_locals jump_stmt_def calm_bind calm_reject_divergent)

section \<open>Expansion of candidates\<close>

text \<open>A text without calls is analysed alike whatever the expansion does.\<close>

lemma te_expr_call_free:
  "\<not> unsupported e \<Longrightarrow> te_expr inl e s = te_expr inl' e s"
proof (induction e arbitrary: s rule: unsupported.induct)
  case (8 c t e sp)
  then show ?case by (auto simp: Let_def intro!: rbind_cong)
qed (auto intro!: rbind_cong)

lemma te_stmt_call_free:
  assumes "\<not> unsupported_statement x"
  shows "te_stmt inl x s = te_stmt inl' x s"
proof -
  have init: "typed_init inl ty e s = typed_init inl' ty e s"
    if "case e of None \<Rightarrow> True | Some e \<Rightarrow> \<not> unsupported e" for ty e s
    using that te_expr_call_free [of _ inl s inl'] by (auto simp: typed_init_def split: option.split)
  have "local_declaration inl ty e sp s = local_declaration inl' ty e sp s"
    if "case e of None \<Rightarrow> True | Some e \<Rightarrow> \<not> unsupported e" for ty e sp
    unfolding local_declaration_def init [OF that] by (rule HOL.refl)
  moreover have "optional_expr inl (Some e) s = optional_expr inl' (Some e) s" if "\<not> unsupported e" for e
    using te_expr_call_free [OF that, of inl s inl'] by (simp add: optional_expr_def)
  ultimately show ?thesis
    using assms by (cases x) (auto simp: unsupported_statement_def split: option.splits)
qed

text \<open>So one level of expansion is all there is.\<close>

definition no_inliner :: inliner where
  "no_inliner = (\<lambda>candidate args symbol sp s. diag sp [])"

lemma no_inliner_ok: "inliner_frame no_inliner" "inliner_ok no_inliner"
  by (simp_all add: inliner_frame_def inliner_ok_def no_inliner_def)

lemma inline_stmts_cong:
  "(\<And>x s. x \<in> set xs \<Longrightarrow> f x s = g x s) \<Longrightarrow> inline_stmts f xs s = inline_stmts g xs s"
  by (induction xs arbitrary: s) (auto intro!: rbind_cong)

lemma inline_body_call_free:
  assumes "candidate_ok f c"
  shows "inline_body (te_expr inl) (te_stmt inl) c args symbol sp s
    = inline_body (te_expr inl') (te_stmt inl') c args symbol sp s"
proof -
  have "inline_stmts (te_stmt inl) (ic_statements c) u = inline_stmts (te_stmt inl') (ic_statements c) u" for u
    using assms te_stmt_call_free by (intro inline_stmts_cong) (auto simp: candidate_ok_def list_all_iff)
  moreover have "te_expr inl (ic_result c) u = te_expr inl' (ic_result c) u" for u
    using assms te_expr_call_free by (auto simp: candidate_ok_def)
  ultimately show ?thesis
    unfolding inline_body_def by simp
qed

lemma inline_params_done:
  assumes "ready s" "list_all (has_name \<circ> p_ty) ps" "length ps = length tys"
    "list_all2 assignable tys as" "list_all (te_ok (env_of s)) as" "list_all (type_ok (env_of s)) tys"
    "n + length ps \<le> length (fs_param_shapes symbol)"
  shows "okres (\<lambda>(ts, u). list_all (ts_ok (env_of u) T_VOID) ts \<and> bodies_ok u)
    (inline_params symbol n ps tys as s)"
  using assms
proof (induction ps arbitrary: n tys as s)
  case Nil
  then show ?case by (simp add: ready_locals)
next
  case (Cons p ps)
  from Cons.prems obtain ty tys' a as' where eq: "tys = ty # tys'" "as = a # as'"
    by (cases tys; cases as) auto
  obtain name where name: "dc_name (dt_declarator (p_ty p)) = Some name"
    using Cons.prems(2) by (auto simp: has_name_def)
  obtain shape where shape: "index_at (fs_param_shapes symbol) n = Inr shape"
    using Cons.prems(7) by (auto simp: index_at_def)
  let ?title = "name @ '' [inlined '' @ fs_name symbol @ '']''"
  obtain i v where iv: "new_local ?title ty (p_span p) shape True s = (i, v)" by fastforce
  have v: "an_scopes v \<noteq> []" using Cons.prems(1) iv by (auto simp: ready_def new_local_def)
  have "okres (\<lambda>(ts, u). list_all (ts_ok (env_of u) T_VOID) ts \<and> bodies_ok u)
      (rbind (bind_local name i v) (\<lambda>s. rbind (inline_params symbol (n + 1) ps tys' as' s) (\<lambda>(ts, s).
         Inr (TS_Decl i (Some (TI_Expr a)) (p_span p) # ts, s))))"
  proof (rule calm_bind [OF calm_bind_local [OF v]])
    fix w
    assume w: "bind_local name i v = Inr w"
    note env = new_local_env [OF iv w]
    have frame: "stmt_frame s w" by (rule frame.declared [OF iv w])
    then have le: "env_le (env_of s) (env_of w)" by (simp add: kept_env_le stmt_frame_def)
    have w': "ready w" using stmt_frame_ready [OF Cons.prems(1) frame] env Cons.prems(1,6) eq
      by (auto simp: ready_locals)
    have rest: "okres (\<lambda>(ts, u). list_all (ts_ok (env_of u) T_VOID) ts \<and> bodies_ok u)
        (inline_params symbol (n + 1) ps tys' as' w)"
      using Cons.prems eq le w' by (intro Cons.IH) (auto simp: list_all_iff env_le_type intro: typing_mono(1))
    show "okres (\<lambda>(ts, u). list_all (ts_ok (env_of u) T_VOID) ts \<and> bodies_ok u)
      (rbind (inline_params symbol (n + 1) ps tys' as' w) (\<lambda>(ts, s).
         Inr (TS_Decl i (Some (TI_Expr a)) (p_span p) # ts, s)))"
    proof (rule stmt_step [OF w' rest frame.inline_params], unfold prod.case)
      fix ts u
      assume u: "list_all (ts_ok (env_of u) T_VOID) ts" "ready u" "env_le (env_of w) (env_of u)"
      have i: "i < length (en_locals (env_of w))" "en_locals (env_of w) ! i = ty" "i < length (an_locals w)"
        using env by (auto simp: nth_append)
      have "te_ok (env_of w) a" using Cons.prems(5) eq le by (auto intro: typing_mono(1))
      then have "ts_ok (env_of w) T_VOID (TS_Decl i (Some (TI_Expr a)) (p_span p))"
        using Cons.prems(4) eq i by (simp del: env_simps)
      with u show "okres (\<lambda>(ts, u). list_all (ts_ok (env_of u) T_VOID) ts \<and> bodies_ok u)
          (Inr (TS_Decl i (Some (TI_Expr a)) (p_span p) # ts, u))"
        using typing_mono(5) ready_locals by fastforce
    qed
  qed
  then show ?case
    unfolding eq inline_params.simps name unwrap_def option.case rbind_Inr shape Let_def iv prod.case .
qed

lemma plain_statement_typed:
  assumes "\<not> unsupported_statement x" "te_stmt inl x s = Inr (t, u)"
  shows "ts_ok G ret t = ts_ok G ret' t"
  using assms by (cases x) (auto simp: unsupported_statement_def rbind_eq_Inr split: option.splits)

lemma plain_statement_straight:
  assumes "\<not> unsupported_statement x" "te_stmt inl x s = Inr (t, u)"
  shows "straight t"
  using assms by (cases x) (auto simp: unsupported_statement_def rbind_eq_Inr split: option.splits)

lemma inline_stmts_straight:
  "list_all (\<lambda>x. \<not> unsupported_statement x \<and> stmt_named x) xs \<Longrightarrow>
   inline_stmts (te_stmt inl) xs s = Inr (ts, u) \<Longrightarrow> list_all straight ts"
  by (induction xs arbitrary: s ts u) (auto simp: rbind_eq_Inr dest: plain_statement_straight)

lemma inline_params_straight:
  "inline_params symbol n ps tys as s = Inr (ts, u) \<Longrightarrow> list_all straight ts"
proof (induction ps arbitrary: n tys as s ts u)
  case (Cons p ps)
  then show ?case
    by (cases tys; cases as) (auto simp: rbind_eq_Inr case_prod_beta Let_def)
qed simp

lemma inline_stmts_done:
  assumes frame: "inliner_frame inl" and inl: "inliner_ok inl"
    and "list_all (\<lambda>x. \<not> unsupported_statement x \<and> stmt_named x) xs" "ready s"
  shows "okres (\<lambda>(ts, u). list_all (ts_ok (env_of u) T_VOID) ts \<and> bodies_ok u)
    (inline_stmts (te_stmt inl) xs s)"
  using assms(3,4)
proof (induction xs arbitrary: s)
  case Nil
  then show ?case by (simp add: ready_locals)
next
  case (Cons x xs)
  have one: "okres (\<lambda>(t, u). ts_ok (env_of u) T_VOID t \<and> bodies_ok u) (te_stmt inl x s)"
  proof (rule okres_mono [OF te_stmt_typed(1) [OF frame inl _ Cons.prems(2)]])
    show "stmt_named x" using Cons.prems(1) by simp
    fix r
    assume r: "te_stmt inl x s = Inr r" "stmt_done (an_return_type s) r"
    have "\<not> unsupported_statement x" using Cons.prems(1) by simp
    obtain t u where tu: "r = (t, u)" by (cases r)
    with plain_statement_typed [OF \<open>\<not> unsupported_statement x\<close>, of inl s t u "env_of u" "an_return_type s" T_VOID] r
    show "case r of (t, u) \<Rightarrow> ts_ok (env_of u) T_VOID t \<and> bodies_ok u"
      by simp
  qed
  show ?case
    unfolding inline_stmts.simps
  proof (rule stmt_step [OF Cons.prems(2) one frame_te_stmt(1) [OF frame]], unfold prod.case)
    fix t u
    assume t: "ts_ok (env_of u) T_VOID t" "ready u"
    have taken: "okres (\<lambda>v. ready v \<and> env_of v = env_of u)
        (case t of TS_Decl i y z \<Rightarrow> take_address i u | _ \<Rightarrow> Inr u)"
    proof (cases t)
      case (TS_Decl i y z)
      with t have "lv_ok (env_of u) (LV_Local i)" by simp
      from calm_mark_address [OF this] have "calm (take_address i u)" by simp
      moreover have "ready v \<and> env_of v = env_of u" if "take_address i u = Inr v" for v
      proof -
        have "stmt_frame u v" by (rule frame.weaken [OF frame.address [OF that]])
        with take_address_env [OF that] t(2) show ?thesis
          by (auto intro: stmt_frame_ready simp: ready_locals)
      qed
      ultimately show ?thesis
        using TS_Decl by (cases "take_address i u") auto
    qed (use t in auto)
    show "okres (\<lambda>(ts, u). list_all (ts_ok (env_of u) T_VOID) ts \<and> bodies_ok u)
      (rbind (case t of TS_Decl i y z \<Rightarrow> take_address i u | _ \<Rightarrow> Inr u) (\<lambda>s.
       rbind (inline_stmts (te_stmt inl) xs s) (\<lambda>(ts, s). Inr (t # ts, s))))"
    proof (rule okres_bind [OF taken])
      fix v
      assume v: "ready v \<and> env_of v = env_of u"
      have rest: "okres (\<lambda>(ts, u). list_all (ts_ok (env_of u) T_VOID) ts \<and> bodies_ok u)
          (inline_stmts (te_stmt inl) xs v)"
        using Cons.prems(1) v by (intro Cons.IH) auto
      show "okres (\<lambda>(ts, u). list_all (ts_ok (env_of u) T_VOID) ts \<and> bodies_ok u)
          (rbind (inline_stmts (te_stmt inl) xs v) (\<lambda>(ts, s). Inr (t # ts, s)))"
        by (rule stmt_step [OF _ rest frame.inline_stmts [OF frame_te_stmt(1) [OF frame]]])
          (use v t(1) typing_mono(5) ready_locals in \<open>auto simp: ready_locals\<close>)
    qed
  qed
qed

lemma inline_body_done:
  assumes frame: "inliner_frame inl" and inl: "inliner_ok inl" and good: "good s"
    and cand: "an_inline_candidates s f = Some c" and symbol: "symbol = an_functions s ! f"
    and args: "list_all2 assignable (fs_params symbol) args" "list_all (te_ok (env_of s)) args"
  shows "okres expr_done (inline_body (te_expr inl) (te_stmt inl) c args symbol sp s)"
proof -
  have f: "f < length (an_functions s)" and c: "candidate_ok symbol c"
    using good cand symbol by (auto simp: good_def tables_ok_def Let_def)
  note symbol_facts [OF good f, folded symbol]
  then have sig: "type_ok (env_of s) (fs_return_type symbol)" "list_all (type_ok (env_of s)) (fs_params symbol)"
    "length (fs_param_shapes symbol) = length (fs_params symbol)"
    by (simp_all add: symbol_ok_def)
  let ?s = "push_scope Map.empty s"
  have s0: "ready ?s" using good by (intro ready_scope) (auto simp: map_below_def)
  have params: "okres (\<lambda>(ts, u). list_all (ts_ok (env_of u) T_VOID) ts \<and> bodies_ok u)
      (inline_params symbol 0 (ic_params c) (fs_params symbol) args ?s)"
    using c args sig by (intro inline_params_done [OF s0]) (simp_all add: candidate_ok_def ready_scope)
  show ?thesis
    unfolding inline_body_def
  proof (rule stmt_step [OF s0 params frame.inline_params], unfold prod.case)
    fix decls u
    assume decls: "inline_params symbol 0 (ic_params c) (fs_params symbol) args ?s = Inr (decls, u)"
    assume u: "list_all (ts_ok (env_of u) T_VOID) decls" "ready u" "env_le (env_of ?s) (env_of u)"
    have stmts: "okres (\<lambda>(ts, u). list_all (ts_ok (env_of u) T_VOID) ts \<and> bodies_ok u)
        (inline_stmts (te_stmt inl) (ic_statements c) u)"
      using c u(2) by (intro inline_stmts_done [OF frame inl]) (simp_all add: candidate_ok_def)
    show "okres expr_done (rbind (inline_stmts (te_stmt inl) (ic_statements c) u) (\<lambda>(stmts, s).
       rbind (te_expr inl (ic_result c) s) (\<lambda>(result, s).
       rbind (require_assignable s (fs_return_type symbol) result ''return value'') (\<lambda>_.
       if fs_return_shape symbol = Shape_Uniform \<and> te_uniformity result \<noteq> Uniform
       then diag (te_span result) ''varying expression cannot be returned from a uniform function''
       else Inr (TExpr (TE_Inline (decls @ stmts) result) (fs_return_type symbol)
                   (expression_uniformity (fs_return_shape symbol)) sp, pop_scope s)))))"
    proof (rule stmt_step [OF u(2) stmts frame.inline_stmts [OF frame_te_stmt(1) [OF frame]]], unfold prod.case)
      fix stmts v
      assume stmts: "inline_stmts (te_stmt inl) (ic_statements c) u = Inr (stmts, v)"
      assume v: "list_all (ts_ok (env_of v) T_VOID) stmts" "ready v" "env_le (env_of u) (env_of v)"
      show "okres expr_done (rbind (te_expr inl (ic_result c) v) (\<lambda>(result, s).
       rbind (require_assignable s (fs_return_type symbol) result ''return value'') (\<lambda>_.
       if fs_return_shape symbol = Shape_Uniform \<and> te_uniformity result \<noteq> Uniform
       then diag (te_span result) ''varying expression cannot be returned from a uniform function''
       else Inr (TExpr (TE_Inline (decls @ stmts) result) (fs_return_type symbol)
                   (expression_uniformity (fs_return_shape symbol)) sp, pop_scope s))))"
      proof (rule stmt_step [OF v(2) te_expr_done [OF frame inl v(2)] te_expr_stmt_frame [OF frame]], unfold prod.case)
        fix r w
        assume w: "te_ok (env_of w) r" "ready w" "env_le (env_of v) (env_of w)"
        have le: "env_le (env_of u) (env_of w)" "env_le (env_of s) (env_of w)"
          using u(3) v(3) w(3) by (auto simp: ready_scope intro: env_le_trans)
        have "list_all (ts_ok (env_of w) T_VOID) (decls @ stmts)"
          using u(1) v(1) w(3) le(1) by (auto simp: list_all_iff intro: typing_mono(5))
        moreover have "list_all straight (decls @ stmts)"
          using inline_params_straight [OF decls] inline_stmts_straight [OF _ stmts] c
          by (simp add: candidate_ok_def)
        moreover have "type_ok (env_of w) (fs_return_type symbol)" using sig(1) le(2) by (simp add: env_le_type)
        ultimately show "okres expr_done (rbind (require_assignable w (fs_return_type symbol) r ''return value'') (\<lambda>_.
          if fs_return_shape symbol = Shape_Uniform \<and> te_uniformity r \<noteq> Uniform
          then diag (te_span r) ''varying expression cannot be returned from a uniform function''
          else Inr (TExpr (TE_Inline (decls @ stmts) r) (fs_return_type symbol)
                   (expression_uniformity (fs_return_shape symbol)) sp, pop_scope w)))"
          using w by (auto intro!: okres_bind [OF okres_require_assignable] simp: ready_scope ready_locals)
      qed
    qed
  qed
qed

lemma expander_frame: "inliner_frame (expander n)"
  using frame.expander by (simp add: inliner_frame_def)

lemma expander_once: "candidate_ok f c \<Longrightarrow> expander (Suc n) c args symbol sp s =
    inline_body (te_expr inl) (te_stmt inl) c args symbol sp s"
  unfolding expander.simps by (rule inline_body_call_free)

lemma expander_ok: "inliner_ok (expander (Suc n))"
  unfolding inliner_ok_def
proof (intro allI impI)
  fix c args symbol sp s f
  assume a: "good s" "an_inline_candidates s f = Some c" "symbol = an_functions s ! f"
    "list_all2 assignable (fs_params symbol) args" "list_all (te_ok (env_of s)) args"
  then have "candidate_ok (an_functions s ! f) c" by (auto simp: good_def tables_ok_def Let_def)
  from expander_once [OF this, where inl = no_inliner]
  show "okres expr_done (expander (Suc n) c args symbol sp s)"
    using inline_body_done [OF no_inliner_ok a] by simp
qed

lemma analysis_typed:
  shows "good s \<Longrightarrow> okres expr_done (analyze_expr e s)"
    and "stmt_named x \<Longrightarrow> ready s \<Longrightarrow> okres (stmt_done (an_return_type s)) (analyze_stmt x s)"
    and "block_named b \<Longrightarrow> good s \<Longrightarrow> map_below m (length (an_locals s)) \<Longrightarrow>
      okres (block_done (an_return_type s)) (analyze_block b m s)"
  unfolding analyze_expr_def analyze_stmt_def analyze_block_def One_nat_def
  using te_expr_typed(1) te_stmt_typed(1,3) expander_frame expander_ok by blast+

end
