(* ===== verification/Sema_Sound.thy ===== *)
theory Sema_Sound
  imports Typed_Stmt
begin

text \<open>
  The analysis of whole programs: the passes over the declarations leave well-formed tables,
  the bodies are analysed over them, and the program that results is well typed. Nothing
  panics on the way except a size of more than 64 bits.
\<close>

section \<open>Programs\<close>

text \<open>What the parser guarantees: declarations have names, and there is a function.\<close>

definition program_ok :: "program \<Rightarrow> bool" where
  "program_ok p \<longleftrightarrow>
     list_all (\<lambda>d. list_all (has_name \<circ> fd_ty) (sd_fields d)) (pr_structs p)
     \<and> list_all (has_name \<circ> g_ty) (pr_globals p)
     \<and> list_all (\<lambda>f. case f_body f of None \<Rightarrow> True | Some b \<Rightarrow> block_named b) (pr_functions p)
     \<and> pr_functions p \<noteq> []"

lemma okres_fold:
  assumes "\<And>s x. x \<in> set xs \<Longrightarrow> P s \<Longrightarrow> okres P (f s x)" and "P s"
  shows "okres P (fold_res f s xs)"
  using assms by (induction xs arbitrary: s) (auto intro!: okres_bind)

section \<open>Structures\<close>

text \<open>The analyser before the bodies: nothing of a body is there yet.\<close>

definition fresh :: "analyzer \<Rightarrow> bool" where
  "fresh s \<longleftrightarrow> an_locals s = [] \<and> an_scopes s = [] \<and> an_inline_candidates s = Map.empty"

definition names_known :: "struct_decl list \<Rightarrow> analyzer \<Rightarrow> bool" where
  "names_known ds s \<longleftrightarrow> (\<forall>d\<in>set ds. an_struct_ids s (sd_name d) \<noteq> None)"

definition struct_pass :: "analyzer \<Rightarrow> bool" where
  "struct_pass s \<longleftrightarrow> fresh s \<and> an_globals s = [] \<and> an_functions s = [] \<and> an_global_ids s = Map.empty
     \<and> an_function_ids s = Map.empty \<and> list_all (struct_ok (env_of s)) (an_structs s)
     \<and> map_below (an_struct_ids s) (length (an_structs s))"

lemma struct_pass_tables: "struct_pass s \<Longrightarrow> tables_ok s"
  by (simp add: struct_pass_def tables_ok_def Let_def fresh_def map_below_def)

lemma register_struct_names_done:
  "okres (\<lambda>s. struct_pass s \<and> names_known ds s) (register_struct_names analyzer_new ds)"
proof -
  let ?P = "\<lambda>s. struct_pass s \<and> list_all (\<lambda>S. si_fields S = []) (an_structs s)"
  have step: "okres ?P (register_struct_name s d)" if "?P s" for s d
    using that by (auto simp: register_struct_name_def struct_pass_def fresh_def struct_ok_def
        list_all_iff map_below_def split: if_splits)
      (meson less_Suc_eq)
  have "okres ?P (register_struct_names s ds)" if "?P s" for s
    unfolding register_struct_names_def by (rule okres_fold [OF step that])
  moreover have "?P analyzer_new"
    by (simp add: struct_pass_def fresh_def analyzer_new_def map_below_def)
  ultimately have pass: "okres ?P (register_struct_names analyzer_new ds)" by blast
  have "names_known ds s" if "register_struct_names analyzer_new ds = Inr s" for s
    using layouts_start [OF that] unfolding layouts_ok_def names_ok_def names_known_def
    by (auto simp: in_set_conv_nth)
  with pass show ?thesis
    by (cases "register_struct_names analyzer_new ds") auto
qed

text \<open>One field: its type is well formed, and its offset is behind the others.\<close>

definition fields_pass :: "analyzer \<Rightarrow> layout_state \<Rightarrow> bool" where
  "fields_pass s acc \<longleftrightarrow> (case acc of (fds, names, offset) \<Rightarrow>
     list_all (\<lambda>f. type_ok (env_of s) (fi_ty f)) fds \<and> distinct (map fi_offset fds)
     \<and> (\<forall>f\<in>set fds. fi_offset f < offset))"

lemma layout_field_done:
  assumes "tables_ok s" "has_name (fd_ty d)" "fields_pass s acc"
  shows "okres (fields_pass s) (layout_field s i acc d)"
proof -
  obtain fds names offset where acc: "acc = (fds, names, offset)" by (cases acc)
  obtain name where name: "dc_name (dt_declarator (fd_ty d)) = Some name"
    using assms(2) by (auto simp: has_name_def)
  have field: "okres (fields_pass s) (rbind (type_size ty (an_structs s)) (\<lambda>size.
            if size = 0 then diag (fd_span d) ''structure field has incomplete type''
            else rbind (add_usize offset size) (\<lambda>offset'.
                Inr (fds @ [\<lparr>fi_name = name, fi_ty = ty, fi_offset = offset, fi_span = fd_span d\<rparr>],
                     insert name names, offset'))))" if "type_ok (env_of s) ty" for ty
    using assms(3) that
    by (intro calm_bind [OF calm_type_size [OF that]] okres_if okres_diag calm_bind [OF calm_primitives(2)])
      (auto simp: add_usize_Inr fields_pass_def acc)
  show ?thesis
    unfolding layout_field_def acc prod.case Let_def name unwrap_def option.case rbind_Inr
    by (intro okres_if okres_diag okres_bind [OF lower_decl_type_ok [OF assms(1)]] field)
qed

lemma layout_struct_done:
  assumes "struct_pass s" "an_struct_ids s (sd_name d) \<noteq> None" "list_all (has_name \<circ> fd_ty) (sd_fields d)"
  shows "okres (\<lambda>t. struct_pass t \<and> an_struct_ids t = an_struct_ids s) (layout_struct s d)"
proof -
  obtain i where i: "an_struct_ids s (sd_name d) = Some i" "i < length (an_structs s)"
    using assms(1,2) by (auto simp: struct_pass_def map_below_def)
  have fields: "okres (fields_pass s) (fold_res (layout_field s i) ([], {}, 0) (sd_fields d))"
    by (rule okres_fold) (use assms(3) layout_field_done [OF struct_pass_tables [OF assms(1)]] in
      \<open>auto simp: list_all_iff fields_pass_def\<close>)
  have "struct_pass (s\<lparr>an_structs := (an_structs s)[i := (an_structs s ! i)\<lparr>si_fields := fds, si_size := offset\<rparr>]\<rparr>)"
    if "fields_pass s (fds, names, offset)" for fds names offset
  proof -
    let ?t = "s\<lparr>an_structs := (an_structs s)[i := (an_structs s ! i)\<lparr>si_fields := fds, si_size := offset\<rparr>]\<rparr>"
    have "type_ok (env_of ?t) = type_ok (env_of s)"
      by (intro ext type_ok_structs) simp
    then have "struct_ok (env_of ?t) = struct_ok (env_of s)" by (intro ext) (simp add: struct_ok_def)
    with assms(1) that show ?thesis
      by (auto simp: struct_pass_def fresh_def list_all_iff fields_pass_def struct_ok_def
          dest!: set_update_subset_insert [THEN subsetD])
  qed
  with i show ?thesis
    unfolding layout_struct_def
    by (auto intro!: okres_bind [OF fields] simp: map_at_def index_at_def set_at_def)
qed

lemma layout_structs_done:
  assumes "struct_pass s" "names_known ds s"
    and "list_all (\<lambda>d. list_all (has_name \<circ> fd_ty) (sd_fields d)) ds"
  shows "okres struct_pass (layout_structs s ds)"
proof -
  have "okres (\<lambda>t. struct_pass t \<and> an_struct_ids t = an_struct_ids s) (layout_structs s ds)"
    unfolding layout_structs_def
    by (rule okres_fold) (use assms in \<open>auto simp: names_known_def list_all_iff
        intro!: okres_mono [OF layout_struct_done]\<close>)
  then show ?thesis by (rule okres_mono) simp
qed

section \<open>Globals\<close>

lemma init_global_done:
  assumes "ty_array_len ty = None \<and> is_scalar ty \<Longrightarrow> address < length (an_data_words s)"
    and "\<And>n. ty_array_len ty = Some n \<Longrightarrow> ty_base ty = BT_Char \<Longrightarrow> ty_pointers ty = 0 \<Longrightarrow>
      address + n \<le> length (an_data_words s)"
  shows "okres (\<lambda>t. \<exists>ws. t = s\<lparr>an_data_words := ws\<rparr>) (init_global s ty address e)"
proof (cases "ty_array_len ty")
  case (Some n)
  then show ?thesis
    using assms(2) [OF Some]
    by (auto simp: init_global_def copy_words_def split: option.split)
next
  case None
  have scalar: "is_integer ty \<or> is_pointer ty \<Longrightarrow> address < length (an_data_words s)"
    using assms(1) None by (simp add: is_scalar_def)
  then show ?thesis
    using None unfolding init_global_def allocate_words_def
    by (auto simp: set_at_def nth_append intro!: calm_bind [OF calm_constant_ast] split: option.split)
qed

lemma scalar_size: "is_scalar t \<Longrightarrow> type_size t S = Inr 1"
  by (auto simp: is_scalar_def is_integer_def is_pointer_def type_size_def element_size_def
      split: base_type.splits)

lemma char_array_done:
  "type_size t S = Inr k \<Longrightarrow> ty_array_len t = Some n \<Longrightarrow> ty_base t = BT_Char \<Longrightarrow> ty_pointers t = 0 \<Longrightarrow> k = n"
  by (auto simp: type_size_def element_size_def mul_usize_Inr)

definition global_pass :: "analyzer \<Rightarrow> bool" where
  "global_pass s \<longleftrightarrow> fresh s \<and> tables_ok s \<and> an_functions s = [] \<and> an_function_ids s = Map.empty"

lemma tables_ok_data: "tables_ok (s\<lparr>an_data_words := ws\<rparr>) = tables_ok s"
  by (simp add: tables_ok_def env_of_def)

lemma tables_ok_add_global:
  assumes "tables_ok s" "type_ok (env_of s) ty"
  shows "tables_ok (s\<lparr>an_global_ids := (an_global_ids s)(name \<mapsto> length (an_globals s)),
    an_globals := an_globals s @ [\<lparr>gi_name = name, gi_ty = ty, gi_address = a, gi_span = sp\<rparr>]\<rparr>)"
  (is "tables_ok ?t")
proof -
  have "type_ok (env_of ?t) = type_ok (env_of s)"
    by (intro ext type_ok_structs) simp
  with assms show ?thesis
    by (auto simp: tables_ok_def Let_def struct_ok_def [abs_def] symbol_ok_def [abs_def] map_below_def
        comp_def intro: less_SucI)
qed

lemma register_global_done:
  assumes "global_pass s" "has_name (g_ty d)"
  shows "okres global_pass (register_global s d)"
proof -
  obtain name where name: "dc_name (dt_declarator (g_ty d)) = Some name"
    using assms(2) by (auto simp: has_name_def)
  have tables: "tables_ok s" using assms(1) by (simp add: global_pass_def)
  let ?a = "length (an_data_words s)"
  have rest: "okres global_pass (rbind (let s = s\<lparr>an_data_words := an_data_words s @ replicate k 0\<rparr> in
                      case g_init d of None \<Rightarrow> Inr s | Some e \<Rightarrow> init_global s ty ?a e) (\<lambda>s.
                 Inr (s\<lparr>an_global_ids := (an_global_ids s)(name \<mapsto> length (an_globals s)),
                        an_globals := an_globals s @
                          [\<lparr>gi_name = name, gi_ty = ty, gi_address = ?a, gi_span = g_span d\<rparr>]\<rparr>)))"
    if "type_ok (env_of s) ty" "type_size ty (an_structs s) = Inr k" for ty k
  proof -
    let ?s = "s\<lparr>an_data_words := an_data_words s @ replicate k 0\<rparr>"
    have "okres (\<lambda>t. \<exists>ws. t = ?s\<lparr>an_data_words := ws\<rparr>)
        (case g_init d of None \<Rightarrow> Inr ?s | Some e \<Rightarrow> init_global ?s ty ?a e)"
    proof (cases "g_init d")
      case None
      then show ?thesis by (auto intro: exI [of _ "an_data_words ?s"])
    next
      case (Some e)
      have "okres (\<lambda>t. \<exists>ws. t = ?s\<lparr>an_data_words := ws\<rparr>) (init_global ?s ty ?a e)"
        using that(2) scalar_size [of ty "an_structs s"] char_array_done [OF that(2)]
        by (intro init_global_done) auto
      with Some show ?thesis by simp
    qed
    then show ?thesis
      unfolding Let_def
    proof (rule okres_bind, elim exE)
      fix t ws
      assume t: "t = ?s\<lparr>an_data_words := ws\<rparr>"
      then have "tables_ok t" "type_ok (env_of t) ty"
        using tables that(1) by (simp_all add: tables_ok_data env_of_def)
      from tables_ok_add_global [OF this] t assms(1)
      show "okres global_pass (Inr (t\<lparr>an_global_ids := (an_global_ids t)(name \<mapsto> length (an_globals t)),
          an_globals := an_globals t @ [\<lparr>gi_name = name, gi_ty = ty, gi_address = ?a, gi_span = g_span d\<rparr>]\<rparr>))"
        by (simp add: global_pass_def fresh_def)
    qed
  qed
  have size: "calm (type_size ty (an_structs s))" if "type_ok (env_of s) ty" for ty
    by (rule calm_type_size [OF that]) simp
  show ?thesis
    unfolding register_global_def name unwrap_def option.case rbind_Inr Let_def
    by (intro okres_if okres_diag calm_bind [OF calm_reject_warp] okres_bind [OF lower_decl_type_ok [OF tables]]
        calm_bind [OF size] rest [unfolded Let_def])
qed

section \<open>Functions\<close>

text \<open>Every declaration of a function has the parameters that the table knows.\<close>

definition functions_known :: "function_decl list \<Rightarrow> analyzer \<Rightarrow> bool" where
  "functions_known fs s \<longleftrightarrow> (\<forall>f\<in>set fs. \<exists>i<length (an_functions s). an_function_ids s (f_name f) = Some i
     \<and> length (fs_params (an_functions s ! i)) = length (f_params f) \<and> length (f_params f) \<le> 4)"

definition function_pass :: "function_decl list \<Rightarrow> analyzer \<Rightarrow> bool" where
  "function_pass fs s \<longleftrightarrow> fresh s \<and> tables_ok s \<and> functions_known fs s"

lemma lower_parameter_ok:
  assumes "tables_ok s"
  shows "okres (type_ok (env_of s)) (lower_parameter s p)"
  unfolding lower_parameter_def
  by (intro calm_bind okres_bind [OF lower_decl_type_ok [OF assms]])
    (auto simp: Let_def calm_reject_warp split: option.split)

lemma okres_map:
  assumes "\<And>x. x \<in> set xs \<Longrightarrow> okres P (f x)"
  shows "okres (\<lambda>ys. length ys = length xs \<and> list_all P ys) (map_res f xs)"
  using assms by (induction xs) (auto intro!: okres_bind [where P = P] okres_bind)

lemma tables_ok_set_functions:
  assumes "tables_ok s" "list_all (symbol_ok (env_of s)) F" "map_below ids (length F)"
    "an_inline_candidates s = Map.empty"
  shows "tables_ok (s\<lparr>an_function_ids := ids, an_functions := F\<rparr>)" (is "tables_ok ?t")
proof -
  have "type_ok (env_of ?t) = type_ok (env_of s)"
    by (intro ext type_ok_structs) simp
  with assms show ?thesis
    by (simp add: tables_ok_def Let_def struct_ok_def [abs_def] symbol_ok_def [abs_def])
qed

lemma redeclare_done:
  assumes "symbol_ok G symbol"
  shows "okres (\<lambda>y. symbol_ok G y \<and> fs_params y = fs_params symbol \<and> fs_params symbol = params)
    (redeclare symbol f return_type params)"
  using assms by (auto simp: redeclare_def symbol_ok_def)

lemma register_function_done:
  assumes pass: "function_pass fs s"
  shows "okres (function_pass (f # fs)) (register_function s f)"
proof -
  have s: "tables_ok s" "fresh s" "functions_known fs s"
    using pass by (simp_all add: function_pass_def)
  have empty: "an_inline_candidates s = Map.empty" using s(2) by (simp add: fresh_def)
  have symbols: "list_all (symbol_ok (env_of s)) (an_functions s)"
    "map_below (an_function_ids s) (length (an_functions s))"
    using s(1) by (simp_all add: tables_ok_def Let_def)
  have known: "okres (function_pass (f # fs)) (rbind (index_at (an_functions s) i) (\<lambda>symbol.
      rbind (redeclare symbol f ret params) (\<lambda>symbol'.
      rbind (set_at (an_functions s) i symbol') (\<lambda>functions. Inr (s\<lparr>an_functions := functions\<rparr>)))))"
    if i: "an_function_ids s (f_name f) = Some i" and params: "length params = length (f_params f)"
      and four: "length (f_params f) \<le> 4" for i ret params
  proof -
    have lt: "i < length (an_functions s)" using symbols(2) i by (auto simp: map_below_def)
    then have sym: "symbol_ok (env_of s) (an_functions s ! i)" using symbols(1) by (simp add: list_all_length)
    have "function_pass (f # fs) (s\<lparr>an_functions := (an_functions s)[i := y]\<rparr>)"
      if y: "symbol_ok (env_of s) y" "fs_params y = fs_params (an_functions s ! i)"
        "fs_params (an_functions s ! i) = params" for y
    proof -
      have "list_all (symbol_ok (env_of s)) ((an_functions s)[i := y])"
        using symbols(1) y(1) by (auto simp: list_all_iff dest!: set_update_subset_insert [THEN subsetD])
      from tables_ok_set_functions [OF s(1) this _ empty, of "an_function_ids s"] symbols(2)
      have "tables_ok (s\<lparr>an_functions := (an_functions s)[i := y]\<rparr>)" by simp
      moreover have "functions_known (f # fs) (s\<lparr>an_functions := (an_functions s)[i := y]\<rparr>)"
        unfolding functions_known_def
      proof
        fix g
        assume "g \<in> set (f # fs)"
        then obtain j where j: "j < length (an_functions s)" "an_function_ids s (f_name g) = Some j"
          "length (fs_params (an_functions s ! j)) = length (f_params g)" "length (f_params g) \<le> 4"
          using s(3) lt i y(3) params four by (auto simp: functions_known_def)
        with y(2) lt show "\<exists>i'<length (an_functions (s\<lparr>an_functions := (an_functions s)[i := y]\<rparr>)).
            an_function_ids (s\<lparr>an_functions := (an_functions s)[i := y]\<rparr>) (f_name g) = Some i'
            \<and> length (fs_params (an_functions (s\<lparr>an_functions := (an_functions s)[i := y]\<rparr>) ! i')) = length (f_params g)
            \<and> length (f_params g) \<le> 4"
          by (intro exI [of _ j]) (simp add: nth_list_update)
      qed
      ultimately show ?thesis using s(2) by (simp add: function_pass_def fresh_def)
    qed
    with lt show ?thesis
      by (auto simp: index_at_lt set_at_def intro!: okres_bind [OF redeclare_done [OF sym]])
  qed
  have new: "function_pass (f # fs) (s\<lparr>an_function_ids := (an_function_ids s)(f_name f \<mapsto> length (an_functions s)),
      an_functions := an_functions s @ [y]\<rparr>)"
    if none: "an_function_ids s (f_name f) = None" and y: "symbol_ok (env_of s) y"
      "length (fs_params y) = length (f_params f)" and four: "length (f_params f) \<le> 4" for y
  proof -
    have "map_below ((an_function_ids s)(f_name f \<mapsto> length (an_functions s))) (length (an_functions s @ [y]))"
      using symbols(2) by (auto simp: map_below_def intro: less_SucI)
    with symbols(1) y(1) have "tables_ok (s\<lparr>an_function_ids := (an_function_ids s)(f_name f \<mapsto> length (an_functions s)),
        an_functions := an_functions s @ [y]\<rparr>)"
      by (intro tables_ok_set_functions [OF s(1) _ _ empty]) simp_all
    moreover have "functions_known (f # fs) (s\<lparr>an_function_ids := (an_function_ids s)(f_name f \<mapsto> length (an_functions s)),
        an_functions := an_functions s @ [y]\<rparr>)"
      using s(3) none y(2) four by (force simp: functions_known_def nth_append)
    ultimately show ?thesis using s(2) by (simp add: function_pass_def fresh_def)
  qed
  show ?thesis
    unfolding register_function_def Let_def
  proof (intro okres_if okres_diag calm_bind [OF calm_reject_warp] okres_bind [OF lower_decl_type_ok [OF s(1)]]
      okres_bind [OF okres_map [OF lower_parameter_ok [OF s(1)]]])
    fix ret params
    assume p: "type_ok (env_of s) ret" "length params = length (f_params f) \<and> list_all (type_ok (env_of s)) params"
      and few: "\<not> length params > 4"
    show "okres (function_pass (f # fs)) (case an_function_ids s (f_name f) of
        None \<Rightarrow> Inr (s\<lparr>an_function_ids := (an_function_ids s)(f_name f \<mapsto> length (an_functions s)),
                      an_functions := an_functions s @
                        [\<lparr>fs_name = f_name f, fs_return_type = ret, fs_params = params,
                          fs_param_shapes = map (declared_shape \<circ> p_ty) (f_params f),
                          fs_param_names = map (dc_name \<circ> dt_declarator \<circ> p_ty) (f_params f),
                          fs_param_spans = map p_span (f_params f),
                          fs_return_shape = declared_shape (f_return_type f), fs_defined = (f_body f \<noteq> None),
                          fs_span = f_span f\<rparr>]\<rparr>)
      | Some i \<Rightarrow> rbind (index_at (an_functions s) i) (\<lambda>symbol.
          rbind (redeclare symbol f ret params) (\<lambda>symbol'.
          rbind (set_at (an_functions s) i symbol') (\<lambda>functions. Inr (s\<lparr>an_functions := functions\<rparr>)))))"
    proof (cases "an_function_ids s (f_name f)")
      case None
      show ?thesis
        using p few by (simp add: None) (intro new [OF None], simp_all add: symbol_ok_def)
    next
      case (Some i)
      from known [OF this] p few show ?thesis by (simp add: Some)
    qed
  qed
qed

lemma register_functions_done:
  assumes "function_pass pre s"
  shows "okres (function_pass (rev fs @ pre)) (fold_res register_function s fs)"
  using assms
proof (induction fs arbitrary: s pre)
  case (Cons f fs)
  show ?case
    unfolding fold_res.simps
    by (rule okres_bind [OF register_function_done [OF Cons.prems]]) (use Cons.IH in fastforce)
qed simp

lemma register_declarations_done:
  assumes "program_ok p"
  shows "okres (function_pass (pr_functions p)) (register_declarations p)"
proof -
  have layouts: "okres struct_pass (layout_structs s (pr_structs p))"
    if "struct_pass s \<and> names_known (pr_structs p) s" for s
    using that assms by (intro layout_structs_done) (simp_all add: program_ok_def)
  have placed: "okres global_pass (fold_res register_global s (pr_globals p))" if "struct_pass s" for s
  proof (rule okres_fold)
    show "global_pass s" using that struct_pass_tables [OF that] by (simp add: struct_pass_def global_pass_def)
  qed (use assms register_global_done in \<open>auto simp: program_ok_def list_all_iff\<close>)
  have funs: "okres (function_pass (pr_functions p)) (fold_res register_function s (pr_functions p))"
    if "global_pass s" for s
    by (rule okres_mono [OF register_functions_done [of "[]"]])
      (use that in \<open>auto simp: global_pass_def function_pass_def functions_known_def\<close>)
  show ?thesis
    unfolding register_declarations_def
    by (rule okres_bind [OF register_struct_names_done] okres_bind [OF layouts] okres_bind [OF placed] funs
        | assumption)+
qed

section \<open>Inline candidates\<close>

lemma split_return_some: "split_return xs = Some (ys, e) \<Longrightarrow> \<exists>sp. xs = ys @ [S_Return (Some e) sp]"
proof -
  assume a: "split_return xs = Some (ys, e)"
  then have "xs \<noteq> []" by (auto simp: split_return_def split: if_splits)
  with a obtain sp where "last xs = S_Return (Some e) sp" "ys = butlast xs"
    by (auto simp: split_return_def split: stmt.splits option.splits)
  with \<open>xs \<noteq> []\<close> show ?thesis by (metis append_butlast_last_id)
qed

lemma candidate_of_ok:
  assumes "candidate_of f = Some c" "case f_body f of None \<Rightarrow> True | Some b \<Rightarrow> block_named b"
    and "length (fs_params symbol) = length (f_params f)"
  shows "candidate_ok symbol c"
proof -
  from assms(1) obtain body stmts result where body: "f_body f = Some body"
    and split: "split_return (b_statements body) = Some (stmts, result)"
    and names: "list_all (has_name \<circ> p_ty) (f_params f)"
    and plain: "list_all (\<lambda>x. \<not> unsupported_statement x) stmts" "\<not> unsupported result"
    and c: "c = \<lparr>ic_params = f_params f, ic_statements = stmts, ic_result = result\<rparr>"
    by (auto simp: candidate_of_def list_ex_iff list_all_iff has_name_def split: option.splits if_splits)
  from split_return_some [OF split] have "list_all stmt_named stmts"
    using assms(2) body by (cases body) auto
  with names plain assms(3) show ?thesis
    by (simp add: candidate_ok_def c list_all_iff)
qed

definition candidates_in :: "function_symbol list \<Rightarrow> (nat \<rightharpoonup> inline_candidate) \<Rightarrow> bool" where
  "candidates_in F m \<longleftrightarrow> (\<forall>f c. m f = Some c \<longrightarrow> f < length F \<and> candidate_ok (F ! f) c)"

lemma collect_inline_candidates_done:
  assumes "functions_known fs s" "list_all (\<lambda>f. case f_body f of None \<Rightarrow> True | Some b \<Rightarrow> block_named b) fs"
  shows "okres (candidates_in (an_functions s)) (collect_inline_candidates fs (an_function_ids s))"
  unfolding collect_inline_candidates_def
proof (rule okres_fold)
  show "candidates_in (an_functions s) Map.empty" by (simp add: candidates_in_def)
next
  fix m f
  assume f: "f \<in> set fs" and m: "candidates_in (an_functions s) m"
  obtain i where i: "i < length (an_functions s)" "an_function_ids s (f_name f) = Some i"
    "length (fs_params (an_functions s ! i)) = length (f_params f)"
    using assms(1) f by (auto simp: functions_known_def)
  have "case f_body f of None \<Rightarrow> True | Some b \<Rightarrow> block_named b" using assms(2) f by (auto simp: list_all_iff)
  then have "candidate_ok (an_functions s ! i) c" if "candidate_of f = Some c" for c
    using candidate_of_ok [OF that] i(3) by blast
  with m i show "okres (candidates_in (an_functions s)) (case candidate_of f of None \<Rightarrow> Inr m
      | Some c \<Rightarrow> rbind (map_at (an_function_ids s) (f_name f)) (\<lambda>i. Inr (m(i \<mapsto> c))))"
    by (auto simp: map_at_def candidates_in_def split: option.split)
qed

section \<open>Functions\<close>

text \<open>The analyser between two functions.\<close>

definition between :: "analyzer \<Rightarrow> bool" where
  "between s \<longleftrightarrow> tables_ok s \<and> bodies_ok s \<and> an_scopes s = []"

definition tables_of :: "analyzer \<Rightarrow> _" where
  "tables_of s = (an_globals s, an_global_ids s, an_structs s, an_struct_ids s, an_functions s,
     an_function_ids s, an_inline_candidates s)"

lemma tables_of_static: "static_of t = static_of s \<Longrightarrow> tables_of t = tables_of s"
  by (simp add: static_of_def tables_of_def)

text \<open>A state that differs in its locals only, by new ones of well-formed types.\<close>

definition more_locals :: "analyzer \<Rightarrow> analyzer \<Rightarrow> bool" where
  "more_locals s t \<longleftrightarrow> (\<exists>ls. t = s\<lparr>an_locals := an_locals s @ ls\<rparr> \<and> list_all (type_ok (env_of s) \<circ> li_ty) ls)"

lemma more_locals_env: "more_locals s t \<Longrightarrow> env_le (env_of s) (env_of t)"
  by (auto simp: more_locals_def env_le_def env_of_def)

lemma more_locals_length: "more_locals s t \<Longrightarrow> length (an_locals s) \<le> length (an_locals t)"
  by (auto simp: more_locals_def)

lemma more_locals_trans: "more_locals s t \<Longrightarrow> more_locals t u \<Longrightarrow> more_locals s u"
proof -
  assume a: "more_locals s t" "more_locals t u"
  have "type_ok (env_of t) = type_ok (env_of s)"
    using env_le_type [OF more_locals_env [OF a(1)]] by blast
  with a show ?thesis by (auto simp: more_locals_def)
qed

lemma bind_params_done:
  assumes "symbol_ok (env_of s) symbol" "n + length ps = length (fs_params symbol)"
    "map_below m (length (an_locals s))"
  shows "okres (\<lambda>((b, ids), t). more_locals s t \<and> map_below b (length (an_locals t))
      \<and> ids = [length (an_locals s)..<length (an_locals s) + length ps]
      \<and> length (an_locals s) + length ps \<le> length (an_locals t)) (bind_params symbol n ps m s)"
  using assms
proof (induction ps arbitrary: n m s)
  case Nil
  then show ?case by (auto simp: more_locals_def intro: exI [of _ "[]"])
next
  case (Cons p ps)
  have shape: "index_at (fs_param_shapes symbol) n = Inr (fs_param_shapes symbol ! n)"
    and ty: "index_at (fs_params symbol) n = Inr (fs_params symbol ! n)"
    and ok: "type_ok (env_of s) (fs_params symbol ! n)"
    using Cons.prems(1,2) by (auto simp: symbol_ok_def index_at_lt list_all_length)
  show ?case
  proof (cases "dc_name (dt_declarator (p_ty p))")
    case (Some name)
    obtain i t where it: "new_local name (fs_params symbol ! n) (p_span p) (fs_param_shapes symbol ! n) False s = (i, t)"
      by fastforce
    then have t: "more_locals s t" "i = length (an_locals s)" "length (an_locals t) = Suc (length (an_locals s))"
      using ok by (auto simp: new_local_def more_locals_def)
    have sym: "symbol_ok (env_of t) symbol"
      using Cons.prems(1) env_le_type [OF more_locals_env [OF t(1)]] by (simp add: symbol_ok_def list_all_iff)
    have "map_below (m(name \<mapsto> i)) (length (an_locals t))"
      using Cons.prems(3) t(2,3) by (auto simp: map_below_def intro: less_SucI)
    then have rest: "okres (\<lambda>((b, ids), u). more_locals t u \<and> map_below b (length (an_locals u))
      \<and> ids = [length (an_locals t)..<length (an_locals t) + length ps]
      \<and> length (an_locals t) + length ps \<le> length (an_locals u)) (bind_params symbol (n + 1) ps (m(name \<mapsto> i)) t)"
      using Cons.prems(2) by (intro Cons.IH [OF sym]) (auto simp del: fun_upd_apply)
    have "okres (\<lambda>((b, ids), t). more_locals s t \<and> map_below b (length (an_locals t))
        \<and> ids = [length (an_locals s)..<length (an_locals s) + length (p # ps)]
        \<and> length (an_locals s) + length (p # ps) \<le> length (an_locals t))
      (rbind (bind_params symbol (n + 1) ps (m(name \<mapsto> i)) t) (\<lambda>((b, ids), s). Inr ((b, i # ids), s)))"
      by (rule okres_bind [OF rest]) (use t more_locals_trans [OF t(1)] in \<open>auto simp: upt_conv_Cons simp del: upt_Suc\<close>)
    then show ?thesis
      unfolding bind_params.simps Some option.case shape ty rbind_Inr Let_def it prod.case
      by (intro okres_if okres_diag calm_bind [OF calm_reject_warp])
  qed simp
qed

lemma place_locals_done:
  assumes "list_all (type_ok G \<circ> li_ty) ls" "S = en_structs G"
  shows "okres (\<lambda>(ms, w). map li_ty ms = map li_ty ls) (place_locals S ls k)"
  using assms(1)
proof (induction ls arbitrary: k)
  case (Cons l ls)
  have size: "calm (type_size (li_ty l) S)" using Cons.prems assms(2) by (intro calm_type_size) auto
  have rest: "okres (\<lambda>(ms, w). map li_ty ms = map li_ty ls) (place_locals S ls k')" for k'
    using Cons by simp
  show ?case
    by (auto intro!: calm_bind [OF size] calm_bind [OF calm_primitives(2)] okres_bind [OF rest])
qed simp

definition function_typed :: "typing \<Rightarrow> typed_function \<Rightarrow> bool" where
  "function_typed G f \<longleftrightarrow> tf_id f < length (en_functions G)
     \<and> tf_return_type f = fs_return_type (en_functions G ! tf_id f)
     \<and> list_all (\<lambda>i. i < length (en_locals G)) (tf_params f) \<and> distinct (tf_params f)
     \<and> length (tf_params f) = length (fs_params (en_functions G ! tf_id f)) \<and> length (tf_params f) \<le> 4
     \<and> tb_ok G (tf_return_type f) (tf_body f)"

lemma function_typed_mono: "function_typed G f \<Longrightarrow> env_le G H \<Longrightarrow> function_typed H f"
  using typing_mono(7) by (auto simp: function_typed_def list_all_iff env_le_def)

definition kept_between :: "analyzer \<Rightarrow> analyzer \<Rightarrow> bool" where
  "kept_between s t \<longleftrightarrow> between t \<and> tables_of t = tables_of s \<and> env_le (env_of s) (env_of t)"

lemma frame_fits_calm: "calm (frame_fits a b)"
  by (auto simp: frame_fits_def intro!: calm_bind)

lemma analyze_function_done:
  assumes s: "between s" and body: "block_named body"
    and known: "an_function_ids s (f_name f) = Some i" "i < length (an_functions s)"
      "length (fs_params (an_functions s ! i)) = length (f_params f)" "length (f_params f) \<le> 4"
  shows "okres (\<lambda>(tf, u). kept_between s u \<and> function_typed (env_of u) tf) (analyze_function f body s)"
proof -
  let ?symbol = "an_functions s ! i"
  let ?s = "s\<lparr>an_current_function := Some i, an_divergent_depth := 0,
                 an_return_type := fs_return_type ?symbol, an_return_shape := fs_return_shape ?symbol\<rparr>"
  have env: "env_of ?s = env_of s" by (simp add: env_of_def)
  have symbol: "symbol_ok (env_of s) ?symbol"
    using s known(2) by (auto simp: between_def tables_ok_def Let_def list_all_length)
  have good: "good ?s"
    using s symbol known(2) env by (auto simp: good_def between_def tables_ok_def Let_def bodies_ok_def
        scopes_ok_def symbol_ok_def)
  have params: "okres (\<lambda>((b, ids), t). more_locals ?s t \<and> map_below b (length (an_locals t))
      \<and> ids = [length (an_locals ?s)..<length (an_locals ?s) + length (f_params f)]
      \<and> length (an_locals ?s) + length (f_params f) \<le> length (an_locals t)) (bind_params ?symbol 0 (f_params f) Map.empty ?s)"
    by (rule bind_params_done) (simp_all add: symbol env known(3) map_below_def)
  have run: "okres (\<lambda>(tf, u). kept_between s u \<and> function_typed (env_of u) tf)
      (rbind (analyze_block body b t) (\<lambda>(tbody, s').
       rbind (place_locals (an_structs s') (drop (length (an_locals s)) (an_locals s')) 0) (\<lambda>(placed, frame_words).
       let s' = s'\<lparr>an_locals := take (length (an_locals s)) (an_locals s') @ placed\<rparr> in
       rbind (frame_fits (length (an_data_words s')) frame_words) (\<lambda>fits.
       if \<not> fits then diag (f_span f) ''Warp C data and local stack frame exceed VM RAM''
       else Inr (\<lparr>tf_id = i, tf_name = f_name f, tf_return_type = an_return_type s',
                tf_return_shape = an_return_shape s', tf_params = ids, tf_body = tbody,
                tf_frame_words = frame_words, tf_span = f_span f\<rparr>, s')))))"
    if t: "more_locals ?s t" and b: "map_below b (length (an_locals t))"
      and ids: "ids = [length (an_locals ?s)..<length (an_locals ?s) + length (f_params f)]"
        "length (an_locals ?s) + length (f_params f) \<le> length (an_locals t)" for b ids t
  proof -
    obtain ls where ls: "t = ?s\<lparr>an_locals := an_locals ?s @ ls\<rparr>" "list_all (type_ok (env_of ?s) \<circ> li_ty) ls"
      using t by (auto simp: more_locals_def)
    have types: "type_ok (env_of t) = type_ok (env_of ?s)"
      using env_le_type [OF more_locals_env [OF t]] by blast
    have "tables_ok t = tables_ok ?s"
      using ls(1) types by (simp add: tables_ok_def Let_def struct_ok_def [abs_def] symbol_ok_def [abs_def])
    then have good_t: "good t"
      using good ls types by (auto simp: good_def bodies_ok_def scopes_ok_def list_all_iff intro: map_below_mono)
    have ret: "an_return_type t = fs_return_type ?symbol" using ls(1) by simp
    have block: "okres (\<lambda>(tb, u). tb_ok (env_of u) (fs_return_type ?symbol) tb \<and> bodies_ok u \<and> expr_frame t u)
        (analyze_block body b t)"
      by (rule okres_leads [OF analysis_typed(3) [OF body good_t b] frame.analysis(3)])
        (simp_all add: block_done_def ret)
    show ?thesis
    proof (rule okres_bind [OF block], unfold split_paired_all prod.case)
      fix tb u
      assume u: "tb_ok (env_of u) (fs_return_type ?symbol) tb \<and> bodies_ok u \<and> expr_frame t u"
      then have kept: "body_kept t u" "an_scopes u = an_scopes t" and stat: "static_of u = static_of t"
        by (simp_all add: expr_frame_def body_kept_def)
      have le: "env_le (env_of s) (env_of u)"
        using env_le_trans [OF more_locals_env [OF t] kept_env_le [OF kept(1)]] by (simp add: env)
      have tables: "tables_of u = tables_of s"
        using tables_of_static [OF stat] ls(1) by (simp add: tables_of_def)
      have static: "tables_ok u" "an_return_type u = fs_return_type ?symbol"
        using static_tables_ok [OF stat] \<open>tables_ok t = tables_ok ?s\<close> good stat ret
        by (simp_all add: good_def static_of_def)
      let ?n = "length (an_locals s)"
      have locals: "list_all (type_ok (env_of u) \<circ> li_ty) (drop ?n (an_locals u))"
        using u by (auto simp: bodies_ok_def list_all_iff dest: in_set_dropD)
      show "okres (\<lambda>(tf, u). kept_between s u \<and> function_typed (env_of u) tf)
        (rbind (place_locals (an_structs u) (drop ?n (an_locals u)) 0) (\<lambda>(placed, frame_words).
         let s' = u\<lparr>an_locals := take ?n (an_locals u) @ placed\<rparr> in
         rbind (frame_fits (length (an_data_words s')) frame_words) (\<lambda>fits.
         if \<not> fits then diag (f_span f) ''Warp C data and local stack frame exceed VM RAM''
         else Inr (\<lparr>tf_id = i, tf_name = f_name f, tf_return_type = an_return_type s',
                tf_return_shape = an_return_shape s', tf_params = ids, tf_body = tb,
                tf_frame_words = frame_words, tf_span = f_span f\<rparr>, s'))))"
      proof (rule okres_bind [OF place_locals_done [OF locals]], simp, unfold split_paired_all prod.case Let_def,
          intro calm_bind [OF frame_fits_calm] okres_if okres_diag)
        fix placed :: "local_info list" and w
        assume placed: "map li_ty placed = map li_ty (drop ?n (an_locals u))"
        let ?u = "u\<lparr>an_locals := take ?n (an_locals u) @ placed\<rparr>"
        have tys: "map li_ty (an_locals ?u) = map li_ty (an_locals u)"
          by (simp add: placed flip: take_map drop_map)
        then have env_u: "env_of ?u = env_of u" by (simp add: env_of_def)
        have "list_all (P \<circ> li_ty) (an_locals ?u) = list_all (P \<circ> li_ty) (an_locals u)" for P
          using arg_cong [OF tys, of "list_all P"] by (simp only: list.pred_map)
        from this [of "type_ok (env_of u)"] have bodies: "bodies_ok ?u"
          using u env_u by (simp add: bodies_ok_def)
        have "tables_ok ?u" using static(1) env_u by (simp add: tables_ok_def Let_def)
        with bodies have "between ?u" using kept(2) ls(1) s by (simp add: between_def)
        with tables le env_u have "kept_between s ?u" by (simp add: kept_between_def tables_of_def)
        moreover have "i < length (en_functions (env_of u))" "en_functions (env_of u) ! i = ?symbol"
          using known(2) tables by (simp_all add: tables_of_def)
        moreover have "list_all (\<lambda>i. i < length (en_locals (env_of u))) ids"
          using ids locals_mono [OF kept_env_le [OF kept(1)]] by (simp add: list_all_iff)
        moreover have "length ids = length (fs_params ?symbol)" "distinct ids" "length ids \<le> 4"
          using ids known by simp_all
        ultimately show "okres (\<lambda>(tf, u). kept_between s u \<and> function_typed (env_of u) tf)
          (Inr (\<lparr>tf_id = i, tf_name = f_name f, tf_return_type = an_return_type ?u,
            tf_return_shape = an_return_shape ?u, tf_params = ids, tf_body = tb,
            tf_frame_words = w, tf_span = f_span f\<rparr>, ?u))"
          using u static(2) env_u by (simp add: function_typed_def del: env_simps)
      qed
    qed
  qed
  have i: "map_at (an_function_ids s) (f_name f) = Inr i" and at: "index_at (an_functions s) i = Inr ?symbol"
    and start: "length (an_locals ?s) = length (an_locals s)"
    by (simp_all add: map_at_def known index_at_lt)
  show ?thesis
    unfolding analyze_function_def i at rbind_Inr Let_def start
    by (rule okres_bind [OF params], unfold split_paired_all prod.case, elim conjE,
        rule run [unfolded Let_def]) assumption+
qed

lemma kept_between_trans: "kept_between s t \<Longrightarrow> kept_between t u \<Longrightarrow> kept_between s u"
  by (auto simp: kept_between_def intro: env_le_trans)

lemma analyze_functions_done:
  assumes "between s" "functions_known fs s"
    and "list_all (\<lambda>f. case f_body f of None \<Rightarrow> True | Some b \<Rightarrow> block_named b) fs"
  shows "okres (\<lambda>(ts, u). kept_between s u \<and> list_all (function_typed (env_of u)) ts) (analyze_functions fs s)"
  using assms
proof (induction fs arbitrary: s)
  case Nil
  then show ?case by (simp add: kept_between_def)
next
  case (Cons f fs)
  have rest: "okres (\<lambda>(ts, v). kept_between u v \<and> list_all (function_typed (env_of v)) ts) (analyze_functions fs u)"
    if "between u" "tables_of u = tables_of s" for u
    using Cons.IH [OF that(1)] Cons.prems(2,3) that(2) by (simp add: functions_known_def tables_of_def)
  show ?case
  proof (cases "f_body f")
    case None
    then show ?thesis using rest [of s] Cons.prems(1) by simp
  next
    case (Some body)
    obtain i where i: "an_function_ids s (f_name f) = Some i" "i < length (an_functions s)"
      "length (fs_params (an_functions s ! i)) = length (f_params f)" "length (f_params f) \<le> 4"
      using Cons.prems(2) by (auto simp: functions_known_def)
    have body: "block_named body" using Cons.prems(3) Some by simp
    have "okres (\<lambda>(ts, u). kept_between s u \<and> list_all (function_typed (env_of u)) ts)
        (rbind (analyze_function f body s) (\<lambda>(t, s). rbind (analyze_functions fs s) (\<lambda>(ts, s). Inr (t # ts, s))))"
    proof (rule okres_bind [OF analyze_function_done [OF Cons.prems(1) body i]], unfold split_paired_all prod.case)
      fix t u
      assume u: "kept_between s u \<and> function_typed (env_of u) t"
      then have "between u" "tables_of u = tables_of s" by (simp_all add: kept_between_def)
      from rest [OF this] u
      show "okres (\<lambda>(ts, u). kept_between s u \<and> list_all (function_typed (env_of u)) ts)
          (rbind (analyze_functions fs u) (\<lambda>(ts, s). Inr (t # ts, s)))"
        by (elim okres_bind) (auto simp: kept_between_def intro: env_le_trans function_typed_mono)
    qed
    with Some show ?thesis by simp
  qed
qed

section \<open>Programs\<close>

lemma check_main_done:
  assumes "pr_functions p \<noteq> []" "map_below (an_function_ids s) (length (an_functions s))"
  shows "okres (\<lambda>m. an_function_ids s ''main'' = Some m \<and> fs_defined (an_functions s ! m)) (check_main p s)"
  using assms by (auto simp: check_main_def index_at_lt map_below_def split: option.split)

text \<open>The types that the trees of an accepted program are over.\<close>

definition program_env :: "function_symbol list \<Rightarrow> typed_program \<Rightarrow> typing" where
  "program_env F t = \<lparr>en_locals = map li_ty (tp_locals t), en_globals = map gi_ty (tp_globals t),
     en_structs = tp_structs t, en_functions = F\<rparr>"

definition program_typed :: "program \<Rightarrow> typed_program \<Rightarrow> bool" where
  "program_typed p t \<longleftrightarrow>
     (case register_declarations p of
        Inl e \<Rightarrow> False
      | Inr s \<Rightarrow> list_all (function_typed (program_env (an_functions s) t)) (tp_functions t)
          \<and> tp_main t < length (an_functions s) \<and> fs_defined (an_functions s ! tp_main t)
          \<and> tp_function_names t = map fs_name (an_functions s)
          \<and> tp_function_param_shapes t = map fs_param_shapes (an_functions s)
          \<and> tp_function_return_shapes t = map fs_return_shape (an_functions s)
          \<and> list_all (\<lambda>f. length (fs_param_shapes f) = length (fs_params f)) (an_functions s)
          \<and> list_all (type_ok (program_env (an_functions s) t) \<circ> li_ty) (tp_locals t))"

lemma analyze_done:
  assumes "program_ok p"
  shows "okres (program_typed p) (analyze p)"
proof -
  have named: "list_all (\<lambda>f. case f_body f of None \<Rightarrow> True | Some b \<Rightarrow> block_named b) (pr_functions p)"
    and funs: "pr_functions p \<noteq> []" using assms by (simp_all add: program_ok_def)
  show ?thesis
    unfolding analyze_def
  proof (rule okres_bind [OF register_declarations_done [OF assms]])
    fix s
    assume reg: "register_declarations p = Inr s" and pass: "function_pass (pr_functions p) s"
    have s: "tables_ok s" "fresh s" "functions_known (pr_functions p) s"
      using pass by (simp_all add: function_pass_def)
    show "okres (program_typed p) (rbind (collect_inline_candidates (pr_functions p) (an_function_ids s)) (\<lambda>candidates.
      let s = s\<lparr>an_inline_candidates := candidates, an_call_edges := replicate (length (an_functions s)) []\<rparr> in
      rbind (check_main p s) (\<lambda>main.
      rbind (analyze_functions (pr_functions p) s) (\<lambda>(funs, s).
      rbind (validate_call_graph (s\<lparr>an_current_function := None\<rparr>)) (\<lambda>_.
        let called = set (concat (an_call_edges s)) in
        Inr \<lparr>tp_functions = filter (\<lambda>f. tf_id f = main \<or> an_inline_candidates s (tf_id f) = None
                                    \<or> tf_id f \<in> called) funs,
             tp_function_names = map fs_name (an_functions s),
             tp_function_param_shapes = map fs_param_shapes (an_functions s),
             tp_function_return_shapes = map fs_return_shape (an_functions s),
             tp_main = main, tp_locals = an_locals s, tp_globals = an_globals s,
             tp_structs = an_structs s, tp_data_words = an_data_words s\<rparr>)))))"
    proof (rule okres_bind [OF collect_inline_candidates_done [OF s(3) named]], unfold Let_def)
      fix candidates
      assume cand: "candidates_in (an_functions s) candidates"
      let ?s = "s\<lparr>an_inline_candidates := candidates, an_call_edges := replicate (length (an_functions s)) []\<rparr>"
      have env: "env_of ?s = env_of s" by (simp add: env_of_def)
      have tables: "tables_ok ?s"
        using s(1) cand env by (simp add: tables_ok_def Let_def candidates_in_def)
      have between: "between ?s"
        using s(2) tables by (auto simp: between_def fresh_def bodies_ok_def edges_ok_def)
      have known: "functions_known (pr_functions p) ?s" using s(3) by (simp add: functions_known_def)
      have main: "map_below (an_function_ids ?s) (length (an_functions ?s))"
        using s(1) by (simp add: tables_ok_def Let_def)
      show "okres (program_typed p) (rbind (check_main p ?s) (\<lambda>main.
        rbind (analyze_functions (pr_functions p) ?s) (\<lambda>(funs, s).
        rbind (validate_call_graph (s\<lparr>an_current_function := None\<rparr>)) (\<lambda>_.
        Inr \<lparr>tp_functions = filter (\<lambda>f. tf_id f = main \<or> an_inline_candidates s (tf_id f) = None
                                    \<or> tf_id f \<in> set (concat (an_call_edges s))) funs,
             tp_function_names = map fs_name (an_functions s),
             tp_function_param_shapes = map fs_param_shapes (an_functions s),
             tp_function_return_shapes = map fs_return_shape (an_functions s),
             tp_main = main, tp_locals = an_locals s, tp_globals = an_globals s,
             tp_structs = an_structs s, tp_data_words = an_data_words s\<rparr>))))"
      proof (rule okres_bind [OF check_main_done [OF funs main]],
          rule okres_bind [OF analyze_functions_done [OF between known named]], unfold split_paired_all prod.case)
        fix main funs u
        assume m: "an_function_ids ?s ''main'' = Some main \<and> fs_defined (an_functions ?s ! main)"
          and u: "kept_between ?s u \<and> list_all (function_typed (env_of u)) funs"
        have same: "an_functions u = an_functions s" "edges_ok (an_functions u) (an_call_edges u)"
          using u by (auto simp: kept_between_def tables_of_def between_def bodies_ok_def)
        have graph: "calm (validate_call_graph (u\<lparr>an_current_function := None\<rparr>))"
          using validate_call_graph_cases [of "u\<lparr>an_current_function := None\<rparr>"] same(2) by auto
        have "main < length (an_functions s)"
          using m main by (auto simp: map_below_def)
        moreover have "list_all (type_ok (env_of u) \<circ> li_ty) (an_locals u)"
          using u by (simp add: kept_between_def between_def bodies_ok_def)
        moreover have "list_all (\<lambda>f. length (fs_param_shapes f) = length (fs_params f)) (an_functions s)"
          using s(1) by (auto simp: tables_ok_def Let_def list_all_iff symbol_ok_def)
        ultimately show "okres (program_typed p)
          (rbind (validate_call_graph (u\<lparr>an_current_function := None\<rparr>)) (\<lambda>_.
           Inr \<lparr>tp_functions = filter (\<lambda>f. tf_id f = main \<or> an_inline_candidates u (tf_id f) = None
                                    \<or> tf_id f \<in> set (concat (an_call_edges u))) funs,
             tp_function_names = map fs_name (an_functions u),
             tp_function_param_shapes = map fs_param_shapes (an_functions u),
             tp_function_return_shapes = map fs_return_shape (an_functions u),
             tp_main = main, tp_locals = an_locals u, tp_globals = an_globals u,
             tp_structs = an_structs u, tp_data_words = an_data_words u\<rparr>))"
          using m u same(1) reg by (intro calm_bind [OF graph])
            (auto simp: program_typed_def program_env_def env_of_def list_all_iff)
      qed
    qed
  qed
qed

end
