(* ===== verification/Parser.thy ===== *)
theory Parser
  imports Lexer Ast
begin

text \<open>
  The WarpC parser (\<open>tools/warpc/src/parser.rs\<close>), recursive descent over the token list. The
  source keeps all tokens and an index; the state here is the list from the index on. The
  lexer ends its list with the end-of-file token, and \<open>bump\<close> does not pass it, so the index
  stays in range: \<open>peek\<close> is never asked about an empty list (\<open>Parser_Correct\<close>).

  A parser function returns its value with the new state or an error. Functions of the
  source that call each other in a cycle are written as bodies over a parameter \<open>r\<close> for the
  calls that close the cycle, and the cycle is tied at the end of each section. There, and in
  the loops, a recursive call is made on a shorter list only; \<open>Inl OutOfFuel\<close> marks the other
  case, which is shown not to arise.
\<close>

section \<open>Tokens at hand\<close>

type_synonym pstate = "token list"
type_synonym 'a parser = "pstate \<Rightarrow> ('a \<times> pstate) cc"

definition eof_token :: token where
  "eof_token = \<lparr>t_kind = TEof, t_span = span_new 0 0 0\<rparr>"

definition peek :: "pstate \<Rightarrow> token" where
  "peek s = (case s of [] \<Rightarrow> eof_token | t # _ \<Rightarrow> t)"

text \<open>\<open>self.tokens.get(self.current + n)\<close>, its kind.\<close>

definition get_kind :: "pstate \<Rightarrow> nat \<Rightarrow> token_kind option" where
  "get_kind s n = (if n < length s then Some (t_kind (s ! n)) else None)"

definition same_kind :: "token_kind \<Rightarrow> token_kind \<Rightarrow> bool" where
  "same_kind k l \<longleftrightarrow> discriminant k = discriminant l"

definition at_kind :: "token_kind \<Rightarrow> pstate \<Rightarrow> bool" where
  "at_kind k s = same_kind (t_kind (peek s)) k"

text \<open>The state behind \<open>bump\<close>; the token it returns is \<open>peek\<close>.\<close>

definition bump :: "pstate \<Rightarrow> pstate" where
  "bump s = (case s of [] \<Rightarrow> [] | t # ts \<Rightarrow> if same_kind (t_kind t) TEof then s else ts)"

definition here :: "pstate \<Rightarrow> span" where
  "here s = t_span (peek s)"

definition parse_error :: "pstate \<Rightarrow> string \<Rightarrow> 'a cc" where
  "parse_error s message = diag (here s) message"

definition expect :: "token_kind \<Rightarrow> string \<Rightarrow> span parser" where
  "expect k message s = (if at_kind k s then Inr (here s, bump s) else parse_error s message)"

definition ident_of :: "token_kind \<Rightarrow> string option" where
  "ident_of k = (case k of TIdent n \<Rightarrow> Some n | _ \<Rightarrow> None)"

definition parse_identifier :: "string \<Rightarrow> (string \<times> span) parser" where
  "parse_identifier message s =
     (case ident_of (t_kind (peek s)) of
        Some n \<Rightarrow> Inr ((n, here s), bump s)
      | None \<Rightarrow> diag (here s) message)"

definition kind_starts_type :: "token_kind \<Rightarrow> bool" where
  "kind_starts_type k \<longleftrightarrow>
     same_kind k TUniform \<or> same_kind k TInt \<or> same_kind k TUnsigned \<or> same_kind k TCharKw
     \<or> same_kind k TVoid \<or> same_kind k TStruct"

definition starts_type :: "pstate \<Rightarrow> bool" where
  "starts_type s = kind_starts_type (t_kind (peek s))"

text \<open>A token other than the end of the file is passed.\<close>

lemma bump_shorter:
  assumes "s \<noteq> []" and "\<not> same_kind (t_kind (peek s)) TEof"
  shows "length (bump s) < length s"
  using assms by (cases s) (simp_all add: bump_def peek_def)

lemma at_kind_shorter:
  assumes "at_kind k s" and "\<not> same_kind k TEof"
  shows "length (bump s) < length s"
proof (rule bump_shorter)
  show "s \<noteq> []"
    using assms by (auto simp: at_kind_def peek_def eof_token_def same_kind_def)
  show "\<not> same_kind (t_kind (peek s)) TEof"
    using assms by (simp add: at_kind_def same_kind_def)
qed

text \<open>\<open>expected 'x' rest\<close>.\<close>

definition expected :: "string \<Rightarrow> string \<Rightarrow> string" where
  "expected x rest = ''expected '' @ quoted x @ rest"

section \<open>Loops\<close>

text \<open>\<open>while !stop { xs.push(p()?); }\<close>\<close>

function many :: "(pstate \<Rightarrow> bool) \<Rightarrow> 'a parser \<Rightarrow> 'a list parser" where
  "many stop p s =
     (if stop s then Inr ([], s)
      else rbind (p s) (\<lambda>(x, t).
        if length t < length s
        then rbind (many stop p t) (\<lambda>(xs, u). Inr (x # xs, u))
        else Inl OutOfFuel))"
  by pat_completeness auto
termination by (relation "measure (\<lambda>(stop, p, s). length s)") auto

declare many.simps [simp del]

text \<open>\<open>while !at(RParen) { xs.push(p()?); if !at(Comma) { break; } bump(); }\<close>\<close>

function comma_list :: "'a parser \<Rightarrow> 'a list parser" where
  "comma_list p s =
     (if at_kind TRParen s then Inr ([], s)
      else rbind (p s) (\<lambda>(x, t).
        if \<not> at_kind TComma t then Inr ([x], t)
        else if length (bump t) < length s
        then rbind (comma_list p (bump t)) (\<lambda>(xs, u). Inr (x # xs, u))
        else Inl OutOfFuel))"
  by pat_completeness auto
termination by (relation "measure (\<lambda>(p, s). length s)") auto

declare comma_list.simps [simp del]

text \<open>The loop of \<open>left_assoc\<close>, \<open>e\<close> being the expression so far.\<close>

definition find_op :: "(token_kind \<times> binary_op) list \<Rightarrow> pstate \<Rightarrow> binary_op option" where
  "find_op ops s = map_option snd (find (\<lambda>(k, _). at_kind k s) ops)"

function left_loop :: "expr parser \<Rightarrow> (token_kind \<times> binary_op) list \<Rightarrow> expr \<Rightarrow> expr parser" where
  "left_loop next_level ops e s =
     (case find_op ops s of
        None \<Rightarrow> Inr (e, s)
      | Some op \<Rightarrow>
          rbind (next_level (bump s)) (\<lambda>(right, t).
            if length t < length s
            then left_loop next_level ops (Expr (E_Binary op e right) (here s)) t
            else Inl OutOfFuel))"
  by pat_completeness auto
termination by (relation "measure (\<lambda>(next_level, ops, e, s). length s)") auto

declare left_loop.simps [simp del]

definition left_assoc :: "expr parser \<Rightarrow> (token_kind \<times> binary_op) list \<Rightarrow> expr parser" where
  "left_assoc next_level ops s = rbind (next_level s) (\<lambda>(e, t). left_loop next_level ops e t)"

section \<open>Types and declarators\<close>

definition type_name :: "type_name parser" where
  "type_name s =
     (let k = t_kind (peek s); t = bump s in
      if same_kind k TInt then Inr (TN_Int, t)
      else if same_kind k TUnsigned then
        Inr (TN_Unsigned, if at_kind TInt t then bump t else t)
      else if same_kind k TCharKw then Inr (TN_Char, t)
      else if same_kind k TVoid then Inr (TN_Void, t)
      else if same_kind k TStruct then
        rbind (parse_identifier ''expected structure name'' t) (\<lambda>((n, _), u). Inr (TN_Struct n, u))
      else diag (here s) ''expected Warp C type'')"

definition decl_spec :: "(bool \<times> type_name) parser" where
  "decl_spec s =
     (let uniform = at_kind TUniform s; t = (if uniform then bump s else s)
      in rbind (type_name t) (\<lambda>(base, u). Inr ((uniform, base), u)))"

text \<open>The stars in front of a declared name.\<close>

function stars :: "pstate \<Rightarrow> nat \<times> pstate" where
  "stars s =
     (if at_kind TStar s
      then let (n, t) = stars (bump s) in (n + 1, t)
      else (0, s))"
  by pat_completeness auto
termination by (relation "measure length") (auto intro!: at_kind_shorter simp: same_kind_def)

declare stars.simps [simp del]

definition declared_name :: "bool \<Rightarrow> string option parser" where
  "declared_name require_name s =
     (if ident_of (t_kind (peek s)) \<noteq> None
      then rbind (parse_identifier ''expected name'' s) (\<lambda>((n, _), t). Inr (Some n, t))
      else if require_name then parse_error s ''expected declaration name''
      else Inr (None, s))"

text \<open>The array length of a declarator; \<open>assignment\<close> is the parser of its expression.\<close>

definition array_suffix :: "expr parser \<Rightarrow> expr option option parser" where
  "array_suffix assignment s =
     (if at_kind TLBracket s then
        (let s = bump s in
         rbind (if at_kind TRBracket s then Inr (None, s)
                else rbind (assignment s) (\<lambda>(e, t). Inr (Some e, t))) (\<lambda>(length, t).
         rbind (expect TRBracket (expected '']'' '' after array size'') t) (\<lambda>(_, u).
           Inr (Some length, u))))
      else Inr (None, s))"

definition declarator :: "expr parser \<Rightarrow> bool \<Rightarrow> declarator parser" where
  "declarator assignment require_name s =
     (let sp = here s; (pointers, s) = stars s in
      rbind (declared_name require_name s) (\<lambda>(name, s).
      rbind (array_suffix assignment s) (\<lambda>(array_len, s).
        Inr (Declarator name pointers array_len sp, s))))"

text \<open>A specifier and a declarator, as they occur together.\<close>

definition decl_type :: "expr parser \<Rightarrow> bool \<Rightarrow> decl_type parser" where
  "decl_type assignment require_name s =
     rbind (decl_spec s) (\<lambda>((uniform, base), s).
     rbind (declarator assignment require_name s) (\<lambda>(d, s).
       Inr (DeclType uniform base d, s)))"

section \<open>Expressions\<close>

datatype expr_level = L_Expression | L_Assignment | L_Conditional | L_Unary

text \<open>The token kinds of the operators of one level, in the source's order.\<close>

definition logical_or_ops :: "(token_kind \<times> binary_op) list" where
  "logical_or_ops = [(TOrOr, B_LogicalOr)]"

definition logical_and_ops :: "(token_kind \<times> binary_op) list" where
  "logical_and_ops = [(TAndAnd, B_LogicalAnd)]"

definition bit_or_ops :: "(token_kind \<times> binary_op) list" where
  "bit_or_ops = [(TPipe, B_BitOr)]"

definition bit_xor_ops :: "(token_kind \<times> binary_op) list" where
  "bit_xor_ops = [(TCaret, B_BitXor)]"

definition bit_and_ops :: "(token_kind \<times> binary_op) list" where
  "bit_and_ops = [(TAmp, B_BitAnd)]"

definition equality_ops :: "(token_kind \<times> binary_op) list" where
  "equality_ops = [(TEqualEqual, B_Eq), (TBangEqual, B_Ne)]"

definition relational_ops :: "(token_kind \<times> binary_op) list" where
  "relational_ops = [(TLess, B_Lt), (TLessEqual, B_Le), (TGreater, B_Gt), (TGreaterEqual, B_Ge)]"

definition shift_ops :: "(token_kind \<times> binary_op) list" where
  "shift_ops = [(TShl, B_Shl), (TShr, B_Shr)]"

definition additive_ops :: "(token_kind \<times> binary_op) list" where
  "additive_ops = [(TPlus, B_Add), (TMinus, B_Sub)]"

definition multiplicative_ops :: "(token_kind \<times> binary_op) list" where
  "multiplicative_ops = [(TStar, B_Mul), (TSlash, B_Div), (TPercent, B_Mod)]"

definition primary :: "(expr_level \<Rightarrow> expr parser) \<Rightarrow> expr parser" where
  "primary r s =
     (let k = t_kind (peek s); sp = here s; t = bump s in
      if same_kind k TLParen then
        rbind (r L_Expression t) (\<lambda>(e, t).
        rbind (expect TRParen (expected '')'' '' after expression'') t) (\<lambda>(_, t). Inr (e, t)))
      else
        case k of
          TNumber v \<Rightarrow> Inr (Expr (E_Number v) sp, t)
        | TChar v \<Rightarrow> Inr (Expr (E_Char v) sp, t)
        | TString v \<Rightarrow> Inr (Expr (E_String v) sp, t)
        | TIdent v \<Rightarrow> Inr (Expr (E_Name v) sp, t)
        | _ \<Rightarrow> diag sp ''expected expression'')"

text \<open>One round of the loop of \<open>postfix\<close>: the longer expression, or \<open>None\<close> at its end.\<close>

definition callee_name :: "expr \<Rightarrow> string option" where
  "callee_name e = (case e_kind e of E_Name n \<Rightarrow> Some n | _ \<Rightarrow> None)"

definition postfix_op :: "pstate \<Rightarrow> unary_op option" where
  "postfix_op s =
     (if at_kind TPlusPlus s then Some U_PostInc
      else if at_kind TMinusMinus s then Some U_PostDec
      else None)"

definition postfix_step :: "(expr_level \<Rightarrow> expr parser) \<Rightarrow> expr \<Rightarrow> expr option parser" where
  "postfix_step r e s =
     (let sp = here s; t = bump s in
      if at_kind TLParen s then
        rbind (comma_list (r L_Assignment) t) (\<lambda>(args, t).
        rbind (expect TRParen (expected '')'' '' after arguments'') t) (\<lambda>(_, t).
          case callee_name e of
            None \<Rightarrow> diag (e_span e) ''call target must be a function name''
          | Some callee \<Rightarrow> Inr (Some (Expr (E_Call callee args) sp), t)))
      else if at_kind TLBracket s then
        rbind (r L_Expression t) (\<lambda>(index, t).
        rbind (expect TRBracket (expected '']'' '' after index'') t) (\<lambda>(_, t).
          Inr (Some (Expr (E_Index e index) sp), t)))
      else if at_kind TDot s \<or> at_kind TArrow s then
        rbind (parse_identifier ''expected member name'' t) (\<lambda>((field, _), t).
          Inr (Some (Expr (E_Member e field (at_kind TArrow s)) sp), t))
      else
        case postfix_op s of
          None \<Rightarrow> Inr (None, s)
        | Some op \<Rightarrow> Inr (Some (Expr (E_Unary op e) sp), t))"

function postfix_loop :: "(expr_level \<Rightarrow> expr parser) \<Rightarrow> expr \<Rightarrow> expr parser" where
  "postfix_loop r e s =
     rbind (postfix_step r e s) (\<lambda>(e', t).
       case e' of
         None \<Rightarrow> Inr (e, s)
       | Some e' \<Rightarrow> if length t < length s then postfix_loop r e' t else Inl OutOfFuel)"
  by pat_completeness auto
termination by (relation "measure (\<lambda>(r, e, s). length s)") auto

declare postfix_loop.simps [simp del]

definition postfix :: "(expr_level \<Rightarrow> expr parser) \<Rightarrow> expr parser" where
  "postfix r s = rbind (primary r s) (\<lambda>(e, t). postfix_loop r e t)"

definition unary_op_of :: "pstate \<Rightarrow> unary_op option" where
  "unary_op_of s =
     (if at_kind TPlus s then Some U_Plus
      else if at_kind TMinus s then Some U_Minus
      else if at_kind TTilde s then Some U_BitNot
      else if at_kind TBang s then Some U_LogicalNot
      else if at_kind TAmp s then Some U_AddressOf
      else if at_kind TStar s then Some U_Deref
      else if at_kind TPlusPlus s then Some U_PreInc
      else if at_kind TMinusMinus s then Some U_PreDec
      else None)"

definition sizeof_expression :: "(expr_level \<Rightarrow> expr parser) \<Rightarrow> expr parser" where
  "sizeof_expression r s =
     (let sp = here s; t = bump s in
      if at_kind TLParen t \<and> (case get_kind t 1 of None \<Rightarrow> False | Some k \<Rightarrow> kind_starts_type k)
      then
        rbind (decl_type (r L_Assignment) False (bump t)) (\<lambda>(ty, t).
        rbind (expect TRParen (expected '')'' '' after sizeof type'') t) (\<lambda>(_, t).
          Inr (Expr (E_SizeofType ty) sp, t)))
      else rbind (r L_Unary t) (\<lambda>(e, t). Inr (Expr (E_SizeofExpr e) sp, t)))"

definition unary :: "(expr_level \<Rightarrow> expr parser) \<Rightarrow> expr parser" where
  "unary r s =
     (if at_kind TSizeof s then sizeof_expression r s
      else
        case unary_op_of s of
          None \<Rightarrow> postfix r s
        | Some op \<Rightarrow> rbind (r L_Unary (bump s)) (\<lambda>(e, t). Inr (Expr (E_Unary op e) (here s), t)))"

definition multiplicative :: "(expr_level \<Rightarrow> expr parser) \<Rightarrow> expr parser" where
  "multiplicative r = left_assoc (unary r) multiplicative_ops"
definition additive :: "(expr_level \<Rightarrow> expr parser) \<Rightarrow> expr parser" where
  "additive r = left_assoc (multiplicative r) additive_ops"
definition shift :: "(expr_level \<Rightarrow> expr parser) \<Rightarrow> expr parser" where
  "shift r = left_assoc (additive r) shift_ops"
definition relational :: "(expr_level \<Rightarrow> expr parser) \<Rightarrow> expr parser" where
  "relational r = left_assoc (shift r) relational_ops"
definition equality :: "(expr_level \<Rightarrow> expr parser) \<Rightarrow> expr parser" where
  "equality r = left_assoc (relational r) equality_ops"
definition bit_and :: "(expr_level \<Rightarrow> expr parser) \<Rightarrow> expr parser" where
  "bit_and r = left_assoc (equality r) bit_and_ops"
definition bit_xor :: "(expr_level \<Rightarrow> expr parser) \<Rightarrow> expr parser" where
  "bit_xor r = left_assoc (bit_and r) bit_xor_ops"
definition bit_or :: "(expr_level \<Rightarrow> expr parser) \<Rightarrow> expr parser" where
  "bit_or r = left_assoc (bit_xor r) bit_or_ops"
definition logical_and :: "(expr_level \<Rightarrow> expr parser) \<Rightarrow> expr parser" where
  "logical_and r = left_assoc (bit_or r) logical_and_ops"
definition logical_or :: "(expr_level \<Rightarrow> expr parser) \<Rightarrow> expr parser" where
  "logical_or r = left_assoc (logical_and r) logical_or_ops"

definition conditional :: "(expr_level \<Rightarrow> expr parser) \<Rightarrow> expr parser" where
  "conditional r s =
     rbind (logical_or r s) (\<lambda>(condition, s).
       if \<not> at_kind TQuestion s then Inr (condition, s)
       else
         let sp = here s in
         rbind (r L_Expression (bump s)) (\<lambda>(then_expr, s).
         rbind (expect TColon (expected '':'' '' in conditional expression'') s) (\<lambda>(_, s).
         rbind (r L_Conditional s) (\<lambda>(else_expr, s).
           Inr (Expr (E_Conditional condition then_expr else_expr) sp, s)))))"

definition assign_ops :: "(token_kind \<times> assign_op) list" where
  "assign_ops =
     [(TEqual, A_Assign), (TPlusEqual, A_Add), (TMinusEqual, A_Sub), (TStarEqual, A_Mul),
      (TSlashEqual, A_Div), (TPercentEqual, A_Mod), (TShlEqual, A_Shl), (TShrEqual, A_Shr),
      (TAmpEqual, A_BitAnd), (TCaretEqual, A_BitXor), (TPipeEqual, A_BitOr)]"

definition assign_op_of :: "pstate \<Rightarrow> assign_op option" where
  "assign_op_of s = map_option snd (find (\<lambda>(k, _). at_kind k s) assign_ops)"

definition assignment :: "(expr_level \<Rightarrow> expr parser) \<Rightarrow> expr parser" where
  "assignment r s =
     rbind (conditional r s) (\<lambda>(left, s).
       case assign_op_of s of
         None \<Rightarrow> Inr (left, s)
       | Some op \<Rightarrow>
           rbind (r L_Assignment (bump s)) (\<lambda>(right, t).
             Inr (Expr (E_Assign op left right) (here s), t)))"

definition comma_ops :: "(token_kind \<times> binary_op) list" where
  "comma_ops = [(TComma, B_Comma)]"

definition expression :: "(expr_level \<Rightarrow> expr parser) \<Rightarrow> expr parser" where
  "expression r = left_assoc (assignment r) comma_ops"

text \<open>The cycle: the levels that other levels call back, on shorter lists.\<close>

definition level_body :: "(expr_level \<Rightarrow> expr parser) \<Rightarrow> expr_level \<Rightarrow> expr parser" where
  "level_body r l =
     (case l of
        L_Expression \<Rightarrow> expression r
      | L_Assignment \<Rightarrow> assignment r
      | L_Conditional \<Rightarrow> conditional r
      | L_Unary \<Rightarrow> unary r)"

function parse_level :: "expr_level \<Rightarrow> expr parser" where
  "parse_level l s =
     level_body (\<lambda>l' t. if length t < length s then parse_level l' t else Inl OutOfFuel) l s"
  by pat_completeness auto
termination by (relation "measure (\<lambda>(l, s). length s)") auto

declare parse_level.simps [simp del]

text \<open>The two expression parsers that statements and declarations use.\<close>

definition parse_expression :: "expr parser" where
  "parse_expression s = parse_level L_Expression s"

definition parse_assignment :: "expr parser" where
  "parse_assignment s = parse_level L_Assignment s"

section \<open>Statements\<close>

definition semicolon :: "string \<Rightarrow> span parser" where
  "semicolon rest = expect TSemicolon (expected '';'' rest)"

text \<open>An expression unless the given token is at hand.\<close>

definition optional_expression :: "token_kind \<Rightarrow> expr option parser" where
  "optional_expression k s =
     (if at_kind k s then Inr (None, s)
      else rbind (parse_expression s) (\<lambda>(e, t). Inr (Some e, t)))"

text \<open>\<open>= assignment\<close>, if there is an equals sign.\<close>

definition initializer :: "expr option parser" where
  "initializer s =
     (if at_kind TEqual s
      then rbind (parse_assignment (bump s)) (\<lambda>(e, t). Inr (Some e, t))
      else Inr (None, s))"

definition parse_decl_type :: "bool \<Rightarrow> decl_type parser" where
  "parse_decl_type require_name = decl_type parse_assignment require_name"

definition parse_declaration :: "stmt parser" where
  "parse_declaration s =
     (let sp = here s in
      rbind (parse_decl_type True s) (\<lambda>(ty, s).
      rbind (initializer s) (\<lambda>(init, s).
      rbind (semicolon '' after declaration'' s) (\<lambda>(_, s).
        Inr (S_Decl ty init sp, s)))))"

definition parenthesized_condition :: "string \<Rightarrow> expr parser" where
  "parenthesized_condition keyw s =
     rbind (expect TLParen (expected ''('' ('' after '' @ keyw)) s) (\<lambda>(_, s).
     rbind (parse_expression s) (\<lambda>(e, s).
     rbind (expect TRParen (expected '')'' '' after condition'') s) (\<lambda>(_, s). Inr (e, s))))"

text \<open>The statement forms, over the parser \<open>r\<close> of the statements inside them.\<close>

definition if_statement :: "stmt parser \<Rightarrow> stmt parser" where
  "if_statement r s =
     (let sp = here s in
      rbind (parenthesized_condition ''if'' (bump s)) (\<lambda>(condition, s).
      rbind (r s) (\<lambda>(then_branch, s).
      rbind (if at_kind TElse s then rbind (r (bump s)) (\<lambda>(b, s). Inr (Some b, s))
             else Inr (None, s)) (\<lambda>(else_branch, s).
        Inr (S_If condition then_branch else_branch sp, s)))))"

definition while_statement :: "stmt parser \<Rightarrow> stmt parser" where
  "while_statement r s =
     (let sp = here s in
      rbind (parenthesized_condition ''while'' (bump s)) (\<lambda>(condition, s).
      rbind (r s) (\<lambda>(body, s). Inr (S_While condition body sp, s))))"

definition do_while_statement :: "stmt parser \<Rightarrow> stmt parser" where
  "do_while_statement r s =
     (let sp = here s in
      rbind (r (bump s)) (\<lambda>(body, s).
      rbind (expect TWhile (expected ''while'' '' after do body'') s) (\<lambda>(_, s).
      rbind (parenthesized_condition ''while'' s) (\<lambda>(condition, s).
      rbind (semicolon '' after do/while'' s) (\<lambda>(_, s).
        Inr (S_DoWhile body condition sp, s))))))"

definition for_initializer :: "for_init option parser" where
  "for_initializer s =
     (if at_kind TSemicolon s then Inr (None, bump s)
      else if starts_type s then
        (let sp = here s in
         rbind (parse_decl_type True s) (\<lambda>(ty, s).
         rbind (initializer s) (\<lambda>(init, s).
         rbind (semicolon '' after for initializer'' s) (\<lambda>(_, s).
           Inr (Some (F_Decl ty init sp), s)))))
      else
        rbind (parse_expression s) (\<lambda>(e, s).
        rbind (semicolon '' after for initializer'' s) (\<lambda>(_, s). Inr (Some (F_Expr e), s))))"

definition for_statement :: "stmt parser \<Rightarrow> stmt parser" where
  "for_statement r s =
     (let sp = here s in
      rbind (expect TLParen (expected ''('' '' after for'') (bump s)) (\<lambda>(_, s).
      rbind (for_initializer s) (\<lambda>(init, s).
      rbind (optional_expression TSemicolon s) (\<lambda>(condition, s).
      rbind (semicolon '' after for condition'' s) (\<lambda>(_, s).
      rbind (optional_expression TRParen s) (\<lambda>(step, s).
      rbind (expect TRParen (expected '')'' '' after for clauses'') s) (\<lambda>(_, s).
      rbind (r s) (\<lambda>(body, s).
        Inr (S_For init condition step body sp, s)))))))))"

definition switch_statement :: "stmt parser \<Rightarrow> stmt parser" where
  "switch_statement r s =
     (let sp = here s in
      rbind (parenthesized_condition ''switch'' (bump s)) (\<lambda>(e, s).
      rbind (r s) (\<lambda>(body, s). Inr (S_Switch e body sp, s))))"

text \<open>\<open>break;\<close> and \<open>continue;\<close>, \<open>case\<close> and \<open>default\<close> labels, \<open>return\<close> and expressions.\<close>

definition jump_statement :: "stmt parser" where
  "jump_statement s =
     rbind (semicolon '' after jump statement'' (bump s)) (\<lambda>(_, t).
       Inr (if at_kind TBreak s then S_Break (here s) else S_Continue (here s), t))"

definition case_statement :: "stmt parser \<Rightarrow> stmt parser" where
  "case_statement r s =
     (let sp = here s in
      rbind (parse_expression (bump s)) (\<lambda>(e, s).
      rbind (expect TColon (expected '':'' '' after case value'') s) (\<lambda>(_, s).
      rbind (r s) (\<lambda>(body, s). Inr (S_Case e body sp, s)))))"

definition default_statement :: "stmt parser \<Rightarrow> stmt parser" where
  "default_statement r s =
     (let sp = here s in
      rbind (expect TColon (expected '':'' '' after default'') (bump s)) (\<lambda>(_, s).
      rbind (r s) (\<lambda>(body, s). Inr (S_Default body sp, s))))"

definition return_statement :: "stmt parser" where
  "return_statement s =
     (let sp = here s in
      rbind (optional_expression TSemicolon (bump s)) (\<lambda>(e, s).
      rbind (semicolon '' after return'' s) (\<lambda>(_, s). Inr (S_Return e sp, s))))"

definition expression_statement :: "stmt parser" where
  "expression_statement s =
     (let sp = here s in
      rbind (optional_expression TSemicolon s) (\<lambda>(e, s).
      rbind (semicolon '' after expression'' s) (\<lambda>(_, s). Inr (S_Expr e sp, s))))"

text \<open>A block: the items up to the closing brace, and an error at the end of the file.\<close>

definition block_item :: "stmt parser \<Rightarrow> span \<Rightarrow> stmt parser" where
  "block_item r start s =
     (if at_kind TEof s then diag start ''unterminated block''
      else if starts_type s then parse_declaration s
      else r s)"

definition block :: "stmt parser \<Rightarrow> block parser" where
  "block r s =
     rbind (expect TLBrace (expected ''{'' []) s) (\<lambda>(sp, s).
     rbind (many (at_kind TRBrace) (block_item r sp) s) (\<lambda>(statements, s).
       Inr (Block statements sp, bump s)))"

definition statement_body :: "stmt parser \<Rightarrow> stmt parser" where
  "statement_body r s =
     (if at_kind TIf s then if_statement r s
      else if at_kind TWhile s then while_statement r s
      else if at_kind TDo s then do_while_statement r s
      else if at_kind TFor s then for_statement r s
      else if at_kind TBreak s \<or> at_kind TContinue s then jump_statement s
      else if at_kind TSwitch s then switch_statement r s
      else if at_kind TCase s then case_statement r s
      else if at_kind TDefault s then default_statement r s
      else if at_kind TReturn s then return_statement s
      else if at_kind TLBrace s then rbind (block r s) (\<lambda>(b, t). Inr (S_Block b, t))
      else expression_statement s)"

function statement :: "stmt parser" where
  "statement s =
     statement_body (\<lambda>t. if length t < length s then statement t else Inl OutOfFuel) s"
  by pat_completeness auto
termination by (relation "measure length") auto

declare statement.simps [simp del]

definition parse_block :: "block parser" where
  "parse_block = block statement"

section \<open>Declarations\<close>

definition is_struct_definition :: "pstate \<Rightarrow> bool" where
  "is_struct_definition s \<longleftrightarrow>
     at_kind TStruct s
     \<and> (case get_kind s 1 of None \<Rightarrow> False | Some k \<Rightarrow> ident_of k \<noteq> None)
     \<and> (case get_kind s 2 of None \<Rightarrow> False | Some k \<Rightarrow> same_kind k TLBrace)"

definition struct_field :: "field_decl parser" where
  "struct_field s =
     (let sp = here s in
      rbind (parse_decl_type True s) (\<lambda>(ty, s).
      rbind (semicolon '' after structure field'' s) (\<lambda>(_, s).
        Inr (\<lparr>fd_ty = ty, fd_span = sp\<rparr>, s))))"

definition struct_definition :: "struct_decl parser" where
  "struct_definition s =
     (let sp = here s in
      rbind (parse_identifier ''expected structure name'' (bump s)) (\<lambda>((n, _), s).
      rbind (expect TLBrace (expected ''{'' '' after structure name'') s) (\<lambda>(_, s).
      rbind (many (at_kind TRBrace) struct_field s) (\<lambda>(fields, s).
      rbind (semicolon '' after structure definition'' (bump s)) (\<lambda>(_, s).
        Inr (\<lparr>sd_name = n, sd_fields = fields, sd_span = sp\<rparr>, s))))))"

definition parse_parameter :: "parameter parser" where
  "parse_parameter s =
     (let sp = here s in
      rbind (parse_decl_type False s) (\<lambda>(ty, s). Inr (\<lparr>p_ty = ty, p_span = sp\<rparr>, s)))"

definition parameter_list :: "parameter list parser" where
  "parameter_list s =
     (if at_kind TVoid s
         \<and> (case get_kind s 1 of None \<Rightarrow> False | Some k \<Rightarrow> same_kind k TRParen)
      then Inr ([], bump s)
      else comma_list parse_parameter s)"

definition parse_function :: "bool \<Rightarrow> type_name \<Rightarrow> declarator \<Rightarrow> string \<Rightarrow> function_decl parser" where
  "parse_function uniform base decl name s =
     (let sp = dc_span decl in
      rbind (parameter_list (bump s)) (\<lambda>(params, s).
      rbind (expect TRParen (expected '')'' '' after parameter list'') s) (\<lambda>(_, s).
      rbind (if at_kind TSemicolon s then Inr (None, bump s)
             else rbind (parse_block s) (\<lambda>(b, s). Inr (Some b, s))) (\<lambda>(body, s).
        Inr (\<lparr>f_return_type = DeclType uniform base (Declarator None (dc_pointers decl) None sp),
              f_name = name, f_params = params, f_body = body, f_span = sp\<rparr>, s)))))"

datatype top_level =
    Top_Struct struct_decl
  | Top_Function function_decl
  | Top_Global global

text \<open>One declaration of a file. The declarator has a name, since one was required; the
  source's other branch is \<open>unreachable!()\<close>.\<close>

definition top_declaration :: "top_level parser" where
  "top_declaration s =
     (if is_struct_definition s
      then rbind (struct_definition s) (\<lambda>(d, s). Inr (Top_Struct d, s))
      else
        rbind (decl_spec s) (\<lambda>((uniform, base), s).
        rbind (declarator parse_assignment True s) (\<lambda>(decl, s).
          case dc_name decl of
            None \<Rightarrow> Inl (CPanic ''internal error: entered unreachable code'')
          | Some name \<Rightarrow>
              if at_kind TLParen s \<and> dc_array_len decl = None
              then rbind (parse_function uniform base decl name s) (\<lambda>(f, s). Inr (Top_Function f, s))
              else
                rbind (initializer s) (\<lambda>(init, s).
                rbind (semicolon '' after global declaration'' s) (\<lambda>(_, s).
                  Inr (Top_Global \<lparr>g_ty = DeclType uniform base decl, g_init = init,
                                   g_span = dc_span decl\<rparr>, s))))))"

definition tops_structs :: "top_level list \<Rightarrow> struct_decl list" where
  "tops_structs ts = concat (map (\<lambda>t. case t of Top_Struct d \<Rightarrow> [d] | _ \<Rightarrow> []) ts)"

definition tops_globals :: "top_level list \<Rightarrow> global list" where
  "tops_globals ts = concat (map (\<lambda>t. case t of Top_Global g \<Rightarrow> [g] | _ \<Rightarrow> []) ts)"

definition tops_functions :: "top_level list \<Rightarrow> function_decl list" where
  "tops_functions ts = concat (map (\<lambda>t. case t of Top_Function f \<Rightarrow> [f] | _ \<Rightarrow> []) ts)"

definition parse_program :: "program parser" where
  "parse_program s =
     rbind (many (at_kind TEof) top_declaration s) (\<lambda>(tops, s).
       if tops_functions tops = [] then parse_error s ''expected a function declaration''
       else Inr (\<lparr>pr_structs = tops_structs tops, pr_globals = tops_globals tops,
                  pr_functions = tops_functions tops\<rparr>, s))"

text \<open>The entry point. Reading behind the last token panics; a list with an end-of-file token
  is never read behind it, and a list without one is not accepted.\<close>

definition parse_tokens :: "token list \<Rightarrow> program cc" where
  "parse_tokens tokens =
     (if \<exists>t\<in>set tokens. same_kind (t_kind t) TEof
      then rbind (parse_program tokens) (\<lambda>(p, _). Inr p)
      else Inl (CPanic ''index out of bounds''))"

end
