(* ===== verification/Parser_Correct.thy ===== *)
theory Parser_Correct
  imports Parser
begin

text \<open>
  The parser terminates with a program or a diagnostic, its cycles can be unfolded as the
  source writes them, and it never passes the end-of-file token.

  \<open>good_lt s a b\<close>: the results \<open>a\<close> and \<open>b\<close> of two runs from the state \<open>s\<close> are the same, a
  diagnostic or a value with a state behind at least one token; \<open>good_le\<close> allows none. Running
  a body with two versions of its recursive calls, the guarded one of the definition and the
  plain one of the source, shows both totality and that the guards never fire. The locales
  state what the recursive calls must satisfy.
\<close>

section \<open>Passing tokens\<close>

definition is_eof :: "token \<Rightarrow> bool" where
  "is_eof t \<longleftrightarrow> same_kind (t_kind t) TEof"

definition passes :: "pstate \<Rightarrow> pstate \<Rightarrow> bool" where
  "passes s t \<longleftrightarrow> (\<exists>ts. s = ts @ t \<and> (\<forall>x\<in>set ts. \<not> is_eof x))"

lemma passes_refl [simp]: "passes s s"
  by (simp add: passes_def)

lemma passes_trans: "passes s t \<Longrightarrow> passes t u \<Longrightarrow> passes s u"
  by (auto simp: passes_def)

lemma passes_length: "passes s t \<Longrightarrow> length t \<le> length s"
  by (auto simp: passes_def)

lemma passes_bump [simp]: "passes s (bump s)"
  by (cases s) (auto simp: passes_def bump_def is_eof_def)

definition has_eof :: "pstate \<Rightarrow> bool" where
  "has_eof s \<longleftrightarrow> (\<exists>t\<in>set s. is_eof t)"

lemma passes_has_eof: "passes s t \<Longrightarrow> has_eof s \<Longrightarrow> has_eof t"
  by (auto simp: passes_def has_eof_def)

definition good_le :: "pstate \<Rightarrow> ('a \<times> pstate) cc \<Rightarrow> ('a \<times> pstate) cc \<Rightarrow> bool" where
  "good_le s a b \<longleftrightarrow> a = b \<and> diagnoses a \<and> (\<forall>x t. a = Inr (x, t) \<longrightarrow> passes s t)"

definition good_lt :: "pstate \<Rightarrow> ('a \<times> pstate) cc \<Rightarrow> ('a \<times> pstate) cc \<Rightarrow> bool" where
  "good_lt s a b \<longleftrightarrow> a = b \<and> diagnoses a
     \<and> (\<forall>x t. a = Inr (x, t) \<longrightarrow> passes s t \<and> length t < length s)"

lemma good_lt_le: "good_lt s a b \<Longrightarrow> good_le s a b"
  by (auto simp: good_lt_def good_le_def)

lemma good_eq: "good_lt s a b \<Longrightarrow> a = b" "good_le s a b \<Longrightarrow> a = b"
  by (simp_all add: good_lt_def good_le_def)

lemma good_diag [simp]: "good_le s (diag sp m) (diag sp m)" "good_lt s (diag sp m) (diag sp m)"
  by (simp_all add: good_le_def good_lt_def)

lemma good_Inr: "passes s t \<Longrightarrow> good_le s (Inr (x, t)) (Inr (x, t))"
  "passes s t \<Longrightarrow> length t < length s \<Longrightarrow> good_lt s (Inr (x, t)) (Inr (x, t))"
  by (simp_all add: good_le_def good_lt_def)

lemma good_le_rbind:
  assumes "good_le s a a'"
    and "\<And>x t. passes s t \<Longrightarrow> length t \<le> length s \<Longrightarrow> good_le t (f (x, t)) (f' (x, t))"
  shows "good_le s (rbind a f) (rbind a' f')"
proof (cases a)
  case (Inl e)
  with assms(1) show ?thesis by (auto simp: good_le_def diagnoses_def)
next
  case (Inr y)
  obtain x t where y: "y = (x, t)" by (cases y)
  with assms(1) Inr have p: "passes s t" "a' = Inr (x, t)" by (auto simp: good_le_def)
  with assms(2) [OF p(1) passes_length [OF p(1)], of x] Inr y show ?thesis
    by (auto simp: good_le_def intro: passes_trans)
qed

lemma good_lt_rbind1:
  assumes "good_lt s a a'"
    and "\<And>x t. passes s t \<Longrightarrow> length t < length s \<Longrightarrow> good_le t (f (x, t)) (f' (x, t))"
  shows "good_lt s (rbind a f) (rbind a' f')"
proof (cases a)
  case (Inl e)
  with assms(1) show ?thesis by (auto simp: good_lt_def diagnoses_def)
next
  case (Inr y)
  obtain x t where y: "y = (x, t)" by (cases y)
  with assms(1) Inr have p: "passes s t" "length t < length s" "a' = Inr (x, t)"
    by (auto simp: good_lt_def)
  have "length u < length s" if "passes t u" for u
    using passes_length [OF that] p(2) by simp
  with assms(2) [OF p(1,2), of x] Inr y p show ?thesis
    by (auto simp: good_lt_def good_le_def intro: passes_trans)
qed

lemma good_lt_rbind2:
  assumes "good_le s a a'"
    and "\<And>x t. passes s t \<Longrightarrow> length t \<le> length s \<Longrightarrow> good_lt t (f (x, t)) (f' (x, t))"
  shows "good_lt s (rbind a f) (rbind a' f')"
proof (cases a)
  case (Inl e)
  with assms(1) show ?thesis by (auto simp: good_le_def good_lt_def diagnoses_def)
next
  case (Inr y)
  obtain x t where y: "y = (x, t)" by (cases y)
  with assms(1) Inr have p: "passes s t" "a' = Inr (x, t)" by (auto simp: good_le_def)
  with assms(2) [OF p(1) passes_length [OF p(1)], of x] Inr y show ?thesis
    by (auto simp: good_lt_def intro: passes_trans dest: passes_length)
qed

lemma good_if:
  "(c \<Longrightarrow> good_le s a a') \<Longrightarrow> (\<not> c \<Longrightarrow> good_le s b b') \<Longrightarrow>
   good_le s (if c then a else b) (if c then a' else b')"
  "(c \<Longrightarrow> good_lt s a a') \<Longrightarrow> (\<not> c \<Longrightarrow> good_lt s b b') \<Longrightarrow>
   good_lt s (if c then a else b) (if c then a' else b')"
  by simp_all

text \<open>A step over the token at hand: what follows may pass less.\<close>

lemma good_bump:
  assumes "good_le (bump s) a b" and "length (bump s) < length s"
  shows "good_lt s a b"
proof -
  have "length t < length s" if "passes (bump s) t" for t
    using passes_length [OF that] assms(2) by simp
  with assms(1) show ?thesis
    by (auto simp: good_le_def good_lt_def intro: passes_trans [OF passes_bump])
qed

section \<open>Token primitives\<close>

lemma at_shorter:
  "at_kind k s \<Longrightarrow> discriminant k \<noteq> discriminant TEof \<Longrightarrow> length (bump s) < length s"
  by (rule at_kind_shorter) (simp_all add: same_kind_def)

lemma good_expect:
  assumes "discriminant k \<noteq> discriminant TEof"
  shows "good_lt s (expect k m s) (expect k m s)"
  using at_shorter [OF _ assms] by (auto simp: expect_def parse_error_def intro: good_Inr)

lemma ident_shorter:
  assumes "ident_of (t_kind (peek s)) \<noteq> None"
  shows "length (bump s) < length s"
proof (rule bump_shorter)
  show "s \<noteq> []" using assms by (auto simp: peek_def eof_token_def ident_of_def)
  show "\<not> same_kind (t_kind (peek s)) TEof"
    using assms by (cases "t_kind (peek s)") (auto simp: ident_of_def same_kind_def)
qed

lemma good_identifier: "good_lt s (parse_identifier m s) (parse_identifier m s)"
  using ident_shorter [of s] by (auto simp: parse_identifier_def intro: good_Inr split: option.split)

lemma good_semicolon: "good_lt s (semicolon m s) (semicolon m s)"
  unfolding semicolon_def by (rule good_expect) simp

section \<open>Loops\<close>

lemma good_many:
  assumes "\<And>t. passes s t \<Longrightarrow> length t \<le> length s \<Longrightarrow> good_lt t (p t) (p' t)"
  shows "good_le s (many stop p s) (many stop p' s)"
  using assms
proof (induction "length s" arbitrary: s rule: less_induct)
  case less
  have step: "good_le t (if length t < length s then rbind (many stop p t) (\<lambda>(xs, u). Inr (x # xs, u))
        else Inl OutOfFuel)
      (if length t < length s then rbind (many stop p' t) (\<lambda>(xs, u). Inr (x # xs, u))
        else Inl OutOfFuel)"
    if t: "passes s t" "length t < length s" for x t
  proof -
    have "good_le t (many stop p t) (many stop p' t)"
      using t by (intro less.hyps less.prems) (auto intro: passes_trans)
    then have "good_le t (rbind (many stop p t) (\<lambda>(xs, u). Inr (x # xs, u)))
      (rbind (many stop p' t) (\<lambda>(xs, u). Inr (x # xs, u)))"
      by (rule good_le_rbind) (simp add: good_Inr)
    with t(2) show ?thesis by simp
  qed
  show ?case
  proof (cases "stop s")
    case True
    then show ?thesis by (subst (1 2) many.simps) (simp add: good_Inr)
  next
    case False
    have "good_lt s (p s) (p' s)" using less.prems by simp
    then have "good_lt s (rbind (p s) (\<lambda>(x, t). if length t < length s
          then rbind (many stop p t) (\<lambda>(xs, u). Inr (x # xs, u)) else Inl OutOfFuel))
        (rbind (p' s) (\<lambda>(x, t). if length t < length s
          then rbind (many stop p' t) (\<lambda>(xs, u). Inr (x # xs, u)) else Inl OutOfFuel))"
      by (rule good_lt_rbind1) (use step in simp)
    with False show ?thesis
      by (subst (1 2) many.simps) (simp add: good_lt_le)
  qed
qed

lemma good_comma_list:
  assumes "\<And>t. passes s t \<Longrightarrow> length t \<le> length s \<Longrightarrow> good_lt t (p t) (p' t)"
  shows "good_le s (comma_list p s) (comma_list p' s)"
  using assms
proof (induction "length s" arbitrary: s rule: less_induct)
  case less
  let ?k = "\<lambda>p. \<lambda>(x, t). if \<not> at_kind TComma t then Inr ([x], t)
        else if length (bump t) < length s
        then rbind (comma_list p (bump t)) (\<lambda>(xs, u). Inr (x # xs, u))
        else Inl OutOfFuel"
  have step: "good_le t (?k p (x, t)) (?k p' (x, t))"
    if t: "passes s t" "length t < length s" for x t
  proof -
    have "passes s (bump t)" "length (bump t) < length s"
      using t passes_length [OF passes_bump, of t] by (auto intro: passes_trans)
    then have "good_le (bump t) (comma_list p (bump t)) (comma_list p' (bump t))"
      by (intro less.hyps less.prems) (auto intro: passes_trans)
    then have "good_le t (comma_list p (bump t)) (comma_list p' (bump t))"
      by (auto simp: good_le_def intro: passes_trans [OF passes_bump])
    then have "good_le t (rbind (comma_list p (bump t)) (\<lambda>(xs, u). Inr (x # xs, u)))
      (rbind (comma_list p' (bump t)) (\<lambda>(xs, u). Inr (x # xs, u)))"
      by (rule good_le_rbind) (simp add: good_Inr)
    with \<open>length (bump t) < length s\<close> show ?thesis by (simp add: good_Inr)
  qed
  show ?case
  proof (cases "at_kind TRParen s")
    case True
    then show ?thesis by (subst (1 2) comma_list.simps) (simp add: good_Inr)
  next
    case False
    have "good_lt s (p s) (p' s)" using less.prems by simp
    then have "good_lt s (rbind (p s) (?k p)) (rbind (p' s) (?k p'))"
      by (rule good_lt_rbind1) (use step in blast)
    with False show ?thesis
      by (subst (1 2) comma_list.simps) (simp add: good_lt_le)
  qed
qed

lemma find_op_shorter:
  assumes "find_op ops s = Some op" and "\<forall>k\<in>set ops. discriminant (fst k) \<noteq> discriminant TEof"
  shows "length (bump s) < length s"
proof -
  obtain k where "find (\<lambda>(k, _). at_kind k s) ops = Some k"
    using assms(1) by (auto simp: find_op_def)
  then have "at_kind (fst k) s" "k \<in> set ops"
    by (auto simp: find_Some_iff case_prod_beta)
  with assms(2) show ?thesis by (auto intro: at_shorter)
qed

text \<open>\<open>good_upto n p p'\<close>: the two parsers agree and pass a token on every state of length at
  most \<open>n\<close>.\<close>

definition good_upto :: "nat \<Rightarrow> 'a parser \<Rightarrow> 'a parser \<Rightarrow> bool" where
  "good_upto n p p' \<longleftrightarrow> (\<forall>s. length s \<le> n \<longrightarrow> good_lt s (p s) (p' s))"

lemma good_uptoI: "(\<And>s. length s \<le> n \<Longrightarrow> good_lt s (p s) (p' s)) \<Longrightarrow> good_upto n p p'"
  by (simp add: good_upto_def)

lemma good_uptoD: "good_upto n p p' \<Longrightarrow> length s \<le> n \<Longrightarrow> good_lt s (p s) (p' s)"
  by (simp add: good_upto_def)

lemma good_left_loop:
  assumes p: "good_upto n p p'" and ops: "\<forall>k\<in>set ops. discriminant (fst k) \<noteq> discriminant TEof"
  shows "length s \<le> n \<Longrightarrow> good_le s (left_loop p ops e s) (left_loop p' ops e s)"
proof (induction "length s" arbitrary: s e rule: less_induct)
  case less
  show ?case
  proof (cases "find_op ops s")
    case None
    then show ?thesis by (subst (1 2) left_loop.simps) (simp add: good_Inr)
  next
    case (Some op)
    have shorter: "length (bump s) < length s" by (rule find_op_shorter [OF Some ops])
    let ?k = "\<lambda>p. \<lambda>(right, t). if length t < length s
      then left_loop p ops (Expr (E_Binary op e right) (here s)) t else Inl OutOfFuel"
    have "good_le t (?k p (x, t)) (?k p' (x, t))" if "length t < length (bump s)" for x t
      using that shorter less.prems by (auto intro: less.hyps)
    then have "good_lt (bump s) (rbind (p (bump s)) (?k p)) (rbind (p' (bump s)) (?k p'))"
      using shorter less.prems by (intro good_lt_rbind1 good_uptoD [OF p]) auto
    then have "good_lt s (rbind (p (bump s)) (?k p)) (rbind (p' (bump s)) (?k p'))"
      by (rule good_bump [OF good_lt_le shorter])
    with Some show ?thesis by (subst (1 2) left_loop.simps) (simp add: good_lt_le)
  qed
qed

lemma good_left_assoc:
  assumes p: "good_upto n p p'" and ops: "\<forall>k\<in>set ops. discriminant (fst k) \<noteq> discriminant TEof"
  shows "good_upto n (left_assoc p ops) (left_assoc p' ops)"
  unfolding left_assoc_def
  by (rule good_uptoI, rule good_lt_rbind1, rule good_uptoD [OF p])
    (auto intro: good_left_loop [OF p ops])

lemma good_many_upto:
  assumes "good_upto n p p'" and "length s \<le> n"
  shows "good_le s (many stop p s) (many stop p' s)"
  by (rule good_many) (use assms in \<open>auto intro: good_uptoD\<close>)

lemma good_comma_upto:
  assumes "good_upto n p p'" and "length s \<le> n"
  shows "good_le s (comma_list p s) (comma_list p' s)"
  by (rule good_comma_list) (use assms in \<open>auto intro: good_uptoD\<close>)

section \<open>Types and declarators\<close>

lemma good_le_bump: "good_le (bump s) a b \<Longrightarrow> good_le s a b"
  by (auto simp: good_le_def intro: passes_trans [OF passes_bump])

lemma good_le_lt: "good_lt (bump s) a b \<Longrightarrow> good_lt s a b"
  using passes_length [OF passes_bump, of s]
  by (auto simp: good_lt_def intro: passes_trans [OF passes_bump])

lemma bump_length: "length (bump s) \<le> length s"
  by (rule passes_length) simp

lemma good_type_name: "good_lt s (type_name s) (type_name s)"
proof -
  have int: "length (if at_kind TInt (bump s) then bump (bump s) else bump s) < length s"
    if "length (bump s) < length s"
    using that bump_length [of "bump s"] by simp
  have shorter: "length (bump s) < length s"
    if "same_kind (t_kind (peek s)) k" "discriminant k \<noteq> discriminant TEof" for k
    using at_shorter [of k s] that by (simp add: at_kind_def)
  have struct: "good_lt s
      (rbind (parse_identifier m (bump s)) (\<lambda>((n, _), u). Inr (TN_Struct n, u)))
      (rbind (parse_identifier m (bump s)) (\<lambda>((n, _), u). Inr (TN_Struct n, u)))" for m
    by (rule good_le_lt, rule good_lt_rbind1 [OF good_identifier]) (auto intro: good_Inr)
  have "passes s (bump (bump s))" by (rule passes_trans [OF passes_bump]) simp
  with shorter int struct show ?thesis
    unfolding type_name_def Let_def by (intro good_if) (auto intro!: good_Inr)
qed

lemma good_decl_spec: "good_lt s (decl_spec s) (decl_spec s)"
proof -
  have "good_lt t (rbind (type_name t) (\<lambda>(base, u). Inr ((b, base), u)))
    (rbind (type_name t) (\<lambda>(base, u). Inr ((b, base), u)))" for b t
    by (rule good_lt_rbind1 [OF good_type_name]) (auto intro: good_Inr)
  from this [of s False] good_le_lt [OF this [of "bump s" True]] show ?thesis
    by (simp add: decl_spec_def Let_def)
qed

lemma passes_stars: "stars s = (n, t) \<Longrightarrow> passes s t"
proof (induction s arbitrary: n t rule: stars.induct)
  case (1 s)
  then show ?case
    by (subst (asm) (2) stars.simps)
      (auto split: if_splits prod.splits intro: passes_trans [OF passes_bump])
qed

lemma good_declared_name: "good_le s (declared_name b s) (declared_name b s)"
proof -
  have "good_lt s (rbind (parse_identifier m s) (\<lambda>((n, _), t). Inr (Some n, t)))
    (rbind (parse_identifier m s) (\<lambda>((n, _), t). Inr (Some n, t)))" for m
    by (rule good_lt_rbind1 [OF good_identifier]) (auto intro: good_Inr)
  then show ?thesis
    by (auto simp: declared_name_def parse_error_def intro: good_lt_le good_Inr)
qed

lemma declared_name_Some: "declared_name True s = Inr (x, t) \<Longrightarrow> x \<noteq> None"
  by (auto simp: declared_name_def parse_error_def diag_def res_simps split: if_splits)

lemma good_le_passes: "passes s t \<Longrightarrow> good_le t a b \<Longrightarrow> good_le s a b"
  by (auto simp: good_le_def intro: passes_trans)

text \<open>Rules that follow the text of a body: a leading call by the rule of that call, a case
  distinction branch by branch.\<close>

named_theorems good

lemmas good_calls =
  good_lt_rbind1 [OF good_expect] good_lt_le [OF good_lt_rbind1 [OF good_expect]]
  good_lt_rbind1 [OF good_identifier] good_lt_le [OF good_lt_rbind1 [OF good_identifier]]
  good_lt_rbind1 [OF good_semicolon] good_lt_le [OF good_lt_rbind1 [OF good_semicolon]]
  good_lt_rbind1 [OF good_decl_spec] good_lt_le [OF good_lt_rbind1 [OF good_decl_spec]]
  good_le_rbind [OF good_declared_name]

lemma good_lt_rbind_bump:
  assumes "good_lt (bump s) a a'"
    and "\<And>x t. passes (bump s) t \<Longrightarrow> length t < length s \<Longrightarrow> good_le t (f (x, t)) (f' (x, t))"
  shows "good_lt s (rbind a f) (rbind a' f')"
proof (rule good_le_lt, rule good_lt_rbind1 [OF assms(1)])
  fix x t
  assume t: "passes (bump s) t" "length t < length (bump s)"
  with bump_length [of s] show "good_le t (f (x, t)) (f' (x, t))" by (auto intro: assms(2))
qed

lemmas good_bumped_calls =
  good_lt_le [OF good_lt_rbind_bump [OF good_expect]]
  good_lt_rbind_bump [OF good_expect]
  good_lt_le [OF good_lt_rbind_bump [OF good_identifier]]
  good_lt_rbind_bump [OF good_identifier]
  good_lt_le [OF good_lt_rbind_bump [OF good_semicolon]]
  good_lt_rbind_bump [OF good_semicolon]

declare good_calls [good] good_bumped_calls [good] good_if [good] good_Inr [good]

lemma good_option [good]:
  "(o' = None \<Longrightarrow> good_le s a a') \<Longrightarrow> (\<And>x. o' = Some x \<Longrightarrow> good_le s (b x) (b' x)) \<Longrightarrow>
   good_le s (case o' of None \<Rightarrow> a | Some x \<Rightarrow> b x) (case o' of None \<Rightarrow> a' | Some x \<Rightarrow> b' x)"
  "(o' = None \<Longrightarrow> good_lt s c c') \<Longrightarrow> (\<And>x. o' = Some x \<Longrightarrow> good_lt s (d x) (d' x)) \<Longrightarrow>
   good_lt s (case o' of None \<Rightarrow> c | Some x \<Rightarrow> d x) (case o' of None \<Rightarrow> c' | Some x \<Rightarrow> d' x)"
  by (simp_all split: option.split)

lemma good_array_suffix:
  assumes a: "good_upto n a a'" and "length s \<le> n"
  shows "good_le s (array_suffix a s) (array_suffix a' s)"
  unfolding array_suffix_def Let_def using assms(2) bump_length [of s]
  by (auto simp: rbind_assoc intro!: good good_le_bump [OF good_lt_le [OF good_lt_rbind1 [OF good_uptoD [OF a]]]])

lemma good_declarator:
  assumes a: "good_upto n a a'" and s: "length s \<le> n"
  shows "good_le s (declarator a b s) (declarator a' b s)"
proof -
  obtain k t where st: "stars s = (k, t)" by fastforce
  note pt = passes_stars [OF st]
  have "good_le t
      (rbind (declared_name b t) (\<lambda>(name, s).
       rbind (array_suffix a s) (\<lambda>(array_len, s). Inr (Declarator name k array_len sp, s))))
      (rbind (declared_name b t) (\<lambda>(name, s).
       rbind (array_suffix a' s) (\<lambda>(array_len, s). Inr (Declarator name k array_len sp, s))))" for sp
    using s passes_length [OF pt]
    by (auto intro!: good good_le_rbind [OF good_array_suffix [OF a]])
  then show ?thesis
    unfolding declarator_def Let_def st prod.case by (rule good_le_passes [OF pt])
qed

lemma declarator_named: "declarator a True s = Inr (d, t) \<Longrightarrow> dc_name d \<noteq> None"
  by (auto simp: declarator_def Let_def res_simps dest!: declared_name_Some split: prod.splits)

lemma good_decl_type:
  assumes a: "good_upto n a a'" and s: "length s \<le> n"
  shows "good_lt s (decl_type a b s) (decl_type a' b s)"
  unfolding decl_type_def using s
  by (auto intro!: good good_le_rbind [OF good_declarator [OF a]])

section \<open>Expressions\<close>

lemma kind_shorter:
  assumes "discriminant (t_kind (peek s)) \<noteq> discriminant TEof"
  shows "length (bump s) < length s"
  using at_shorter [of "t_kind (peek s)" s] assms by (simp add: at_kind_def same_kind_def)

text \<open>The expressions of one token.\<close>

definition atom_of :: "token_kind \<Rightarrow> expr_kind option" where
  "atom_of k = (case k of TNumber v \<Rightarrow> Some (E_Number v) | TChar v \<Rightarrow> Some (E_Char v)
     | TString v \<Rightarrow> Some (E_String v) | TIdent v \<Rightarrow> Some (E_Name v) | _ \<Rightarrow> None)"

lemma atom_of_Some: "atom_of k = Some a \<Longrightarrow> discriminant k \<noteq> discriminant TEof"
  by (cases k) (simp_all add: atom_of_def)

lemma primary_atoms:
  "primary r s =
     (if at_kind TLParen s then
        rbind (r L_Expression (bump s)) (\<lambda>(e, t).
        rbind (expect TRParen (expected '')'' '' after expression'') t) (\<lambda>(_, t). Inr (e, t)))
      else
        case atom_of (t_kind (peek s)) of
          Some a \<Rightarrow> Inr (Expr a (here s), bump s)
        | None \<Rightarrow> diag (here s) ''expected expression'')"
proof (cases "at_kind TLParen s")
  case False
  then show ?thesis
    unfolding primary_def Let_def at_kind_def [symmetric]
    by (cases "t_kind (peek s)") (simp_all add: atom_of_def)
qed (simp add: primary_def Let_def at_kind_def)

lemma postfix_op_shorter: "postfix_op s = Some op \<Longrightarrow> length (bump s) < length s"
  by (auto simp: postfix_op_def intro: at_shorter split: if_splits)

lemma unary_op_shorter: "unary_op_of s = Some op \<Longrightarrow> length (bump s) < length s"
  by (auto simp: unary_op_of_def intro: at_shorter split: if_splits)

lemma assign_op_shorter: "assign_op_of s = Some op \<Longrightarrow> length (bump s) < length s"
proof -
  assume "assign_op_of s = Some op"
  then obtain k where "find (\<lambda>(k, _). at_kind k s) assign_ops = Some k"
    by (auto simp: assign_op_of_def)
  then have "at_kind (fst k) s" "k \<in> set assign_ops"
    by (auto simp: find_Some_iff case_prod_beta)
  then show ?thesis
    by (auto simp: assign_ops_def intro: at_shorter)
qed

text \<open>What the calls that close the cycle must satisfy: on states shorter than \<open>n\<close>, the two
  versions agree and pass a token.\<close>

locale level_calls =
  fixes r r' :: "expr_level \<Rightarrow> expr parser" and n :: nat
  assumes call: "length t < n \<Longrightarrow> good_lt t (r k t) (r' k t)"
begin

lemma call_at:
  assumes "length t < n"
    and "\<And>x u. passes t u \<Longrightarrow> length u < length t \<Longrightarrow> good_le u (f (x, u)) (f' (x, u))"
  shows "good_lt t (rbind (r k t) f) (rbind (r' k t) f')"
    "good_le t (rbind (r k t) f) (rbind (r' k t) f')"
  using good_lt_rbind1 [OF call [OF assms(1)] assms(2)] by (blast intro: good_lt_le)+

lemma call_behind:
  assumes "length (bump s) < length s" and "length s \<le> n"
    and "\<And>x u. passes (bump s) u \<Longrightarrow> length u < length s \<Longrightarrow>
          good_le u (f (x, u)) (f' (x, u))"
  shows "good_lt s (rbind (r k (bump s)) f) (rbind (r' k (bump s)) f')"
    "good_le s (rbind (r k (bump s)) f) (rbind (r' k (bump s)) f')"
proof -
  have "length (bump s) < n" using assms(1,2) by simp
  then show "good_lt s (rbind (r k (bump s)) f) (rbind (r' k (bump s)) f')"
    by (rule good_le_lt [OF call_at(1)]) (use assms(1,3) in auto)
  then show "good_le s (rbind (r k (bump s)) f) (rbind (r' k (bump s)) f')"
    by (rule good_lt_le)
qed

lemma upto_call: "m < n \<Longrightarrow> good_upto m (r k) (r' k)"
  by (rule good_uptoI) (simp add: call)

lemma primary: "good_upto n (primary r) (primary r')"
  unfolding primary_atoms
  by (rule good_uptoI)
    (auto intro!: good call_behind intro: at_shorter kind_shorter dest: atom_of_Some)

end

text \<open>A round of the \<open>postfix\<close> loop does nothing, or passes a token.\<close>

definition at_postfix :: "pstate \<Rightarrow> bool" where
  "at_postfix s \<longleftrightarrow> at_kind TLParen s \<or> at_kind TLBracket s \<or> at_kind TDot s \<or> at_kind TArrow s
     \<or> postfix_op s \<noteq> None"

lemma postfix_step_none: "\<not> at_postfix s \<Longrightarrow> postfix_step r e s = Inr (None, s)"
  by (auto simp: at_postfix_def postfix_step_def)

lemma postfix_step_some:
  assumes "at_postfix s" and "postfix_step r e s = Inr (x, t)"
  obtains e' where "x = Some e'"
proof -
  have "x \<noteq> None"
    using assms unfolding postfix_step_def Let_def at_postfix_def
    by (auto simp: res_simps diag_def split: if_splits option.splits)
  with that show ?thesis by blast
qed

context level_calls
begin

lemma comma_behind:
  assumes "length (bump s) < length s" and "length s \<le> n"
    and "\<And>x u. passes (bump s) u \<Longrightarrow> length u \<le> length (bump s) \<Longrightarrow>
          good_le u (f (x, u)) (f' (x, u))"
  shows "good_lt s (rbind (comma_list (r k) (bump s)) f) (rbind (comma_list (r' k) (bump s)) f')"
proof -
  have "good_le (bump s) (comma_list (r k) (bump s)) (comma_list (r' k) (bump s))"
    using assms(1,2) by (intro good_comma_upto [OF upto_call]) auto
  then have "good_le (bump s) (rbind (comma_list (r k) (bump s)) f)
      (rbind (comma_list (r' k) (bump s)) f')"
    by (rule good_le_rbind) (rule assms(3))
  then show ?thesis by (rule good_bump) (rule assms(1))
qed

lemma postfix_step:
  assumes "at_postfix s" and "length s \<le> n"
  shows "good_lt s (postfix_step r e s) (postfix_step r' e s)"
  using assms unfolding at_postfix_def postfix_step_def Let_def
  by (auto intro!: good call_behind comma_behind intro: at_shorter postfix_op_shorter)

lemma postfix_loop: "length s \<le> n \<Longrightarrow> good_le s (postfix_loop r e s) (postfix_loop r' e s)"
proof (induction "length s" arbitrary: s e rule: less_induct)
  case less
  show ?case
  proof (cases "at_postfix s")
    case False
    then show ?thesis
      by (subst (1 2) postfix_loop.simps) (simp add: postfix_step_none good_Inr)
  next
    case True
    note step = postfix_step [OF this less.prems, of e]
    let ?k = "\<lambda>r. \<lambda>(e', t). case e' of None \<Rightarrow> Inr (e, s)
        | Some e' \<Rightarrow> if length t < length s then postfix_loop r e' t else Inl OutOfFuel"
    have "good_le s (rbind (postfix_step r e s) (?k r)) (rbind (postfix_step r' e s) (?k r'))"
    proof (cases "postfix_step r e s")
      case (Inl err)
      from Inl have "postfix_step r' e s = Inl err" by (simp add: good_eq(1) [OF step])
      with Inl step show ?thesis
        by (simp add: good_lt_def good_le_def diagnoses_def)
    next
      case (Inr y)
      obtain x t where y: "y = (x, t)" by (cases y)
      with True Inr obtain e' where x: "x = Some e'" by (auto elim: postfix_step_some)
      from step Inr y have t: "postfix_step r' e s = Inr (x, t)" "passes s t" "length t < length s"
        by (auto simp: good_lt_def)
      from t(3) less.prems have "good_le t (postfix_loop r e' t) (postfix_loop r' e' t)"
        by (intro less.hyps) auto
      with Inr y x t show ?thesis by (auto intro: good_le_passes)
    qed
    then show ?thesis
      by (subst (1 2) postfix_loop.simps) assumption
  qed
qed

lemma postfix: "good_upto n (postfix r) (postfix r')"
  unfolding postfix_def
  by (rule good_uptoI) (auto intro!: good_lt_rbind1 [OF good_uptoD [OF primary]] postfix_loop)

lemma sizeof_expression:
  assumes "at_kind TSizeof s" and "length s \<le> n"
  shows "good_lt s (sizeof_expression r s) (sizeof_expression r' s)"
proof -
  have b: "length (bump s) < length s" using assms(1) by (rule at_shorter) simp
  have "good_le (bump s) (sizeof_expression r s) (sizeof_expression r' s)"
    unfolding sizeof_expression_def Let_def using b assms(2) bump_length [of "bump s"]
    by (auto intro!: good call_at
        good_le_bump [OF good_lt_le [OF good_lt_rbind1 [OF good_decl_type [OF upto_call]]]])
  then show ?thesis by (rule good_bump [OF _ b])
qed

lemma unary: "good_upto n (unary r) (unary r')"
  unfolding unary_def
  by (rule good_uptoI)
    (auto intro!: good call_behind good_uptoD [OF postfix] sizeof_expression intro: unary_op_shorter)

lemma logical_or: "good_upto n (logical_or r) (logical_or r')"
  unfolding logical_or_def logical_and_def bit_or_def bit_xor_def bit_and_def equality_def
    relational_def shift_def additive_def multiplicative_def
  by (intro good_left_assoc unary)
    (simp_all add: logical_or_ops_def logical_and_ops_def bit_or_ops_def bit_xor_ops_def
      bit_and_ops_def equality_ops_def relational_ops_def shift_ops_def additive_ops_def
      multiplicative_ops_def)

lemma conditional: "good_upto n (conditional r) (conditional r')"
  unfolding conditional_def Let_def
  by (rule good_uptoI)
    (auto intro!: good good_lt_rbind1 [OF good_uptoD [OF logical_or]] call_behind(2) call_at(2)
      intro: at_shorter)

lemma assignment: "good_upto n (assignment r) (assignment r')"
  unfolding assignment_def
  by (rule good_uptoI)
    (auto intro!: good good_lt_rbind1 [OF good_uptoD [OF conditional]] call_behind(2)
      intro: assign_op_shorter)

lemma expression: "good_upto n (expression r) (expression r')"
  unfolding expression_def by (rule good_left_assoc [OF assignment]) (simp add: comma_ops_def)

lemma level_body: "good_upto n (level_body r l) (level_body r' l)"
  using expression assignment conditional unary
  by (cases l) (simp_all add: level_body_def cong: if_cong)

end

text \<open>The tied cycle satisfies what its calls must satisfy, so it is the plain cycle of the
  source.\<close>

lemma good_self: "good_lt s a b \<Longrightarrow> good_lt s a a"
  by (auto simp: good_lt_def)

lemma parse_level_good: "good_lt s (parse_level l s) (level_body parse_level l s)"
proof (induction "length s" arbitrary: s l rule: less_induct)
  case less
  let ?r = "\<lambda>l' t. if length t < length s then parse_level l' t else Inl OutOfFuel"
  have calls: "level_calls ?r parse_level (length s)"
    by unfold_locales (simp add: good_self [OF less])
  have "good_lt s (level_body ?r l s) (level_body parse_level l s)"
    by (rule good_uptoD [OF level_calls.level_body [OF calls]]) simp
  then show ?case by (simp add: parse_level.simps [of l s])
qed

lemma parse_level_unfold: "parse_level l s = level_body parse_level l s"
  by (rule good_eq(1) [OF parse_level_good])

interpretation levels: level_calls parse_level parse_level n for n
  by unfold_locales (rule good_self [OF parse_level_good])

lemma good_expression: "good_lt s (parse_expression s) (parse_expression s)"
  unfolding parse_expression_def by (rule levels.call [of s "length s + 1"]) simp

lemma upto_assignment: "good_upto n parse_assignment parse_assignment"
  unfolding good_upto_def parse_assignment_def using levels.call [of _ "n + 1"] by simp

lemma good_assignment: "good_lt s (parse_assignment s) (parse_assignment s)"
  by (rule good_uptoD [OF upto_assignment order_refl])

section \<open>Statements\<close>

lemma good_parse_decl_type: "good_lt s (parse_decl_type b s) (parse_decl_type b s)"
  unfolding parse_decl_type_def by (rule good_decl_type [OF upto_assignment order_refl])

lemmas good_expression_calls =
  good_lt_rbind1 [OF good_expression] good_lt_le [OF good_lt_rbind1 [OF good_expression]]
  good_lt_rbind_bump [OF good_expression]
  good_lt_le [OF good_lt_rbind_bump [OF good_expression]]
  good_lt_rbind1 [OF good_assignment] good_lt_le [OF good_lt_rbind1 [OF good_assignment]]
  good_lt_le [OF good_lt_rbind_bump [OF good_assignment]]
  good_lt_rbind1 [OF good_parse_decl_type] good_lt_le [OF good_lt_rbind1 [OF good_parse_decl_type]]

declare good_expression_calls [good]

lemma good_optional_expression:
  "good_le s (optional_expression k s) (optional_expression k s)"
  unfolding optional_expression_def by (auto intro!: good)

lemma good_initializer: "good_le s (initializer s) (initializer s)"
  unfolding initializer_def by (auto intro!: good)

lemmas good_optional_calls =
  good_le_rbind [OF good_optional_expression] good_le_rbind [OF good_initializer]
  good_le_bump [OF good_le_rbind [OF good_optional_expression]]
  good_lt_rbind2 [OF good_optional_expression]
  good_le_lt [OF good_lt_rbind2 [OF good_optional_expression]]

declare good_optional_calls [good]

lemma good_declaration: "good_lt s (parse_declaration s) (parse_declaration s)"
  unfolding parse_declaration_def Let_def by (auto intro!: good)

lemma good_condition:
  "good_lt s (parenthesized_condition k s) (parenthesized_condition k s)"
  unfolding parenthesized_condition_def by (auto intro!: good)

lemma good_for_initializer: "good_le s (for_initializer s) (for_initializer s)"
  unfolding for_initializer_def Let_def by (auto intro!: good)

lemmas good_condition_calls =
  good_lt_le [OF good_lt_rbind1 [OF good_condition]] good_lt_rbind1 [OF good_condition]
  good_lt_rbind_bump [OF good_condition]
  good_le_rbind [OF good_for_initializer]

declare good_condition_calls [good]

text \<open>A block of items, and a statement, over the statements inside.\<close>

lemma block_item_not_eof:
  assumes "at_kind TEof s"
  shows "good_lt s (block_item r sp s) (block_item r' sp s)"
  using assms by (simp add: block_item_def)

locale stmt_calls =
  fixes r r' :: "stmt parser" and n :: nat
  assumes call: "length t < n \<Longrightarrow> good_lt t (r t) (r' t)"
begin

lemma call_at:
  assumes "length t < n"
    and "\<And>x u. passes t u \<Longrightarrow> length u < length t \<Longrightarrow> good_le u (f (x, u)) (f' (x, u))"
  shows "good_lt t (rbind (r t) f) (rbind (r' t) f')" "good_le t (rbind (r t) f) (rbind (r' t) f')"
  using good_lt_rbind1 [OF call [OF assms(1)] assms(2)] by (blast intro: good_lt_le)+

lemma call_behind:
  assumes "length (bump s) < length s" and "length s \<le> n"
    and "\<And>x u. passes (bump s) u \<Longrightarrow> length u < length s \<Longrightarrow> good_le u (f (x, u)) (f' (x, u))"
  shows "good_lt s (rbind (r (bump s)) f) (rbind (r' (bump s)) f')"
    "good_le s (rbind (r (bump s)) f) (rbind (r' (bump s)) f')"
proof -
  have "length (bump s) < n" using assms(1,2) by simp
  then show "good_lt s (rbind (r (bump s)) f) (rbind (r' (bump s)) f')"
    by (rule good_le_lt [OF call_at(1)]) (use assms(1,3) in auto)
  then show "good_le s (rbind (r (bump s)) f) (rbind (r' (bump s)) f')"
    by (rule good_lt_le)
qed

lemma upto_block_item: "m < n \<Longrightarrow> good_upto m (block_item r sp) (block_item r' sp)"
  unfolding block_item_def
  by (rule good_uptoI) (auto intro!: good call good_declaration)

lemma block: "good_upto n (block r) (block r')"
  unfolding block_def
  by (rule good_uptoI)
    (auto intro!: good good_le_rbind [OF good_many_upto [OF upto_block_item]])

lemma if_statement:
  "at_kind TIf s \<Longrightarrow> length s \<le> n \<Longrightarrow> good_lt s (if_statement r s) (if_statement r' s)"
  unfolding if_statement_def Let_def
  by (auto simp: rbind_assoc intro!: good call_behind call_at at_shorter [of TElse])

lemma while_statement:
  "length s \<le> n \<Longrightarrow> good_lt s (while_statement r s) (while_statement r' s)"
  unfolding while_statement_def Let_def
  by (auto intro!: good call_behind call_at intro: at_shorter)

lemma do_while_statement:
  "at_kind TDo s \<Longrightarrow> length s \<le> n \<Longrightarrow> good_lt s (do_while_statement r s) (do_while_statement r' s)"
  unfolding do_while_statement_def Let_def
  by (auto intro!: good call_behind call_at intro: at_shorter)

lemma for_statement:
  "length s \<le> n \<Longrightarrow> good_lt s (for_statement r s) (for_statement r' s)"
  unfolding for_statement_def Let_def
  by (auto intro!: good call_behind call_at intro: at_shorter)

lemma switch_statement:
  "length s \<le> n \<Longrightarrow> good_lt s (switch_statement r s) (switch_statement r' s)"
  unfolding switch_statement_def Let_def
  by (auto intro!: good call_behind call_at intro: at_shorter)

lemma label_statements:
  assumes "length s \<le> n"
  shows "good_lt s (case_statement r s) (case_statement r' s)"
    "good_lt s (default_statement r s) (default_statement r' s)"
  unfolding case_statement_def default_statement_def Let_def using assms
  by (auto intro!: good call_behind call_at intro: at_shorter)

lemma statement_body: "good_upto n (statement_body r) (statement_body r')"
  unfolding statement_body_def
proof (intro good_uptoI good_if if_statement while_statement do_while_statement for_statement
    switch_statement label_statements)
  fix s :: pstate
  assume "length s \<le> n"
  then show "good_lt s (rbind (block r s) (\<lambda>(b, t). Inr (S_Block b, t)))
      (rbind (block r' s) (\<lambda>(b, t). Inr (S_Block b, t)))"
    by (auto intro!: good good_lt_rbind1 [OF good_uptoD [OF block]])
qed (auto simp: jump_statement_def return_statement_def expression_statement_def Let_def
    intro!: good)

end

lemma statement_good: "good_lt s (statement s) (statement_body statement s)"
proof (induction "length s" arbitrary: s rule: less_induct)
  case less
  let ?r = "\<lambda>t. if length t < length s then statement t else Inl OutOfFuel"
  have calls: "stmt_calls ?r statement (length s)"
    by unfold_locales (simp add: good_self [OF less])
  have "good_lt s (statement_body ?r s) (statement_body statement s)"
    by (rule good_uptoD [OF stmt_calls.statement_body [OF calls]]) simp
  then show ?case by (simp add: statement.simps [of s])
qed

lemma statement_unfold: "statement s = statement_body statement s"
  by (rule good_eq(1) [OF statement_good])

interpretation stmts: stmt_calls statement statement n for n
  by unfold_locales (rule good_self [OF statement_good])

lemma good_parse_block: "good_lt s (parse_block s) (parse_block s)"
  unfolding parse_block_def by (rule good_uptoD [OF stmts.block [of "length s"]]) simp

section \<open>Declarations\<close>

lemma good_struct_field: "good_lt s (struct_field s) (struct_field s)"
  unfolding struct_field_def Let_def by (auto intro!: good)

lemma good_struct_definition: "good_lt s (struct_definition s) (struct_definition s)"
  unfolding struct_definition_def Let_def
  by (auto intro!: good good_le_rbind [OF good_many] good_struct_field)

lemma good_parameter: "good_lt s (parse_parameter s) (parse_parameter s)"
  unfolding parse_parameter_def Let_def by (auto intro!: good)

lemma good_parameter_list: "good_le s (parameter_list s) (parameter_list s)"
  unfolding parameter_list_def by (auto intro!: good good_comma_list good_parameter)

lemma good_parse_function:
  "good_le s (parse_function u b d name s) (parse_function u b d name s)"
  unfolding parse_function_def Let_def
  by (auto simp: rbind_assoc
      intro!: good good_le_bump [OF good_le_rbind [OF good_parameter_list]]
        good_lt_le [OF good_lt_rbind1 [OF good_parse_block]])

text \<open>The \<open>unreachable!()\<close> of the source is not reached: a required name is there.\<close>

lemma good_declarator_rbind:
  assumes "\<And>d t. dc_name d \<noteq> None \<Longrightarrow> passes s t \<Longrightarrow> good_le t (f (d, t)) (f (d, t))"
  shows "good_le s (rbind (declarator parse_assignment True s) f)
    (rbind (declarator parse_assignment True s) f)"
proof -
  have d: "good_le s (declarator parse_assignment True s) (declarator parse_assignment True s)"
    by (rule good_declarator [OF upto_assignment order_refl])
  show ?thesis
  proof (cases "declarator parse_assignment True s")
    case (Inl e)
    with d show ?thesis by (simp add: good_le_def diagnoses_def)
  next
    case (Inr y)
    obtain x t where y: "y = (x, t)" by (cases y)
    have "dc_name x \<noteq> None" by (rule declarator_named) (use Inr y in simp)
    moreover from d Inr y have "passes s t" by (simp add: good_le_def)
    ultimately show ?thesis using Inr y assms by (auto intro: good_le_passes)
  qed
qed

lemma good_top_declaration: "good_lt s (top_declaration s) (top_declaration s)"
  unfolding top_declaration_def
  by (auto intro!: good good_lt_rbind1 [OF good_struct_definition] good_declarator_rbind
      good_le_rbind [OF good_parse_function])

lemma good_parse_program: "good_le s (parse_program s) (parse_program s)"
  unfolding parse_program_def parse_error_def
  by (auto intro!: good good_le_rbind [OF good_many] good_top_declaration)

section \<open>Names are present\<close>

text \<open>Where the later passes take the name of a declarator for granted, it is there.\<close>

definition named :: "decl_type \<Rightarrow> bool" where
  "named ty \<longleftrightarrow> dc_name (dt_declarator ty) \<noteq> None"

definition program_named :: "program \<Rightarrow> bool" where
  "program_named p \<longleftrightarrow>
     (\<forall>d\<in>set (pr_structs p). \<forall>f\<in>set (sd_fields d). named (fd_ty f))
     \<and> (\<forall>g\<in>set (pr_globals p). named (g_ty g))
     \<and> pr_functions p \<noteq> []"

fun top_named :: "top_level \<Rightarrow> bool" where
  "top_named (Top_Struct d) \<longleftrightarrow> (\<forall>f\<in>set (sd_fields d). named (fd_ty f))"
| "top_named (Top_Function f) \<longleftrightarrow> True"
| "top_named (Top_Global g) \<longleftrightarrow> named (g_ty g)"

lemma decl_type_named: "decl_type a True s = Inr (ty, t) \<Longrightarrow> named ty"
  by (auto simp: decl_type_def named_def res_simps dest: declarator_named split: prod.splits)

lemma many_all:
  assumes "\<And>s x t. p s = Inr (x, t) \<Longrightarrow> P x" and "many stop p s = Inr (xs, u)"
  shows "\<forall>x\<in>set xs. P x"
  using assms(2)
proof (induction "length s" arbitrary: s xs u rule: less_induct)
  case less
  show ?case
  proof (cases "stop s")
    case True
    with less.prems show ?thesis by (subst (asm) many.simps) simp
  next
    case False
    with less.prems obtain x t ys where x: "p s = Inr (x, t)" "length t < length s"
      "many stop p t = Inr (ys, u)" "xs = x # ys"
      by (subst (asm) many.simps) (auto simp: res_simps split: if_splits)
    from less.hyps [OF x(2,3)] assms(1) [OF x(1)] x(4) show ?thesis by simp
  qed
qed

lemma struct_definition_named: "struct_definition s = Inr (d, t) \<Longrightarrow> \<forall>f\<in>set (sd_fields d). named (fd_ty f)"
proof -
  assume "struct_definition s = Inr (d, t)"
  then obtain u v where "many (at_kind TRBrace) struct_field u = Inr (sd_fields d, v)"
    by (auto simp: struct_definition_def Let_def res_simps)
  then show ?thesis
    by (rule many_all [rotated])
      (auto simp: struct_field_def parse_decl_type_def Let_def res_simps dest: decl_type_named)
qed

lemma top_declaration_named: "top_declaration s = Inr (x, t) \<Longrightarrow> top_named x"
  by (auto simp: top_declaration_def res_simps named_def dest: struct_definition_named
      split: if_splits option.splits)

lemma parse_program_named:
  assumes "parse_program s = Inr (p, t)"
  shows "program_named p"
proof -
  from assms obtain tops where tops: "many (at_kind TEof) top_declaration s = Inr (tops, t)"
    and p: "tops_functions tops \<noteq> []"
      "p = \<lparr>pr_structs = tops_structs tops, pr_globals = tops_globals tops,
            pr_functions = tops_functions tops\<rparr>"
    by (auto simp: parse_program_def parse_error_def diag_def res_simps split: if_splits)
  have "\<forall>x\<in>set tops. top_named x"
    by (rule many_all [OF _ tops]) (rule top_declaration_named)
  then have "\<forall>x\<in>set tops. (\<forall>d. x = Top_Struct d \<longrightarrow> (\<forall>f\<in>set (sd_fields d). named (fd_ty f)))
      \<and> (\<forall>g. x = Top_Global g \<longrightarrow> named (g_ty g))"
    by auto
  with p show ?thesis
    by (auto simp: program_named_def tops_structs_def tops_globals_def split: top_level.splits)
qed

section \<open>Properties\<close>

lemma parse_tokens_cases:
  assumes "has_eof ts"
  obtains d where "parse_tokens ts = Inl (Diag d)"
  | p where "parse_tokens ts = Inr p" "program_named p"
proof (cases "parse_program ts")
  case (Inl e)
  with good_parse_program [of ts] obtain d where "e = Diag d"
    by (auto simp: good_le_def diagnoses_def)
  with Inl that(1) assms show ?thesis
    by (auto simp: parse_tokens_def has_eof_def is_eof_def)
next
  case (Inr y)
  obtain p t where "y = (p, t)" by (cases y)
  with Inr that(2) [of p] assms parse_program_named [of ts p t] show ?thesis
    by (auto simp: parse_tokens_def has_eof_def is_eof_def)
qed

text \<open>
  C18. On a token list with an end-of-file token the parser returns a diagnostic or a program;
  it does not read behind the list, reach its \<open>unreachable!()\<close> or run for ever. In the program
  every structure field and every global has a name, and there is a function.
\<close>

theorem parse_total:
  assumes "\<exists>t\<in>set ts. t_kind t = TEof"
  shows "(\<exists>d. parse_tokens ts = Inl (Diag d)) \<or> (\<exists>p. parse_tokens ts = Inr p \<and> program_named p)"
proof (rule parse_tokens_cases)
  show "has_eof ts"
    using assms unfolding has_eof_def is_eof_def same_kind_def by force
qed auto

text \<open>
  C19. The parser's functions satisfy the recursion equations of the source, without any bound
  on the recursion, and each of them passes at least one token on success: \<open>parse_level\<close> for
  the expression levels and \<open>statement\<close> for statements.
\<close>

theorem parser_equations:
  "parse_level l s = level_body parse_level l s \<and> statement s = statement_body statement s
   \<and> good_lt s (parse_level l s) (parse_level l s) \<and> good_lt s (statement s) (statement s)"
  by (intro conjI parse_level_unfold statement_unfold good_self [OF parse_level_good]
      good_self [OF statement_good])

definition sample_tokens :: "token list" where
  "sample_tokens = map (\<lambda>k. \<lparr>t_kind = k, t_span = span_new 0 1 1\<rparr>)
     [TInt, TIdent ''f'', TLParen, TVoid, TRParen, TLBrace, TReturn, TNumber ''1'', TSemicolon,
      TRBrace, TEof]"

lemma sample_parses: "\<not> isl (parse_tokens sample_tokens)"
  by code_simp

lemma parse_total_witness:
  "\<exists>p. parse_tokens sample_tokens = Inr p \<and> program_named p"
proof -
  have "\<exists>t\<in>set sample_tokens. t_kind t = TEof" by (simp add: sample_tokens_def)
  from parse_total [OF this] show ?thesis
  proof
    assume "\<exists>d. parse_tokens sample_tokens = Inl (Diag d)"
    with sample_parses show ?thesis by auto
  qed
qed

end
