(* ===== verification/Preprocess.thy ===== *)
theory Preprocess
  imports Parser_Correct
begin

text \<open>
  The text passes in front of the lexer (\<open>preprocess\<close>, \<open>inject_platform_library\<close> and
  \<open>contains_identifier\<close> of \<open>tools/warpc/src/lib.rs\<close>), and the front end up to the syntax
  tree. The include line is blanked, so every position of the preprocessed text is that of
  the source; the platform functions are appended behind it.
\<close>

section \<open>The include line\<close>

definition blank :: char where
  "blank = CHR '' ''"

text \<open>The body of one line, blanked if it is the include line.\<close>

definition strip_newline :: "string \<Rightarrow> string" where
  "strip_newline line = (case strip_suffix_char newline line of None \<Rightarrow> line | Some b \<Rightarrow> b)"

definition is_directive :: "string \<Rightarrow> bool" where
  "is_directive body \<longleftrightarrow> (case trim body of [] \<Rightarrow> False | c # _ \<Rightarrow> c = CHR ''#'')"

definition is_include :: "string \<Rightarrow> bool" where
  "is_include trimmed \<longleftrightarrow>
     trimmed = ''#include <warp.h>'' \<or> trimmed = ''#include '' @ [CHR 0x22] @ ''warp.h'' @ [CHR 0x22]"

definition pre_line :: "nat \<Rightarrow> nat \<Rightarrow> string \<Rightarrow> string cc" where
  "pre_line offset line_number line =
     (let body = strip_newline line; ending = (if strip_suffix_char newline line = None then [] else [newline])
      in if is_directive body then
           if \<not> is_include (trim body) then
             (let column = length (takeWhile (\<lambda>c. c \<noteq> CHR ''#'') body) + 1
              in diag (span_new (offset + column - 1) line_number column)
                   ''only #include <warp.h> is supported in Warp C v0.1.5'')
           else Inr (replicate (length body) blank @ ending)
         else Inr (body @ ending))"

text \<open>The loop over the lines, with the offset and the number of the line.\<close>

fun pre_lines :: "nat \<Rightarrow> nat \<Rightarrow> string list \<Rightarrow> string cc" where
  "pre_lines offset line_number [] = Inr []"
| "pre_lines offset line_number (line # rest) =
     rbind (pre_line offset line_number line) (\<lambda>out.
     rbind (pre_lines (offset + length line) (line_number + 1) rest) (\<lambda>outs. Inr (out @ outs)))"

definition preprocess :: "string \<Rightarrow> string cc" where
  "preprocess source = pre_lines 0 1 (split_inclusive newline source)"

section \<open>The platform library\<close>

definition unlines :: "string list \<Rightarrow> string" where
  "unlines ls = concat (map (\<lambda>l. l @ [newline]) ls)"

definition WARP_MEMCPY_SOURCE :: string where
  "WARP_MEMCPY_SOURCE = unlines
     [[],
      ''void warp_memcpy(uniform unsigned *dst, uniform unsigned *src, uniform unsigned words)'',
      ''{'',
      ''    for (uniform unsigned base = 0; base < words; base += 32) {'',
      ''        unsigned i = base + WARP;'',
      ''        if (i < words)'',
      ''            dst[i] = src[i];'',
      ''    }'',
      ''}'']"

definition WARP_MEMSET_SOURCE :: string where
  "WARP_MEMSET_SOURCE = unlines
     [[],
      ''void warp_memset(uniform unsigned *dst, unsigned value, uniform unsigned words)'',
      ''{'',
      ''    for (uniform unsigned base = 0; base < words; base += 32) {'',
      ''        unsigned i = base + WARP;'',
      ''        if (i < words)'',
      ''            dst[i] = value;'',
      ''    }'',
      ''}'']"

text \<open>\<open>split\<close> on every character that is not part of an identifier.\<close>

definition ident_char :: "char \<Rightarrow> bool" where
  "ident_char c \<longleftrightarrow> is_ascii_alphanumeric c \<or> c = CHR ''_''"

fun split_words :: "string \<Rightarrow> string list" where
  "split_words [] = [[]]"
| "split_words (c # cs) =
     (if \<not> ident_char c then [] # split_words cs
      else case split_words cs of [] \<Rightarrow> [[c]] | w # ws \<Rightarrow> (c # w) # ws)"

definition contains_identifier :: "string \<Rightarrow> string \<Rightarrow> bool" where
  "contains_identifier source target \<longleftrightarrow> list_ex (\<lambda>w. w = target) (split_words source)"

definition inject_platform_library :: "string \<Rightarrow> string" where
  "inject_platform_library source =
     source
     @ (if contains_identifier source ''warp_memcpy'' then WARP_MEMCPY_SOURCE else [])
     @ (if contains_identifier source ''warp_memset'' then WARP_MEMSET_SOURCE else [])"

section \<open>The front end\<close>

text \<open>The first half of \<open>compile\<close>: source text to syntax tree.\<close>

definition front_end :: "string \<Rightarrow> program cc" where
  "front_end source =
     rbind (preprocess source) (\<lambda>text.
     rbind (lex (inject_platform_library text)) parse_tokens)"

section \<open>Layout\<close>

definition same_layout :: "string \<Rightarrow> string \<Rightarrow> bool" where
  "same_layout a b \<longleftrightarrow> list_all2 (\<lambda>x y. x = newline \<longleftrightarrow> y = newline) a b"

lemma same_layout_refl [simp]: "same_layout a a"
  by (simp add: same_layout_def list_all2_refl)

lemma same_layout_append: "same_layout a b \<Longrightarrow> same_layout c d \<Longrightarrow> same_layout (a @ c) (b @ d)"
  by (simp add: same_layout_def list_all2_appendI)

lemma same_layout_blank: "newline \<notin> set b \<Longrightarrow> same_layout b (replicate (length b) blank)"
  by (auto simp: same_layout_def list_all2_conv_all_nth blank_def newline_def dest: nth_mem)

lemma same_layout_length: "same_layout a b \<Longrightarrow> length a = length b"
  by (auto simp: same_layout_def dest: list_all2_lengthD)

lemma position_same_layout:
  assumes "same_layout a b"
  shows "position a = position b"
proof -
  let ?R = "\<lambda>x y. (x = newline) = (y = newline)"
  have R: "list_all2 ?R a b" using assms by (simp add: same_layout_def)
  have lines: "list_all2 ?R xs ys \<Longrightarrow>
      length (filter (\<lambda>c. c = newline) xs) = length (filter (\<lambda>c. c = newline) ys)" for xs ys
    by (induction rule: list_all2_induct) auto
  have cols: "list_all2 ?R xs ys \<Longrightarrow>
      length (takeWhile (\<lambda>c. c \<noteq> newline) xs) = length (takeWhile (\<lambda>c. c \<noteq> newline) ys)" for xs ys
    by (induction rule: list_all2_induct) auto
  have "list_all2 ?R (rev a) (rev b)" using R by simp
  from lines [OF R] cols [OF this] same_layout_length [OF assms] show ?thesis
    by (simp add: position_def)
qed

text \<open>The lines of a text.\<close>

lemma split_inclusive_concat: "concat (split_inclusive c s) = s"
  by (induction s) (auto split: list.split)

definition is_line :: "string \<Rightarrow> bool" where
  "is_line l \<longleftrightarrow> (\<exists>b. newline \<notin> set b \<and> (l = b \<or> l = b @ [newline]))"

lemma split_inclusive_lines: "\<forall>l\<in>set (split_inclusive newline s). is_line l"
proof (induction s)
  case (Cons c s)
  have "is_line (c # l)" if "is_line l" "c \<noteq> newline" for l
  proof -
    from that(1) obtain b where b: "newline \<notin> set b" "l = b \<or> l = b @ [newline]"
      by (auto simp: is_line_def)
    then have "newline \<notin> set (c # b) \<and> (c # l = c # b \<or> c # l = (c # b) @ [newline])"
      using that(2) by auto
    then show ?thesis unfolding is_line_def by blast
  qed
  moreover have "is_line [newline]" "is_line []"
    unfolding is_line_def by (rule exI [of _ "[]"], simp)+
  ultimately show ?case using Cons
    by (auto split: list.split)
qed simp

lemma strip_newline_line:
  assumes "is_line l"
  obtains b where "newline \<notin> set b" "strip_newline l = b" "strip_suffix_char newline l = None" "l = b"
  | b where "newline \<notin> set b" "strip_newline l = b" "strip_suffix_char newline l \<noteq> None"
      "l = b @ [newline]"
proof -
  from assms obtain b where b: "newline \<notin> set b" "l = b \<or> l = b @ [newline]"
    by (auto simp: is_line_def)
  from b(2) show thesis
  proof
    assume l: "l = b"
    have "b \<noteq> [] \<Longrightarrow> last b \<noteq> newline" using b(1) last_in_set [of b] by metis
    then have "strip_suffix_char newline l = None"
      using l by (auto simp: strip_suffix_char_def)
    with that(1) [of b] b(1) l show thesis by (simp add: strip_newline_def)
  next
    assume l: "l = b @ [newline]"
    with that(2) [of b] b(1) show thesis by (simp add: strip_newline_def strip_suffix_char_def)
  qed
qed

lemma pre_line_layout:
  assumes "is_line l" and "pre_line offset n l = Inr out"
  shows "same_layout l out \<and> (\<not> is_directive (strip_newline l) \<longrightarrow> out = l)"
  using assms(1)
proof (cases rule: strip_newline_line)
  case (1 b)
  with assms(2) show ?thesis
    by (auto simp: pre_line_def Let_def split: if_splits intro: same_layout_blank)
next
  case (2 b)
  with assms(2) show ?thesis
    by (auto simp: pre_line_def Let_def split: if_splits intro!: same_layout_append same_layout_blank)
qed

text \<open>Line by line: the layout stays, and a line without a directive is kept.\<close>

definition line_kept :: "string \<Rightarrow> string \<Rightarrow> bool" where
  "line_kept l out \<longleftrightarrow> same_layout l out \<and> (\<not> is_directive (strip_newline l) \<longrightarrow> out = l)"

lemma pre_lines_kept:
  assumes "pre_lines offset n ls = Inr out" and "\<forall>l\<in>set ls. is_line l"
  shows "\<exists>outs. list_all2 line_kept ls outs \<and> out = concat outs"
  using assms
proof (induction offset n ls arbitrary: out rule: pre_lines.induct)
  case (2 offset n line rest)
  from "2.prems"(1) obtain x xs where x: "pre_line offset n line = Inr x"
    and xs: "pre_lines (offset + length line) (n + 1) rest = Inr xs" and out: "out = x @ xs"
    by (auto simp: res_simps)
  from "2.IH" [OF x xs] "2.prems"(2) obtain outs
    where outs: "list_all2 line_kept rest outs" "xs = concat outs" by auto
  have "line_kept line x"
    using pre_line_layout [OF _ x] "2.prems"(2) by (simp add: line_kept_def)
  with outs out have "list_all2 line_kept (line # rest) (x # outs) \<and> out = concat (x # outs)" by simp
  then show ?case by blast
qed simp

lemma concat_same_layout: "list_all2 line_kept ls outs \<Longrightarrow> same_layout (concat ls) (concat outs)"
  by (induction rule: list_all2_induct) (auto simp: line_kept_def intro: same_layout_append)

text \<open>The lines of the output are the pieces put out, since the layout is the same.\<close>

lemma preprocess_layout:
  assumes "preprocess source = Inr out"
  shows "same_layout source out"
proof -
  from assms obtain outs where "list_all2 line_kept (split_inclusive newline source) outs"
    "out = concat outs"
    unfolding preprocess_def using pre_lines_kept split_inclusive_lines by blast
  then show ?thesis
    using concat_same_layout by (fastforce simp: split_inclusive_concat)
qed

section \<open>Words\<close>

lemma split_words_nonempty: "split_words s \<noteq> []"
  by (cases s) (auto split: list.split)

lemma hd_split_words: "hd (split_words s) = takeWhile ident_char s"
proof (induction s)
  case (Cons c cs)
  then show ?case using split_words_nonempty [of cs] by (auto split: list.split)
qed simp

lemma in_split_words:
  "t \<in> set (split_words s) \<longleftrightarrow> t = takeWhile ident_char s \<or> t \<in> set (tl (split_words s))"
  using split_words_nonempty [of s] by (cases "split_words s") (auto simp: hd_split_words [symmetric])

lemma tl_split_words: "tl (split_words (c # cs)) =
    (if ident_char c then tl (split_words cs) else split_words cs)"
  using split_words_nonempty [of cs] by (auto split: list.split)

lemma takeWhile_eq:
  assumes "list_all P t"
  shows "t = takeWhile P s \<longleftrightarrow> (\<exists>post. s = t @ post \<and> (post = [] \<or> \<not> P (hd post)))"
proof
  assume t: "t = takeWhile P s"
  have "s = t @ dropWhile P s" by (simp add: t)
  moreover have "dropWhile P s = [] \<or> \<not> P (hd (dropWhile P s))"
    using hd_dropWhile [of P s] by blast
  ultimately show "\<exists>post. s = t @ post \<and> (post = [] \<or> \<not> P (hd post))" by blast
next
  assume "\<exists>post. s = t @ post \<and> (post = [] \<or> \<not> P (hd post))"
  then obtain post where s: "s = t @ post" "post = [] \<or> \<not> P (hd post)" by blast
  have "takeWhile P (t @ post) = t @ takeWhile P post"
    by (rule takeWhile_append2) (use assms in \<open>simp add: list_all_iff\<close>)
  moreover have "takeWhile P post = []" using s(2) by (cases post) auto
  ultimately show "t = takeWhile P s" by (simp add: s(1))
qed

text \<open>An occurrence of a word, with no identifier character at its sides.\<close>

definition occurs_after :: "string \<Rightarrow> string \<Rightarrow> string \<Rightarrow> bool" where
  "occurs_after pre t s \<longleftrightarrow>
     (pre = [] \<or> \<not> ident_char (last pre))
     \<and> (\<exists>post. s = pre @ t @ post \<and> (post = [] \<or> \<not> ident_char (hd post)))"

lemma occurs_first: "list_all ident_char t \<Longrightarrow> occurs_after [] t s \<longleftrightarrow> t = takeWhile ident_char s"
  by (simp add: occurs_after_def takeWhile_eq)

lemma occurs_later:
  assumes "list_all ident_char t"
  shows "t \<in> set (tl (split_words s)) \<longleftrightarrow> (\<exists>pre. pre \<noteq> [] \<and> occurs_after pre t s)"
proof (induction s)
  case Nil
  then show ?case by (auto simp: occurs_after_def)
next
  case (Cons c cs)
  have shift: "occurs_after (c # pre) t (c # cs) \<longleftrightarrow> occurs_after pre t cs" if "pre \<noteq> []" for pre
    using that by (simp add: occurs_after_def)
  have ex: "(\<exists>pre. pre \<noteq> [] \<and> occurs_after pre t (c # cs)) \<longleftrightarrow>
      occurs_after [c] t (c # cs) \<or> (\<exists>pre. pre \<noteq> [] \<and> occurs_after pre t cs)"
  proof
    assume "\<exists>pre. pre \<noteq> [] \<and> occurs_after pre t (c # cs)"
    then obtain pre where pre: "pre \<noteq> []" "occurs_after pre t (c # cs)" by blast
    then obtain d pre' where p: "pre = d # pre'" by (cases pre) auto
    with pre(2) have "d = c" by (auto simp: occurs_after_def)
    with p pre(2) shift [of pre'] show "occurs_after [c] t (c # cs) \<or> (\<exists>pre. pre \<noteq> [] \<and> occurs_after pre t cs)"
      by (cases "pre' = []") auto
  next
    assume "occurs_after [c] t (c # cs) \<or> (\<exists>pre. pre \<noteq> [] \<and> occurs_after pre t cs)"
    then show "\<exists>pre. pre \<noteq> [] \<and> occurs_after pre t (c # cs)" using shift by blast
  qed
  have first: "occurs_after [c] t (c # cs) \<longleftrightarrow> \<not> ident_char c \<and> occurs_after [] t cs"
    by (simp add: occurs_after_def)
  show ?case
    unfolding ex first occurs_first [OF assms] tl_split_words using Cons
    by (simp add: in_split_words)
qed

lemma contains_identifier_iff:
  assumes "list_all ident_char t"
  shows "contains_identifier s t \<longleftrightarrow> (\<exists>pre. occurs_after pre t s)"
proof -
  have "t \<in> set (split_words s) \<longleftrightarrow> t = takeWhile ident_char s \<or> t \<in> set (tl (split_words s))"
    by (rule in_split_words)
  also have "\<dots> \<longleftrightarrow> occurs_after [] t s \<or> (\<exists>pre. pre \<noteq> [] \<and> occurs_after pre t s)"
    by (simp only: occurs_first [OF assms] occurs_later [OF assms])
  also have "\<dots> \<longleftrightarrow> (\<exists>pre. occurs_after pre t s)"
    by metis
  finally show ?thesis by (simp add: contains_identifier_def list_ex_iff)
qed

section \<open>Totality\<close>

lemma diagnoses_pre_lines: "diagnoses (pre_lines offset n ls)"
  by (induction offset n ls rule: pre_lines.induct)
    (auto intro!: diagnoses_rbind simp: pre_line_def Let_def)

lemma lex_has_eof: "lex source = Inr ts \<Longrightarrow> has_eof ts"
  using run_tokens_of [OF _ lexer_at_new, of source ts]
  by (auto simp: lex_def tokens_of_def has_eof_def is_eof_def same_kind_def)

section \<open>Properties\<close>

text \<open>
  C20. Preprocessing keeps every position: the output has the length and the line breaks of the
  source, so that each prefix ends at the same line and column, and a diagnostic of a later
  pass points into the source.
\<close>

theorem preprocess_keeps_positions:
  assumes "preprocess source = Inr out"
  shows "length out = length source \<and> position (take n out) = position (take n source)"
proof
  note layout = preprocess_layout [OF assms]
  show "length out = length source" using same_layout_length [OF layout] by simp
  have "same_layout (take n source) (take n out)"
    using layout by (simp add: same_layout_def list_all2_takeI)
  then show "position (take n out) = position (take n source)"
    by (simp add: position_same_layout)
qed

lemma preprocess_keeps_positions_witness:
  "length (replicate 17 blank @ newline # ''int x;'') = 24
   \<and> position (take 24 (replicate 17 blank @ newline # ''int x;''))
     = position (take 24 (''#include <warp.h>'' @ newline # ''int x;''))"
proof -
  have "preprocess (''#include <warp.h>'' @ newline # ''int x;'')
      = Inr (replicate 17 blank @ newline # ''int x;'')"
    by code_simp
  from preprocess_keeps_positions [OF this, of 24] show ?thesis by simp
qed

text \<open>
  C21. A platform function is appended exactly when its name occurs in the text as a word, with
  no identifier character before or behind it.
\<close>

theorem platform_library_on_use:
  "inject_platform_library source =
     source @ (if \<exists>pre. occurs_after pre ''warp_memcpy'' source then WARP_MEMCPY_SOURCE else [])
       @ (if \<exists>pre. occurs_after pre ''warp_memset'' source then WARP_MEMSET_SOURCE else [])"
proof -
  have "list_all ident_char ''warp_memcpy''" "list_all ident_char ''warp_memset''" by code_simp+
  then show ?thesis by (simp add: inject_platform_library_def contains_identifier_iff)
qed

lemma front_end_cases:
  "(\<exists>d. front_end source = Inl (Diag d)) \<or> (\<exists>p. front_end source = Inr p \<and> program_named p)"
proof (cases "preprocess source")
  case (Inl e)
  with diagnoses_pre_lines [of 0 1 "split_inclusive newline source"] show ?thesis
    by (auto simp: front_end_def preprocess_def diagnoses_def)
next
  case (Inr text')
  note pre = this
  show ?thesis
  proof (cases "lex (inject_platform_library text')")
    case (Inl e)
    with diagnoses_run [of "lexer_new (inject_platform_library text')"] pre show ?thesis
      by (auto simp: front_end_def lex_def diagnoses_def)
  next
    case (Inr ts)
    with pre have "front_end source = parse_tokens ts" by (simp add: front_end_def)
    with lex_has_eof [OF Inr] show ?thesis by (auto elim: parse_tokens_cases)
  qed
qed

text \<open>
  C15. The front end is total: on any bytes it returns a diagnostic or a syntax tree, whose
  structure fields and globals have names and which has a function.
\<close>

theorem front_end_total:
  "(\<exists>d. front_end source = Inl (Diag d)) \<or> (\<exists>p. front_end source = Inr p \<and> program_named p)"
  by (rule front_end_cases)

end
