(* ===== verification/Front_Sema.thy ===== *)
theory Front_Sema
  imports Sema_Sound Preprocess
begin

text \<open>
  The front end and the analysis together: what the parser returns is what the analysis needs,
  so from the bytes of a source on, there is a diagnostic, a size of more than 64 bits, or a
  well-typed program.
\<close>

section \<open>Declarations in statements have names\<close>

lemma declaration_named: "parse_declaration s = Inr (x, t) \<Longrightarrow> stmt_named x"
  by (auto simp: parse_declaration_def parse_decl_type_def Let_def res_simps has_name_def named_def
      dest!: decl_type_named)

lemma for_initializer_named:
  "for_initializer s = Inr (i, t) \<Longrightarrow> case i of Some (F_Decl ty e sp) \<Rightarrow> has_name ty | _ \<Rightarrow> True"
  by (auto simp: for_initializer_def parse_decl_type_def Let_def res_simps has_name_def named_def
      dest!: decl_type_named split: if_splits)

lemma block_named_items:
  assumes "\<And>s x t. r s = Inr (x, t) \<Longrightarrow> stmt_named x" and "block r s = Inr (b, t)"
  shows "block_named b"
proof -
  from assms(2) obtain sp u v xs where xs: "many (at_kind TRBrace) (block_item r sp) u = Inr (xs, v)"
    and b: "b = Block xs sp"
    by (auto simp: block_def res_simps)
  have "\<forall>x\<in>set xs. stmt_named x"
    by (rule many_all [OF _ xs])
      (auto simp: block_item_def dest: assms(1) declaration_named split: if_splits)
  with b show ?thesis by (simp add: list_all_iff)
qed

lemmas statement_forms = if_statement_def while_statement_def do_while_statement_def for_statement_def
  switch_statement_def case_statement_def default_statement_def jump_statement_def
  return_statement_def expression_statement_def

lemma statement_body_named:
  assumes r: "\<And>s x t. r s = Inr (x, t) \<Longrightarrow> stmt_named x" and "statement_body r s = Inr (x, t)"
  shows "stmt_named x"
proof -
  have "stmt_named x" if "if_statement r s = Inr (x, t)"
    using that by (auto simp: if_statement_def Let_def res_simps dest: r split: if_splits)
  moreover have "stmt_named x" if "for_statement r s = Inr (x, t)"
    using that by (auto simp: for_statement_def Let_def res_simps dest: r for_initializer_named)
  moreover have "stmt_named x" if "block r s = Inr (b, t)" "x = S_Block b" for b
    using block_named_items [OF r that(1)] that(2) by simp
  ultimately show ?thesis
    using assms(2) unfolding statement_body_def
    by (auto simp: statement_forms Let_def res_simps dest: r split: if_splits)
qed

lemma statement_named: "statement s = Inr (x, t) \<Longrightarrow> stmt_named x"
proof (induction "length s" arbitrary: s x t rule: less_induct)
  case less
  from less.prems have "statement_body (\<lambda>t. if length t < length s then statement t else Inl OutOfFuel) s = Inr (x, t)"
    by (subst (asm) statement.simps)
  then show ?case
    by (rule statement_body_named [rotated]) (auto split: if_splits intro: less.hyps)
qed

lemma statement_block_named: "block statement s = Inr (b, t) \<Longrightarrow> block_named b"
  by (rule block_named_items) (rule statement_named)

definition function_named :: "function_decl \<Rightarrow> bool" where
  "function_named f \<longleftrightarrow> (case f_body f of None \<Rightarrow> True | Some b \<Rightarrow> block_named b)"

lemma parse_function_named: "parse_function u b d n s = Inr (f, t) \<Longrightarrow> function_named f"
  by (auto simp: function_named_def parse_function_def parse_block_def Let_def res_simps
      dest: statement_block_named split: if_splits)

lemma top_function_named: "top_declaration s = Inr (Top_Function f, t) \<Longrightarrow> function_named f"
  unfolding top_declaration_def
  by (auto simp: rbind_eq_Inr dest: parse_function_named split: if_splits option.splits prod.splits)

lemma front_end_functions:
  assumes "front_end source = Inr p"
  shows "list_all function_named (pr_functions p)"
proof -
  from assms obtain ts s t where "parse_program ts = Inr (p, t)"
    by (auto simp: front_end_def parse_tokens_def res_simps split: if_splits)
  then obtain tops where tops: "many (at_kind TEof) top_declaration ts = Inr (tops, t)"
    and p: "pr_functions p = tops_functions tops"
    by (auto simp: parse_program_def parse_error_def diag_def res_simps split: if_splits)
  have "\<forall>x\<in>set tops. \<forall>f. x = Top_Function f \<longrightarrow> function_named f"
    by (rule many_all [OF _ tops]) (auto dest: top_function_named)
  with p show ?thesis
    by (auto simp: tops_functions_def list_all_iff split: top_level.splits)
qed

lemma front_end_program_ok: "front_end source = Inr p \<Longrightarrow> program_ok p"
  using front_end_cases [of source] front_end_functions [of source p]
  by (auto simp: program_ok_def program_named_def list_all_iff named_def has_name_def function_named_def)

section \<open>From bytes to typed programs\<close>

text \<open>
  C7. From any bytes, the front end and the analysis end in a diagnostic, in the overflow panic of a
  size computation, or in a program whose functions are all well typed over its locals, globals,
  structures and signatures, with a defined \<open>main\<close>: no index of the analysis is out of range,
  no option it unwraps is empty, and nothing runs for ever.
\<close>

theorem source_analysis_sound:
  "case rbind (front_end source) analyze of
     Inl e \<Rightarrow> benign e
   | Inr t \<Rightarrow> (case front_end source of Inl e \<Rightarrow> False | Inr p \<Rightarrow> program_typed p t)"
proof (cases "front_end source")
  case (Inl e)
  then show ?thesis using front_end_cases [of source] by auto
next
  case (Inr p)
  with analyze_done [OF front_end_program_ok [OF Inr]] show ?thesis
    by (simp add: okres_def split: sum.splits)
qed

end
