(* ===== verification/Sema_Equations.thy ===== *)
theory Sema_Equations
  imports Typed_Stmt
begin

text \<open>
  The recursion of the source: \<open>inline_call\<close> analyses the body of a candidate with the same
  functions that called it, while the model analyses it one level of expansion down. A
  candidate contains no calls, so the two are the same: the analysis satisfies the equations
  of the source, and the end of the chain of levels is never reached.
\<close>

section \<open>Expansions that agree on the candidates\<close>

definition agree :: "(nat \<rightharpoonup> inline_candidate) \<Rightarrow> inliner \<Rightarrow> inliner \<Rightarrow> bool" where
  "agree m inl inl' \<longleftrightarrow> (\<forall>c args symbol sp s. c \<in> ran m \<longrightarrow> an_inline_candidates s = m \<longrightarrow>
     inl c args symbol sp s = inl' c args symbol sp s)"

lemma plan_call_candidate:
  assumes "plan_call callee args sp s = Inr (Plan_Inline c symbol)"
  shows "c \<in> ran (an_inline_candidates s)"
  using assms
  by (auto simp: plan_call_def plan_function_def plan_intrinsic_def wrong_arity_def rbind_eq_Inr ranI
      split: if_splits option.splits)

lemma plan_finish_agree:
  assumes "agree (an_inline_candidates s) inl inl'"
    and "\<And>c symbol. plan = Plan_Inline c symbol \<Longrightarrow> c \<in> ran (an_inline_candidates s)"
  shows "plan_finish inl callee plan ts sp s = plan_finish inl' callee plan ts sp s"
  using assms by (cases plan) (auto simp: plan_finish_def agree_def)

lemma frame_candidates: "leads expr_frame s r \<Longrightarrow> r = Inr (x, t) \<Longrightarrow> an_inline_candidates t = an_inline_candidates s"
  by (auto simp: leads_def expr_frame_def body_kept_def static_of_def)

lemma stmt_frame_candidates:
  "leads stmt_frame s r \<Longrightarrow> r = Inr (x, t) \<Longrightarrow> an_inline_candidates t = an_inline_candidates s"
  by (auto simp: leads_def stmt_frame_def body_kept_def static_of_def)

lemma mask_candidates [simp]: "an_inline_candidates (enter_mask b s) = an_inline_candidates s"
  by (simp add: enter_mask_def)

lemma te_expr_candidates:
  assumes "inliner_frame inl"
  shows "te_expr inl e s = Inr (x, t) \<Longrightarrow> an_inline_candidates t = an_inline_candidates s"
    and "te_args inl plan n es s = Inr (ts, u) \<Longrightarrow> an_inline_candidates u = an_inline_candidates s"
  by (rule frame_candidates [OF frame_te_expr(1) [OF assms]], assumption)
    (rule frame_candidates [OF frame_te_expr(2) [OF assms]], assumption)

lemma te_expr_agree:
  assumes frame: "inliner_frame inl'"
  shows "agree (an_inline_candidates s) inl inl' \<Longrightarrow> te_expr inl e s = te_expr inl' e s"
    and "agree (an_inline_candidates s) inl inl' \<Longrightarrow> te_args inl plan n es s = te_args inl' plan n es s"
proof (induction inl e s and inl plan n es s rule: te_expr_te_args.induct)
  case (5 inl callee args sp s)
  show ?case
    unfolding te_expr.simps
  proof (rule rbind_cong [OF HOL.refl], rule rbind_cong)
    fix plan
    assume plan: "plan_call callee args sp s = Inr plan"
    show "te_args inl plan 0 args s = te_args inl' plan 0 args s" by (rule 5(1) [OF plan 5(2)])
    fix x
    assume x: "te_args inl' plan 0 args s = Inr x"
    obtain ts t where ts: "x = (ts, t)" by (cases x)
    note same = te_expr_candidates(2) [OF frame x [unfolded ts]]
    have "plan_finish inl callee plan ts sp t = plan_finish inl' callee plan ts sp t"
      by (rule plan_finish_agree) (use same 5(2) plan_call_candidate plan in auto)
    then show "(case x of (args, s) \<Rightarrow> plan_finish inl callee plan args sp s)
        = (case x of (args, s) \<Rightarrow> plan_finish inl' callee plan args sp s)"
      by (simp add: ts)
  qed
next
  case (8 inl c t e sp s)
  then show ?case
    by (auto simp: Let_def te_expr_candidates [OF frame] intro!: rbind_cong split: prod.splits)
qed (auto intro!: rbind_cong simp: te_expr_candidates [OF frame] split: prod.splits)

section \<open>Statements\<close>

lemma parts_agree:
  assumes "inliner_frame inl'" "agree (an_inline_candidates s) inl inl'"
  shows "typed_init inl ty init s = typed_init inl' ty init s"
    and "local_declaration inl d init sp s = local_declaration inl' d init sp s"
    and "condition_expr inl e role s = condition_expr inl' e role s"
    and "uniform_condition inl e role s = uniform_condition inl' e role s"
    and "optional_expr inl c s = optional_expr inl' c s"
    and "return_stmt inl c sp s = return_stmt inl' c sp s"
    and "case_label inl e sp s = case_label inl' e sp s"
    and "for_condition inl c s = for_condition inl' c s"
    and "for_init_typed inl i s = for_init_typed inl' i s"
proof -
  note expr = te_expr_agree(1) [OF assms]
  show init: "typed_init inl ty init s = typed_init inl' ty init s" for ty init
    unfolding typed_init_def expr ..
  show decl: "local_declaration inl d init sp s = local_declaration inl' d init sp s" for d init sp
    unfolding local_declaration_def init ..
  show condition: "condition_expr inl e role s = condition_expr inl' e role s" for e role
    unfolding condition_expr_def expr ..
  show uniform: "uniform_condition inl e role s = uniform_condition inl' e role s" for e role
    unfolding uniform_condition_def condition ..
  show optional: "optional_expr inl c s = optional_expr inl' c s" for c
    unfolding optional_expr_def expr ..
  show "return_stmt inl c sp s = return_stmt inl' c sp s"
    unfolding return_stmt_def optional ..
  show "case_label inl e sp s = case_label inl' e sp s"
    unfolding case_label_def expr ..
  show "for_condition inl c s = for_condition inl' c s"
    unfolding for_condition_def uniform ..
  show "for_init_typed inl i s = for_init_typed inl' i s"
    unfolding for_init_typed_def decl expr ..
qed

lemma stmt_candidates:
  assumes "inliner_frame inl"
  shows "local_declaration inl d init sp s = Inr (x1, t) \<Longrightarrow> an_inline_candidates t = an_inline_candidates s"
    and "condition_expr inl e role s = Inr (x2, t) \<Longrightarrow> an_inline_candidates t = an_inline_candidates s"
    and "uniform_condition inl e role s = Inr (x2, t) \<Longrightarrow> an_inline_candidates t = an_inline_candidates s"
    and "optional_expr inl c s = Inr (x3, t) \<Longrightarrow> an_inline_candidates t = an_inline_candidates s"
    and "for_condition inl c s = Inr (x3, t) \<Longrightarrow> an_inline_candidates t = an_inline_candidates s"
    and "for_init_typed inl i s = Inr (x4, t) \<Longrightarrow> an_inline_candidates t = an_inline_candidates s"
    and "case_label inl e sp s = Inr (x5, t) \<Longrightarrow> an_inline_candidates t = an_inline_candidates s"
    and "default_label sp s = Inr (x5, t) \<Longrightarrow> an_inline_candidates t = an_inline_candidates s"
    and "te_stmt inl x s = Inr (x6, t) \<Longrightarrow> an_inline_candidates t = an_inline_candidates s"
    and "in_loop (te_stmt inl x) s = Inr (x6, t) \<Longrightarrow> an_inline_candidates t = an_inline_candidates s"
  by (rule stmt_frame_candidates [OF local_declaration_frame [OF assms]]
      stmt_frame_candidates [OF condition_frame(1) [OF assms]] stmt_frame_candidates [OF condition_frame(2) [OF assms]]
      stmt_frame_candidates [OF condition_frame(3) [OF assms]] stmt_frame_candidates [OF condition_frame(4) [OF assms]]
      stmt_frame_candidates [OF condition_frame(5) [OF assms]] stmt_frame_candidates [OF condition_frame(6) [OF assms]]
      stmt_frame_candidates [OF condition_frame(7) [OF assms]] stmt_frame_candidates [OF frame_te_stmt(1) [OF assms]]
      stmt_frame_candidates [OF in_loop_frame [OF assms]], assumption)+

lemma scope_candidates [simp]: "an_inline_candidates (push_scope m s) = an_inline_candidates s"
    "an_inline_candidates (push_switch s) = an_inline_candidates s"
  by (simp_all add: push_scope_def push_switch_def)

lemma in_loop_agree:
  "b (s\<lparr>an_loop_depth := an_loop_depth s + 1\<rparr>) = b' (s\<lparr>an_loop_depth := an_loop_depth s + 1\<rparr>) \<Longrightarrow>
   in_loop b s = in_loop b' s"
  by (simp add: in_loop_def)

lemma step_cong:
  "r = r' \<Longrightarrow> (\<And>x t. r' = Inr (x, t) \<Longrightarrow> f (x, t) = f' (x, t)) \<Longrightarrow> rbind r f = rbind r' f'"
  by (cases r') auto

lemma agree_loop: "an_inline_candidates (s\<lparr>an_loop_depth := n\<rparr>) = an_inline_candidates s"
  by simp

lemma te_stmt_agree:
  assumes frame: "inliner_frame inl'"
  shows "agree (an_inline_candidates s) inl inl' \<Longrightarrow> te_stmt inl x s = te_stmt inl' x s"
    and "agree (an_inline_candidates s) inl inl' \<Longrightarrow> te_stmts inl xs s = te_stmts inl' xs s"
    and "agree (an_inline_candidates s) inl inl' \<Longrightarrow> te_block inl b m s = te_block inl' b m s"
proof (induction inl x s and inl xs s and inl b m s rule: te_stmt_te_stmts_te_block.induct)
  case (1 inl ty init sp s)
  then show ?case by (simp add: parts_agree(2) [OF frame 1])
next
  case (2 inl e sp s)
  then show ?case by (simp add: parts_agree(5) [OF frame 2])
next
  case (3 inl e sp s)
  then show ?case by (simp add: parts_agree(6) [OF frame 3])
next
  case (5 inl c t e sp s)
  note condition = parts_agree(3) [OF frame 5(3)]
  show ?case
    unfolding te_stmt.simps Let_def condition
  proof (rule step_cong [OF HOL.refl], unfold prod.case, rule if_cong [OF HOL.refl HOL.refl])
    fix x u
    let ?b = "is_masked u x"
    assume x: "condition_expr inl' c ''if condition'' s = Inr (x, u)" and nest: "\<not> (?b \<and> 2 \<le> an_divergent_depth u)"
    have agree: "agree (an_inline_candidates (enter_mask ?b u)) inl inl'"
      using stmt_candidates(2) [OF frame x] 5(3) by simp
    note arm = 5(1) [OF x [folded condition] HOL.refl HOL.refl nest agree]
    show "rbind (te_stmt inl t (enter_mask ?b u)) (\<lambda>(y, s). rbind (case e of None \<Rightarrow> Inr (None, s)
        | Some e \<Rightarrow> rbind (te_stmt inl e s) (\<lambda>(x, s). Inr (Some x, s))) (\<lambda>(z, s). Inr (TS_If x y z sp, leave_mask ?b s)))
      = rbind (te_stmt inl' t (enter_mask ?b u)) (\<lambda>(y, s). rbind (case e of None \<Rightarrow> Inr (None, s)
        | Some e \<Rightarrow> rbind (te_stmt inl' e s) (\<lambda>(x, s). Inr (Some x, s))) (\<lambda>(z, s). Inr (TS_If x y z sp, leave_mask ?b s)))"
    proof (rule step_cong [OF arm], unfold prod.case)
      fix y v
      assume y: "te_stmt inl' t (enter_mask ?b u) = Inr (y, v)"
      have "agree (an_inline_candidates v) inl inl'"
        using stmt_candidates(9) [OF frame y] agree by simp
      from 5(2) [OF x [folded condition] HOL.refl HOL.refl nest y [folded arm] HOL.refl _ this]
      show "rbind (case e of None \<Rightarrow> Inr (None, v)
          | Some e \<Rightarrow> rbind (te_stmt inl e v) (\<lambda>(x, s). Inr (Some x, s))) (\<lambda>(z, s). Inr (TS_If x y z sp, leave_mask ?b s))
        = rbind (case e of None \<Rightarrow> Inr (None, v)
          | Some e \<Rightarrow> rbind (te_stmt inl' e v) (\<lambda>(x, s). Inr (Some x, s))) (\<lambda>(z, s). Inr (TS_If x y z sp, leave_mask ?b s))"
        by (cases e) simp_all
    qed
  qed
next
  case (6 inl c b sp s)
  have "in_loop (te_stmt inl b) t = in_loop (te_stmt inl' b) t"
    if "reject_divergent_control sp ''while loop'' s = Inr u"
      "uniform_condition inl' c ''while condition'' s = Inr (x, t)" for u x t
    using stmt_candidates(3) [OF frame that(2)] 6(2)
    by (intro in_loop_agree 6(1) [OF that(1) that(2) [folded parts_agree(4) [OF frame 6(2)]] HOL.refl]) simp
  then show ?case
    unfolding te_stmt.simps parts_agree(4) [OF frame 6(2)]
    by (intro rbind_cong [OF HOL.refl] step_cong [OF HOL.refl], unfold prod.case) simp
next
  case (7 inl b c sp s)
  have loop: "in_loop (te_stmt inl b) s = in_loop (te_stmt inl' b) s"
    if "reject_divergent_control sp ''do/while loop'' s = Inr u" for u
    by (intro in_loop_agree 7(1) [OF that]) (simp add: 7(2))
  have condition: "uniform_condition inl c ''do/while condition'' t = uniform_condition inl' c ''do/while condition'' t"
    if "in_loop (te_stmt inl' b) s = Inr (x, t)" for x t
    by (rule parts_agree(4) [OF frame]) (simp add: stmt_candidates(10) [OF frame that] 7(2))
  show ?case
    unfolding te_stmt.simps
    by (rule rbind_cong [OF HOL.refl], rule step_cong [OF loop], assumption, unfold prod.case)
      (simp add: condition)
next
  case (8 inl init c step b sp s)
  let ?s = "push_scope Map.empty s"
  have 0: "agree (an_inline_candidates ?s) inl inl'" using 8(2) by simp
  have 1: "agree (an_inline_candidates t) inl inl'" if "for_init_typed inl' init ?s = Inr (x, t)" for x t
    using stmt_candidates(6) [OF frame that] 8(2) by simp
  have 2: "agree (an_inline_candidates u) inl inl'"
    if "for_condition inl' c t = Inr (y, u)" "agree (an_inline_candidates t) inl inl'" for y t u
    using stmt_candidates(5) [OF frame that(1)] that(2) by simp
  have 3: "agree (an_inline_candidates u) inl inl'"
    if "optional_expr inl' step t = Inr (y, u)" "agree (an_inline_candidates t) inl inl'" for y t u
    using stmt_candidates(4) [OF frame that(1)] that(2) by simp
  have 4: "in_loop (te_stmt inl b) w = in_loop (te_stmt inl' b) w"
    if r: "reject_divergent_control sp ''for loop'' s = Inr k" "for_init_typed inl' init ?s = Inr ((i, ids), u)"
      "for_condition inl' c u = Inr (y, v)" "optional_expr inl' step v = Inr (z, w)" for k i ids u y v z w
  proof -
    note a = 1 [OF r(2)] 2 [OF r(3) 1 [OF r(2)]] 3 [OF r(4) 2 [OF r(3) 1 [OF r(2)]]]
    show ?thesis
      using a(3) by (intro in_loop_agree 8(1) [OF r(1) r(2) [folded parts_agree(9) [OF frame 0]] HOL.refl HOL.refl
          r(3) [folded parts_agree(8) [OF frame a(1)]] HOL.refl r(4) [folded parts_agree(5) [OF frame a(2)]] HOL.refl])
        simp
  qed
  show ?case
    unfolding te_stmt.simps parts_agree(9) [OF frame 0]
  proof (intro rbind_cong [OF HOL.refl] step_cong [OF HOL.refl], unfold split_paired_all prod.case)
    fix k i ids u
    assume r: "reject_divergent_control sp ''for loop'' s = Inr k" "for_init_typed inl' init ?s = Inr ((i, ids), u)"
    show "rbind (for_condition inl c u) (\<lambda>(condition, s). rbind (optional_expr inl step s) (\<lambda>(tstep, s).
        rbind (in_loop (te_stmt inl b) s) (\<lambda>(body, s). Inr (TS_For i condition tstep body ids sp, pop_scope s))))
      = rbind (for_condition inl' c u) (\<lambda>(condition, s). rbind (optional_expr inl' step s) (\<lambda>(tstep, s).
        rbind (in_loop (te_stmt inl' b) s) (\<lambda>(body, s). Inr (TS_For i condition tstep body ids sp, pop_scope s))))"
      unfolding parts_agree(8) [OF frame 1 [OF r(2)]]
    proof (rule step_cong [OF HOL.refl], unfold prod.case)
      fix y v
      assume v: "for_condition inl' c u = Inr (y, v)"
      show "rbind (optional_expr inl step v) (\<lambda>(tstep, s).
          rbind (in_loop (te_stmt inl b) s) (\<lambda>(body, s). Inr (TS_For i y tstep body ids sp, pop_scope s)))
        = rbind (optional_expr inl' step v) (\<lambda>(tstep, s).
          rbind (in_loop (te_stmt inl' b) s) (\<lambda>(body, s). Inr (TS_For i y tstep body ids sp, pop_scope s)))"
        unfolding parts_agree(5) [OF frame 2 [OF v 1 [OF r(2)]]]
        by (rule step_cong [OF HOL.refl], unfold prod.case) (simp add: 4 [OF r v])
    qed
  qed
next
  case (11 inl e b sp s)
  show ?case
    unfolding te_stmt.simps parts_agree(4) [OF frame 11(2)]
    using 11 by (auto intro!: rbind_cong simp: stmt_candidates [OF frame]
        parts_agree(4) [OF frame 11(2)] split: prod.splits)
next
  case (12 inl e b sp s)
  show ?case
    unfolding te_stmt.simps parts_agree(7) [OF frame 12(2)]
    using 12 by (auto intro!: rbind_cong simp: stmt_candidates [OF frame]
        parts_agree(7) [OF frame 12(2)] split: prod.splits)
qed (auto intro!: rbind_cong simp: stmt_candidates [OF frame] split: prod.splits)

section \<open>The equations of the source\<close>

lemma analysis_agrees:
  assumes "good s"
  shows "agree (an_inline_candidates s) (expander 1) (inline_body analyze_expr analyze_stmt)"
  unfolding agree_def
proof (intro allI impI)
  fix c args symbol sp u
  assume "c \<in> ran (an_inline_candidates s)"
  then obtain f where "candidate_ok f c"
    using assms by (auto simp: good_def tables_ok_def Let_def ran_def)
  then show "expander 1 c args symbol sp u = inline_body analyze_expr analyze_stmt c args symbol sp u"
    unfolding One_nat_def expander.simps analyze_expr_def analyze_stmt_def by (rule inline_body_call_free)
qed

lemma analysis_frame: "inliner_frame (inline_body analyze_expr analyze_stmt)"
  using expander_frame [of "Suc 1"] by (simp add: analyze_expr_def analyze_stmt_def)

text \<open>
  C27. The analysis satisfies the recursion equations of the source: a call of an inline candidate
  is expanded by the analysis itself, without a bound on the depth, wherever the tables are
  well formed. The level of expansion that the model stops at is never missed.
\<close>

theorem analysis_equations:
  assumes "good s"
  shows "analyze_expr e s = te_expr (inline_body analyze_expr analyze_stmt) e s
    \<and> analyze_stmt x s = te_stmt (inline_body analyze_expr analyze_stmt) x s
    \<and> analyze_block b m s = te_block (inline_body analyze_expr analyze_stmt) b m s"
  using te_expr_agree(1) [OF analysis_frame analysis_agrees [OF assms]]
    te_stmt_agree(1,3) [OF analysis_frame analysis_agrees [OF assms]]
  by (simp add: analyze_expr_def analyze_stmt_def analyze_block_def)

text \<open>A caller with a local \<open>x\<close>, next to a global \<open>x\<close> and a function \<open>get\<close> that returns it.\<close>

definition here_span :: span where
  "here_span = span_new 0 1 1"

definition name_of :: "string \<Rightarrow> expr" where
  "name_of x = Expr (E_Name x) here_span"

definition call_get :: expr where
  "call_get = Expr (E_Call ''get'' []) here_span"

definition get_symbol :: function_symbol where
  "get_symbol = \<lparr>fs_name = ''get'', fs_return_type = T_I32, fs_params = [], fs_param_shapes = [],
     fs_param_names = [], fs_param_spans = [], fs_return_shape = Shape_Warp, fs_defined = True,
     fs_span = here_span\<rparr>"

definition in_get :: analyzer where
  "in_get = analyzer_new\<lparr>
     an_globals := [\<lparr>gi_name = ''x'', gi_ty = T_I32, gi_address = 0, gi_span = here_span\<rparr>],
     an_global_ids := [''x'' \<mapsto> 0], an_data_words := [7],
     an_functions := [get_symbol, get_symbol\<lparr>fs_name := ''main''\<rparr>],
     an_function_ids := [''get'' \<mapsto> 0, ''main'' \<mapsto> 1],
     an_inline_candidates := [0 \<mapsto> \<lparr>ic_params = [], ic_statements = [], ic_result = name_of ''x''\<rparr>],
     an_call_edges := [[], []], an_current_function := Some 0, an_scopes := [Map.empty]\<rparr>"

definition in_caller :: analyzer where
  "in_caller = in_get\<lparr>an_current_function := Some 1, an_scopes := [[''x'' \<mapsto> 0]],
     an_locals := [\<lparr>li_name = ''x'', li_ty = T_I32, li_span = here_span, li_uniformity = Divergent,
       li_shape = Shape_Warp, li_address_taken = False, li_frame_offset = None\<rparr>]\<rparr>"

lemma caller_good: "good in_caller" "good in_get"
  by (simp_all add: good_def in_caller_def in_get_def analyzer_new_def tables_ok_def bodies_ok_def scopes_ok_def
      edges_ok_def symbol_ok_def get_symbol_def map_below_def candidate_ok_def name_of_def)

lemma analysis_equations_witness:
  "analyze_expr call_get in_caller = te_expr (inline_body analyze_expr analyze_stmt) call_get in_caller"
  using analysis_equations [OF caller_good(1), of call_get] by blast


section \<open>Well-typed trees\<close>

text \<open>
  C22. In a well-formed state the analysis of an expression or a statement ends in a diagnostic, in
  the overflow of a size, or in a tree that is well typed over the types the state then knows,
  and the state is well formed again.
\<close>

theorem analysis_is_typed:
  assumes "ready s" and "stmt_named x"
  shows "okres (\<lambda>(t, u). te_ok (env_of u) t \<and> ready u) (analyze_expr e s)
    \<and> okres (\<lambda>(t, u). ts_ok (env_of u) (an_return_type s) t \<and> ready u) (analyze_stmt x s)"
proof
  have frame: "leads expr_frame s (analyze_expr e s)" "leads stmt_frame s (analyze_stmt x s)"
    by (rule frame.analysis)+
  have "okres expr_done (analyze_expr e s)"
    using assms(1) by (intro analysis_typed(1) ready_good)
  then show "okres (\<lambda>(t, u). te_ok (env_of u) t \<and> ready u) (analyze_expr e s)"
    using frame(1) assms(1)
    by (auto simp: okres_def leads_def frame.weaken intro: stmt_frame_ready split: sum.splits)
  show "okres (\<lambda>(t, u). ts_ok (env_of u) (an_return_type s) t \<and> ready u) (analyze_stmt x s)"
    using analysis_typed(2) [OF assms(2,1)] frame(2) assms(1)
    by (auto simp: okres_def leads_def stmt_done_def intro: stmt_frame_ready split: sum.splits)
qed

lemma caller_ready: "ready in_caller"
  using caller_good(1) by (simp add: ready_def in_caller_def in_get_def)

lemma analysis_is_typed_witness:
  "okres (\<lambda>(t, u). te_ok (env_of u) t \<and> ready u) (analyze_expr call_get in_caller)"
  using analysis_is_typed [OF caller_ready, of "S_Break here_span" call_get] by simp

end
