(* ===== verification/Switch_Labels.thy ===== *)
theory Switch_Labels
  imports Sema_Equations
begin

text \<open>
  The labels of switches. The contract of \<open>Sema_Frame\<close> is interpreted a second time, on the
  relation that keeps the labels of every open switch different from each other: an accepted
  switch has at most one label for each value and one default, and no number is given twice.
\<close>

section \<open>Open switches\<close>

text \<open>The labels of a switch are as its tables of values say, and their numbers are taken.\<close>

definition context_ok :: "nat \<Rightarrow> switch_context \<Rightarrow> bool" where
  "context_ok n c \<longleftrightarrow> distinct (map sl_id (sc_labels c)) \<and> (\<forall>l\<in>set (sc_labels c). sl_id l < n)
     \<and> distinct (map sl_value (sc_labels c))
     \<and> (\<forall>l\<in>set (sc_labels c). case sl_value l of
          None \<Rightarrow> sc_default_span c \<noteq> None | Some v \<Rightarrow> sc_values c v \<noteq> None)"

definition labels_ok :: "analyzer \<Rightarrow> bool" where
  "labels_ok s \<longleftrightarrow> list_all (context_ok (an_next_switch_label s)) (an_switch_stack s)"

definition labels_added :: "nat \<Rightarrow> switch_context \<Rightarrow> switch_context \<Rightarrow> bool" where
  "labels_added n c d \<longleftrightarrow> (\<exists>ls. sc_labels d = sc_labels c @ ls \<and> (\<forall>l\<in>set ls. n \<le> sl_id l))"

definition labels_kept :: "analyzer \<Rightarrow> analyzer \<Rightarrow> bool" where
  "labels_kept s t \<longleftrightarrow> an_next_switch_label s \<le> an_next_switch_label t
     \<and> length (an_switch_stack t) = length (an_switch_stack s)
     \<and> butlast (an_switch_stack t) = butlast (an_switch_stack s)
     \<and> (an_switch_stack s = [] \<or> labels_added (an_next_switch_label s) (last (an_switch_stack s)) (last (an_switch_stack t)))
     \<and> (labels_ok s \<longrightarrow> labels_ok t)"

lemma labels_added_refl: "labels_added n c c"
  by (simp add: labels_added_def)

lemma labels_added_trans: "labels_added n c d \<Longrightarrow> labels_added m d e \<Longrightarrow> n \<le> m \<Longrightarrow> labels_added n c e"
  unfolding labels_added_def by fastforce

lemma labels_kept_trans: "labels_kept s t \<Longrightarrow> labels_kept t u \<Longrightarrow> labels_kept s u"
  unfolding labels_kept_def
  by (metis labels_added_trans length_0_conv le_trans)

lemma labels_kept_same:
  assumes "an_switch_stack t = an_switch_stack s" "an_next_switch_label t = an_next_switch_label s"
  shows "labels_kept s t"
  using assms by (simp add: labels_kept_def labels_ok_def labels_added_refl)

lemma context_ok_mono: "context_ok n c \<Longrightarrow> n \<le> m \<Longrightarrow> context_ok m c"
  unfolding context_ok_def by fastforce

lemma labels_ok_last: "labels_ok s \<Longrightarrow> an_switch_stack s \<noteq> [] \<Longrightarrow>
    context_ok (an_next_switch_label s) (last (an_switch_stack s))"
  by (simp add: labels_ok_def list_all_iff)

lemma context_fresh:
  assumes "context_ok n c"
  shows "sc_values c v = None \<Longrightarrow> Some v \<notin> sl_value ` set (sc_labels c)"
    and "sc_default_span c = None \<Longrightarrow> None \<notin> sl_value ` set (sc_labels c)"
proof -
  have labels: "case sl_value l of None \<Rightarrow> sc_default_span c \<noteq> None | Some v \<Rightarrow> sc_values c v \<noteq> None"
    if "l \<in> set (sc_labels c)" for l
    using assms that by (auto simp: context_ok_def)
  show "Some v \<notin> sl_value ` set (sc_labels c)" if "sc_values c v = None"
    using labels that by (force split: option.splits)
  show "sc_default_span c = None \<Longrightarrow> None \<notin> sl_value ` set (sc_labels c)"
    using labels by (force split: option.splits)
qed

lemma context_ok_case:
  assumes "context_ok n c" "sc_values c v = None"
  shows "context_ok (Suc n) (c\<lparr>sc_values := (sc_values c)(v \<mapsto> sp),
    sc_labels := sc_labels c @ [\<lparr>sl_id = n, sl_value = Some v, sl_span = sp\<rparr>]\<rparr>)"
  using context_fresh(1) [OF assms] assms unfolding context_ok_def
  by (fastforce split: option.splits)

lemma context_ok_default:
  assumes "context_ok n c" "sc_default_span c = None"
  shows "context_ok (Suc n) (c\<lparr>sc_default_span := Some sp,
    sc_labels := sc_labels c @ [\<lparr>sl_id = n, sl_value = None, sl_span = sp\<rparr>]\<rparr>)"
  using context_fresh(2) [OF assms] assms unfolding context_ok_def
  by (fastforce split: option.splits)

text \<open>The labels of the context are those of the switch, its tables have the new label in.\<close>

lemma add_label_kept:
  assumes label: "add_label d v sp s = Inr (i, t)" and stack: "an_switch_stack s \<noteq> []"
    and d: "sc_labels d = sc_labels (last (an_switch_stack s))"
    and new: "context_ok (an_next_switch_label s) (last (an_switch_stack s)) \<Longrightarrow>
      context_ok (an_next_switch_label s + 1) (d\<lparr>sc_labels := sc_labels d @ [\<lparr>sl_id = an_next_switch_label s, sl_value = v, sl_span = sp\<rparr>]\<rparr>)"
  shows "labels_kept s t"
proof -
  let ?c = "d\<lparr>sc_labels := sc_labels d @ [\<lparr>sl_id = an_next_switch_label s, sl_value = v, sl_span = sp\<rparr>]\<rparr>"
  from label have t: "an_switch_stack t = butlast (an_switch_stack s) @ [?c]"
    "an_next_switch_label t = an_next_switch_label s + 1"
    by (auto simp: add_label_def Let_def)
  have "labels_ok t" if "labels_ok s"
    using that new [OF labels_ok_last [OF that stack]] t
    by (auto simp: labels_ok_def list_all_iff dest!: in_set_butlastD intro: context_ok_mono [OF _ le_SucI [OF order.refl]])
  with t stack d show ?thesis
    by (simp add: labels_kept_def labels_added_def)
qed

interpretation labelled: stmt_contract labels_kept labels_kept
proof
  show "labels_kept s s" for s
    by (rule labels_kept_same) simp_all
  show "labels_kept s t \<Longrightarrow> labels_kept t u \<Longrightarrow> labels_kept s u" for s t u
    by (rule labels_kept_trans)
  show "labels_kept s (s\<lparr>an_data_words := an_data_words s @ ws\<rparr>)" for s ws
    by (rule labels_kept_same) simp_all
  show "take_address i s = Inr t \<Longrightarrow> labels_kept s t" for i s t
    by (rule labels_kept_same)
      (auto simp: take_address_def local_at_def index_at_def rbind_eq_Inr split: if_splits)
  show "add_call_edge f s = Inr t \<Longrightarrow> labels_kept s t" for f s t
    by (rule labels_kept_same)
      (auto simp: add_call_edge_def index_at_def unwrap_def rbind_eq_Inr split: if_splits option.splits)
  show "labels_kept (enter_mask b s) t \<Longrightarrow> labels_kept s (leave_mask b t)" for b s t
    by (cases b) (simp_all add: enter_mask_def leave_mask_def labels_kept_def labels_ok_def)
  show "labels_kept s u" if "new_local title ty sp shape taken s = (i, t)" "bind_local name i t = Inr u"
    for title ty sp shape taken s i t name u
    using that by (intro labels_kept_same)
      (auto simp: new_local_def bind_local_def last_scope_def unwrap_def rbind_eq_Inr split: if_splits)
  show "labels_kept (push_scope m s) t \<Longrightarrow> labels_kept s (pop_scope t)" for m s t
    by (simp add: push_scope_def pop_scope_def labels_kept_def labels_ok_def)
  show "labels_kept (s\<lparr>an_loop_depth := an_loop_depth s + 1\<rparr>) t \<Longrightarrow>
      labels_kept s (t\<lparr>an_loop_depth := an_loop_depth t - 1\<rparr>)" for s t
    by (simp add: labels_kept_def labels_ok_def)
  show "labels_kept s t" if "an_switch_stack s \<noteq> []" "c = last (an_switch_stack s)" "sc_values c v = None"
      "add_label (c\<lparr>sc_values := (sc_values c)(v \<mapsto> sp)\<rparr>) (Some v) sp s = Inr (i, t)" for c v sp s i t
    by (rule add_label_kept [OF that(4,1)]) (simp add: that(2), use context_ok_case that(2,3) in simp)
  show "labels_kept s t" if "an_switch_stack s \<noteq> []" "c = last (an_switch_stack s)" "sc_default_span c = None"
      "add_label (c\<lparr>sc_default_span := Some sp\<rparr>) None sp s = Inr (i, t)" for c sp s i t
    by (rule add_label_kept [OF that(4,1)]) (simp add: that(2), use context_ok_default that(2,3) in simp)
  show "labels_kept s u" if "labels_kept (push_switch s) t" "pop_switch t = Inr (ls, u)" for s t ls u
  proof -
    from that have u: "an_switch_stack u = butlast (an_switch_stack t)"
      "an_next_switch_label u = an_next_switch_label t"
      by (auto simp: pop_switch_def unwrap_def rbind_eq_Inr)
    have t: "butlast (an_switch_stack t) = an_switch_stack s"
      "an_next_switch_label s \<le> an_next_switch_label t" "labels_ok (push_switch s) \<longrightarrow> labels_ok t"
      using that(1) by (simp_all add: labels_kept_def push_switch_def)
    have "labels_ok u" if "labels_ok s"
    proof -
      have "labels_ok (push_switch s)"
        using that by (simp add: labels_ok_def push_switch_def context_ok_def)
      with t(3) have "labels_ok t" by blast
      then have "list_all (context_ok (an_next_switch_label t)) (butlast (an_switch_stack t))"
        by (auto simp: labels_ok_def list_all_iff dest: in_set_butlastD)
      with u show ?thesis by (simp add: labels_ok_def)
    qed
    with t u show ?thesis by (simp add: labels_kept_def labels_added_refl)
  qed
qed

section \<open>Switches\<close>

lemma switch_done:
  assumes "te_stmt inl (S_Switch e b sp) s = Inr (TS_Switch te tb ls sp', u)" "labels_ok s"
    and inl: "\<And>c args symbol sp s. leads labels_kept s (inl c args symbol sp s)"
  shows "distinct (map sl_value ls) \<and> distinct (map sl_id ls)
    \<and> set (map sl_id ls) \<subseteq> {an_next_switch_label s..<an_next_switch_label u} \<and> labels_ok u"
proof -
  from assms(1) obtain x y v w where
    c: "uniform_condition inl e ''switch expression'' s = Inr (x, v)"
    and b: "te_stmt inl b (push_switch v) = Inr (y, w)" and p: "pop_switch w = Inr (ls, u)"
    by (auto simp: rbind_eq_Inr)
  have v: "labels_kept s v" using c labelled.condition_expr(2) [OF labelled.te_expr(1) [OF inl]]
    by (auto simp: leads_def)
  have w: "labels_kept (push_switch v) w" using b labelled.te_stmt(1) [OF inl] by (auto simp: leads_def)
  from v assms(2) have "labels_ok v" by (simp add: labels_kept_def)
  then have "labels_ok (push_switch v)" by (simp add: labels_ok_def push_switch_def context_ok_def)
  with w have ok: "labels_ok w" by (simp add: labels_kept_def)
  from p have last: "an_switch_stack w \<noteq> []" "ls = sc_labels (last (an_switch_stack w))"
    "an_next_switch_label u = an_next_switch_label w"
    by (auto simp: pop_switch_def unwrap_def rbind_eq_Inr split: if_splits)
  have "labels_kept v u" using w p labelled.switched by blast
  then have "labels_ok u" using \<open>labels_ok v\<close> by (simp add: labels_kept_def)
  moreover have "an_next_switch_label v \<le> sl_id l" if "l \<in> set ls" for l
    using w that last(2) by (auto simp: labels_kept_def labels_added_def push_switch_def)
  moreover have "an_next_switch_label s \<le> an_next_switch_label v" using v by (simp add: labels_kept_def)
  ultimately show ?thesis
    using labels_ok_last [OF ok last(1)] last(2,3) by (fastforce simp: context_ok_def)
qed

text \<open>
  C28. An accepted switch has at most one label for each value and at most one default, its labels
  have numbers of their own, and these numbers are new: no other switch has them.
\<close>

theorem switch_labels_distinct:
  assumes "labels_ok s" and "analyze_stmt (S_Switch e b sp) s = Inr (TS_Switch te tb ls sp', u)"
  shows "distinct (map sl_value ls) \<and> distinct (map sl_id ls)
    \<and> set (map sl_id ls) \<subseteq> {an_next_switch_label s..<an_next_switch_label u} \<and> labels_ok u"
  using switch_done [OF assms(2) [unfolded analyze_stmt_def] assms(1) labelled.expander] .

text \<open>A switch with a case of two labels and a default.\<close>

definition sample_switch :: stmt where
  "sample_switch = S_Switch (Expr (E_Number ''1'') here_span)
     (S_Case (Expr (E_Number ''1'') here_span) (S_Case (Expr (E_Number ''2'') here_span)
       (S_Default (S_Break here_span) here_span) here_span) here_span) here_span"

definition sample_labels :: "switch_label list" where
  "sample_labels = [\<lparr>sl_id = 0, sl_value = Some 1, sl_span = here_span\<rparr>,
     \<lparr>sl_id = 1, sl_value = Some 2, sl_span = here_span\<rparr>, \<lparr>sl_id = 2, sl_value = None, sl_span = here_span\<rparr>]"

lemma switch_labels_distinct_witness:
  "\<exists>te tb u. analyze_stmt sample_switch in_caller = Inr (TS_Switch te tb sample_labels here_span, u)
     \<and> labels_ok u"
proof -
  have "rbind (analyze_stmt sample_switch in_caller) (\<lambda>(t, u). Inr (case t of TS_Switch te tb ls sp \<Rightarrow> Some (ls, sp) | _ \<Rightarrow> None))
      = Inr (Some (sample_labels, here_span))"
    by code_simp
  then obtain te tb u where r: "analyze_stmt sample_switch in_caller = Inr (TS_Switch te tb sample_labels here_span, u)"
    by (auto simp: rbind_eq_Inr split: typed_stmt.splits) (metis typed_stmt.exhaust)
  have "labels_ok in_caller"
    by (simp add: labels_ok_def in_caller_def in_get_def analyzer_new_def)
  from switch_labels_distinct [OF this r [unfolded sample_switch_def]] r show ?thesis by blast
qed

end
