(* ===== verification/Codegen_Base.thy ===== *)
theory Codegen_Base
  imports Sema_Types
begin

text \<open>
  Vocabulary of the code generator (\<open>tools/warpc/src/codegen.rs\<close>): computations over a state
  that may fail, the addresses of nodes of the typed tree, and the lines of the assembly text.

  The source keys two hash maps by the address of a statement or an expression in memory. An
  address identifies a node as long as the tree is borrowed, so the model takes the path from
  the function body to the node, innermost step first, for its address.

  The generator pushes formatted text, one line at a time. The model keeps each line as what
  was formatted, a mnemonic with operands behind an optional guard, and \<open>render_line\<close> is the
  format.
\<close>

section \<open>Computations\<close>

type_synonym ('s, 'a) comp = "'s \<Rightarrow> ('a \<times> 's) cc"

definition ret :: "'a \<Rightarrow> ('s, 'a) comp" where
  "ret x = (\<lambda>s. Inr (x, s))"

definition mbind :: "('s, 'a) comp \<Rightarrow> ('a \<Rightarrow> ('s, 'b) comp) \<Rightarrow> ('s, 'b) comp" where
  "mbind m f = (\<lambda>s. rbind (m s) (\<lambda>(x, s). f x s))"

definition mthen :: "('s, 'a) comp \<Rightarrow> ('s, 'b) comp \<Rightarrow> ('s, 'b) comp" where
  "mthen m n = mbind m (\<lambda>_. n)"

definition lift :: "'a cc \<Rightarrow> ('s, 'a) comp" where
  "lift r = (\<lambda>s. rbind r (\<lambda>x. Inr (x, s)))"

definition gets :: "('s \<Rightarrow> 'a) \<Rightarrow> ('s, 'a) comp" where
  "gets f = (\<lambda>s. Inr (f s, s))"

definition modify :: "('s \<Rightarrow> 's) \<Rightarrow> ('s, unit) comp" where
  "modify f = (\<lambda>s. Inr ((), f s))"

definition fails :: "span \<Rightarrow> string \<Rightarrow> ('s, 'a) comp" where
  "fails sp message = (\<lambda>s. diag sp message)"

definition panics :: "string \<Rightarrow> ('s, 'a) comp" where
  "panics message = (\<lambda>s. Inl (CPanic message))"

text \<open>A loop over a list, and one that collects the results.\<close>

fun each :: "('a \<Rightarrow> ('s, unit) comp) \<Rightarrow> 'a list \<Rightarrow> ('s, unit) comp" where
  "each f [] = ret ()"
| "each f (x # xs) = mthen (f x) (each f xs)"

definition only_if :: "bool \<Rightarrow> ('s, unit) comp \<Rightarrow> ('s, unit) comp" where
  "only_if c m = (if c then m else ret ())"

lemmas comp_defs = ret_def mbind_def mthen_def lift_def gets_def modify_def fails_def panics_def only_if_def

section \<open>Addresses of nodes\<close>

type_synonym node = "nat list"

section \<open>Lines of assembly text\<close>

datatype asm_operand =
    O_R nat
  | O_S nat
  | O_P nat
  | O_Num nat
  | O_Neg nat
  | O_Label string

text \<open>A line of text (comments, directives), a label, and an instruction, whose guard is the
  predicate register and whether it is inverted.\<close>

datatype asm_line =
    L_Text string
  | L_Label string
  | L_Instr "(bool \<times> nat) option" string "asm_operand list"

fun render_operand :: "asm_operand \<Rightarrow> string" where
  "render_operand (O_R n) = ''r'' @ nat_str n"
| "render_operand (O_S n) = ''s'' @ nat_str n"
| "render_operand (O_P n) = ''p'' @ nat_str n"
| "render_operand (O_Num n) = nat_str n"
| "render_operand (O_Neg n) = ''-'' @ nat_str n"
| "render_operand (O_Label l) = l"

definition render_guard :: "(bool \<times> nat) option \<Rightarrow> string" where
  "render_guard guard =
     (case guard of
        None \<Rightarrow> []
      | Some (inverted, p) \<Rightarrow> ''@'' @ (if inverted then ''!'' else []) @ ''p'' @ nat_str p @ '' '')"

definition render_instr :: "string \<Rightarrow> asm_operand list \<Rightarrow> string" where
  "render_instr mnemonic operands =
     mnemonic @ (if operands = [] then [] else '' '' @ join '', '' (map render_operand operands))"

fun render_line :: "asm_line \<Rightarrow> string" where
  "render_line (L_Text text') = text'"
| "render_line (L_Label l) = l @ '':''"
| "render_line (L_Instr guard mnemonic operands) =
     ''    '' @ render_guard guard @ render_instr mnemonic operands"

definition render :: "asm_line list \<Rightarrow> string" where
  "render ls = concat (map (\<lambda>l. render_line l @ [newline]) ls)"

end
