(* ===== verification/Codegen_Live.thy ===== *)
theory Codegen_Live
  imports Codegen_Base
begin

text \<open>
  The two analyses in front of code generation (\<open>tools/warpc/src/codegen.rs\<close>, first part):
  \<open>LifetimeCollector\<close> gives every statement a point and every local the interval of points at
  which it is used, loops included; \<open>CallLiveAnalyzer\<close> computes the locals that are live behind
  each call, with a fixpoint for every loop. Sets of locals are sets of numbers.
\<close>

section \<open>Lifetimes\<close>

record lifetimes =
  lt_next_point :: nat
  lt_starts :: "nat option list"
  lt_ends :: "nat option list"
  lt_statement_points :: "node \<rightharpoonup> nat"

type_synonym 'a lt = "(lifetimes, 'a) comp"

definition lifetimes_new :: "nat \<Rightarrow> lifetimes" where
  "lifetimes_new local_count =
     \<lparr>lt_next_point = 1, lt_starts = replicate local_count None,
      lt_ends = replicate local_count None, lt_statement_points = Map.empty\<rparr>"

definition widen :: "(nat \<Rightarrow> nat \<Rightarrow> nat) \<Rightarrow> nat \<Rightarrow> nat option \<Rightarrow> nat option" where
  "widen f point old = Some (case old of None \<Rightarrow> point | Some n \<Rightarrow> f n point)"

text \<open>\<open>touch\<close>, which returns the local for the set of locals touched.\<close>

definition touch :: "nat \<Rightarrow> nat \<Rightarrow> nat set lt" where
  "touch i point =
     mbind (gets lt_starts) (\<lambda>starts.
     mbind (lift (index_at starts i)) (\<lambda>start.
     mthen (modify (\<lambda>l. l\<lparr>lt_starts := (lt_starts l)[i := widen min point start]\<rparr>)) (
     mbind (gets lt_ends) (\<lambda>ends.
     mbind (lift (index_at ends i)) (\<lambda>e.
     mthen (modify (\<lambda>l. l\<lparr>lt_ends := (lt_ends l)[i := widen max point e]\<rparr>))
       (ret {i}))))))"

definition both :: "nat set lt \<Rightarrow> nat set lt \<Rightarrow> nat set lt" where
  "both m n = mbind m (\<lambda>a. mbind n (\<lambda>b. ret (a \<union> b)))"

text \<open>\<open>LifetimeCollector::expr\<close>, \<open>lvalue\<close> and \<open>initializer\<close>, with the loops over arguments and
  over the statements of an expansion; the result is what the source adds to \<open>touched\<close>.\<close>

fun lt_expr :: "typed_expr \<Rightarrow> nat \<Rightarrow> nat set lt"
and lt_kind :: "typed_kind \<Rightarrow> nat \<Rightarrow> nat set lt"
and lt_exprs :: "typed_expr list \<Rightarrow> nat \<Rightarrow> nat set lt"
and lt_lvalue :: "lvalue \<Rightarrow> nat \<Rightarrow> nat set lt"
and lt_init :: "typed_initializer option \<Rightarrow> nat \<Rightarrow> nat set lt"
and lt_inline :: "typed_stmt list \<Rightarrow> nat \<Rightarrow> nat set lt" where
  "lt_expr (TExpr k ty u sp) point = lt_kind k point"
| "lt_kind (TE_Literal v) point = ret {}"
| "lt_kind (TE_StringAddress a) point = ret {}"
| "lt_kind (TE_Intrinsic i args) point = lt_exprs args point"
| "lt_kind (TE_Call f args) point = lt_exprs args point"
| "lt_kind (TE_Inline statements result) point =
     both (lt_inline statements point) (lt_expr result point)"
| "lt_kind (TE_LValue l) point = lt_lvalue l point"
| "lt_kind (TE_AddressOf l) point = lt_lvalue l point"
| "lt_kind (TE_Unary op e) point = lt_expr e point"
| "lt_kind (TE_Binary op l r ty) point = both (lt_expr l point) (lt_expr r point)"
| "lt_kind (TE_PointerDiff l r k) point = both (lt_expr l point) (lt_expr r point)"
| "lt_kind (TE_Conditional c t e) point =
     both (lt_expr c point) (both (lt_expr t point) (lt_expr e point))"
| "lt_kind (TE_PointerAdd p i k subtract) point = both (lt_expr p point) (lt_expr i point)"
| "lt_kind (TE_Assign l op r ty k) point = both (lt_lvalue l point) (lt_expr r point)"
| "lt_kind (TE_IncDec l inc post k) point = lt_lvalue l point"
| "lt_exprs [] point = ret {}"
| "lt_exprs (e # es) point = both (lt_expr e point) (lt_exprs es point)"
| "lt_lvalue (LV_Local i) point = touch i point"
| "lt_lvalue (LV_Global i) point = ret {}"
| "lt_lvalue (LV_Deref p) point = lt_expr p point"
| "lt_lvalue (LV_Index b i k) point = both (lt_expr b point) (lt_expr i point)"
| "lt_lvalue (LV_Member l offset) point = lt_lvalue l point"
| "lt_init None point = ret {}"
| "lt_init (Some (TI_Expr e)) point = lt_expr e point"
| "lt_init (Some (TI_Words ws)) point = ret {}"
| "lt_inline [] point = ret {}"
| "lt_inline (TS_Decl i init sp # ss) point =
     both (touch i point) (both (lt_init init point) (lt_inline ss point))"
| "lt_inline (TS_Expr None # ss) point = lt_inline ss point"
| "lt_inline (TS_Expr (Some e) # ss) point = both (lt_expr e point) (lt_inline ss point)"
| "lt_inline (_ # ss) point =
     panics ''internal error: entered unreachable code: inline candidate contains a control statement''"

text \<open>The end of a loop: what it touches lives until its exit.\<close>

definition extend_to_exit :: "nat set \<Rightarrow> nat set lt" where
  "extend_to_exit touched =
     mbind (gets lt_next_point) (\<lambda>loop_exit.
     mbind (gets lt_ends) (\<lambda>ends.
     if \<forall>i\<in>touched. i < length ends \<and> ends ! i \<noteq> None
     then mthen (modify (\<lambda>l. l\<lparr>lt_ends := map (\<lambda>i. if i \<in> touched then widen max loop_exit (ends ! i)
                                                    else ends ! i) [0..<length ends]\<rparr>))
            (ret touched)
     else panics ''called Option::unwrap() on a None value''))"

definition new_point :: "node \<Rightarrow> nat lt" where
  "new_point p =
     mbind (gets lt_next_point) (\<lambda>point.
     mthen (modify (\<lambda>l. l\<lparr>lt_next_point := point + 1,
                           lt_statement_points := (lt_statement_points l)(p \<mapsto> point)\<rparr>))
       (ret point))"

definition lt_option :: "typed_expr option \<Rightarrow> nat \<Rightarrow> nat set lt" where
  "lt_option e point = (case e of None \<Rightarrow> ret {} | Some e \<Rightarrow> lt_expr e point)"

definition lt_for_init :: "typed_for_init option \<Rightarrow> nat \<Rightarrow> nat set lt" where
  "lt_for_init init point =
     (case init of
        None \<Rightarrow> ret {}
      | Some (TF_Decl i init sp) \<Rightarrow> both (touch i point) (lt_init init point)
      | Some (TF_Expr e) \<Rightarrow> lt_expr e point)"

text \<open>\<open>LifetimeCollector::statement\<close> and \<open>block\<close>; the second argument is the address.\<close>

fun lt_stmt :: "typed_stmt \<Rightarrow> node \<Rightarrow> nat set lt"
and lt_at :: "typed_stmt \<Rightarrow> node \<Rightarrow> nat \<Rightarrow> nat set lt"
and lt_stmts :: "typed_stmt list \<Rightarrow> node \<Rightarrow> nat \<Rightarrow> nat set lt" where
  "lt_stmt s p = mbind (new_point p) (lt_at s p)"
| "lt_at (TS_Decl i init sp) p point = both (touch i point) (lt_init init point)"
| "lt_at (TS_Expr e) p point = lt_option e point"
| "lt_at (TS_Return e sp) p point = lt_option e point"
| "lt_at (TS_Block (TBlock ss is sp)) p point = lt_stmts ss p 0"
| "lt_at (TS_If c t e sp) p point =
     both (lt_expr c point) (both (lt_stmt t (1 # p))
       (case e of None \<Rightarrow> ret {} | Some x \<Rightarrow> lt_stmt x (2 # p)))"
| "lt_at (TS_While c b sp) p point =
     mbind (both (lt_expr c point) (lt_stmt b (1 # p))) extend_to_exit"
| "lt_at (TS_DoWhile b c sp) p point =
     mbind (both (lt_stmt b (1 # p)) (lt_expr c point)) extend_to_exit"
| "lt_at (TS_For init c step b is sp) p point =
     mbind (both (lt_for_init init point) (both (lt_option c point)
       (both (lt_stmt b (3 # p)) (lt_option step point)))) extend_to_exit"
| "lt_at (TS_Switch e b labels sp) p point = both (lt_expr e point) (lt_stmt b (1 # p))"
| "lt_at (TS_Case i b sp) p point = lt_stmt b (1 # p)"
| "lt_at (TS_Default i b sp) p point = lt_stmt b (1 # p)"
| "lt_at (TS_Break sp) p point = ret {}"
| "lt_at (TS_Continue sp) p point = ret {}"
| "lt_stmts [] p n = ret {}"
| "lt_stmts (s # ss) p n = both (lt_stmt s (n # p)) (lt_stmts ss p (n + 1))"

definition lt_block :: "typed_block \<Rightarrow> nat set lt" where
  "lt_block b = lt_stmts (tb_statements b) [] 0"

section \<open>Locals that are live behind calls\<close>

record live_targets =
  lv_break :: "nat set option"
  lv_continue :: "nat set option"

record call_live =
  cl_call_live_out :: "node \<rightharpoonup> nat set"
  cl_switch_entries :: "nat set list list"

type_synonym 'a cl = "(call_live, 'a) comp"

definition no_targets :: live_targets where
  "no_targets = \<lparr>lv_break = None, lv_continue = None\<rparr>"

text \<open>The locals whose registers a value may be, instead of a temporary.\<close>

fun value_home_dependencies :: "typed_expr \<Rightarrow> nat set"
and home_of :: "typed_kind \<Rightarrow> nat set" where
  "value_home_dependencies (TExpr k ty u sp) = home_of k"
| "home_of (TE_LValue (LV_Local i)) = {i}"
| "home_of (TE_Unary U_Plus e) = value_home_dependencies e"
| "home_of (TE_Binary B_Comma l r ty) = value_home_dependencies r"
| "home_of (TE_Assign l op r ty k) = value_home_dependencies r"
| "home_of (TE_Inline ss e) = value_home_dependencies e"
| "home_of _ = {}"

text \<open>The loop of a fixpoint: it ends when a round adds nothing. The bound on the rounds is an
  argument; \<open>Codegen_Live_Facts\<close> shows that the size of the function is enough.\<close>

fun settle :: "nat \<Rightarrow> (nat set \<Rightarrow> nat set cl) \<Rightarrow> nat set \<Rightarrow> nat set cl" where
  "settle 0 f live = (\<lambda>s. Inl OutOfFuel)"
| "settle (Suc n) f live =
     mbind (f live) (\<lambda>next'.
       if live \<union> next' = live then ret live else settle n f (live \<union> next'))"

definition record_call :: "node \<Rightarrow> nat set \<Rightarrow> unit cl" where
  "record_call p live = modify (\<lambda>a. a\<lparr>cl_call_live_out := (cl_call_live_out a)(p \<mapsto>
     (case cl_call_live_out a p of None \<Rightarrow> {} | Some old \<Rightarrow> old) \<union> live)\<rparr>)"

definition push_entries :: "unit cl" where
  "push_entries = modify (\<lambda>a. a\<lparr>cl_switch_entries := cl_switch_entries a @ [[]]\<rparr>)"

definition pop_entries :: "nat set list cl" where
  "pop_entries a =
     rbind (unwrap (if cl_switch_entries a = [] then None else Some (last (cl_switch_entries a)))) (\<lambda>entries.
       Inr (entries, a\<lparr>cl_switch_entries := butlast (cl_switch_entries a)\<rparr>))"

definition add_entry :: "nat set \<Rightarrow> unit cl" where
  "add_entry live = modify (\<lambda>a.
     if cl_switch_entries a = [] then a
     else a\<lparr>cl_switch_entries := butlast (cl_switch_entries a) @ [last (cl_switch_entries a) @ [live]]\<rparr>)"

definition unless :: "nat set option \<Rightarrow> nat set \<Rightarrow> nat set" where
  "unless o' live = (case o' of None \<Rightarrow> live | Some l \<Rightarrow> l)"

text \<open>\<open>CallLiveAnalyzer::expr\<close>, \<open>expr_sequence\<close>, \<open>read_lvalue\<close>, \<open>lvalue_address\<close>, \<open>statement\<close> and
  \<open>block\<close>. The arguments are the bound for loops, the address and the node; the result takes the
  set that is live behind the node to the one in front of it.\<close>

function (sequential) cl_expr :: "nat \<Rightarrow> node \<Rightarrow> typed_expr \<Rightarrow> nat set \<Rightarrow> nat set cl"
and cl_kind :: "nat \<Rightarrow> node \<Rightarrow> typed_kind \<Rightarrow> nat set \<Rightarrow> nat set cl"
and cl_sequence :: "nat \<Rightarrow> node \<Rightarrow> typed_expr list \<Rightarrow> nat \<Rightarrow> nat set \<Rightarrow> nat set \<Rightarrow> nat set cl"
and cl_read :: "nat \<Rightarrow> node \<Rightarrow> lvalue \<Rightarrow> nat set \<Rightarrow> nat set cl"
and cl_address :: "nat \<Rightarrow> node \<Rightarrow> lvalue \<Rightarrow> nat set \<Rightarrow> nat set cl"
and cl_init :: "nat \<Rightarrow> node \<Rightarrow> typed_initializer option \<Rightarrow> nat set \<Rightarrow> nat set cl"
and cl_for_init :: "nat \<Rightarrow> node \<Rightarrow> typed_for_init option \<Rightarrow> nat set \<Rightarrow> nat set cl"
and cl_option :: "nat \<Rightarrow> node \<Rightarrow> typed_expr option \<Rightarrow> nat set \<Rightarrow> nat set cl"
and cl_stmt :: "nat \<Rightarrow> node \<Rightarrow> typed_stmt \<Rightarrow> live_targets \<Rightarrow> nat set \<Rightarrow> nat set cl"
and cl_stmts :: "nat \<Rightarrow> node \<Rightarrow> typed_stmt list \<Rightarrow> nat \<Rightarrow> live_targets \<Rightarrow> nat set \<Rightarrow> nat set cl" where
  "cl_expr n p (TExpr k ty u sp) = cl_kind n p k"
| "cl_kind n p (TE_Literal v) = ret"
| "cl_kind n p (TE_StringAddress a) = ret"
| "cl_kind n p (TE_Intrinsic i args) = cl_sequence n p args 0 {}"
| "cl_kind n p (TE_Call f args) =
     (\<lambda>live. mthen (record_call p live) (cl_sequence n p args 0 {} live))"
| "cl_kind n p (TE_LValue l) = cl_read n (0 # p) l"
| "cl_kind n p (TE_AddressOf l) = cl_address n (0 # p) l"
| "cl_kind n p (TE_Unary op e) = cl_expr n (0 # p) e"
| "cl_kind n p (TE_Binary op l r ty) =
     (\<lambda>live.
        if op = B_LogicalAnd \<or> op = B_LogicalOr then
          mbind (cl_expr n (1 # p) r live) (\<lambda>right. cl_expr n (0 # p) l (live \<union> right))
        else if op = B_Comma then mbind (cl_expr n (1 # p) r live) (cl_expr n (0 # p) l)
        else mbind (cl_expr n (1 # p) r (live \<union> value_home_dependencies l)) (cl_expr n (0 # p) l))"
| "cl_kind n p (TE_PointerDiff l r k) =
     (\<lambda>live. mbind (cl_expr n (1 # p) r (live \<union> value_home_dependencies l)) (cl_expr n (0 # p) l))"
| "cl_kind n p (TE_Conditional c t e) =
     (\<lambda>live.
        mbind (cl_expr n (1 # p) t live) (\<lambda>then_live.
        mbind (cl_expr n (2 # p) e live) (\<lambda>else_live.
          cl_expr n (0 # p) c (then_live \<union> else_live))))"
| "cl_kind n p (TE_PointerAdd b i k subtract) =
     (\<lambda>live. mbind (cl_expr n (1 # p) i (live \<union> value_home_dependencies b)) (cl_expr n (0 # p) b))"
| "cl_kind n p (TE_Assign l op r ty k) =
     (\<lambda>live.
        mbind (case l of LV_Local i \<Rightarrow> ret (live - {i}) | _ \<Rightarrow> cl_address n (0 # p) l live) (\<lambda>after.
        mbind (if op \<noteq> A_Assign then cl_read n (0 # p) l after else ret after)
          (cl_expr n (1 # p) r)))"
| "cl_kind n p (TE_IncDec l inc post k) = cl_read n (0 # p) l"
| "cl_kind n p (TE_Inline ss e) =
     (\<lambda>live. mbind (cl_expr n (length ss # p) e live) (cl_stmts n p ss 0 no_targets))"
| "cl_sequence n p [] i prefix = ret"
| "cl_sequence n p (e # es) i prefix =
     (\<lambda>live.
        mbind (cl_sequence n p es (i + 1) (prefix \<union> value_home_dependencies e) live) (\<lambda>live.
          cl_expr n (i # p) e (live \<union> prefix)))"
| "cl_read n p (LV_Local i) = (\<lambda>live. ret (insert i live))"
| "cl_read n p (LV_Global i) = ret"
| "cl_read n p (LV_Deref e) = cl_expr n (0 # p) e"
| "cl_read n p (LV_Index b i k) =
     (\<lambda>live. mbind (cl_expr n (1 # p) i (live \<union> value_home_dependencies b)) (cl_expr n (0 # p) b))"
| "cl_read n p (LV_Member l offset) = cl_read n (0 # p) l"
| "cl_address n p (LV_Local i) = ret"
| "cl_address n p (LV_Global i) = ret"
| "cl_address n p (LV_Deref e) = cl_expr n (0 # p) e"
| "cl_address n p (LV_Index b i k) =
     (\<lambda>live. mbind (cl_expr n (1 # p) i (live \<union> value_home_dependencies b)) (cl_expr n (0 # p) b))"
| "cl_address n p (LV_Member l offset) = cl_address n (0 # p) l"
| "cl_init n p (Some (TI_Expr e)) = cl_expr n p e"
| "cl_init n p _ = ret"
| "cl_for_init n p None = ret"
| "cl_for_init n p (Some (TF_Decl i init sp)) = (\<lambda>live. cl_init n p init (live - {i}))"
| "cl_for_init n p (Some (TF_Expr e)) = cl_expr n p e"
| "cl_option n p None = ret"
| "cl_option n p (Some e) = cl_expr n p e"
| "cl_stmt n p (TS_Decl i init sp) tg = (\<lambda>live. cl_init n (0 # p) init (live - {i}))"
| "cl_stmt n p (TS_Expr e) tg = cl_option n (0 # p) e"
| "cl_stmt n p (TS_Return e sp) tg = (\<lambda>live. cl_option n (0 # p) e {})"
| "cl_stmt n p (TS_Block (TBlock ss is sp)) tg = cl_stmts n p ss 0 tg"
| "cl_stmt n p (TS_If c t e sp) tg =
     (\<lambda>live.
        mbind (cl_stmt n (1 # p) t tg live) (\<lambda>then_live.
        mbind (case e of Some x \<Rightarrow> cl_stmt n (2 # p) x tg live | None \<Rightarrow> ret live) (\<lambda>else_live.
          cl_expr n (0 # p) c (then_live \<union> else_live))))"
| "cl_stmt n p (TS_While c b sp) tg =
     (\<lambda>live. settle n (\<lambda>condition_live.
        mbind (cl_stmt n (1 # p) b \<lparr>lv_break = Some live, lv_continue = Some condition_live\<rparr> condition_live)
          (\<lambda>body_live. cl_expr n (0 # p) c (live \<union> body_live))) live)"
| "cl_stmt n p (TS_DoWhile b c sp) tg =
     (\<lambda>live. settle n (\<lambda>body_live.
        mbind (cl_expr n (0 # p) c (live \<union> body_live)) (\<lambda>condition_live.
          cl_stmt n (1 # p) b \<lparr>lv_break = Some live, lv_continue = Some condition_live\<rparr> condition_live)) live)"
| "cl_stmt n p (TS_For init c step b is sp) tg =
     (\<lambda>live.
        mbind (settle n (\<lambda>condition_live.
          mbind (cl_option n (2 # p) step condition_live) (\<lambda>step_live.
          mbind (cl_stmt n (3 # p) b \<lparr>lv_break = Some live, lv_continue = Some step_live\<rparr> step_live)
            (\<lambda>body_live. cl_option n (1 # p) c (if c \<noteq> None then live \<union> body_live else body_live)))) live)
        (\<lambda>condition_live.
        mbind (cl_for_init n (0 # p) init condition_live) (\<lambda>live. ret (live - set is))))"
| "cl_stmt n p (TS_Break sp) tg = (\<lambda>live. ret (unless (lv_break tg) live))"
| "cl_stmt n p (TS_Continue sp) tg = (\<lambda>live. ret (unless (lv_continue tg) live))"
| "cl_stmt n p (TS_Switch e b labels sp) tg =
     (\<lambda>live.
        mthen push_entries (
        mbind (cl_stmt n (1 # p) b \<lparr>lv_break = Some live, lv_continue = lv_continue tg\<rparr> live) (\<lambda>body_live.
        mbind pop_entries (\<lambda>entries.
          cl_expr n (0 # p) e (fold (\<lambda>entry live. live \<union> entry) entries body_live)))))"
| "cl_stmt n p (TS_Case i b sp) tg =
     (\<lambda>live. mbind (cl_stmt n (1 # p) b tg live) (\<lambda>live. mthen (add_entry live) (ret live)))"
| "cl_stmt n p (TS_Default i b sp) tg =
     (\<lambda>live. mbind (cl_stmt n (1 # p) b tg live) (\<lambda>live. mthen (add_entry live) (ret live)))"
| "cl_stmts n p [] i tg = ret"
| "cl_stmts n p (s # ss) i tg =
     (\<lambda>live. mbind (cl_stmts n p ss (i + 1) tg live) (cl_stmt n (i # p) s tg))"

  by pat_completeness auto

termination
  by (relation "measure (case_sum
      (case_sum (case_sum (\<lambda>(n, p, e). size e) (\<lambda>(n, p, k). size k))
        (case_sum (\<lambda>(n, p, es, i, prefix). size_list size es) (case_sum (\<lambda>(n, p, l). size l) (\<lambda>(n, p, l). size l))))
      (case_sum (case_sum (\<lambda>(n, p, i). size_option size i) (\<lambda>(n, p, i). size_option size i))
        (case_sum (\<lambda>(n, p, e). size_option size e)
          (case_sum (\<lambda>(n, p, s, tg). size s) (\<lambda>(n, p, ss, i, tg). size_list size ss)))))") auto

definition call_live_outs :: "typed_function \<Rightarrow> (node \<rightharpoonup> nat set) cc" where
  "call_live_outs f =
     rbind (cl_stmts (size (tf_body f)) [] (tb_statements (tf_body f)) 0 no_targets {}
              \<lparr>cl_call_live_out = Map.empty, cl_switch_entries = []\<rparr>)
       (\<lambda>(_, a). Inr (cl_call_live_out a))"

end
