(* ===== verification/Codegen_Alloc.thy ===== *)
theory Codegen_Alloc
  imports Codegen_Live
begin

text \<open>
  The allocation of registers and frame slots (\<open>allocate_function\<close> of
  \<open>tools/warpc/src/codegen.rs\<close>). A local gets the frame slot the analysis gave it, or a
  register that no local with an overlapping lifetime has, or a spill slot behind the frame.
  Sizes of frames are natural numbers: they are bounded by the memory of the machine long
  before 64 bits.
\<close>

definition ALLOCATABLE_REGS :: nat where "ALLOCATABLE_REGS = 13"
definition MAX_LOCAL_VECTOR_REGS :: nat where "MAX_LOCAL_VECTOR_REGS = 8"
definition MIN_LOCAL_VECTOR_REGS :: nat where "MIN_LOCAL_VECTOR_REGS = 2"
definition ALLOCATABLE_SCALAR_REGS :: nat where "ALLOCATABLE_SCALAR_REGS = 7"
definition STACK_TOP :: nat where "STACK_TOP = RAM_SIZE_WORDS mod 2 ^ 32"

datatype local_storage = St_Vector nat | St_Scalar nat | St_Frame nat

record function_allocation =
  fa_storage :: "local_storage option list"
  fa_starts :: "nat option list"
  fa_ends :: "nat option list"
  fa_statement_points :: "node \<rightharpoonup> nat"
  fa_end_point :: nat
  fa_frame_words :: nat
  fa_scalar_homes :: nat
  fa_spills :: nat
  fa_vector_home_limit :: nat
  fa_call_live_out :: "node \<rightharpoonup> nat set"

text \<open>\<open>as u8\<close>, and an assignment to an element of a vector.\<close>

definition as_u8 :: "nat \<Rightarrow> nat" where
  "as_u8 n = n mod 256"

definition set_at :: "'a list \<Rightarrow> nat \<Rightarrow> 'a \<Rightarrow> 'a list cc" where
  "set_at xs i x = rbind (index_at xs i) (\<lambda>_. Inr (xs[i := x]))"

section \<open>Intervals\<close>

definition instant :: "nat option list \<Rightarrow> nat \<Rightarrow> nat cc" where
  "instant xs i = rbind (index_at xs i) unwrap"

definition intervals_overlap :: "nat \<Rightarrow> nat \<Rightarrow> nat option list \<Rightarrow> nat option list \<Rightarrow> bool cc" where
  "intervals_overlap left right starts ends =
     rbind (instant starts left) (\<lambda>sl.
     rbind (instant ends right) (\<lambda>er.
     if sl \<le> er then
       rbind (instant starts right) (\<lambda>sr.
       rbind (instant ends left) (\<lambda>el. Inr (sr \<le> el)))
     else Inr False))"

fun all_res :: "('a \<Rightarrow> bool cc) \<Rightarrow> 'a list \<Rightarrow> bool cc" where
  "all_res f [] = Inr True"
| "all_res f (x # xs) = rbind (f x) (\<lambda>b. if b then all_res f xs else Inr False)"

text \<open>The first of \<open>n\<close> candidates from \<open>c\<close> on that the test accepts.\<close>

fun find_register :: "nat \<Rightarrow> nat \<Rightarrow> (nat \<Rightarrow> bool cc) \<Rightarrow> nat option cc" where
  "find_register 0 c f = Inr None"
| "find_register (Suc n) c f =
     rbind (f c) (\<lambda>b. if b then Inr (Some c) else find_register n (c + 1) f)"

definition register_free :: "nat option list \<Rightarrow> nat option list \<Rightarrow> (nat \<times> nat) list \<Rightarrow> nat \<Rightarrow> nat \<Rightarrow> bool cc" where
  "register_free starts ends assignments i candidate =
     all_res (\<lambda>(other, assigned).
       if assigned \<noteq> candidate then Inr True
       else rbind (intervals_overlap i other starts ends) (\<lambda>b. Inr (\<not> b))) assignments"

section \<open>Homes\<close>

type_synonym homes = "local_storage option list \<times> (nat \<times> nat) list"

definition place_frame :: "local_info list \<Rightarrow> local_storage option list \<Rightarrow> nat \<Rightarrow> local_storage option list cc" where
  "place_frame locals storage i =
     rbind (index_at locals i) (\<lambda>l.
     case li_frame_offset l of
       None \<Rightarrow> Inr storage
     | Some offset \<Rightarrow> set_at storage i (Some (St_Frame offset)))"

definition scalar_parameter :: "local_info list \<Rightarrow> homes \<Rightarrow> nat \<times> nat \<Rightarrow> homes cc" where
  "scalar_parameter locals = (\<lambda>(storage, assignments) (abi_reg, i).
     rbind (index_at locals i) (\<lambda>l.
     rbind (index_at storage i) (\<lambda>home.
     if li_shape l = Shape_Uniform \<and> home = None then
       rbind (set_at storage i (Some (St_Scalar (as_u8 abi_reg)))) (\<lambda>storage.
         Inr (storage, assignments @ [(i, as_u8 abi_reg)]))
     else Inr (storage, assignments))))"

definition scalar_local :: "local_info list \<Rightarrow> nat list \<Rightarrow> nat option list \<Rightarrow> nat option list \<Rightarrow> homes \<Rightarrow> nat \<Rightarrow> homes cc" where
  "scalar_local locals params starts ends = (\<lambda>(storage, assignments) i.
     rbind (index_at storage i) (\<lambda>home.
     rbind (index_at locals i) (\<lambda>l.
     if home \<noteq> None \<or> i \<in> set params \<or> li_shape l \<noteq> Shape_Uniform then Inr (storage, assignments)
     else
       rbind (find_register ALLOCATABLE_SCALAR_REGS 0 (register_free starts ends assignments i)) (\<lambda>reg.
       case reg of
         None \<Rightarrow> Inr (storage, assignments)
       | Some reg \<Rightarrow>
           rbind (set_at storage i (Some (St_Scalar (as_u8 reg)))) (\<lambda>storage.
             Inr (storage, assignments @ [(i, as_u8 reg)]))))))"

definition vector_parameter :: "homes \<Rightarrow> nat \<times> nat \<Rightarrow> homes cc" where
  "vector_parameter = (\<lambda>(storage, assignments) (reg, i).
     rbind (index_at storage i) (\<lambda>home.
     if home = None then
       rbind (set_at storage i (Some (St_Vector (as_u8 reg)))) (\<lambda>storage.
         Inr (storage, assignments @ [(i, as_u8 reg)]))
     else Inr (storage, assignments)))"

text \<open>A local without a home: a vector register or a spill slot. The state has the words of the
  frame and the number of spills behind the homes.\<close>

definition vector_local :: "nat \<Rightarrow> nat option list \<Rightarrow> nat option list \<Rightarrow> homes \<times> nat \<times> nat \<Rightarrow> nat
    \<Rightarrow> (homes \<times> nat \<times> nat) cc" where
  "vector_local limit starts ends = (\<lambda>((storage, assignments), frame_words, spills) i.
     rbind (index_at storage i) (\<lambda>home.
     if home \<noteq> None then Inr ((storage, assignments), frame_words, spills)
     else
       rbind (find_register limit 0 (register_free starts ends assignments i)) (\<lambda>reg.
       case reg of
         Some reg \<Rightarrow>
           rbind (set_at storage i (Some (St_Vector (as_u8 reg)))) (\<lambda>storage.
             Inr ((storage, assignments @ [(i, as_u8 reg)]), frame_words, spills))
       | None \<Rightarrow>
           rbind (set_at storage i (Some (St_Frame frame_words))) (\<lambda>storage.
             Inr ((storage, assignments), frame_words + 1, spills + 1)))))"

section \<open>Functions\<close>

text \<open>The locals of the function, by the start of their lifetimes and then by their numbers:
  \<open>sort_key\<close> is stable, and the list it sorts is ascending.\<close>

definition function_locals :: "nat option list \<Rightarrow> nat list" where
  "function_locals starts =
     sort_key (\<lambda>i. case starts ! i of None \<Rightarrow> 0 | Some n \<Rightarrow> n)
       (filter (\<lambda>i. starts ! i \<noteq> None) [0..<length starts])"

definition lifetimes_of :: "typed_function \<Rightarrow> nat \<Rightarrow> lifetimes cc" where
  "lifetimes_of f local_count =
     rbind (mthen (each (\<lambda>i. mthen (touch i 0) (ret ())) (tf_params f)) (lt_block (tf_body f))
              (lifetimes_new local_count)) (\<lambda>(_, l). Inr l)"

definition scalar_homes :: "(nat \<times> nat) list \<Rightarrow> nat" where
  "scalar_homes assignments = fold max (map (\<lambda>(_, reg). reg + 1) assignments) 0"

definition allocate_function :: "typed_function \<Rightarrow> local_info list \<Rightarrow> nat \<Rightarrow> nat \<Rightarrow> nat
    \<Rightarrow> function_allocation cc" where
  "allocate_function f locals local_count data_words local_vector_regs =
     rbind (lifetimes_of f local_count) (\<lambda>lifetime.
     rbind (call_live_outs f) (\<lambda>call_live_out.
     let starts = lt_starts lifetime; ends = lt_ends lifetime; is = function_locals starts;
         params = enumerate 0 (tf_params f)
     in
     rbind (fold_res (place_frame locals) (replicate local_count None) is) (\<lambda>storage.
     rbind (fold_res (scalar_parameter locals) (storage, []) params) (\<lambda>homes.
     rbind (fold_res (scalar_local locals (tf_params f) starts ends) homes is) (\<lambda>(storage, scalars).
     rbind (fold_res vector_parameter (storage, []) params) (\<lambda>homes.
     rbind (fold_res (vector_local local_vector_regs starts ends) (homes, tf_frame_words f, 0) is)
       (\<lambda>((storage, vectors), frame_words, spills).
     if data_words + frame_words * 32 \<ge> STACK_TOP
     then diag (tf_span f) ''Warp C data and register-spill frame exceed VM RAM''
     else
       Inr \<lparr>fa_storage = storage, fa_starts = starts, fa_ends = ends,
            fa_statement_points = lt_statement_points lifetime,
            fa_end_point = lt_next_point lifetime + 1, fa_frame_words = frame_words,
            fa_scalar_homes = scalar_homes scalars, fa_spills = spills,
            fa_vector_home_limit = local_vector_regs, fa_call_live_out = call_live_out\<rparr>)))))))"

end
