(* ===== verification/Codegen_Emit.thy ===== *)
theory Codegen_Emit
  imports Codegen_Alloc
begin

text \<open>
  The state of the code generator and its primitive operations (\<open>Generator\<close> of
  \<open>tools/warpc/src/codegen.rs\<close>): lines of text, labels, the file of vector registers, homes of
  locals that come into use and go out of it, and access to locals. \<open>g_checks\<close> says whether the
  build has debug assertions: they panic where it has and are skipped where it has not.
\<close>

definition LANE_REG :: nat where "LANE_REG = 13"
definition STACK_ADDR_REG :: nat where "STACK_ADDR_REG = 14"
definition SCRATCH_REG :: nat where "SCRATCH_REG = 15"
definition STACK_POINTER :: asm_operand where "STACK_POINTER = O_S 7"
definition SIGN_BIT :: nat where "SIGN_BIT = 0x80000000"

record gvalue =
  v_reg :: nat
  v_owned :: bool

definition owned :: "nat \<Rightarrow> gvalue" where
  "owned r = \<lparr>v_reg = r, v_owned = True\<rparr>"

definition borrowed :: "nat \<Rightarrow> gvalue" where
  "borrowed r = \<lparr>v_reg = r, v_owned = False\<rparr>"

record control_target =
  ct_break_label :: string
  ct_continue_label :: "string option"

record generator =
  g_checks :: bool
  g_assembly :: "asm_line list"
  g_used :: "bool list"
  g_scalar_used :: "bool list"
  g_local_storage :: "local_storage option list"
  g_local_starts :: "nat option list"
  g_local_ends :: "nat option list"
  g_local_active :: "bool list"
  g_statement_points :: "node \<rightharpoonup> nat"
  g_allocation_end_point :: nat
  g_peak_vector_regs :: nat
  g_allocation_scalar_homes :: nat
  g_allocation_spills :: nat
  g_allocation_vector_home_limit :: nat
  g_call_live_out :: "node \<rightharpoonup> nat set"
  g_protected :: "nat list"
  g_next_label :: nat
  g_controls :: "control_target list"
  g_switch_labels :: "(nat \<times> string) list list"
  g_function_labels :: "string list"
  g_function_names :: "string list"
  g_function_param_shapes :: "value_shape list list"
  g_function_return_shapes :: "value_shape list"
  g_current_function :: "nat option"
  g_current_return_type :: ctype
  g_current_return_shape :: value_shape
  g_current_frame_words :: nat
  g_main_function :: nat
  g_locals :: "local_info list"
  g_globals :: "global_info list"
  g_structs :: "struct_info list"
  g_data_words :: nat
  g_current_guard :: "nat option"
  g_mask_stack :: "nat list"

type_synonym 'a gm = "(generator, 'a) comp"

definition debug_assert :: "string \<Rightarrow> (generator \<Rightarrow> bool) \<Rightarrow> unit gm" where
  "debug_assert message c =
     (\<lambda>g. if g_checks g \<and> \<not> c g then Inl (CPanic (''assertion failed: '' @ message)) else Inr ((), g))"

section \<open>Lines and labels\<close>

definition push_line :: "asm_line \<Rightarrow> unit gm" where
  "push_line l = modify (\<lambda>g. g\<lparr>g_assembly := g_assembly g @ [l]\<rparr>)"

definition text_line :: "string \<Rightarrow> unit gm" where
  "text_line s = push_line (L_Text s)"

definition label_line :: "string \<Rightarrow> unit gm" where
  "label_line l = push_line (L_Label l)"

definition raw_instr :: "string \<Rightarrow> asm_operand list \<Rightarrow> unit gm" where
  "raw_instr mnemonic operands = push_line (L_Instr None mnemonic operands)"

definition emit_instr :: "string \<Rightarrow> asm_operand list \<Rightarrow> unit gm" where
  "emit_instr mnemonic operands =
     mbind (gets g_current_guard) (\<lambda>guard.
       push_line (L_Instr (map_option (Pair False) guard) mnemonic operands))"

definition guarded_instr :: "nat \<Rightarrow> bool \<Rightarrow> string \<Rightarrow> asm_operand list \<Rightarrow> unit gm" where
  "guarded_instr p inverted mnemonic operands =
     mbind (gets g_current_guard) (\<lambda>guard.
     case guard of
       Some execution \<Rightarrow>
         mthen (if inverted
                then mthen (raw_instr ''NOTMASK'' [O_P 1, O_P p]) (raw_instr ''ANDMASK'' [O_P 1, O_P execution, O_P 1])
                else raw_instr ''ANDMASK'' [O_P 1, O_P execution, O_P p])
           (push_line (L_Instr (Some (False, 1)) mnemonic operands))
     | None \<Rightarrow> push_line (L_Instr (Some (inverted, p)) mnemonic operands))"

definition new_label :: "string \<Rightarrow> string gm" where
  "new_label stem =
     mbind (gets g_next_label) (\<lambda>n.
     mthen (modify (\<lambda>g. g\<lparr>g_next_label := n + 1\<rparr>))
       (ret (''__warpc_'' @ stem @ ''_'' @ nat_str n)))"

section \<open>Registers\<close>

definition update_peak_vector_regs :: "unit gm" where
  "update_peak_vector_regs = modify (\<lambda>g. g\<lparr>g_peak_vector_regs :=
     max (g_peak_vector_regs g) (length (filter (\<lambda>u. u) (g_used g)))\<rparr>)"

definition first_unused :: "bool list \<Rightarrow> nat option" where
  "first_unused used = List.find (\<lambda>i. \<not> used ! i) [0..<length used]"

definition pressure_message :: string where
  "pressure_message =
     ''temporary vector-register demand exceeds r0-r12 after liveness allocation and spilling''"

definition alloc_reg :: "span \<Rightarrow> nat gm" where
  "alloc_reg sp =
     mbind (gets (first_unused \<circ> g_used)) (\<lambda>reg.
     case reg of
       None \<Rightarrow> fails sp pressure_message
     | Some reg \<Rightarrow>
         mthen (modify (\<lambda>g. g\<lparr>g_used := (g_used g)[reg := True]\<rparr>))
         (mthen update_peak_vector_regs (ret (as_u8 reg))))"

definition free_reg :: "nat \<Rightarrow> unit gm" where
  "free_reg reg =
     mthen (debug_assert ''(reg as usize) < ALLOCATABLE_REGS && self.used[reg as usize]''
              (\<lambda>g. reg < ALLOCATABLE_REGS \<and> g_used g ! reg))
     (mbind (gets g_used) (\<lambda>used.
      mbind (lift (set_at used reg False)) (\<lambda>used.
        modify (\<lambda>g. g\<lparr>g_used := used\<rparr>))))"

definition release :: "gvalue \<Rightarrow> unit gm" where
  "release v = only_if (v_owned v) (free_reg (v_reg v))"

definition protect :: "gvalue \<Rightarrow> unit gm" where
  "protect v = only_if (v_reg v < ALLOCATABLE_REGS)
     (modify (\<lambda>g. g\<lparr>g_protected := (g_protected g)[v_reg v := g_protected g ! v_reg v + 1]\<rparr>))"

text \<open>Without debug assertions the subtraction wraps.\<close>

definition wrapping_pred :: "nat \<Rightarrow> nat" where
  "wrapping_pred n = (if n = 0 then 2 ^ 64 - 1 else n - 1)"

definition unprotect :: "gvalue \<Rightarrow> unit gm" where
  "unprotect v = only_if (v_reg v < ALLOCATABLE_REGS)
     (mthen (debug_assert ''self.protected[value.reg as usize] != 0'' (\<lambda>g. g_protected g ! v_reg v \<noteq> 0))
        (modify (\<lambda>g. g\<lparr>g_protected := (g_protected g)[v_reg v := wrapping_pred (g_protected g ! v_reg v)]\<rparr>)))"

section \<open>Homes coming into use\<close>

definition set_used :: "nat \<Rightarrow> bool \<Rightarrow> unit gm" where
  "set_used reg b =
     mbind (gets g_used) (\<lambda>used.
     mbind (lift (set_at used reg b)) (\<lambda>used. modify (\<lambda>g. g\<lparr>g_used := used\<rparr>)))"

definition set_scalar_used :: "nat \<Rightarrow> bool \<Rightarrow> unit gm" where
  "set_scalar_used reg b =
     mbind (gets g_scalar_used) (\<lambda>used.
     mbind (lift (set_at used reg b)) (\<lambda>used. modify (\<lambda>g. g\<lparr>g_scalar_used := used\<rparr>)))"

definition set_active :: "nat \<Rightarrow> bool \<Rightarrow> unit gm" where
  "set_active i b =
     mbind (gets g_local_active) (\<lambda>active.
     mbind (lift (set_at active i b)) (\<lambda>active. modify (\<lambda>g. g\<lparr>g_local_active := active\<rparr>)))"

definition field_at :: "(generator \<Rightarrow> 'a list) \<Rightarrow> nat \<Rightarrow> 'a gm" where
  "field_at f i = mbind (gets f) (\<lambda>xs. lift (index_at xs i))"

definition retire :: "nat \<Rightarrow> nat \<Rightarrow> unit gm" where
  "retire point i =
     mbind (field_at g_local_active i) (\<lambda>active.
     if \<not> active then ret ()
     else
       mbind (field_at g_local_ends i) (\<lambda>e.
       if (case e of None \<Rightarrow> 0 | Some n \<Rightarrow> n) \<ge> point then ret ()
       else
         mbind (field_at g_local_storage i) (\<lambda>home.
         mthen (case home of
                  Some (St_Vector reg) \<Rightarrow> free_reg reg
                | Some (St_Scalar reg) \<Rightarrow> set_scalar_used reg False
                | _ \<Rightarrow> ret ())
           (set_active i False))))"

definition activate :: "nat \<Rightarrow> nat \<Rightarrow> unit gm" where
  "activate point i =
     mbind (field_at g_local_active i) (\<lambda>active.
     mbind (field_at g_local_starts i) (\<lambda>start.
     if active \<or> start = None \<or> (case start of None \<Rightarrow> False | Some n \<Rightarrow> n > point) then ret ()
     else
       mbind (gets g_local_ends) (\<lambda>ends.
       mbind (lift (instant ends i)) (\<lambda>e.
       if e < point then ret ()
       else
         mbind (field_at g_local_storage i) (\<lambda>home.
         mthen (case home of
                  Some (St_Vector reg) \<Rightarrow>
                    mbind (field_at g_used reg) (\<lambda>used.
                    if used
                    then mbind (field_at g_locals i) (\<lambda>l.
                           fails (li_span l) ''internal error: overlapping vector-register allocation'')
                    else set_used reg True)
                | Some (St_Scalar reg) \<Rightarrow>
                    mbind (field_at g_scalar_used reg) (\<lambda>used.
                    if used
                    then mbind (field_at g_locals i) (\<lambda>l.
                           fails (li_span l) ''internal error: overlapping scalar-register allocation'')
                    else set_scalar_used reg True)
                | _ \<Rightarrow> ret ())
           (set_active i True))))))"

definition advance_allocation :: "nat \<Rightarrow> unit gm" where
  "advance_allocation point =
     mbind (gets (length \<circ> g_local_active)) (\<lambda>n.
     mthen (each (retire point) [0..<n])
     (mthen (each (activate point) [0..<n]) update_peak_vector_regs))"

section \<open>Access to locals\<close>

definition no_storage :: "span \<Rightarrow> 'a gm" where
  "no_storage sp = fails sp ''internal error: local has no allocated storage''"

definition local_address_offset :: "nat \<Rightarrow> nat \<Rightarrow> span \<Rightarrow> gvalue gm" where
  "local_address_offset i extra sp =
     mbind (field_at g_local_storage i) (\<lambda>home.
     case home of
       Some (St_Frame offset) \<Rightarrow>
         mbind (alloc_reg sp) (\<lambda>out.
         mthen (emit_instr ''S_BCAST'' [O_R out, STACK_POINTER])
         (mbind (gets g_current_frame_words) (\<lambda>frame_words.
          mthen (only_if (frame_words \<noteq> 0)
                   (mthen (emit_instr ''MUL'' [O_R STACK_ADDR_REG, O_R LANE_REG, O_Num frame_words])
                      (emit_instr ''ADD'' [O_R out, O_R out, O_R STACK_ADDR_REG])))
          (mthen (only_if (offset + extra \<noteq> 0) (emit_instr ''ADD'' [O_R out, O_R out, O_Num (offset + extra)]))
             (ret (owned out))))))
     | _ \<Rightarrow> fails sp ''cannot take address of register-only local'')"

definition local_address :: "nat \<Rightarrow> span \<Rightarrow> gvalue gm" where
  "local_address i sp = local_address_offset i 0 sp"

definition store_local :: "nat \<Rightarrow> nat \<Rightarrow> span \<Rightarrow> unit gm" where
  "store_local i source sp =
     mbind (field_at g_local_storage i) (\<lambda>home.
     case home of
       Some (St_Vector target) \<Rightarrow>
         only_if (target \<noteq> source) (emit_instr ''MOV'' [O_R target, O_R source])
     | Some (St_Scalar target) \<Rightarrow>
         mthen (debug_assert ''self.current_guard.is_none()'' (\<lambda>g. g_current_guard g = None))
           (emit_instr ''S_GET'' [O_S target, O_R source])
     | Some (St_Frame _) \<Rightarrow>
         mbind (local_address i sp) (\<lambda>address.
         mthen (emit_instr ''STORE'' [O_R (v_reg address), O_R source]) (release address))
     | None \<Rightarrow> no_storage sp)"

text \<open>\<open>load_lvalue\<close> and \<open>store_lvalue\<close>; the last argument but the span is the computation of the
  address.\<close>

definition load_from :: "gvalue gm \<Rightarrow> span \<Rightarrow> gvalue gm" where
  "load_from address sp =
     mbind address (\<lambda>a.
     mbind (alloc_reg sp) (\<lambda>out.
     mthen (emit_instr ''LOAD'' [O_R out, O_R (v_reg a)])
     (mthen (release a) (ret (owned out)))))"

definition load_lvalue :: "lvalue \<Rightarrow> gvalue gm \<Rightarrow> span \<Rightarrow> gvalue gm" where
  "load_lvalue l address sp =
     (case l of
        LV_Local i \<Rightarrow>
          mbind (field_at g_local_storage i) (\<lambda>home.
          case home of
            Some (St_Vector reg) \<Rightarrow> ret (borrowed reg)
          | Some (St_Scalar reg) \<Rightarrow>
              mbind (alloc_reg sp) (\<lambda>out.
              mthen (emit_instr ''S_BCAST'' [O_R out, O_S reg]) (ret (owned out)))
          | Some (St_Frame _) \<Rightarrow> load_from address sp
          | None \<Rightarrow> no_storage sp)
      | _ \<Rightarrow> load_from address sp)"

definition store_to :: "gvalue gm \<Rightarrow> nat \<Rightarrow> unit gm" where
  "store_to address source =
     mbind address (\<lambda>a. mthen (emit_instr ''STORE'' [O_R (v_reg a), O_R source]) (release a))"

definition store_lvalue :: "lvalue \<Rightarrow> gvalue gm \<Rightarrow> nat \<Rightarrow> span \<Rightarrow> unit gm" where
  "store_lvalue l address source sp =
     (case l of
        LV_Local i \<Rightarrow>
          mbind (field_at g_local_storage i) (\<lambda>home.
          case home of
            Some (St_Frame _) \<Rightarrow> store_to address source
          | _ \<Rightarrow> store_local i source sp)
      | _ \<Rightarrow> store_to address source)"

section \<open>Arithmetic\<close>

definition mnemonic_of :: "binary_op \<Rightarrow> string" where
  "mnemonic_of op =
     (case op of
        B_Add \<Rightarrow> ''ADD'' | B_Sub \<Rightarrow> ''SUB'' | B_Mul \<Rightarrow> ''MUL'' | B_BitAnd \<Rightarrow> ''AND'' | B_BitOr \<Rightarrow> ''OR''
      | B_BitXor \<Rightarrow> ''XOR'' | B_Shl \<Rightarrow> ''SHL'' | B_Div \<Rightarrow> ''DIV'' | B_Mod \<Rightarrow> ''MOD'' | B_Shr \<Rightarrow> ''SHR''
      | B_Eq \<Rightarrow> ''CMP_EQ'' | B_Ne \<Rightarrow> ''CMP_NE'' | B_Lt \<Rightarrow> ''CMP_LT'' | B_Le \<Rightarrow> ''CMP_LE'' | B_Gt \<Rightarrow> ''CMP_GT''
      | B_Ge \<Rightarrow> ''CMP_GE'' | _ \<Rightarrow> [])"

text \<open>A comparison as a value 0 or 1: with a register, or with an immediate.\<close>

definition materialize_compare :: "string \<Rightarrow> nat \<Rightarrow> nat option \<Rightarrow> nat \<Rightarrow> span \<Rightarrow> nat gm" where
  "materialize_compare mnemonic left right immediate sp =
     mthen (case right of
              Some right \<Rightarrow> emit_instr mnemonic [O_P 0, O_R left, O_R right]
            | None \<Rightarrow> emit_instr mnemonic [O_P 0, O_R left, O_Num immediate])
     (mbind (alloc_reg sp) (\<lambda>out.
      mthen (emit_instr ''MOV'' [O_R out, O_Num 0])
      (mthen (guarded_instr 0 False ''MOV'' [O_R out, O_Num 1]) (ret out))))"

definition signed_div_mod :: "binary_op \<Rightarrow> nat \<Rightarrow> nat \<Rightarrow> span \<Rightarrow> nat gm" where
  "signed_div_mod op left right sp =
     mbind (alloc_reg sp) (\<lambda>out.
     mbind (alloc_reg sp) (\<lambda>temp.
     mthen (emit_instr ''ABS'' [O_R out, O_R left])
     (mthen (emit_instr ''ABS'' [O_R temp, O_R right])
     (mthen (emit_instr (if op = B_Div then ''DIV'' else ''MOD'') [O_R out, O_R out, O_R temp])
     (mthen (if op = B_Div then emit_instr ''XOR'' [O_R temp, O_R left, O_R right]
             else emit_instr ''MOV'' [O_R temp, O_R left])
     (mthen (emit_instr ''CMP_GE'' [O_P 0, O_R temp, O_Num SIGN_BIT])
     (mthen (guarded_instr 0 False ''NEG'' [O_R out, O_R out])
     (mthen (free_reg temp) (ret out)))))))))"

definition arithmetic_shift_right :: "nat \<Rightarrow> nat \<Rightarrow> span \<Rightarrow> nat gm" where
  "arithmetic_shift_right left right sp =
     mbind (alloc_reg sp) (\<lambda>out.
     mbind (alloc_reg sp) (\<lambda>fill.
     mbind (alloc_reg sp) (\<lambda>neg_shift.
     mthen (emit_instr ''SHR'' [O_R out, O_R left, O_R right])
     (mthen (emit_instr ''SHR'' [O_R fill, O_R left, O_Num 31])
     (mthen (emit_instr ''NEG'' [O_R fill, O_R fill])
     (mthen (emit_instr ''NEG'' [O_R neg_shift, O_R right])
     (mthen (emit_instr ''SHL'' [O_R fill, O_R fill, O_R neg_shift])
     (mthen (emit_instr ''CMP_EQ'' [O_P 0, O_R right, O_Num 0])
     (mthen (guarded_instr 0 True ''OR'' [O_R out, O_R out, O_R fill])
     (mthen (free_reg neg_shift)
     (mthen (free_reg fill) (ret out))))))))))))"

definition relational :: "binary_op \<Rightarrow> nat \<Rightarrow> nat \<Rightarrow> ctype \<Rightarrow> span \<Rightarrow> nat gm" where
  "relational op left right ty sp =
     (if ty \<noteq> T_I32 then materialize_compare (mnemonic_of op) left (Some right) 0 sp
      else
        mbind (alloc_reg sp) (\<lambda>biased_left.
        mbind (alloc_reg sp) (\<lambda>biased_right.
        mthen (emit_instr ''XOR'' [O_R biased_left, O_R left, O_Num SIGN_BIT])
        (mthen (emit_instr ''XOR'' [O_R biased_right, O_R right, O_Num SIGN_BIT])
        (mbind (materialize_compare (mnemonic_of op) biased_left (Some biased_right) 0 sp) (\<lambda>out.
         mthen (free_reg biased_right)
         (mthen (free_reg biased_left) (ret out))))))))"

definition three_address :: "string \<Rightarrow> nat \<Rightarrow> nat \<Rightarrow> span \<Rightarrow> nat gm" where
  "three_address mnemonic left right sp =
     mbind (alloc_reg sp) (\<lambda>out.
     mthen (emit_instr mnemonic [O_R out, O_R left, O_R right]) (ret out))"

definition emit_binary :: "binary_op \<Rightarrow> nat \<Rightarrow> nat \<Rightarrow> ctype \<Rightarrow> span \<Rightarrow> nat gm" where
  "emit_binary op left right operand_type sp =
     (if op \<in> {B_Add, B_Sub, B_Mul, B_BitAnd, B_BitOr, B_BitXor, B_Shl}
      then three_address (mnemonic_of op) left right sp
      else if op = B_Div \<or> op = B_Mod then
        (if operand_type = T_I32 then signed_div_mod op left right sp
         else three_address (mnemonic_of op) left right sp)
      else if op = B_Shr then
        (if operand_type = T_I32 then arithmetic_shift_right left right sp
         else three_address ''SHR'' left right sp)
      else if op = B_Eq \<or> op = B_Ne then materialize_compare (mnemonic_of op) left (Some right) 0 sp
      else if op \<in> {B_Lt, B_Le, B_Gt, B_Ge} then relational op left right operand_type sp
      else panics ''internal error: entered unreachable code'')"

end
