(* ===== verification/Codegen_Expr.thy ===== *)
theory Codegen_Expr
  imports Codegen_Emit
begin

text \<open>
  Code for expressions (\<open>Generator::expr\<close> and the methods it calls, in
  \<open>tools/warpc/src/codegen.rs\<close>). The operation of each construct is a definition over the
  computations that generate its parts; \<open>expr_code\<close> passes them the recursive calls. The
  suffix tells the methods from the functions of the analysis of the same names.
\<close>

section \<open>Lists of computations\<close>

text \<open>\<open>expr_values\<close>: every value is protected until all are there.\<close>

fun protected_values :: "gvalue gm list \<Rightarrow> gvalue list gm" where
  "protected_values [] = ret []"
| "protected_values (c # cs) =
     mbind c (\<lambda>v. mthen (protect v) (mbind (protected_values cs) (\<lambda>vs. ret (v # vs))))"

definition expr_values :: "gvalue gm list \<Rightarrow> gvalue list gm" where
  "expr_values cs = mbind (protected_values cs) (\<lambda>vs. mthen (each unprotect vs) (ret vs))"

definition argument :: "gvalue gm list \<Rightarrow> nat \<Rightarrow> gvalue gm" where
  "argument cs i = mbind (lift (index_at cs i)) (\<lambda>c. c)"

text \<open>Two operands; the first is protected while the second is computed.\<close>

definition operands :: "gvalue gm \<Rightarrow> gvalue gm \<Rightarrow> (gvalue \<times> gvalue) gm" where
  "operands l r =
     mbind l (\<lambda>left.
     mthen (protect left)
     (mbind r (\<lambda>right.
      mthen (unprotect left) (ret (left, right)))))"

text \<open>An index in units of \<open>scale\<close> words.\<close>

definition scaled :: "nat \<Rightarrow> gvalue \<Rightarrow> span \<Rightarrow> gvalue gm" where
  "scaled scale index sp =
     (if scale = 1 then ret index
      else
        mbind (alloc_reg sp) (\<lambda>out.
        mthen (emit_instr ''MUL'' [O_R out, O_R (v_reg index), O_Num scale])
        (mthen (release index) (ret (owned out)))))"

text \<open>An instruction with a new register for its result, behind which operands are released.\<close>

definition into_new :: "string \<Rightarrow> asm_operand list \<Rightarrow> gvalue list \<Rightarrow> span \<Rightarrow> gvalue gm" where
  "into_new mnemonic ops vs sp =
     mbind (alloc_reg sp) (\<lambda>out.
     mthen (emit_instr mnemonic (O_R out # ops))
     (mthen (each release vs) (ret (owned out))))"

definition load_immediate :: "nat \<Rightarrow> span \<Rightarrow> gvalue gm" where
  "load_immediate n sp = into_new ''MOV'' [O_Num n] [] sp"

section \<open>Writes of uniform locals under a mask\<close>

text \<open>The guard of \<open>declaration\<close>, \<open>assignment\<close> and \<open>inc_dec\<close>: a uniform local is written by a
  branch around the write, outside of the mask.\<close>

definition local_is_uniform :: "nat \<Rightarrow> bool gm" where
  "local_is_uniform i = mbind (field_at g_locals i) (\<lambda>l. ret (li_shape l = Shape_Uniform))"

definition set_guard :: "nat option \<Rightarrow> unit gm" where
  "set_guard guard = modify (\<lambda>g. g\<lparr>g_current_guard := guard\<rparr>)"

definition uniform_write :: "string \<Rightarrow> nat \<Rightarrow> 'a gm \<Rightarrow> 'a gm" where
  "uniform_write stem guard m =
     mbind (new_label (stem @ ''_write'')) (\<lambda>write.
     mbind (new_label (stem @ ''_done'')) (\<lambda>over.
     mthen (raw_instr ''JMP_IF_ANY'' [O_P guard, O_Label write])
     (mthen (raw_instr ''JMP'' [O_Label over])
     (mthen (label_line write)
     (mthen (set_guard None)
     (mbind m (\<lambda>result.
      mthen (set_guard (Some guard))
      (mthen (label_line over) (ret result)))))))))"

definition guarded_write :: "string \<Rightarrow> nat \<Rightarrow> 'a gm \<Rightarrow> 'a gm" where
  "guarded_write stem i m =
     mbind (local_is_uniform i) (\<lambda>uniform.
     mbind (gets g_current_guard) (\<lambda>guard.
     case guard of
       Some p \<Rightarrow> if uniform then uniform_write stem p m else m
     | None \<Rightarrow> m))"

definition guarded_target :: "string \<Rightarrow> lvalue \<Rightarrow> 'a gm \<Rightarrow> 'a gm" where
  "guarded_target stem l m = (case l of LV_Local i \<Rightarrow> guarded_write stem i m | _ \<Rightarrow> m)"

section \<open>Declarations\<close>

text \<open>The initializer is the computation of a value or the words of an aggregate.\<close>

type_synonym init_code = "(gvalue gm + u32 list) option"

definition store_word :: "nat \<Rightarrow> nat \<Rightarrow> nat \<Rightarrow> span \<Rightarrow> unit gm" where
  "store_word i offset source sp =
     mbind (local_address_offset i offset sp) (\<lambda>address.
     mthen (emit_instr ''STORE'' [O_R (v_reg address), O_R source]) (release address))"

definition store_words :: "nat \<Rightarrow> u32 list \<Rightarrow> nat \<Rightarrow> span \<Rightarrow> unit gm" where
  "store_words i words size' sp =
     each (\<lambda>offset.
       mbind (local_address_offset i offset sp) (\<lambda>address.
       mbind (alloc_reg sp) (\<lambda>v.
       mthen (emit_instr ''MOV'' [O_R v, O_Num (if offset < length words then unat (words ! offset) else 0)])
       (mthen (emit_instr ''STORE'' [O_R (v_reg address), O_R v])
       (mthen (free_reg v) (release address)))))) [0..<size']"

definition declare_in_frame :: "nat \<Rightarrow> init_code \<Rightarrow> span \<Rightarrow> unit gm" where
  "declare_in_frame i init sp =
     mbind (field_at g_locals i) (\<lambda>l.
     mbind (gets g_structs) (\<lambda>structs.
     mbind (lift (type_size (li_ty l) structs)) (\<lambda>size'.
     case init of
       Some (Inl c) \<Rightarrow>
         mbind c (\<lambda>v.
         mbind (local_address i sp) (\<lambda>address.
         mthen (emit_instr ''STORE'' [O_R (v_reg address), O_R (v_reg v)])
         (mthen (release address) (release v))))
     | Some (Inr words) \<Rightarrow> store_words i words size' sp
     | None \<Rightarrow>
         mbind (alloc_reg sp) (\<lambda>zero.
         mthen (emit_instr ''MOV'' [O_R zero, O_Num 0])
         (mthen (each (\<lambda>offset. store_word i offset zero sp) [0..<size']) (free_reg zero))))))"

definition declare_in_register :: "nat \<Rightarrow> local_storage \<Rightarrow> init_code \<Rightarrow> span \<Rightarrow> unit gm" where
  "declare_in_register i home init sp =
     (case init of
        Some (Inl c) \<Rightarrow> mbind c (\<lambda>v. mthen (store_local i (v_reg v) sp) (release v))
      | Some (Inr words) \<Rightarrow> fails sp ''internal error: aggregate initializer assigned to register local''
      | None \<Rightarrow>
          (case home of
             St_Vector reg \<Rightarrow> emit_instr ''MOV'' [O_R reg, O_Num 0]
           | St_Scalar reg \<Rightarrow> emit_instr ''S_MOV_I'' [O_S reg, O_Num 0]
           | St_Frame _ \<Rightarrow> panics ''internal error: entered unreachable code''))"

definition declaration_code :: "nat \<Rightarrow> init_code \<Rightarrow> span \<Rightarrow> unit gm" where
  "declaration_code i init sp =
     guarded_write ''uniform_decl'' i
       (mbind (field_at g_local_storage i) (\<lambda>home.
        case home of
          Some (St_Frame _) \<Rightarrow> declare_in_frame i init sp
        | Some h \<Rightarrow> declare_in_register i h init sp
        | None \<Rightarrow> fails sp ''internal error: local has no allocation''))"

section \<open>Increments, operators and assignments\<close>

definition inc_dec_code :: "lvalue \<Rightarrow> gvalue gm \<Rightarrow> bool \<Rightarrow> bool \<Rightarrow> nat \<Rightarrow> span \<Rightarrow> gvalue gm" where
  "inc_dec_code l address increment postfix scale sp =
     guarded_target ''uniform_incdec'' l
       (mbind (load_lvalue l address sp) (\<lambda>current.
        let mnemonic = (if increment then ''ADD'' else ''SUB'') in
        if postfix then
          mbind (alloc_reg sp) (\<lambda>old.
          mthen (emit_instr ''MOV'' [O_R old, O_R (v_reg current)])
          (mbind (alloc_reg sp) (\<lambda>updated.
           mthen (emit_instr mnemonic [O_R updated, O_R (v_reg current), O_Num scale])
           (mthen (protect (owned old))
           (mthen (protect (owned updated))
           (mthen (store_lvalue l address updated sp)
           (mthen (unprotect (owned updated))
           (mthen (unprotect (owned old))
           (mthen (free_reg updated)
           (mthen (release current) (ret (owned old))))))))))))
        else
          mbind (alloc_reg sp) (\<lambda>updated.
          mthen (emit_instr mnemonic [O_R updated, O_R (v_reg current), O_Num scale])
          (mthen (protect (owned updated))
          (mthen (store_lvalue l address updated sp)
          (mthen (unprotect (owned updated))
          (mthen (release current) (ret (owned updated)))))))))"

definition unary_code :: "unary_op \<Rightarrow> gvalue gm \<Rightarrow> span \<Rightarrow> gvalue gm" where
  "unary_code op operand sp =
     mbind operand (\<lambda>v.
     if op = U_Plus then ret v
     else if op = U_Minus \<or> op = U_BitNot then
       into_new (if op = U_Minus then ''NEG'' else ''NOT'') [O_R (v_reg v)] [v] sp
     else if op = U_LogicalNot then
       mbind (materialize_compare ''CMP_EQ'' (v_reg v) None 0 sp) (\<lambda>out.
       mthen (release v) (ret (owned out)))
     else panics (''internal error: entered unreachable code: ''
       @ ''increment/decrement is represented separately by semantic analysis''))"

definition logical_code :: "binary_op \<Rightarrow> gvalue gm \<Rightarrow> gvalue gm \<Rightarrow> span \<Rightarrow> gvalue gm" where
  "logical_code op l r sp =
     mbind (alloc_reg sp) (\<lambda>out.
     mbind (new_label ''logical_end'') (\<lambda>end'.
     mbind l (\<lambda>left.
     mthen (emit_instr ''CMP_NE'' [O_P 0, O_R (v_reg left), O_Num 0])
     (mthen (release left)
     (mthen (if op = B_LogicalAnd then
               mthen (emit_instr ''MOV'' [O_R out, O_Num 0])
               (mthen (emit_instr ''NOTMASK'' [O_P 1, O_P 0])
                  (emit_instr ''JMP_IF_ANY'' [O_P 1, O_Label end']))
             else
               mthen (emit_instr ''MOV'' [O_R out, O_Num 1])
                 (emit_instr ''JMP_IF_ANY'' [O_P 0, O_Label end']))
     (mthen (protect (owned out))
     (mbind r (\<lambda>right.
      mthen (unprotect (owned out))
      (mthen (emit_instr (if op = B_LogicalAnd then ''CMP_NE'' else ''CMP_EQ'') [O_P 0, O_R (v_reg right), O_Num 0])
      (mthen (release right)
      (mthen (guarded_instr 0 False ''MOV'' [O_R out, O_Num (if op = B_LogicalAnd then 1 else 0)])
      (mthen (label_line end') (ret (owned out))))))))))))))"

definition binary_code :: "binary_op \<Rightarrow> gvalue gm \<Rightarrow> gvalue gm \<Rightarrow> ctype \<Rightarrow> span \<Rightarrow> gvalue gm" where
  "binary_code op l r operand_type sp =
     (if op = B_Comma then mbind l (\<lambda>left. mthen (release left) r)
      else if op = B_LogicalAnd \<or> op = B_LogicalOr then logical_code op l r sp
      else
        mbind (operands l r) (\<lambda>(left, right).
        mbind (emit_binary op (v_reg left) (v_reg right) operand_type sp) (\<lambda>out.
        mthen (release left)
        (mthen (release right) (ret (owned out))))))"

definition assignment_binary :: "assign_op \<Rightarrow> binary_op cc" where
  "assignment_binary op =
     (case op of
        A_Add \<Rightarrow> Inr B_Add | A_Sub \<Rightarrow> Inr B_Sub | A_Mul \<Rightarrow> Inr B_Mul | A_Div \<Rightarrow> Inr B_Div
      | A_Mod \<Rightarrow> Inr B_Mod | A_Shl \<Rightarrow> Inr B_Shl | A_Shr \<Rightarrow> Inr B_Shr | A_BitAnd \<Rightarrow> Inr B_BitAnd
      | A_BitXor \<Rightarrow> Inr B_BitXor | A_BitOr \<Rightarrow> Inr B_BitOr
      | A_Assign \<Rightarrow> Inl (CPanic ''internal error: entered unreachable code''))"

definition assignment_code :: "lvalue \<Rightarrow> gvalue gm \<Rightarrow> assign_op \<Rightarrow> gvalue gm \<Rightarrow> ctype \<Rightarrow> nat \<Rightarrow> span \<Rightarrow> gvalue gm" where
  "assignment_code l address op r operation_type scale sp =
     guarded_target ''uniform_assign'' l
       (mbind r (\<lambda>right.
        mthen (protect right)
        (if op = A_Assign then
           mthen (store_lvalue l address (v_reg right) sp)
           (mthen (unprotect right) (ret right))
         else
           mbind (load_lvalue l address sp) (\<lambda>current.
           mthen (unprotect right)
           (mbind (scaled scale right sp) (\<lambda>right.
            mbind (lift (assignment_binary op)) (\<lambda>binary.
            mbind (emit_binary binary (v_reg current) (v_reg right) operation_type sp) (\<lambda>out.
            mthen (release current)
            (mthen (release right)
            (mthen (protect (owned out))
            (mthen (store_lvalue l address out sp)
            (mthen (unprotect (owned out)) (ret (owned out))))))))))))))"

definition pointer_add_code :: "gvalue gm \<Rightarrow> gvalue gm \<Rightarrow> nat \<Rightarrow> bool \<Rightarrow> span \<Rightarrow> gvalue gm" where
  "pointer_add_code p i scale subtract sp =
     mbind (operands p i) (\<lambda>(pointer, index).
     mbind (scaled scale index sp) (\<lambda>index.
       into_new (if subtract then ''SUB'' else ''ADD'') [O_R (v_reg pointer), O_R (v_reg index)]
         [pointer, index] sp))"

definition pointer_diff_code :: "gvalue gm \<Rightarrow> gvalue gm \<Rightarrow> nat \<Rightarrow> span \<Rightarrow> gvalue gm" where
  "pointer_diff_code l r scale sp =
     mbind (operands l r) (\<lambda>(left, right).
     mbind (into_new ''SUB'' [O_R (v_reg left), O_R (v_reg right)] [left, right] sp) (\<lambda>delta.
     if scale = 1 then ret delta
     else
       mbind (alloc_reg sp) (\<lambda>divisor.
       mthen (emit_instr ''MOV'' [O_R divisor, O_Num scale])
       (mbind (signed_div_mod B_Div (v_reg delta) divisor sp) (\<lambda>out.
        mthen (free_reg divisor)
        (mthen (free_reg (v_reg delta)) (ret (owned out))))))))"

section \<open>Addresses\<close>

definition global_address :: "nat \<Rightarrow> span \<Rightarrow> gvalue gm" where
  "global_address i sp =
     mbind (alloc_reg sp) (\<lambda>out.
     mbind (field_at g_globals i) (\<lambda>global.
     mthen (emit_instr ''MOV'' [O_R out, O_Num (gi_address global)]) (ret (owned out))))"

definition index_address :: "gvalue gm \<Rightarrow> gvalue gm \<Rightarrow> nat \<Rightarrow> span \<Rightarrow> gvalue gm" where
  "index_address b i scale sp = pointer_add_code b i scale False sp"

definition member_address :: "gvalue gm \<Rightarrow> nat \<Rightarrow> span \<Rightarrow> gvalue gm" where
  "member_address base offset sp =
     mbind base (\<lambda>address.
     if offset = 0 then ret address
     else into_new ''ADD'' [O_R (v_reg address), O_Num offset] [address] sp)"

end
