(* ===== verification/Codegen_Intrinsic.thy ===== *)
theory Codegen_Intrinsic
  imports Codegen_Expr Sema_Const
begin

text \<open>
  Code for the intrinsics, the conditional expression and the tests for cheap expressions
  (\<open>Generator::intrinsic\<close>, \<open>conditional\<close>, \<open>cheap_conditional\<close>, \<open>masked_conditional\<close> and
  \<open>cheap_select_expr\<close> of \<open>tools/warpc/src/codegen.rs\<close>).
\<close>

section \<open>Intrinsics\<close>

definition nothing :: gvalue where
  "nothing = borrowed 0"

definition arity_panic :: "string \<Rightarrow> 'a gm" where
  "arity_panic name =
     panics (''internal error: entered unreachable code: '' @ name @ '' arity checked by semantic analysis'')"

fun argb_component :: "nat \<Rightarrow> nat \<Rightarrow> gvalue \<times> nat \<Rightarrow> unit gm" where
  "argb_component out component (v, shift) =
     mthen (emit_instr ''AND'' [O_R component, O_R (v_reg v), O_Num 255])
     (mthen (release v)
     (mthen (only_if (shift \<noteq> 0) (emit_instr ''SHL'' [O_R component, O_R component, O_Num shift]))
        (emit_instr ''OR'' [O_R out, O_R out, O_R component])))"

definition argb_code :: "gvalue gm list \<Rightarrow> span \<Rightarrow> gvalue gm" where
  "argb_code cs sp =
     mbind (expr_values cs) (\<lambda>vs.
     mbind (alloc_reg sp) (\<lambda>out.
     mbind (lift (index_at vs 0)) (\<lambda>alpha.
     mthen (emit_instr ''AND'' [O_R out, O_R (v_reg alpha), O_Num 255])
     (mthen (release alpha)
     (mthen (emit_instr ''SHL'' [O_R out, O_R out, O_Num 24])
     (mbind (alloc_reg sp) (\<lambda>component.
      mthen (each (argb_component out component) (zip (drop 1 vs) [16, 8, 0]))
      (mthen (free_reg component) (ret (owned out))))))))))"

definition set_pixel_code :: "gvalue gm list \<Rightarrow> span \<Rightarrow> gvalue gm" where
  "set_pixel_code cs sp =
     mbind (expr_values cs) (\<lambda>vs.
     case vs of
       [x, y, colour] \<Rightarrow>
         mbind (alloc_reg sp) (\<lambda>address.
         mthen (emit_instr ''MUL'' [O_R address, O_R (v_reg y), O_Num (unat WARP_VIDEO_WIDTH)])
         (mthen (release y)
         (mthen (emit_instr ''ADD'' [O_R address, O_R address, O_R (v_reg x)])
         (mthen (release x)
         (mthen (emit_instr ''ADD'' [O_R address, O_R address, O_Num (unat WARP_VIDEO_BASE)])
         (mthen (emit_instr ''STORE'' [O_R address, O_R (v_reg colour)])
         (mthen (release colour)
         (mthen (free_reg address) (ret nothing)))))))))
     | _ \<Rightarrow> arity_panic ''set_pixel'')"

definition send_code :: "gvalue gm list \<Rightarrow> gvalue gm" where
  "send_code cs =
     mbind (expr_values cs) (\<lambda>vs.
     case vs of
       [destination, message_type, payload] \<Rightarrow>
         mthen (emit_instr ''SEND'' [O_R (v_reg destination), O_R (v_reg message_type), O_R (v_reg payload)])
         (mthen (each release vs) (ret nothing))
     | _ \<Rightarrow> arity_panic ''warp_send'')"

definition try_recv_code :: "gvalue gm list \<Rightarrow> span \<Rightarrow> gvalue gm" where
  "try_recv_code cs sp =
     mbind (expr_values cs) (\<lambda>vs.
     case vs of
       [payload_address, metadata_address] \<Rightarrow>
         mbind (alloc_reg sp) (\<lambda>payload.
         mbind (alloc_reg sp) (\<lambda>metadata.
         mbind (alloc_reg sp) (\<lambda>received.
         mthen (emit_instr ''MOV'' [O_R payload, O_Num 0])
         (mthen (emit_instr ''MOV'' [O_R metadata, O_Num 0])
         (mthen (emit_instr ''TRY_RECV'' [O_P 0, O_R payload, O_R metadata])
         (mthen (emit_instr ''MOV'' [O_R received, O_Num 0])
         (mthen (guarded_instr 0 False ''MOV'' [O_R received, O_Num 1])
         (mthen (guarded_instr 0 False ''STORE'' [O_R (v_reg payload_address), O_R payload])
         (mthen (guarded_instr 0 False ''STORE'' [O_R (v_reg metadata_address), O_R metadata])
         (mthen (release payload_address)
         (mthen (release metadata_address)
         (mthen (free_reg payload)
         (mthen (free_reg metadata) (ret (owned received)))))))))))))))
     | _ \<Rightarrow> arity_panic ''warp_try_recv'')"

definition literal_of :: "typed_expr \<Rightarrow> u32 option" where
  "literal_of e = (case te_kind e of TE_Literal v \<Rightarrow> Some v | _ \<Rightarrow> None)"

definition broadcast_code :: "typed_expr list \<Rightarrow> gvalue gm list \<Rightarrow> span \<Rightarrow> gvalue gm" where
  "broadcast_code args cs sp =
     mbind (argument cs 0) (\<lambda>v.
     mbind (alloc_reg sp) (\<lambda>out.
     mbind (lift (index_at args 1)) (\<lambda>a.
     mthen (case literal_of a of
              Some lane \<Rightarrow> emit_instr ''BROADCAST'' [O_R out, O_R (v_reg v), O_Num (unat lane)]
            | None \<Rightarrow>
                mthen (protect v)
                (mbind (argument cs 1) (\<lambda>lane.
                 mthen (unprotect v)
                 (mthen (emit_instr ''SHUFFLE'' [O_R out, O_R (v_reg v), O_R (v_reg lane)])
                    (release lane)))))
     (mthen (release v) (ret (owned out))))))"

definition shuffle_code :: "gvalue gm list \<Rightarrow> span \<Rightarrow> gvalue gm" where
  "shuffle_code cs sp =
     mbind (operands (argument cs 0) (argument cs 1)) (\<lambda>(v, lane).
       into_new ''SHUFFLE'' [O_R (v_reg v), O_R (v_reg lane)] [v, lane] sp)"

definition shuffle_xor_code :: "typed_expr list \<Rightarrow> gvalue gm list \<Rightarrow> span \<Rightarrow> gvalue gm" where
  "shuffle_xor_code args cs sp =
     mbind (argument cs 0) (\<lambda>v.
     mbind (lift (index_at args 1)) (\<lambda>a.
     case literal_of a of
       None \<Rightarrow> fails sp ''internal error: non-constant shuffle mask''
     | Some m \<Rightarrow> into_new ''SHUFFLE_XOR'' [O_R (v_reg v), O_Num (unat m)] [v] sp))"

definition ballot_code :: "gvalue gm list \<Rightarrow> span \<Rightarrow> gvalue gm" where
  "ballot_code cs sp =
     mbind (argument cs 0) (\<lambda>predicate.
     mbind (alloc_reg sp) (\<lambda>bit.
     mbind (alloc_reg sp) (\<lambda>selected.
     mthen (emit_instr ''MOV'' [O_R bit, O_Num 1])
     (mthen (emit_instr ''SHL'' [O_R bit, O_R bit, O_R LANE_REG])
     (mthen (emit_instr ''CMP_NE'' [O_P 0, O_R (v_reg predicate), O_Num 0])
     (mthen (release predicate)
     (mthen (emit_instr ''MOV'' [O_R selected, O_Num 0])
     (mthen (guarded_instr 0 False ''MOV'' [O_R selected, O_R bit])
     (mthen (free_reg bit)
     (mbind (alloc_reg sp) (\<lambda>out.
      mthen (emit_instr ''REDUCE_OR'' [O_R out, O_R selected])
      (mthen (free_reg selected) (ret (owned out))))))))))))))"

definition any_all_code :: "intrinsic \<Rightarrow> gvalue gm list \<Rightarrow> span \<Rightarrow> gvalue gm" where
  "any_all_code i cs sp =
     mbind (argument cs 0) (\<lambda>v.
     mbind (alloc_reg sp) (\<lambda>normalized.
     mthen (emit_instr ''CMP_NE'' [O_P 0, O_R (v_reg v), O_Num 0])
     (mthen (release v)
     (mthen (emit_instr ''MOV'' [O_R normalized, O_Num 0])
     (mthen (guarded_instr 0 False ''MOV'' [O_R normalized, O_Num 1])
     (mbind (alloc_reg sp) (\<lambda>out.
      mthen (emit_instr (if i = I_Any then ''REDUCE_OR'' else ''REDUCE_AND'') [O_R out, O_R normalized])
      (mthen (free_reg normalized) (ret (owned out))))))))))"

definition reduce_mnemonic :: "intrinsic \<Rightarrow> string" where
  "reduce_mnemonic i =
     (if i = I_ReduceAdd \<or> i = I_ReduceAddUnsigned then ''REDUCE_ADD''
      else if i = I_ReduceMinUnsigned then ''REDUCE_MIN''
      else if i = I_ReduceMaxUnsigned then ''REDUCE_MAX''
      else if i = I_ReduceAnd then ''REDUCE_AND''
      else if i = I_ReduceOr then ''REDUCE_OR''
      else ''REDUCE_XOR'')"

definition reduce_signed_code :: "intrinsic \<Rightarrow> gvalue gm list \<Rightarrow> span \<Rightarrow> gvalue gm" where
  "reduce_signed_code i cs sp =
     mbind (argument cs 0) (\<lambda>v.
     mbind (into_new ''XOR'' [O_R (v_reg v), O_Num SIGN_BIT] [v] sp) (\<lambda>biased.
     mbind (alloc_reg sp) (\<lambda>out.
     mthen (emit_instr (if i = I_ReduceMinSigned then ''REDUCE_MIN'' else ''REDUCE_MAX'')
              [O_R out, O_R (v_reg biased)])
     (mthen (free_reg (v_reg biased))
     (mthen (emit_instr ''XOR'' [O_R out, O_R out, O_Num SIGN_BIT]) (ret (owned out)))))))"

definition min_max_code :: "intrinsic \<Rightarrow> gvalue gm list \<Rightarrow> span \<Rightarrow> gvalue gm" where
  "min_max_code i cs sp =
     mbind (operands (argument cs 0) (argument cs 1)) (\<lambda>(left, right).
     let is_signed = (i = I_MinSigned \<or> i = I_MaxSigned);
         maximum = (i = I_MaxSigned \<or> i = I_MaxUnsigned)
     in
     mbind (if is_signed then
              mbind (into_new ''XOR'' [O_R (v_reg left), O_Num SIGN_BIT] [left] sp) (\<lambda>biased_left.
              mbind (into_new ''XOR'' [O_R (v_reg right), O_Num SIGN_BIT] [right] sp) (\<lambda>biased_right.
                ret (biased_left, biased_right)))
            else ret (left, right)) (\<lambda>(left, right).
     mbind (into_new (if maximum then ''MAX'' else ''MIN'') [O_R (v_reg left), O_R (v_reg right)]
              [left, right] sp) (\<lambda>out.
     mthen (only_if is_signed (emit_instr ''XOR'' [O_R (v_reg out), O_R (v_reg out), O_Num SIGN_BIT]))
       (ret out))))"

definition intrinsic_code :: "intrinsic \<Rightarrow> typed_expr list \<Rightarrow> gvalue gm list \<Rightarrow> span \<Rightarrow> gvalue gm" where
  "intrinsic_code i args cs sp =
     (case i of
        I_LaneId \<Rightarrow> ret (borrowed LANE_REG)
      | I_VmId \<Rightarrow> into_new ''VMID'' [] [] sp
      | I_Framebuffer \<Rightarrow> load_immediate (unat WARP_VIDEO_BASE) sp
      | I_Flip \<Rightarrow> mthen (raw_instr ''FLIP'' []) (ret nothing)
      | I_Argb \<Rightarrow> argb_code cs sp
      | I_SetPixel \<Rightarrow> set_pixel_code cs sp
      | I_Send \<Rightarrow> send_code cs
      | I_TryRecv \<Rightarrow> try_recv_code cs sp
      | I_Broadcast \<Rightarrow> broadcast_code args cs sp
      | I_Shuffle \<Rightarrow> shuffle_code cs sp
      | I_ShuffleXor \<Rightarrow> shuffle_xor_code args cs sp
      | I_Ballot \<Rightarrow> ballot_code cs sp
      | I_Any \<Rightarrow> any_all_code i cs sp
      | I_All \<Rightarrow> any_all_code i cs sp
      | I_ReduceMinSigned \<Rightarrow> reduce_signed_code i cs sp
      | I_ReduceMaxSigned \<Rightarrow> reduce_signed_code i cs sp
      | I_MinUnsigned \<Rightarrow> min_max_code i cs sp
      | I_MaxUnsigned \<Rightarrow> min_max_code i cs sp
      | I_MinSigned \<Rightarrow> min_max_code i cs sp
      | I_MaxSigned \<Rightarrow> min_max_code i cs sp
      | _ \<Rightarrow>
          mbind (argument cs 0) (\<lambda>v. into_new (reduce_mnemonic i) [O_R (v_reg v)] [v] sp))"

section \<open>Cheap expressions\<close>

text \<open>Expressions without effects, divisions and jumps, which both arms of a selection may
  evaluate.\<close>

fun cheap_select_expr :: "typed_expr \<Rightarrow> bool"
and cheap_kind :: "typed_kind \<Rightarrow> bool" where
  "cheap_select_expr (TExpr k ty u sp) = cheap_kind k"
| "cheap_kind (TE_Literal v) = True"
| "cheap_kind (TE_StringAddress a) = True"
| "cheap_kind (TE_LValue l) = (case l of LV_Local i \<Rightarrow> True | LV_Global i \<Rightarrow> True | _ \<Rightarrow> False)"
| "cheap_kind (TE_Intrinsic i args) = ((i = I_LaneId \<or> i = I_VmId) \<and> args = [])"
| "cheap_kind (TE_Unary op e) =
     (op \<notin> {U_PreInc, U_PreDec, U_PostInc, U_PostDec} \<and> cheap_select_expr e)"
| "cheap_kind (TE_Binary op l r ty) =
     (op \<notin> {B_Div, B_Mod, B_LogicalAnd, B_LogicalOr, B_Comma} \<and> cheap_select_expr l \<and> cheap_select_expr r)"
| "cheap_kind _ = False"

fun cheap_lvalue :: "lvalue \<Rightarrow> bool" where
  "cheap_lvalue (LV_Local i) = True"
| "cheap_lvalue (LV_Global i) = True"
| "cheap_lvalue (LV_Deref p) = cheap_select_expr p"
| "cheap_lvalue (LV_Index b i k) = (cheap_select_expr b \<and> cheap_select_expr i)"
| "cheap_lvalue (LV_Member l offset) = cheap_lvalue l"

section \<open>Conditionals\<close>

definition jump_if :: "string \<Rightarrow> gvalue gm \<Rightarrow> string \<Rightarrow> unit gm" where
  "jump_if mnemonic condition label =
     mbind condition (\<lambda>v.
     mthen (emit_instr mnemonic [O_P 0, O_R (v_reg v), O_Num 0])
     (mthen (release v) (emit_instr ''JMP_IF_ANY'' [O_P 0, O_Label label])))"

definition jump_if_zero :: "gvalue gm \<Rightarrow> string \<Rightarrow> unit gm" where
  "jump_if_zero = jump_if ''CMP_EQ''"

definition jump_if_nonzero :: "gvalue gm \<Rightarrow> string \<Rightarrow> unit gm" where
  "jump_if_nonzero = jump_if ''CMP_NE''"

definition cheap_conditional :: "gvalue gm \<Rightarrow> gvalue gm \<Rightarrow> gvalue gm \<Rightarrow> span \<Rightarrow> gvalue gm" where
  "cheap_conditional c t e sp =
     mbind c (\<lambda>condition.
     mthen (raw_instr ''CMP_NE'' [O_P 1, O_R (v_reg condition), O_Num 0])
     (mthen (release condition)
     (mbind (alloc_reg sp) (\<lambda>out.
      mbind e (\<lambda>otherwise.
      mthen (emit_instr ''MOV'' [O_R out, O_R (v_reg otherwise)])
      (mthen (release otherwise)
      (mthen (protect (owned out))
      (mbind t (\<lambda>selected.
       mthen (unprotect (owned out))
       (mthen (guarded_instr 1 False ''MOV'' [O_R out, O_R (v_reg selected)])
       (mthen (release selected) (ret (owned out)))))))))))))"

text \<open>Predicate registers for two levels of masks.\<close>

definition next_mask :: "span \<Rightarrow> string \<Rightarrow> nat gm" where
  "next_mask sp message =
     mbind (gets (length \<circ> g_mask_stack)) (\<lambda>n.
     if n = 0 then ret 3 else if n = 1 then ret 2 else fails sp message)"

definition enter_then :: "nat \<Rightarrow> nat option \<Rightarrow> nat \<Rightarrow> unit gm" where
  "enter_then m parent reg =
     (case parent of
        Some p \<Rightarrow> mthen (raw_instr ''BALLOT'' [O_P 0, O_R reg]) (raw_instr ''ANDMASK'' [O_P m, O_P p, O_P 0])
      | None \<Rightarrow> raw_instr ''BALLOT'' [O_P m, O_R reg])"

definition enter_else :: "nat \<Rightarrow> nat option \<Rightarrow> unit gm" where
  "enter_else m parent =
     (case parent of
        Some p \<Rightarrow> mthen (raw_instr ''NOTMASK'' [O_P 0, O_P m]) (raw_instr ''ANDMASK'' [O_P m, O_P p, O_P 0])
      | None \<Rightarrow> raw_instr ''NOTMASK'' [O_P m, O_P m])"

definition push_mask :: "nat \<Rightarrow> unit gm" where
  "push_mask m = modify (\<lambda>g. g\<lparr>g_mask_stack := g_mask_stack g @ [m], g_current_guard := Some m\<rparr>)"

definition pop_mask :: "nat option \<Rightarrow> unit gm" where
  "pop_mask parent =
     modify (\<lambda>g. g\<lparr>g_mask_stack := butlast (g_mask_stack g), g_current_guard := parent\<rparr>)"

definition move_to :: "nat option \<Rightarrow> gvalue \<Rightarrow> unit gm" where
  "move_to out v =
     mthen (case out of None \<Rightarrow> ret () | Some r \<Rightarrow> emit_instr ''MOV'' [O_R r, O_R (v_reg v)]) (release v)"

definition masked_conditional :: "gvalue gm \<Rightarrow> gvalue gm \<Rightarrow> gvalue gm \<Rightarrow> bool \<Rightarrow> span \<Rightarrow> gvalue gm" where
  "masked_conditional c t e void sp =
     mbind (next_mask sp ''divergent conditional nesting exhausted predicate masks'') (\<lambda>m.
     mbind (gets g_current_guard) (\<lambda>parent.
     mbind c (\<lambda>condition.
     mthen (enter_then m parent (v_reg condition))
     (mthen (release condition)
     (mbind (if void then ret None
             else mbind (alloc_reg sp) (\<lambda>out. mthen (emit_instr ''MOV'' [O_R out, O_Num 0]) (ret (Some out))))
       (\<lambda>out.
      mthen (push_mask m)
      (mbind t (\<lambda>v.
       mthen (move_to out v)
       (mthen (enter_else m parent)
       (mbind e (\<lambda>v.
        mthen (move_to out v)
        (mthen (pop_mask parent)
          (ret (case out of None \<Rightarrow> nothing | Some r \<Rightarrow> owned r))))))))))))))"

definition branch_conditional :: "gvalue gm \<Rightarrow> gvalue gm \<Rightarrow> gvalue gm \<Rightarrow> bool \<Rightarrow> span \<Rightarrow> gvalue gm" where
  "branch_conditional c t e void sp =
     mbind (new_label ''conditional_else'') (\<lambda>otherwise.
     mbind (new_label ''conditional_end'') (\<lambda>end'.
     mthen (jump_if_zero c otherwise)
     (mbind (if void then ret None else mbind (alloc_reg sp) (\<lambda>out. ret (Some out))) (\<lambda>out.
      mbind t (\<lambda>v.
      mthen (move_to out v)
      (mthen (emit_instr ''JMP'' [O_Label end'])
      (mthen (label_line otherwise)
      (mbind e (\<lambda>v.
       mthen (move_to out v)
       (mthen (label_line end')
         (ret (case out of None \<Rightarrow> nothing | Some r \<Rightarrow> owned r))))))))))))"

definition conditional_code :: "typed_expr \<Rightarrow> typed_expr \<Rightarrow> typed_expr \<Rightarrow> gvalue gm \<Rightarrow> gvalue gm \<Rightarrow> gvalue gm
    \<Rightarrow> ctype \<Rightarrow> span \<Rightarrow> gvalue gm" where
  "conditional_code ce te ee c t e ty sp =
     (if te_uniformity ce = Divergent \<and> is_integer ty \<and> cheap_select_expr ce
         \<and> cheap_select_expr te \<and> cheap_select_expr ee
      then cheap_conditional c t e sp
      else
        mbind (gets g_current_guard) (\<lambda>guard.
        if te_uniformity ce = Divergent \<or> guard \<noteq> None
        then masked_conditional c t e (te_ty te = T_VOID) sp
        else branch_conditional c t e (ty = T_VOID) sp))"

end
