(* ===== verification/Codegen_Call.thy ===== *)
theory Codegen_Call
  imports Codegen_Intrinsic
begin

text \<open>
  Code for calls (\<open>Generator::call\<close> and \<open>stack_address\<close> of \<open>tools/warpc/src/codegen.rs\<close>): the
  registers that are live behind the call and the protected temporaries are saved in slots of
  the lane-private stack, arguments and the result pass through slots of their own. A slot is
  32 words, one for each lane.
\<close>

section \<open>What a call saves\<close>

text \<open>A local with its home and its name.\<close>

definition local_home :: "nat \<Rightarrow> (nat \<times> local_storage option \<times> string) gm" where
  "local_home i =
     mbind (field_at g_local_storage i) (\<lambda>home.
     mbind (field_at g_locals i) (\<lambda>l. ret (i, home, li_name l)))"

fun collect :: "('a \<Rightarrow> 'b gm) \<Rightarrow> 'a list \<Rightarrow> 'b list gm" where
  "collect f [] = ret []"
| "collect f (x # xs) = mbind (f x) (\<lambda>y. mbind (collect f xs) (\<lambda>ys. ret (y # ys)))"

definition add_new :: "nat list \<Rightarrow> nat \<Rightarrow> nat list" where
  "add_new xs x = (if x \<in> set xs then xs else xs @ [x])"

definition vector_regs :: "(nat \<times> local_storage option \<times> string) list \<Rightarrow> (nat \<times> string) list" where
  "vector_regs hs = concat (map (\<lambda>(i, home, name).
     case home of Some (St_Vector reg) \<Rightarrow> [(reg, name)] | _ \<Rightarrow> []) hs)"

definition scalar_regs :: "(nat \<times> local_storage option \<times> string) list \<Rightarrow> (nat \<times> string) list" where
  "scalar_regs hs = concat (map (\<lambda>(i, home, name).
     case home of Some (St_Scalar reg) \<Rightarrow> [(reg, name)] | _ \<Rightarrow> []) hs)"

definition frame_slots_of :: "(nat \<times> local_storage option \<times> string) list \<Rightarrow> (nat \<times> string) list" where
  "frame_slots_of hs = concat (map (\<lambda>(i, home, name).
     case home of Some (St_Frame offset) \<Rightarrow> [(offset, name)] | _ \<Rightarrow> []) hs)"

definition protected_regs :: "nat list \<Rightarrow> nat list" where
  "protected_regs counts = map as_u8 (filter (\<lambda>reg. counts ! reg \<noteq> 0) [0..<length counts])"

record call_frame =
  cf_saved :: "nat list"
  cf_saved_scalars :: "nat list"
  cf_arguments :: nat
  cf_returns :: bool

definition cf_argument_base :: "call_frame \<Rightarrow> nat" where
  "cf_argument_base f = length (cf_saved f) + length (cf_saved_scalars f)"

definition cf_return_slot :: "call_frame \<Rightarrow> nat" where
  "cf_return_slot f = cf_argument_base f + cf_arguments f"

definition cf_slots :: "call_frame \<Rightarrow> nat" where
  "cf_slots f = cf_argument_base f + cf_arguments f + (if cf_returns f then 1 else 0)"

definition cf_words :: "call_frame \<Rightarrow> nat" where
  "cf_words f = cf_slots f * 32"

section \<open>The report in front of a call\<close>

definition counted :: "string list \<Rightarrow> string" where
  "counted xs = nat_str (length xs) @ '' ['' @ join '', '' xs @ '']''"

definition report_active :: "string \<Rightarrow> (nat \<times> local_storage option \<times> string) list \<Rightarrow> unit gm" where
  "report_active target hs =
     text_line (''; call '' @ target @ '': allocator_active_vector_homes=''
       @ counted (map (\<lambda>(reg, name). ''r'' @ nat_str reg @ ''='' @ name) (vector_regs hs))
       @ '' allocator_active_scalar_homes=''
       @ counted (map (\<lambda>(reg, name). ''s'' @ nat_str reg @ ''='' @ name) (scalar_regs hs)))"

definition report_live :: "string \<Rightarrow> (nat \<times> local_storage option \<times> string) list \<Rightarrow> nat list \<Rightarrow> unit gm" where
  "report_live target hs protected_vectors =
     text_line (''; call '' @ target @ '': semantic_live_out='' @ counted (map (\<lambda>(i, home, name). name) hs)
       @ '' saved_vector_homes=''
       @ counted (map (\<lambda>(reg, name). name @ ''->r'' @ nat_str reg) (vector_regs hs))
       @ '' saved_scalar_homes=''
       @ counted (map (\<lambda>(reg, name). name @ ''->s'' @ nat_str reg) (scalar_regs hs))
       @ '' memory_resident=''
       @ counted (map (\<lambda>(offset, name). name @ ''->frame['' @ nat_str offset @ '']'') (frame_slots_of hs))
       @ '' protected_temporaries=''
       @ counted (map (\<lambda>reg. ''r'' @ nat_str reg) protected_vectors))"

definition report_frame :: "string \<Rightarrow> call_frame \<Rightarrow> unit gm" where
  "report_frame target f =
     text_line (''; call '' @ target @ '': saved_vector_slots='' @ nat_str (length (cf_saved f))
       @ '' saved_scalar_slots='' @ nat_str (length (cf_saved_scalars f))
       @ '' argument_slots='' @ nat_str (cf_arguments f)
       @ '' return_slots='' @ nat_str (if cf_returns f then 1 else 0)
       @ '' call_frame_slots='' @ nat_str (cf_slots f)
       @ '' call_frame_words='' @ nat_str (cf_words f))"

definition report_cost :: "string \<Rightarrow> call_frame \<Rightarrow> unit gm" where
  "report_cost target f =
     mbind (gets g_current_frame_words) (\<lambda>frame_words.
     mbind (gets g_allocation_spills) (\<lambda>spills.
       text_line (''; call '' @ target @ '': dynamic_memory_instructions='' @ nat_str (cf_slots f * 2)
         @ '' dynamic_lane_word_accesses='' @ nat_str (cf_slots f * 64)
         @ '' caller_fixed_frame_words_per_lane='' @ nat_str frame_words
         @ '' allocator_spill_slots_per_lane='' @ nat_str spills)))"

section \<open>Slots\<close>

definition stack_address :: "nat \<Rightarrow> unit gm" where
  "stack_address slot =
     mthen (emit_instr ''S_BCAST'' [O_R STACK_ADDR_REG, STACK_POINTER])
     (mthen (only_if (slot * 32 \<noteq> 0) (emit_instr ''ADD'' [O_R STACK_ADDR_REG, O_R STACK_ADDR_REG, O_Num (slot * 32)]))
        (emit_instr ''ADD'' [O_R STACK_ADDR_REG, O_R STACK_ADDR_REG, O_R LANE_REG]))"

definition store_slot :: "nat \<Rightarrow> nat \<Rightarrow> unit gm" where
  "store_slot slot reg =
     mthen (stack_address slot) (emit_instr ''STORE'' [O_R STACK_ADDR_REG, O_R reg])"

definition load_slot :: "nat \<Rightarrow> nat \<Rightarrow> unit gm" where
  "load_slot slot reg =
     mthen (stack_address slot) (emit_instr ''LOAD'' [O_R reg, O_R STACK_ADDR_REG])"

definition store_scalar_slot :: "nat \<Rightarrow> nat \<Rightarrow> unit gm" where
  "store_scalar_slot slot reg =
     mthen (stack_address slot)
     (mthen (emit_instr ''S_BCAST'' [O_R SCRATCH_REG, O_S reg])
        (emit_instr ''STORE'' [O_R STACK_ADDR_REG, O_R SCRATCH_REG]))"

definition load_scalar_slot :: "nat \<Rightarrow> nat \<Rightarrow> unit gm" where
  "load_scalar_slot slot reg =
     mthen (load_slot slot SCRATCH_REG) (emit_instr ''S_GET'' [O_S reg, O_R SCRATCH_REG])"

definition load_parameter :: "nat \<Rightarrow> nat \<times> value_shape \<Rightarrow> unit gm" where
  "load_parameter base = (\<lambda>(arg_reg, shape).
     case shape of
       Shape_Warp \<Rightarrow> load_slot (base + arg_reg) arg_reg
     | Shape_Uniform \<Rightarrow> load_scalar_slot (base + arg_reg) arg_reg)"

definition adjust_stack :: "nat \<Rightarrow> bool \<Rightarrow> unit gm" where
  "adjust_stack words down =
     only_if (words \<noteq> 0)
       (emit_instr ''S_ADD_I'' [STACK_POINTER, STACK_POINTER, if down then O_Neg words else O_Num words])"

section \<open>Calls\<close>

definition call_sequence :: "call_frame \<Rightarrow> gvalue list \<Rightarrow> value_shape list \<Rightarrow> value_shape \<Rightarrow> string \<Rightarrow> unit gm" where
  "call_sequence f vs param_shapes return_shape target =
     (let base = cf_argument_base f in
      mthen (adjust_stack (cf_words f) True)
      (mthen (each (\<lambda>(slot, reg). store_slot slot reg) (enumerate 0 (cf_saved f)))
      (mthen (each (\<lambda>(slot, reg). store_scalar_slot slot reg)
                (enumerate (length (cf_saved f)) (cf_saved_scalars f)))
      (mthen (each (\<lambda>(slot, v). store_slot slot (v_reg v)) (enumerate base vs))
      (mthen (each (load_parameter base) (enumerate 0 param_shapes))
      (mthen (emit_instr ''CALL'' [O_Label target])
      (mthen (only_if (cf_returns f)
                (if return_shape = Shape_Uniform then store_scalar_slot (cf_return_slot f) 0
                 else store_slot (cf_return_slot f) 0))
      (mthen (each (\<lambda>(slot, reg). load_slot slot reg) (enumerate 0 (cf_saved f)))
         (each (\<lambda>(slot, reg). load_scalar_slot slot reg)
            (enumerate (length (cf_saved f)) (cf_saved_scalars f)))))))))))"

definition call_result :: "call_frame \<Rightarrow> span \<Rightarrow> gvalue gm" where
  "call_result f sp =
     (if cf_returns f then
        mbind (alloc_reg sp) (\<lambda>out. mthen (load_slot (cf_return_slot f) out) (ret (owned out)))
      else ret nothing)"

definition call_code :: "nat \<Rightarrow> gvalue gm list \<Rightarrow> ctype \<Rightarrow> span \<Rightarrow> node \<Rightarrow> gvalue gm" where
  "call_code callee cs return_type sp call_site =
     mbind (expr_values cs) (\<lambda>vs.
     mbind (field_at g_function_param_shapes callee) (\<lambda>param_shapes.
     mbind (field_at g_function_return_shapes callee) (\<lambda>return_shape.
     mbind (gets (\<lambda>g. g_call_live_out g call_site)) (\<lambda>live.
     case live of
       None \<Rightarrow> fails sp ''internal error: missing call-site live-out information''
     | Some live \<Rightarrow>
         mbind (collect local_home (sorted_list_of_set live)) (\<lambda>homes.
         mbind (gets (protected_regs \<circ> g_protected)) (\<lambda>protected_vectors.
         let saved = sort (foldl add_new (foldl add_new [] (map fst (vector_regs homes))) protected_vectors);
             f = \<lparr>cf_saved = saved, cf_saved_scalars = sort (foldl add_new [] (map fst (scalar_regs homes))),
                  cf_arguments = length vs, cf_returns = (return_type \<noteq> T_VOID)\<rparr>
         in
         mbind (gets g_local_active) (\<lambda>active.
         mbind (collect local_home (filter (\<lambda>i. active ! i) [0..<length active])) (\<lambda>active_homes.
         mbind (field_at g_function_names callee) (\<lambda>target_name.
         mthen (report_active target_name active_homes)
         (mthen (report_live target_name homes protected_vectors)
         (mthen (report_frame target_name f)
         (mthen (report_cost target_name f)
         (mbind (field_at g_function_labels callee) (\<lambda>target.
          mthen (call_sequence f vs param_shapes return_shape target)
          (mthen (each release vs)
          (mbind (call_result f sp) (\<lambda>result.
           mthen (adjust_stack (cf_words f) False) (ret result))))))))))))))))))"

end
