(* ===== verification/Codegen_Stmt.thy ===== *)
theory Codegen_Stmt
  imports Codegen_Call
begin

text \<open>
  The recursion over expressions and statements (\<open>Generator::expr\<close>, \<open>lvalue_address\<close>,
  \<open>statement\<close>, \<open>block\<close> and the methods for the control statements, in
  \<open>tools/warpc/src/codegen.rs\<close>). The first argument is the address of the node.
\<close>

section \<open>Expressions\<close>

fun expr_code :: "node \<Rightarrow> typed_expr \<Rightarrow> gvalue gm"
and kind_code :: "node \<Rightarrow> typed_kind \<Rightarrow> ctype \<Rightarrow> span \<Rightarrow> gvalue gm"
and expr_codes :: "node \<Rightarrow> nat \<Rightarrow> typed_expr list \<Rightarrow> gvalue gm list"
and lvalue_address :: "node \<Rightarrow> lvalue \<Rightarrow> span \<Rightarrow> gvalue gm"
and init_code :: "node \<Rightarrow> typed_initializer option \<Rightarrow> init_code"
and inline_code :: "node \<Rightarrow> nat \<Rightarrow> typed_stmt list \<Rightarrow> unit gm" where
  "expr_code p (TExpr k ty u sp) = kind_code p k ty sp"
| "kind_code p (TE_Literal v) ty sp = load_immediate (unat v) sp"
| "kind_code p (TE_StringAddress a) ty sp = load_immediate a sp"
| "kind_code p (TE_Intrinsic i args) ty sp = intrinsic_code i args (expr_codes p 0 args) sp"
| "kind_code p (TE_LValue l) ty sp =
     (if is_array ty \<or> is_struct ty then lvalue_address (0 # p) l sp
      else load_lvalue l (lvalue_address (0 # p) l sp) sp)"
| "kind_code p (TE_AddressOf l) ty sp = lvalue_address (0 # p) l sp"
| "kind_code p (TE_Unary op e) ty sp = unary_code op (expr_code (0 # p) e) sp"
| "kind_code p (TE_Binary op l r operand_type) ty sp =
     binary_code op (expr_code (0 # p) l) (expr_code (1 # p) r) operand_type sp"
| "kind_code p (TE_Conditional c t e) ty sp =
     conditional_code c t e (expr_code (0 # p) c) (expr_code (1 # p) t) (expr_code (2 # p) e) ty sp"
| "kind_code p (TE_PointerAdd b i scale subtract) ty sp =
     pointer_add_code (expr_code (0 # p) b) (expr_code (1 # p) i) scale subtract sp"
| "kind_code p (TE_PointerDiff l r scale) ty sp =
     pointer_diff_code (expr_code (0 # p) l) (expr_code (1 # p) r) scale sp"
| "kind_code p (TE_Assign l op r operation_type scale) ty sp =
     assignment_code l (lvalue_address (0 # p) l sp) op (expr_code (1 # p) r) operation_type scale sp"
| "kind_code p (TE_IncDec l increment postfix scale) ty sp =
     inc_dec_code l (lvalue_address (0 # p) l sp) increment postfix scale sp"
| "kind_code p (TE_Call f args) ty sp = call_code f (expr_codes p 0 args) ty sp p"
| "kind_code p (TE_Inline ss e) ty sp =
     mthen (inline_code p 0 ss) (expr_code (length ss # p) e)"
| "expr_codes p i [] = []"
| "expr_codes p i (e # es) = expr_code (i # p) e # expr_codes p (i + 1) es"
| "lvalue_address p (LV_Local i) sp = local_address i sp"
| "lvalue_address p (LV_Global i) sp = global_address i sp"
| "lvalue_address p (LV_Deref e) sp = expr_code (0 # p) e"
| "lvalue_address p (LV_Index b i scale) sp =
     index_address (expr_code (0 # p) b) (expr_code (1 # p) i) scale sp"
| "lvalue_address p (LV_Member l offset) sp = member_address (lvalue_address (0 # p) l sp) offset sp"
| "init_code p None = None"
| "init_code p (Some (TI_Expr e)) = Some (Inl (expr_code p e))"
| "init_code p (Some (TI_Words ws)) = Some (Inr ws)"
| "inline_code p i [] = ret ()"
| "inline_code p i (TS_Decl l init sp # ss) =
     mthen (declaration_code l (init_code (0 # i # p) init) sp) (inline_code p (i + 1) ss)"
| "inline_code p i (TS_Expr None # ss) = inline_code p (i + 1) ss"
| "inline_code p i (TS_Expr (Some e) # ss) =
     mthen (mbind (expr_code (0 # i # p) e) release) (inline_code p (i + 1) ss)"
| "inline_code p i (_ # ss) =
     panics ''internal error: entered unreachable code: inline candidate contains a control statement''"

section \<open>Tests on statements\<close>

definition is_lane_id :: "typed_expr \<Rightarrow> bool" where
  "is_lane_id e = (case te_kind e of TE_Intrinsic i args \<Rightarrow> i = I_LaneId \<and> args = [] | _ \<Rightarrow> False)"

definition exact_lane_condition :: "typed_expr \<Rightarrow> nat option" where
  "exact_lane_condition c =
     (case te_kind c of
        TE_Binary op l r ty \<Rightarrow>
          if op \<noteq> B_Eq then None
          else
            (case literal_of r of
               Some lane \<Rightarrow>
                 if is_lane_id l \<and> unat lane < 32 then Some (unat lane)
                 else (case literal_of l of
                         Some lane \<Rightarrow> if unat lane < 32 \<and> is_lane_id r then Some (unat lane) else None
                       | None \<Rightarrow> None)
             | None \<Rightarrow>
                 (case literal_of l of
                    Some lane \<Rightarrow> if unat lane < 32 \<and> is_lane_id r then Some (unat lane) else None
                  | None \<Rightarrow> None))
      | _ \<Rightarrow> None)"

fun simple_predicated_statement :: "typed_stmt \<Rightarrow> bool" where
  "simple_predicated_statement (TS_Expr (Some e)) =
     (case te_kind e of TE_Assign l op r ty k \<Rightarrow> cheap_lvalue l \<and> cheap_select_expr r | _ \<Rightarrow> False)"
| "simple_predicated_statement (TS_Block (TBlock [s] is sp)) = simple_predicated_statement s"
| "simple_predicated_statement _ = False"

fun statement_span :: "typed_stmt \<Rightarrow> span" where
  "statement_span (TS_Decl i init sp) = sp"
| "statement_span (TS_If c t e sp) = sp"
| "statement_span (TS_While c b sp) = sp"
| "statement_span (TS_DoWhile b c sp) = sp"
| "statement_span (TS_For init c step b is sp) = sp"
| "statement_span (TS_Switch e b labels sp) = sp"
| "statement_span (TS_Case i b sp) = sp"
| "statement_span (TS_Default i b sp) = sp"
| "statement_span (TS_Return e sp) = sp"
| "statement_span (TS_Break sp) = sp"
| "statement_span (TS_Continue sp) = sp"
| "statement_span (TS_Block b) = tb_span b"
| "statement_span (TS_Expr (Some e)) = te_span e"
| "statement_span (TS_Expr None) = span_new 0 1 1"

section \<open>Control statements\<close>

definition push_control :: "string \<Rightarrow> string option \<Rightarrow> unit gm" where
  "push_control break' continue' = modify (\<lambda>g. g\<lparr>g_controls := g_controls g @
     [\<lparr>ct_break_label = break', ct_continue_label = continue'\<rparr>]\<rparr>)"

definition pop_control :: "unit gm" where
  "pop_control = modify (\<lambda>g. g\<lparr>g_controls := butlast (g_controls g)\<rparr>)"

definition break_code :: "span \<Rightarrow> unit gm" where
  "break_code sp =
     mbind (gets g_controls) (\<lambda>controls.
     if controls = [] then fails sp ''internal error: break target missing''
     else emit_instr ''JMP'' [O_Label (ct_break_label (last controls))])"

definition continue_code :: "span \<Rightarrow> unit gm" where
  "continue_code sp =
     mbind (gets g_controls) (\<lambda>controls.
     case List.map_filter ct_continue_label (rev controls) of
       [] \<Rightarrow> fails sp ''internal error: continue target missing''
     | label # _ \<Rightarrow> emit_instr ''JMP'' [O_Label label])"

definition emit_return :: "unit gm" where
  "emit_return =
     mbind (gets g_current_frame_words) (\<lambda>frame_words.
     mthen (only_if (frame_words \<noteq> 0)
              (emit_instr ''S_ADD_I'' [STACK_POINTER, STACK_POINTER, O_Num (frame_words * 32)]))
     (mbind (gets (\<lambda>g. g_current_function g = Some (g_main_function g))) (\<lambda>main.
        emit_instr (if main then ''HALT'' else ''RET'') [])))"

definition return_code :: "gvalue gm option \<Rightarrow> span \<Rightarrow> unit gm" where
  "return_code value' sp =
     mthen (case value' of
              Some c \<Rightarrow>
                mbind c (\<lambda>result.
                mbind (gets g_current_return_shape) (\<lambda>shape.
                mthen (if shape = Shape_Uniform then emit_instr ''S_GET'' [O_S 0, O_R (v_reg result)]
                       else only_if (v_reg result \<noteq> 0) (emit_instr ''MOV'' [O_R 0, O_R (v_reg result)]))
                  (release result)))
            | None \<Rightarrow>
                mbind (gets g_current_return_type) (\<lambda>ty.
                if ty \<noteq> T_VOID then fails sp ''internal error: non-void return has no value''
                else ret ()))
       emit_return"

text \<open>\<open>masked_if_statement\<close>, and \<open>if_statement\<close> over the computations for its parts.\<close>

definition masked_if_code :: "span \<Rightarrow> gvalue gm \<Rightarrow> unit gm \<Rightarrow> unit gm option \<Rightarrow> unit gm" where
  "masked_if_code sp c t e =
     mbind (next_mask sp ''divergent if nesting exhausted predicate masks'') (\<lambda>m.
     mbind (gets g_current_guard) (\<lambda>parent.
     mbind c (\<lambda>v.
     mthen (enter_then m parent (v_reg v))
     (mthen (release v)
     (mthen (push_mask m)
     (mthen t
     (mthen (case e of None \<Rightarrow> ret () | Some x \<Rightarrow> mthen (enter_else m parent) x)
        (pop_mask parent))))))))"

definition branch_if_code :: "gvalue gm \<Rightarrow> unit gm \<Rightarrow> unit gm option \<Rightarrow> unit gm" where
  "branch_if_code c t e =
     mbind (new_label ''if_else'') (\<lambda>otherwise.
     mbind (new_label ''if_end'') (\<lambda>end'.
     mthen (jump_if_zero c otherwise)
     (mthen t
       (case e of
          Some x \<Rightarrow>
            mthen (emit_instr ''JMP'' [O_Label end'])
            (mthen (label_line otherwise) (mthen x (label_line end')))
        | None \<Rightarrow> label_line otherwise))))"

definition predicated_code :: "nat \<Rightarrow> unit gm \<Rightarrow> unit gm" where
  "predicated_code lane t =
     mthen (raw_instr ''CMP_EQ'' [O_P 3, O_R LANE_REG, O_Num lane])
     (mthen (set_guard (Some 3)) (mthen t (set_guard None)))"

definition if_code :: "typed_expr \<Rightarrow> bool \<Rightarrow> gvalue gm \<Rightarrow> unit gm \<Rightarrow> unit gm option \<Rightarrow> unit gm" where
  "if_code ce simple c t e =
     mbind (gets g_current_guard) (\<lambda>guard.
     case (if e = None \<and> guard = None \<and> simple then exact_lane_condition ce else None) of
       Some lane \<Rightarrow> predicated_code lane t
     | None \<Rightarrow>
         if te_uniformity ce = Divergent \<or> guard \<noteq> None then masked_if_code (te_span ce) c t e
         else branch_if_code c t e)"

definition while_code :: "gvalue gm \<Rightarrow> unit gm \<Rightarrow> unit gm" where
  "while_code c b =
     mbind (new_label ''while_condition'') (\<lambda>condition.
     mbind (new_label ''while_end'') (\<lambda>end'.
     mthen (label_line condition)
     (mthen (jump_if_zero c end')
     (mthen (push_control end' (Some condition))
     (mthen b
     (mthen pop_control
     (mthen (emit_instr ''JMP'' [O_Label condition]) (label_line end'))))))))"

definition do_while_code :: "unit gm \<Rightarrow> gvalue gm \<Rightarrow> unit gm" where
  "do_while_code b c =
     mbind (new_label ''do_body'') (\<lambda>body.
     mbind (new_label ''do_condition'') (\<lambda>condition.
     mbind (new_label ''do_end'') (\<lambda>end'.
     mthen (label_line body)
     (mthen (push_control end' (Some condition))
     (mthen b
     (mthen pop_control
     (mthen (label_line condition)
     (mthen (jump_if_nonzero c body) (label_line end')))))))))"

definition for_code :: "unit gm \<Rightarrow> gvalue gm option \<Rightarrow> gvalue gm option \<Rightarrow> unit gm \<Rightarrow> unit gm" where
  "for_code init c step b =
     mthen init
     (mbind (new_label ''for_condition'') (\<lambda>condition.
      mbind (new_label ''for_step'') (\<lambda>step_label.
      mbind (new_label ''for_end'') (\<lambda>end'.
      mthen (label_line condition)
      (mthen (case c of None \<Rightarrow> ret () | Some c \<Rightarrow> jump_if_zero c end')
      (mthen (push_control end' (Some step_label))
      (mthen b
      (mthen pop_control
      (mthen (label_line step_label)
      (mthen (case step of None \<Rightarrow> ret () | Some c \<Rightarrow> mbind c release)
      (mthen (emit_instr ''JMP'' [O_Label condition]) (label_line end'))))))))))))"

section \<open>Switches\<close>

definition find_label :: "(nat \<times> string) list \<Rightarrow> nat \<Rightarrow> string option" where
  "find_label mapped i = map_option snd (List.find (\<lambda>(j, l). j = i) mapped)"

definition dispatch_case :: "(nat \<times> string) list \<Rightarrow> nat \<Rightarrow> switch_label \<Rightarrow> unit gm" where
  "dispatch_case mapped reg l =
     (case sl_value l of
        None \<Rightarrow> ret ()
      | Some v \<Rightarrow>
          mbind (lift (unwrap (find_label mapped (sl_id l)))) (\<lambda>target.
          mthen (emit_instr ''CMP_EQ'' [O_P 0, O_R reg, O_Num (unat v)])
            (emit_instr ''JMP_IF_ANY'' [O_P 0, O_Label target])))"

definition dispatch_default :: "(nat \<times> string) list \<Rightarrow> string \<Rightarrow> switch_label list \<Rightarrow> unit gm" where
  "dispatch_default mapped end' labels =
     (case List.find (\<lambda>l. sl_value l = None) labels of
        Some l \<Rightarrow>
          mbind (lift (unwrap (find_label mapped (sl_id l)))) (\<lambda>target. emit_instr ''JMP'' [O_Label target])
      | None \<Rightarrow> emit_instr ''JMP'' [O_Label end'])"

definition push_switch_labels :: "(nat \<times> string) list \<Rightarrow> unit gm" where
  "push_switch_labels mapped = modify (\<lambda>g. g\<lparr>g_switch_labels := g_switch_labels g @ [mapped]\<rparr>)"

definition pop_switch_labels :: "unit gm" where
  "pop_switch_labels = modify (\<lambda>g. g\<lparr>g_switch_labels := butlast (g_switch_labels g)\<rparr>)"

definition switch_code :: "gvalue gm \<Rightarrow> unit gm \<Rightarrow> switch_label list \<Rightarrow> unit gm" where
  "switch_code c b labels =
     mbind (new_label ''switch_end'') (\<lambda>end'.
     mbind (collect (\<lambda>l. mbind (new_label ''switch_case'') (\<lambda>name. ret (sl_id l, name))) labels) (\<lambda>mapped.
     mbind c (\<lambda>v.
     mthen (each (dispatch_case mapped (v_reg v)) labels)
     (mthen (dispatch_default mapped end' labels)
     (mthen (release v)
     (mthen (push_control end' None)
     (mthen (push_switch_labels mapped)
     (mthen b
     (mthen pop_switch_labels
     (mthen pop_control (label_line end')))))))))))"

definition switch_label_of :: "(nat \<times> string) list list \<Rightarrow> nat \<Rightarrow> string option" where
  "switch_label_of stack i =
     (case List.map_filter (\<lambda>mapped. find_label mapped i) (rev stack) of [] \<Rightarrow> None | l # _ \<Rightarrow> Some l)"

definition case_code :: "nat \<Rightarrow> unit gm \<Rightarrow> span \<Rightarrow> unit gm" where
  "case_code i b sp =
     mbind (gets g_switch_labels) (\<lambda>stack.
     case switch_label_of stack i of
       None \<Rightarrow> fails sp ''internal error: switch label missing''
     | Some label \<Rightarrow> mthen (label_line label) b)"

section \<open>Statements\<close>

definition statement_point :: "node \<Rightarrow> typed_stmt \<Rightarrow> unit gm" where
  "statement_point p s =
     mbind (gets (\<lambda>g. g_statement_points g p)) (\<lambda>point.
     case point of
       None \<Rightarrow> fails (statement_span s) ''internal error: missing liveness point''
     | Some n \<Rightarrow> advance_allocation n)"

definition expr_option_code :: "node \<Rightarrow> typed_expr option \<Rightarrow> gvalue gm option" where
  "expr_option_code p e = map_option (expr_code p) e"

definition for_init_code :: "node \<Rightarrow> typed_for_init option \<Rightarrow> unit gm" where
  "for_init_code p init =
     (case init of
        None \<Rightarrow> ret ()
      | Some (TF_Decl i init sp) \<Rightarrow> declaration_code i (init_code p init) sp
      | Some (TF_Expr e) \<Rightarrow> mbind (expr_code p e) release)"

fun statement_code :: "node \<Rightarrow> typed_stmt \<Rightarrow> unit gm"
and body_code :: "node \<Rightarrow> typed_stmt \<Rightarrow> unit gm"
and statements_code :: "node \<Rightarrow> nat \<Rightarrow> typed_stmt list \<Rightarrow> unit gm" where
  "statement_code p s = mthen (statement_point p s) (body_code p s)"
| "body_code p (TS_Decl i init sp) = declaration_code i (init_code (0 # p) init) sp"
| "body_code p (TS_Expr e) =
     (case expr_option_code (0 # p) e of None \<Rightarrow> ret () | Some c \<Rightarrow> mbind c release)"
| "body_code p (TS_Return e sp) = return_code (expr_option_code (0 # p) e) sp"
| "body_code p (TS_Block (TBlock ss is sp)) = statements_code p 0 ss"
| "body_code p (TS_If c t e sp) =
     if_code c (simple_predicated_statement t) (expr_code (0 # p) c) (statement_code (1 # p) t)
       (case e of None \<Rightarrow> None | Some x \<Rightarrow> Some (statement_code (2 # p) x))"
| "body_code p (TS_While c b sp) = while_code (expr_code (0 # p) c) (statement_code (1 # p) b)"
| "body_code p (TS_DoWhile b c sp) = do_while_code (statement_code (1 # p) b) (expr_code (0 # p) c)"
| "body_code p (TS_For init c step b is sp) =
     for_code (for_init_code (0 # p) init) (expr_option_code (1 # p) c) (expr_option_code (2 # p) step)
       (statement_code (3 # p) b)"
| "body_code p (TS_Break sp) = break_code sp"
| "body_code p (TS_Continue sp) = continue_code sp"
| "body_code p (TS_Switch e b labels sp) =
     switch_code (expr_code (0 # p) e) (statement_code (1 # p) b) labels"
| "body_code p (TS_Case i b sp) = case_code i (statement_code (1 # p) b) sp"
| "body_code p (TS_Default i b sp) = case_code i (statement_code (1 # p) b) sp"
| "statements_code p i [] = ret ()"
| "statements_code p i (s # ss) = mthen (statement_code (i # p) s) (statements_code p (i + 1) ss)"

definition block_code :: "typed_block \<Rightarrow> unit gm" where
  "block_code b = statements_code [] 0 (tb_statements b)"

end
