(* ===== verification/Codegen.thy ===== *)
theory Codegen
  imports Codegen_Stmt
begin

text \<open>
  Code for functions and programs (\<open>generate\<close>, \<open>Generator::program\<close>, \<open>function\<close> and
  \<open>function_with_limit\<close> of \<open>tools/warpc/src/codegen.rs\<close>). A function is generated with eight
  registers for locals, and again with fewer while its temporaries do not fit.
\<close>

section \<open>Functions\<close>

definition generator_new :: "bool \<Rightarrow> typed_program \<Rightarrow> generator" where
  "generator_new checks p =
     \<lparr>g_checks = checks,
      g_assembly = [],
      g_used = replicate ALLOCATABLE_REGS False,
      g_scalar_used = replicate ALLOCATABLE_SCALAR_REGS False,
      g_local_storage = replicate (length (tp_locals p)) None,
      g_local_starts = replicate (length (tp_locals p)) None,
      g_local_ends = replicate (length (tp_locals p)) None,
      g_local_active = replicate (length (tp_locals p)) False,
      g_statement_points = Map.empty,
      g_allocation_end_point = 0,
      g_peak_vector_regs = 0,
      g_allocation_scalar_homes = 0,
      g_allocation_spills = 0,
      g_allocation_vector_home_limit = MAX_LOCAL_VECTOR_REGS,
      g_call_live_out = Map.empty,
      g_protected = replicate ALLOCATABLE_REGS 0,
      g_next_label = 0,
      g_controls = [],
      g_switch_labels = [],
      g_function_labels = map (\<lambda>name. ''__warpc_fn_'' @ name) (tp_function_names p),
      g_function_names = tp_function_names p,
      g_function_param_shapes = tp_function_param_shapes p,
      g_function_return_shapes = tp_function_return_shapes p,
      g_current_function = None,
      g_current_return_type = T_VOID,
      g_current_return_shape = Shape_Warp,
      g_current_frame_words = 0,
      g_main_function = tp_main p,
      g_locals = tp_locals p,
      g_globals = tp_globals p,
      g_structs = tp_structs p,
      g_data_words = length (tp_data_words p),
      g_current_guard = None,
      g_mask_stack = []\<rparr>"

text \<open>The state in front of a function: everything that belongs to a function is set anew.\<close>

definition enter_function :: "typed_function \<Rightarrow> function_allocation \<Rightarrow> generator \<Rightarrow> generator" where
  "enter_function f a g =
     g\<lparr>g_used := map (\<lambda>_. False) (g_used g),
       g_scalar_used := map (\<lambda>_. False) (g_scalar_used g),
       g_local_storage := fa_storage a,
       g_local_starts := fa_starts a,
       g_local_ends := fa_ends a,
       g_local_active := map (\<lambda>_. False) (g_local_active g),
       g_statement_points := fa_statement_points a,
       g_allocation_end_point := fa_end_point a,
       g_peak_vector_regs := 0,
       g_allocation_scalar_homes := fa_scalar_homes a,
       g_allocation_spills := fa_spills a,
       g_allocation_vector_home_limit := fa_vector_home_limit a,
       g_call_live_out := fa_call_live_out a,
       g_protected := map (\<lambda>_. 0) (g_protected g),
       g_controls := [],
       g_switch_labels := [],
       g_current_function := Some (tf_id f),
       g_current_return_type := tf_return_type f,
       g_current_return_shape := tf_return_shape f,
       g_current_frame_words := fa_frame_words a,
       g_current_guard := None,
       g_mask_stack := []\<rparr>"

definition uniformity_text :: "uniformity \<Rightarrow> string" where
  "uniformity_text u = (case u of Uniform \<Rightarrow> ''Uniform'' | Divergent \<Rightarrow> ''Divergent'')"

definition home_text :: "local_storage \<Rightarrow> nat option \<Rightarrow> string" where
  "home_text home frame_offset =
     (case home of
        St_Vector reg \<Rightarrow> ''r'' @ nat_str reg
      | St_Scalar reg \<Rightarrow> ''s'' @ nat_str reg
      | St_Frame offset \<Rightarrow>
          (if frame_offset = None then ''spill['' else ''frame['') @ nat_str offset @ '']'')"

definition report_local :: "nat \<Rightarrow> unit gm" where
  "report_local i =
     mbind (field_at g_local_starts i) (\<lambda>start.
     if start = None then ret ()
     else
       mbind (field_at g_local_storage i) (\<lambda>home.
       mbind (lift (unwrap home)) (\<lambda>home.
       mbind (field_at g_locals i) (\<lambda>l.
         text_line (''; local '' @ li_name l @ '': '' @ uniformity_text (li_uniformity l)
           @ '' -> '' @ home_text home (li_frame_offset l))))))"

definition activate_parameter :: "nat \<times> nat \<Rightarrow> unit gm" where
  "activate_parameter = (\<lambda>(abi_reg, i).
     mbind (field_at g_local_storage i) (\<lambda>home.
     mthen (case home of
              Some (St_Vector _) \<Rightarrow> set_used abi_reg True
            | Some (St_Scalar reg) \<Rightarrow> set_scalar_used reg True
            | _ \<Rightarrow> ret ())
       (set_active i True)))"

definition store_parameter :: "span \<Rightarrow> nat \<times> nat \<Rightarrow> unit gm" where
  "store_parameter sp = (\<lambda>(abi_reg, i).
     mbind (field_at g_local_storage i) (\<lambda>home.
     case home of
       Some (St_Frame _) \<Rightarrow>
         mbind (local_address i sp) (\<lambda>address.
         mthen (emit_instr ''STORE'' [O_R (v_reg address), O_R abi_reg])
         (mthen (release address) (free_reg (as_u8 abi_reg))))
     | _ \<Rightarrow> ret ()))"

definition function_end :: "typed_function \<Rightarrow> unit gm" where
  "function_end f =
     mbind (gets g_main_function) (\<lambda>main.
     mthen (if tf_id f = main then emit_instr ''MOV'' [O_R 0, O_Num 0]
            else only_if (tf_return_type f \<noteq> T_VOID)
              (if tf_return_shape f = Shape_Uniform then emit_instr ''S_MOV_I'' [O_S 0, O_Num 0]
               else emit_instr ''MOV'' [O_R 0, O_Num 0]))
       emit_return)"

definition report_allocation :: "typed_function \<Rightarrow> unit gm" where
  "report_allocation f = (\<lambda>g.
     text_line (''; allocation '' @ tf_name f @ '': vector_peak='' @ nat_str (g_peak_vector_regs g)
       @ ''/'' @ nat_str ALLOCATABLE_REGS
       @ '' vector_homes='' @ nat_str (g_allocation_vector_home_limit g)
       @ '' scalar_homes='' @ nat_str (g_allocation_scalar_homes g)
       @ '' spills='' @ nat_str (g_allocation_spills g)
       @ '' frame_words='' @ nat_str (g_current_frame_words g)) g)"

definition function_body :: "typed_function \<Rightarrow> unit gm" where
  "function_body f =
     mbind (field_at g_function_labels (tf_id f)) (\<lambda>label.
     mthen (label_line label)
     (mbind (gets (length \<circ> g_local_storage)) (\<lambda>n.
      mthen (each report_local [0..<n])
      (mthen (each activate_parameter (enumerate 0 (tf_params f)))
      (mthen update_peak_vector_regs
      (mbind (gets g_current_frame_words) (\<lambda>frame_words.
       mthen (only_if (frame_words \<noteq> 0)
                (emit_instr ''S_ADD_I'' [STACK_POINTER, STACK_POINTER, O_Neg (frame_words * 32)]))
       (mthen (each (store_parameter (tf_span f)) (enumerate 0 (tf_params f)))
       (mthen (block_code (tf_body f))
       (mthen (function_end f)
       (mbind (gets g_allocation_end_point) (\<lambda>end_point.
        mthen (advance_allocation end_point)
        (mthen (report_allocation f)
          (modify (\<lambda>g. g\<lparr>g_current_function := None\<rparr>)))))))))))))))"

definition function_with_limit :: "typed_function \<Rightarrow> nat \<Rightarrow> unit gm" where
  "function_with_limit f local_vector_regs =
     mbind (\<lambda>g. rbind (allocate_function f (g_locals g) (length (g_locals g)) (g_data_words g) local_vector_regs)
                  (\<lambda>a. Inr (a, g))) (\<lambda>a.
     mthen (modify (enter_function f a)) (function_body f))"

text \<open>The text a message has to contain for another attempt.\<close>

fun contains_text :: "string \<Rightarrow> string \<Rightarrow> bool" where
  "contains_text needle [] = (strip_prefix needle [] \<noteq> None)"
| "contains_text needle (c # cs) = (strip_prefix needle (c # cs) \<noteq> None \<or> contains_text needle cs)"

definition is_pressure :: "cc_error \<Rightarrow> bool" where
  "is_pressure e = (case e of
     Diag d \<Rightarrow> contains_text ''temporary vector-register demand'' (d_message d) | _ \<Rightarrow> False)"

text \<open>The loop over the limits, from the greatest to the least. An attempt cuts the text and the
  labels back to where the function began and \<open>enter_function\<close> sets the rest, so it starts in
  the state in front of the first one. After the last limit the pressure is an error like any
  other, so the end of the list is not reached.\<close>

fun attempt :: "typed_function \<Rightarrow> nat list \<Rightarrow> unit gm" where
  "attempt f [] g = Inl (CPanic ''allocation retry must retain its diagnostic'')"
| "attempt f (limit # limits) g =
     (case function_with_limit f limit g of
        Inr r \<Rightarrow> Inr r
      | Inl e \<Rightarrow>
          if is_pressure e \<and> limit > MIN_LOCAL_VECTOR_REGS then attempt f limits g else Inl e)"

definition vector_limits :: "nat list" where
  "vector_limits = rev [MIN_LOCAL_VECTOR_REGS..<MAX_LOCAL_VECTOR_REGS + 1]"

definition function_code :: "typed_function \<Rightarrow> unit gm" where
  "function_code f = attempt f vector_limits"

section \<open>Programs\<close>

definition em_dash :: string where
  "em_dash = [CHR 0xE2, CHR 0x80, CHR 0x94]"

definition store_data_word :: "nat \<times> u32 \<Rightarrow> unit gm" where
  "store_data_word = (\<lambda>(address, word).
     only_if (word \<noteq> 0)
       (mthen (emit_instr ''MOV'' [O_R 0, O_Num address])
       (mthen (emit_instr ''MOV'' [O_R 1, O_Num (unat word)])
          (guarded_instr 0 False ''STORE'' [O_R 0, O_R 1]))))"

definition program_code :: "typed_program \<Rightarrow> unit gm" where
  "program_code p =
     mthen (text_line (''; generated by warpc '' @ em_dash @ '' Warp C v0.1.4''))
     (mthen (text_line ''.scratch r15'')
     (mthen (label_line ''entry'')
     (mthen (emit_instr ''LANEID'' [O_R LANE_REG])
     (mthen (emit_instr ''S_MOV_I'' [STACK_POINTER, O_Num STACK_TOP])
     (mthen (only_if (list_ex (\<lambda>w. w \<noteq> 0) (tp_data_words p))
               (mthen (emit_instr ''CMP_EQ'' [O_P 0, O_R LANE_REG, O_Num 0])
                  (each store_data_word (enumerate 0 (tp_data_words p)))))
     (mbind (field_at g_function_labels (tp_main p)) (\<lambda>main.
      mthen (emit_instr ''JMP'' [O_Label main])
        (each function_code (tp_functions p)))))))))"

definition generate :: "bool \<Rightarrow> typed_program \<Rightarrow> asm_line list cc" where
  "generate checks p =
     rbind (program_code p (generator_new checks p)) (\<lambda>(_, g). Inr (g_assembly g))"

end
