(* ===== verification/Compile.thy ===== *)
theory Compile
  imports Codegen Front_Sema Assemble Wvm
begin

text \<open>
  The whole compiler (\<open>compile\<close> of \<open>tools/warpc/src/lib.rs\<close>): from source bytes through the
  typed program and the assembly text to the bytes of a .wvm file. The dump of the syntax tree
  is the derived \<open>Debug\<close> format of the tree, which is a parameter.
\<close>

record compilation =
  cp_assembly :: string
  cp_ast_dump :: string
  cp_uniformity_dump :: string
  cp_wvm :: "u8 list"
  cp_code_words :: nat
  cp_literal_words :: nat

definition assembled_text :: "string \<Rightarrow> assembled cc" where
  "assembled_text assembly =
     (case assemble assembly of
        Inr p \<Rightarrow> Inr p
      | Inl (Err message) \<Rightarrow> diag (span_new 0 1 1) (''generated assembly rejected: '' @ message)
      | Inl (Panic message) \<Rightarrow> Inl (CPanic message))"

definition compile :: "bool \<Rightarrow> (Ast.program \<Rightarrow> string) \<Rightarrow> string \<Rightarrow> compilation cc" where
  "compile checks debug_ast source =
     rbind (front_end source) (\<lambda>ast.
     rbind (analyze ast) (\<lambda>typed.
     rbind (dump_uniformity typed) (\<lambda>uniformity_dump.
     rbind (generate checks typed) (\<lambda>ls.
     let assembly = render ls in
     rbind (assembled_text assembly) (\<lambda>assembled.
       Inr \<lparr>cp_assembly = assembly, cp_ast_dump = debug_ast ast,
            cp_uniformity_dump = uniformity_dump,
            cp_wvm = encode_file (out_code assembled) (out_literals assembled),
            cp_code_words = length (out_code assembled),
            cp_literal_words = length (out_literals assembled)\<rparr>)))))"

end
