(* ===== verification/Warp_Machine.thy ===== *)
theory Warp_Machine
  imports Codegen_Base Sema_Const "HOL-Library.Word"
begin

unbundle bit_operations_syntax

text \<open>
  The machine that executes what the code generator emits, as the host interpreter of the
  runtime defines it (\<open>CpuVm::Step\<close> of \<open>runtime/src/host/cpu_interpreter.cpp\<close>): 32 lanes in
  lock step, vector registers with a word for every lane, scalar registers, predicates, a memory
  and a framebuffer. It executes lines of assembly text; the assembler reads an immediate as the
  number modulo 2 to the 32, and passes one that does not fit into 13 bits through the scratch
  register. A fault is \<open>None\<close>.

  A vector is a function from lanes. Loops of the interpreter run over the lanes below 32; what
  the functions say of other lanes has no meaning. Messages fault in the interpreter, and
  \<open>CLOCK\<close> and \<open>RAND\<close>, which the generator does not emit, are left out.
\<close>

definition WARP_LANES :: nat where "WARP_LANES = 32"
definition SCRATCH :: nat where "SCRATCH = 15"

type_synonym vec = "nat \<Rightarrow> u32"

record warp =
  w_vm_id :: u32
  w_regs :: "nat \<Rightarrow> vec"
  w_sregs :: "nat \<Rightarrow> u32"
  w_preds :: "nat \<Rightarrow> nat \<Rightarrow> bool"
  w_memory :: "u32 list"
  w_framebuffer :: "u32 list"
  w_frame_seq :: nat

section \<open>Lanes and registers\<close>

text \<open>\<open>ActiveMask\<close>, \<open>WriteVector\<close> and \<open>WritePred\<close>.\<close>

definition lane_active :: "(bool \<times> nat) option \<Rightarrow> warp \<Rightarrow> nat \<Rightarrow> bool" where
  "lane_active guard w lane =
     (case guard of None \<Rightarrow> True | Some (inverted, p) \<Rightarrow> w_preds w p lane \<noteq> inverted)"

definition write_vector :: "nat \<Rightarrow> (nat \<Rightarrow> bool) \<Rightarrow> vec \<Rightarrow> warp \<Rightarrow> warp" where
  "write_vector d active f w =
     w\<lparr>w_regs := (w_regs w)(d := (\<lambda>lane. if active lane then f lane else w_regs w d lane))\<rparr>"

definition write_pred :: "nat \<Rightarrow> (nat \<Rightarrow> bool) \<Rightarrow> (nat \<Rightarrow> bool) \<Rightarrow> warp \<Rightarrow> warp" where
  "write_pred d active f w =
     w\<lparr>w_preds := (w_preds w)(d := (\<lambda>lane. if active lane then f lane else w_preds w d lane))\<rparr>"

text \<open>A scalar register is written when lane 0 is active.\<close>

definition write_scalar :: "nat \<Rightarrow> (nat \<Rightarrow> bool) \<Rightarrow> u32 \<Rightarrow> warp \<Rightarrow> warp" where
  "write_scalar d active v w = (if active 0 then w\<lparr>w_sregs := (w_sregs w)(d := v)\<rparr> else w)"

section \<open>Operations on words\<close>

definition shift_left :: "u32 \<Rightarrow> u32 \<Rightarrow> u32" where
  "shift_left a b = push_bit (unat (b AND 31)) a"

definition shift_right :: "u32 \<Rightarrow> u32 \<Rightarrow> u32" where
  "shift_right a b = drop_bit (unat (b AND 31)) a"

definition alu :: "string \<Rightarrow> (u32 \<Rightarrow> u32 \<Rightarrow> u32) option" where
  "alu m =
     (if m = ''ADD'' then Some (+)
      else if m = ''SUB'' then Some (-)
      else if m = ''MUL'' then Some (*)
      else if m = ''DIV'' then Some (\<lambda>a b. if b = 0 then 0 else a div b)
      else if m = ''MOD'' then Some (\<lambda>a b. if b = 0 then 0 else a mod b)
      else if m = ''MIN'' then Some min
      else if m = ''MAX'' then Some max
      else if m = ''AND'' then Some (AND)
      else if m = ''OR'' then Some (OR)
      else if m = ''XOR'' then Some (XOR)
      else if m = ''SHL'' then Some shift_left
      else if m = ''SHR'' then Some shift_right
      else None)"

definition alu_unary :: "string \<Rightarrow> (u32 \<Rightarrow> u32) option" where
  "alu_unary m =
     (if m = ''MOV'' then Some (\<lambda>a. a)
      else if m = ''ABS'' then Some (\<lambda>a. if sint a < 0 then - a else a)
      else if m = ''NEG'' then Some uminus
      else if m = ''NOT'' then Some (\<lambda>a. NOT a)
      else None)"

definition compare :: "string \<Rightarrow> (u32 \<Rightarrow> u32 \<Rightarrow> bool) option" where
  "compare m =
     (if m = ''CMP_EQ'' then Some (=)
      else if m = ''CMP_NE'' then Some (\<noteq>)
      else if m = ''CMP_LT'' then Some (<)
      else if m = ''CMP_LE'' then Some (\<le>)
      else if m = ''CMP_GT'' then Some (>)
      else if m = ''CMP_GE'' then Some (\<ge>)
      else None)"

definition lane_values :: "vec \<Rightarrow> u32 list" where
  "lane_values x = map x [0..<WARP_LANES]"

definition reduce :: "string \<Rightarrow> (vec \<Rightarrow> u32) option" where
  "reduce m =
     (if m = ''REDUCE_ADD'' then Some (\<lambda>x. foldl (+) 0 (lane_values x))
      else if m = ''REDUCE_MIN'' then Some (\<lambda>x. foldl min (x 0) (lane_values x))
      else if m = ''REDUCE_MAX'' then Some (\<lambda>x. foldl max (x 0) (lane_values x))
      else if m = ''REDUCE_AND'' then Some (\<lambda>x. foldl (AND) (- 1) (lane_values x))
      else if m = ''REDUCE_OR'' then Some (\<lambda>x. foldl (OR) 0 (lane_values x))
      else if m = ''REDUCE_XOR'' then Some (\<lambda>x. foldl (XOR) 0 (lane_values x))
      else None)"

section \<open>Memory\<close>

definition load_word :: "u32 list \<Rightarrow> u32 list \<Rightarrow> u32 \<Rightarrow> u32 option" where
  "load_word mem fb a =
     (if unat a < length mem then Some (mem ! unat a)
      else if WARP_VIDEO_BASE \<le> a \<and> unat (a - WARP_VIDEO_BASE) < length fb
      then Some (fb ! unat (a - WARP_VIDEO_BASE))
      else None)"

definition store_word_at :: "u32 \<Rightarrow> u32 \<Rightarrow> warp \<Rightarrow> warp option" where
  "store_word_at a v w =
     (if unat a < length (w_memory w) then Some (w\<lparr>w_memory := (w_memory w)[unat a := v]\<rparr>)
      else if WARP_VIDEO_BASE \<le> a \<and> unat (a - WARP_VIDEO_BASE) < length (w_framebuffer w)
      then Some (w\<lparr>w_framebuffer := (w_framebuffer w)[unat (a - WARP_VIDEO_BASE) := v]\<rparr>)
      else None)"

definition load_vector :: "nat \<Rightarrow> (nat \<Rightarrow> bool) \<Rightarrow> vec \<Rightarrow> warp \<Rightarrow> warp option" where
  "load_vector d active addresses w =
     (let load = load_word (w_memory w) (w_framebuffer w) in
      if list_all (\<lambda>lane. active lane \<longrightarrow> load (addresses lane) \<noteq> None) [0..<WARP_LANES]
      then Some (write_vector d active
        (\<lambda>lane. case load (addresses lane) of None \<Rightarrow> 0 | Some v \<Rightarrow> v) w)
      else None)"

fun store_lanes :: "nat list \<Rightarrow> (nat \<Rightarrow> bool) \<Rightarrow> vec \<Rightarrow> vec \<Rightarrow> warp \<Rightarrow> warp option" where
  "store_lanes [] active addresses values w = Some w"
| "store_lanes (lane # lanes) active addresses values w =
     (if active lane
      then (case store_word_at (addresses lane) (values lane) w of
              None \<Rightarrow> None
            | Some w \<Rightarrow> store_lanes lanes active addresses values w)
      else store_lanes lanes active addresses values w)"

section \<open>Instructions\<close>

text \<open>The assembler's immediates.\<close>

definition fits_inline :: "u32 \<Rightarrow> bool" where
  "fits_inline v \<longleftrightarrow> - 4096 \<le> sint v \<and> sint v \<le> 4095"

definition through_scratch :: "u32 \<Rightarrow> warp \<Rightarrow> warp" where
  "through_scratch v w = (if fits_inline v then w else write_vector SCRATCH (\<lambda>_. True) (\<lambda>_. v) w)"

text \<open>The assembler's scratch register for scalars is 7, which is also the stack pointer.\<close>

definition run_scalar_add :: "(nat \<Rightarrow> bool) \<Rightarrow> nat \<Rightarrow> nat \<Rightarrow> u32 \<Rightarrow> warp \<Rightarrow> warp" where
  "run_scalar_add active d a v w =
     (if fits_inline v then write_scalar d active (w_sregs w a + v) w
      else
        let w = w\<lparr>w_sregs := (w_sregs w)(7 := v)\<rparr> in write_scalar d active (w_sregs w a + w_sregs w 7) w)"

definition run_vector :: "(nat \<Rightarrow> bool) \<Rightarrow> string \<Rightarrow> nat \<Rightarrow> nat \<Rightarrow> nat \<Rightarrow> warp \<Rightarrow> warp option" where
  "run_vector active m d a b w =
     (if m = ''SHUFFLE''
      then Some (write_vector d active (\<lambda>lane. w_regs w a (unat (w_regs w b lane AND 31))) w)
      else map_option (\<lambda>f. write_vector d active (\<lambda>lane. f (w_regs w a lane) (w_regs w b lane)) w) (alu m))"

definition run_immediate :: "(nat \<Rightarrow> bool) \<Rightarrow> string \<Rightarrow> nat \<Rightarrow> nat \<Rightarrow> u32 \<Rightarrow> warp \<Rightarrow> warp option" where
  "run_immediate active m d a v w =
     (if m = ''BROADCAST'' then
        Some (write_vector d active (\<lambda>lane. w_regs w a (unat (v AND 31))) w)
      else if m = ''SHUFFLE_XOR'' then
        Some (write_vector d active (\<lambda>lane. w_regs w a (lane XOR unat (v AND 31))) w)
      else
        let w = through_scratch v w in
        map_option (\<lambda>f. write_vector d active (\<lambda>lane. f (w_regs w a lane) v) w) (alu m))"

definition run_two :: "(nat \<Rightarrow> bool) \<Rightarrow> string \<Rightarrow> nat \<Rightarrow> nat \<Rightarrow> warp \<Rightarrow> warp option" where
  "run_two active m d a w =
     (if m = ''LOAD'' then load_vector d active (w_regs w a) w
      else if m = ''STORE'' then store_lanes [0..<WARP_LANES] active (w_regs w d) (w_regs w a) w
      else
        case alu_unary m of
          Some f \<Rightarrow> Some (write_vector d active (\<lambda>lane. f (w_regs w a lane)) w)
        | None \<Rightarrow> map_option (\<lambda>f. write_vector d active (\<lambda>_. f (w_regs w a)) w) (reduce m))"

definition run_compare :: "(nat \<Rightarrow> bool) \<Rightarrow> string \<Rightarrow> nat \<Rightarrow> nat \<Rightarrow> vec \<Rightarrow> warp \<Rightarrow> warp option" where
  "run_compare active m p a y w =
     map_option (\<lambda>f. write_pred p active (\<lambda>lane. f (w_regs w a lane) (y lane)) w) (compare m)"

definition run_instr :: "(nat \<Rightarrow> bool) \<Rightarrow> string \<Rightarrow> asm_operand list \<Rightarrow> warp \<Rightarrow> warp option" where
  "run_instr active m ops w =
     (case ops of
        [O_R d, O_R a, O_R b] \<Rightarrow> run_vector active m d a b w
      | [O_R d, O_R a, O_Num n] \<Rightarrow> run_immediate active m d a (of_nat n) w
      | [O_R d, O_R a] \<Rightarrow> run_two active m d a w
      | [O_R d, O_Num n] \<Rightarrow>
          if m = ''MOV'' then Some (write_vector d active (\<lambda>_. of_nat n) w) else None
      | [O_R d, O_S s] \<Rightarrow>
          if m = ''S_BCAST'' then Some (write_vector d active (\<lambda>_. w_sregs w s) w) else None
      | [O_R d] \<Rightarrow>
          if m = ''LANEID'' then Some (write_vector d active of_nat w)
          else if m = ''VMID'' then Some (write_vector d active (\<lambda>_. w_vm_id w) w)
          else None
      | [O_P p, O_R a, O_R b] \<Rightarrow> run_compare active m p a (w_regs w b) w
      | [O_P p, O_R a, O_Num n] \<Rightarrow>
          run_compare active m p a (\<lambda>_. of_nat n) (through_scratch (of_nat n) w)
      | [O_P p, O_P q] \<Rightarrow>
          if m = ''NOTMASK'' then Some (write_pred p active (\<lambda>lane. \<not> w_preds w q lane) w) else None
      | [O_P p, O_P q, O_P r] \<Rightarrow>
          if m = ''ANDMASK'' then Some (write_pred p active (\<lambda>lane. w_preds w q lane \<and> w_preds w r lane) w)
          else None
      | [O_P p, O_R a] \<Rightarrow>
          if m = ''BALLOT'' then Some (write_pred p active (\<lambda>lane. w_regs w a lane \<noteq> 0) w) else None
      | [O_S d, O_R a] \<Rightarrow>
          if m = ''S_GET'' then Some (write_scalar d active (w_regs w a 0) w) else None
      | [O_S d, O_Num n] \<Rightarrow>
          if m = ''S_MOV_I'' then Some (write_scalar d active (of_nat n) w) else None
      | [O_S d, O_S a, O_Num n] \<Rightarrow>
          if m = ''S_ADD_I'' then Some (run_scalar_add active d a (of_nat n) w) else None
      | [O_S d, O_S a, O_Neg n] \<Rightarrow>
          if m = ''S_ADD_I'' then Some (run_scalar_add active d a (- of_nat n) w) else None
      | [] \<Rightarrow> if m = ''FLIP'' then Some (w\<lparr>w_frame_seq := w_frame_seq w + 1\<rparr>) else None
      | _ \<Rightarrow> None)"

section \<open>Sequences with forward jumps\<close>

text \<open>The code of an expression jumps only forward, behind code that is skipped. Other lines of
  control (calls, returns, backward jumps) have no meaning here.\<close>

fun jump_target :: "string \<Rightarrow> asm_operand list \<Rightarrow> warp \<Rightarrow> string option option" where
  "jump_target m [O_Label l] w = (if m = ''JMP'' then Some (Some l) else None)"
| "jump_target m [O_P p, O_Label l] w =
     (if m = ''JMP_IF_ANY'' then Some (if list_ex (w_preds w p) [0..<WARP_LANES] then Some l else None)
      else None)"
| "jump_target m ops w = None"

fun skip_to :: "string \<Rightarrow> asm_line list \<Rightarrow> asm_line list option" where
  "skip_to l [] = None"
| "skip_to l (x # xs) = (if x = L_Label l then Some xs else skip_to l xs)"

lemma skip_to_shorter: "skip_to l xs = Some ys \<Longrightarrow> length ys < length xs"
  by (induction xs) (auto split: if_splits)

function run :: "asm_line list \<Rightarrow> warp \<Rightarrow> warp option" where
  "run [] w = Some w"
| "run (L_Text t # ls) w = run ls w"
| "run (L_Label l # ls) w = run ls w"
| "run (L_Instr guard m ops # ls) w =
     (case jump_target m ops w of
        Some (Some l) \<Rightarrow>
          if guard \<noteq> None then None
          else (case skip_to l ls of None \<Rightarrow> None | Some rest \<Rightarrow> run rest w)
      | Some None \<Rightarrow> if guard \<noteq> None then None else run ls w
      | None \<Rightarrow>
          (case run_instr (lane_active guard w) m ops w of
             None \<Rightarrow> None | Some w' \<Rightarrow> run ls w'))"
  by pat_completeness auto

termination
  by (relation "measure (\<lambda>(ls, w). length ls)") (auto dest: skip_to_shorter)

end
