(* ===== verification/Codegen_Meaning.thy ===== *)
theory Codegen_Meaning
  imports Warp_Machine Sema_Types "HOL-Library.Signed_Division"
begin

unbundle bit_operations_syntax

text \<open>
  What expressions mean, apart from any machine code: the values of the language over the 32
  lanes of a warp. It follows \<open>docs/warpc.md\<close>: operations wrap modulo 2 to the 32, division of
  \<open>int\<close> truncates towards zero and the remainder follows the dividend, the right shift of \<open>int\<close>
  is arithmetic, and a division by zero gives 0. \<open>None\<close> is an expression without a meaning here:
  an effect, a local without a value, an address outside the memory, or a signed shift by 32 or
  more.
\<close>

record meanings =
  m_local :: "nat \<Rightarrow> vec option"
  m_address :: "nat \<Rightarrow> vec option"
  m_global :: "nat \<Rightarrow> u32 option"
  m_load :: "u32 \<Rightarrow> u32 option"
  m_vm_id :: u32

definition truth :: "bool \<Rightarrow> u32" where
  "truth b = (if b then 1 else 0)"

section \<open>Operators\<close>

definition signed_quotient :: "u32 \<Rightarrow> u32 \<Rightarrow> u32" where
  "signed_quotient a b = (if b = 0 then 0 else word_of_int (sint a sdiv sint b))"

definition signed_remainder :: "u32 \<Rightarrow> u32 \<Rightarrow> u32" where
  "signed_remainder a b = (if b = 0 then 0 else word_of_int (sint a smod sint b))"

definition binary_meaning :: "binary_op \<Rightarrow> ctype \<Rightarrow> (u32 \<Rightarrow> u32 \<Rightarrow> u32 option) option" where
  "binary_meaning op ty =
     (let total = (\<lambda>f. Some (\<lambda>a b. Some (f a b))); is_int = (ty = T_I32) in
      case op of
        B_Add \<Rightarrow> total (+)
      | B_Sub \<Rightarrow> total (-)
      | B_Mul \<Rightarrow> total (*)
      | B_BitAnd \<Rightarrow> total (AND)
      | B_BitOr \<Rightarrow> total (OR)
      | B_BitXor \<Rightarrow> total (XOR)
      | B_Shl \<Rightarrow> total shift_left
      | B_Shr \<Rightarrow>
          if is_int then Some (\<lambda>a b. if b < 32 then Some (signed_drop_bit (unat b) a) else None)
          else total shift_right
      | B_Div \<Rightarrow> if is_int then total signed_quotient else total (div)
      | B_Mod \<Rightarrow> if is_int then total signed_remainder else total (\<lambda>a b. if b = 0 then 0 else a mod b)
      | B_Eq \<Rightarrow> total (\<lambda>a b. truth (a = b))
      | B_Ne \<Rightarrow> total (\<lambda>a b. truth (a \<noteq> b))
      | B_Lt \<Rightarrow> total (\<lambda>a b. truth (if is_int then a <s b else a < b))
      | B_Le \<Rightarrow> total (\<lambda>a b. truth (if is_int then a <=s b else a \<le> b))
      | B_Gt \<Rightarrow> total (\<lambda>a b. truth (if is_int then b <s a else a > b))
      | B_Ge \<Rightarrow> total (\<lambda>a b. truth (if is_int then b <=s a else a \<ge> b))
      | _ \<Rightarrow> None)"

definition unary_meaning :: "unary_op \<Rightarrow> (u32 \<Rightarrow> u32) option" where
  "unary_meaning op =
     (case op of
        U_Plus \<Rightarrow> Some (\<lambda>a. a)
      | U_Minus \<Rightarrow> Some uminus
      | U_BitNot \<Rightarrow> Some (\<lambda>a. NOT a)
      | U_LogicalNot \<Rightarrow> Some (\<lambda>a. truth (a = 0))
      | _ \<Rightarrow> None)"

text \<open>An operation on vectors, lane by lane; it has a value when all 32 lanes have one.\<close>

definition lanes_defined :: "(nat \<Rightarrow> 'a option) \<Rightarrow> bool" where
  "lanes_defined f \<longleftrightarrow> list_all (\<lambda>lane. f lane \<noteq> None) [0..<WARP_LANES]"

definition pointwise :: "(nat \<Rightarrow> u32 option) \<Rightarrow> vec option" where
  "pointwise f = (if lanes_defined f then Some (\<lambda>lane. case f lane of None \<Rightarrow> 0 | Some v \<Rightarrow> v) else None)"

text \<open>A vector with the same truth value in all lanes.\<close>

definition agreed :: "vec \<Rightarrow> bool option" where
  "agreed x =
     (if list_all (\<lambda>lane. x lane \<noteq> 0) [0..<WARP_LANES] then Some True
      else if list_all (\<lambda>lane. x lane = 0) [0..<WARP_LANES] then Some False
      else None)"

section \<open>Intrinsics\<close>

definition signed_fold :: "(int \<Rightarrow> int \<Rightarrow> int) \<Rightarrow> vec \<Rightarrow> u32" where
  "signed_fold f x = word_of_int (foldl f (sint (x 0)) (map sint (lane_values x)))"

definition constant_argument :: "typed_expr list \<Rightarrow> nat \<Rightarrow> u32 option" where
  "constant_argument args i =
     (if i < length args then case te_kind (args ! i) of TE_Literal v \<Rightarrow> Some v | _ \<Rightarrow> None else None)"

definition intrinsic_meaning :: "u32 \<Rightarrow> intrinsic \<Rightarrow> typed_expr list \<Rightarrow> vec list \<Rightarrow> vec option" where
  "intrinsic_meaning vm i args xs =
     (case (i, xs) of
        (I_LaneId, []) \<Rightarrow> Some of_nat
      | (I_VmId, []) \<Rightarrow> Some (\<lambda>_. vm)
      | (I_Framebuffer, []) \<Rightarrow> Some (\<lambda>_. WARP_VIDEO_BASE)
      | (I_Argb, [a, r, g, b]) \<Rightarrow>
          Some (\<lambda>lane. push_bit 24 (a lane AND 255) OR push_bit 16 (r lane AND 255)
            OR push_bit 8 (g lane AND 255) OR (b lane AND 255))
      | (I_Broadcast, [x, y]) \<Rightarrow>
          if list_all (\<lambda>lane. y lane = y 0) [0..<WARP_LANES] then Some (\<lambda>lane. x (unat (y 0 AND 31))) else None
      | (I_ShuffleXor, [x, y]) \<Rightarrow>
          map_option (\<lambda>k lane. x (lane XOR unat (k AND 31))) (constant_argument args 1)
      | (I_Shuffle, [x, y]) \<Rightarrow> Some (\<lambda>lane. x (unat (y lane AND 31)))
      | (I_Ballot, [x]) \<Rightarrow>
          Some (\<lambda>_. foldl (OR) 0 (lane_values (\<lambda>lane. if x lane \<noteq> 0 then push_bit lane 1 else 0)))
      | (I_Any, [x]) \<Rightarrow> Some (\<lambda>_. truth (\<exists>lane\<in>set [0..<WARP_LANES]. x lane \<noteq> 0))
      | (I_All, [x]) \<Rightarrow> Some (\<lambda>_. truth (\<forall>lane\<in>set [0..<WARP_LANES]. x lane \<noteq> 0))
      | (I_ReduceAdd, [x]) \<Rightarrow> Some (\<lambda>_. sum_list (lane_values x))
      | (I_ReduceAddUnsigned, [x]) \<Rightarrow> Some (\<lambda>_. sum_list (lane_values x))
      | (I_ReduceMinUnsigned, [x]) \<Rightarrow> Some (\<lambda>_. foldl min (x 0) (lane_values x))
      | (I_ReduceMaxUnsigned, [x]) \<Rightarrow> Some (\<lambda>_. foldl max (x 0) (lane_values x))
      | (I_ReduceMinSigned, [x]) \<Rightarrow> Some (\<lambda>_. signed_fold min x)
      | (I_ReduceMaxSigned, [x]) \<Rightarrow> Some (\<lambda>_. signed_fold max x)
      | (I_ReduceAnd, [x]) \<Rightarrow> Some (\<lambda>_. foldl (AND) (- 1) (lane_values x))
      | (I_ReduceOr, [x]) \<Rightarrow> Some (\<lambda>_. foldl (OR) 0 (lane_values x))
      | (I_ReduceXor, [x]) \<Rightarrow> Some (\<lambda>_. foldl (XOR) 0 (lane_values x))
      | (I_MinUnsigned, [x, y]) \<Rightarrow> Some (\<lambda>lane. min (x lane) (y lane))
      | (I_MaxUnsigned, [x, y]) \<Rightarrow> Some (\<lambda>lane. max (x lane) (y lane))
      | (I_MinSigned, [x, y]) \<Rightarrow> Some (\<lambda>lane. if x lane <=s y lane then x lane else y lane)
      | (I_MaxSigned, [x, y]) \<Rightarrow> Some (\<lambda>lane. if x lane <=s y lane then y lane else x lane)
      | _ \<Rightarrow> None)"

section \<open>Expressions\<close>

definition loaded :: "meanings \<Rightarrow> vec \<Rightarrow> vec option" where
  "loaded m a = pointwise (\<lambda>lane. m_load m (a lane))"

fun meaning :: "meanings \<Rightarrow> typed_expr \<Rightarrow> vec option"
and kind_meaning :: "meanings \<Rightarrow> typed_kind \<Rightarrow> ctype \<Rightarrow> vec option"
and list_meaning :: "meanings \<Rightarrow> typed_expr list \<Rightarrow> vec list option"
and address_meaning :: "meanings \<Rightarrow> lvalue \<Rightarrow> vec option" where
  "meaning m (TExpr k ty u sp) = kind_meaning m k ty"
| "kind_meaning m (TE_Literal v) ty = Some (\<lambda>_. v)"
| "kind_meaning m (TE_StringAddress a) ty = Some (\<lambda>_. of_nat a)"
| "kind_meaning m (TE_Intrinsic i args) ty =
     Option.bind (list_meaning m args) (intrinsic_meaning (m_vm_id m) i args)"
| "kind_meaning m (TE_LValue l) ty =
     (if is_array ty \<or> is_struct ty then address_meaning m l
      else
        case l of
          LV_Local i \<Rightarrow> m_local m i
        | _ \<Rightarrow> Option.bind (address_meaning m l) (loaded m))"
| "kind_meaning m (TE_AddressOf l) ty = address_meaning m l"
| "kind_meaning m (TE_Unary op e) ty =
     Option.bind (unary_meaning op) (\<lambda>f. map_option (\<lambda>x lane. f (x lane)) (meaning m e))"
| "kind_meaning m (TE_Binary op l r operand_type) ty =
     Option.bind (meaning m l) (\<lambda>x.
       if op = B_Comma then meaning m r
       else if op = B_LogicalAnd then
         Option.bind (agreed x) (\<lambda>b.
           if b then map_option (\<lambda>y lane. truth (y lane \<noteq> 0)) (meaning m r) else Some (\<lambda>_. 0))
       else if op = B_LogicalOr then
         Option.bind (agreed x) (\<lambda>b.
           if b then Some (\<lambda>_. 1) else map_option (\<lambda>y lane. truth (y lane \<noteq> 0)) (meaning m r))
       else
         Option.bind (meaning m r) (\<lambda>y.
         Option.bind (binary_meaning op operand_type) (\<lambda>f. pointwise (\<lambda>lane. f (x lane) (y lane)))))"
| "kind_meaning m (TE_Conditional c t e) ty =
     Option.bind (meaning m c) (\<lambda>x.
       if te_uniformity c = Divergent then
         Option.bind (meaning m t) (\<lambda>y.
         Option.bind (meaning m e) (\<lambda>z. Some (\<lambda>lane. if x lane \<noteq> 0 then y lane else z lane)))
       else Option.bind (agreed x) (\<lambda>b. if b then meaning m t else meaning m e))"
| "kind_meaning m (TE_PointerAdd b i scale subtract) ty =
     Option.bind (meaning m b) (\<lambda>x.
     Option.bind (meaning m i) (\<lambda>y.
       Some (\<lambda>lane. if subtract then x lane - y lane * of_nat scale else x lane + y lane * of_nat scale)))"
| "kind_meaning m (TE_PointerDiff l r scale) ty =
     Option.bind (meaning m l) (\<lambda>x.
     Option.bind (meaning m r) (\<lambda>y.
       Some (\<lambda>lane. if scale = 1 then x lane - y lane else signed_quotient (x lane - y lane) (of_nat scale))))"
| "kind_meaning m _ ty = None"
| "list_meaning m [] = Some []"
| "list_meaning m (e # es) =
     Option.bind (meaning m e) (\<lambda>x. Option.bind (list_meaning m es) (\<lambda>xs. Some (x # xs)))"
| "address_meaning m (LV_Local i) = m_address m i"
| "address_meaning m (LV_Global i) = map_option (\<lambda>a _. a) (m_global m i)"
| "address_meaning m (LV_Deref e) = meaning m e"
| "address_meaning m (LV_Index b i scale) =
     Option.bind (meaning m b) (\<lambda>x.
     Option.bind (meaning m i) (\<lambda>y. Some (\<lambda>lane. x lane + y lane * of_nat scale)))"
| "address_meaning m (LV_Member l offset) =
     map_option (\<lambda>x lane. x lane + of_nat offset) (address_meaning m l)"

end
