(* ===== verification/Codegen_Exec.thy ===== *)
theory Codegen_Exec
  imports Codegen Codegen_Meaning Text_Facts
begin

text \<open>
  A calculus for the code generator: \<open>wp m Q\<close> holds of a generator and a machine when running
  the lines that \<open>m\<close> emits takes the machine to one with \<open>Q\<close>. The only other outcome of \<open>m\<close> is
  the diagnostic that the temporaries do not fit. A machine that has faulted is \<open>None\<close>: what \<open>m\<close>
  does to the generator does not depend on it. Labels in the code are new ones, so that forward
  jumps out of an operand meet only their own targets.
\<close>

section \<open>Sequences\<close>

definition runs :: "asm_line list \<Rightarrow> warp option \<Rightarrow> warp option" where
  "runs ls W = Option.bind W (run ls)"

lemma runs_None [simp]: "runs ls None = None"
  by (simp add: runs_def)

lemma runs_Nil [simp]: "runs [] W = W"
  by (cases W) (simp_all add: runs_def)

lemma runs_Some [simp]: "runs ls (Some w) = run ls w"
  by (simp add: runs_def)

lemma skip_to_append:
  "skip_to l xs = Some ys \<Longrightarrow> skip_to l (xs @ zs) = Some (ys @ zs)"
  by (induction xs) (auto split: if_splits)

lemma run_append:
  "run xs w = Some w' \<Longrightarrow> run (xs @ ys) w = run ys w'"
proof (induction xs w rule: run.induct)
  case (4 guard m ops ls w)
  show ?case
  proof (cases "jump_target m ops w")
    case None
    then show ?thesis
      using 4 by (cases "run_instr (lane_active guard w) m ops w") auto
  next
    case (Some t)
    then show ?thesis
      using 4 by (auto split: option.splits if_splits simp: skip_to_append)
  qed
qed auto

lemma runs_append:
  "runs xs W = Some w' \<Longrightarrow> runs (xs @ ys) W = run ys w'"
  by (cases W) (auto intro: run_append)

fun line_label :: "asm_line \<Rightarrow> string option" where
  "line_label (L_Label l) = Some l"
| "line_label _ = None"

definition labels_of :: "asm_line list \<Rightarrow> string list" where
  "labels_of = List.map_filter line_label"

lemma labels_of_simps [simp]:
  "labels_of [] = []"
  "labels_of (L_Label l # ls) = l # labels_of ls"
  "labels_of (L_Text t # ls) = labels_of ls"
  "labels_of (L_Instr guard m ops # ls) = labels_of ls"
  "labels_of (xs @ ys) = labels_of xs @ labels_of ys"
  by (simp_all add: labels_of_def List.map_filter_def)

lemma skip_to_new:
  "l \<notin> set (labels_of xs) \<Longrightarrow> skip_to l (xs @ L_Label l # ys) = Some ys"
proof (induction xs)
  case (Cons x xs)
  then show ?case by (cases x) auto
qed simp

section \<open>Numbers of labels\<close>

definition label_named :: "string \<Rightarrow> nat \<Rightarrow> string" where
  "label_named stem n = ''__warpc_'' @ stem @ ''_'' @ nat_str n"

lemma nat_str_digits: "list_all is_ascii_digit (nat_str n)"
  by (simp add: nat_str_def int_str_def decimal_digits)

lemma nat_str_inj: "nat_str n = nat_str k \<Longrightarrow> n = k"
proof -
  assume "nat_str n = nat_str k"
  then have "digits_val 10 0 (nat_str n) = digits_val 10 0 (nat_str k)"
    by simp
  then show ?thesis
    by (simp add: nat_str_def int_str_def digits_val_radix_str)
qed

lemma split_at_last:
  assumes "xs @ c # ys = xs' @ c # ys'" and "c \<notin> set ys" and "c \<notin> set ys'"
  shows "ys = ys'"
proof -
  have last: "takeWhile (\<lambda>x. x \<noteq> c) (rev (us @ c # vs)) = rev vs" if "c \<notin> set vs" for us vs
  proof -
    have "takeWhile (\<lambda>x. x \<noteq> c) (rev vs @ c # rev us) = rev vs @ takeWhile (\<lambda>x. x \<noteq> c) (c # rev us)"
      by (rule takeWhile_append2) (use that in auto)
    then show ?thesis
      by simp
  qed
  from last [OF assms(2), of xs] last [OF assms(3), of xs'] show ?thesis
    using assms(1) by simp
qed

lemma label_named_inj: "label_named s n = label_named t k \<Longrightarrow> n = k"
proof -
  assume same: "label_named s n = label_named t k"
  have free: "CHR ''_'' \<notin> set (nat_str j)" for j
    using nat_str_digits [of j] by (auto simp: list_all_iff is_ascii_digit_def)
  have "nat_str n = nat_str k"
    using same free
    by (intro split_at_last [of "''__warpc_'' @ s" "CHR ''_''" "nat_str n" "''__warpc_'' @ t" "nat_str k"])
      (simp_all add: label_named_def)
  then show ?thesis
    by (rule nat_str_inj)
qed

definition label_range :: "nat \<Rightarrow> nat \<Rightarrow> string set" where
  "label_range a b = {label_named stem n | stem n. a \<le> n \<and> n < b}"

lemma label_range_mono: "a' \<le> a \<Longrightarrow> b \<le> b' \<Longrightarrow> label_range a b \<subseteq> label_range a' b'"
  unfolding label_range_def by fastforce

lemma label_not_in_range: "n < a \<Longrightarrow> label_named s n \<notin> label_range a b"
  by (auto simp: label_range_def dest: label_named_inj)

section \<open>The calculus\<close>

definition pressure :: "cc_error \<Rightarrow> bool" where
  "pressure e \<longleftrightarrow> (\<exists>d. e = Diag d \<and> d_message d = pressure_message)"

definition wp :: "'a gm \<Rightarrow> ('a \<Rightarrow> generator \<Rightarrow> warp option \<Rightarrow> bool) \<Rightarrow> generator \<Rightarrow> warp option \<Rightarrow> bool" where
  "wp m Q g W \<longleftrightarrow>
     (case m g of
        Inl e \<Rightarrow> pressure e
      | Inr (x, g') \<Rightarrow>
          \<exists>ls W'. g_assembly g' = g_assembly g @ ls \<and> g_next_label g \<le> g_next_label g'
            \<and> set (labels_of ls) \<subseteq> label_range (g_next_label g) (g_next_label g')
            \<and> (W' = None \<or> W' = runs ls W) \<and> Q x g' W')"

lemma wp_intro:
  assumes "m g = Inr (x, g')" and "g_assembly g' = g_assembly g @ ls"
    and "g_next_label g \<le> g_next_label g'"
    and "set (labels_of ls) \<subseteq> label_range (g_next_label g) (g_next_label g')"
    and "W' = None \<or> W' = runs ls W" and "Q x g' W'"
  shows "wp m Q g W"
  unfolding wp_def using assms by auto

lemma wp_elim:
  assumes "wp m Q g W"
  obtains e where "m g = Inl e" and "pressure e"
  | x g' ls W' where "m g = Inr (x, g')" and "g_assembly g' = g_assembly g @ ls"
    and "g_next_label g \<le> g_next_label g'"
    and "set (labels_of ls) \<subseteq> label_range (g_next_label g) (g_next_label g')"
    and "W' = None \<or> W' = runs ls W" and "Q x g' W'"
  using assms unfolding wp_def by (auto split: sum.splits)

lemma wp_mono:
  assumes "wp m P g W" and "\<And>x g' W'. P x g' W' \<Longrightarrow> Q x g' W'"
  shows "wp m Q g W"
  using assms unfolding wp_def by (fastforce split: sum.splits)

lemma runs_two:
  assumes "V = None \<or> V = runs xs W" and "V' = None \<or> V' = runs ys V"
  shows "V' = None \<or> V' = runs (xs @ ys) W"
proof (cases V)
  case (Some v)
  with assms(1) have "runs xs W = Some v"
    by auto
  then show ?thesis
    using assms(2) Some by (simp add: runs_append)
qed (use assms in auto)

lemma wp_bind:
  assumes "wp m (\<lambda>x. wp (f x) Q) g W"
  shows "wp (mbind m f) Q g W"
  using assms
proof (cases rule: wp_elim)
  case (1 e)
  then show ?thesis by (simp add: wp_def mbind_def)
next
  case (2 x g1 ls W1)
  from 2(6) show ?thesis
  proof (cases rule: wp_elim)
    case (1 e)
    with 2(1) show ?thesis by (simp add: wp_def mbind_def)
  next
    case inner: (2 y g2 ks W2)
    show ?thesis
    proof (rule wp_intro)
      show "mbind m f g = Inr (y, g2)"
        using 2(1) inner(1) by (simp add: mbind_def)
      show "g_assembly g2 = g_assembly g @ (ls @ ks)"
        using 2(2) inner(2) by simp
      show "g_next_label g \<le> g_next_label g2"
        using 2(3) inner(3) by simp
      show "set (labels_of (ls @ ks)) \<subseteq> label_range (g_next_label g) (g_next_label g2)"
        using 2(3,4) inner(3,4) label_range_mono by simp (meson dual_order.trans order_refl)
      show "W2 = None \<or> W2 = runs (ls @ ks) W"
        using 2(5) inner(5) by (rule runs_two)
      show "Q y g2 W2"
        by (rule inner(6))
    qed
  qed
qed

lemma wp_then: "wp m (\<lambda>_. wp n Q) g W \<Longrightarrow> wp (mthen m n) Q g W"
  unfolding mthen_def by (rule wp_bind)

lemma wp_quiet:
  assumes "m g = Inr (x, g')" and "g_assembly g' = g_assembly g"
    and "g_next_label g \<le> g_next_label g'" and "Q x g' W"
  shows "wp m Q g W"
  by (rule wp_intro [where ls = "[]" and W' = W]) (use assms in auto)

lemma wp_ret: "Q x g W \<Longrightarrow> wp (ret x) Q g W"
  by (rule wp_quiet) (auto simp: ret_def)

lemma wp_gets: "Q (f g) g W \<Longrightarrow> wp (gets f) Q g W"
  by (rule wp_quiet) (auto simp: gets_def)

lemma wp_lift: "r = Inr x \<Longrightarrow> Q x g W \<Longrightarrow> wp (lift r) Q g W"
  by (rule wp_quiet) (auto simp: lift_def)

lemma wp_only_if: "(c \<Longrightarrow> wp m Q g W) \<Longrightarrow> (\<not> c \<Longrightarrow> Q () g W) \<Longrightarrow> wp (only_if c m) Q g W"
  by (auto simp: only_if_def intro: wp_ret)

lemma wp_push:
  assumes "labels_of [l] = []" and "Q () (g\<lparr>g_assembly := g_assembly g @ [l]\<rparr>) (runs [l] W)"
  shows "wp (push_line l) Q g W"
  by (rule wp_intro [where ls = "[l]" and W' = "runs [l] W"])
    (use assms in \<open>auto simp: push_line_def modify_def\<close>)

section \<open>The generator in front of and behind a computation\<close>

text \<open>Everything of the generator but the text, the registers in use, the labels and the
  protections stays as it is.\<close>

definition surroundings :: "generator \<Rightarrow> generator" where
  "surroundings g = g\<lparr>g_assembly := [], g_used := [], g_peak_vector_regs := 0, g_next_label := 0,
     g_protected := []\<rparr>"

definition busy :: "generator \<Rightarrow> nat set" where
  "busy g = {r. r < length (g_used g) \<and> g_used g ! r}"

definition step :: "generator \<Rightarrow> generator \<Rightarrow> bool" where
  "step g g' \<longleftrightarrow> surroundings g' = surroundings g \<and> g_next_label g \<le> g_next_label g'
     \<and> length (g_used g') = length (g_used g) \<and> length (g_protected g') = length (g_protected g)"

definition ready :: "generator \<Rightarrow> bool" where
  "ready g \<longleftrightarrow> length (g_used g) = ALLOCATABLE_REGS \<and> length (g_protected g) = ALLOCATABLE_REGS
     \<and> g_current_guard g = None"

lemma step_refl [simp]: "step g g"
  by (simp add: step_def)

lemma step_trans [trans]: "step g h \<Longrightarrow> step h k \<Longrightarrow> step g k"
  by (auto simp: step_def)

lemma step_fields:
  assumes "step g g'"
  shows "g_checks g' = g_checks g" "g_local_storage g' = g_local_storage g" "g_locals g' = g_locals g"
    "g_globals g' = g_globals g" "g_current_frame_words g' = g_current_frame_words g"
    "g_current_guard g' = g_current_guard g"
proof -
  have "surroundings g' = surroundings g"
    using assms by (simp add: step_def)
  then have "f (surroundings g') = f (surroundings g)" for f :: "generator \<Rightarrow> 'b"
    by simp
  from this [of g_checks] this [of g_local_storage] this [of g_locals] this [of g_globals]
    this [of g_current_frame_words] this [of g_current_guard]
  show "g_checks g' = g_checks g" "g_local_storage g' = g_local_storage g" "g_locals g' = g_locals g"
    "g_globals g' = g_globals g" "g_current_frame_words g' = g_current_frame_words g"
    "g_current_guard g' = g_current_guard g"
    by (simp_all add: surroundings_def)
qed

lemma step_ready: "step g g' \<Longrightarrow> ready g \<Longrightarrow> ready g'"
  using step_fields(6) [of g g'] by (simp add: ready_def step_def)

lemma busy_bound: "ready g \<Longrightarrow> r \<in> busy g \<Longrightarrow> r < 13"
  by (simp add: busy_def ready_def ALLOCATABLE_REGS_def)

section \<open>Rules\<close>

lemma wp_instr:
  assumes "ready g"
    and "\<And>g'. step g g' \<Longrightarrow> busy g' = busy g \<Longrightarrow> g_protected g' = g_protected g
           \<Longrightarrow> Q () g' (runs [L_Instr None m ops] W)"
  shows "wp (emit_instr m ops) Q g W"
  unfolding emit_instr_def
  by (intro wp_bind wp_gets) (use assms in \<open>auto intro!: wp_push simp: step_def surroundings_def busy_def ready_def\<close>)

lemma wp_guarded:
  assumes "ready g"
    and "\<And>g'. step g g' \<Longrightarrow> busy g' = busy g \<Longrightarrow> g_protected g' = g_protected g
           \<Longrightarrow> Q () g' (runs [L_Instr (Some (inverted, p)) m ops] W)"
  shows "wp (guarded_instr p inverted m ops) Q g W"
  unfolding guarded_instr_def
  by (intro wp_bind wp_gets) (use assms in \<open>auto intro!: wp_push simp: step_def surroundings_def busy_def ready_def\<close>)

lemma wp_raw:
  assumes "\<And>g'. step g g' \<Longrightarrow> busy g' = busy g \<Longrightarrow> g_protected g' = g_protected g
           \<Longrightarrow> Q () g' (runs [L_Instr None m ops] W)"
  shows "wp (raw_instr m ops) Q g W"
  unfolding raw_instr_def
  by (rule wp_push) (use assms in \<open>auto simp: step_def surroundings_def busy_def\<close>)

lemma first_unused_Some:
  assumes "first_unused used = Some r"
  shows "r < length used" "\<not> used ! r"
  using assms by (auto simp: first_unused_def find_Some_iff)

lemma wp_alloc:
  assumes "ready g"
    and "\<And>r g'. r < 13 \<Longrightarrow> r \<notin> busy g \<Longrightarrow> busy g' = insert r (busy g) \<Longrightarrow> step g g'
           \<Longrightarrow> g_protected g' = g_protected g \<Longrightarrow> Q r g' W"
  shows "wp (alloc_reg sp) Q g W"
proof (cases "first_unused (g_used g)")
  case None
  then show ?thesis
    by (simp add: wp_def alloc_reg_def comp_defs diag_def diagnostic_new_def pressure_def)
next
  case (Some r)
  from first_unused_Some [OF this] assms(1)
  have r: "r < 13" "r < length (g_used g)" "r \<notin> busy g"
    by (simp_all add: ready_def ALLOCATABLE_REGS_def busy_def)
  let ?used = "(g_used g)[r := True]"
  let ?g = "g\<lparr>g_used := ?used, g_peak_vector_regs := max (g_peak_vector_regs g) (length (filter (\<lambda>u. u) ?used))\<rparr>"
  show ?thesis
  proof (rule wp_quiet)
    show "alloc_reg sp g = Inr (r, ?g)"
      using Some r by (simp add: alloc_reg_def comp_defs update_peak_vector_regs_def as_u8_def)
    have "busy ?g = insert r (busy g)"
      using r by (auto simp: busy_def nth_list_update)
    then show "Q r ?g W"
      using r by (intro assms(2)) (auto simp: step_def surroundings_def)
  qed simp_all
qed

lemma wp_free:
  assumes "r \<in> busy g" and "r < 13"
    and "\<And>g'. busy g' = busy g - {r} \<Longrightarrow> step g g' \<Longrightarrow> g_protected g' = g_protected g \<Longrightarrow> Q () g' W"
  shows "wp (free_reg r) Q g W"
proof (rule wp_quiet)
  let ?g = "g\<lparr>g_used := (g_used g)[r := False]\<rparr>"
  show "free_reg r g = Inr ((), ?g)"
    using assms(1,2)
    by (simp add: free_reg_def comp_defs debug_assert_def busy_def ALLOCATABLE_REGS_def set_at_def index_at_def)
  have "busy ?g = busy g - {r}"
    unfolding busy_def by (rule set_eqI, rename_tac x, case_tac "x = r") simp_all
  then show "Q () ?g W"
    by (intro assms(3)) (auto simp: step_def surroundings_def)
qed simp_all

lemma wp_release:
  assumes "v_owned v \<Longrightarrow> v_reg v \<in> busy g \<and> v_reg v < 13"
    and "\<And>g'. busy g' = (if v_owned v then busy g - {v_reg v} else busy g) \<Longrightarrow> step g g'
           \<Longrightarrow> g_protected g' = g_protected g \<Longrightarrow> Q () g' W"
  shows "wp (release v) Q g W"
  unfolding release_def by (rule wp_only_if) (use assms in \<open>auto intro: wp_free\<close>)

text \<open>A value is protected around the computation of another one.\<close>

lemma wp_protect:
  assumes "ready g"
    and "\<And>g'. busy g' = busy g \<Longrightarrow> step g g'
           \<Longrightarrow> g_protected g' = (if v_reg v < 13 then (g_protected g)[v_reg v := g_protected g ! v_reg v + 1]
                               else g_protected g) \<Longrightarrow> Q () g' W"
  shows "wp (protect v) Q g W"
  unfolding protect_def
proof (rule wp_only_if)
  assume r: "v_reg v < ALLOCATABLE_REGS"
  show "wp (modify (\<lambda>g. g\<lparr>g_protected := (g_protected g)[v_reg v := g_protected g ! v_reg v + 1]\<rparr>)) Q g W"
    by (rule wp_quiet, simp add: modify_def, simp, simp, rule assms(2))
      (use r in \<open>auto simp: modify_def step_def surroundings_def busy_def ALLOCATABLE_REGS_def\<close>)
qed (use assms(2) [of g] in \<open>auto simp: ALLOCATABLE_REGS_def\<close>)

lemma wp_unprotect:
  assumes "ready g"
    and "g_protected g = (if v_reg v < 13 then ps[v_reg v := ps ! v_reg v + 1] else ps)" and "length ps = 13"
    and "\<And>g'. busy g' = busy g \<Longrightarrow> step g g' \<Longrightarrow> g_protected g' = ps \<Longrightarrow> Q () g' W"
  shows "wp (unprotect v) Q g W"
  unfolding unprotect_def
proof (rule wp_only_if)
  assume r: "v_reg v < ALLOCATABLE_REGS"
  then have "(g_protected g)[v_reg v := wrapping_pred (g_protected g ! v_reg v)] = ps"
    using assms(2,3) by (simp add: wrapping_pred_def ALLOCATABLE_REGS_def)
  moreover have "g_protected g ! v_reg v \<noteq> 0"
    using r assms(2,3) by (simp add: ALLOCATABLE_REGS_def)
  ultimately have eq: "mthen (debug_assert ''self.protected[value.reg as usize] != 0'' (\<lambda>g. g_protected g ! v_reg v \<noteq> 0))
        (modify (\<lambda>g. g\<lparr>g_protected := (g_protected g)[v_reg v := wrapping_pred (g_protected g ! v_reg v)]\<rparr>)) g
      = Inr ((), g\<lparr>g_protected := ps\<rparr>)"
    by (simp add: debug_assert_def comp_defs)
  have q: "Q () (g\<lparr>g_protected := ps\<rparr>) W"
    by (rule assms(4))
      (use assms(1,3) in \<open>simp_all add: step_def surroundings_def busy_def ready_def ALLOCATABLE_REGS_def\<close>)
  show "wp (mthen (debug_assert ''self.protected[value.reg as usize] != 0'' (\<lambda>g. g_protected g ! v_reg v \<noteq> 0))
        (modify (\<lambda>g. g\<lparr>g_protected := (g_protected g)[v_reg v := wrapping_pred (g_protected g ! v_reg v)]\<rparr>))) Q g W"
    by (rule wp_quiet [where g' = "g\<lparr>g_protected := ps\<rparr>"]) (use eq q in simp_all)
qed (use assms(2) assms(4) [of g] in \<open>auto simp: ALLOCATABLE_REGS_def\<close>)

end
