(* ===== verification/Codegen_Values.thy ===== *)
theory Codegen_Values
  imports Codegen_Exec
begin

text \<open>
  The contract of a computation of a value: it takes registers that are not in use, gives back
  all but the one of its result, keeps the registers in use, the scalar registers and the
  memory, and leaves the meaning of the expression in the register of the result.
\<close>

section \<open>Machines and meanings\<close>

definition same :: "vec \<Rightarrow> vec \<Rightarrow> bool" where
  "same x y \<longleftrightarrow> (\<forall>lane<WARP_LANES. x lane = y lane)"

lemma same_refl [simp]: "same x x"
  by (simp add: same_def)

definition kept :: "nat set \<Rightarrow> nat set \<Rightarrow> warp \<Rightarrow> warp \<Rightarrow> bool" where
  "kept P B w w' \<longleftrightarrow>
     (\<forall>r. r \<in> B \<or> r = LANE_REG \<longrightarrow> w_regs w' r = w_regs w r) \<and> w_sregs w' = w_sregs w
     \<and> w_memory w' = w_memory w \<and> w_framebuffer w' = w_framebuffer w \<and> w_vm_id w' = w_vm_id w
     \<and> w_frame_seq w' = w_frame_seq w \<and> (\<forall>p\<in>P. w_preds w' p = w_preds w p)"

lemma kept_refl [simp]: "kept P B w w"
  by (simp add: kept_def)

lemma kept_trans: "kept P B w w' \<Longrightarrow> kept P B' w' w'' \<Longrightarrow> B \<subseteq> B' \<Longrightarrow> kept P B w w''"
  by (auto simp: kept_def)

lemma kept_again: "kept P B w w' \<Longrightarrow> kept P B w' w'' \<Longrightarrow> kept P B w w''"
  by (rule kept_trans) auto

lemma kept_reg: "kept P B w w' \<Longrightarrow> r \<in> B \<or> r = LANE_REG \<Longrightarrow> w_regs w' r = w_regs w r"
  by (auto simp: kept_def)

text \<open>The homes of locals hold their values: in a vector register that is in use, in a scalar
  register, or in the frame, where a local has the address that the code computes.\<close>

definition frame_address :: "generator \<Rightarrow> warp \<Rightarrow> nat \<Rightarrow> vec" where
  "frame_address g w offset lane =
     w_sregs w 7 + of_nat lane * of_nat (g_current_frame_words g) + of_nat offset"

definition holds_local :: "meanings \<Rightarrow> generator \<Rightarrow> warp \<Rightarrow> nat \<Rightarrow> vec \<Rightarrow> bool" where
  "holds_local m g w i x \<longleftrightarrow> i < length (g_local_storage g) \<and>
     (case g_local_storage g ! i of
        None \<Rightarrow> False
      | Some (St_Vector r) \<Rightarrow> r \<in> busy g \<and> same (w_regs w r) x
      | Some (St_Scalar s) \<Rightarrow> same (\<lambda>_. w_sregs w s) x
      | Some (St_Frame offset) \<Rightarrow>
          (\<exists>a. m_address m i = Some a \<and> (\<forall>lane<WARP_LANES. m_load m (a lane) = Some (x lane))))"

definition holds_address :: "generator \<Rightarrow> warp \<Rightarrow> nat \<Rightarrow> vec \<Rightarrow> bool" where
  "holds_address g w i a \<longleftrightarrow> i < length (g_local_storage g) \<and>
     (\<exists>offset. g_local_storage g ! i = Some (St_Frame offset) \<and> same (frame_address g w offset) a)"

definition matches :: "meanings \<Rightarrow> generator \<Rightarrow> warp \<Rightarrow> bool" where
  "matches m g w \<longleftrightarrow>
     same (w_regs w LANE_REG) of_nat
     \<and> (\<forall>i x. m_local m i = Some x \<longrightarrow> holds_local m g w i x)
     \<and> (\<forall>i a. m_address m i = Some a \<longrightarrow> holds_address g w i a)
     \<and> (\<forall>i a. m_global m i = Some a \<longrightarrow> i < length (g_globals g) \<and> a = of_nat (gi_address (g_globals g ! i)))
     \<and> m_load m = load_word (w_memory w) (w_framebuffer w) \<and> m_vm_id m = w_vm_id w"

lemma matches_kept:
  assumes "matches m g w" and "kept P B w w'" and "busy g \<subseteq> B"
  shows "matches m g w'"
proof -
  have fields: "w_sregs w' = w_sregs w" "w_memory w' = w_memory w" "w_framebuffer w' = w_framebuffer w"
    "w_vm_id w' = w_vm_id w" "w_regs w' LANE_REG = w_regs w LANE_REG"
    using assms(2) by (simp_all add: kept_def)
  have regs: "w_regs w' r = w_regs w r" if "r \<in> busy g" for r
    using that assms(2,3) by (auto simp: kept_def)
  have address: "frame_address g w' = frame_address g w"
    by (simp add: frame_address_def fields fun_eq_iff)
  have "holds_local m g w' i x" if "holds_local m g w i x" for i x
    using that by (auto simp: holds_local_def fields regs split: option.splits local_storage.splits)
  moreover have "holds_address g w' i a" if "holds_address g w i a" for i a
    using that by (simp add: holds_address_def address)
  ultimately show ?thesis
    using assms(1) by (simp add: matches_def fields)
qed

section \<open>Registers in use\<close>

text \<open>The calculus relative to a generator \<open>g\<close>: the registers in use are an explicit set.\<close>

definition reaches :: "generator \<Rightarrow> nat set \<Rightarrow> generator \<Rightarrow> bool" where
  "reaches g B g' \<longleftrightarrow> ready g \<and> step g g' \<and> busy g' = B \<and> g_protected g' = g_protected g"

lemma reaches_start: "ready g \<Longrightarrow> reaches g (busy g) g"
  by (simp add: reaches_def)

lemma reaches_ready: "reaches g B g' \<Longrightarrow> ready g'"
  by (auto simp: reaches_def intro: step_ready)

lemma reaches_step:
  "reaches g B h \<Longrightarrow> step h h' \<Longrightarrow> busy h' = C \<Longrightarrow> g_protected h' = g_protected h \<Longrightarrow> reaches g C h'"
  by (auto simp: reaches_def intro: step_trans)

lemma reaches_busy: "reaches g B h \<Longrightarrow> busy h = B"
  by (simp add: reaches_def)

lemma alloc_from:
  assumes "reaches g B h"
    and "\<And>r h'. r < 13 \<Longrightarrow> r \<notin> B \<Longrightarrow> reaches g (insert r B) h' \<Longrightarrow> Q r h' W"
  shows "wp (alloc_reg sp) Q h W"
  by (rule wp_alloc, rule reaches_ready [OF assms(1)])
    (use assms(2) reaches_step [OF assms(1)] reaches_busy [OF assms(1)] in auto)

lemma instr_from:
  assumes "reaches g B h" and "\<And>h'. reaches g B h' \<Longrightarrow> Q () h' (runs [L_Instr None m ops] W)"
  shows "wp (emit_instr m ops) Q h W"
  by (rule wp_instr, rule reaches_ready [OF assms(1)])
    (use assms(2) reaches_step [OF assms(1)] reaches_busy [OF assms(1)] in auto)

lemma guarded_from:
  assumes "reaches g B h"
    and "\<And>h'. reaches g B h' \<Longrightarrow> Q () h' (runs [L_Instr (Some (inverted, p)) m ops] W)"
  shows "wp (guarded_instr p inverted m ops) Q h W"
  by (rule wp_guarded, rule reaches_ready [OF assms(1)])
    (use assms(2) reaches_step [OF assms(1)] reaches_busy [OF assms(1)] in auto)

lemma free_from:
  assumes "reaches g B h" and "r \<in> B" and "r < 13" and "\<And>h'. reaches g (B - {r}) h' \<Longrightarrow> Q () h' W"
  shows "wp (free_reg r) Q h W"
  by (rule wp_free) (use assms reaches_step [OF assms(1)] reaches_busy [OF assms(1)] in auto)

lemma reaches_bound: "reaches g B h \<Longrightarrow> B \<subseteq> {..<13}"
  using reaches_ready busy_bound by (fastforce simp: reaches_def)

section \<open>Computations of values\<close>

definition own :: "gvalue \<Rightarrow> nat set" where
  "own v = (if v_owned v then {v_reg v} else {})"

lemma own_simps [simp]: "own (owned r) = {r}" "own (borrowed r) = {}" "v_reg (owned r) = r"
    "v_reg (borrowed r) = r"
  by (simp_all add: own_def owned_def borrowed_def)

text \<open>A register whose content is kept: one in use, or the lane number.\<close>

definition operand :: "nat set \<Rightarrow> nat \<Rightarrow> bool" where
  "operand B r \<longleftrightarrow> r \<in> B \<and> r < 13 \<or> r = LANE_REG"

text \<open>The generators in which the homes of \<open>g0\<close> are still in use.\<close>

definition extends :: "generator \<Rightarrow> generator \<Rightarrow> bool" where
  "extends g0 g \<longleftrightarrow> ready g \<and> surroundings g = surroundings g0 \<and> busy g0 \<subseteq> busy g"

lemma extends_reaches: "extends g0 g \<Longrightarrow> reaches g B h \<Longrightarrow> busy g0 \<subseteq> B \<Longrightarrow> extends g0 h"
  using step_ready [of g h] by (auto simp: extends_def reaches_def) (simp_all add: step_def)

lemma extends_step: "extends g0 g \<Longrightarrow> step g h \<Longrightarrow> busy h = busy g \<Longrightarrow> extends g0 h"
  unfolding extends_def by (metis step_def step_ready)

definition leaves :: "nat set \<Rightarrow> meanings \<Rightarrow> generator \<Rightarrow> nat set \<Rightarrow> nat \<Rightarrow> vec option
    \<Rightarrow> warp option \<Rightarrow> warp option \<Rightarrow> bool" where
  "leaves P m g0 B r f W W' \<longleftrightarrow>
     (\<forall>w x. W = Some w \<longrightarrow> matches m g0 w \<longrightarrow> f = Some x \<longrightarrow>
        (\<exists>w'. W' = Some w' \<and> kept P B w w' \<and> same (w_regs w' r) x))"

text \<open>Behind the computation of a value, the register that it owns was free and is in use.\<close>

definition gives :: "nat set \<Rightarrow> meanings \<Rightarrow> generator \<Rightarrow> vec option \<Rightarrow> generator \<Rightarrow> nat set \<Rightarrow> warp option
    \<Rightarrow> gvalue \<Rightarrow> generator \<Rightarrow> warp option \<Rightarrow> bool" where
  "gives P m g0 f g B W v g' W' \<longleftrightarrow>
     own v \<inter> B = {} \<and> own v \<subseteq> {..<13} \<and> operand (busy g0 \<union> own v) (v_reg v) \<and> reaches g (B \<union> own v) g'
     \<and> leaves P m g0 B (v_reg v) f W W'"

definition computes :: "nat set \<Rightarrow> meanings \<Rightarrow> generator \<Rightarrow> vec option \<Rightarrow> gvalue gm \<Rightarrow> bool" where
  "computes P m g0 f c \<longleftrightarrow> (\<forall>g W. extends g0 g \<longrightarrow> wp c (gives P m g0 f g (busy g) W) g W)"

lemma computesI:
  assumes "\<And>g W. extends g0 g \<Longrightarrow> reaches g (busy g) g \<Longrightarrow> busy g0 \<subseteq> busy g
    \<Longrightarrow> wp c (gives P m g0 f g (busy g) W) g W"
  shows "computes P m g0 f c"
  using assms by (auto simp: computes_def extends_def intro: reaches_start)

lemma reaches_comp: "reaches g B h \<Longrightarrow> reaches h C k \<Longrightarrow> reaches g C k"
  by (auto simp: reaches_def intro: step_trans)

lemma value_from:
  assumes "computes P m g0 f c" and "extends g0 g" and "reaches g B h" and "busy g0 \<subseteq> B"
    and "\<And>v h' W'. gives P m g0 f g B W v h' W' \<Longrightarrow> Q v h' W'"
  shows "wp c Q h W"
proof (rule wp_mono)
  show "wp c (gives P m g0 f h (busy h) W) h W"
    using assms(1) extends_reaches [OF assms(2,3,4)] by (simp add: computes_def)
  fix v h' W'
  assume "gives P m g0 f h (busy h) W v h' W'"
  then have "gives P m g0 f g B W v h' W'"
    using reaches_busy [OF assms(3)] reaches_comp [OF assms(3)] by (auto simp: gives_def)
  then show "Q v h' W'"
    by (rule assms(5))
qed

section \<open>Release, and results in new registers\<close>

fun releasable :: "nat set \<Rightarrow> gvalue list \<Rightarrow> bool" where
  "releasable B [] = True"
| "releasable B (v # vs) \<longleftrightarrow> own v \<subseteq> B \<and> own v \<subseteq> {..<13} \<and> releasable (B - own v) vs"

lemma releasable_owns: "releasable B vs \<Longrightarrow> (\<Union>v\<in>set vs. own v) \<subseteq> B"
  by (induction vs arbitrary: B) auto

lemma releasable_insert: "releasable B vs \<Longrightarrow> r \<notin> B \<Longrightarrow> releasable (insert r B) vs"
proof (induction vs arbitrary: B)
  case (Cons v vs)
  then have "insert r B - own v = insert r (B - own v)"
    by auto
  with Cons show ?case
    by auto
qed simp

lemma release_from:
  assumes "reaches g B h" and "own v \<subseteq> B" and "\<And>h'. reaches g (B - own v) h' \<Longrightarrow> Q () h' W"
  shows "wp (release v) Q h W"
proof -
  have "B \<subseteq> {..<13}"
    using assms(1) by (rule reaches_bound)
  then show ?thesis
    unfolding release_def
    by (intro wp_only_if free_from [OF assms(1)]) (use assms in \<open>auto simp: own_def\<close>)
qed

lemma releases_from:
  assumes "reaches g B h" and "releasable B vs"
    and "\<And>h'. reaches g (B - (\<Union>v\<in>set vs. own v)) h' \<Longrightarrow> Q () h' W"
  shows "wp (each release vs) Q h W"
  using assms
proof (induction vs arbitrary: h B)
  case Nil
  then show ?case
    by (auto intro: wp_ret)
next
  case (Cons v vs)
  show ?case
    unfolding each.simps
  proof (rule wp_then, rule release_from [OF Cons.prems(1)])
    fix h'
    assume "reaches g (B - own v) h'"
    then show "wp (each release vs) Q h' W"
      by (rule Cons.IH) (use Cons.prems(2,3) in \<open>auto simp: Diff_Un [symmetric] Diff_eq Int_assoc\<close>)
  qed (use Cons.prems(2) in auto)
qed

lemma into_new_from:
  assumes "reaches g B h" and "releasable B vs"
    and "\<And>r h'. r < 13 \<Longrightarrow> r \<notin> B \<Longrightarrow> reaches g (insert r (B - (\<Union>v\<in>set vs. own v))) h'
           \<Longrightarrow> Q (owned r) h' (runs [L_Instr None mn (O_R r # ops)] W)"
  shows "wp (into_new mn ops vs sp) Q h W"
proof -
  have grow: "releasable (insert r B) vs"
    "insert r B - (\<Union>v\<in>set vs. own v) = insert r (B - (\<Union>v\<in>set vs. own v))" if "r \<notin> B" for r
    using releasable_insert [OF assms(2) that] releasable_owns [OF assms(2)] that by auto
  show ?thesis
    unfolding into_new_def
    by (rule wp_bind wp_then wp_ret
      | (rule alloc_from instr_from, (assumption | rule assms(1)))
      | (rule releases_from, assumption, simp add: grow)
      | (rule assms(3), assumption, assumption, simp add: grow))+
qed

end
