(* ===== verification/Codegen_Words.thy ===== *)
theory Codegen_Words
  imports Codegen_Meaning
begin

text \<open>
  The word arithmetic behind the instruction sequences of the generator: signed division and
  remainder through the unsigned ones, the arithmetic shift through two logical ones, signed
  order through a bias of the sign bit.
\<close>

unbundle bit_operations_syntax

section \<open>Signs\<close>

lemma negative_bit: "sint (a :: u32) < 0 \<longleftrightarrow> bit a 31"
  by (simp add: sint_uint signed_take_bit_negative_iff bit_uint_iff)

lemma top_bit: "bit (a :: u32) 31 \<longleftrightarrow> 2 ^ 31 \<le> uint a"
proof -
  have "0 \<le> uint a" "uint a < 2 ^ 32"
    using uint_bounded [of a] by simp_all
  then have "uint a div 2 ^ 31 = (if 2 ^ 31 \<le> uint a then 1 else 0)"
    by auto
  moreover have "bit a 31 \<longleftrightarrow> odd (uint a div 2 ^ 31)"
    by (metis bit_iff_odd bit_uint_iff bit_imp_le_length)
  ultimately show ?thesis
    by auto
qed

lemma sign_bit_le: "0x80000000 \<le> (a :: u32) \<longleftrightarrow> sint a < 0"
  by (simp add: negative_bit top_bit word_le_def)

lemma sint_range: "- (2 ^ 31) \<le> sint (a :: u32)" "sint (a :: u32) < 2 ^ 31"
  using sint_greater_eq [of a] sint_less [of a] by simp_all

lemma uint_of_sint: "uint (a :: u32) = (if sint a < 0 then sint a + 2 ^ 32 else sint a)"
proof -
  have "uint a = sint a mod 2 ^ 32"
    by (simp add: uint_sint take_bit_eq_mod)
  moreover have "(sint a + 2 ^ 32) mod 2 ^ 32 = sint a + 2 ^ 32" if "sint a < 0"
    using that sint_range [of a] by (intro mod_pos_pos_trivial) auto
  moreover have "sint a mod 2 ^ 32 = sint a" if "\<not> sint a < 0"
    using that sint_range [of a] by (intro mod_pos_pos_trivial) auto
  ultimately show ?thesis
    by (auto split: if_splits)
qed

section \<open>Division\<close>

definition magnitude :: "u32 \<Rightarrow> u32" where
  "magnitude a = (if sint a < 0 then - a else a)"

lemma uint_magnitude: "uint (magnitude a) = \<bar>sint a\<bar>"
proof (cases "sint a < 0")
  case True
  have "uint (- a) = (- (sint a + 2 ^ 32)) mod 2 ^ 32"
    using True uint_word_ariths(4) [of a] uint_of_sint [of a] by simp
  also have "- (sint a + 2 ^ 32) = - sint a + (- 1) * 2 ^ 32"
    by simp
  also have "(- sint a + (- 1) * 2 ^ 32) mod 2 ^ 32 = - sint a mod 2 ^ 32"
    by (rule mod_mult_self1)
  also have "- sint a mod 2 ^ 32 = - sint a"
    using True sint_range [of a] by (intro mod_pos_pos_trivial) auto
  finally show ?thesis
    using True by (simp add: magnitude_def)
qed (simp add: magnitude_def uint_of_sint)

lemma sign_xor: "sint (a XOR b :: u32) < 0 \<longleftrightarrow> (sint a < 0) \<noteq> (sint b < 0)"
  by (simp add: negative_bit bit_xor_iff)

lemma minus_word_of_int: "- word_of_int k = (word_of_int (- k) :: u32)"
  by (rule wi_hom_neg)

lemma sint_zero: "sint (b :: u32) = 0 \<longleftrightarrow> b = 0"
  using uint_of_sint [of b] sint_range [of b] by (auto simp: word_uint_eq_iff split: if_splits)

lemma magnitude_zero: "magnitude b = 0 \<longleftrightarrow> b = 0"
proof -
  have "magnitude b = 0 \<longleftrightarrow> sint b = 0"
    using uint_magnitude [of b] by (simp add: word_uint_eq_iff)
  then show ?thesis
    by (simp add: sint_zero)
qed

lemma signed_quotient_code:
  "(let q = (if magnitude b = 0 then 0 else magnitude a div magnitude b)
    in if sint (a XOR b) < 0 then - q else q) = signed_quotient a b"
proof (cases "b = 0")
  case False
  let ?q = "magnitude a div magnitude b"
  have "uint ?q = \<bar>sint a\<bar> div \<bar>sint b\<bar>"
    by (simp only: uint_div uint_magnitude)
  then have q: "?q = word_of_int (\<bar>sint a\<bar> div \<bar>sint b\<bar>)"
    by (metis word_of_int_uint)
  have "sint b \<noteq> 0"
    using False by (simp add: sint_zero)
  then have "sgn (sint a) * sgn (sint b) * (\<bar>sint a\<bar> div \<bar>sint b\<bar>)
      = (if (sint a < 0) \<noteq> (sint b < 0) then - (\<bar>sint a\<bar> div \<bar>sint b\<bar>) else \<bar>sint a\<bar> div \<bar>sint b\<bar>)"
    by (auto simp: sgn_if)
  then show ?thesis
    unfolding signed_quotient_def signed_divide_int_def magnitude_zero q sign_xor
    using False minus_word_of_int by simp
qed (simp add: magnitude_zero signed_quotient_def)

lemma signed_remainder_code:
  "(let q = (if magnitude b = 0 then 0 else magnitude a mod magnitude b)
    in if sint a < 0 then - q else q) = signed_remainder a b"
proof (cases "b = 0")
  case False
  let ?q = "magnitude a mod magnitude b"
  have "uint ?q = \<bar>sint a\<bar> mod \<bar>sint b\<bar>"
    by (simp only: uint_mod uint_magnitude)
  then have q: "?q = word_of_int (\<bar>sint a\<bar> mod \<bar>sint b\<bar>)"
    by (metis word_of_int_uint)
  have "sgn (sint a) * (\<bar>sint a\<bar> mod \<bar>sint b\<bar>)
      = (if sint a < 0 then - (\<bar>sint a\<bar> mod \<bar>sint b\<bar>) else \<bar>sint a\<bar> mod \<bar>sint b\<bar>)"
    by (auto simp: sgn_if)
  then show ?thesis
    unfolding signed_remainder_def signed_modulo_int_def magnitude_zero q
    using False minus_word_of_int by simp
qed (simp add: magnitude_zero signed_remainder_def)

section \<open>Shifts\<close>

text \<open>The fill of an arithmetic shift: all ones for a negative word, moved to the vacated bits.\<close>

lemma shift_amount: "unat (b AND 31 :: u32) = unat b mod 32"
proof -
  have "b AND 31 = take_bit 5 b"
    by (simp add: take_bit_eq_mask mask_eq_exp_minus_1)
  then show ?thesis
    by (simp add: take_bit_eq_mod unat_mod)
qed

lemma bit_signed_shift:
  "n < 32 \<Longrightarrow> bit (signed_drop_bit k a :: u32) n \<longleftrightarrow> bit a (if n + k < 32 then n + k else 31)"
  by (simp add: bit_signed_drop_bit_iff) (auto simp: min_def add.commute)

lemma negated_amount:
  assumes "b \<noteq> 0" and "b < (32 :: u32)"
  shows "unat (- b AND 31) = 32 - unat b"
proof -
  have b: "0 < unat b" "unat b < 32"
    using assms by (simp_all add: word_less_nat_alt unat_gt_0)
  have "unat (- b) = 2 ^ 32 - unat b"
  proof -
    have "uint b mod 2 ^ 32 = uint b"
      using uint_bounded [of b] by (simp add: mod_pos_pos_trivial)
    moreover have "uint b \<noteq> 0"
      using assms(1) by (simp add: word_uint_eq_iff)
    ultimately have "uint (- b) = 2 ^ 32 - uint b"
      using uint_word_ariths(4) [of b] by (simp add: zmod_zminus1_eq_if)
    then have "int (unat (- b)) = 4294967296 - int (unat b)"
      by simp
    then have "unat (- b) = 4294967296 - unat b"
      by linarith
    then show ?thesis
      by simp
  qed
  also have "\<dots> = (32 - unat b) + 32 * 134217727"
    using b by simp
  finally have "unat (- b) mod 32 = (32 - unat b) mod 32"
    by (simp only: mod_mult_self2)
  then show ?thesis
    using b by (simp add: shift_amount)
qed

lemma sign_fill: "- shift_right a 31 = (if bit a 31 then - 1 else 0)"
proof -
  have "drop_bit 31 a = of_bool (bit a 31)"
  proof (rule bit_word_eqI)
    fix n assume "n < LENGTH(32)"
    show "bit (drop_bit 31 a) n \<longleftrightarrow> bit (of_bool (bit a 31) :: u32) n"
      by (cases n) (auto simp: bit_drop_bit_eq bit_1_iff dest: bit_imp_le_length)
  qed
  then show ?thesis
    by (simp add: shift_right_def)
qed

lemma arithmetic_shift_code:
  assumes "b < (32 :: u32)"
  shows "(let s = shift_right a b in if b = 0 then s else s OR shift_left (- shift_right a 31) (- b))
     = signed_drop_bit (unat b) a"
proof (cases "b = 0")
  case True
  then show ?thesis
    by (simp add: shift_right_def)
next
  case False
  have b: "0 < unat b" "unat b < 32"
    using assms False by (simp_all add: word_less_nat_alt unat_gt_0)
  then have amount: "unat (b AND 31) = unat b"
    by (simp add: shift_amount)
  have "shift_right a b OR shift_left (- shift_right a 31) (- b) = signed_drop_bit (unat b) a"
  proof (rule bit_word_eqI)
    fix n assume "n < LENGTH(32)"
    then have n: "n < 32" by simp
    have "bit (shift_right a b) n \<longleftrightarrow> n + unat b < 32 \<and> bit a (n + unat b)"
      using bit_imp_le_length [of a "n + unat b"]
      by (auto simp: shift_right_def amount bit_drop_bit_eq add.commute)
    moreover have "bit (shift_left (- shift_right a 31) (- b)) n \<longleftrightarrow> 32 - unat b \<le> n \<and> bit a 31"
      using n by (auto simp: shift_left_def sign_fill negated_amount [OF False assms] bit_push_bit_iff)
    ultimately show "bit (shift_right a b OR shift_left (- shift_right a 31) (- b)) n
        \<longleftrightarrow> bit (signed_drop_bit (unat b) a) n"
      using n b by (auto simp: bit_or_iff bit_signed_shift)
  qed
  with False show ?thesis
    by (simp add: Let_def)
qed

section \<open>Signed order\<close>

definition bias :: "u32 \<Rightarrow> u32" where
  "bias a = a XOR 0x80000000"

lemma bias_bias [simp]: "bias (bias a) = a"
  by (simp add: bias_def xor.assoc)

lemma bias_sum: "bias a = (if bit a 31 then a - 0x80000000 else a + 0x80000000)"
proof -
  have "bias a = flip_bit 31 a"
    by (simp add: bias_def flip_bit_eq_xor)
  also have "\<dots> = (if bit a 31 then unset_bit 31 a else set_bit 31 a)"
    by (simp add: flip_bit_eq_if)
  finally show ?thesis
    by (simp add: set_bit_eq unset_bit_eq)
qed

lemma uint_bias: "uint (bias a) = sint a + 2 ^ 31"
  using uint_of_sint [of a] sint_range [of a]
  by (auto simp: bias_sum negative_bit [symmetric] uint_sub_if' uint_plus_if' word_size)

lemma bias_less: "bias a < bias b \<longleftrightarrow> a <s b"
  by (simp add: word_less_def uint_bias word_sless_alt)

lemma bias_le: "bias a \<le> bias b \<longleftrightarrow> a <=s b"
  by (simp add: word_le_def uint_bias word_sle_eq)

end
