(* ===== verification/Codegen_Ops.thy ===== *)
theory Codegen_Ops
  imports Codegen_Values Codegen_Words
begin

text \<open>
  The instruction sequences for operators: what \<open>emit_binary\<close> and the methods it calls leave in
  their result register is what the operator means.
\<close>

unbundle bit_operations_syntax

section \<open>Execution of single lines\<close>

lemma write_vector_fields [simp]:
  "w_regs (write_vector d active f w) = (w_regs w)(d := (\<lambda>lane. if active lane then f lane else w_regs w d lane))"
  "w_sregs (write_vector d active f w) = w_sregs w"
  "w_preds (write_vector d active f w) = w_preds w"
  "w_memory (write_vector d active f w) = w_memory w"
  "w_framebuffer (write_vector d active f w) = w_framebuffer w"
  "w_vm_id (write_vector d active f w) = w_vm_id w"
  "w_frame_seq (write_vector d active f w) = w_frame_seq w"
  by (simp_all add: write_vector_def)

lemma write_pred_fields [simp]:
  "w_regs (write_pred p active f w) = w_regs w"
  "w_sregs (write_pred p active f w) = w_sregs w"
  "w_preds (write_pred p active f w) = (w_preds w)(p := (\<lambda>lane. if active lane then f lane else w_preds w p lane))"
  "w_memory (write_pred p active f w) = w_memory w"
  "w_framebuffer (write_pred p active f w) = w_framebuffer w"
  "w_vm_id (write_pred p active f w) = w_vm_id w"
  "w_frame_seq (write_pred p active f w) = w_frame_seq w"
  by (simp_all add: write_pred_def)

lemma lane_active_simps [simp]:
  "lane_active None w = (\<lambda>_. True)"
  "lane_active (Some (inverted, p)) w = (\<lambda>lane. w_preds w p lane \<noteq> inverted)"
  by (simp_all add: lane_active_def fun_eq_iff)

lemma through_scratch_fields [simp]:
  "w_sregs (through_scratch v w) = w_sregs w"
  "w_preds (through_scratch v w) = w_preds w"
  "w_memory (through_scratch v w) = w_memory w"
  "w_framebuffer (through_scratch v w) = w_framebuffer w"
  "w_vm_id (through_scratch v w) = w_vm_id w"
  "w_frame_seq (through_scratch v w) = w_frame_seq w"
  "w_regs (through_scratch v w) = (w_regs w)(SCRATCH := (if fits_inline v then w_regs w SCRATCH else (\<lambda>_. v)))"
  by (simp_all add: through_scratch_def)

lemma run_single:
  "jump_target m ops w = None \<Longrightarrow>
     run [L_Instr guard m ops] w = run_instr (lane_active guard w) m ops w"
  by (simp split: option.splits)

lemma alu_simps [simp]:
  "alu ''ADD'' = Some (+)" "alu ''SUB'' = Some (-)" "alu ''MUL'' = Some (*)"
  "alu ''DIV'' = Some (\<lambda>a b. if b = 0 then 0 else a div b)"
  "alu ''MOD'' = Some (\<lambda>a b. if b = 0 then 0 else a mod b)"
  "alu ''MIN'' = Some min" "alu ''MAX'' = Some max" "alu ''AND'' = Some (AND)" "alu ''OR'' = Some (OR)"
  "alu ''XOR'' = Some (XOR)" "alu ''SHL'' = Some shift_left" "alu ''SHR'' = Some shift_right"
  by (simp_all add: alu_def)

lemma alu_unary_simps [simp]:
  "alu_unary ''MOV'' = Some (\<lambda>a. a)" "alu_unary ''ABS'' = Some magnitude" "alu_unary ''NEG'' = Some uminus"
  "alu_unary ''NOT'' = Some (\<lambda>a. NOT a)"
  by (simp_all add: alu_unary_def magnitude_def fun_eq_iff)

lemma compare_simps [simp]:
  "compare ''CMP_EQ'' = Some (=)" "compare ''CMP_NE'' = Some (\<noteq>)" "compare ''CMP_LT'' = Some (<)"
  "compare ''CMP_LE'' = Some (\<le>)" "compare ''CMP_GT'' = Some (>)" "compare ''CMP_GE'' = Some (\<ge>)"
  by (simp_all add: compare_def)

lemmas machine_simps = run_single run_instr_def run_vector_def run_immediate_def run_two_def run_compare_def
  reduce_def Let_def

section \<open>Results in fresh registers\<close>

definition leaves_op :: "nat set \<Rightarrow> nat set \<Rightarrow> nat \<Rightarrow> (warp \<Rightarrow> vec option) \<Rightarrow> warp option \<Rightarrow> warp option \<Rightarrow> bool" where
  "leaves_op P B r h W W' \<longleftrightarrow>
     (\<forall>w z. W = Some w \<longrightarrow> h w = Some z \<longrightarrow>
        (\<exists>w'. W' = Some w' \<and> kept P B w w' \<and> same (w_regs w' r) z))"

text \<open>A computation over two registers leaves the lanewise result of \<open>f\<close> in a new register.\<close>

definition implements :: "nat set \<Rightarrow> nat \<Rightarrow> nat \<Rightarrow> (u32 \<Rightarrow> u32 \<Rightarrow> u32 option) \<Rightarrow> nat gm \<Rightarrow> bool" where
  "implements P left right f c \<longleftrightarrow>
     (\<forall>g B h W Q. reaches g B h \<longrightarrow> operand B left \<longrightarrow> operand B right \<longrightarrow>
        (\<forall>r h' W'. r < 13 \<longrightarrow> r \<notin> B \<longrightarrow> reaches g (insert r B) h' \<longrightarrow>
           leaves_op P B r (\<lambda>w. pointwise (\<lambda>lane. f (w_regs w left lane) (w_regs w right lane))) W W' \<longrightarrow>
           Q r h' W') \<longrightarrow>
        wp c Q h W)"

lemma implementsI:
  assumes "\<And>g B h W Q. reaches g B h \<Longrightarrow> operand B left \<Longrightarrow> operand B right \<Longrightarrow>
    (\<And>r h' W'. r < 13 \<Longrightarrow> r \<notin> B \<Longrightarrow> reaches g (insert r B) h' \<Longrightarrow>
       leaves_op P B r (\<lambda>w. pointwise (\<lambda>lane. f (w_regs w left lane) (w_regs w right lane))) W W' \<Longrightarrow> Q r h' W')
    \<Longrightarrow> wp c Q h W"
  shows "implements P left right f c"
  using assms unfolding implements_def by blast

lemma wp_implements:
  assumes "implements P left right f c" and "reaches g B h" and "operand B left" and "operand B right"
    and "\<And>r h' W'. r < 13 \<Longrightarrow> r \<notin> B \<Longrightarrow> reaches g (insert r B) h' \<Longrightarrow>
       leaves_op P B r (\<lambda>w. pointwise (\<lambda>lane. f (w_regs w left lane) (w_regs w right lane))) W W' \<Longrightarrow> Q r h' W'"
  shows "wp c Q h W"
  using assms unfolding implements_def by blast

lemma pointwise_total: "pointwise (\<lambda>lane. Some (f lane)) = Some f"
  by (simp add: pointwise_def lanes_defined_def list_all_iff)

lemma pointwise_Some: "pointwise f = Some z \<Longrightarrow> lane < WARP_LANES \<Longrightarrow> f lane = Some (z lane)"
  by (cases "f lane") (force simp: pointwise_def lanes_defined_def list_all_iff split: if_splits)+

lemma implements_three_address:
  assumes "alu m = Some f"
  shows "implements P left right (\<lambda>a b. Some (f a b)) (three_address m left right sp)"
proof (rule implementsI)
  fix g B h W Q
  assume start: "reaches g B h" and regs: "operand B left" "operand B right"
    and Q: "\<And>r h' W'. r < 13 \<Longrightarrow> r \<notin> B \<Longrightarrow> reaches g (insert r B) h' \<Longrightarrow>
      leaves_op P B r (\<lambda>w. pointwise (\<lambda>lane. Some (f (w_regs w left lane) (w_regs w right lane)))) W W' \<Longrightarrow> Q r h' W'"
  have "m \<noteq> ''SHUFFLE''"
    using assms by (auto simp: alu_def)
  then show "wp (three_address m left right sp) Q h W"
    unfolding three_address_def using start
    by (intro wp_bind wp_then wp_ret alloc_from [OF start] instr_from Q; assumption?)
      (use assms in \<open>auto simp: leaves_op_def run_single run_instr_def run_vector_def kept_def LANE_REG_def
        pointwise_total\<close>)
qed

text \<open>New registers: different ones, outside of those in use.\<close>

definition outside :: "nat set \<Rightarrow> nat list \<Rightarrow> bool" where
  "outside B rs \<longleftrightarrow> distinct rs \<and> set rs \<subseteq> {..<13} \<and> set rs \<inter> B = {} \<and> B \<subseteq> {..<13}"

lemma outside_facts:
  assumes "outside B rs" and "r \<in> set rs"
  shows "r \<noteq> SCRATCH" "SCRATCH \<noteq> r" "r \<noteq> LANE_REG" "LANE_REG \<noteq> r" "r \<notin> B" "SCRATCH \<notin> B"
  using assms by (auto simp: outside_def LANE_REG_def SCRATCH_def)

lemma outside_operand:
  assumes "outside B rs" and "r \<in> set rs" and "operand B a"
  shows "r \<noteq> a" "a \<noteq> r" "a \<noteq> SCRATCH" "SCRATCH \<noteq> a"
  using assms by (auto simp: operand_def outside_def LANE_REG_def SCRATCH_def)

lemma lane_not_scratch [simp]: "LANE_REG \<noteq> SCRATCH" "SCRATCH \<noteq> LANE_REG"
  by (simp_all add: LANE_REG_def SCRATCH_def)

lemma outside_two:
  assumes "outside B [r, t]" and "operand B a" and "operand B b"
  shows "r \<noteq> t \<and> t \<noteq> r \<and> r \<noteq> a \<and> a \<noteq> r \<and> r \<noteq> b \<and> b \<noteq> r \<and> t \<noteq> a \<and> a \<noteq> t \<and> t \<noteq> b \<and> b \<noteq> t
    \<and> a \<noteq> SCRATCH \<and> b \<noteq> SCRATCH \<and> r \<noteq> SCRATCH \<and> SCRATCH \<noteq> r \<and> t \<noteq> SCRATCH \<and> SCRATCH \<noteq> t
    \<and> r \<noteq> LANE_REG \<and> LANE_REG \<noteq> r \<and> t \<noteq> LANE_REG \<and> LANE_REG \<noteq> t \<and> r \<notin> B \<and> t \<notin> B \<and> SCRATCH \<notin> B"
  using assms by (auto simp: operand_def outside_def LANE_REG_def SCRATCH_def)

lemma outside_tail: "outside B (r # rs) \<Longrightarrow> outside B rs"
  by (auto simp: outside_def)

lemma outside_first: "outside B [r, s, t] \<Longrightarrow> outside B [r, s]"
  by (auto simp: outside_def)

lemma outside_three: "outside B [r, s, t] \<Longrightarrow> r \<noteq> t \<and> t \<noteq> r"
  by (auto simp: outside_def)

lemmas line_simps = leaves_op_def machine_simps kept_def same_def SIGN_BIT_def

lemma signed_div_lines:
  assumes "operand B left" and "operand B right" and "outside B [out, temp]" and "0 \<notin> P"
  shows "leaves_op P B out (\<lambda>w. pointwise (\<lambda>lane. Some (signed_quotient (w_regs w left lane) (w_regs w right lane)))) W
    (runs [L_Instr (Some (False, 0)) ''NEG'' [O_R out, O_R out]]
    (runs [L_Instr None ''CMP_GE'' [O_P 0, O_R temp, O_Num SIGN_BIT]]
    (runs [L_Instr None ''XOR'' [O_R temp, O_R left, O_R right]]
    (runs [L_Instr None ''DIV'' [O_R out, O_R out, O_R temp]]
    (runs [L_Instr None ''ABS'' [O_R temp, O_R right]]
    (runs [L_Instr None ''ABS'' [O_R out, O_R left]] W))))))"
  using outside_two [OF assms(3,1,2)] assms(4)
  by (auto simp: line_simps sign_bit_le pointwise_total signed_quotient_code [unfolded Let_def, symmetric])

lemma signed_mod_lines:
  assumes "operand B left" and "operand B right" and "outside B [out, temp]" and "0 \<notin> P"
  shows "leaves_op P B out (\<lambda>w. pointwise (\<lambda>lane. Some (signed_remainder (w_regs w left lane) (w_regs w right lane)))) W
    (runs [L_Instr (Some (False, 0)) ''NEG'' [O_R out, O_R out]]
    (runs [L_Instr None ''CMP_GE'' [O_P 0, O_R temp, O_Num SIGN_BIT]]
    (runs [L_Instr None ''MOV'' [O_R temp, O_R left]]
    (runs [L_Instr None ''MOD'' [O_R out, O_R out, O_R temp]]
    (runs [L_Instr None ''ABS'' [O_R temp, O_R right]]
    (runs [L_Instr None ''ABS'' [O_R out, O_R left]] W))))))"
  using outside_two [OF assms(3,1,2)] assms(4)
  by (auto simp: line_simps sign_bit_le pointwise_total signed_remainder_code [unfolded Let_def, symmetric])


lemma compare_lines:
  assumes "operand B left" and "operand B right" and "outside B [out]" and "0 \<notin> P" and "compare m = Some f"
  shows "leaves_op P B out (\<lambda>w. pointwise (\<lambda>lane. Some (truth (f (w_regs w left lane) (w_regs w right lane))))) W
    (runs [L_Instr (Some (False, 0)) ''MOV'' [O_R out, O_Num 1]]
    (runs [L_Instr None ''MOV'' [O_R out, O_Num 0]]
    (runs [L_Instr None m [O_P 0, O_R left, O_R right]] W)))"
  using outside_operand [OF assms(3), of out] outside_facts [OF assms(3), of out] assms
  by (auto simp: line_simps pointwise_total truth_def)

lemma shift_lane:
  assumes "pointwise (\<lambda>lane. if y lane < 32 then Some (signed_drop_bit (unat (y lane)) (x lane)) else None) = Some z"
    and "lane < WARP_LANES"
  shows "z lane = (if y lane = 0 then shift_right (x lane) (y lane)
    else shift_right (x lane) (y lane) OR shift_left (- shift_right (x lane) 31) (- y lane))"
  using pointwise_Some [OF assms] arithmetic_shift_code [of "y lane" "x lane"]
  by (auto simp: Let_def split: if_splits)

lemma shift_lines:
  assumes "operand B left" and "operand B right" and "outside B [out, fill, neg]" and "0 \<notin> P"
  shows "leaves_op P B out
    (\<lambda>w. pointwise (\<lambda>lane. if w_regs w right lane < 32
       then Some (signed_drop_bit (unat (w_regs w right lane)) (w_regs w left lane)) else None)) W
    (runs [L_Instr (Some (True, 0)) ''OR'' [O_R out, O_R out, O_R fill]]
    (runs [L_Instr None ''CMP_EQ'' [O_P 0, O_R right, O_Num 0]]
    (runs [L_Instr None ''SHL'' [O_R fill, O_R fill, O_R neg]]
    (runs [L_Instr None ''NEG'' [O_R neg, O_R right]]
    (runs [L_Instr None ''NEG'' [O_R fill, O_R fill]]
    (runs [L_Instr None ''SHR'' [O_R fill, O_R left, O_Num 31]]
    (runs [L_Instr None ''SHR'' [O_R out, O_R left, O_R right]] W)))))))"
  using outside_two [OF outside_tail [OF assms(3)] assms(1,2)] outside_two [OF outside_first [OF assms(3)] assms(1,2)]
    outside_three [OF assms(3)] assms(4)
  by (auto simp: leaves_op_def machine_simps kept_def same_def dest!: shift_lane)


section \<open>Operators\<close>

lemma reaches_outside:
  "reaches g B h \<Longrightarrow> r < 13 \<Longrightarrow> r \<notin> B \<Longrightarrow> outside B [r]"
  "reaches g B h \<Longrightarrow> r < 13 \<Longrightarrow> r \<notin> B \<Longrightarrow> s < 13 \<Longrightarrow> s \<notin> insert r B \<Longrightarrow> outside B [r, s]"
  "reaches g B h \<Longrightarrow> r < 13 \<Longrightarrow> r \<notin> B \<Longrightarrow> s < 13 \<Longrightarrow> s \<notin> insert r B \<Longrightarrow> t < 13 \<Longrightarrow> t \<notin> insert s (insert r B)
     \<Longrightarrow> outside B [r, s, t]"
  using reaches_bound [of g B h] by (auto simp: outside_def)

lemma implements_signed_div:
  assumes "0 \<notin> P"
  shows "implements P left right (\<lambda>a b. Some (signed_quotient a b)) (signed_div_mod B_Div left right sp)"
proof (rule implementsI)
  fix g B h W Q
  assume start: "reaches g B h" and regs: "operand B left" "operand B right"
    and Q: "\<And>r h' W'. r < 13 \<Longrightarrow> r \<notin> B \<Longrightarrow> reaches g (insert r B) h' \<Longrightarrow>
      leaves_op P B r (\<lambda>w. pointwise (\<lambda>lane. Some (signed_quotient (w_regs w left lane) (w_regs w right lane)))) W W' \<Longrightarrow> Q r h' W'"
  show "wp (signed_div_mod B_Div left right sp) Q h W"
    unfolding signed_div_mod_def if_P [OF HOL.refl]
    by (rule wp_bind wp_then wp_ret
      | (rule alloc_from instr_from guarded_from, (assumption | rule start))
      | (rule free_from, assumption, simp, assumption)
      | (rule Q, assumption, assumption, simp add: insert_Diff_if,
          rule signed_div_lines [OF regs reaches_outside(2) [OF start] assms], assumption+))+
qed

lemma implements_signed_mod:
  assumes "0 \<notin> P"
  shows "implements P left right (\<lambda>a b. Some (signed_remainder a b)) (signed_div_mod B_Mod left right sp)"
proof (rule implementsI)
  fix g B h W Q
  assume start: "reaches g B h" and regs: "operand B left" "operand B right"
    and Q: "\<And>r h' W'. r < 13 \<Longrightarrow> r \<notin> B \<Longrightarrow> reaches g (insert r B) h' \<Longrightarrow>
      leaves_op P B r (\<lambda>w. pointwise (\<lambda>lane. Some (signed_remainder (w_regs w left lane) (w_regs w right lane)))) W W' \<Longrightarrow> Q r h' W'"
  have code: "(if B_Mod = B_Div then a else b) = b" for a b :: 'z
    by simp
  show "wp (signed_div_mod B_Mod left right sp) Q h W"
    unfolding signed_div_mod_def code
    by (rule wp_bind wp_then wp_ret
      | (rule alloc_from instr_from guarded_from, (assumption | rule start))
      | (rule free_from, assumption, simp, assumption)
      | (rule Q, assumption, assumption, simp add: insert_Diff_if,
          rule signed_mod_lines [OF regs reaches_outside(2) [OF start] assms], assumption+))+
qed

lemma implements_arithmetic_shift:
  assumes "0 \<notin> P"
  shows "implements P left right (\<lambda>a b. if b < 32 then Some (signed_drop_bit (unat b) a) else None)
    (arithmetic_shift_right left right sp)"
proof (rule implementsI)
  fix g B h W Q
  assume start: "reaches g B h" and regs: "operand B left" "operand B right"
    and Q: "\<And>r h' W'. r < 13 \<Longrightarrow> r \<notin> B \<Longrightarrow> reaches g (insert r B) h' \<Longrightarrow>
      leaves_op P B r (\<lambda>w. pointwise (\<lambda>lane. if w_regs w right lane < 32
        then Some (signed_drop_bit (unat (w_regs w right lane)) (w_regs w left lane)) else None)) W W' \<Longrightarrow> Q r h' W'"
  show "wp (arithmetic_shift_right left right sp) Q h W"
    unfolding arithmetic_shift_right_def
    by (rule wp_bind wp_then wp_ret
      | (rule alloc_from instr_from guarded_from, (assumption | rule start))
      | (rule free_from, assumption, simp, assumption)
      | (rule Q, assumption, assumption, simp add: insert_Diff_if,
          rule shift_lines [OF regs reaches_outside(3) [OF start] assms], assumption+))+
qed

lemma implements_compare:
  assumes "0 \<notin> P" and "compare m = Some f"
  shows "implements P left right (\<lambda>a b. Some (truth (f a b))) (materialize_compare m left (Some right) 0 sp)"
proof (rule implementsI)
  fix g B h W Q
  assume start: "reaches g B h" and regs: "operand B left" "operand B right"
    and Q: "\<And>r h' W'. r < 13 \<Longrightarrow> r \<notin> B \<Longrightarrow> reaches g (insert r B) h' \<Longrightarrow>
      leaves_op P B r (\<lambda>w. pointwise (\<lambda>lane. Some (truth (f (w_regs w left lane) (w_regs w right lane))))) W W' \<Longrightarrow> Q r h' W'"
  show "wp (materialize_compare m left (Some right) 0 sp) Q h W"
    unfolding materialize_compare_def option.case
    by (rule wp_bind wp_then wp_ret
      | (rule alloc_from instr_from guarded_from, (assumption | rule start))
      | (rule Q, assumption, assumption, simp,
          rule compare_lines [OF regs reaches_outside(1) [OF start] assms], assumption+))+
qed


lemma biased_lines:
  assumes "operand B left" and "operand B right" and "outside B [bl, br]" and "0 \<notin> P"
    and later: "leaves_op P (insert br (insert bl B)) out
      (\<lambda>w. pointwise (\<lambda>lane. Some (truth (f (w_regs w bl lane) (w_regs w br lane)))))
      (runs [L_Instr None ''XOR'' [O_R br, O_R right, O_Num SIGN_BIT]]
      (runs [L_Instr None ''XOR'' [O_R bl, O_R left, O_Num SIGN_BIT]] W)) W'"
  shows "leaves_op P B out
    (\<lambda>w. pointwise (\<lambda>lane. Some (truth (f (bias (w_regs w left lane)) (bias (w_regs w right lane)))))) W W'"
  unfolding leaves_op_def
proof (intro allI impI)
  fix w z
  assume W: "W = Some w"
    and z: "pointwise (\<lambda>lane. Some (truth (f (bias (w_regs w left lane)) (bias (w_regs w right lane))))) = Some z"
  note facts = outside_two [OF assms(3,1,2)]
  let ?w = "write_vector br (\<lambda>_. True) (\<lambda>lane. bias (w_regs w right lane)) (through_scratch 0x80000000
      (write_vector bl (\<lambda>_. True) (\<lambda>lane. bias (w_regs w left lane)) (through_scratch 0x80000000 w)))"
  have "runs [L_Instr None ''XOR'' [O_R br, O_R right, O_Num SIGN_BIT]]
      (runs [L_Instr None ''XOR'' [O_R bl, O_R left, O_Num SIGN_BIT]] W) = Some ?w"
    using facts W by (simp add: machine_simps SIGN_BIT_def bias_def)
  moreover have "w_regs ?w bl = (\<lambda>lane. bias (w_regs w left lane))" "w_regs ?w br = (\<lambda>lane. bias (w_regs w right lane))"
    using facts by simp_all
  ultimately obtain w' where w': "W' = Some w'" "kept P (insert br (insert bl B)) ?w w'" "same (w_regs w' out) z"
    using later z unfolding leaves_op_def by fastforce
  have "kept P B w ?w"
    using facts by (auto simp: kept_def)
  with w'(2) have "kept P B w w'"
    by (meson kept_trans subset_insertI2 subset_insertI)
  with w' show "\<exists>w'. W' = Some w' \<and> kept P B w w' \<and> same (w_regs w' out) z"
    by auto
qed

lemma implements_biased:
  assumes "0 \<notin> P" and "compare (mnemonic_of op) = Some f"
  shows "implements P left right (\<lambda>a b. Some (truth (f (bias a) (bias b)))) (relational op left right T_I32 sp)"
proof (rule implementsI)
  fix g B h W Q
  assume start: "reaches g B h" and regs: "operand B left" "operand B right"
    and Q: "\<And>r h' W'. r < 13 \<Longrightarrow> r \<notin> B \<Longrightarrow> reaches g (insert r B) h' \<Longrightarrow>
      leaves_op P B r (\<lambda>w. pointwise (\<lambda>lane. Some (truth (f (bias (w_regs w left lane)) (bias (w_regs w right lane)))))) W W' \<Longrightarrow> Q r h' W'"
  have sets: "insert out (insert br (insert bl B)) - {br} - {bl} = insert out B"
    if "bl \<notin> B" "br \<notin> insert bl B" "out \<notin> insert br (insert bl B)" for out br bl
    using that by auto
  show "wp (relational op left right T_I32 sp) Q h W"
    unfolding relational_def simp_thms if_False
    by (rule wp_bind wp_then wp_ret
      | (rule alloc_from instr_from, (assumption | rule start))
      | (rule wp_implements [OF implements_compare [OF assms]], assumption, simp add: operand_def, simp add: operand_def)
      | (rule free_from, assumption, simp, assumption)
      | (rule Q, assumption, simp, simp add: sets,
          rule biased_lines [OF regs reaches_outside(2) [OF start] assms(1)], assumption+))+
qed

lemma implements_emit_binary:
  assumes "0 \<notin> P" and "binary_meaning op ty = Some f"
  shows "implements P left right f (emit_binary op left right ty sp)"
proof -
  have unsigned: "relational op left right ty sp = materialize_compare (mnemonic_of op) left (Some right) 0 sp"
    if "ty \<noteq> T_I32" for op
    using that by (simp add: relational_def)
  note rules = implements_three_address implements_signed_div [OF assms(1)] implements_signed_mod [OF assms(1)]
    implements_arithmetic_shift [OF assms(1)] implements_compare [OF assms(1)] implements_biased [OF assms(1)]
  show ?thesis
  proof (cases "ty = T_I32")
    case True
    show ?thesis
      using assms(2) True
      by (cases op) (auto simp: binary_meaning_def emit_binary_def mnemonic_of_def Let_def
          simp flip: bias_less bias_le intro!: rules)
  next
    case False
    have quotient: "(\<lambda>a b. Some (a div b)) = (\<lambda>a b :: u32. Some (if b = 0 then 0 else a div b))"
      by (simp add: fun_eq_iff)
    show ?thesis
      using assms(2) False
      by (cases op) (auto simp: binary_meaning_def emit_binary_def mnemonic_of_def Let_def unsigned
          simp del: div_by_0 simp: quotient intro!: rules)
  qed
qed

end
