(* ===== verification/Codegen_Correct.thy ===== *)
theory Codegen_Correct
  imports Codegen_Ops
begin

text \<open>
  The code of each kind of expression computes the meaning of the expression, given that the
  code of its parts does. The last section puts the cases together.
\<close>

unbundle bit_operations_syntax

section \<open>Sequences of computations\<close>

lemma leaves_bind:
  assumes "leaves P m g0 B a f W W1" and "busy g0 \<subseteq> B"
    and "\<And>w x y. W1 = Some w \<Longrightarrow> matches m g0 w \<Longrightarrow> same (w_regs w a) x \<Longrightarrow> F x = Some y
      \<Longrightarrow> \<exists>w'. W2 = Some w' \<and> kept P B w w' \<and> same (w_regs w' r) y"
  shows "leaves P m g0 B r (Option.bind f F) W W2"
  unfolding leaves_def
proof (intro allI impI)
  fix w z
  assume W: "W = Some w" "matches m g0 w" and z: "Option.bind f F = Some z"
  then obtain x where x: "f = Some x" "F x = Some z"
    by (auto simp: bind_eq_Some_conv)
  with W assms(1) obtain w1 where w1: "W1 = Some w1" "kept P B w w1" "same (w_regs w1 a) x"
    by (auto simp: leaves_def)
  then obtain w2 where "W2 = Some w2" "kept P B w1 w2" "same (w_regs w2 r) z"
    using assms(3) [OF w1(1) matches_kept [OF W(2) w1(2) assms(2)] w1(3) x(2)] by auto
  with w1(2) show "\<exists>w'. W2 = Some w' \<and> kept P B w w' \<and> same (w_regs w' r) z"
    by (auto intro: kept_again)
qed

text \<open>Two values at the same time.\<close>

definition leaves_both :: "nat set \<Rightarrow> meanings \<Rightarrow> generator \<Rightarrow> nat set \<Rightarrow> nat \<Rightarrow> nat \<Rightarrow> vec option \<Rightarrow> vec option
    \<Rightarrow> warp option \<Rightarrow> warp option \<Rightarrow> bool" where
  "leaves_both P m g0 B a b f h W W' \<longleftrightarrow>
     (\<forall>w x y. W = Some w \<longrightarrow> matches m g0 w \<longrightarrow> f = Some x \<longrightarrow> h = Some y \<longrightarrow>
        (\<exists>w'. W' = Some w' \<and> kept P B w w' \<and> same (w_regs w' a) x \<and> same (w_regs w' b) y))"

lemma leaves_both_bind:
  assumes "leaves_both P m g0 B a b f h W W1" and "busy g0 \<subseteq> B"
    and "\<And>w x y z. W1 = Some w \<Longrightarrow> matches m g0 w \<Longrightarrow> same (w_regs w a) x \<Longrightarrow> same (w_regs w b) y
      \<Longrightarrow> F x y = Some z \<Longrightarrow> \<exists>w'. W2 = Some w' \<and> kept P B w w' \<and> same (w_regs w' r) z"
  shows "leaves P m g0 B r (Option.bind f (\<lambda>x. Option.bind h (F x))) W W2"
  unfolding leaves_def
proof (intro allI impI)
  fix w z
  assume W: "W = Some w" "matches m g0 w" and z: "Option.bind f (\<lambda>x. Option.bind h (F x)) = Some z"
  then obtain x y where x: "f = Some x" "h = Some y" "F x y = Some z"
    by (auto simp: bind_eq_Some_conv)
  with W assms(1) obtain w1 where w1: "W1 = Some w1" "kept P B w w1" "same (w_regs w1 a) x" "same (w_regs w1 b) y"
    by (auto simp: leaves_both_def)
  then obtain w2 where "W2 = Some w2" "kept P B w1 w2" "same (w_regs w2 r) z"
    using assms(3) [OF w1(1) matches_kept [OF W(2) w1(2) assms(2)] w1(3,4) x(3)] by auto
  with w1(2) show "\<exists>w'. W2 = Some w' \<and> kept P B w w' \<and> same (w_regs w' r) z"
    by (auto intro: kept_again)
qed

text \<open>The registers of two values: both are free before, and different if both are owned.\<close>

definition gives_both :: "nat set \<Rightarrow> meanings \<Rightarrow> generator \<Rightarrow> vec option \<Rightarrow> vec option \<Rightarrow> generator \<Rightarrow> nat set
    \<Rightarrow> warp option \<Rightarrow> gvalue \<Rightarrow> gvalue \<Rightarrow> generator \<Rightarrow> warp option \<Rightarrow> bool" where
  "gives_both P m g0 f h g B W v u g' W' \<longleftrightarrow>
     own v \<inter> B = {} \<and> own u \<inter> B = {} \<and> own v \<inter> own u = {} \<and> own v \<union> own u \<subseteq> {..<13}
     \<and> operand (busy g0 \<union> own v) (v_reg v) \<and> operand (busy g0 \<union> own u) (v_reg u)
     \<and> reaches g (B \<union> own v \<union> own u) g' \<and> leaves_both P m g0 B (v_reg v) (v_reg u) f h W W'"

lemma gives_one_more:
  assumes "gives P m g0 f g B W v h1 W1" and "gives P m g0 h g (B \<union> own v) W1 u h2 W2"
    and "busy g0 \<subseteq> B"
  shows "gives_both P m g0 f h g B W v u h2 W2"
proof -
  have "leaves_both P m g0 B (v_reg v) (v_reg u) f h W W2"
    unfolding leaves_both_def
  proof (intro allI impI)
    fix w x y
    assume W: "W = Some w" "matches m g0 w" "f = Some x" "h = Some y"
    with assms(1) obtain w1 where w1: "W1 = Some w1" "kept P B w w1" "same (w_regs w1 (v_reg v)) x"
      by (auto simp: gives_def leaves_def)
    with assms(2) W matches_kept [OF W(2) w1(2) assms(3)]
    obtain w2 where w2: "W2 = Some w2" "kept P (B \<union> own v) w1 w2" "same (w_regs w2 (v_reg u)) y"
      by (auto simp: gives_def leaves_def)
    have "w_regs w2 (v_reg v) = w_regs w1 (v_reg v)"
      using assms(1,3) by (intro kept_reg [OF w2(2)]) (auto simp: gives_def operand_def)
    with w1 w2 show "\<exists>w'. W2 = Some w' \<and> kept P B w w' \<and> same (w_regs w' (v_reg v)) x \<and> same (w_regs w' (v_reg u)) y"
      by (metis Un_upper1 kept_trans)
  qed
  with assms(1,2) show ?thesis
    by (auto simp: gives_def gives_both_def operand_def)
qed

text \<open>Around the computation of another value, a value is protected.\<close>

definition prot :: "nat list \<Rightarrow> gvalue \<Rightarrow> nat list" where
  "prot ps v = (if v_reg v < 13 then ps[v_reg v := ps ! v_reg v + 1] else ps)"

lemma length_prot [simp]: "length (prot ps v) = length ps"
  by (simp add: prot_def)

definition with_prot :: "nat list \<Rightarrow> generator \<Rightarrow> generator" where
  "with_prot ps g = g\<lparr>g_protected := ps\<rparr>"

lemma with_prot_simps [simp]:
  "busy (with_prot ps g) = busy g" "g_protected (with_prot ps g) = ps" "with_prot (g_protected g) g = g"
  by (simp_all add: with_prot_def busy_def)

lemma with_prot_extends: "extends g0 g \<Longrightarrow> length ps = 13 \<Longrightarrow> extends g0 (with_prot ps g)"
  by (auto simp: extends_def with_prot_def ready_def ALLOCATABLE_REGS_def surroundings_def busy_def)

lemma reaches_prot:
  assumes "reaches (with_prot ps g) B h" and "length ps = 13" and "length qs = 13"
    and "step h h'" and "busy h' = busy h" and "g_protected h' = qs"
  shows "reaches (with_prot qs g) B h'"
  using assms by (auto simp: reaches_def with_prot_def ready_def step_def surroundings_def ALLOCATABLE_REGS_def)

lemma protect_from:
  assumes "reaches (with_prot ps g) B h" and "length ps = 13"
    and "\<And>h'. reaches (with_prot (prot ps v) g) B h' \<Longrightarrow> Q () h' W"
  shows "wp (protect v) Q h W"
proof (rule wp_protect, rule reaches_ready [OF assms(1)])
  fix h'
  assume h': "busy h' = busy h" "step h h'"
    "g_protected h' = (if v_reg v < 13 then (g_protected h)[v_reg v := g_protected h ! v_reg v + 1] else g_protected h)"
  then have "g_protected h' = prot ps v"
    using assms(1) by (simp add: prot_def reaches_def)
  then show "Q () h' W"
    using assms(2) h'(1,2) by (intro assms(3) reaches_prot [OF assms(1)]) simp_all
qed

lemma unprotect_from:
  assumes "reaches (with_prot (prot ps v) g) B h" and "length ps = 13"
    and "\<And>h'. reaches (with_prot ps g) B h' \<Longrightarrow> Q () h' W"
  shows "wp (unprotect v) Q h W"
proof (rule wp_unprotect [where ps = ps], rule reaches_ready [OF assms(1)])
  show "g_protected h = (if v_reg v < 13 then ps[v_reg v := ps ! v_reg v + 1] else ps)"
    using assms(1) by (simp add: reaches_def prot_def)
  fix h'
  assume "busy h' = busy h" "step h h'" "g_protected h' = ps"
  then show "Q () h' W"
    using assms(2) by (intro assms(3) reaches_prot [OF assms(1)]) simp_all
qed (rule assms(2))

lemma reaches_protected: "reaches g B h \<Longrightarrow> length (g_protected g) = 13"
  by (simp add: reaches_def ready_def ALLOCATABLE_REGS_def)

lemma protected_value_from:
  assumes "computes P m g0 f c" and "extends g0 g" and "reaches g B h" and "busy g0 \<subseteq> B"
    and "\<And>u h' W'. gives P m g0 f g B W u h' W' \<Longrightarrow> wp (k u) Q h' W'"
  shows "wp (mthen (protect v) (mbind c (\<lambda>u. mthen (unprotect v) (k u)))) Q h W"
proof (rule wp_then, rule protect_from [where ps = "g_protected g" and g = g and B = B])
  show "reaches (with_prot (g_protected g) g) B h" and len: "length (g_protected g) = 13"
    using assms(3) reaches_protected by simp_all
  fix h1
  assume h1: "reaches (with_prot (prot (g_protected g) v) g) B h1"
  show "wp (mbind c (\<lambda>u. mthen (unprotect v) (k u))) Q h1 W"
  proof (rule wp_bind, rule value_from [OF assms(1) with_prot_extends [OF assms(2)] h1 assms(4)], simp add: len,
      rule wp_then)
    fix u h2 W2
    assume u: "gives P m g0 f (with_prot (prot (g_protected g) v) g) B W u h2 W2"
    then have "reaches (with_prot (prot (g_protected g) v) g) (B \<union> own u) h2"
      by (simp add: gives_def)
    then show "wp (unprotect v) (\<lambda>_. wp (k u) Q) h2 W2"
      by (rule unprotect_from [OF _ len]) (use u in \<open>auto simp: gives_def intro: assms(5)\<close>)
  qed
qed

lemma operands_from:
  assumes "computes P m g0 f cl" and "computes P m g0 h cr" and "extends g0 g" and "busy g0 \<subseteq> busy g"
    and "\<And>v u h' W'. gives_both P m g0 f h g (busy g) W v u h' W' \<Longrightarrow> Q (v, u) h' W'"
  shows "wp (operands cl cr) Q g W"
  unfolding operands_def
proof (rule wp_bind, rule value_from [OF assms(1,3) reaches_start assms(4)])
  show "ready g"
    using assms(3) by (simp add: extends_def)
  fix v h1 W1
  assume v: "gives P m g0 f g (busy g) W v h1 W1"
  then have "reaches g (busy g \<union> own v) h1"
    by (simp add: gives_def)
  then show "wp (mthen (protect v) (mbind cr (\<lambda>right. mthen (unprotect v) (ret (v, right))))) Q h1 W1"
    by (rule protected_value_from [OF assms(2,3)])
      (use assms(4) in blast, rule wp_ret, rule assms(5), erule gives_one_more [OF v _ assms(4)])
qed

section \<open>One instruction over values\<close>

text \<open>A machine step that writes one register, and perhaps the scratch register.\<close>

definition sets :: "nat \<Rightarrow> vec \<Rightarrow> warp \<Rightarrow> warp \<Rightarrow> bool" where
  "sets r x w w' \<longleftrightarrow>
     (\<forall>q. q \<noteq> r \<longrightarrow> q \<noteq> SCRATCH \<longrightarrow> w_regs w' q = w_regs w q) \<and> w_regs w' r = x
     \<and> w_sregs w' = w_sregs w \<and> w_memory w' = w_memory w \<and> w_framebuffer w' = w_framebuffer w
     \<and> w_vm_id w' = w_vm_id w \<and> w_frame_seq w' = w_frame_seq w \<and> w_preds w' = w_preds w"

lemma sets_kept:
  assumes "sets r x w w'" and "r \<notin> B" and "r < 13" and "B \<subseteq> {..<13}"
  shows "kept P B w w'"
  using assms by (auto simp: sets_def kept_def LANE_REG_def SCRATCH_def)

lemma own_owned_out:
  assumes "r < 13" and "r \<notin> B" and "reaches g (insert r B) h" and "leaves P m g0 B r f W W'"
  shows "gives P m g0 f g B W (owned r) h W'"
  using assms by (auto simp: gives_def operand_def)

lemma computes_constant:
  assumes "\<And>w r. r < 13 \<Longrightarrow> \<exists>w'. run [L_Instr None mn (O_R r # ops)] w = Some w' \<and> sets r (x w) w w'"
    and "\<And>w y. matches m g0 w \<Longrightarrow> f = Some y \<Longrightarrow> same (x w) y"
  shows "computes P m g0 f (into_new mn ops [] sp)"
proof (rule computesI, rule into_new_from, assumption)
  fix g W r h'
  assume g: "reaches g (busy g) g" and r: "r < 13" "r \<notin> busy g"
    and h': "reaches g (insert r (busy g - (\<Union>v\<in>set []. own v))) h'"
  have "leaves P m g0 (busy g) r f W (runs [L_Instr None mn (O_R r # ops)] W)"
    unfolding leaves_def
  proof (intro allI impI)
    fix w y
    assume w: "W = Some w" "matches m g0 w" "f = Some y"
    obtain w' where "run [L_Instr None mn (O_R r # ops)] w = Some w'" "sets r (x w) w w'"
      using assms(1) [OF r(1)] by blast
    then show "\<exists>w'. runs [L_Instr None mn (O_R r # ops)] W = Some w' \<and> kept P (busy g) w w' \<and> same (w_regs w' r) y"
      using w r sets_kept [OF _ r(2,1) reaches_bound [OF g]] assms(2) [OF w(2,3)]
      by (intro exI [of _ w']) (auto simp: sets_def)
  qed
  with r h' show "gives P m g0 f g (busy g) W (owned r) h' (runs [L_Instr None mn (O_R r # ops)] W)"
    by (intro own_owned_out) auto
qed simp

text \<open>An instruction over one value, over two, and over one of two.\<close>

definition maps_one :: "meanings \<Rightarrow> generator \<Rightarrow> string \<Rightarrow> (nat \<Rightarrow> asm_operand list) \<Rightarrow> (vec \<Rightarrow> vec option) \<Rightarrow> bool" where
  "maps_one m g0 mn ops F \<longleftrightarrow>
     (\<forall>w a r x y. r < 13 \<longrightarrow> a \<le> 13 \<longrightarrow> r \<noteq> a \<longrightarrow> same (w_regs w a) x \<longrightarrow> F x = Some y \<longrightarrow> matches m g0 w \<longrightarrow>
        (\<exists>w' z. run [L_Instr None mn (O_R r # ops a)] w = Some w' \<and> sets r z w w' \<and> same z y))"

definition maps_two :: "meanings \<Rightarrow> generator \<Rightarrow> string \<Rightarrow> (nat \<Rightarrow> nat \<Rightarrow> asm_operand list)
    \<Rightarrow> (vec \<Rightarrow> vec \<Rightarrow> vec option) \<Rightarrow> bool" where
  "maps_two m g0 mn ops F \<longleftrightarrow>
     (\<forall>w a b r x y z. r < 13 \<longrightarrow> a \<le> 13 \<longrightarrow> b \<le> 13 \<longrightarrow> r \<noteq> a \<longrightarrow> r \<noteq> b \<longrightarrow>
        same (w_regs w a) x \<longrightarrow> same (w_regs w b) y \<longrightarrow> F x y = Some z \<longrightarrow> matches m g0 w \<longrightarrow>
        (\<exists>w' u. run [L_Instr None mn (O_R r # ops a b)] w = Some w' \<and> sets r u w w' \<and> same u z))"

lemma value_map:
  assumes v: "gives P m g0 f g B W v h1 W1" and g0: "busy g0 \<subseteq> B" and line: "maps_one m g0 mn ops F"
    and Q: "\<And>r h' W'. gives P m g0 (Option.bind f F) g B W (owned r) h' W' \<Longrightarrow> Q (owned r) h' W'"
  shows "wp (into_new mn (ops (v_reg v)) [v] sp) Q h1 W1"
proof (rule into_new_from)
  let ?B = "B \<union> own v"
  show reach: "reaches g ?B h1"
    using v by (simp add: gives_def)
  then have B: "?B \<subseteq> {..<13}"
    by (rule reaches_bound)
  show "releasable ?B [v]"
    using v by (auto simp: gives_def)
  fix r h'
  assume r: "r < 13" "r \<notin> ?B" and h': "reaches g (insert r (?B - (\<Union>v\<in>set [v]. own v))) h'"
  have a: "v_reg v \<le> 13" "r \<noteq> v_reg v"
    using v r B g0 by (auto simp: gives_def operand_def LANE_REG_def)
  have "leaves P m g0 B r (Option.bind f F) W (runs [L_Instr None mn (O_R r # ops (v_reg v))] W1)"
  proof (rule leaves_bind [OF _ g0])
    show "leaves P m g0 B (v_reg v) f W W1"
      using v by (simp add: gives_def)
    fix w x y
    assume w: "W1 = Some w" "matches m g0 w" "same (w_regs w (v_reg v)) x" "F x = Some y"
    then obtain w' z where "run [L_Instr None mn (O_R r # ops (v_reg v))] w = Some w'" "sets r z w w'" "same z y"
      using line r(1) a unfolding maps_one_def by blast
    then show "\<exists>w'. runs [L_Instr None mn (O_R r # ops (v_reg v))] W1 = Some w' \<and> kept P B w w'
        \<and> same (w_regs w' r) y"
      using w(1) r B sets_kept [of r z w w' B P] by (intro exI [of _ w']) (auto simp: sets_def)
  qed
  moreover have "insert r (?B - (\<Union>v\<in>set [v]. own v)) = insert r B"
    using v by (auto simp: gives_def)
  ultimately show "Q (owned r) h' (runs [L_Instr None mn (O_R r # ops (v_reg v))] W1)"
    using r h' by (intro Q own_owned_out) auto
qed

lemma both_map:
  assumes v: "gives_both P m g0 f h g B W v u h1 W1" and g0: "busy g0 \<subseteq> B" and line: "maps_two m g0 mn ops F"
    and Q: "\<And>r h' W'. gives P m g0 (Option.bind f (\<lambda>x. Option.bind h (F x))) g B W (owned r) h' W' \<Longrightarrow> Q (owned r) h' W'"
  shows "wp (into_new mn (ops (v_reg v) (v_reg u)) [v, u] sp) Q h1 W1"
proof (rule into_new_from)
  let ?B = "B \<union> own v \<union> own u" and ?F = "Option.bind f (\<lambda>x. Option.bind h (F x))"
  let ?line = "\<lambda>r. [L_Instr None mn (O_R r # ops (v_reg v) (v_reg u))]"
  show reach: "reaches g ?B h1"
    using v by (simp add: gives_both_def)
  then have B: "?B \<subseteq> {..<13}"
    by (rule reaches_bound)
  show "releasable ?B [v, u]"
    using v by (auto simp: gives_both_def)
  fix r h'
  assume r: "r < 13" "r \<notin> ?B" and h': "reaches g (insert r (?B - (\<Union>v\<in>set [v, u]. own v))) h'"
  have a: "v_reg v \<le> 13" "v_reg u \<le> 13" "r \<noteq> v_reg v" "r \<noteq> v_reg u"
    using v r B g0 by (auto simp: gives_both_def operand_def LANE_REG_def)
  have "leaves P m g0 B r ?F W (runs (?line r) W1)"
  proof (rule leaves_both_bind [OF _ g0])
    show "leaves_both P m g0 B (v_reg v) (v_reg u) f h W W1"
      using v by (simp add: gives_both_def)
    fix w x y z
    assume w: "W1 = Some w" "matches m g0 w" "same (w_regs w (v_reg v)) x" "same (w_regs w (v_reg u)) y" "F x y = Some z"
    then obtain w' s where "run (?line r) w = Some w'" "sets r s w w'" "same s z"
      using line r(1) a unfolding maps_two_def by blast
    then show "\<exists>w'. runs (?line r) W1 = Some w' \<and> kept P B w w' \<and> same (w_regs w' r) z"
      using w(1) r B sets_kept [of r s w w' B P] by (intro exI [of _ w']) (auto simp: sets_def)
  qed
  moreover have "insert r (?B - (\<Union>v\<in>set [v, u]. own v)) = insert r B"
    using v by (auto simp: gives_both_def)
  ultimately show "Q (owned r) h' (runs (?line r) W1)"
    using r h' by (intro Q own_owned_out) auto
qed

lemma gives_both_sym: "gives_both P m g0 f h g B W v u h1 W1 \<Longrightarrow> gives_both P m g0 h f g B W u v h1 W1"
  unfolding gives_both_def leaves_both_def by (simp add: Un_ac Int_commute) blast

lemma both_map_first:
  assumes v: "gives_both P m g0 f h g B W v u h1 W1" and g0: "busy g0 \<subseteq> B" and line: "maps_one m g0 mn ops F"
    and Q: "\<And>r h' W'. gives_both P m g0 (Option.bind f F) h g B W (owned r) u h' W' \<Longrightarrow> Q (owned r) h' W'"
  shows "wp (into_new mn (ops (v_reg v)) [v] sp) Q h1 W1"
proof (rule into_new_from)
  let ?B = "B \<union> own v \<union> own u" and ?line = "\<lambda>r. [L_Instr None mn (O_R r # ops (v_reg v))]"
  show reach: "reaches g ?B h1"
    using v by (simp add: gives_both_def)
  then have B: "?B \<subseteq> {..<13}"
    by (rule reaches_bound)
  show "releasable ?B [v]"
    using v by (auto simp: gives_both_def)
  fix r h'
  assume r: "r < 13" "r \<notin> ?B" and h': "reaches g (insert r (?B - (\<Union>v\<in>set [v]. own v))) h'"
  have a: "v_reg v \<le> 13" "r \<noteq> v_reg v" "r \<noteq> v_reg u"
    using v r B g0 by (auto simp: gives_both_def operand_def LANE_REG_def)
  have "leaves_both P m g0 B r (v_reg u) (Option.bind f F) h W (runs (?line r) W1)"
    unfolding leaves_both_def
  proof (intro allI impI)
    fix w z y
    assume W: "W = Some w" "matches m g0 w" "Option.bind f F = Some z" "h = Some y"
    then obtain x where x: "f = Some x" "F x = Some z"
      by (auto simp: bind_eq_Some_conv)
    with W v obtain w1 where w1: "W1 = Some w1" "kept P B w w1" "same (w_regs w1 (v_reg v)) x" "same (w_regs w1 (v_reg u)) y"
      by (auto simp: gives_both_def leaves_both_def)
    with x(2) matches_kept [OF W(2) w1(2) g0] obtain w' t
      where w': "run (?line r) w1 = Some w'" "sets r t w1 w'" "same t z"
      using line r(1) a(1,2) unfolding maps_one_def by blast
    have "kept P B w1 w'"
      using w'(2) r B by (intro sets_kept) auto
    moreover have "v_reg u \<noteq> SCRATCH"
      using v B g0 by (auto simp: gives_both_def operand_def LANE_REG_def SCRATCH_def)
    ultimately show "\<exists>w'. runs (?line r) W1 = Some w' \<and> kept P B w w' \<and> same (w_regs w' r) z \<and> same (w_regs w' (v_reg u)) y"
      using w1 w' a(3) by (intro exI [of _ w']) (auto simp: sets_def intro: kept_again)
  qed
  moreover have "insert r (?B - (\<Union>v\<in>set [v]. own v)) = B \<union> own (owned r) \<union> own u"
    using v by (auto simp: gives_both_def)
  ultimately show "Q (owned r) h' (runs (?line r) W1)"
    using r h' v B by (intro Q) (auto simp: gives_both_def operand_def)
qed

section \<open>Instructions and their functions\<close>

lemma sets_write: "sets r x w (write_vector r (\<lambda>_. True) x w)"
  by (simp add: sets_def)

lemma sets_write_scratch:
  "r \<noteq> SCRATCH \<Longrightarrow> sets r x w (write_vector r (\<lambda>_. True) x (through_scratch v w))"
  by (simp add: sets_def)

lemma run_sets:
  "run ls w = Some (write_vector r (\<lambda>_. True) z w) \<Longrightarrow> same z y
     \<Longrightarrow> \<exists>z w'. run ls w = Some w' \<and> sets r z w w' \<and> same z y"
  using sets_write by blast

lemma run_sets_scratch:
  "run ls w = Some (write_vector r (\<lambda>_. True) z (through_scratch v w)) \<Longrightarrow> r \<noteq> SCRATCH \<Longrightarrow> same z y
     \<Longrightarrow> \<exists>z w'. run ls w = Some w' \<and> sets r z w w' \<and> same z y"
  using sets_write_scratch by blast

lemma maps_oneI:
  assumes "\<And>w a r x y. r \<noteq> SCRATCH \<Longrightarrow> a \<noteq> SCRATCH \<Longrightarrow> same (w_regs w a) x \<Longrightarrow> F x = Some y \<Longrightarrow> matches m g0 w
      \<Longrightarrow> \<exists>z w'. run [L_Instr None mn (O_R r # ops a)] w = Some w' \<and> sets r z w w' \<and> same z y"
  shows "maps_one m g0 mn ops F"
  unfolding maps_one_def
proof (intro allI impI)
  fix w :: warp and a r :: nat and x y
  assume "r < 13" "a \<le> 13" "same (w_regs w a) x" "F x = Some y" "matches m g0 w"
  then show "\<exists>w' z. run [L_Instr None mn (O_R r # ops a)] w = Some w' \<and> sets r z w w' \<and> same z y"
    using assms [of r a w x y] by (auto simp: SCRATCH_def)
qed

lemma maps_unary:
  assumes "alu_unary mn = Some h" and "mn \<notin> {''LOAD'', ''STORE''}"
  shows "maps_one m g0 mn (\<lambda>a. [O_R a]) (\<lambda>x. Some (\<lambda>lane. h (x lane)))"
proof (rule maps_oneI)
  fix w :: warp and a r :: nat and x y
  assume "same (w_regs w a) x" "Some (\<lambda>lane. h (x lane)) = Some y"
  then show "\<exists>z w'. run [L_Instr None mn (O_R r # [O_R a])] w = Some w' \<and> sets r z w w' \<and> same z y"
    using assms by (intro run_sets [where z = "\<lambda>lane. h (w_regs w a lane)"]) (auto simp: machine_simps same_def)
qed

lemma maps_immediate:
  assumes "alu mn = Some k" and "mn \<notin> {''BROADCAST'', ''SHUFFLE_XOR''}"
  shows "maps_one m g0 mn (\<lambda>a. [O_R a, O_Num n]) (\<lambda>x. Some (\<lambda>lane. k (x lane) (of_nat n)))"
proof (rule maps_oneI)
  fix w :: warp and a r :: nat and x y
  assume "r \<noteq> SCRATCH" "a \<noteq> SCRATCH" "same (w_regs w a) x" "Some (\<lambda>lane. k (x lane) (of_nat n)) = Some y"
  then show "\<exists>z w'. run [L_Instr None mn (O_R r # [O_R a, O_Num n])] w = Some w' \<and> sets r z w w' \<and> same z y"
    using assms by (intro run_sets_scratch [where z = "\<lambda>lane. k (w_regs w a lane) (of_nat n)" and v = "of_nat n"])
      (auto simp: machine_simps same_def)
qed

lemma lane_values_same: "same x y \<Longrightarrow> lane_values x = lane_values y"
  by (simp add: lane_values_def same_def)

lemma same_zero: "same x y \<Longrightarrow> x 0 = y 0"
  by (simp add: same_def WARP_LANES_def)

lemma reduce_same: "reduce mn = Some h \<Longrightarrow> same x y \<Longrightarrow> h x = h y"
  by (auto simp: reduce_def lane_values_same same_zero split: if_splits)

lemma maps_reduce:
  assumes "reduce mn = Some h" and "alu_unary mn = None" and "mn \<notin> {''LOAD'', ''STORE''}"
  shows "maps_one m g0 mn (\<lambda>a. [O_R a]) (\<lambda>x. Some (\<lambda>_. h x))"
proof (rule maps_oneI)
  fix w :: warp and a r :: nat and x y
  assume "same (w_regs w a) x" "Some (\<lambda>_ :: nat. h x) = Some y"
  then show "\<exists>z w'. run [L_Instr None mn (O_R r # [O_R a])] w = Some w' \<and> sets r z w w' \<and> same z y"
    using assms reduce_same [OF assms(1)]
    by (intro run_sets [where z = "\<lambda>_. h (w_regs w a)"]) (auto simp: run_single run_instr_def run_two_def same_def)
qed

lemma maps_load: "maps_one m g0 ''LOAD'' (\<lambda>a. [O_R a]) (loaded m)"
proof (rule maps_oneI)
  fix w :: warp and a r :: nat and x y
  let ?load = "load_word (w_memory w) (w_framebuffer w)"
  assume x: "same (w_regs w a) x" "loaded m x = Some y" "matches m g0 w"
  then have load: "?load (w_regs w a lane) = Some (y lane)" if "lane < WARP_LANES" for lane
    using that pointwise_Some [of "\<lambda>lane. m_load m (x lane)" y lane] by (auto simp: loaded_def same_def matches_def)
  have "load_vector r (\<lambda>_. True) (w_regs w a) w
      = Some (write_vector r (\<lambda>_. True) (\<lambda>lane. case ?load (w_regs w a lane) of None \<Rightarrow> 0 | Some v \<Rightarrow> v) w)"
    using load by (auto simp: load_vector_def list_all_iff)
  then show "\<exists>z w'. run [L_Instr None ''LOAD'' (O_R r # [O_R a])] w = Some w' \<and> sets r z w w' \<and> same z y"
    using load by (intro run_sets) (auto simp: machine_simps same_def)
qed

lemma index_in_range: "unat (v AND 31 :: u32) < WARP_LANES"
  by (simp add: shift_amount WARP_LANES_def)

lemma maps_broadcast:
  "maps_one m g0 ''BROADCAST'' (\<lambda>a. [O_R a, O_Num n]) (\<lambda>x. Some (\<lambda>_. x (unat (of_nat n AND 31 :: u32))))"
proof (rule maps_oneI)
  fix w :: warp and a r :: nat and x y
  assume "same (w_regs w a) x" "Some (\<lambda>_ :: nat. x (unat (of_nat n AND 31 :: u32))) = Some y"
  then show "\<exists>z w'. run [L_Instr None ''BROADCAST'' (O_R r # [O_R a, O_Num n])] w = Some w' \<and> sets r z w w' \<and> same z y"
    using index_in_range [of "of_nat n"]
    by (intro run_sets [where z = "\<lambda>_. w_regs w a (unat (of_nat n AND 31 :: u32))"]) (auto simp: machine_simps same_def)
qed

lemma lane_xor_in_range:
  assumes "lane < WARP_LANES"
  shows "lane XOR unat (v AND 31 :: u32) < WARP_LANES"
proof -
  have "take_bit 5 lane = lane" "take_bit 5 (unat (v AND 31)) = unat (v AND 31)"
    using assms index_in_range [of v] by (simp_all add: take_bit_nat_eq_self_iff WARP_LANES_def)
  then have "take_bit 5 (lane XOR unat (v AND 31)) = lane XOR unat (v AND 31)"
    by (simp only: take_bit_xor)
  then show ?thesis
    using take_bit_nat_less_exp [of 5 "lane XOR unat (v AND 31)"] by (simp only: WARP_LANES_def) simp
qed

lemma maps_shuffle_xor:
  "maps_one m g0 ''SHUFFLE_XOR'' (\<lambda>a. [O_R a, O_Num n]) (\<lambda>x. Some (\<lambda>lane. x (lane XOR unat (of_nat n AND 31 :: u32))))"
proof (rule maps_oneI)
  fix w :: warp and a r :: nat and x y
  assume "same (w_regs w a) x" "Some (\<lambda>lane. x (lane XOR unat (of_nat n AND 31 :: u32))) = Some y"
  then show "\<exists>z w'. run [L_Instr None ''SHUFFLE_XOR'' (O_R r # [O_R a, O_Num n])] w = Some w' \<and> sets r z w w' \<and> same z y"
    using lane_xor_in_range [of _ "of_nat n"]
    by (intro run_sets [where z = "\<lambda>lane. w_regs w a (lane XOR unat (of_nat n AND 31 :: u32))"])
      (auto simp: machine_simps same_def)
qed

lemma maps_alu:
  assumes "alu mn = Some k"
  shows "maps_two m g0 mn (\<lambda>a b. [O_R a, O_R b]) (\<lambda>x y. Some (\<lambda>lane. k (x lane) (y lane)))"
  unfolding maps_two_def
proof (intro allI impI)
  fix w :: warp and a b r :: nat and x y z
  have "mn \<noteq> ''SHUFFLE''"
    using assms by (auto simp: alu_def)
  moreover assume "same (w_regs w a) x" "same (w_regs w b) y" "Some (\<lambda>lane. k (x lane) (y lane)) = Some z"
  ultimately show "\<exists>w' u. run [L_Instr None mn (O_R r # [O_R a, O_R b])] w = Some w' \<and> sets r u w w' \<and> same u z"
    using assms by (subst ex_comm, intro run_sets [where z = "\<lambda>lane. k (w_regs w a lane) (w_regs w b lane)"])
      (auto simp: machine_simps same_def)
qed

lemma maps_shuffle:
  "maps_two m g0 ''SHUFFLE'' (\<lambda>a b. [O_R a, O_R b]) (\<lambda>x y. Some (\<lambda>lane. x (unat (y lane AND 31))))"
  unfolding maps_two_def
proof (intro allI impI)
  fix w :: warp and a b r :: nat and x y z
  assume "same (w_regs w a) x" "same (w_regs w b) y" "Some (\<lambda>lane. x (unat (y lane AND 31))) = Some z"
  then show "\<exists>w' u. run [L_Instr None ''SHUFFLE'' (O_R r # [O_R a, O_R b])] w = Some w' \<and> sets r u w w' \<and> same u z"
    using index_in_range by (subst ex_comm, intro run_sets [where z = "\<lambda>lane. w_regs w a (unat (w_regs w b lane AND 31))"])
      (auto simp: machine_simps same_def)
qed

end
