(* ===== verification/Codegen_Kinds.thy ===== *)
theory Codegen_Kinds
  imports Codegen_Correct
begin

text \<open>
  The cases of \<open>Generator::expr\<close>: constants, locals and memory, operators, pointers and
  intrinsics compute their meanings, given that their parts do.
\<close>

unbundle bit_operations_syntax

section \<open>Combinators\<close>

lemma mthen_ret [simp]: "mthen (ret x) m = m"
  by (simp add: comp_defs)

lemma mthen_assoc: "mthen (mthen a b) c = mthen a (mthen b c)"
  by (simp add: comp_defs fun_eq_iff rbind_def split: sum.splits prod.splits)

lemma mbind_assoc: "mbind (mbind a b) c = mbind a (\<lambda>x. mbind (b x) c)"
  by (simp add: comp_defs fun_eq_iff rbind_def split: sum.splits prod.splits)

lemma mbind_ret [simp]: "mbind (ret x) f = f x"
  by (simp add: comp_defs)

lemma mbind_ret_right [simp]: "mbind m ret = m"
  by (simp add: comp_defs fun_eq_iff rbind_def split: sum.splits prod.splits)

lemma mthen_mbind: "mbind (mthen a b) c = mthen a (mbind b c)"
  by (simp add: comp_defs fun_eq_iff rbind_def split: sum.splits prod.splits)

lemma into_new_unfold:
  "into_new mn ops [] sp = mbind (alloc_reg sp) (\<lambda>out. mthen (emit_instr mn (O_R out # ops)) (ret (owned out)))"
  "into_new mn ops [v] sp = mbind (alloc_reg sp) (\<lambda>out. mthen (emit_instr mn (O_R out # ops))
     (mthen (release v) (ret (owned out))))"
  by (simp_all add: into_new_def mthen_assoc)

lemma computes_bind_one:
  assumes "computes P m g0 f c" and "maps_one m g0 mn ops F"
  shows "computes P m g0 (Option.bind f F) (mbind c (\<lambda>v. into_new mn (ops (v_reg v)) [v] sp))"
proof (rule computesI)
  fix g W
  assume g: "extends g0 g" "reaches g (busy g) g" "busy g0 \<subseteq> busy g"
  show "wp (mbind c (\<lambda>v. into_new mn (ops (v_reg v)) [v] sp)) (gives P m g0 (Option.bind f F) g (busy g) W) g W"
  proof (rule wp_bind, rule value_from [OF assms(1) g])
    fix v h' W'
    assume "gives P m g0 f g (busy g) W v h' W'"
    then show "wp (into_new mn (ops (v_reg v)) [v] sp) (gives P m g0 (Option.bind f F) g (busy g) W) h' W'"
      by (rule value_map [OF _ g(3) assms(2)])
  qed
qed

lemma computes_bind_two:
  assumes "computes P m g0 f c" and "computes P m g0 h d" and "maps_two m g0 mn ops F"
  shows "computes P m g0 (Option.bind f (\<lambda>x. Option.bind h (F x)))
    (mbind (operands c d) (\<lambda>(v, u). into_new mn (ops (v_reg v) (v_reg u)) [v, u] sp))"
proof (rule computesI)
  fix g W
  assume g: "extends g0 g" "reaches g (busy g) g" "busy g0 \<subseteq> busy g"
  show "wp (mbind (operands c d) (\<lambda>(v, u). into_new mn (ops (v_reg v) (v_reg u)) [v, u] sp))
    (gives P m g0 (Option.bind f (\<lambda>x. Option.bind h (F x))) g (busy g) W) g W"
  proof (rule wp_bind, rule operands_from [OF assms(1,2) g(1,3)], unfold prod.case)
    fix v u h' W'
    assume "gives_both P m g0 f h g (busy g) W v u h' W'"
    then show "wp (into_new mn (ops (v_reg v) (v_reg u)) [v, u] sp)
      (gives P m g0 (Option.bind f (\<lambda>x. Option.bind h (F x))) g (busy g) W) h' W'"
      by (rule both_map [OF _ g(3) assms(3)])
  qed
qed

section \<open>Constants and registers\<close>

lemma computes_immediate: "computes P m g0 (Some (\<lambda>_. of_nat n)) (load_immediate n sp)"
  unfolding load_immediate_def
  by (rule computes_constant [where x = "\<lambda>_ _. of_nat n"]) (auto simp: machine_simps intro: sets_write)

lemma computes_vm_id: "computes P m g0 (Some (\<lambda>_. m_vm_id m)) (into_new ''VMID'' [] [] sp)"
  by (rule computes_constant [where x = "\<lambda>w _. w_vm_id w"])
    (auto simp: machine_simps matches_def intro: sets_write)

lemma gives_borrowed:
  assumes "reaches g B g'" and "operand (busy g0) r"
    and "\<And>w x. matches m g0 w \<Longrightarrow> f = Some x \<Longrightarrow> same (w_regs w r) x"
  shows "gives P m g0 f g B W (borrowed r) g' W"
  using assms by (auto simp: gives_def leaves_def)

lemma computes_lane_id: "computes P m g0 (Some of_nat) (ret (borrowed LANE_REG))"
proof (rule computesI, rule wp_ret)
  fix g W
  assume g: "reaches g (busy g) g"
  then show "gives P m g0 (Some of_nat) g (busy g) W (borrowed LANE_REG) g W"
    by (rule gives_borrowed) (auto simp: operand_def matches_def)
qed

lemma wp_gets_as: "f g = x \<Longrightarrow> Q x g W \<Longrightarrow> wp (gets f) Q g W"
  by (auto intro: wp_gets)

lemma wp_field: "i < length (f g) \<Longrightarrow> Q (f g ! i) g W \<Longrightarrow> wp (field_at f i) Q g W"
  unfolding field_at_def by (intro wp_bind wp_gets wp_lift [where x = "f g ! i"]) (auto simp: index_at_def)

lemma extends_storage: "extends g0 g \<Longrightarrow> g_local_storage g = g_local_storage g0 \<and> g_globals g = g_globals g0
    \<and> g_current_frame_words g = g_current_frame_words g0"
proof -
  assume "extends g0 g"
  then have "surroundings g = surroundings g0"
    by (simp add: extends_def)
  then have "f (surroundings g) = f (surroundings g0)" for f :: "generator \<Rightarrow> 'b"
    by simp
  from this [of g_local_storage] this [of g_globals] this [of g_current_frame_words]
  show ?thesis
    by (simp add: surroundings_def)
qed

section \<open>Addresses\<close>

lemma address_lines:
  assumes "r < 13" and "r \<notin> B" and "B \<subseteq> {..<13}" and "g_local_storage g0 ! i = Some (St_Frame offset)"
    and "fw = g_current_frame_words g0"
    and W1: "W1 = runs [L_Instr None ''S_BCAST'' [O_R r, STACK_POINTER]] W"
    and W2: "W2 = (if fw = 0 then W1 else runs [L_Instr None ''ADD'' [O_R r, O_R r, O_R STACK_ADDR_REG]]
      (runs [L_Instr None ''MUL'' [O_R STACK_ADDR_REG, O_R LANE_REG, O_Num fw]] W1))"
    and W3: "W3 = (if offset = 0 then W2 else runs [L_Instr None ''ADD'' [O_R r, O_R r, O_Num offset]] W2)"
  shows "leaves P m g0 B r (m_address m i) W W3"
  unfolding leaves_def
proof (intro allI impI)
  fix w a
  assume W: "W = Some w" "matches m g0 w" "m_address m i = Some a"
  have "holds_address g0 w i a" and lanes: "same (w_regs w LANE_REG) of_nat"
    using W(2,3) by (simp_all add: matches_def)
  then have a: "same (frame_address g0 w offset) a"
    using assms(4) by (auto simp: holds_address_def)
  have regs: "r \<noteq> LANE_REG" "r \<noteq> STACK_ADDR_REG" "r \<noteq> SCRATCH" "STACK_ADDR_REG \<noteq> LANE_REG" "STACK_ADDR_REG \<noteq> SCRATCH"
    "STACK_ADDR_REG \<notin> B" "SCRATCH \<notin> B"
    using assms(1,3) by (auto simp: LANE_REG_def STACK_ADDR_REG_def SCRATCH_def)
  obtain w1 where w1: "W1 = Some w1" "w_regs w1 r = (\<lambda>_. w_sregs w 7)" "kept P B w w1"
    using W(1) W1 regs assms(2) by (auto simp: machine_simps STACK_POINTER_def kept_def)
  obtain w2 where w2: "W2 = Some w2" "same (w_regs w2 r) (\<lambda>lane. w_sregs w 7 + of_nat lane * of_nat fw)" "kept P B w1 w2"
  proof (cases "fw = 0")
    case True
    then show ?thesis
      using that [of w1] W2 w1 by simp
  next
    case False
    let ?w = "write_vector r (\<lambda>_. True) (\<lambda>lane. w_sregs w 7 + w_regs w1 LANE_REG lane * of_nat fw)
      (write_vector STACK_ADDR_REG (\<lambda>_. True) (\<lambda>lane. w_regs w1 LANE_REG lane * of_nat fw) (through_scratch (of_nat fw) w1))"
    have "W2 = Some ?w"
      using False W2 w1 regs by (simp add: machine_simps)
    moreover have "same (w_regs ?w r) (\<lambda>lane. w_sregs w 7 + of_nat lane * of_nat fw)"
      using lanes w1(3) by (auto simp: same_def kept_def)
    moreover have "kept P B w1 ?w"
      using regs assms(2) by (auto simp: kept_def)
    ultimately show ?thesis
      by (rule that)
  qed
  have "\<exists>w3. W3 = Some w3 \<and> same (w_regs w3 r) (frame_address g0 w offset) \<and> kept P B w2 w3"
    using W3 w2 regs assms(2,5)
    by (auto simp: machine_simps kept_def same_def frame_address_def split: if_splits)
  then show "\<exists>w'. W3 = Some w' \<and> kept P B w w' \<and> same (w_regs w' r) a"
    using kept_again [OF w1(3) w2(3)] a by (auto simp: same_def intro: kept_again)
qed

lemma computes_local_address:
  assumes "i < length (g_local_storage g0)" and "g_local_storage g0 ! i = Some (St_Frame offset)"
  shows "computes P m g0 (m_address m i) (local_address i sp)"
proof (rule computesI)
  fix g W
  assume g: "extends g0 g" "reaches g (busy g) g" "busy g0 \<subseteq> busy g"
  note fields = extends_storage [OF g(1)]
  have frame: "g_current_frame_words h = g_current_frame_words g0" if "reaches g B h" for B h
    using that fields step_fields(5) [of g h] by (auto simp: reaches_def)
  show "wp (local_address i sp) (gives P m g0 (m_address m i) g (busy g) W) g W"
    unfolding local_address_def local_address_offset_def
  proof (rule wp_bind, rule wp_field)
    show "i < length (g_local_storage g)"
      using fields assms by simp
    let ?Q = "gives P m g0 (m_address m i) g (busy g) W"
    show "wp (case g_local_storage g ! i of Some (St_Frame offset) \<Rightarrow>
         mbind (alloc_reg sp) (\<lambda>out.
         mthen (emit_instr ''S_BCAST'' [O_R out, STACK_POINTER])
         (mbind (gets g_current_frame_words) (\<lambda>frame_words.
          mthen (only_if (frame_words \<noteq> 0)
                   (mthen (emit_instr ''MUL'' [O_R STACK_ADDR_REG, O_R LANE_REG, O_Num frame_words])
                      (emit_instr ''ADD'' [O_R out, O_R out, O_R STACK_ADDR_REG])))
          (mthen (only_if (offset + 0 \<noteq> 0) (emit_instr ''ADD'' [O_R out, O_R out, O_Num (offset + 0)]))
             (ret (owned out))))))
       | _ \<Rightarrow> fails sp ''cannot take address of register-only local'') ?Q g W"
      unfolding fields [THEN conjunct1] assms(2) option.case local_storage.case add_0_right
      by (rule wp_bind wp_then wp_ret
        | (rule alloc_from instr_from, (assumption | rule g(2)))
        | (rule wp_gets_as, rule frame, assumption)
        | rule wp_only_if
        | (rule own_owned_out, assumption, assumption, assumption,
            rule address_lines [OF _ _ reaches_bound [OF g(2)] assms(2)], assumption, assumption,
            rule HOL.refl, rule HOL.refl, simp, simp))+
  qed
qed

lemma computes_global_address:
  assumes "i < length (g_globals g0)"
  shows "computes P m g0 (map_option (\<lambda>a _. a) (m_global m i)) (global_address i sp)"
proof (rule computesI)
  fix g W
  assume g: "extends g0 g" "reaches g (busy g) g" "busy g0 \<subseteq> busy g"
  let ?a = "of_nat (gi_address (g_globals g0 ! i)) :: u32"
  have globals: "g_globals h = g_globals g0" if "reaches g B h" for B h
    using that extends_storage [OF g(1)] step_fields(4) [of g h] by (auto simp: reaches_def)
  have "leaves P m g0 (busy g) r (map_option (\<lambda>a _. a) (m_global m i)) W
      (runs [L_Instr None ''MOV'' [O_R r, O_Num (gi_address (g_globals g0 ! i))]] W)" if "r < 13" "r \<notin> busy g" for r
    using that reaches_bound [OF g(2)]
    by (auto simp: leaves_def machine_simps kept_def same_def matches_def LANE_REG_def)
  then show "wp (global_address i sp) (gives P m g0 (map_option (\<lambda>a _. a) (m_global m i)) g (busy g) W) g W"
    unfolding global_address_def
    by (intro wp_bind alloc_from [OF g(2)] wp_field, simp add: globals assms, unfold globals)
      (auto intro!: wp_then instr_from wp_ret own_owned_out)
qed

lemma computes_member_address:
  assumes "computes P m g0 f c"
  shows "computes P m g0 (map_option (\<lambda>x lane. x lane + of_nat offset) f) (member_address c offset sp)"
proof (cases "offset = 0")
  case True
  with assms show ?thesis
    by (simp add: member_address_def option.map_ident)
next
  case False
  have "map_option (\<lambda>x lane. x lane + of_nat offset) f = Option.bind f (\<lambda>x. Some (\<lambda>lane. x lane + of_nat offset))"
    by (cases f) simp_all
  with False computes_bind_one [OF assms maps_immediate [of "''ADD''" "(+)"], of offset] show ?thesis
    by (simp add: member_address_def)
qed

lemma load_from_into_new: "load_from c sp = mbind c (\<lambda>v. into_new ''LOAD'' [O_R (v_reg v)] [v] sp)"
  by (simp add: load_from_def into_new_unfold)

lemma computes_load:
  "computes P m g0 f c \<Longrightarrow> computes P m g0 (Option.bind f (loaded m)) (load_from c sp)"
  unfolding load_from_into_new by (rule computes_bind_one [OF _ maps_load])

section \<open>Locals\<close>

definition readable :: "generator \<Rightarrow> nat \<Rightarrow> bool" where
  "readable g i \<longleftrightarrow> i < length (g_local_storage g) \<and>
     (case g_local_storage g ! i of
        None \<Rightarrow> False | Some (St_Vector r) \<Rightarrow> r \<in> busy g \<and> r < 13 | Some _ \<Rightarrow> True)"

lemma computes_weaker:
  assumes "computes P m g0 f c" and "\<And>w x. matches m g0 w \<Longrightarrow> h = Some x \<Longrightarrow> \<exists>y. f = Some y \<and> same y x"
  shows "computes P m g0 h c"
  unfolding computes_def
proof (intro allI impI)
  fix g W
  assume "extends g0 g"
  then have "wp c (gives P m g0 f g (busy g) W) g W"
    using assms(1) by (simp add: computes_def)
  then show "wp c (gives P m g0 h g (busy g) W) g W"
  proof (rule wp_mono)
    fix v g' W'
    assume *: "gives P m g0 f g (busy g) W v g' W'"
    then have "leaves P m g0 (busy g) (v_reg v) h W W'"
      using assms(2) by (auto simp: gives_def leaves_def same_def) metis
    with * show "gives P m g0 h g (busy g) W v g' W'"
      by (simp add: gives_def)
  qed
qed

lemma computes_local:
  assumes "readable g0 i"
  shows "computes P m g0 (m_local m i) (load_lvalue (LV_Local i) (local_address i sp) sp)"
proof -
  have i: "i < length (g_local_storage g0)"
    using assms by (simp add: readable_def)
  have held: "holds_local m g0 w i x" if "matches m g0 w" "m_local m i = Some x" for w x
    using that by (simp add: matches_def)
  have load: "computes P m g0 (m_local m i)
      (case g_local_storage g0 ! i of
         Some (St_Vector reg) \<Rightarrow> ret (borrowed reg)
       | Some (St_Scalar reg) \<Rightarrow> into_new ''S_BCAST'' [O_S reg] [] sp
       | Some (St_Frame _) \<Rightarrow> load_from (local_address i sp) sp
       | None \<Rightarrow> no_storage sp)"
  proof (cases "g_local_storage g0 ! i")
    case None
    with assms show ?thesis
      by (simp add: readable_def)
  next
    case (Some home)
    show ?thesis
    proof (cases home)
      case (St_Vector r)
      have "computes P m g0 (m_local m i) (ret (borrowed r))"
      proof (rule computesI, rule wp_ret)
        fix g W
        assume g: "reaches g (busy g) g"
        show "gives P m g0 (m_local m i) g (busy g) W (borrowed r) g W"
          by (rule gives_borrowed [OF g])
            (use assms held Some St_Vector in \<open>auto simp: readable_def operand_def holds_local_def\<close>)
      qed
      with Some St_Vector show ?thesis
        by simp
    next
      case (St_Scalar s)
      have "computes P m g0 (m_local m i) (into_new ''S_BCAST'' [O_S s] [] sp)"
        by (rule computes_constant [where x = "\<lambda>w _. w_sregs w s"])
          (use held Some St_Scalar in \<open>auto simp: machine_simps holds_local_def intro: sets_write\<close>)
      with Some St_Scalar show ?thesis
        by simp
    next
      case (St_Frame offset)
      have "computes P m g0 (m_local m i) (load_from (local_address i sp) sp)"
      proof (rule computes_weaker [OF computes_load [OF computes_local_address [OF i]]])
        show "g_local_storage g0 ! i = Some (St_Frame offset)"
          using Some St_Frame by simp
        fix w x
        assume "matches m g0 w" "m_local m i = Some x"
        then obtain a where "m_address m i = Some a" "\<forall>lane<WARP_LANES. m_load m (a lane) = Some (x lane)"
          using held Some St_Frame by (fastforce simp: holds_local_def)
        then show "\<exists>y. Option.bind (m_address m i) (loaded m) = Some y \<and> same y x"
          by (auto simp: loaded_def pointwise_def lanes_defined_def list_all_iff same_def)
      qed
      with Some St_Frame show ?thesis
        by simp
    qed
  qed
  show ?thesis
    unfolding computes_def
  proof (intro allI impI)
    fix g W
    assume g: "extends g0 g"
    note storage = extends_storage [OF g, THEN conjunct1]
    show "wp (load_lvalue (LV_Local i) (local_address i sp) sp) (gives P m g0 (m_local m i) g (busy g) W) g W"
      unfolding load_lvalue_def lvalue.case
      by (rule wp_bind, rule wp_field, simp add: storage i)
        (use load g in \<open>simp add: computes_def storage into_new_unfold split: option.splits local_storage.splits\<close>)
  qed
qed

end
