(* ===== verification/Codegen_Operators.thy ===== *)
theory Codegen_Operators
  imports Codegen_Kinds
begin

text \<open>
  The cases of \<open>Generator::expr\<close>, continued: operators and pointers compute their meanings,
  given that their operands do.
\<close>

unbundle bit_operations_syntax

section \<open>A computation behind two operands\<close>

lemma kept_less: "kept P B w w' \<Longrightarrow> C \<subseteq> B \<Longrightarrow> kept P C w w'"
  by (auto simp: kept_def)

lemma pointwise_same:
  assumes "pointwise f = Some z" and "\<And>lane. lane < WARP_LANES \<Longrightarrow> f lane = g lane"
  shows "\<exists>y. pointwise g = Some y \<and> same y z"
proof -
  have "\<And>lane. lane < WARP_LANES \<Longrightarrow> g lane = Some (z lane)"
    using pointwise_Some [OF assms(1)] assms(2) by auto
  then show ?thesis
    by (auto simp: pointwise_def lanes_defined_def list_all_iff same_def)
qed

lemma both_op:
  assumes v: "gives_both P m g0 f h g B W v u h1 W1" and g0: "busy g0 \<subseteq> B"
    and c: "implements P (v_reg v) (v_reg u) F c"
    and vs: "vs = [v, u] \<or> vs = [u, v]"
    and Q: "\<And>r h' W'. gives P m g0 (Option.bind f (\<lambda>x. Option.bind h (\<lambda>y. pointwise (\<lambda>lane. F (x lane) (y lane)))))
      g B W (owned r) h' W' \<Longrightarrow> Q (owned r) h' W'"
  shows "wp (mbind c (\<lambda>out. mthen (each release vs) (ret (owned out)))) Q h1 W1"
proof (rule wp_bind, rule wp_implements [OF c])
  let ?B = "B \<union> own v \<union> own u"
    and ?F = "Option.bind f (\<lambda>x. Option.bind h (\<lambda>y. pointwise (\<lambda>lane. F (x lane) (y lane))))"
  show reach: "reaches g ?B h1"
    using v by (simp add: gives_both_def)
  show "operand ?B (v_reg v)" "operand ?B (v_reg u)"
    using v g0 by (auto simp: gives_both_def operand_def)
  fix r h' W'
  assume r: "r < 13" "r \<notin> ?B" and h': "reaches g (insert r ?B) h'"
    and lines: "leaves_op P ?B r (\<lambda>w. pointwise (\<lambda>lane. F (w_regs w (v_reg v) lane) (w_regs w (v_reg u) lane))) W1 W'"
  have vs': "releasable (insert r ?B) vs" "insert r ?B - (\<Union>v\<in>set vs. own v) = insert r B"
    using v r vs by (auto simp: gives_both_def)
  have "leaves P m g0 B r ?F W W'"
  proof (rule leaves_both_bind [OF _ g0])
    show "leaves_both P m g0 B (v_reg v) (v_reg u) f h W W1"
      using v by (simp add: gives_both_def)
    fix w x y z
    assume w: "W1 = Some w" "same (w_regs w (v_reg v)) x" "same (w_regs w (v_reg u)) y"
      "pointwise (\<lambda>lane. F (x lane) (y lane)) = Some z"
    then obtain t where "pointwise (\<lambda>lane. F (w_regs w (v_reg v) lane) (w_regs w (v_reg u) lane)) = Some t" "same t z"
      using pointwise_same [OF w(4), of "\<lambda>lane. F (w_regs w (v_reg v) lane) (w_regs w (v_reg u) lane)"]
      by (auto simp: same_def)
    with lines w(1) obtain w' where "W' = Some w'" "kept P ?B w w'" "same (w_regs w' r) t"
      by (auto simp: leaves_op_def)
    with \<open>same t z\<close> show "\<exists>w'. W' = Some w' \<and> kept P B w w' \<and> same (w_regs w' r) z"
      by (auto simp: same_def intro: kept_less)
  qed
  then have "wp (ret (owned r)) Q h'' W'" if "reaches g (insert r B) h''" for h''
    using that r by (intro wp_ret Q own_owned_out) auto
  then show "wp (mthen (each release vs) (ret (owned r))) Q h' W'"
    by (intro wp_then releases_from [OF h' vs'(1)]) (simp add: vs'(2))
qed

lemma release_both:
  "mthen (release a) (mthen (release b) c) = mthen (each release [a, b]) c"
  by (simp add: mthen_assoc)

section \<open>Operators\<close>

lemma computes_operator:
  assumes "computes P m g0 f l" and "computes P m g0 h r" and "0 \<notin> P" and "binary_meaning op ty = Some F"
    and "op \<notin> {B_Comma, B_LogicalAnd, B_LogicalOr}"
  shows "computes P m g0 (Option.bind f (\<lambda>x. Option.bind h (\<lambda>y. pointwise (\<lambda>lane. F (x lane) (y lane)))))
    (binary_code op l r ty sp)"
proof (rule computesI)
  fix g W
  assume g: "extends g0 g" "reaches g (busy g) g" "busy g0 \<subseteq> busy g"
  let ?Q = "gives P m g0 (Option.bind f (\<lambda>x. Option.bind h (\<lambda>y. pointwise (\<lambda>lane. F (x lane) (y lane))))) g (busy g) W"
  have "wp (mbind (operands l r) (\<lambda>(left, right).
        mbind (emit_binary op (v_reg left) (v_reg right) ty sp) (\<lambda>out.
        mthen (release left) (mthen (release right) (ret (owned out)))))) ?Q g W"
  proof (rule wp_bind, rule operands_from [OF assms(1,2) g(1,3)], unfold prod.case)
    fix v u h' W'
    assume "gives_both P m g0 f h g (busy g) W v u h' W'"
    then show "wp (mbind (emit_binary op (v_reg v) (v_reg u) ty sp) (\<lambda>out.
        mthen (release v) (mthen (release u) (ret (owned out))))) ?Q h' W'"
      unfolding release_both by (rule both_op [OF _ g(3) implements_emit_binary [OF assms(3,4)]]) simp_all
  qed
  with assms(5) show "wp (binary_code op l r ty sp) ?Q g W"
    by (simp add: binary_code_def)
qed

lemma computes_comma:
  assumes "computes P m g0 f l" and "computes P m g0 h r"
  shows "computes P m g0 (Option.bind f (\<lambda>x. h)) (binary_code B_Comma l r ty sp)"
proof (rule computesI)
  fix g W
  assume g: "extends g0 g" "reaches g (busy g) g" "busy g0 \<subseteq> busy g"
  let ?Q = "gives P m g0 (Option.bind f (\<lambda>x. h)) g (busy g) W"
  have "wp (mbind l (\<lambda>left. mthen (release left) r)) ?Q g W"
  proof (rule wp_bind, rule value_from [OF assms(1) g], rule wp_then)
    fix v h1 W1
    assume v: "gives P m g0 f g (busy g) W v h1 W1"
    show "wp (release v) (\<lambda>_. wp r ?Q) h1 W1"
    proof (rule release_from [where g = g and B = "busy g \<union> own v"])
      show "reaches g (busy g \<union> own v) h1" "own v \<subseteq> busy g \<union> own v"
        using v by (auto simp: gives_def)
      fix h2
      assume "reaches g (busy g \<union> own v - own v) h2"
      then have h2: "reaches g (busy g) h2"
        using v by (auto simp: gives_def Un_Diff Diff_triv Int_commute)
      show "wp r ?Q h2 W1"
      proof (rule value_from [OF assms(2) g(1) h2 g(3)])
        fix u h3 W2
        assume u: "gives P m g0 h g (busy g) W1 u h3 W2"
        have "leaves P m g0 (busy g) (v_reg u) (Option.bind f (\<lambda>x. h)) W W2"
          by (rule leaves_bind [OF _ g(3), where a = "v_reg v"])
            (use u v in \<open>auto simp: gives_def leaves_def\<close>)
        with u show "?Q u h3 W2"
          by (simp add: gives_def)
      qed
    qed
  qed
  then show "wp (binary_code B_Comma l r ty sp) ?Q g W"
    by (simp add: binary_code_def)
qed


lemma not_lines:
  assumes "outside B [r]" and "operand B a" and "0 \<notin> P" and "B' \<subseteq> B" and "W = Some w" and "same (w_regs w a) x"
  shows "\<exists>w'. runs [L_Instr (Some (False, 0)) ''MOV'' [O_R r, O_Num 1]]
      (runs [L_Instr None ''MOV'' [O_R r, O_Num 0]]
      (runs [L_Instr None ''CMP_EQ'' [O_P 0, O_R a, O_Num 0]] W)) = Some w'
    \<and> kept P B' w w' \<and> same (w_regs w' r) (\<lambda>lane. truth (x lane = 0))"
  using outside_operand [OF assms(1) _ assms(2), of r] outside_facts [OF assms(1), of r] assms(3-6)
  by (auto simp: line_simps truth_def)

lemma computes_unary:
  assumes "computes P m g0 f c" and "0 \<notin> P" and "unary_meaning op = Some F"
  shows "computes P m g0 (map_option (\<lambda>x lane. F (x lane)) f) (unary_code op c sp)"
proof -
  have bind: "map_option (\<lambda>x lane. F (x lane)) f = Option.bind f (\<lambda>x. Some (\<lambda>lane. F (x lane)))"
    by (cases f) simp_all
  consider (plus) "op = U_Plus" | (minus) "op = U_Minus" | (bitnot) "op = U_BitNot" | (nots) "op = U_LogicalNot"
    using assms(3) by (auto simp: unary_meaning_def split: unary_op.splits)
  then show ?thesis
  proof cases
    case plus
    then have "F = (\<lambda>a. a)"
      using assms(3) by (simp add: unary_meaning_def)
    with plus assms(1) show ?thesis
      by (simp add: unary_code_def option.map_ident)
  next
    case minus
    then show ?thesis
      using assms computes_bind_one [OF assms(1) maps_unary [of "''NEG''" uminus]]
      unfolding bind by (simp add: unary_meaning_def unary_code_def)
  next
    case bitnot
    then show ?thesis
      using assms computes_bind_one [OF assms(1) maps_unary [of "''NOT''" "\<lambda>a. NOT a"]]
      unfolding bind by (simp add: unary_meaning_def unary_code_def)
  next
    case nots
    then have F: "F = (\<lambda>a. truth (a = 0))"
      using assms(3) by (simp add: unary_meaning_def)
    show ?thesis
      unfolding bind
    proof (rule computesI)
      fix g W
      assume g: "extends g0 g" "reaches g (busy g) g" "busy g0 \<subseteq> busy g"
      let ?Q = "gives P m g0 (Option.bind f (\<lambda>x. Some (\<lambda>lane. F (x lane)))) g (busy g) W"
      have "wp (mbind c (\<lambda>v. mbind (materialize_compare ''CMP_EQ'' (v_reg v) None 0 sp) (\<lambda>out.
          mthen (release v) (ret (owned out))))) ?Q g W"
      proof (rule wp_bind, rule value_from [OF assms(1) g])
        fix v h1 W1
        assume v: "gives P m g0 f g (busy g) W v h1 W1"
        let ?B = "busy g \<union> own v"
        have h1: "reaches g ?B h1" and a: "operand ?B (v_reg v)"
          using v g(3) by (auto simp: gives_def operand_def)
        have sub: "own v \<subseteq> insert r ?B" "insert r ?B - own v = insert r (busy g)" if "r \<notin> ?B" for r
          using v that by (auto simp: gives_def)
        have lines: "leaves P m g0 (busy g) r (Option.bind f (\<lambda>x. Some (\<lambda>lane. F (x lane)))) W
            (runs [L_Instr (Some (False, 0)) ''MOV'' [O_R r, O_Num 1]]
            (runs [L_Instr None ''MOV'' [O_R r, O_Num 0]]
            (runs [L_Instr None ''CMP_EQ'' [O_P 0, O_R (v_reg v), O_Num 0]] W1)))" if "r < 13" "r \<notin> ?B" for r
        proof (rule leaves_bind [OF _ g(3)])
          show "leaves P m g0 (busy g) (v_reg v) f W W1"
            using v by (simp add: gives_def)
        qed (use not_lines [OF reaches_outside(1) [OF h1 that] a assms(2)] F in auto)
        show "wp (mbind (materialize_compare ''CMP_EQ'' (v_reg v) None 0 sp) (\<lambda>out.
            mthen (release v) (ret (owned out)))) ?Q h1 W1"
          unfolding materialize_compare_def option.case
          by (rule wp_bind wp_then wp_ret
            | (rule alloc_from instr_from guarded_from, (assumption | rule h1))
            | (rule release_from, assumption, simp add: sub)
            | (rule own_owned_out, assumption, simp, simp add: sub, rule lines, assumption, assumption))+
      qed
      then show "wp (unary_code op c sp) ?Q g W"
        by (simp add: nots unary_code_def)
    qed
  qed
qed

section \<open>Pointers\<close>

lemma scaled_into_new:
  "scaled scale v sp = (if scale = 1 then ret v else into_new ''MUL'' [O_R (v_reg v), O_Num scale] [v] sp)"
  by (simp add: scaled_def into_new_unfold)

lemma scaled_second:
  assumes "gives_both P m g0 f h g B W v u h1 W1" and "busy g0 \<subseteq> B"
    and Q: "\<And>u h' W'. gives_both P m g0 f (Option.bind h (\<lambda>y. Some (\<lambda>lane. y lane * of_nat scale))) g B W v u h' W'
      \<Longrightarrow> Q u h' W'"
  shows "wp (scaled scale u sp) Q h1 W1"
proof (cases "scale = 1")
  case True
  have "Option.bind h (\<lambda>y. Some (\<lambda>lane. y lane * of_nat scale)) = h"
    using True by (cases h) simp_all
  with True assms(1) Q show ?thesis
    by (auto simp: scaled_into_new intro: wp_ret)
next
  case False
  have maps: "maps_one m g0 ''MUL'' (\<lambda>a. [O_R a, O_Num scale]) (\<lambda>y. Some (\<lambda>lane. y lane * of_nat scale))"
    by (rule maps_immediate) simp_all
  show ?thesis
    unfolding scaled_into_new if_not_P [OF False]
    by (rule both_map_first [OF gives_both_sym [OF assms(1)] assms(2) maps], rule Q, erule gives_both_sym)
qed

lemma computes_pointer_add:
  assumes "computes P m g0 f p" and "computes P m g0 h i"
  shows "computes P m g0 (Option.bind f (\<lambda>x. Option.bind h (\<lambda>y.
      Some (\<lambda>lane. if subtract then x lane - y lane * of_nat scale else x lane + y lane * of_nat scale))))
    (pointer_add_code p i scale subtract sp)"
proof -
  let ?F = "\<lambda>x z. Some (\<lambda>lane. (if subtract then (-) else (+)) (x lane) (z lane :: u32))"
  have maps: "maps_two m g0 (if subtract then ''SUB'' else ''ADD'') (\<lambda>a b. [O_R a, O_R b]) ?F"
    by (rule maps_alu) simp
  have "computes P m g0 (Option.bind f (\<lambda>x. Option.bind (Option.bind h (\<lambda>y. Some (\<lambda>lane. y lane * of_nat scale))) (?F x)))
    (pointer_add_code p i scale subtract sp)"
    unfolding pointer_add_code_def
    by (rule computesI, rule wp_bind, rule operands_from [OF assms], assumption, assumption, unfold prod.case, rule wp_bind,
        rule scaled_second, assumption, assumption, rule both_map [OF _ _ maps])
  then show ?thesis
    by (cases f; cases h; cases subtract) simp_all
qed

lemma computes_pointer_diff:
  assumes "computes P m g0 f l" and "computes P m g0 h r" and "0 \<notin> P"
  shows "computes P m g0 (Option.bind f (\<lambda>x. Option.bind h (\<lambda>y.
      Some (\<lambda>lane. if scale = 1 then x lane - y lane else signed_quotient (x lane - y lane) (of_nat scale)))))
    (pointer_diff_code l r scale sp)"
proof (rule computesI)
  fix g W
  assume g: "extends g0 g" "reaches g (busy g) g" "busy g0 \<subseteq> busy g"
  let ?f = "Option.bind f (\<lambda>x. Option.bind h (\<lambda>y.
      Some (\<lambda>lane. if scale = 1 then x lane - y lane else signed_quotient (x lane - y lane) (of_nat scale))))"
    and ?d = "Option.bind f (\<lambda>x. Option.bind h (\<lambda>y. Some (\<lambda>lane. x lane - y lane)))"
    and ?k = "Some (\<lambda>_. of_nat scale)"
  have maps: "maps_two m g0 ''SUB'' (\<lambda>a b. [O_R a, O_R b]) (\<lambda>x y. Some (\<lambda>lane. x lane - y lane))"
    by (rule maps_alu) simp
  have code: "mbind (alloc_reg sp) (\<lambda>divisor.
         mthen (emit_instr ''MOV'' [O_R divisor, O_Num scale])
         (mbind (signed_div_mod B_Div (v_reg (owned d)) divisor sp) (\<lambda>out.
          mthen (free_reg divisor) (mthen (free_reg (v_reg (owned d))) (ret (owned out))))))
     = mbind (load_immediate scale sp) (\<lambda>k.
         mbind (signed_div_mod B_Div d (v_reg k) sp) (\<lambda>out. mthen (each release [k, owned d]) (ret (owned out))))" for d
    by (simp add: load_immediate_def into_new_unfold mbind_assoc mthen_mbind mthen_assoc release_def owned_def only_if_def)
  show "wp (pointer_diff_code l r scale sp) (gives P m g0 ?f g (busy g) W) g W"
    unfolding pointer_diff_code_def
  proof (rule wp_bind, rule operands_from [OF assms(1,2) g(1,3)], unfold prod.case, rule wp_bind, rule both_map [OF _ g(3) maps],
      assumption)
    fix d h1 W1
    assume d: "gives P m g0 ?d g (busy g) W (owned d) h1 W1"
    then have h1: "reaches g (insert d (busy g)) h1"
      by (simp add: gives_def)
    show "wp (if scale = 1 then ret (owned d)
        else mbind (alloc_reg sp) (\<lambda>divisor.
         mthen (emit_instr ''MOV'' [O_R divisor, O_Num scale])
         (mbind (signed_div_mod B_Div (v_reg (owned d)) divisor sp) (\<lambda>out.
          mthen (free_reg divisor) (mthen (free_reg (v_reg (owned d))) (ret (owned out)))))))
      (gives P m g0 ?f g (busy g) W) h1 W1"
    proof (cases "scale = 1")
      case True
      with d show ?thesis
        by (auto intro: wp_ret)
    next
      case False
      have quotient: "Option.bind ?d (\<lambda>x. Option.bind ?k (\<lambda>y. pointwise (\<lambda>lane. Some (signed_quotient (x lane) (y lane))))) = ?f"
        using False by (cases f; cases h) (simp_all add: pointwise_total)
      have "wp (mbind (load_immediate scale sp) (\<lambda>k.
         mbind (signed_div_mod B_Div d (v_reg k) sp) (\<lambda>out. mthen (each release [k, owned d]) (ret (owned out)))))
        (gives P m g0 ?f g (busy g) W) h1 W1"
      proof (rule wp_bind, rule value_from [OF computes_immediate [where P = P and m = m] g(1) h1], use g(3) in blast)
        fix k h2 W2
        assume "gives P m g0 ?k g (insert d (busy g)) W1 k h2 W2"
        then have both: "gives_both P m g0 ?d ?k g (busy g) W (owned d) k h2 W2"
          by (intro gives_one_more [OF d _ g(3)]) simp
        show "wp (mbind (signed_div_mod B_Div d (v_reg k) sp) (\<lambda>out. mthen (each release [k, owned d]) (ret (owned out))))
          (gives P m g0 ?f g (busy g) W) h2 W2"
          by (rule both_op [OF both g(3)], simp, rule implements_signed_div [OF assms(3)], simp, simp only: quotient)
      qed
      with False show ?thesis
        by (simp only: code if_False)
    qed
  qed
qed

end
