(* ===== verification/Codegen_Lanes.thy ===== *)
theory Codegen_Lanes
  imports Codegen_Operators
begin

text \<open>
  The cases of \<open>Generator::intrinsic\<close>: reductions, votes, shuffles, minimum and maximum, and
  colours compute their meanings, given that their arguments do.
\<close>

unbundle bit_operations_syntax

lemma argument_at [simp]: "i < length cs \<Longrightarrow> argument cs i = cs ! i"
  by (simp add: argument_def index_at_def comp_defs rbind_def)

lemma argument_first: "argument (c # cs) 0 = c"
  by simp

lemma reaches_as: "reaches g A h \<Longrightarrow> A = B \<Longrightarrow> reaches g B h"
  by simp

section \<open>Reductions and signed orders\<close>

lemma sum_lanes: "foldl (+) (c :: u32) xs = c + sum_list xs"
  by (induction xs arbitrary: c) (simp_all add: add.assoc)

definition signed_min :: "u32 \<Rightarrow> u32 \<Rightarrow> u32" where
  "signed_min a b = (if a <=s b then a else b)"

definition signed_max :: "u32 \<Rightarrow> u32 \<Rightarrow> u32" where
  "signed_max a b = (if a <=s b then b else a)"

lemma biased_min: "min (bias a) (bias b) = bias (signed_min a b)"
  by (simp add: min_def signed_min_def bias_le)

lemma biased_max: "max (bias a) (bias b) = bias (signed_max a b)"
  by (simp add: max_def signed_max_def bias_le)

lemma biased_fold:
  "foldl min (bias c) (map bias xs) = bias (foldl signed_min c xs)"
  "foldl max (bias c) (map bias xs) = bias (foldl signed_max c xs)"
  by (induction xs arbitrary: c) (simp_all add: biased_min biased_max)

lemma sint_signed:
  "sint (signed_min a b) = min (sint a) (sint b)" "sint (signed_max a b) = max (sint a) (sint b)"
  by (simp_all add: signed_min_def signed_max_def word_sle_eq min_def max_def)

lemma signed_fold_code:
  "signed_fold min x = foldl signed_min (x 0) (lane_values x)"
  "signed_fold max x = foldl signed_max (x 0) (lane_values x)"
proof -
  have "foldl min (sint c) (map sint xs) = sint (foldl signed_min c xs)"
    "foldl max (sint c) (map sint xs) = sint (foldl signed_max c xs)" for c xs
    by (induction xs arbitrary: c) (simp_all flip: sint_signed)
  then show "signed_fold min x = foldl signed_min (x 0) (lane_values x)"
    "signed_fold max x = foldl signed_max (x 0) (lane_values x)"
    by (simp_all add: signed_fold_def)
qed

lemma signed_reduction:
  "bias (foldl min (bias (x 0)) (lane_values (\<lambda>lane. bias (x lane)))) = signed_fold min x"
  "bias (foldl max (bias (x 0)) (lane_values (\<lambda>lane. bias (x lane)))) = signed_fold max x"
proof -
  have "lane_values (\<lambda>lane. bias (x lane)) = map bias (lane_values x)"
    by (simp add: lane_values_def)
  then show "bias (foldl min (bias (x 0)) (lane_values (\<lambda>lane. bias (x lane)))) = signed_fold min x"
    "bias (foldl max (bias (x 0)) (lane_values (\<lambda>lane. bias (x lane)))) = signed_fold max x"
    by (simp_all add: biased_fold signed_fold_code)
qed

text \<open>An instruction with an immediate on the register of a result.\<close>

lemma value_in_place:
  assumes v: "gives P m g0 f g B W (owned r) h1 W1" and g0: "busy g0 \<subseteq> B"
    and k: "alu mn = Some k" "mn \<notin> {''BROADCAST'', ''SHUFFLE_XOR''}"
    and Q: "\<And>h' W'. gives P m g0 (Option.bind f (\<lambda>x. Some (\<lambda>lane. k (x lane) (of_nat n)))) g B W (owned r) h' W'
      \<Longrightarrow> Q () h' W'"
  shows "wp (emit_instr mn [O_R r, O_R r, O_Num n]) Q h1 W1"
proof (rule instr_from)
  show reach: "reaches g (insert r B) h1"
    using v by (simp add: gives_def)
  fix h'
  assume h': "reaches g (insert r B) h'"
  have r: "r < 13" "r \<notin> B" "r \<noteq> SCRATCH" "r \<noteq> LANE_REG" "SCRATCH \<notin> B"
    using v reaches_bound [OF reach] by (auto simp: gives_def LANE_REG_def SCRATCH_def)
  have "leaves P m g0 B r (Option.bind f (\<lambda>x. Some (\<lambda>lane. k (x lane) (of_nat n)))) W
      (runs [L_Instr None mn [O_R r, O_R r, O_Num n]] W1)"
  proof (rule leaves_bind [OF _ g0])
    show "leaves P m g0 B r f W W1"
      using v by (simp add: gives_def)
  qed (use r k in \<open>auto simp: machine_simps kept_def same_def\<close>)
  with r h' show "Q () h' (runs [L_Instr None mn [O_R r, O_R r, O_Num n]] W1)"
    by (intro Q own_owned_out) auto
qed

lemma xor_bias: "maps_one m g0 ''XOR'' (\<lambda>a. [O_R a, O_Num SIGN_BIT]) (\<lambda>x. Some (\<lambda>lane. bias (x lane)))"
  using maps_immediate [of "''XOR''" "(XOR)" m g0 SIGN_BIT] by (simp add: bias_def SIGN_BIT_def)

lemma computes_reduce_signed:
  assumes "computes P m g0 f c" and "i \<in> {I_ReduceMinSigned, I_ReduceMaxSigned}"
  shows "computes P m g0 (Option.bind f (\<lambda>x. Some (\<lambda>_. signed_fold (if i = I_ReduceMinSigned then min else max) x)))
    (reduce_signed_code i [c] sp)"
proof (rule computesI)
  fix g W
  assume g: "extends g0 g" "reaches g (busy g) g" "busy g0 \<subseteq> busy g"
  let ?mn = "if i = I_ReduceMinSigned then ''REDUCE_MIN'' else ''REDUCE_MAX''"
    and ?h = "\<lambda>x. foldl (if i = I_ReduceMinSigned then min else max) (x 0) (lane_values x)"
    and ?s = "\<lambda>x. signed_fold (if i = I_ReduceMinSigned then min else max) x"
  have reduce: "maps_one m g0 ?mn (\<lambda>a. [O_R a]) (\<lambda>x. Some (\<lambda>_. ?h x))"
    by (rule maps_reduce) (auto simp: reduce_def alu_unary_def)
  have code: "reduce_signed_code i [c] sp = mbind c (\<lambda>v.
     mbind (into_new ''XOR'' [O_R (v_reg v), O_Num SIGN_BIT] [v] sp) (\<lambda>biased.
     mbind (alloc_reg sp) (\<lambda>out.
     mthen (emit_instr ?mn [O_R out, O_R (v_reg biased)])
     (mthen (free_reg (v_reg biased))
     (mthen (emit_instr ''XOR'' [O_R out, O_R out, O_Num SIGN_BIT]) (ret (owned out)))))))"
    by (simp add: reduce_signed_code_def)
  have tail: "mbind (alloc_reg sp) (\<lambda>out.
     mthen (emit_instr ?mn [O_R out, O_R (v_reg (owned b))])
     (mthen (free_reg (v_reg (owned b)))
     (mthen (emit_instr ''XOR'' [O_R out, O_R out, O_Num SIGN_BIT]) (ret (owned out)))))
   = mbind (into_new ?mn [O_R b] [owned b] sp) (\<lambda>out.
       mthen (emit_instr ''XOR'' [O_R (v_reg out), O_R (v_reg out), O_Num SIGN_BIT]) (ret out))" for b
    by (simp add: into_new_unfold mbind_assoc mthen_mbind release_def owned_def only_if_def)
  let ?f1 = "Option.bind f (\<lambda>x. Some (\<lambda>lane. bias (x lane)))"
  let ?f2 = "Option.bind ?f1 (\<lambda>x. Some (\<lambda>_ :: nat. ?h x))"
  have meaning: "Option.bind ?f2 (\<lambda>x. Some (\<lambda>lane. x lane XOR of_nat SIGN_BIT)) = Option.bind f (\<lambda>x. Some (\<lambda>_. ?s x))"
    using signed_reduction by (cases f) (simp_all add: SIGN_BIT_def flip: bias_def)
  show "wp (reduce_signed_code i [c] sp) (gives P m g0 (Option.bind f (\<lambda>x. Some (\<lambda>_. ?s x))) g (busy g) W) g W"
    unfolding code
  proof (rule wp_bind, rule value_from [OF assms(1) g], rule wp_bind, rule value_map [OF _ g(3) xor_bias], assumption)
    fix b h1 W1
    assume b: "gives P m g0 ?f1 g (busy g) W (owned b) h1 W1"
    have "wp (mbind (into_new ?mn [O_R b] [owned b] sp) (\<lambda>out.
        mthen (emit_instr ''XOR'' [O_R (v_reg out), O_R (v_reg out), O_Num SIGN_BIT]) (ret out)))
      (gives P m g0 (Option.bind f (\<lambda>x. Some (\<lambda>_. ?s x))) g (busy g) W) h1 W1"
    proof (rule wp_bind, rule value_map [OF b g(3) reduce, unfolded own_simps], rule wp_then, unfold own_simps,
        rule value_in_place [OF _ g(3)], assumption, simp, simp, rule wp_ret)
      fix r h' W' h'' W''
      assume "gives P m g0 (Option.bind ?f2 (\<lambda>x. Some (\<lambda>lane. x lane XOR of_nat SIGN_BIT))) g (busy g) W (owned r) h'' W''"
      then show "gives P m g0 (Option.bind f (\<lambda>x. Some (\<lambda>_. ?s x))) g (busy g) W (owned r) h'' W''"
        by (simp only: meaning)
    qed
    then show "wp (mbind (alloc_reg sp) (\<lambda>out.
         mthen (emit_instr ?mn [O_R out, O_R (v_reg (owned b))])
         (mthen (free_reg (v_reg (owned b)))
         (mthen (emit_instr ''XOR'' [O_R out, O_R out, O_Num SIGN_BIT]) (ret (owned out))))))
      (gives P m g0 (Option.bind f (\<lambda>x. Some (\<lambda>_. ?s x))) g (busy g) W) h1 W1"
      by (simp only: tail)
  qed
qed

lemma computes_reduce:
  assumes "computes P m g0 f c" and "reduce mn = Some h" and "alu_unary mn = None" and "mn \<notin> {''LOAD'', ''STORE''}"
  shows "computes P m g0 (Option.bind f (\<lambda>x. Some (\<lambda>_. h x)))
    (mbind (argument [c] 0) (\<lambda>v. into_new mn [O_R (v_reg v)] [v] sp))"
  using computes_bind_one [OF assms(1) maps_reduce [OF assms(2-4)]] by simp

section \<open>Minimum and maximum\<close>

lemma biased_both:
  assumes "gives_both P m g0 f h g B W v u h1 W1" and "busy g0 \<subseteq> B"
    and Q: "\<And>r s h' W'. gives_both P m g0 (Option.bind f (\<lambda>x. Some (\<lambda>lane. bias (x lane))))
      (Option.bind h (\<lambda>x. Some (\<lambda>lane. bias (x lane)))) g B W (owned r) (owned s) h' W' \<Longrightarrow> Q (owned r, owned s) h' W'"
  shows "wp (mbind (into_new ''XOR'' [O_R (v_reg v), O_Num SIGN_BIT] [v] sp) (\<lambda>biased_left.
    mbind (into_new ''XOR'' [O_R (v_reg u), O_Num SIGN_BIT] [u] sp) (\<lambda>biased_right.
      ret (biased_left, biased_right)))) Q h1 W1"
proof (rule wp_bind, rule both_map_first [OF assms(1,2) xor_bias], rule wp_bind,
    rule both_map_first [OF gives_both_sym assms(2) xor_bias], assumption, rule wp_ret, rule Q, rule gives_both_sym)
qed assumption

lemma computes_min_max:
  assumes "computes P m g0 f c" and "computes P m g0 h d"
    and i: "i \<in> {I_MinUnsigned, I_MaxUnsigned, I_MinSigned, I_MaxSigned}"
  shows "computes P m g0 (Option.bind f (\<lambda>x. Option.bind h (\<lambda>y. intrinsic_meaning vm i args [x, y])))
    (min_max_code i [c, d] sp)"
proof -
  let ?mn = "if i = I_MaxSigned \<or> i = I_MaxUnsigned then ''MAX'' else ''MIN''"
    and ?k = "if i = I_MaxSigned \<or> i = I_MaxUnsigned then max else (min :: u32 \<Rightarrow> u32 \<Rightarrow> u32)"
  have maps: "maps_two m g0 ?mn (\<lambda>a b. [O_R a, O_R b]) (\<lambda>x y. Some (\<lambda>lane. ?k (x lane) (y lane)))"
    by (rule maps_alu) simp
  show ?thesis
  proof (cases "i = I_MinSigned \<or> i = I_MaxSigned")
    case False
    have "min_max_code i [c, d] sp = mbind (operands c d) (\<lambda>(v, u). into_new ?mn [O_R (v_reg v), O_R (v_reg u)] [v, u] sp)"
      using False by (simp add: min_max_code_def only_if_def)
    moreover have "intrinsic_meaning vm i args [x, y] = Some (\<lambda>lane. ?k (x lane) (y lane))" for x y
      using False i by (auto simp: intrinsic_meaning_def)
    ultimately show ?thesis
      using computes_bind_two [OF assms(1,2) maps] by (simp only:)
  next
    case True
    let ?b = "\<lambda>f. Option.bind f (\<lambda>x. Some (\<lambda>lane. bias (x lane)))"
    let ?f2 = "Option.bind (?b f) (\<lambda>x. Option.bind (?b h) (\<lambda>y. Some (\<lambda>lane. ?k (x lane) (y lane))))"
    have code: "min_max_code i [c, d] sp = mbind (operands c d) (\<lambda>(v, u).
       mbind (mbind (into_new ''XOR'' [O_R (v_reg v), O_Num SIGN_BIT] [v] sp) (\<lambda>biased_left.
              mbind (into_new ''XOR'' [O_R (v_reg u), O_Num SIGN_BIT] [u] sp) (\<lambda>biased_right.
                ret (biased_left, biased_right)))) (\<lambda>(v, u).
       mbind (into_new ?mn [O_R (v_reg v), O_R (v_reg u)] [v, u] sp) (\<lambda>out.
       mthen (emit_instr ''XOR'' [O_R (v_reg out), O_R (v_reg out), O_Num SIGN_BIT]) (ret out))))"
      using True by (simp add: min_max_code_def only_if_def)
    have meaning: "Option.bind ?f2 (\<lambda>x. Some (\<lambda>lane. x lane XOR of_nat SIGN_BIT))
        = Option.bind f (\<lambda>x. Option.bind h (\<lambda>y. intrinsic_meaning vm i args [x, y]))"
      using True by (cases f; cases h)
        (auto simp: intrinsic_meaning_def SIGN_BIT_def biased_min biased_max signed_min_def signed_max_def
          simp flip: bias_def)
    show ?thesis
      unfolding code
    proof (rule computesI, rule wp_bind, rule operands_from [OF assms(1,2)], assumption, assumption, unfold prod.case,
        rule wp_bind, rule biased_both, assumption, assumption, unfold prod.case,
        rule wp_bind, rule both_map [OF _ _ maps], assumption, assumption, rule wp_then,
        unfold own_simps, rule value_in_place, assumption, assumption, simp, simp, rule wp_ret, simp only: meaning)
    qed
  qed
qed

section \<open>Votes\<close>

lemma reduce_truth:
  "foldl (OR) (truth b) (map (\<lambda>l. truth (q l)) ls) = truth (b \<or> (\<exists>l\<in>set ls. q l))
   \<and> foldl (AND) (truth b) (map (\<lambda>l. truth (q l)) ls) = truth (b \<and> (\<forall>l\<in>set ls. q l))"
proof (induction ls arbitrary: b)
  case (Cons l ls)
  have "truth b OR truth (q l) = truth (b \<or> q l)" "truth b AND truth (q l) = truth (b \<and> q l)"
    by (simp_all add: truth_def)
  with Cons [of "b \<or> q l"] Cons [of "b \<and> q l"] show ?case
    by (simp add: disj_assoc conj_assoc)
qed simp_all

lemma any_lanes:
  "foldl (OR) 0 (lane_values (\<lambda>lane. truth (q lane))) = truth (\<exists>lane\<in>set [0..<WARP_LANES]. q lane)"
  using reduce_truth [of False q] by (simp add: lane_values_def truth_def)

lemma all_lanes:
  "foldl (AND) (- 1) (lane_values (\<lambda>lane. truth (q lane))) = truth (\<forall>lane\<in>set [0..<WARP_LANES]. q lane)"
proof -
  have "[0..<WARP_LANES] = 0 # [1..<WARP_LANES]"
    by (simp add: WARP_LANES_def upt_rec)
  then show ?thesis
    using reduce_truth [of "q 0" q "[1..<WARP_LANES]"] by (simp add: lane_values_def)
qed

lemma vote_lines:
  assumes "n < 13" "n \<notin> B" "n \<noteq> a" "B \<subseteq> {..<13}" "a \<noteq> SCRATCH" "out < 13" "out \<notin> insert n B" "0 \<notin> P"
    and "reduce mn = Some h" "alu_unary mn = None" "mn \<notin> {''LOAD'', ''STORE''}"
    and "W = Some w" "same (w_regs w a) x"
  shows "\<exists>w'. runs [L_Instr None mn [O_R out, O_R n]]
      (runs [L_Instr (Some (False, 0)) ''MOV'' [O_R n, O_Num 1]]
      (runs [L_Instr None ''MOV'' [O_R n, O_Num 0]]
      (runs [L_Instr None ''CMP_NE'' [O_P 0, O_R a, O_Num 0]] W))) = Some w'
    \<and> kept P B w w' \<and> same (w_regs w' out) (\<lambda>_. h (\<lambda>lane. truth (x lane \<noteq> 0)))"
proof -
  have regs: "n \<noteq> SCRATCH" "n \<noteq> LANE_REG" "out \<noteq> SCRATCH" "out \<noteq> LANE_REG" "SCRATCH \<notin> B" "out \<noteq> n"
    using assms by (auto simp: LANE_REG_def SCRATCH_def)
  let ?w = "write_vector n (w_preds (write_pred 0 (\<lambda>_. True) (\<lambda>lane. w_regs w a lane \<noteq> 0) (through_scratch 0 w)) 0) (\<lambda>_. 1)
    (write_vector n (\<lambda>_. True) (\<lambda>_. 0) (write_pred 0 (\<lambda>_. True) (\<lambda>lane. w_regs w a lane \<noteq> 0) (through_scratch 0 w)))"
  have "runs [L_Instr (Some (False, 0)) ''MOV'' [O_R n, O_Num 1]]
      (runs [L_Instr None ''MOV'' [O_R n, O_Num 0]]
      (runs [L_Instr None ''CMP_NE'' [O_P 0, O_R a, O_Num 0]] W)) = Some ?w"
    using assms regs by (simp add: machine_simps)
  moreover have "run [L_Instr None mn [O_R out, O_R n]] ?w = Some (write_vector out (\<lambda>_. True) (\<lambda>_. h (w_regs ?w n)) ?w)"
    using assms(9-11) by (simp add: run_single run_instr_def run_two_def)
  moreover have "same (w_regs ?w n) (\<lambda>lane. truth (x lane \<noteq> 0))"
    using assms(13) by (simp add: same_def truth_def)
  then have "h (w_regs ?w n) = h (\<lambda>lane. truth (x lane \<noteq> 0))"
    by (rule reduce_same [OF assms(9)])
  moreover have "kept P B w (write_vector out (\<lambda>_. True) (\<lambda>_. h (w_regs ?w n)) ?w)"
    using regs assms by (auto simp: kept_def)
  ultimately show ?thesis
    by (intro exI [of _ "write_vector out (\<lambda>_. True) (\<lambda>_. h (w_regs ?w n)) ?w"]) simp
qed

lemma computes_any_all:
  assumes "computes P m g0 f c" and "0 \<notin> P" and i: "i \<in> {I_Any, I_All}"
  shows "computes P m g0 (Option.bind f (\<lambda>x. intrinsic_meaning vm i args [x])) (any_all_code i [c] sp)"
proof -
  let ?mn = "if i = I_Any then ''REDUCE_OR'' else ''REDUCE_AND''"
  let ?h = "if i = I_Any then \<lambda>x. foldl (OR) 0 (lane_values x) else (\<lambda>x. foldl (AND) (- 1) (lane_values x))"
  let ?F = "\<lambda>x. Some (\<lambda>_ :: nat. ?h (\<lambda>lane. truth (x lane \<noteq> 0)))"
  have reduce: "reduce ?mn = Some ?h" "alu_unary ?mn = None" "?mn \<notin> {''LOAD'', ''STORE''}"
    by (simp_all add: reduce_def alu_unary_def)
  have meaning: "intrinsic_meaning vm i args [x] = ?F x" for x
    using i by (auto simp: intrinsic_meaning_def any_lanes all_lanes)
  have code: "any_all_code i [c] sp = mbind c (\<lambda>v.
     mbind (alloc_reg sp) (\<lambda>normalized.
     mthen (emit_instr ''CMP_NE'' [O_P 0, O_R (v_reg v), O_Num 0])
     (mthen (release v)
     (mthen (emit_instr ''MOV'' [O_R normalized, O_Num 0])
     (mthen (guarded_instr 0 False ''MOV'' [O_R normalized, O_Num 1])
     (mbind (alloc_reg sp) (\<lambda>out.
      mthen (emit_instr ?mn [O_R out, O_R normalized])
      (mthen (free_reg normalized) (ret (owned out))))))))))"
    by (simp add: any_all_code_def)
  show ?thesis
    unfolding meaning code
  proof (rule computesI, rule wp_bind, rule value_from [OF assms(1)], assumption, assumption, assumption)
    fix g W v h1 W1
    assume g: "extends g0 g" "reaches g (busy g) g" "busy g0 \<subseteq> busy g" and v: "gives P m g0 f g (busy g) W v h1 W1"
    let ?B = "busy g" and ?Q = "gives P m g0 (Option.bind f ?F) g (busy g) W"
    have h1: "reaches g (?B \<union> own v) h1"
      using v by (simp add: gives_def)
    have B: "?B \<subseteq> {..<13}"
      using g(2) by (rule reaches_bound)
    have disjoint: "own v \<inter> ?B = {}"
      using v by (simp add: gives_def)
    have lines: "leaves P m g0 ?B out (Option.bind f ?F) W
       (runs [L_Instr None ?mn [O_R out, O_R n]]
       (runs [L_Instr (Some (False, 0)) ''MOV'' [O_R n, O_Num 1]]
       (runs [L_Instr None ''MOV'' [O_R n, O_Num 0]]
       (runs [L_Instr None ''CMP_NE'' [O_P 0, O_R (v_reg v), O_Num 0]] W1))))"
      if n: "n < 13" "n \<notin> ?B \<union> own v" and out: "out < 13" "out \<notin> insert n ?B" for n out
    proof (rule leaves_bind [OF _ g(3)])
      show "leaves P m g0 ?B (v_reg v) f W W1"
        using v by (simp add: gives_def)
      fix w x y
      assume w: "W1 = Some w" "same (w_regs w (v_reg v)) x" "?F x = Some y"
      have a: "v_reg v \<noteq> SCRATCH" "n \<noteq> v_reg v"
        using v n g(3) by (auto simp: gives_def operand_def LANE_REG_def SCRATCH_def)
      show "\<exists>w'. runs [L_Instr None ?mn [O_R out, O_R n]]
         (runs [L_Instr (Some (False, 0)) ''MOV'' [O_R n, O_Num 1]]
         (runs [L_Instr None ''MOV'' [O_R n, O_Num 0]]
         (runs [L_Instr None ''CMP_NE'' [O_P 0, O_R (v_reg v), O_Num 0]] W1))) = Some w'
        \<and> kept P ?B w w' \<and> same (w_regs w' out) y"
        using vote_lines [OF n(1) _ a(2) B a(1) out assms(2) reduce w(1,2)] n w(3) by auto
    qed
    show "wp (mbind (alloc_reg sp) (\<lambda>normalized.
       mthen (emit_instr ''CMP_NE'' [O_P 0, O_R (v_reg v), O_Num 0])
       (mthen (release v)
       (mthen (emit_instr ''MOV'' [O_R normalized, O_Num 0])
       (mthen (guarded_instr 0 False ''MOV'' [O_R normalized, O_Num 1])
       (mbind (alloc_reg sp) (\<lambda>out.
        mthen (emit_instr ?mn [O_R out, O_R normalized])
        (mthen (free_reg normalized) (ret (owned out)))))))))) ?Q h1 W1"
      by (rule wp_bind wp_then wp_ret
        | (rule alloc_from instr_from guarded_from, (assumption | rule h1))
        | (rule release_from, assumption, use disjoint in blast)
        | (rule free_from, assumption, use disjoint in blast, assumption)
        | (rule own_owned_out, assumption, use disjoint in blast, rule reaches_as, assumption, use disjoint in blast,
            rule lines, assumption, assumption, assumption, use disjoint in blast))+
  qed
qed

text \<open>The bit of a lane.\<close>

lemma lane_bit: "lane < WARP_LANES \<Longrightarrow> unat (of_nat lane AND 31 :: u32) = lane"
  by (subst shift_amount) (simp add: WARP_LANES_def unat_of_nat)

lemma ballot_lines:
  assumes "pos < 13" "pos \<notin> B" "pos \<noteq> a" "sel < 13" "sel \<notin> insert pos B" "sel \<noteq> a" "B \<subseteq> {..<13}" "a \<noteq> SCRATCH"
    and "out < 13" "out \<notin> insert sel B" "0 \<notin> P"
    and "W = Some w" "same (w_regs w a) x" "same (w_regs w LANE_REG) of_nat"
  shows "\<exists>w'. runs [L_Instr None ''REDUCE_OR'' [O_R out, O_R sel]]
      (runs [L_Instr (Some (False, 0)) ''MOV'' [O_R sel, O_R pos]]
      (runs [L_Instr None ''MOV'' [O_R sel, O_Num 0]]
      (runs [L_Instr None ''CMP_NE'' [O_P 0, O_R a, O_Num 0]]
      (runs [L_Instr None ''SHL'' [O_R pos, O_R pos, O_R LANE_REG]]
      (runs [L_Instr None ''MOV'' [O_R pos, O_Num 1]] W))))) = Some w'
    \<and> kept P B w w' \<and> same (w_regs w' out)
      (\<lambda>_. foldl (OR) 0 (lane_values (\<lambda>lane. if x lane \<noteq> 0 then push_bit lane 1 else 0)))"
proof -
  have regs: "pos \<noteq> SCRATCH" "pos \<noteq> LANE_REG" "sel \<noteq> SCRATCH" "sel \<noteq> LANE_REG" "out \<noteq> SCRATCH" "out \<noteq> LANE_REG"
      "SCRATCH \<notin> B" "sel \<noteq> pos" "out \<noteq> sel"
    using assms by (auto simp: LANE_REG_def SCRATCH_def)
  let ?w1 = "write_vector pos (\<lambda>_. True) (\<lambda>lane. shift_left 1 (w_regs w LANE_REG lane))
    (write_vector pos (\<lambda>_. True) (\<lambda>_. 1) w)"
  let ?w2 = "write_vector sel (\<lambda>_. True) (\<lambda>_. 0) (write_pred 0 (\<lambda>_. True) (\<lambda>lane. w_regs w a lane \<noteq> 0) (through_scratch 0 ?w1))"
  let ?w3 = "write_vector sel (\<lambda>lane. w_regs w a lane \<noteq> 0) (w_regs ?w1 pos) ?w2"
  have one: "runs [L_Instr None ''SHL'' [O_R pos, O_R pos, O_R LANE_REG]]
      (runs [L_Instr None ''MOV'' [O_R pos, O_Num 1]] W) = Some ?w1"
    using assms(12) regs by (simp add: machine_simps)
  have two: "runs [L_Instr None ''MOV'' [O_R sel, O_Num 0]]
      (runs [L_Instr None ''CMP_NE'' [O_P 0, O_R a, O_Num 0]] (Some ?w1)) = Some ?w2"
    using assms(3,8) regs by (simp add: machine_simps)
  have three: "runs [L_Instr (Some (False, 0)) ''MOV'' [O_R sel, O_R pos]] (Some ?w2) = Some ?w3"
    using regs by (simp add: machine_simps)
  have "same (w_regs ?w3 sel) (\<lambda>lane. if x lane \<noteq> 0 then push_bit lane 1 else 0)"
    using assms(13,14) regs lane_bit by (simp add: same_def shift_left_def)
  then have eq: "lane_values (w_regs ?w3 sel) = lane_values (\<lambda>lane. if x lane \<noteq> 0 then push_bit lane 1 else 0)"
    by (rule lane_values_same)
  let ?w4 = "write_vector out (\<lambda>_. True) (\<lambda>_. foldl (OR) 0 (lane_values (\<lambda>lane. if x lane \<noteq> 0 then push_bit lane 1 else 0))) ?w3"
  have four: "run [L_Instr None ''REDUCE_OR'' [O_R out, O_R sel]] ?w3 = Some ?w4"
    unfolding eq [symmetric] by (simp add: run_single run_instr_def run_two_def reduce_def alu_unary_def)
  have keep: "kept P B w ?w4"
    using regs assms by (auto simp: kept_def)
  show ?thesis
    by (intro exI [of _ ?w4] conjI, simp only: one two three, simp only: runs_Some four, rule keep, simp add: same_def)
qed

lemma computes_ballot:
  assumes "computes P m g0 f c" and "0 \<notin> P"
  shows "computes P m g0 (Option.bind f (\<lambda>x. intrinsic_meaning vm I_Ballot args [x])) (ballot_code [c] sp)"
proof -
  let ?F = "\<lambda>x. Some (\<lambda>_ :: nat. foldl (OR) 0 (lane_values (\<lambda>lane. if x lane \<noteq> 0 then push_bit lane 1 else 0 :: u32)))"
  have meaning: "intrinsic_meaning vm I_Ballot args [x] = ?F x" for x
    by (simp add: intrinsic_meaning_def)
  show ?thesis
    unfolding meaning ballot_code_def argument_first
  proof (rule computesI, rule wp_bind, rule value_from [OF assms(1)], assumption, assumption, assumption)
    fix g W v h1 W1
    assume g: "extends g0 g" "reaches g (busy g) g" "busy g0 \<subseteq> busy g" and v: "gives P m g0 f g (busy g) W v h1 W1"
    let ?B = "busy g" and ?Q = "gives P m g0 (Option.bind f ?F) g (busy g) W"
    have h1: "reaches g (?B \<union> own v) h1"
      using v by (simp add: gives_def)
    have B: "?B \<subseteq> {..<13}"
      using g(2) by (rule reaches_bound)
    have disjoint: "own v \<inter> ?B = {}"
      using v by (simp add: gives_def)
    have lines: "leaves P m g0 ?B out (Option.bind f ?F) W
       (runs [L_Instr None ''REDUCE_OR'' [O_R out, O_R sel]]
       (runs [L_Instr (Some (False, 0)) ''MOV'' [O_R sel, O_R pos]]
       (runs [L_Instr None ''MOV'' [O_R sel, O_Num 0]]
       (runs [L_Instr None ''CMP_NE'' [O_P 0, O_R (v_reg v), O_Num 0]]
       (runs [L_Instr None ''SHL'' [O_R pos, O_R pos, O_R LANE_REG]]
       (runs [L_Instr None ''MOV'' [O_R pos, O_Num 1]] W1))))))"
      if pos: "pos < 13" "pos \<notin> ?B \<union> own v" and sel: "sel < 13" "sel \<notin> insert pos (?B \<union> own v)"
        and out: "out < 13" "out \<notin> insert sel ?B" for pos sel out
    proof (rule leaves_bind [OF _ g(3)])
      show "leaves P m g0 ?B (v_reg v) f W W1"
        using v by (simp add: gives_def)
      fix w x y
      assume w: "W1 = Some w" "matches m g0 w" "same (w_regs w (v_reg v)) x" "?F x = Some y"
      have a: "v_reg v \<noteq> SCRATCH" "pos \<noteq> v_reg v" "sel \<noteq> v_reg v"
        using v pos sel g(3) by (auto simp: gives_def operand_def LANE_REG_def SCRATCH_def)
      have lane: "same (w_regs w LANE_REG) of_nat"
        using w(2) by (simp add: matches_def)
      have fresh: "pos \<notin> ?B" "sel \<notin> insert pos ?B"
        using pos sel by auto
      show "\<exists>w'. runs [L_Instr None ''REDUCE_OR'' [O_R out, O_R sel]]
         (runs [L_Instr (Some (False, 0)) ''MOV'' [O_R sel, O_R pos]]
         (runs [L_Instr None ''MOV'' [O_R sel, O_Num 0]]
         (runs [L_Instr None ''CMP_NE'' [O_P 0, O_R (v_reg v), O_Num 0]]
         (runs [L_Instr None ''SHL'' [O_R pos, O_R pos, O_R LANE_REG]]
         (runs [L_Instr None ''MOV'' [O_R pos, O_Num 1]] W1))))) = Some w'
        \<and> kept P ?B w w' \<and> same (w_regs w' out) y"
        using ballot_lines [OF pos(1) fresh(1) a(2) sel(1) fresh(2) a(3) B a(1) out assms(2) w(1,3) lane] w(4) by simp
    qed
    show "wp (mbind (alloc_reg sp) (\<lambda>pos.
       mbind (alloc_reg sp) (\<lambda>selected.
       mthen (emit_instr ''MOV'' [O_R pos, O_Num 1])
       (mthen (emit_instr ''SHL'' [O_R pos, O_R pos, O_R LANE_REG])
       (mthen (emit_instr ''CMP_NE'' [O_P 0, O_R (v_reg v), O_Num 0])
       (mthen (release v)
       (mthen (emit_instr ''MOV'' [O_R selected, O_Num 0])
       (mthen (guarded_instr 0 False ''MOV'' [O_R selected, O_R pos])
       (mthen (free_reg pos)
       (mbind (alloc_reg sp) (\<lambda>out.
        mthen (emit_instr ''REDUCE_OR'' [O_R out, O_R selected])
        (mthen (free_reg selected) (ret (owned out)))))))))))))) ?Q h1 W1"
      by (rule wp_bind wp_then wp_ret
        | (rule alloc_from instr_from guarded_from, (assumption | rule h1))
        | (rule release_from, assumption, use disjoint in blast)
        | (rule free_from, assumption, use disjoint in blast, assumption)
        | (rule own_owned_out, assumption, use disjoint in blast, rule reaches_as, assumption, use disjoint in blast,
            rule lines, assumption, assumption, assumption, assumption, assumption, use disjoint in blast))+
  qed
qed

end
