(* ===== verification/Codegen_Lists.thy ===== *)
theory Codegen_Lists
  imports Codegen_Lanes
begin

text \<open>
  Several values at the same time (\<open>Generator::expr_values\<close>), and what is computed from them:
  colours and shuffles.
\<close>

unbundle bit_operations_syntax

section \<open>Lists of values\<close>

fun separate :: "nat set \<Rightarrow> gvalue list \<Rightarrow> bool" where
  "separate B [] = True"
| "separate B (v # vs) \<longleftrightarrow> own v \<inter> B = {} \<and> own v \<subseteq> {..<13} \<and> separate (B \<union> own v) vs"

definition owns :: "gvalue list \<Rightarrow> nat set" where
  "owns vs = (\<Union>v\<in>set vs. own v)"

lemma owns_simps [simp]: "owns [] = {}" "owns (v # vs) = own v \<union> owns vs"
  by (auto simp: owns_def)

definition leaves_all :: "nat set \<Rightarrow> meanings \<Rightarrow> generator \<Rightarrow> nat set \<Rightarrow> gvalue list \<Rightarrow> vec option list
    \<Rightarrow> warp option \<Rightarrow> warp option \<Rightarrow> bool" where
  "leaves_all P m g0 B vs fs W W' \<longleftrightarrow>
     (\<forall>w xs. W = Some w \<longrightarrow> matches m g0 w \<longrightarrow> fs = map Some xs \<longrightarrow>
        (\<exists>w'. W' = Some w' \<and> kept P B w w' \<and> list_all2 (\<lambda>v x. same (w_regs w' (v_reg v)) x) vs xs))"

lemma leaves_all_Cons:
  assumes "leaves P m g0 B (v_reg v) f W W1" and "operand (busy g0 \<union> own v) (v_reg v)" and "busy g0 \<subseteq> B"
    and "leaves_all P m g0 (B \<union> own v) vs fs W1 W2"
  shows "leaves_all P m g0 B (v # vs) (f # fs) W W2"
  unfolding leaves_all_def
proof (intro allI impI)
  fix w xs
  assume W: "W = Some w" "matches m g0 w" and "f # fs = map Some xs"
  then obtain x ys where xs: "xs = x # ys" "f = Some x" "fs = map Some ys"
    by (cases xs) auto
  with W assms(1) obtain w1 where w1: "W1 = Some w1" "kept P B w w1" "same (w_regs w1 (v_reg v)) x"
    by (auto simp: leaves_def)
  with assms(4) xs(3) matches_kept [OF W(2) w1(2) assms(3)] obtain w2 where w2: "W2 = Some w2"
    "kept P (B \<union> own v) w1 w2" "list_all2 (\<lambda>v x. same (w_regs w2 (v_reg v)) x) vs ys"
    by (auto simp: leaves_all_def)
  have "w_regs w2 (v_reg v) = w_regs w1 (v_reg v)"
    using assms(2,3) by (intro kept_reg [OF w2(2)]) (auto simp: operand_def)
  moreover have "kept P B w w2"
    using w1(2) w2(2) by (rule kept_trans) simp
  ultimately show "\<exists>w'. W2 = Some w' \<and> kept P B w w' \<and> list_all2 (\<lambda>v x. same (w_regs w' (v_reg v)) x) (v # vs) xs"
    using w1(3) w2 xs(1) by auto
qed

lemma protected_values_from:
  assumes "list_all2 (computes P m g0) fs cs" and "extends g0 g" and "reaches (with_prot ps g) B h"
    and "length ps = 13" and "busy g0 \<subseteq> B"
    and "\<And>vs h' W'. length vs = length cs \<Longrightarrow> reaches (with_prot (foldl prot ps vs) g) (B \<union> owns vs) h' \<Longrightarrow> separate B vs
      \<Longrightarrow> \<forall>v\<in>set vs. operand (busy g0 \<union> own v) (v_reg v) \<Longrightarrow> leaves_all P m g0 B vs fs W W' \<Longrightarrow> Q vs h' W'"
  shows "wp (protected_values cs) Q h W"
  using assms
proof (induction cs arbitrary: fs ps B h W Q rule: list.induct)
  case Nil
  then have "fs = []" and "leaves_all P m g0 B [] [] W W"
    by (auto simp: leaves_all_def)
  with Nil.prems(2-) show ?case
    by (auto intro: wp_ret)
next
  case (Cons c cs)
  from Cons.prems(1) obtain f fs' where fs: "fs = f # fs'" "computes P m g0 f c" "list_all2 (computes P m g0) fs' cs"
    by (auto simp: list_all2_Cons2)
  note extends = with_prot_extends [OF Cons.prems(2,4)]
  show ?case
    unfolding protected_values.simps
  proof (rule wp_bind, rule value_from [OF fs(2) extends Cons.prems(3,5)], rule wp_then)
    fix v h1 W1
    assume v: "gives P m g0 f (with_prot ps g) B W v h1 W1"
    then have reach: "reaches (with_prot ps g) (B \<union> own v) h1"
      by (simp add: gives_def)
    show "wp (protect v) (\<lambda>_. wp (mbind (protected_values cs) (\<lambda>vs. ret (v # vs))) Q) h1 W1"
    proof (rule protect_from [OF reach Cons.prems(4)], rule wp_bind, rule Cons.IH [OF fs(3) Cons.prems(2)], assumption)
      show "length (prot ps v) = 13" "busy g0 \<subseteq> B \<union> own v"
        using Cons.prems(4,5) by auto
      fix vs h2 W2
      assume len: "length vs = length cs"
        and vs: "reaches (with_prot (foldl prot (prot ps v) vs) g) (B \<union> own v \<union> owns vs) h2" "separate (B \<union> own v) vs"
        "\<forall>v\<in>set vs. operand (busy g0 \<union> own v) (v_reg v)" "leaves_all P m g0 (B \<union> own v) vs fs' W1 W2"
      have "leaves_all P m g0 B (v # vs) fs W W2"
        using v vs(4) Cons.prems(5) by (auto simp: fs(1) gives_def intro: leaves_all_Cons)
      then show "wp (ret (v # vs)) Q h2 W2"
        using v vs(1-3) len by (intro wp_ret Cons.prems(6)) (auto simp: gives_def Un_assoc)
    qed
  qed
qed

lemma prot_swap: "prot (prot ps v) u = prot (prot ps u) v"
  by (cases "v_reg v = v_reg u") (auto simp: prot_def list_update_swap nth_list_update)

lemma foldl_prot: "foldl prot (prot ps v) vs = prot (foldl prot ps vs) v"
  by (induction vs arbitrary: ps) (simp_all add: prot_swap)

lemma unprotects_from:
  assumes "reaches (with_prot (foldl prot ps vs) g) B h" and "length ps = 13"
    and "\<And>h'. reaches (with_prot ps g) B h' \<Longrightarrow> Q () h' W"
  shows "wp (each unprotect vs) Q h W"
  using assms
proof (induction vs arbitrary: h)
  case Nil
  then show ?case
    by (auto intro: wp_ret)
next
  case (Cons v vs)
  have len: "length (foldl prot ps vs) = 13"
    using Cons.prems(2) by (induction vs arbitrary: ps) simp_all
  show ?case
    unfolding each.simps
  proof (rule wp_then, rule unprotect_from [OF _ len])
    show "reaches (with_prot (prot (foldl prot ps vs) v) g) B h"
      using Cons.prems(1) by (simp add: foldl_prot)
  qed (rule Cons.IH [OF _ Cons.prems(2,3)])
qed

lemma values_from:
  assumes "list_all2 (computes P m g0) fs cs" and "extends g0 g" and "reaches g B h" and "busy g0 \<subseteq> B"
    and "\<And>vs h' W'. length vs = length cs \<Longrightarrow> reaches g (B \<union> owns vs) h' \<Longrightarrow> separate B vs
      \<Longrightarrow> \<forall>v\<in>set vs. operand (busy g0 \<union> own v) (v_reg v) \<Longrightarrow> leaves_all P m g0 B vs fs W W' \<Longrightarrow> Q vs h' W'"
  shows "wp (expr_values cs) Q h W"
  unfolding expr_values_def
proof (rule wp_bind, rule protected_values_from [OF assms(1,2), where ps = "g_protected g"])
  show "reaches (with_prot (g_protected g) g) B h" and len: "length (g_protected g) = 13"
    using assms(3) reaches_protected by simp_all
  fix vs h' W'
  assume n: "length vs = length cs"
    and vs: "reaches (with_prot (foldl prot (g_protected g) vs) g) (B \<union> owns vs) h'" "separate B vs"
    "\<forall>v\<in>set vs. operand (busy g0 \<union> own v) (v_reg v)" "leaves_all P m g0 B vs fs W W'"
  show "wp (mthen (each unprotect vs) (ret vs)) Q h' W'"
    by (rule wp_then, rule unprotects_from [OF vs(1) len], rule wp_ret, rule assms(5) [OF n _ vs(2-4)], simp)
qed (rule assms(4))

section \<open>Colours\<close>

definition adds_component :: "nat set \<Rightarrow> nat set \<Rightarrow> nat \<Rightarrow> nat \<Rightarrow> nat \<Rightarrow> warp option \<Rightarrow> warp option \<Rightarrow> bool" where
  "adds_component P B out a shift W W' \<longleftrightarrow>
     (\<forall>w. W = Some w \<longrightarrow>
        (\<exists>w'. W' = Some w' \<and> kept P B w w' \<and>
           (\<forall>lane. w_regs w' out lane = w_regs w out lane OR push_bit shift (w_regs w a lane AND 255))))"

lemma component_lines:
  assumes "r \<noteq> out" "r \<noteq> a" "out \<noteq> a" "r \<noteq> SCRATCH" "out \<noteq> SCRATCH" "a \<noteq> SCRATCH" "r \<noteq> LANE_REG" "out \<noteq> LANE_REG"
    and "r \<notin> B" "out \<notin> B" "SCRATCH \<notin> B" and shift: "shift \<in> {16, 8, 0}"
    and W2: "W2 = (if shift \<noteq> 0 then runs [L_Instr None ''SHL'' [O_R r, O_R r, O_Num shift]] else (\<lambda>W. W))
        (runs [L_Instr None ''AND'' [O_R r, O_R a, O_Num 255]] W)"
  shows "adds_component P B out a shift W (runs [L_Instr None ''OR'' [O_R out, O_R out, O_R r]] W2)"
  unfolding adds_component_def
proof (intro allI impI)
  fix w
  assume "W = Some w"
  moreover have "shift_left v (of_nat shift) = push_bit shift v" for v
    using shift by (auto simp: shift_left_def)
  ultimately show "\<exists>w'. runs [L_Instr None ''OR'' [O_R out, O_R out, O_R r]] W2 = Some w' \<and> kept P B w w' \<and>
      (\<forall>lane. w_regs w' out lane = w_regs w out lane OR push_bit shift (w_regs w a lane AND 255))"
    using assms(1-11) unfolding W2 by (cases "shift = 0") (auto simp: machine_simps kept_def)
qed

lemma component_from:
  assumes "reaches g C h" "out \<in> C" "r \<in> C" "r \<noteq> out" and v: "own v \<subseteq> C - {out, r}" "operand (C - {out, r}) (v_reg v)"
    and shift: "shift \<in> {16, 8, 0}"
    and Q: "\<And>h' W'. reaches g (C - own v) h' \<Longrightarrow> adds_component P (C - {out, r}) out (v_reg v) shift W W' \<Longrightarrow> Q () h' W'"
  shows "wp (argb_component out r (v, shift)) Q h W"
proof -
  have "C \<subseteq> {..<13}"
    using assms(1) by (rule reaches_bound)
  then have regs: "r \<noteq> out" "r \<noteq> v_reg v" "out \<noteq> v_reg v" "r \<noteq> SCRATCH" "out \<noteq> SCRATCH" "v_reg v \<noteq> SCRATCH"
    "r \<noteq> LANE_REG" "out \<noteq> LANE_REG" "r \<notin> C - {out, r}" "out \<notin> C - {out, r}" "SCRATCH \<notin> C - {out, r}"
    using assms(2-4) v by (auto simp: operand_def LANE_REG_def SCRATCH_def)
  have "own v \<subseteq> C"
    using v by auto
  moreover have "shift \<noteq> 0 \<Longrightarrow> adds_component P (C - {out, r}) out (v_reg v) shift W
      (runs [L_Instr None ''OR'' [O_R out, O_R out, O_R r]] (runs [L_Instr None ''SHL'' [O_R r, O_R r, O_Num shift]]
      (runs [L_Instr None ''AND'' [O_R r, O_R (v_reg v), O_Num 255]] W)))"
    and "\<not> shift \<noteq> 0 \<Longrightarrow> adds_component P (C - {out, r}) out (v_reg v) shift W
      (runs [L_Instr None ''OR'' [O_R out, O_R out, O_R r]] (runs [L_Instr None ''AND'' [O_R r, O_R (v_reg v), O_Num 255]] W))"
    by (rule component_lines [OF regs shift], simp)+
  ultimately show ?thesis
    unfolding argb_component.simps
    by (intro wp_then wp_only_if instr_from [OF assms(1)])
      (erule release_from, assumption, intro wp_only_if wp_then; (erule instr_from)+; rule Q; blast)
qed

lemma argb_first_lines:
  assumes "out \<noteq> a" "out \<noteq> SCRATCH" "a \<noteq> SCRATCH" "out \<noteq> LANE_REG" "out \<notin> B" "SCRATCH \<notin> B" "W = Some w"
  shows "\<exists>w'. runs [L_Instr None ''SHL'' [O_R out, O_R out, O_Num 24]]
      (runs [L_Instr None ''AND'' [O_R out, O_R a, O_Num 255]] W) = Some w' \<and> kept P B w w'
    \<and> (\<forall>lane. w_regs w' out lane = push_bit 24 (w_regs w a lane AND 255))"
  using assms by (auto simp: machine_simps kept_def shift_left_def)

lemma argb_lines:
  assumes v: "leaves_all P m g0 B [a, r, g', b] fs W W1"
    and regs: "operand (busy g0 \<union> own a) (v_reg a)" "operand (busy g0 \<union> own r) (v_reg r)"
      "operand (busy g0 \<union> own g') (v_reg g')" "operand (busy g0 \<union> own b) (v_reg b)"
    and g0: "busy g0 \<subseteq> B" "B \<subseteq> {..<13}" "own a \<union> own r \<union> own g' \<union> own b \<subseteq> {..<13}"
    and out: "out < 13" "out \<notin> B \<union> own a \<union> own r \<union> own g' \<union> own b"
    and c: "c \<notin> insert out (B \<union> own r \<union> own g' \<union> own b)"
    and W2: "W2 = runs [L_Instr None ''SHL'' [O_R out, O_R out, O_Num 24]]
      (runs [L_Instr None ''AND'' [O_R out, O_R (v_reg a), O_Num 255]] W1)"
    and W3: "adds_component P (B \<union> own r \<union> own g' \<union> own b) out (v_reg r) 16 W2 W3"
    and W4: "adds_component P (B \<union> own g' \<union> own b) out (v_reg g') 8 W3 W4"
    and W5: "adds_component P (B \<union> own b) out (v_reg b) 0 W4 W5"
    and fs: "fs = [f1, f2, f3, f4]"
  shows "leaves P m g0 B out (Option.bind f1 (\<lambda>x1. Option.bind f2 (\<lambda>x2. Option.bind f3 (\<lambda>x3. Option.bind f4 (\<lambda>x4.
      Some (\<lambda>lane. push_bit 24 (x1 lane AND 255) OR push_bit 16 (x2 lane AND 255)
        OR push_bit 8 (x3 lane AND 255) OR (x4 lane AND 255))))))) W W5"
  unfolding leaves_def
proof (intro allI impI)
  fix w z
  assume W: "W = Some w" "matches m g0 w" and "Option.bind f1 (\<lambda>x1. Option.bind f2 (\<lambda>x2. Option.bind f3 (\<lambda>x3. Option.bind f4 (\<lambda>x4.
      Some (\<lambda>lane. push_bit 24 (x1 lane AND 255) OR push_bit 16 (x2 lane AND 255)
        OR push_bit 8 (x3 lane AND 255) OR (x4 lane AND 255)))))) = Some z"
  then obtain x1 x2 x3 x4 where x: "f1 = Some x1" "f2 = Some x2" "f3 = Some x3" "f4 = Some x4"
    and z: "z = (\<lambda>lane. push_bit 24 (x1 lane AND 255) OR push_bit 16 (x2 lane AND 255)
        OR push_bit 8 (x3 lane AND 255) OR (x4 lane AND 255))"
    by (auto simp: bind_eq_Some_conv)
  have "fs = map Some [x1, x2, x3, x4]"
    using fs x by simp
  with v W obtain w1 where w1: "W1 = Some w1" "kept P B w w1"
    and s1: "same (w_regs w1 (v_reg a)) x1" "same (w_regs w1 (v_reg r)) x2" "same (w_regs w1 (v_reg g')) x3"
      "same (w_regs w1 (v_reg b)) x4"
    unfolding leaves_all_def by fastforce
  let ?B2 = "B \<union> own r \<union> own g' \<union> own b" and ?B3 = "B \<union> own g' \<union> own b" and ?B4 = "B \<union> own b"
  have a: "out \<noteq> v_reg a" "out \<noteq> SCRATCH" "v_reg a \<noteq> SCRATCH" "out \<noteq> LANE_REG" "out \<notin> ?B2" "SCRATCH \<notin> ?B2"
    using out regs(1) g0 by (auto simp: operand_def LANE_REG_def SCRATCH_def)
  from argb_first_lines [OF a w1(1)] obtain w2 where w2: "W2 = Some w2" "kept P ?B2 w1 w2"
    "\<And>lane. w_regs w2 out lane = push_bit 24 (w_regs w1 (v_reg a) lane AND 255)"
    unfolding W2 by blast
  from W3 w2(1) obtain w3 where w3: "W3 = Some w3" "kept P ?B2 w2 w3"
    "\<And>lane. w_regs w3 out lane = w_regs w2 out lane OR push_bit 16 (w_regs w2 (v_reg r) lane AND 255)"
    by (auto simp: adds_component_def)
  from W4 w3(1) obtain w4 where w4: "W4 = Some w4" "kept P ?B3 w3 w4"
    "\<And>lane. w_regs w4 out lane = w_regs w3 out lane OR push_bit 8 (w_regs w3 (v_reg g') lane AND 255)"
    by (auto simp: adds_component_def)
  from W5 w4(1) obtain w5 where w5: "W5 = Some w5" "kept P ?B4 w4 w5"
    "\<And>lane. w_regs w5 out lane = w_regs w4 out lane OR push_bit 0 (w_regs w4 (v_reg b) lane AND 255)"
    by (auto simp: adds_component_def)
  have r: "w_regs w2 (v_reg r) = w_regs w1 (v_reg r)"
    using regs(2) g0(1) by (intro kept_reg [OF w2(2)]) (auto simp: operand_def)
  have "w_regs w3 (v_reg g') = w_regs w2 (v_reg g')" "w_regs w2 (v_reg g') = w_regs w1 (v_reg g')"
    using regs(3) g0(1) by (intro kept_reg [OF w3(2)] kept_reg [OF w2(2)]; auto simp: operand_def)+
  moreover have "w_regs w4 (v_reg b) = w_regs w3 (v_reg b)" "w_regs w3 (v_reg b) = w_regs w2 (v_reg b)"
      "w_regs w2 (v_reg b) = w_regs w1 (v_reg b)"
    using regs(4) g0(1) by (intro kept_reg [OF w4(2)] kept_reg [OF w3(2)] kept_reg [OF w2(2)]; auto simp: operand_def)+
  ultimately have "same (w_regs w5 out) z"
    using s1 w2(3) w3(3) w4(3) w5(3) r by (simp add: same_def z or.assoc)
  moreover have "kept P B w1 w2" "kept P B w2 w3" "kept P B w3 w4" "kept P B w4 w5"
    by (rule kept_less [OF w2(2)] kept_less [OF w3(2)] kept_less [OF w4(2)] kept_less [OF w5(2)], blast)+
  then have "kept P B w w5"
    using w1(2) by (blast intro: kept_again)
  ultimately show "\<exists>w'. W5 = Some w' \<and> kept P B w w' \<and> same (w_regs w' out) z"
    using w5(1) by blast
qed

lemma computes_argb:
  assumes "computes P m g0 f1 c1" and "computes P m g0 f2 c2" and "computes P m g0 f3 c3" and "computes P m g0 f4 c4"
  shows "computes P m g0 (Option.bind f1 (\<lambda>x1. Option.bind f2 (\<lambda>x2. Option.bind f3 (\<lambda>x3. Option.bind f4 (\<lambda>x4.
      Some (\<lambda>lane. push_bit 24 (x1 lane AND 255) OR push_bit 16 (x2 lane AND 255)
        OR push_bit 8 (x3 lane AND 255) OR (x4 lane AND 255)))))))
    (argb_code [c1, c2, c3, c4] sp)"
proof (rule computesI)
  fix g W
  assume g: "extends g0 g" "reaches g (busy g) g" "busy g0 \<subseteq> busy g"
  let ?f = "Option.bind f1 (\<lambda>x1. Option.bind f2 (\<lambda>x2. Option.bind f3 (\<lambda>x3. Option.bind f4 (\<lambda>x4.
      Some (\<lambda>lane. push_bit 24 (x1 lane AND 255) OR push_bit 16 (x2 lane AND 255)
        OR push_bit 8 (x3 lane AND 255) OR (x4 lane AND 255))))))" and ?B = "busy g"
  let ?Q = "gives P m g0 ?f g (busy g) W"
  have B: "?B \<subseteq> {..<13}"
    using g(2) by (rule reaches_bound)
  show "wp (argb_code [c1, c2, c3, c4] sp) ?Q g W"
    unfolding argb_code_def
  proof (rule wp_bind, rule values_from [where fs = "[f1, f2, f3, f4]", OF _ g])
    show "list_all2 (computes P m g0) [f1, f2, f3, f4] [c1, c2, c3, c4]"
      using assms by simp
    fix vs h1 W1
    assume "length vs = length [c1, c2, c3, c4]" and reach: "reaches g (?B \<union> owns vs) h1" and sep: "separate ?B vs"
      and ops: "\<forall>v\<in>set vs. operand (busy g0 \<union> own v) (v_reg v)"
      and vs: "leaves_all P m g0 ?B vs [f1, f2, f3, f4] W W1"
    then obtain a r s b where four: "vs = [a, r, s, b]"
      by (auto simp: length_Suc_conv)
    let ?A = "own a" and ?R = "own r" and ?S = "own s" and ?C = "own b"
    have reach: "reaches g (?B \<union> ?A \<union> ?R \<union> ?S \<union> ?C) h1"
      using reach by (simp add: four Un_assoc)
    have disjoint: "?A \<inter> ?B = {}" "?R \<inter> (?B \<union> ?A) = {}" "?S \<inter> (?B \<union> ?A \<union> ?R) = {}" "?C \<inter> (?B \<union> ?A \<union> ?R \<union> ?S) = {}"
      and bound: "?A \<union> ?R \<union> ?S \<union> ?C \<subseteq> {..<13}"
      using sep by (auto simp: four)
    have regs: "operand (busy g0 \<union> ?A) (v_reg a)" "operand (busy g0 \<union> ?R) (v_reg r)" "operand (busy g0 \<union> ?S) (v_reg s)"
      "operand (busy g0 \<union> ?C) (v_reg b)"
      using ops by (simp_all add: four)
    note lines = argb_lines [OF vs [unfolded four] regs g(3) B bound]
    have "wp (mbind (alloc_reg sp) (\<lambda>out.
       mthen (emit_instr ''AND'' [O_R out, O_R (v_reg a), O_Num 255])
       (mthen (release a)
       (mthen (emit_instr ''SHL'' [O_R out, O_R out, O_Num 24])
       (mbind (alloc_reg sp) (\<lambda>c.
        mthen (argb_component out c (r, 16))
        (mthen (argb_component out c (s, 8))
        (mthen (argb_component out c (b, 0))
        (mthen (free_reg c) (ret (owned out)))))))))) ) ?Q h1 W1"
    proof (intro wp_bind wp_then alloc_from [OF reach])
      fix out h2
      let ?W2 = "runs [L_Instr None ''SHL'' [O_R out, O_R out, O_Num 24]]
         (runs [L_Instr None ''AND'' [O_R out, O_R (v_reg a), O_Num 255]] W1)"
      assume out: "out < 13" "out \<notin> ?B \<union> ?A \<union> ?R \<union> ?S \<union> ?C"
        and h2: "reaches g (insert out (?B \<union> ?A \<union> ?R \<union> ?S \<union> ?C)) h2"
      have tail: "wp (mbind (alloc_reg sp) (\<lambda>c.
          mthen (argb_component out c (r, 16)) (mthen (argb_component out c (s, 8))
          (mthen (argb_component out c (b, 0)) (mthen (free_reg c) (ret (owned out))))))) ?Q h3 ?W2"
        if h3: "reaches g (insert out (?B \<union> ?R \<union> ?S \<union> ?C)) h3" for h3
      proof (rule wp_bind, rule alloc_from [OF h3], rule wp_then, rule component_from, assumption)
        fix c h4
        assume c: "c \<notin> insert out (?B \<union> ?R \<union> ?S \<union> ?C)"
        let ?C4 = "insert c (insert out (?B \<union> ?R \<union> ?S \<union> ?C))"
        show "out \<in> ?C4" "c \<in> ?C4" "c \<noteq> out" "?R \<subseteq> ?C4 - {out, c}" "(16 :: nat) \<in> {16, 8, 0}"
          using c out by auto
        show "operand (?C4 - {out, c}) (v_reg r)"
          using regs(2) c out g(3) by (auto simp: operand_def)
        fix h5 W3
        assume h5: "reaches g (?C4 - ?R) h5" and W3: "adds_component P (?C4 - {out, c}) out (v_reg r) 16 ?W2 W3"
        have five: "?C4 - ?R = insert c (insert out (?B \<union> ?S \<union> ?C))" "?C4 - {out, c} = ?B \<union> ?R \<union> ?S \<union> ?C"
          using c out disjoint by auto
        let ?C5 = "insert c (insert out (?B \<union> ?S \<union> ?C))"
        show "wp (mthen (argb_component out c (s, 8)) (mthen (argb_component out c (b, 0))
          (mthen (free_reg c) (ret (owned out))))) ?Q h5 W3"
        proof (rule wp_then, rule component_from [OF h5 [unfolded five]])
          show "out \<in> ?C5" "c \<in> ?C5" "c \<noteq> out" "?S \<subseteq> ?C5 - {out, c}" "(8 :: nat) \<in> {16, 8, 0}"
            using c out by auto
          show "operand (?C5 - {out, c}) (v_reg s)"
            using regs(3) c out g(3) by (auto simp: operand_def)
          fix h6 W4
          assume h6: "reaches g (?C5 - ?S) h6" and W4: "adds_component P (?C5 - {out, c}) out (v_reg s) 8 W3 W4"
          have six: "?C5 - ?S = insert c (insert out (?B \<union> ?C))" "?C5 - {out, c} = ?B \<union> ?S \<union> ?C"
            using c out disjoint by auto
          let ?C6 = "insert c (insert out (?B \<union> ?C))"
          show "wp (mthen (argb_component out c (b, 0)) (mthen (free_reg c) (ret (owned out)))) ?Q h6 W4"
          proof (rule wp_then, rule component_from [OF h6 [unfolded six]])
            show "out \<in> ?C6" "c \<in> ?C6" "c \<noteq> out" "?C \<subseteq> ?C6 - {out, c}" "(0 :: nat) \<in> {16, 8, 0}"
              using c out by auto
            show "operand (?C6 - {out, c}) (v_reg b)"
              using regs(4) c out g(3) by (auto simp: operand_def)
            fix h7 W5
            assume h7: "reaches g (?C6 - ?C) h7" and W5: "adds_component P (?C6 - {out, c}) out (v_reg b) 0 W4 W5"
            have seven: "?C6 - ?C = insert c (insert out ?B)" "?C6 - {out, c} = ?B \<union> ?C"
              "insert c (insert out ?B) - {c} = insert out ?B"
              using c out disjoint by auto
            have "leaves P m g0 ?B out ?f W W5"
              by (rule lines [OF out c HOL.refl W3 [unfolded five] W4 [unfolded six] W5 [unfolded seven] HOL.refl])
            then show "wp (mthen (free_reg c) (ret (owned out))) ?Q h7 W5"
              using out c reaches_bound [OF h7]
              by (intro wp_then free_from [OF h7 [unfolded seven]] wp_ret own_owned_out) (auto simp: seven)
          qed
        qed
      qed
      have "insert out (?B \<union> ?A \<union> ?R \<union> ?S \<union> ?C) - ?A = insert out (?B \<union> ?R \<union> ?S \<union> ?C)"
        using disjoint out by auto
      then show "wp (emit_instr ''AND'' [O_R out, O_R (v_reg a), O_Num 255])
         (\<lambda>_. wp (mthen (release a) (mthen (emit_instr ''SHL'' [O_R out, O_R out, O_Num 24])
            (mbind (alloc_reg sp) (\<lambda>c.
          mthen (argb_component out c (r, 16)) (mthen (argb_component out c (s, 8))
          (mthen (argb_component out c (b, 0)) (mthen (free_reg c) (ret (owned out))))))))) ?Q) h2 W1"
        by - (rule instr_from [OF h2], rule wp_then, rule release_from, assumption, blast,
          rule wp_then, rule instr_from, assumption, rule tail, simp)
    qed
    then show "wp (mbind (alloc_reg sp) (\<lambda>out. mbind (lift (index_at vs 0)) (\<lambda>alpha.
         mthen (emit_instr ''AND'' [O_R out, O_R (v_reg alpha), O_Num 255])
         (mthen (release alpha)
         (mthen (emit_instr ''SHL'' [O_R out, O_R out, O_Num 24])
         (mbind (alloc_reg sp) (\<lambda>component.
          mthen (each (argb_component out component) (zip (drop 1 vs) [16, 8, 0]))
          (mthen (free_reg component) (ret (owned out)))))))))) ?Q h1 W1"
      by (simp add: four index_at_def lift_def rbind_def mthen_assoc mbind_ret [unfolded ret_def] del: argb_component.simps)
  qed
qed

section \<open>Shuffles\<close>

lemma lift_Inr [simp]: "lift (Inr x) = ret x"
  by (simp add: comp_defs rbind_def fun_eq_iff)

lemma lift_at [simp]: "i < length xs \<Longrightarrow> lift (index_at xs i) = ret (xs ! i)"
  by (simp add: index_at_def)

lemma computes_shuffle:
  assumes "computes P m g0 f c" and "computes P m g0 h d"
  shows "computes P m g0 (Option.bind f (\<lambda>x. Option.bind h (\<lambda>y. Some (\<lambda>lane. x (unat (y lane AND 31))))))
    (shuffle_code [c, d] sp)"
  using computes_bind_two [OF assms maps_shuffle] by (simp add: shuffle_code_def)

lemma computes_shuffle_xor:
  assumes "computes P m g0 f c" and "literal_of a = Some k"
  shows "computes P m g0 (Option.bind f (\<lambda>x. Some (\<lambda>lane. x (lane XOR unat (k AND 31)))))
    (shuffle_xor_code [e, a] [c, d] sp)"
  using computes_bind_one [OF assms(1) maps_shuffle_xor [of m g0 "unat k"]] assms(2)
  by (simp add: shuffle_xor_code_def)

lemma computes_broadcast_literal:
  assumes "computes P m g0 f c" and "literal_of a = Some k"
  shows "computes P m g0 (Option.bind f (\<lambda>x. Some (\<lambda>_. x (unat (k AND 31)))))
    (broadcast_code [e, a] [c, d] sp)"
  using computes_bind_one [OF assms(1) maps_broadcast [of m g0 "unat k"]] assms(2)
  by (simp add: broadcast_code_def into_new_unfold)

lemma computes_broadcast:
  assumes "computes P m g0 f c" and "computes P m g0 h d" and "literal_of a = None"
  shows "computes P m g0 (Option.bind f (\<lambda>x. Option.bind h (\<lambda>y.
      if list_all (\<lambda>lane. y lane = y 0) [0..<WARP_LANES] then Some (\<lambda>lane. x (unat (y 0 AND 31))) else None)))
    (broadcast_code [e, a] [c, d] sp)"
proof -
  let ?F = "\<lambda>x y :: vec. if list_all (\<lambda>lane. y lane = y 0) [0..<WARP_LANES] then Some (\<lambda>lane :: nat. x (unat (y 0 AND 31)) :: u32) else None"
  have code: "broadcast_code [e, a] [c, d] sp = mbind c (\<lambda>v. mbind (alloc_reg sp) (\<lambda>out.
     mthen (protect v) (mbind d (\<lambda>lane. mthen (unprotect v)
       (mthen (emit_instr ''SHUFFLE'' [O_R out, O_R (v_reg v), O_R (v_reg lane)])
       (mthen (release lane) (mthen (release v) (ret (owned out)))))))))"
    using assms(3) by (simp add: broadcast_code_def mthen_def mbind_assoc)
  show ?thesis
    unfolding code
  proof (rule computesI, rule wp_bind, rule value_from [OF assms(1)], assumption, assumption, assumption,
      rule wp_bind)
    fix g W v h1 W1
    assume g: "extends g0 g" "busy g0 \<subseteq> busy g" and v: "gives P m g0 f g (busy g) W v h1 W1"
    let ?B = "busy g" and ?Q = "gives P m g0 (Option.bind f (\<lambda>x. Option.bind h (?F x))) g (busy g) W"
    have h1: "reaches g (?B \<union> own v) h1"
      using v by (simp add: gives_def)
    show "wp (alloc_reg sp) (\<lambda>out. wp (mthen (protect v) (mbind d (\<lambda>lane. mthen (unprotect v)
       (mthen (emit_instr ''SHUFFLE'' [O_R out, O_R (v_reg v), O_R (v_reg lane)])
       (mthen (release lane) (mthen (release v) (ret (owned out)))))))) ?Q) h1 W1"
    proof (rule alloc_from [OF h1], rule protected_value_from [OF assms(2) g(1)], assumption, use g(2) in blast)
      fix out h2 u h3 W2
      assume out: "out < 13" "out \<notin> ?B \<union> own v" and u: "gives P m g0 h g (insert out (?B \<union> own v)) W1 u h3 W2"
      then have h3: "reaches g (insert out (?B \<union> own v) \<union> own u) h3"
        by (simp add: gives_def)
      have bound: "insert out (?B \<union> own v) \<union> own u \<subseteq> {..<13}"
        using h3 by (rule reaches_bound)
      have sets: "insert out (?B \<union> own v) \<union> own u - own u - own v = insert out ?B"
        using u v out by (auto simp: gives_def)
      have regs: "v_reg v \<noteq> out" "v_reg u \<noteq> SCRATCH" "v_reg v \<noteq> SCRATCH" "v_reg u \<noteq> out" "out \<noteq> LANE_REG" "SCRATCH \<notin> ?B"
        using u v out bound g(2) by (auto simp: gives_def operand_def LANE_REG_def SCRATCH_def)
      have "leaves P m g0 ?B out (Option.bind f (\<lambda>x. Option.bind h (?F x))) W
          (runs [L_Instr None ''SHUFFLE'' [O_R out, O_R (v_reg v), O_R (v_reg u)]] W2)"
      proof (rule leaves_both_bind [OF _ g(2)])
        show "leaves_both P m g0 ?B (v_reg v) (v_reg u) f h W W2"
          unfolding leaves_both_def
        proof (intro allI impI)
          fix w x y
          assume W: "W = Some w" "matches m g0 w" "f = Some x" "h = Some y"
          with v obtain w1 where w1: "W1 = Some w1" "kept P ?B w w1" "same (w_regs w1 (v_reg v)) x"
            by (auto simp: gives_def leaves_def)
          with u W matches_kept [OF W(2) w1(2) g(2)]
          obtain w2 where w2: "W2 = Some w2" "kept P (insert out (?B \<union> own v)) w1 w2" "same (w_regs w2 (v_reg u)) y"
            by (auto simp: gives_def leaves_def)
          have "w_regs w2 (v_reg v) = w_regs w1 (v_reg v)"
            using v g(2) by (intro kept_reg [OF w2(2)]) (auto simp: gives_def operand_def)
          moreover have "kept P ?B w w2"
            using w1(2) w2(2) by (rule kept_trans) blast
          ultimately show "\<exists>w'. W2 = Some w' \<and> kept P ?B w w' \<and> same (w_regs w' (v_reg v)) x \<and> same (w_regs w' (v_reg u)) y"
            using w1(3) w2 by auto
        qed
        fix w x y z
        assume w: "W2 = Some w" "same (w_regs w (v_reg v)) x" "same (w_regs w (v_reg u)) y" "?F x y = Some z"
        then have uniform: "list_all (\<lambda>lane. y lane = y 0) [0..<WARP_LANES]" and z: "z = (\<lambda>lane. x (unat (y 0 AND 31)))"
          by (simp_all split: if_splits)
        have "w_regs w (v_reg u) lane = y 0" if "lane < WARP_LANES" for lane
          using uniform w(3) that unfolding list_all_iff same_def by (metis atLeastLessThan_iff le0 set_upt)
        with z w(2) index_in_range [of "y 0"]
        have "same (\<lambda>lane. w_regs w (v_reg v) (unat (w_regs w (v_reg u) lane AND 31))) z"
          by (simp add: same_def)
        then have "\<exists>s w'. run [L_Instr None ''SHUFFLE'' [O_R out, O_R (v_reg v), O_R (v_reg u)]] w = Some w'
            \<and> sets out s w w' \<and> same s z"
          by (intro run_sets) (simp add: machine_simps)
        then show "\<exists>w'. runs [L_Instr None ''SHUFFLE'' [O_R out, O_R (v_reg v), O_R (v_reg u)]] W2 = Some w'
            \<and> kept P ?B w w' \<and> same (w_regs w' out) z"
          using w(1) out bound sets_kept [of out _ w _ ?B P] by (auto simp: sets_def)
      qed
      moreover have "own v \<subseteq> insert out (?B \<union> own v) \<union> own u - own u" "own u \<subseteq> insert out (?B \<union> own v) \<union> own u"
          "out \<notin> ?B"
        using u v out by (auto simp: gives_def)
      ultimately show "wp (mthen (emit_instr ''SHUFFLE'' [O_R out, O_R (v_reg v), O_R (v_reg u)])
         (mthen (release u) (mthen (release v) (ret (owned out))))) ?Q h3 W2"
        using out(1)
        by - (rule wp_then, rule instr_from [OF h3], rule wp_then, rule release_from, assumption, assumption,
          rule wp_then, rule release_from, assumption, assumption, rule wp_ret, rule own_owned_out, assumption, assumption,
          simp only: sets)
    qed
  qed
qed

end
