(* ===== verification/Codegen_Jumps.thy ===== *)
theory Codegen_Jumps
  imports Codegen_Lists
begin

text \<open>
  The calculus for forward jumps: a computation that takes a new label, jumps to it and defines
  it. The logical operators and the conditional expression compute their meanings.
\<close>

unbundle bit_operations_syntax

section \<open>Computations that define given labels\<close>

definition wpl :: "string set \<Rightarrow> 'a gm \<Rightarrow> ('a \<Rightarrow> generator \<Rightarrow> warp option \<Rightarrow> bool) \<Rightarrow> generator \<Rightarrow> warp option \<Rightarrow> bool" where
  "wpl L m Q g W \<longleftrightarrow>
     (case m g of
        Inl e \<Rightarrow> pressure e
      | Inr (x, g') \<Rightarrow>
          \<exists>ls W'. g_assembly g' = g_assembly g @ ls \<and> g_next_label g \<le> g_next_label g'
            \<and> set (labels_of ls) \<subseteq> label_range (g_next_label g) (g_next_label g') \<union> L
            \<and> (W' = None \<or> W' = runs ls W) \<and> Q x g' W')"

lemma wpl_intro:
  assumes "m g = Inr (x, g')" and "g_assembly g' = g_assembly g @ ls"
    and "g_next_label g \<le> g_next_label g'"
    and "set (labels_of ls) \<subseteq> label_range (g_next_label g) (g_next_label g') \<union> L"
    and "W' = None \<or> W' = runs ls W" and "Q x g' W'"
  shows "wpl L m Q g W"
  unfolding wpl_def using assms by auto

lemma wpl_elim:
  assumes "wpl L m Q g W"
  obtains e where "m g = Inl e" and "pressure e"
  | x g' ls W' where "m g = Inr (x, g')" and "g_assembly g' = g_assembly g @ ls"
    and "g_next_label g \<le> g_next_label g'"
    and "set (labels_of ls) \<subseteq> label_range (g_next_label g) (g_next_label g') \<union> L"
    and "W' = None \<or> W' = runs ls W" and "Q x g' W'"
  using assms unfolding wpl_def by (auto split: sum.splits)

lemma wpl_bind:
  assumes "wp m (\<lambda>x. wpl L (f x) Q) g W"
  shows "wpl L (mbind m f) Q g W"
  using assms
proof (cases rule: wp_elim)
  case (1 e)
  then show ?thesis by (simp add: wpl_def mbind_def)
next
  case (2 x g1 ls W1)
  from 2(6) show ?thesis
  proof (cases rule: wpl_elim)
    case (1 e)
    with 2(1) show ?thesis by (simp add: wpl_def mbind_def)
  next
    case inner: (2 y g2 ks W2)
    show ?thesis
    proof (rule wpl_intro)
      show "mbind m f g = Inr (y, g2)"
        using 2(1) inner(1) by (simp add: mbind_def)
      show "g_assembly g2 = g_assembly g @ (ls @ ks)"
        using 2(2) inner(2) by simp
      show "g_next_label g \<le> g_next_label g2"
        using 2(3) inner(3) by simp
      have "label_range (g_next_label g) (g_next_label g1) \<subseteq> label_range (g_next_label g) (g_next_label g2)"
        "label_range (g_next_label g1) (g_next_label g2) \<subseteq> label_range (g_next_label g) (g_next_label g2)"
        using 2(3) inner(3) by (simp_all add: label_range_mono)
      then show "set (labels_of (ls @ ks)) \<subseteq> label_range (g_next_label g) (g_next_label g2) \<union> L"
        using 2(4) inner(4) by simp blast
      show "W2 = None \<or> W2 = runs (ls @ ks) W"
        using 2(5) inner(5) by (rule runs_two)
      show "Q y g2 W2"
        by (rule inner(6))
    qed
  qed
qed

lemma wpl_then: "wp m (\<lambda>_. wpl L n Q) g W \<Longrightarrow> wpl L (mthen m n) Q g W"
  unfolding mthen_def by (rule wpl_bind)

text \<open>Behind the definition of the labels there is an ordinary computation.\<close>

lemma wpl_last:
  assumes "wpl L m (\<lambda>_ g W. Q x g W) g W"
  shows "wpl L (mthen m (ret x)) Q g W"
  using assms
proof (cases rule: wpl_elim)
  case (1 e)
  then show ?thesis by (simp add: wpl_def mthen_def mbind_def)
next
  case (2 y g1 ls W1)
  then show ?thesis
    by (intro wpl_intro [where ls = ls and W' = W1 and g' = g1 and x = x])
      (simp_all add: mthen_def mbind_def ret_def)
qed

lemma wpl_label:
  assumes "\<And>n g'. step g g' \<Longrightarrow> busy g' = busy g \<Longrightarrow> g_protected g' = g_protected g \<Longrightarrow> n < g_next_label g'
    \<Longrightarrow> n = g_next_label g \<Longrightarrow> wpl (insert (label_named stem n) L) (m (label_named stem n)) Q g' W"
  shows "wpl L (mbind (new_label stem) m) Q g W"
proof -
  let ?n = "g_next_label g" and ?g = "g\<lparr>g_next_label := g_next_label g + 1\<rparr>"
  have code: "mbind (new_label stem) m g = m (label_named stem ?n) ?g"
    by (simp add: new_label_def comp_defs label_named_def)
  have "wpl (insert (label_named stem ?n) L) (m (label_named stem ?n)) Q ?g W"
    by (rule assms) (simp_all add: step_def surroundings_def busy_def)
  then show ?thesis
  proof (cases rule: wpl_elim)
    case (1 e)
    then show ?thesis by (simp add: wpl_def code)
  next
    case (2 x g1 ls W1)
    show ?thesis
    proof (rule wpl_intro)
      have "label_named stem ?n \<in> label_range ?n (g_next_label g1)"
        unfolding label_range_def by (rule CollectI, intro exI [of _ stem] exI [of _ ?n]) (use 2(3) in simp)
      moreover have "label_range (g_next_label ?g) (g_next_label g1) \<subseteq> label_range ?n (g_next_label g1)"
        by (rule label_range_mono) simp_all
      ultimately show "set (labels_of ls) \<subseteq> label_range (g_next_label g) (g_next_label g1) \<union> L"
        using 2(4) by auto
    qed (use 2 code in simp_all)
  qed
qed

lemma wp_wpl: "wpl {} m Q g W \<Longrightarrow> wp m Q g W"
  unfolding wpl_def wp_def by (simp only: Un_empty_right)

section \<open>Jumps\<close>

definition jumps :: "nat \<Rightarrow> warp \<Rightarrow> bool" where
  "jumps p w \<longleftrightarrow> list_ex (w_preds w p) [0..<WARP_LANES]"

text \<open>The machine in front of code that runs if there is no jump, or if there is one, and the
  machine behind both.\<close>

definition stays :: "nat \<Rightarrow> warp option \<Rightarrow> warp option" where
  "stays p W = (case W of None \<Rightarrow> None | Some w \<Rightarrow> if jumps p w then None else Some w)"

definition leaps :: "nat \<Rightarrow> warp option \<Rightarrow> warp option" where
  "leaps p W = (case W of None \<Rightarrow> None | Some w \<Rightarrow> if jumps p w then Some w else None)"

definition joined :: "nat \<Rightarrow> warp option \<Rightarrow> warp option \<Rightarrow> warp option \<Rightarrow> warp option" where
  "joined p W V U = (case W of None \<Rightarrow> None | Some w \<Rightarrow> if jumps p w then U else V)"

definition alike :: "generator \<Rightarrow> generator \<Rightarrow> bool" where
  "alike g h \<longleftrightarrow> step g h \<and> busy h = busy g \<and> g_protected h = g_protected g"

lemma alike_reaches: "reaches g B h \<Longrightarrow> alike h h' \<Longrightarrow> reaches g B h'"
  by (auto simp: alike_def reaches_def intro: step_trans)

lemma emit_plain:
  "g_current_guard g = None \<Longrightarrow> emit_instr m ops g = Inr ((), g\<lparr>g_assembly := g_assembly g @ [L_Instr None m ops]\<rparr>)"
  by (simp add: emit_instr_def push_line_def comp_defs)

lemma label_line_run: "label_line l g = Inr ((), g\<lparr>g_assembly := g_assembly g @ [L_Label l]\<rparr>)"
  by (simp add: label_line_def push_line_def comp_defs)

lemma alike_push [simp]: "alike g (g\<lparr>g_assembly := ls\<rparr>)"
  by (simp add: alike_def step_def surroundings_def busy_def)

lemma run_over:
  assumes "l \<notin> set (labels_of ls)" and "W' = None \<or> W' = runs ls (stays p W)"
  shows "joined p W W' W = None
    \<or> joined p W W' W = runs (L_Instr None ''JMP_IF_ANY'' [O_P p, O_Label l] # ls @ [L_Label l]) W"
proof (cases W)
  case (Some w)
  show ?thesis
  proof (cases "jumps p w")
    case True
    then show ?thesis
      using Some skip_to_new [OF assms(1), of "[]"] by (simp add: joined_def jumps_def)
  next
    case False
    show ?thesis
    proof (cases W')
      case None
      then show ?thesis
        using Some False by (simp add: joined_def)
    next
      case (Some w')
      then have "run ls w = Some w'"
        using \<open>W = Some w\<close> False assms(2) by (auto simp: stays_def)
      then have "run (ls @ [L_Label l]) w = Some w'"
        by (simp add: run_append)
      then show ?thesis
        using \<open>W = Some w\<close> False Some by (simp add: joined_def jumps_def)
    qed
  qed
qed (simp add: joined_def)

text \<open>A jump over a computation.\<close>

lemma wpl_jump_over:
  assumes "ready g" and "n < g_next_label g"
    and body: "\<And>g'. alike g g' \<Longrightarrow> wp body (\<lambda>x g1 W1. \<forall>h. alike g1 h \<longrightarrow> Q () h (joined p W W1 W)) g' (stays p W)"
  shows "wpl {label_named s n} (mthen (emit_instr ''JMP_IF_ANY'' [O_P p, O_Label (label_named s n)])
    (mthen body (label_line (label_named s n)))) Q g W"
proof -
  let ?l = "label_named s n"
  let ?jump = "L_Instr None ''JMP_IF_ANY'' [O_P p, O_Label ?l]"
  let ?g = "g\<lparr>g_assembly := g_assembly g @ [?jump]\<rparr>"
  have guard: "g_current_guard g = None"
    using assms(1) by (simp add: ready_def)
  have code: "mthen (emit_instr ''JMP_IF_ANY'' [O_P p, O_Label ?l]) (mthen body (label_line ?l)) g
      = rbind (body ?g) (\<lambda>(x, g1). Inr ((), g1\<lparr>g_assembly := g_assembly g1 @ [L_Label ?l]\<rparr>))"
    by (simp add: mthen_def mbind_def emit_plain [OF guard] label_line_run)
  have "wp body (\<lambda>x g1 W1. \<forall>h. alike g1 h \<longrightarrow> Q () h (joined p W W1 W)) ?g (stays p W)"
    by (rule body) simp
  then show ?thesis
  proof (cases rule: wp_elim)
    case (1 e)
    then show ?thesis by (simp add: wpl_def code)
  next
    case (2 x g1 ls W1)
    have new: "?l \<notin> set (labels_of ls)"
      using 2(4) label_not_in_range [of n "g_next_label ?g" s "g_next_label g1"] assms(2) by auto
    show ?thesis
    proof (rule wpl_intro)
      show "mthen (emit_instr ''JMP_IF_ANY'' [O_P p, O_Label ?l]) (mthen body (label_line ?l)) g
          = Inr ((), g1\<lparr>g_assembly := g_assembly g1 @ [L_Label ?l]\<rparr>)"
        using 2(1) by (simp add: code)
      show "g_assembly (g1\<lparr>g_assembly := g_assembly g1 @ [L_Label ?l]\<rparr>) = g_assembly g @ (?jump # ls @ [L_Label ?l])"
        using 2(2) by simp
      show "joined p W W1 W = None \<or> joined p W W1 W = runs (?jump # ls @ [L_Label ?l]) W"
        using new 2(5) by (rule run_over)
      show "Q () (g1\<lparr>g_assembly := g_assembly g1 @ [L_Label ?l]\<rparr>) (joined p W W1 W)"
        using 2(6) by simp
    qed (use 2(3,4) in auto)
  qed
qed

text \<open>Two branches: the first ends with a jump over the second.\<close>

lemma run_branches:
  assumes "l1 \<notin> set (labels_of xs)" and "l2 \<notin> set (labels_of ys)" and "l1 \<noteq> l2"
    and V: "V = None \<or> V = runs xs (stays p W)" and U: "U = None \<or> U = runs ys (leaps p W)"
  shows "joined p W V U = None
    \<or> joined p W V U = runs (L_Instr None ''JMP_IF_ANY'' [O_P p, O_Label l1] # xs @ L_Instr None ''JMP'' [O_Label l2]
        # L_Label l1 # ys @ [L_Label l2]) W"
proof (cases W)
  case (Some w)
  let ?rest = "L_Instr None ''JMP'' [O_Label l2] # L_Label l1 # ys @ [L_Label l2]"
  have over: "skip_to l1 (xs @ ?rest) = Some (ys @ [L_Label l2])"
    using skip_to_new [of l1 "xs @ [L_Instr None ''JMP'' [O_Label l2]]" "ys @ [L_Label l2]"] assms(1) by simp
  show ?thesis
  proof (cases "jumps p w")
    case jump: True
    show ?thesis
    proof (cases U)
      case (Some u)
      then have "run ys w = Some u"
        using \<open>W = Some w\<close> jump U by (auto simp: leaps_def)
      then have "run (ys @ [L_Label l2]) w = Some u"
        by (simp add: run_append)
      then show ?thesis
        using \<open>W = Some w\<close> jump Some over by (simp add: joined_def jumps_def)
    qed (use Some jump in \<open>simp add: joined_def\<close>)
  next
    case stay: False
    have past: "run ?rest u = Some u" for u
      using skip_to_new [of l2 "L_Label l1 # ys" "[]"] assms(2,3) by simp
    show ?thesis
    proof (cases V)
      case (Some v)
      then have "run xs w = Some v"
        using \<open>W = Some w\<close> stay V by (auto simp: stays_def)
      then have "run (xs @ ?rest) w = Some v"
        by (simp only: run_append past)
      then show ?thesis
        using \<open>W = Some w\<close> stay Some by (simp add: joined_def jumps_def)
    qed (use Some stay in \<open>simp add: joined_def\<close>)
  qed
qed (simp add: joined_def)

lemma wpl_branches:
  fixes T :: "'a gm" and E :: "'a \<Rightarrow> 'b gm"
  assumes "ready g" and "n < g_next_label g" and "k < g_next_label g" and "n \<noteq> k"
    and body: "\<And>g'. alike g g' \<Longrightarrow> wp T (\<lambda>x g1 W1. ready g1 \<and> (\<forall>h1. alike g1 h1 \<longrightarrow>
      wp (E x) (\<lambda>y g2 W2. \<forall>h2. alike g2 h2 \<longrightarrow> Q (K x) h2 (joined p W W1 W2)) h1 (leaps p W))) g' (stays p W)"
  shows "wpl {label_named t k, label_named s n} (mthen (emit_instr ''JMP_IF_ANY'' [O_P p, O_Label (label_named s n)])
    (mbind T (\<lambda>x. mthen (emit_instr ''JMP'' [O_Label (label_named t k)]) (mthen (label_line (label_named s n))
    (mbind (E x) (\<lambda>y. mthen (label_line (label_named t k)) (ret (K x)))))))) Q g W"
proof -
  let ?l = "label_named s n" and ?m = "label_named t k"
  let ?jump = "L_Instr None ''JMP_IF_ANY'' [O_P p, O_Label ?l]" and ?over = "L_Instr None ''JMP'' [O_Label ?m]"
  let ?g = "g\<lparr>g_assembly := g_assembly g @ [?jump]\<rparr>"
  let ?code = "mthen (emit_instr ''JMP_IF_ANY'' [O_P p, O_Label ?l])
    (mbind T (\<lambda>x. mthen (emit_instr ''JMP'' [O_Label ?m]) (mthen (label_line ?l)
    (mbind (E x) (\<lambda>y. mthen (label_line ?m) (ret (K x)))))))"
  let ?T = "\<lambda>x g1 W1. ready g1 \<and> (\<forall>h1. alike g1 h1 \<longrightarrow>
      wp (E x) (\<lambda>y g2 W2. \<forall>h2. alike g2 h2 \<longrightarrow> Q (K x) h2 (joined p W W1 W2)) h1 (leaps p W))"
  have guard: "ready h \<Longrightarrow> g_current_guard h = None" for h
    by (simp add: ready_def)
  have "wp T ?T ?g (stays p W)"
    by (rule body) simp
  then show ?thesis
  proof (cases rule: wp_elim)
    case (1 e)
    then show ?thesis
      by (simp add: wpl_def mthen_def mbind_def emit_plain [OF guard [OF assms(1)]])
  next
    case first: (2 x g1 xs W1)
    let ?h = "g1\<lparr>g_assembly := g_assembly g1 @ [?over, L_Label ?l]\<rparr>"
    have code: "?code g = rbind (E x ?h) (\<lambda>(y, g2). Inr (K x, g2\<lparr>g_assembly := g_assembly g2 @ [L_Label ?m]\<rparr>))"
      using first(1,6) by (simp add: mthen_def mbind_def emit_plain [OF guard] assms(1) label_line_run ret_def)
    have "wp (E x) (\<lambda>y g2 W2. \<forall>h2. alike g2 h2 \<longrightarrow> Q (K x) h2 (joined p W W1 W2)) ?h (leaps p W)"
      using first(6) by simp
    then show ?thesis
    proof (cases rule: wp_elim)
      case (1 e)
      then show ?thesis by (simp add: wpl_def code)
    next
      case (2 y g2 ys W2)
      have labels: "g_next_label g \<le> g_next_label g1" "g_next_label g1 \<le> g_next_label g2"
        "set (labels_of xs) \<subseteq> label_range (g_next_label g) (g_next_label g1)"
        "set (labels_of ys) \<subseteq> label_range (g_next_label g1) (g_next_label g2)"
        using first(3,4) 2(3,4) by simp_all
      have new: "?l \<notin> set (labels_of xs)" "?m \<notin> set (labels_of ys)" "?l \<noteq> ?m"
        using labels label_not_in_range [of n "g_next_label g" s "g_next_label g1"] assms(2,3,4)
          label_not_in_range [of k "g_next_label g1" t "g_next_label g2"] label_named_inj [of s n t k] by auto
      show ?thesis
      proof (rule wpl_intro)
        show "?code g = Inr (K x, g2\<lparr>g_assembly := g_assembly g2 @ [L_Label ?m]\<rparr>)"
          using 2(1) by (simp add: code)
        show "g_assembly (g2\<lparr>g_assembly := g_assembly g2 @ [L_Label ?m]\<rparr>)
            = g_assembly g @ (?jump # xs @ ?over # L_Label ?l # ys @ [L_Label ?m])"
          using first(2) 2(2) by simp
        show "joined p W W1 W2 = None \<or> joined p W W1 W2
            = runs (?jump # xs @ ?over # L_Label ?l # ys @ [L_Label ?m]) W"
          by (rule run_branches [OF new]) (use first(5) 2(5) in auto)
        show "Q (K x) (g2\<lparr>g_assembly := g_assembly g2 @ [L_Label ?m]\<rparr>) (joined p W W1 W2)"
          using 2(6) by simp
        have "label_range (g_next_label g) (g_next_label g1) \<subseteq> label_range (g_next_label g) (g_next_label g2)"
          "label_range (g_next_label g1) (g_next_label g2) \<subseteq> label_range (g_next_label g) (g_next_label g2)"
          using labels(1,2) by (simp_all add: label_range_mono)
        then show "set (labels_of (?jump # xs @ ?over # L_Label ?l # ys @ [L_Label ?m]))
            \<subseteq> label_range (g_next_label g) (g_next_label (g2\<lparr>g_assembly := g_assembly g2 @ [L_Label ?m]\<rparr>))
              \<union> {?m, ?l}"
          using labels(3,4) by auto
      qed (use labels in simp)
    qed
  qed
qed

section \<open>The conditional expression\<close>

lemma value_moved_from:
  assumes "computes P m g0 f c" and "extends g0 k" and "reaches k (insert out B) h" and "busy g0 \<subseteq> B"
    and out: "out < 13" "out \<notin> B"
    and Q: "\<And>h' V'. reaches k (insert out B) h' \<Longrightarrow> leaves P m g0 B out f V V' \<Longrightarrow> Q () h' V'"
  shows "wp (mbind c (\<lambda>v. mthen (emit_instr ''MOV'' [O_R out, O_R (v_reg v)]) (release v))) Q h V"
proof (rule wp_bind, rule value_from [OF assms(1-3)], use assms(4) in blast, rule wp_then)
  fix v h1 V1
  assume v: "gives P m g0 f k (insert out B) V v h1 V1"
  then have h1: "reaches k (insert out B \<union> own v) h1"
    by (simp add: gives_def)
  have bound: "insert out B \<union> own v \<subseteq> {..<13}"
    using h1 by (rule reaches_bound)
  have regs: "out \<noteq> SCRATCH" "out \<noteq> LANE_REG" "SCRATCH \<notin> B"
    using bound by (auto simp: LANE_REG_def SCRATCH_def)
  have "leaves P m g0 B out f V (runs [L_Instr None ''MOV'' [O_R out, O_R (v_reg v)]] V1)"
    unfolding leaves_def
  proof (intro allI impI)
    fix w x
    assume "V = Some w" "matches m g0 w" "f = Some x"
    with v obtain w1 where "V1 = Some w1" "kept P (insert out B) w w1" "same (w_regs w1 (v_reg v)) x"
      by (auto simp: gives_def leaves_def)
    then show "\<exists>w'. runs [L_Instr None ''MOV'' [O_R out, O_R (v_reg v)]] V1 = Some w' \<and> kept P B w w' \<and> same (w_regs w' out) x"
      using regs out by (auto simp: machine_simps kept_def)
  qed
  moreover have "own v \<subseteq> insert out B \<union> own v" "insert out B \<union> own v - own v = insert out B"
    using v by (auto simp: gives_def)
  ultimately show "wp (emit_instr ''MOV'' [O_R out, O_R (v_reg v)]) (\<lambda>_. wp (release v) Q) h1 V1"
    by - (rule instr_from [OF h1], rule release_from, assumption, assumption, rule Q, simp)
qed

lemma lanes_none: "\<not> list_ex q [0..<WARP_LANES] \<longleftrightarrow> (\<forall>lane<WARP_LANES. \<not> q lane)"
  by (auto simp: list_ex_iff)

lemma lanes_all_some: "\<forall>lane<WARP_LANES. q lane \<Longrightarrow> list_ex q [0..<WARP_LANES]"
  unfolding list_ex_iff by (rule bexI [of _ 0]) (auto simp: WARP_LANES_def)

lemma agreed_cases:
  assumes "agreed x = Some b"
  shows "b \<longrightarrow> (\<forall>lane<WARP_LANES. x lane \<noteq> 0)" "\<not> b \<longrightarrow> (\<forall>lane<WARP_LANES. x lane = 0)"
  using assms by (auto simp: agreed_def list_all_iff split: if_splits)

lemma branch_lines:
  assumes c: "leaves P m g0 B a fc W W1" "operand (busy g0 \<union> A) a" and g0: "busy g0 \<subseteq> B" "B \<subseteq> {..<13}" and P: "0 \<notin> P"
    and Wc: "Wc = runs [L_Instr None ''CMP_EQ'' [O_P 0, O_R a, O_Num 0]] W1"
    and t: "leaves P m g0 B out ft (stays 0 Wc) V" and e: "leaves P m g0 B out fe (leaps 0 Wc) U"
  shows "leaves P m g0 B out (Option.bind fc (\<lambda>x. Option.bind (agreed x) (\<lambda>b. if b then ft else fe))) W (joined 0 Wc V U)"
proof (rule leaves_bind [OF c(1) g0(1)])
  fix w x y
  assume w: "W1 = Some w" "matches m g0 w" "same (w_regs w a) x"
    and y: "Option.bind (agreed x) (\<lambda>b. if b then ft else fe) = Some y"
  from y obtain b where b: "agreed x = Some b" "(if b then ft else fe) = Some y"
    by (auto simp: bind_eq_Some_conv)
  let ?w = "write_pred 0 (\<lambda>_. True) (\<lambda>lane. w_regs w a lane = 0) (through_scratch 0 w)"
  have "a \<noteq> SCRATCH" "SCRATCH \<notin> B"
    using c(2) g0 by (auto simp: operand_def SCRATCH_def LANE_REG_def)
  then have Wc': "Wc = Some ?w" and kept: "kept P B w ?w"
    using w(1) P by (auto simp: Wc machine_simps kept_def)
  have matches: "matches m g0 ?w"
    by (rule matches_kept [OF w(2) kept g0(1)])
  show "\<exists>w'. joined 0 Wc V U = Some w' \<and> kept P B w w' \<and> same (w_regs w' out) y"
  proof (cases b)
    case True
    then have "\<not> jumps 0 ?w"
      using agreed_cases(1) [OF b(1)] w(3) by (simp add: jumps_def lanes_none same_def)
    then show ?thesis
      using t True b(2) matches kept Wc' by (fastforce simp: leaves_def joined_def stays_def intro: kept_again)
  next
    case False
    then have "jumps 0 ?w"
      using agreed_cases(2) [OF b(1)] w(3) by (simp add: jumps_def same_def lanes_all_some)
    then show ?thesis
      using e False b(2) matches kept Wc' by (fastforce simp: leaves_def joined_def leaps_def intro: kept_again)
  qed
qed

lemma branch_conditional_code:
  "branch_conditional c t e False sp =
     mbind (new_label ''conditional_else'') (\<lambda>otherwise.
     mbind (new_label ''conditional_end'') (\<lambda>end'.
     mbind c (\<lambda>v.
     mthen (emit_instr ''CMP_EQ'' [O_P 0, O_R (v_reg v), O_Num 0])
     (mthen (release v)
     (mthen (emit_instr ''JMP_IF_ANY'' [O_P 0, O_Label otherwise])
     (mbind (mbind (alloc_reg sp) (\<lambda>out.
        mthen (mbind t (\<lambda>v. mthen (emit_instr ''MOV'' [O_R out, O_R (v_reg v)]) (release v))) (ret out))) (\<lambda>out.
      mthen (emit_instr ''JMP'' [O_Label end'])
      (mthen (label_line otherwise)
      (mbind (mbind e (\<lambda>v. mthen (emit_instr ''MOV'' [O_R out, O_R (v_reg v)]) (release v))) (\<lambda>_.
       mthen (label_line end') (ret (owned out))))))))))))"
  by (simp add: branch_conditional_def jump_if_zero_def jump_if_def move_to_def mthen_def mbind_assoc)

lemma reaches_rebase:
  assumes "reaches g B h"
  shows "reaches h B h"
  using assms reaches_ready [OF assms] by (simp add: reaches_def)

lemma gives_rebase: "reaches g B k \<Longrightarrow> gives P m g0 f k B' W v h W' \<Longrightarrow> gives P m g0 f g B' W v h W'"
  by (auto simp: gives_def intro: reaches_comp)

lemma computes_branch:
  assumes "computes P m g0 fc c" and "computes P m g0 ft t" and "computes P m g0 fe e" and "0 \<notin> P"
  shows "computes P m g0 (Option.bind fc (\<lambda>x. Option.bind (agreed x) (\<lambda>b. if b then ft else fe)))
    (branch_conditional c t e False sp)"
  unfolding branch_conditional_code
proof (rule computesI, rule wp_wpl, rule wpl_label, rule wpl_label)
  fix g W n g1 k g2
  let ?B = "busy g" and ?f = "Option.bind fc (\<lambda>x. Option.bind (agreed x) (\<lambda>b. if b then ft else fe))"
  let ?o = "label_named ''conditional_else'' n" and ?e = "label_named ''conditional_end'' k"
  assume g: "extends g0 g" "reaches g ?B g" "busy g0 \<subseteq> ?B"
    and g1: "step g g1" "busy g1 = ?B" "g_protected g1 = g_protected g" "n < g_next_label g1"
    and g2: "step g1 g2" "busy g2 = busy g1" "g_protected g2 = g_protected g1" "k < g_next_label g2" "k = g_next_label g1"
  have base: "reaches g ?B g2"
    using g(2) g1 g2 by (auto intro: reaches_step)
  have k: "reaches g2 ?B g2" "extends g0 g2"
    using reaches_rebase [OF base] extends_reaches [OF g(1) base g(3)] by simp_all
  have labels: "n < g_next_label h" "k < g_next_label h" if "reaches g2 C h" for C h
    using that g1(4) g2(1,4) by (auto simp: reaches_def step_def)
  have B: "?B \<subseteq> {..<13}"
    using base by (rule reaches_bound)
  show "wpl {?e, ?o} (mbind c (\<lambda>v.
     mthen (emit_instr ''CMP_EQ'' [O_P 0, O_R (v_reg v), O_Num 0])
     (mthen (release v)
     (mthen (emit_instr ''JMP_IF_ANY'' [O_P 0, O_Label ?o])
     (mbind (mbind (alloc_reg sp) (\<lambda>out.
        mthen (mbind t (\<lambda>v. mthen (emit_instr ''MOV'' [O_R out, O_R (v_reg v)]) (release v))) (ret out))) (\<lambda>out.
      mthen (emit_instr ''JMP'' [O_Label ?e])
      (mthen (label_line ?o)
      (mbind (mbind e (\<lambda>v. mthen (emit_instr ''MOV'' [O_R out, O_R (v_reg v)]) (release v))) (\<lambda>_.
       mthen (label_line ?e) (ret (owned out)))))))))))
    (gives P m g0 ?f g ?B W) g2 W"
  proof (rule wpl_bind, rule value_from [OF assms(1) k(2,1) g(3)])
    fix v h1 W1
    assume v: "gives P m g0 fc g2 ?B W v h1 W1"
    let ?Wc = "runs [L_Instr None ''CMP_EQ'' [O_P 0, O_R (v_reg v), O_Num 0]] W1"
    have h1: "reaches g2 (?B \<union> own v) h1" and sub: "own v \<subseteq> ?B \<union> own v" "?B \<union> own v - own v = ?B"
      using v by (auto simp: gives_def)
    show "wpl {?e, ?o} (mthen (emit_instr ''CMP_EQ'' [O_P 0, O_R (v_reg v), O_Num 0])
     (mthen (release v)
     (mthen (emit_instr ''JMP_IF_ANY'' [O_P 0, O_Label ?o])
     (mbind (mbind (alloc_reg sp) (\<lambda>out.
        mthen (mbind t (\<lambda>v. mthen (emit_instr ''MOV'' [O_R out, O_R (v_reg v)]) (release v))) (ret out))) (\<lambda>out.
      mthen (emit_instr ''JMP'' [O_Label ?e])
      (mthen (label_line ?o)
      (mbind (mbind e (\<lambda>v. mthen (emit_instr ''MOV'' [O_R out, O_R (v_reg v)]) (release v))) (\<lambda>_.
       mthen (label_line ?e) (ret (owned out))))))))))
      (gives P m g0 ?f g ?B W) h1 W1"
    proof (rule wpl_then, rule instr_from [OF h1], rule wpl_then, rule release_from, assumption, rule sub(1))
      fix h3
      assume "reaches g2 (?B \<union> own v - own v) h3"
      then have h3: "reaches g2 ?B h3"
        by (simp only: sub)
      show "wpl {?e, ?o} (mthen (emit_instr ''JMP_IF_ANY'' [O_P 0, O_Label ?o])
        (mbind (mbind (alloc_reg sp) (\<lambda>out.
           mthen (mbind t (\<lambda>v. mthen (emit_instr ''MOV'' [O_R out, O_R (v_reg v)]) (release v))) (ret out))) (\<lambda>out.
         mthen (emit_instr ''JMP'' [O_Label ?e])
         (mthen (label_line ?o)
         (mbind (mbind e (\<lambda>v. mthen (emit_instr ''MOV'' [O_R out, O_R (v_reg v)]) (release v))) (\<lambda>_.
          mthen (label_line ?e) (ret (owned out)))))))) (gives P m g0 ?f g ?B W) h3 ?Wc"
      proof (rule wpl_branches [OF reaches_ready [OF h3] labels [OF h3]])
        show "n \<noteq> k"
          using g1(4) g2(5) by simp
        fix h4
        assume "alike h3 h4"
        then have h4: "reaches g2 ?B h4"
          by (rule alike_reaches [OF h3])
        show "wp (mbind (alloc_reg sp) (\<lambda>out.
            mthen (mbind t (\<lambda>v. mthen (emit_instr ''MOV'' [O_R out, O_R (v_reg v)]) (release v))) (ret out)))
          (\<lambda>out h5 V. ready h5 \<and> (\<forall>h6. alike h5 h6 \<longrightarrow>
            wp (mbind e (\<lambda>v. mthen (emit_instr ''MOV'' [O_R out, O_R (v_reg v)]) (release v)))
              (\<lambda>_ h7 U. \<forall>h8. alike h7 h8 \<longrightarrow> gives P m g0 ?f g ?B W (owned out) h8 (joined 0 ?Wc V U)) h6 (leaps 0 ?Wc)))
          h4 (stays 0 ?Wc)"
        proof (rule wp_bind, rule alloc_from [OF h4], rule wp_then, rule value_moved_from [OF assms(2) k(2) _ g(3)],
            assumption, assumption, assumption, rule wp_ret, intro conjI allI impI, erule reaches_ready)
          fix out h h5 V h6
          assume out: "out < 13" "out \<notin> ?B" and h5: "reaches g2 (insert out ?B) h5" "alike h5 h6"
            and V: "leaves P m g0 ?B out ft (stays 0 ?Wc) V"
          show "wp (mbind e (\<lambda>v. mthen (emit_instr ''MOV'' [O_R out, O_R (v_reg v)]) (release v)))
              (\<lambda>_ h7 U. \<forall>h8. alike h7 h8 \<longrightarrow> gives P m g0 ?f g ?B W (owned out) h8 (joined 0 ?Wc V U)) h6 (leaps 0 ?Wc)"
          proof (rule value_moved_from [OF assms(3) k(2) alike_reaches [OF h5] g(3) out], intro allI impI)
            fix h7 U h8
            assume h7: "reaches g2 (insert out ?B) h7" "alike h7 h8" and U: "leaves P m g0 ?B out fe (leaps 0 ?Wc) U"
            have "leaves P m g0 ?B out ?f W (joined 0 ?Wc V U)"
              by (rule branch_lines [OF _ _ g(3) B assms(4) HOL.refl V U]) (use v in \<open>auto simp: gives_def\<close>)
            then show "gives P m g0 ?f g ?B W (owned out) h8 (joined 0 ?Wc V U)"
              using out reaches_comp [OF base alike_reaches [OF h7]] by (intro own_owned_out)
          qed
        qed
      qed
    qed
  qed
qed

end
