(* ===== verification/Codegen_Logic.thy ===== *)
theory Codegen_Logic
  imports Codegen_Jumps
begin

text \<open>
  The logical operators, whose second operand is jumped over, and the selection between two cheap
  values.
\<close>

unbundle bit_operations_syntax

section \<open>Logical operators\<close>

definition logical_meaning :: "bool \<Rightarrow> vec option \<Rightarrow> vec \<Rightarrow> vec option" where
  "logical_meaning land h x =
     Option.bind (agreed x) (\<lambda>b.
       if b = land then map_option (\<lambda>y lane. truth (y lane \<noteq> 0)) h
       else Some (\<lambda>_. if land then 0 else 1))"

text \<open>What is left in front of the jump: the register of the result holds the value for the jump,
  and there is a jump unless the second operand counts.\<close>

definition decided :: "nat set \<Rightarrow> meanings \<Rightarrow> generator \<Rightarrow> nat set \<Rightarrow> bool \<Rightarrow> nat \<Rightarrow> nat \<Rightarrow> vec option
    \<Rightarrow> warp option \<Rightarrow> warp option \<Rightarrow> bool" where
  "decided P m g0 B land p out f W Wc \<longleftrightarrow>
     (\<forall>w x b. W = Some w \<longrightarrow> matches m g0 w \<longrightarrow> f = Some x \<longrightarrow> agreed x = Some b \<longrightarrow>
        (\<exists>wc. Wc = Some wc \<and> kept P B w wc \<and> w_regs wc out = (\<lambda>_. if land then 0 else 1) \<and> (jumps p wc \<longleftrightarrow> b \<noteq> land)))"

definition second_lines :: "bool \<Rightarrow> nat \<Rightarrow> nat \<Rightarrow> warp option \<Rightarrow> warp option" where
  "second_lines land out u V =
     runs [L_Instr (Some (False, 0)) ''MOV'' [O_R out, O_Num (if land then 1 else 0)]]
       (runs [L_Instr None (if land then ''CMP_NE'' else ''CMP_EQ'') [O_P 0, O_R u, O_Num 0]] V)"

lemma logical_lines:
  assumes d: "decided P m g0 B land p out f W Wc" and g0: "busy g0 \<subseteq> B" and P: "0 \<notin> P"
    and u: "leaves P m g0 (insert out B) u h (stays p Wc) V"
    and regs: "out \<notin> B" "out \<noteq> u" "out \<noteq> LANE_REG" "out \<noteq> SCRATCH" "u \<noteq> SCRATCH" "SCRATCH \<notin> B"
  shows "leaves P m g0 B out (Option.bind f (logical_meaning land h)) W (joined p Wc (second_lines land out u V) Wc)"
  unfolding leaves_def
proof (intro allI impI)
  fix w z
  assume W: "W = Some w" "matches m g0 w" and "Option.bind f (logical_meaning land h) = Some z"
  then obtain x b where f: "f = Some x" "agreed x = Some b"
    and z: "(if b = land then map_option (\<lambda>y lane. truth (y lane \<noteq> 0)) h else Some (\<lambda>_. if land then 0 else 1)) = Some z"
    by (auto simp: logical_meaning_def bind_eq_Some_conv)
  with d W obtain wc where wc: "Wc = Some wc" "kept P B w wc" "w_regs wc out = (\<lambda>_. if land then 0 else 1)"
    "jumps p wc \<longleftrightarrow> b \<noteq> land"
    unfolding decided_def by blast
  show "\<exists>w'. joined p Wc (second_lines land out u V) Wc = Some w' \<and> kept P B w w' \<and> same (w_regs w' out) z"
  proof (cases "b = land")
    case False
    with z wc show ?thesis
      by (auto simp: joined_def)
  next
    case True
    with z obtain y where y: "h = Some y" "z = (\<lambda>lane. truth (y lane \<noteq> 0))"
      by auto
    have "matches m g0 wc"
      by (rule matches_kept [OF W(2) wc(2) g0])
    with u wc(1,4) True y(1) obtain v where v: "V = Some v" "kept P (insert out B) wc v" "same (w_regs v u) y"
      unfolding leaves_def stays_def by auto
    have out: "w_regs v out = (\<lambda>_. if land then 0 else 1)"
      using kept_reg [OF v(2), of out] wc(3) by simp
    let ?m = "\<lambda>lane. if land then w_regs v u lane \<noteq> 0 else w_regs v u lane = 0"
    let ?v = "write_vector out ?m (\<lambda>_. if land then 1 else 0) (write_pred 0 (\<lambda>_. True) ?m (through_scratch 0 v))"
    have "second_lines land out u V = Some ?v"
      using v(1) regs(5) by (cases land) (simp_all add: second_lines_def machine_simps)
    moreover have "kept P B v ?v"
      using regs P by (auto simp: kept_def)
    then have "kept P B w ?v"
      using wc(2) kept_less [OF v(2)] by (blast intro: kept_again)
    moreover have "same (w_regs ?v out) z"
      using v(3) out regs by (auto simp: same_def y(2) truth_def)
    ultimately show ?thesis
      using True wc(1,4) by (auto simp: joined_def)
  qed
qed

lemma decided_lines:
  assumes v: "leaves P m g0 (insert out B) a f W0 W1" and op: "operand (busy g0 \<union> A) a" and g0: "busy g0 \<subseteq> B" "B \<subseteq> {..<13}"
    and P: "0 \<notin> P" "1 \<notin> P" and out: "out \<notin> B" "out < 13" "out \<noteq> a"
  shows "decided P m g0 B True 1 out f W0
      (runs [L_Instr None ''NOTMASK'' [O_P 1, O_P 0]]
      (runs [L_Instr None ''MOV'' [O_R out, O_Num 0]]
      (runs [L_Instr None ''CMP_NE'' [O_P 0, O_R a, O_Num 0]] W1)))"
    and "decided P m g0 B False 0 out f W0
      (runs [L_Instr None ''MOV'' [O_R out, O_Num 1]]
      (runs [L_Instr None ''CMP_NE'' [O_P 0, O_R a, O_Num 0]] W1))"
proof -
  have regs: "a \<noteq> SCRATCH" "SCRATCH \<notin> B" "out \<noteq> LANE_REG" "out \<noteq> SCRATCH"
    using op g0 out by (auto simp: operand_def SCRATCH_def LANE_REG_def)
  have first: "\<exists>w1. W1 = Some w1 \<and> kept P B w w1 \<and> same (w_regs w1 a) x"
    if "W0 = Some w" "matches m g0 w" "f = Some x" for w x
    using v that unfolding leaves_def by (blast intro: kept_less)
  show "decided P m g0 B True 1 out f W0
      (runs [L_Instr None ''NOTMASK'' [O_P 1, O_P 0]]
      (runs [L_Instr None ''MOV'' [O_R out, O_Num 0]]
      (runs [L_Instr None ''CMP_NE'' [O_P 0, O_R a, O_Num 0]] W1)))"
    unfolding decided_def
  proof (intro allI impI)
    fix w x b
    assume W: "W0 = Some w" "matches m g0 w" "f = Some x" "agreed x = Some b"
    from first [OF W(1-3)] obtain w1 where w1: "W1 = Some w1" "kept P B w w1" "same (w_regs w1 a) x"
      by blast
    let ?w = "write_pred 1 (\<lambda>_. True) (\<lambda>lane. w_regs w1 a lane = 0) (write_vector out (\<lambda>_. True) (\<lambda>_. 0)
      (write_pred 0 (\<lambda>_. True) (\<lambda>lane. w_regs w1 a lane \<noteq> 0) (through_scratch 0 w1)))"
    have "jumps 1 ?w \<longleftrightarrow> b \<noteq> True"
      using agreed_cases [OF W(4)] w1(3) lanes_none [of "\<lambda>lane. w_regs w1 a lane = 0"]
        lanes_all_some [of "\<lambda>lane. w_regs w1 a lane = 0"] by (cases b) (auto simp: jumps_def same_def)
    moreover have "kept P B w1 ?w"
      using regs out P by (auto simp: kept_def)
    ultimately show "\<exists>wc. runs [L_Instr None ''NOTMASK'' [O_P 1, O_P 0]]
        (runs [L_Instr None ''MOV'' [O_R out, O_Num 0]]
        (runs [L_Instr None ''CMP_NE'' [O_P 0, O_R a, O_Num 0]] W1)) = Some wc \<and>
      kept P B w wc \<and> w_regs wc out = (\<lambda>_. if True then 0 else 1) \<and> (jumps 1 wc \<longleftrightarrow> b \<noteq> True)"
      using w1(1,2) regs by (intro exI [of _ ?w]) (auto simp: machine_simps intro: kept_again)
  qed
  show "decided P m g0 B False 0 out f W0
      (runs [L_Instr None ''MOV'' [O_R out, O_Num 1]]
      (runs [L_Instr None ''CMP_NE'' [O_P 0, O_R a, O_Num 0]] W1))"
    unfolding decided_def
  proof (intro allI impI)
    fix w x b
    assume W: "W0 = Some w" "matches m g0 w" "f = Some x" "agreed x = Some b"
    from first [OF W(1-3)] obtain w1 where w1: "W1 = Some w1" "kept P B w w1" "same (w_regs w1 a) x"
      by blast
    let ?w = "write_vector out (\<lambda>_. True) (\<lambda>_. 1)
      (write_pred 0 (\<lambda>_. True) (\<lambda>lane. w_regs w1 a lane \<noteq> 0) (through_scratch 0 w1))"
    have "jumps 0 ?w \<longleftrightarrow> b \<noteq> False"
      using agreed_cases [OF W(4)] w1(3) lanes_none [of "\<lambda>lane. w_regs w1 a lane \<noteq> 0"]
        lanes_all_some [of "\<lambda>lane. w_regs w1 a lane \<noteq> 0"] by (cases b) (auto simp: jumps_def same_def)
    moreover have "kept P B w1 ?w"
      using regs out P by (auto simp: kept_def)
    ultimately show "\<exists>wc. runs [L_Instr None ''MOV'' [O_R out, O_Num 1]]
        (runs [L_Instr None ''CMP_NE'' [O_P 0, O_R a, O_Num 0]] W1) = Some wc \<and>
      kept P B w wc \<and> w_regs wc out = (\<lambda>_. if False then 0 else 1) \<and> (jumps 0 wc \<longleftrightarrow> b \<noteq> False)"
      using w1(1,2) regs by (intro exI [of _ ?w]) (auto simp: machine_simps intro: kept_again)
  qed
qed

definition second_code :: "bool \<Rightarrow> nat \<Rightarrow> gvalue gm \<Rightarrow> unit gm" where
  "second_code land out r =
     mthen (protect (owned out)) (mbind r (\<lambda>right.
     mthen (unprotect (owned out))
     (mthen (emit_instr (if land then ''CMP_NE'' else ''CMP_EQ'') [O_P 0, O_R (v_reg right), O_Num 0])
     (mthen (release right) (guarded_instr 0 False ''MOV'' [O_R out, O_Num (if land then 1 else 0)])))))"

definition first_code :: "bool \<Rightarrow> nat \<Rightarrow> gvalue \<Rightarrow> unit gm" where
  "first_code land out left =
     mthen (emit_instr ''CMP_NE'' [O_P 0, O_R (v_reg left), O_Num 0])
     (mthen (release left)
       (if land then mthen (emit_instr ''MOV'' [O_R out, O_Num 0]) (emit_instr ''NOTMASK'' [O_P 1, O_P 0])
        else emit_instr ''MOV'' [O_R out, O_Num 1]))"

lemma logical_unfold:
  assumes "land \<longleftrightarrow> op = B_LogicalAnd"
  shows "logical_code op l r sp =
     mbind (alloc_reg sp) (\<lambda>out.
     mbind (new_label ''logical_end'') (\<lambda>end'.
     mbind l (\<lambda>left.
     mthen (first_code land out left)
     (mthen (mthen (emit_instr ''JMP_IF_ANY'' [O_P (if land then 1 else 0), O_Label end'])
        (mthen (second_code land out r) (label_line end'))) (ret (owned out))))))"
  using assms by (cases land) (simp_all add: logical_code_def first_code_def second_code_def mthen_def mbind_assoc)

lemma first_from:
  assumes v: "gives P m g0 f k (insert out B) W v h1 W1" and g0: "busy g0 \<subseteq> B" and P: "0 \<notin> P" "1 \<notin> P"
    and out: "out \<notin> B"
    and Q: "\<And>h' Wc. reaches k (insert out B) h' \<Longrightarrow> decided P m g0 B land (if land then 1 else 0) out f W Wc \<Longrightarrow> Q () h' Wc"
  shows "wp (first_code land out v) Q h1 W1"
proof -
  have h1: "reaches k (insert out B \<union> own v) h1" and l: "leaves P m g0 (insert out B) (v_reg v) f W W1"
    and op: "operand (busy g0 \<union> own v) (v_reg v)"
    and sub: "own v \<subseteq> insert out B \<union> own v" "insert out B \<union> own v - own v = insert out B"
    using v by (auto simp: gives_def)
  have bound: "B \<subseteq> {..<13}" "out < 13"
    using reaches_bound [OF h1] by auto
  have "out \<noteq> v_reg v"
    using v out g0 bound(2) by (auto simp: gives_def operand_def LANE_REG_def)
  note lines = decided_lines [OF l op g0 bound(1) P out bound(2) this]
  show ?thesis
  proof (cases land)
    case True
    show ?thesis
      unfolding first_code_def if_P [OF True]
      by (rule wp_then, rule instr_from [OF h1], rule wp_then, rule release_from, assumption, rule sub(1), unfold sub(2),
          rule wp_then, rule instr_from, assumption, rule instr_from, assumption, rule Q, assumption)
        (use lines(1) True in simp)
  next
    case False
    show ?thesis
      unfolding first_code_def if_not_P [OF False]
      by (rule wp_then, rule instr_from [OF h1], rule wp_then, rule release_from, assumption, rule sub(1), unfold sub(2),
          rule instr_from, assumption, rule Q, assumption) (use lines(2) False in simp)
  qed
qed

lemma second_from:
  assumes "computes P m g0 h r" and k: "extends g0 k" "reaches k (insert out B) h1" and g0: "busy g0 \<subseteq> B"
    and d: "decided P m g0 B land p out f W Wc" and P: "0 \<notin> P" and out: "out \<notin> B"
    and Q: "\<And>h' W'. reaches k (insert out B) h'
      \<Longrightarrow> leaves P m g0 B out (Option.bind f (logical_meaning land h)) W (joined p Wc W' Wc) \<Longrightarrow> Q () h' W'"
  shows "wp (second_code land out r) Q h1 (stays p Wc)"
  unfolding second_code_def
proof (rule protected_value_from [OF assms(1) k], use g0 in blast)
  fix u h2 V
  assume u: "gives P m g0 h k (insert out B) (stays p Wc) u h2 V"
  then have h2: "reaches k (insert out B \<union> own u) h2" and l: "leaves P m g0 (insert out B) (v_reg u) h (stays p Wc) V"
    and sub: "own u \<subseteq> insert out B \<union> own u" "insert out B \<union> own u - own u = insert out B"
    by (auto simp: gives_def)
  have regs: "out \<noteq> v_reg u" "out \<noteq> LANE_REG" "out \<noteq> SCRATCH" "v_reg u \<noteq> SCRATCH" "SCRATCH \<notin> B"
    using u out g0 reaches_bound [OF h2] by (auto simp: gives_def operand_def LANE_REG_def SCRATCH_def)
  have "leaves P m g0 B out (Option.bind f (logical_meaning land h)) W (joined p Wc (second_lines land out (v_reg u) V) Wc)"
    by (rule logical_lines [OF d g0 P l out regs])
  then show "wp (mthen (emit_instr (if land then ''CMP_NE'' else ''CMP_EQ'') [O_P 0, O_R (v_reg u), O_Num 0])
     (mthen (release u) (guarded_instr 0 False ''MOV'' [O_R out, O_Num (if land then 1 else 0)]))) Q h2 V"
    by - (rule wp_then, rule instr_from [OF h2], rule wp_then, rule release_from, assumption, rule sub(1), unfold sub(2),
      rule guarded_from, assumption, rule Q, assumption, simp only: second_lines_def)
qed

lemma computes_logical:
  assumes "computes P m g0 f l" and "computes P m g0 h r" and P: "0 \<notin> P" "1 \<notin> P" and land: "land \<longleftrightarrow> op = B_LogicalAnd"
  shows "computes P m g0 (Option.bind f (logical_meaning land h)) (logical_code op l r sp)"
  unfolding logical_unfold [OF land]
proof (rule computesI, rule wp_wpl, rule wpl_bind, rule alloc_from, assumption, rule wpl_label)
  fix g W out g1 n g2
  let ?B = "busy g" and ?f = "Option.bind f (logical_meaning land h)" and ?l = "label_named ''logical_end'' n"
    and ?p = "if land then 1 else 0 :: nat"
  assume g: "extends g0 g" "reaches g ?B g" "busy g0 \<subseteq> ?B" and out: "out < 13" "out \<notin> ?B"
    and g1: "reaches g (insert out ?B) g1"
    and g2: "step g1 g2" "busy g2 = busy g1" "g_protected g2 = g_protected g1" "n < g_next_label g2"
  have base: "reaches g (insert out ?B) g2"
    using g1 g2 reaches_busy [OF g1] by (auto intro: reaches_step)
  have k: "reaches g2 (insert out ?B) g2" "extends g0 g2"
    using reaches_rebase [OF base] extends_reaches [OF g(1) base] g(3) by auto
  have label: "n < g_next_label h" if "reaches g2 C h" for C h
    using that g2(4) by (auto simp: reaches_def step_def)
  show "wpl {?l} (mbind l (\<lambda>left. mthen (first_code land out left)
     (mthen (mthen (emit_instr ''JMP_IF_ANY'' [O_P ?p, O_Label ?l])
        (mthen (second_code land out r) (label_line ?l))) (ret (owned out))))) (gives P m g0 ?f g ?B W) g2 W"
  proof (rule wpl_bind, rule value_from [OF assms(1) k(2,1)], use g(3) in blast,
      rule wpl_then, rule first_from [OF _ g(3) P out(2)], assumption, rule wpl_last)
    fix h3 Wc
    assume h3: "reaches g2 (insert out ?B) h3" and d: "decided P m g0 ?B land ?p out f W Wc"
    show "wpl {?l} (mthen (emit_instr ''JMP_IF_ANY'' [O_P ?p, O_Label ?l]) (mthen (second_code land out r) (label_line ?l)))
      (\<lambda>_. gives P m g0 ?f g ?B W (owned out)) h3 Wc"
    proof (rule wpl_jump_over [OF reaches_ready [OF h3] label [OF h3]])
      fix h4
      assume "alike h3 h4"
      then have h4: "reaches g2 (insert out ?B) h4"
        by (rule alike_reaches [OF h3])
      show "wp (second_code land out r)
        (\<lambda>_ h5 V. \<forall>h6. alike h5 h6 \<longrightarrow> gives P m g0 ?f g ?B W (owned out) h6 (joined ?p Wc V Wc)) h4 (stays ?p Wc)"
      proof (rule second_from [OF assms(2) k(2) h4 g(3) d P(1) out(2)], intro allI impI)
        fix h5 V h6
        assume "reaches g2 (insert out ?B) h5" "alike h5 h6" "leaves P m g0 ?B out ?f W (joined ?p Wc V Wc)"
        then show "gives P m g0 ?f g ?B W (owned out) h6 (joined ?p Wc V Wc)"
          using out reaches_comp [OF base alike_reaches] by (intro own_owned_out)
      qed
    qed
  qed
qed

section \<open>Selections\<close>

lemma select_lines:
  assumes c: "leaves P m g0 B a fc W W1" and a: "a \<noteq> SCRATCH" and g0: "busy g0 \<subseteq> B" "B \<subseteq> {..<13}" and P: "1 \<notin> P"
    and e: "leaves (insert 1 P) m g0 B out fe (runs [L_Instr None ''CMP_NE'' [O_P 1, O_R a, O_Num 0]] W1) W2"
    and t: "leaves (insert 1 P) m g0 (insert out B) u ft W2 W3" and out: "out \<notin> B" "out < 13" "u \<noteq> out"
  shows "leaves P m g0 B out (Option.bind fc (\<lambda>x. Option.bind ft (\<lambda>y. Option.bind fe (\<lambda>z.
      Some (\<lambda>lane. if x lane \<noteq> 0 then y lane else z lane))))) W
    (runs [L_Instr (Some (False, 1)) ''MOV'' [O_R out, O_R u]] W3)"
  unfolding leaves_def
proof (intro allI impI)
  fix w s
  assume W: "W = Some w" "matches m g0 w" and "Option.bind fc (\<lambda>x. Option.bind ft (\<lambda>y. Option.bind fe (\<lambda>z.
      Some (\<lambda>lane. if x lane \<noteq> 0 then y lane else z lane)))) = Some s"
  then obtain x y z where f: "fc = Some x" "ft = Some y" "fe = Some z" and s: "s = (\<lambda>lane. if x lane \<noteq> 0 then y lane else z lane)"
    by (auto simp: bind_eq_Some_conv)
  from c W f(1) obtain w1 where w1: "W1 = Some w1" "kept P B w w1" "same (w_regs w1 a) x"
    by (auto simp: leaves_def)
  have regs: "SCRATCH \<notin> B" "out \<noteq> LANE_REG" "out \<noteq> SCRATCH"
    using g0(2) out by (auto simp: LANE_REG_def SCRATCH_def)
  let ?w = "write_pred 1 (\<lambda>_. True) (\<lambda>lane. w_regs w1 a lane \<noteq> 0) (through_scratch 0 w1)"
  have cmp: "runs [L_Instr None ''CMP_NE'' [O_P 1, O_R a, O_Num 0]] W1 = Some ?w" and keep: "kept P B w1 ?w"
    using w1(1) a regs P by (auto simp: machine_simps kept_def)
  have m1: "matches m g0 ?w"
    by (rule matches_kept [OF matches_kept [OF W(2) w1(2) g0(1)] keep g0(1)])
  from e cmp m1 f(3) obtain w2 where w2: "W2 = Some w2" "kept (insert 1 P) B ?w w2" "same (w_regs w2 out) z"
    by (auto simp: leaves_def)
  from t w2(1) matches_kept [OF m1 w2(2) g0(1)] f(2) obtain w3 where w3: "W3 = Some w3" "kept (insert 1 P) (insert out B) w2 w3"
    "same (w_regs w3 u) y"
    by (auto simp: leaves_def)
  have "w_preds w3 1 = w_preds ?w 1" "w_regs w3 out = w_regs w2 out"
    using w2(2) w3(2) by (simp_all add: kept_def)
  then have p: "w_preds w3 1 = (\<lambda>lane. w_regs w1 a lane \<noteq> 0)" and o: "same (w_regs w3 out) z"
    using w2(3) by simp_all
  let ?v = "write_vector out (w_preds w3 1) (w_regs w3 u) w3"
  have "runs [L_Instr (Some (False, 1)) ''MOV'' [O_R out, O_R u]] W3 = Some ?v"
    using w3(1) by (simp add: machine_simps)
  moreover have "kept P B ?w w3"
    using w2(2) w3(2) by (auto simp: kept_def)
  then have "kept P B w w3"
    using w1(2) keep by (blast intro: kept_again)
  then have "kept P B w ?v"
    using out regs by (auto simp: kept_def)
  moreover have "same (w_regs ?v out) s"
    using p o w1(3) w3(3) by (simp add: same_def s)
  ultimately show "\<exists>w'. runs [L_Instr (Some (False, 1)) ''MOV'' [O_R out, O_R u]] W3 = Some w' \<and> kept P B w w'
      \<and> same (w_regs w' out) s"
    by blast
qed

lemma cheap_unfold:
  "cheap_conditional c t e sp =
     mbind c (\<lambda>condition.
     mthen (raw_instr ''CMP_NE'' [O_P 1, O_R (v_reg condition), O_Num 0])
     (mthen (release condition)
     (mbind (alloc_reg sp) (\<lambda>out.
      mthen (mbind e (\<lambda>otherwise. mthen (emit_instr ''MOV'' [O_R out, O_R (v_reg otherwise)]) (release otherwise)))
      (mthen (protect (owned out))
      (mbind t (\<lambda>selected.
       mthen (unprotect (owned out))
       (mthen (guarded_instr 1 False ''MOV'' [O_R out, O_R (v_reg selected)])
       (mthen (release selected) (ret (owned out)))))))))))"
  by (simp add: cheap_conditional_def mthen_def mbind_assoc)

lemma raw_from:
  assumes "reaches g B h" and "\<And>h'. reaches g B h' \<Longrightarrow> Q () h' (runs [L_Instr None m ops] W)"
  shows "wp (raw_instr m ops) Q h W"
  by (rule wp_raw) (use assms(2) reaches_step [OF assms(1)] reaches_busy [OF assms(1)] in auto)

lemma computes_select:
  assumes "computes P m g0 fc c" and "computes (insert 1 P) m g0 ft t" and "computes (insert 1 P) m g0 fe e" and P: "1 \<notin> P"
  shows "computes P m g0 (Option.bind fc (\<lambda>x. Option.bind ft (\<lambda>y. Option.bind fe (\<lambda>z.
      Some (\<lambda>lane. if x lane \<noteq> 0 then y lane else z lane))))) (cheap_conditional c t e sp)"
  unfolding cheap_unfold
proof (rule computesI, rule wp_bind, rule value_from [OF assms(1)], assumption, assumption, assumption)
  fix g W v h1 W1
  let ?B = "busy g" and ?f = "Option.bind fc (\<lambda>x. Option.bind ft (\<lambda>y. Option.bind fe (\<lambda>z.
      Some (\<lambda>lane. if x lane \<noteq> 0 then y lane else z lane))))"
  let ?Q = "gives P m g0 ?f g ?B W"
  assume g: "extends g0 g" "reaches g ?B g" "busy g0 \<subseteq> ?B" and v: "gives P m g0 fc g ?B W v h1 W1"
  then have h1: "reaches g (?B \<union> own v) h1" and sub: "own v \<subseteq> ?B \<union> own v" "?B \<union> own v - own v = ?B"
    and c: "leaves P m g0 ?B (v_reg v) fc W W1" and a: "v_reg v \<noteq> SCRATCH"
    by (auto simp: gives_def operand_def LANE_REG_def SCRATCH_def)
  have B: "?B \<subseteq> {..<13}"
    using g(2) by (rule reaches_bound)
  show "wp (mthen (raw_instr ''CMP_NE'' [O_P 1, O_R (v_reg v), O_Num 0])
     (mthen (release v)
     (mbind (alloc_reg sp) (\<lambda>out.
      mthen (mbind e (\<lambda>otherwise. mthen (emit_instr ''MOV'' [O_R out, O_R (v_reg otherwise)]) (release otherwise)))
      (mthen (protect (owned out))
      (mbind t (\<lambda>selected.
       mthen (unprotect (owned out))
       (mthen (guarded_instr 1 False ''MOV'' [O_R out, O_R (v_reg selected)])
       (mthen (release selected) (ret (owned out))))))))))) ?Q h1 W1"
  proof (rule wp_then, rule raw_from [OF h1], rule wp_then, rule release_from, assumption, rule sub(1), unfold sub(2),
      rule wp_bind, rule alloc_from, assumption, rule wp_then, rule value_moved_from [OF assms(3) g(1) _ g(3)],
      assumption, assumption, assumption, rule protected_value_from [OF assms(2) g(1)], assumption, use g(3) in blast)
    fix h2 out h3 h4 W2 u h5 W3
    assume out: "out < 13" "out \<notin> ?B"
      and e: "leaves (insert 1 P) m g0 ?B out fe (runs [L_Instr None ''CMP_NE'' [O_P 1, O_R (v_reg v), O_Num 0]] W1) W2"
      and u: "gives (insert 1 P) m g0 ft g (insert out ?B) W2 u h5 W3"
    then have h5: "reaches g (insert out ?B \<union> own u) h5" and t: "leaves (insert 1 P) m g0 (insert out ?B) (v_reg u) ft W2 W3"
      and subu: "own u \<subseteq> insert out ?B \<union> own u" "insert out ?B \<union> own u - own u = insert out ?B"
      and uout: "v_reg u \<noteq> out"
      using g(3) by (auto simp: gives_def operand_def LANE_REG_def)
    have "leaves P m g0 ?B out ?f W (runs [L_Instr (Some (False, 1)) ''MOV'' [O_R out, O_R (v_reg u)]] W3)"
      by (rule select_lines [OF c a g(3) B P e t out(2,1) uout])
    then show "wp (mthen (guarded_instr 1 False ''MOV'' [O_R out, O_R (v_reg u)]) (mthen (release u) (ret (owned out)))) ?Q h5 W3"
      by - (rule wp_then, rule guarded_from [OF h5], rule wp_then, rule release_from, assumption, rule subu(1), unfold subu(2),
        rule wp_ret, rule own_owned_out [OF out], assumption)
  qed
qed

end
