(* ===== verification/Codegen_Sound.thy ===== *)
theory Codegen_Sound
  imports Codegen_Logic
begin

text \<open>
  The code of an expression computes its meaning. \<open>supported\<close> decides which expressions the
  statement is about: those without effects and calls whose operands have homes, and without
  conditionals that need a mask. By induction over the tree, \<open>expr_code\<close> of a supported
  expression leaves its meaning in the register of the result.
\<close>

unbundle bit_operations_syntax

section \<open>Supported expressions\<close>

definition intrinsic_supported :: "intrinsic \<Rightarrow> typed_expr list \<Rightarrow> bool" where
  "intrinsic_supported i args =
     (case i of
        I_LaneId \<Rightarrow> args = []
      | I_VmId \<Rightarrow> args = []
      | I_Framebuffer \<Rightarrow> args = []
      | I_Argb \<Rightarrow> length args = 4
      | I_Broadcast \<Rightarrow> length args = 2
      | I_Shuffle \<Rightarrow> length args = 2
      | I_ShuffleXor \<Rightarrow> length args = 2 \<and> literal_of (args ! 1) \<noteq> None
      | I_MinUnsigned \<Rightarrow> length args = 2
      | I_MaxUnsigned \<Rightarrow> length args = 2
      | I_MinSigned \<Rightarrow> length args = 2
      | I_MaxSigned \<Rightarrow> length args = 2
      | I_Flip \<Rightarrow> False
      | I_SetPixel \<Rightarrow> False
      | I_Send \<Rightarrow> False
      | I_TryRecv \<Rightarrow> False
      | _ \<Rightarrow> length args = 1)"

definition frame_home :: "generator \<Rightarrow> nat \<Rightarrow> bool" where
  "frame_home g i \<longleftrightarrow> i < length (g_local_storage g) \<and>
     (case g_local_storage g ! i of Some (St_Frame _) \<Rightarrow> True | _ \<Rightarrow> False)"

fun supported :: "generator \<Rightarrow> typed_expr \<Rightarrow> bool"
and kind_supported :: "generator \<Rightarrow> typed_kind \<Rightarrow> ctype \<Rightarrow> bool"
and all_supported :: "generator \<Rightarrow> typed_expr list \<Rightarrow> bool"
and address_supported :: "generator \<Rightarrow> lvalue \<Rightarrow> bool" where
  "supported g (TExpr k ty u sp) = kind_supported g k ty"
| "kind_supported g (TE_Literal v) ty = True"
| "kind_supported g (TE_StringAddress a) ty = True"
| "kind_supported g (TE_Intrinsic i args) ty = (intrinsic_supported i args \<and> all_supported g args)"
| "kind_supported g (TE_LValue l) ty =
     (if is_array ty \<or> is_struct ty then address_supported g l
      else case l of LV_Local i \<Rightarrow> readable g i | _ \<Rightarrow> address_supported g l)"
| "kind_supported g (TE_AddressOf l) ty = address_supported g l"
| "kind_supported g (TE_Unary op e) ty = (unary_meaning op \<noteq> None \<and> supported g e)"
| "kind_supported g (TE_Binary op l r operand_type) ty =
     ((op = B_Comma \<or> op = B_LogicalAnd \<or> op = B_LogicalOr \<or> binary_meaning op operand_type \<noteq> None)
      \<and> supported g l \<and> supported g r)"
| "kind_supported g (TE_Conditional c t e) ty =
     ((if te_uniformity c = Divergent
       then is_integer ty \<and> cheap_select_expr c \<and> cheap_select_expr t \<and> cheap_select_expr e
       else ty \<noteq> T_VOID)
      \<and> supported g c \<and> supported g t \<and> supported g e)"
| "kind_supported g (TE_PointerAdd b i scale subtract) ty = (supported g b \<and> supported g i)"
| "kind_supported g (TE_PointerDiff l r scale) ty = (supported g l \<and> supported g r)"
| "kind_supported g _ ty = False"
| "all_supported g [] = True"
| "all_supported g (e # es) = (supported g e \<and> all_supported g es)"
| "address_supported g (LV_Local i) = frame_home g i"
| "address_supported g (LV_Global i) = (i < length (g_globals g))"
| "address_supported g (LV_Deref e) = supported g e"
| "address_supported g (LV_Index b i scale) = (supported g b \<and> supported g i)"
| "address_supported g (LV_Member l offset) = address_supported g l"

section \<open>Intrinsics\<close>

lemma meaning_of_literal: "literal_of e = Some k \<Longrightarrow> meaning m e = Some (\<lambda>_. k)"
  by (cases e) (auto simp: literal_of_def split: typed_kind.splits)

lemma constant_second: "literal_of a = Some k \<Longrightarrow> constant_argument [e, a] 1 = Some k"
  by (simp add: literal_of_def constant_argument_def split: typed_kind.splits)

lemma bind_lists:
  "Option.bind (list_meaning m [a]) F = Option.bind (meaning m a) (\<lambda>x. F [x])"
  "Option.bind (list_meaning m [a, b]) F = Option.bind (meaning m a) (\<lambda>x. Option.bind (meaning m b) (\<lambda>y. F [x, y]))"
  "Option.bind (list_meaning m [a, b, c, d]) F = Option.bind (meaning m a) (\<lambda>x. Option.bind (meaning m b) (\<lambda>y.
     Option.bind (meaning m c) (\<lambda>z. Option.bind (meaning m d) (\<lambda>u. F [x, y, z, u]))))"
  by (simp_all split: Option.bind_split)

lemma reduce_mnemonics:
  assumes "i \<in> {I_ReduceAdd, I_ReduceAddUnsigned, I_ReduceMinUnsigned, I_ReduceMaxUnsigned, I_ReduceAnd, I_ReduceOr, I_ReduceXor}"
  obtains h where "reduce (reduce_mnemonic i) = Some h" and "alu_unary (reduce_mnemonic i) = None"
    and "reduce_mnemonic i \<notin> {''LOAD'', ''STORE''}" and "\<And>vm args x. intrinsic_meaning vm i args [x] = Some (\<lambda>_. h x)"
proof -
  have "\<exists>h. reduce (reduce_mnemonic i) = Some h \<and> (\<forall>vm args x. intrinsic_meaning vm i args [x] = Some (\<lambda>_. h x))"
    using assms by (auto simp: reduce_mnemonic_def reduce_def intrinsic_meaning_def sum_lanes)
  moreover have "alu_unary (reduce_mnemonic i) = None" "reduce_mnemonic i \<notin> {''LOAD'', ''STORE''}"
    by (simp_all add: reduce_mnemonic_def alu_unary_def)
  ultimately show ?thesis
    using that by blast
qed

lemma computes_intrinsic:
  assumes cs: "list_all2 (computes P m g0) (map (meaning m) args) cs" and i: "intrinsic_supported i args" and P: "0 \<notin> P"
  shows "computes P m g0 (Option.bind (list_meaning m args) (intrinsic_meaning (m_vm_id m) i args)) (intrinsic_code i args cs sp)"
proof -
  let ?F = "intrinsic_meaning (m_vm_id m) i args"
  have none: "computes P m g0 (?F []) (intrinsic_code i args [] sp)" if "i \<in> {I_LaneId, I_VmId, I_Framebuffer}"
    using that computes_lane_id computes_vm_id computes_immediate [of P m g0 "unat WARP_VIDEO_BASE" sp]
    by (auto simp: intrinsic_meaning_def intrinsic_code_def)
  have one: "computes P m g0 (Option.bind f (\<lambda>x. ?F [x])) (intrinsic_code i args [c] sp)"
    if "computes P m g0 f c" and "i \<in> {I_Ballot, I_Any, I_All, I_ReduceAdd, I_ReduceAddUnsigned, I_ReduceMinUnsigned,
      I_ReduceMaxUnsigned, I_ReduceAnd, I_ReduceOr, I_ReduceXor, I_ReduceMinSigned, I_ReduceMaxSigned}" for f c
  proof -
    consider "i = I_Ballot" | "i \<in> {I_Any, I_All}" | "i \<in> {I_ReduceMinSigned, I_ReduceMaxSigned}"
      | "i \<in> {I_ReduceAdd, I_ReduceAddUnsigned, I_ReduceMinUnsigned, I_ReduceMaxUnsigned, I_ReduceAnd, I_ReduceOr, I_ReduceXor}"
      using \<open>i \<in> {I_Ballot, _, _, _, _, _, _, _, _, _, _, _}\<close> by blast
    then show ?thesis
    proof cases
      case 1
      then show ?thesis
        using computes_ballot [OF that(1) P] by (simp add: intrinsic_code_def)
    next
      case 2
      then show ?thesis
        using computes_any_all [OF that(1) P 2] by (auto simp: intrinsic_code_def)
    next
      case 3
      then show ?thesis
        using computes_reduce_signed [OF that(1) 3, of sp] by (auto simp: intrinsic_code_def intrinsic_meaning_def)
    next
      case 4
      from reduce_mnemonics [OF 4] obtain h where h: "reduce (reduce_mnemonic i) = Some h" "alu_unary (reduce_mnemonic i) = None"
        "reduce_mnemonic i \<notin> {''LOAD'', ''STORE''}" "\<And>vm args x. intrinsic_meaning vm i args [x] = Some (\<lambda>_. h x)"
        by metis
      show ?thesis
        using computes_reduce [OF that(1) h(1-3), of sp] 4 by (auto simp: intrinsic_code_def h(4))
    qed
  qed
  have two: "computes P m g0 (Option.bind f (\<lambda>x. Option.bind h (\<lambda>y. ?F [x, y]))) (intrinsic_code i args [c, d] sp)"
    if "computes P m g0 f c" "computes P m g0 h d" and "args = [a, b]" and h: "h = meaning m b"
      and kind: "i \<in> {I_Broadcast, I_Shuffle, I_ShuffleXor, I_MinUnsigned, I_MaxUnsigned, I_MinSigned, I_MaxSigned}" for f c h d a b
  proof -
    consider "i = I_Shuffle" | "i \<in> {I_MinUnsigned, I_MaxUnsigned, I_MinSigned, I_MaxSigned}" | "i = I_ShuffleXor"
      | k where "i = I_Broadcast" "literal_of b = Some k" | "i = I_Broadcast" "literal_of b = None"
      using kind by (cases "literal_of b") auto
    then show ?thesis
    proof cases
      case 1
      then show ?thesis
        using computes_shuffle [OF that(1,2), of sp] by (simp add: intrinsic_code_def intrinsic_meaning_def)
    next
      case 2
      then show ?thesis
        using computes_min_max [OF that(1,2) 2] by (auto simp: intrinsic_code_def)
    next
      case 3
      with i that(3) obtain k where k: "literal_of b = Some k"
        by (auto simp: intrinsic_supported_def)
      then show ?thesis
        using computes_shuffle_xor [OF that(1) k, of a d sp] constant_second [OF k, of a]
        by (simp add: 3 that(3) h meaning_of_literal intrinsic_code_def intrinsic_meaning_def)
    next
      case (4 k)
      then show ?thesis
        using computes_broadcast_literal [OF that(1) 4(2), of a d sp]
        by (simp add: that(3) h meaning_of_literal intrinsic_code_def intrinsic_meaning_def list_all_iff)
    next
      case 5
      then show ?thesis
        using computes_broadcast [OF that(1,2) 5(2), of a sp]
        by (simp add: that(3) intrinsic_code_def intrinsic_meaning_def)
    qed
  qed
  have four: "computes P m g0 (Option.bind f1 (\<lambda>x1. Option.bind f2 (\<lambda>x2. Option.bind f3 (\<lambda>x3. Option.bind f4 (\<lambda>x4.
      ?F [x1, x2, x3, x4]))))) (intrinsic_code i args [c1, c2, c3, c4] sp)"
    if "computes P m g0 f1 c1" "computes P m g0 f2 c2" "computes P m g0 f3 c3" "computes P m g0 f4 c4" "i = I_Argb"
    for f1 c1 f2 c2 f3 c3 f4 c4
    using computes_argb [OF that(1-4), of sp] by (simp add: that(5) intrinsic_code_def intrinsic_meaning_def)
  consider "i \<in> {I_LaneId, I_VmId, I_Framebuffer}" "args = []"
    | "i \<in> {I_Broadcast, I_Shuffle, I_ShuffleXor, I_MinUnsigned, I_MaxUnsigned, I_MinSigned, I_MaxSigned}" "length args = 2"
    | "i = I_Argb" "length args = 4"
    | "i \<in> {I_Ballot, I_Any, I_All, I_ReduceAdd, I_ReduceAddUnsigned, I_ReduceMinUnsigned,
      I_ReduceMaxUnsigned, I_ReduceAnd, I_ReduceOr, I_ReduceXor, I_ReduceMinSigned, I_ReduceMaxSigned}" "length args = 1"
    using i by (cases i) (simp_all add: intrinsic_supported_def)
  then show ?thesis
  proof cases
    case 1
    with none cs show ?thesis
      by (auto simp: list_all2_Cons1)
  next
    case 2
    then obtain a b where args: "args = [a, b]"
      by (auto simp: length_Suc_conv numeral_2_eq_2)
    with cs obtain c d where "cs = [c, d]" "computes P m g0 (meaning m a) c" "computes P m g0 (meaning m b) d"
      by (auto simp: list_all2_Cons1)
    with two [OF this(2,3) args HOL.refl 2(1)] show ?thesis
      unfolding args bind_lists by simp
  next
    case 3
    then obtain a b c d where args: "args = [a, b, c, d]"
      by (auto simp: length_Suc_conv eval_nat_numeral)
    with cs obtain c1 c2 c3 c4 where "cs = [c1, c2, c3, c4]" "computes P m g0 (meaning m a) c1" "computes P m g0 (meaning m b) c2"
      "computes P m g0 (meaning m c) c3" "computes P m g0 (meaning m d) c4"
      by (auto simp: list_all2_Cons1)
    with four [OF this(2-5) 3(1)] show ?thesis
      unfolding args bind_lists by simp
  next
    case 4
    then obtain a where args: "args = [a]"
      by (auto simp: length_Suc_conv)
    with cs obtain c where "cs = [c]" "computes P m g0 (meaning m a) c"
      by (auto simp: list_all2_Cons1)
    with one [OF this(2) 4(1)] show ?thesis
      unfolding args bind_lists by simp
  qed
qed

section \<open>All expressions\<close>

definition base_lvalue :: "lvalue \<Rightarrow> bool" where
  "base_lvalue l = (case l of LV_Local i \<Rightarrow> True | LV_Global i \<Rightarrow> True | _ \<Rightarrow> False)"

lemma computes_conditional:
  assumes c: "computes P m g0 (meaning m ce) c"
    and t: "computes P m g0 (meaning m te) t" and e: "computes P m g0 (meaning m ee) e"
    and t1: "te_uniformity ce = Divergent \<Longrightarrow> computes (insert 1 P) m g0 (meaning m te) t"
    and e1: "te_uniformity ce = Divergent \<Longrightarrow> computes (insert 1 P) m g0 (meaning m ee) e"
    and P: "0 \<notin> P" "1 \<notin> P"
    and kind: "if te_uniformity ce = Divergent then is_integer ty \<and> cheap_select_expr ce \<and> cheap_select_expr te \<and> cheap_select_expr ee
      else ty \<noteq> T_VOID"
  shows "computes P m g0 (kind_meaning m (TE_Conditional ce te ee) ty) (conditional_code ce te ee c t e ty sp)"
proof (cases "te_uniformity ce = Divergent")
  case True
  have code: "conditional_code ce te ee c t e ty sp = cheap_conditional c t e sp"
    using kind by (simp add: conditional_code_def True)
  show ?thesis
    using computes_select [OF c t1 [OF True] e1 [OF True] P(2), of sp] unfolding code by (simp add: True)
next
  case False
  have "computes P m g0 (kind_meaning m (TE_Conditional ce te ee) ty) (branch_conditional c t e False sp)"
    using computes_branch [OF c t e P(1), of sp] by (simp add: False)
  moreover have "conditional_code ce te ee c t e ty sp g = branch_conditional c t e False sp g" if "extends g0 g" for g
    using that kind False by (simp add: conditional_code_def mbind_def gets_def rbind_def extends_def ready_def)
  ultimately show ?thesis
    by (simp add: computes_def wp_def)
qed

lemma logical_meanings:
  "kind_meaning m (TE_Binary B_LogicalAnd l r ot) ty = Option.bind (meaning m l) (logical_meaning True (meaning m r))"
  "kind_meaning m (TE_Binary B_LogicalOr l r ot) ty = Option.bind (meaning m l) (logical_meaning False (meaning m r))"
proof -
  have "(\<lambda>x. Option.bind (agreed x) (\<lambda>b. if b then map_option (\<lambda>y lane. truth (y lane \<noteq> 0)) h else Some (\<lambda>_. 0)))
      = logical_meaning True h"
    "(\<lambda>x. Option.bind (agreed x) (\<lambda>b. if b then Some (\<lambda>_. 1) else map_option (\<lambda>y lane. truth (y lane \<noteq> 0)) h))
      = logical_meaning False h" for h :: "vec option"
    by (auto simp: logical_meaning_def fun_eq_iff split: Option.bind_split)
  then show "kind_meaning m (TE_Binary B_LogicalAnd l r ot) ty = Option.bind (meaning m l) (logical_meaning True (meaning m r))"
    "kind_meaning m (TE_Binary B_LogicalOr l r ot) ty = Option.bind (meaning m l) (logical_meaning False (meaning m r))"
    by simp_all
qed

lemma computes_binary:
  assumes "computes P m g0 (meaning m l) cl" and "computes P m g0 (meaning m r) cr" and "0 \<notin> P"
    and "1 \<in> P \<Longrightarrow> op \<notin> {B_LogicalAnd, B_LogicalOr}"
    and "op = B_Comma \<or> op = B_LogicalAnd \<or> op = B_LogicalOr \<or> binary_meaning op ot \<noteq> None"
  shows "computes P m g0 (kind_meaning m (TE_Binary op l r ot) ty) (binary_code op cl cr ot sp)"
proof -
  consider "op = B_Comma" | "op = B_LogicalAnd" | "op = B_LogicalOr"
    | F where "op \<notin> {B_Comma, B_LogicalAnd, B_LogicalOr}" "binary_meaning op ot = Some F"
    using assms(5) by auto
  then show ?thesis
  proof cases
    case 1
    then show ?thesis
      using computes_comma [OF assms(1,2), of ot sp] by simp
  next
    case 2
    then have "1 \<notin> P"
      using assms(4) by auto
    from computes_logical [OF assms(1,2,3) this, of True op sp] 2 show ?thesis
      by (simp only: logical_meanings) (simp add: binary_code_def)
  next
    case 3
    then have "1 \<notin> P"
      using assms(4) by auto
    from computes_logical [OF assms(1,2,3) this, of False op sp] 3 show ?thesis
      by (simp only: logical_meanings) (simp add: binary_code_def)
  next
    case (4 F)
    then show ?thesis
      using computes_operator [OF assms(1-3) 4(2,1), of sp] by auto
  qed
qed

lemma computes_lvalue:
  assumes "\<not> (\<exists>i. l = LV_Local i) \<or> is_array ty \<or> is_struct ty
      \<Longrightarrow> computes P m g0 (address_meaning m l) (lvalue_address p l sp)"
    and "kind_supported g0 (TE_LValue l) ty"
  shows "computes P m g0 (kind_meaning m (TE_LValue l) ty)
    (if is_array ty \<or> is_struct ty then lvalue_address p l sp else load_lvalue l (lvalue_address p l sp) sp)"
proof (cases "is_array ty \<or> is_struct ty")
  case True
  then show ?thesis
    using assms(1) by auto
next
  case plain: False
  show ?thesis
  proof (cases "\<exists>i. l = LV_Local i")
    case True
    then obtain i where "l = LV_Local i" ..
    then show ?thesis
      using plain assms(2) computes_local [of g0 i P m sp] by simp
  next
    case False
    have "load_lvalue l (lvalue_address p l sp) sp = load_from (lvalue_address p l sp) sp"
      using False by (cases l) (auto simp: load_lvalue_def)
    moreover have "kind_meaning m (TE_LValue l) ty = Option.bind (address_meaning m l) (loaded m)"
      using False plain by (cases l) auto
    ultimately show ?thesis
      using plain False computes_load [OF assms(1)] by auto
  qed
qed

lemma frame_home_offset:
  "frame_home g i \<Longrightarrow> \<exists>offset. i < length (g_local_storage g) \<and> g_local_storage g ! i = Some (St_Frame offset)"
  by (auto simp: frame_home_def split: option.splits local_storage.splits)

lemma computes_expr:
  "supported g e \<Longrightarrow> 0 \<notin> P \<Longrightarrow> (1 \<in> P \<Longrightarrow> cheap_select_expr e) \<Longrightarrow> computes P m g (meaning m e) (expr_code p e)"
  "kind_supported g k ty \<Longrightarrow> 0 \<notin> P \<Longrightarrow> (1 \<in> P \<Longrightarrow> cheap_kind k)
     \<Longrightarrow> computes P m g (kind_meaning m k ty) (kind_code p k ty sp)"
  "all_supported g es \<Longrightarrow> 0 \<notin> P \<Longrightarrow> 1 \<notin> P \<Longrightarrow> list_all2 (computes P m g) (map (meaning m) es) (expr_codes p n es)"
  "address_supported g l \<Longrightarrow> 0 \<notin> P \<Longrightarrow> (1 \<in> P \<Longrightarrow> base_lvalue l)
     \<Longrightarrow> computes P m g (address_meaning m l) (lvalue_address p l sp)"
proof (induction g e and g k ty and g es and g l arbitrary: P p and P p sp and P p n and P p sp
    rule: supported_kind_supported_all_supported_address_supported.induct)
  case (1 g k ty u sp)
  then show ?case by simp
next
  case (2 g v ty)
  show ?case
    using computes_immediate [of P m g "unat v" sp] by simp
next
  case (3 g a ty)
  show ?case
    using computes_immediate [of P m g a sp] by simp
next
  case (4 g i args ty)
  show ?case
  proof (cases "1 \<in> P")
    case True
    then have "args = []" "intrinsic_supported i []"
      using 4 by auto
    then show ?thesis
      using computes_intrinsic [of P m g "[]" "[]" i sp] 4(3) by simp
  next
    case False
    then have "list_all2 (computes P m g) (map (meaning m) args) (expr_codes p 0 args)"
      using 4 by auto
    then show ?thesis
      using computes_intrinsic [of P m g args _ i sp] 4(2,3) by simp
  qed
next
  case (5 g l ty)
  have "computes P m g (address_meaning m l) (lvalue_address (0 # p) l sp)"
    if "\<not> (\<exists>i. l = LV_Local i) \<or> is_array ty \<or> is_struct ty"
  proof -
    have sup: "address_supported g l"
      using 5(6) that by (cases l) (auto split: if_splits)
    have base: "1 \<in> P \<Longrightarrow> base_lvalue l"
      using 5(8) by (cases l) (auto simp: base_lvalue_def)
    show ?thesis
    proof (cases "is_array ty \<or> is_struct ty")
      case True
      then show ?thesis
        using 5(1) sup base 5(7) by blast
    next
      case False
      show ?thesis
        by (cases l) (use 5(2-5) False sup base 5(7) that in blast)+
    qed
  qed
  then show ?case
    using computes_lvalue [of l ty P m g "0 # p" sp] 5 by simp
next
  case (6 g l ty)
  then show ?case
    by auto
next
  case (7 g op e ty)
  then obtain F where F: "unary_meaning op = Some F"
    by auto
  have "computes P m g (meaning m e) (expr_code (0 # p) e)"
    using 7 by auto
  then show ?case
    using computes_unary [OF _ 7(3) F, of m g "meaning m e" _ sp] F by simp
next
  case (8 g op l r ot ty)
  have "computes P m g (meaning m l) (expr_code (0 # p) l)" "computes P m g (meaning m r) (expr_code (1 # p) r)"
    using 8 by auto
  then have "computes P m g (kind_meaning m (TE_Binary op l r ot) ty) (binary_code op (expr_code (0 # p) l) (expr_code (1 # p) r) ot sp)"
    by (rule computes_binary) (use 8 in auto)
  then show ?case
    by simp
next
  case (9 g c t e ty)
  then have P: "0 \<notin> P" "1 \<notin> P"
    by auto
  have kind: "if te_uniformity c = Divergent then is_integer ty \<and> cheap_select_expr c \<and> cheap_select_expr t \<and> cheap_select_expr e
      else ty \<noteq> T_VOID" and sup: "supported g c" "supported g t" "supported g e"
    using 9(4) unfolding kind_supported.simps by blast+
  have parts: "computes Q m g (meaning m c) (expr_code (0 # p) c)" "computes Q m g (meaning m t) (expr_code (1 # p) t)"
    "computes Q m g (meaning m e) (expr_code (2 # p) e)"
    if "0 \<notin> Q" "1 \<in> Q \<Longrightarrow> te_uniformity c = Divergent" for Q
    using 9(1) [OF sup(1) that(1)] 9(2) [OF sup(2) that(1)] 9(3) [OF sup(3) that(1)] that(2) kind by metis+
  have "computes P m g (kind_meaning m (TE_Conditional c t e) ty)
      (conditional_code c t e (expr_code (0 # p) c) (expr_code (1 # p) t) (expr_code (2 # p) e) ty sp)"
    by (rule computes_conditional [OF _ _ _ _ _ P kind]) (use parts P in auto)
  then show ?case
    by simp
next
  case (10 g b i scale subtract ty)
  have "computes P m g (meaning m b) (expr_code (0 # p) b)" "computes P m g (meaning m i) (expr_code (1 # p) i)"
    using 10 by auto
  then show ?case
    using computes_pointer_add by simp
next
  case (11 g l r scale ty)
  have "computes P m g (meaning m l) (expr_code (0 # p) l)" "computes P m g (meaning m r) (expr_code (1 # p) r)"
    using 11 by auto
  then show ?case
    using computes_pointer_diff 11 by simp
next
  case (15 g i)
  then obtain offset where "i < length (g_local_storage g)" "g_local_storage g ! i = Some (St_Frame offset)"
    using frame_home_offset by auto
  then show ?case
    using computes_local_address by simp
next
  case (16 g i)
  then show ?case
    using computes_global_address by simp
next
  case (18 g b i scale)
  have "computes P m g (meaning m b) (expr_code (0 # p) b)" "computes P m g (meaning m i) (expr_code (1 # p) i)"
    using 18 by (auto simp: base_lvalue_def)
  then show ?case
    using computes_pointer_add [of P m g _ _ _ _ False] by (simp add: index_address_def)
next
  case (19 g l offset)
  have "computes P m g (address_meaning m l) (lvalue_address (0 # p) l sp)"
    using 19 by (auto simp: base_lvalue_def)
  then show ?case
    using computes_member_address by simp
qed (auto simp: base_lvalue_def)

section \<open>The property\<close>

text \<open>C1. From a generator outside of masks, the code of a supported expression fails only with the
  diagnostic that the temporaries do not fit. Otherwise it only adds lines, takes at most the register
  of its result, which was free, and from every machine that holds the locals, the lane numbers and the
  memory as the meanings say, the lines run without a fault, leave the meaning of the expression in all
  32 lanes of the register of the result, and keep the registers in use, the scalar registers and the
  memory.\<close>

theorem expression_code_correct:
  assumes "ready g" and "supported g e"
  shows "case expr_code p e g of
      Inl failure \<Rightarrow> pressure failure
    | Inr (v, g') \<Rightarrow> \<exists>ls. g_assembly g' = g_assembly g @ ls \<and> busy g' = busy g \<union> own v \<and> own v \<inter> busy g = {} \<and>
        (\<forall>m w x. matches m g w \<longrightarrow> meaning m e = Some x \<longrightarrow>
          (\<exists>w'. run ls w = Some w' \<and> same (w_regs w' (v_reg v)) x \<and> kept {} (busy g) w w'))"
proof -
  have g: "extends g g"
    using assms(1) by (simp add: extends_def)
  have code: "wp (expr_code p e) (gives {} m g (meaning m e) g (busy g) W) g W" for m W
    using computes_expr(1) [OF assms(2), of "{}" m p] g by (simp add: computes_def)
  show ?thesis
  proof (cases "expr_code p e g")
    case (Inl failure)
    with code [of undefined None] show ?thesis
      by (simp add: wp_def)
  next
    case (Inr r)
    then obtain v g' where r: "expr_code p e g = Inr (v, g')"
      by (cases r) auto
    from code [of undefined None] r obtain ls where ls: "g_assembly g' = g_assembly g @ ls"
      and v: "busy g' = busy g \<union> own v" "own v \<inter> busy g = {}"
      by (auto simp: wp_def gives_def reaches_def)
    have "\<exists>w'. run ls w = Some w' \<and> same (w_regs w' (v_reg v)) x \<and> kept {} (busy g) w w'"
      if "matches m g w" "meaning m e = Some x" for m w x
      using code [of m "Some w"] r ls that by (auto simp: wp_def gives_def leaves_def)
    with r ls v show ?thesis
      by auto
  qed
qed

text \<open>An arithmetic shift: every lane shifts its negated number by one bit.\<close>

lemma busy_code [code]: "busy g = set (filter (\<lambda>r. g_used g ! r) [0..<length (g_used g)])"
  by (auto simp: busy_def)

definition sample_program :: typed_program where
  "sample_program = \<lparr>tp_functions = [], tp_function_names = [], tp_function_param_shapes = [], tp_function_return_shapes = [],
     tp_main = 0, tp_locals = [], tp_globals = [], tp_structs = [], tp_data_words = []\<rparr>"

definition sample_generator :: generator where
  "sample_generator = generator_new True sample_program"

definition sample_expr :: typed_expr where
  "sample_expr =
     (let int = (\<lambda>k. TExpr k T_I32 Divergent (span_new 0 1 1)) in
      int (TE_Binary B_Shr (int (TE_Unary U_Minus (int (TE_Intrinsic I_LaneId [])))) (int (TE_Literal 1)) T_I32))"

definition sample_meanings :: meanings where
  "sample_meanings = \<lparr>m_local = (\<lambda>_. None), m_address = (\<lambda>_. None), m_global = (\<lambda>_. None),
     m_load = load_word [] [], m_vm_id = 0\<rparr>"

definition sample_warp :: warp where
  "sample_warp = \<lparr>w_vm_id = 0, w_regs = (\<lambda>_. of_nat), w_sregs = (\<lambda>_. 0), w_preds = (\<lambda>_ _. False), w_memory = [],
     w_framebuffer = [], w_frame_seq = 0\<rparr>"

lemma sample_ready: "ready sample_generator \<and> supported sample_generator sample_expr"
  by code_simp

lemma sample_returns: "\<exists>v g'. expr_code [] sample_expr sample_generator = Inr (v, g')"
proof -
  have "(case expr_code [] sample_expr sample_generator of Inl _ \<Rightarrow> False | Inr _ \<Rightarrow> True)"
    by code_simp
  then show ?thesis
    by (auto split: sum.splits)
qed

lemma sample_meaning: "map_option (\<lambda>x. sint (x 7)) (meaning sample_meanings sample_expr) = Some (- 4)"
  by code_simp

lemma sample_matches: "matches sample_meanings sample_generator sample_warp"
  by (simp add: matches_def sample_meanings_def sample_warp_def)

theorem expression_code_correct_witness:
  "\<exists>v g' w'. expr_code [] sample_expr sample_generator = Inr (v, g') \<and> run (g_assembly g') sample_warp = Some w'
     \<and> sint (w_regs w' (v_reg v) 7) = - 4"
proof -
  obtain v g' where code: "expr_code [] sample_expr sample_generator = Inr (v, g')"
    using sample_returns by blast
  obtain x where x: "meaning sample_meanings sample_expr = Some x" "sint (x 7) = - 4"
    using sample_meaning by auto
  have empty: "g_assembly sample_generator = []"
    by (simp add: sample_generator_def generator_new_def)
  have "\<forall>m w x. matches m sample_generator w \<longrightarrow> meaning m sample_expr = Some x \<longrightarrow>
      (\<exists>w'. run (g_assembly g') w = Some w' \<and> same (w_regs w' (v_reg v)) x \<and> kept {} (busy sample_generator) w w')"
    using expression_code_correct [OF sample_ready [THEN conjunct1] sample_ready [THEN conjunct2], of "[]"]
    by (simp add: code empty)
  then obtain w' where "run (g_assembly g') sample_warp = Some w'" "same (w_regs w' (v_reg v)) x"
    using sample_matches x(1) by blast
  with code x(2) show ?thesis
    by (auto simp: same_def WARP_LANES_def)
qed

end
