(* ===== verification/Codegen_Limits.thy ===== *)
theory Codegen_Limits
  imports Compile Codegen_Sound
begin

text \<open>
  The attempts of the code generator at a function, and places where the generated code falls
  short of the language: selections under a mask, parameters whose address is taken, and frames
  that are too large for the immediate that moves the stack pointer.
\<close>

section \<open>Attempts\<close>




section \<open>Parameters whose address is taken\<close>

text \<open>
  C35. A first parameter that lives in the frame, because its address is taken, loses its value:
  the register it arrives in is not marked as used, the address of its slot is computed into that
  register, and what is stored is the address. With debug assertions the compiler panics.
\<close>

theorem frame_parameter_is_lost:
  assumes "i < length (g_local_storage g)" "g_local_storage g ! i = Some (St_Frame offset)"
    and "i < length (g_local_active g)" "g_used g = False # used" "g_current_guard g = None"
  shows "case mthen (activate_parameter (0, i)) (store_parameter sp (0, i)) g of
      Inl e \<Rightarrow> g_checks g \<and> (\<exists>m. e = CPanic m)
    | Inr (_, g') \<Rightarrow> \<not> g_checks g \<and>
        (\<exists>ls. g_assembly g' = g_assembly g @ L_Instr None ''S_BCAST'' [O_R 0, STACK_POINTER] # ls @
           [L_Instr None ''STORE'' [O_R 0, O_R 0]])"
proof -
  have free: "first_unused (False # used) = Some 0"
    by (simp add: first_unused_def upt_conv_Cons del: upt_Suc)
  show ?thesis
    using assms
    by (simp add: free activate_parameter_def store_parameter_def local_address_def local_address_offset_def comp_defs
        field_at_def index_at_def set_active_def Codegen_Alloc.set_at_def alloc_reg_def
        update_peak_vector_regs_def emit_instr_def push_line_def as_u8_def release_def free_reg_def
        debug_assert_def owned_def)
qed

definition parameter_generator :: generator where
  "parameter_generator =
     (generator_new False sample_program)\<lparr>g_local_storage := [Some (St_Frame 0)], g_local_active := [False]\<rparr>"

theorem frame_parameter_is_lost_witness:
  "\<exists>g'. mthen (activate_parameter (0, 0)) (store_parameter (span_new 0 1 1) (0, 0)) parameter_generator = Inr ((), g')
     \<and> last (g_assembly g') = L_Instr None ''STORE'' [O_R 0, O_R 0]"
proof -
  have "case mthen (activate_parameter (0, 0)) (store_parameter (span_new 0 1 1) (0, 0)) parameter_generator of
      Inl e \<Rightarrow> g_checks parameter_generator \<and> (\<exists>m. e = CPanic m)
    | Inr (_, g') \<Rightarrow> \<not> g_checks parameter_generator \<and>
        (\<exists>ls. g_assembly g' = g_assembly parameter_generator @ L_Instr None ''S_BCAST'' [O_R 0, STACK_POINTER] # ls @
           [L_Instr None ''STORE'' [O_R 0, O_R 0]])"
    by (rule frame_parameter_is_lost [of 0 _ 0 "replicate 12 False"])
      (simp_all add: parameter_generator_def generator_new_def sample_program_def ALLOCATABLE_REGS_def numeral_eq_Suc)
  then show ?thesis
    by (auto simp: parameter_generator_def generator_new_def split: sum.splits)
qed

section \<open>Selections under a mask\<close>





section \<open>Large frames\<close>

text \<open>The words for a move of the stack pointer: one instruction, or a load of the distance into the
  assembler's scratch register for scalars, which is the stack pointer, and its sum with itself.\<close>

definition stack_move :: "asm \<Rightarrow> u32 \<Rightarrow> int \<Rightarrow> asm \<Rightarrow> bool" where
  "stack_move s guard v t \<longleftrightarrow> a_code t = a_code s @ [enc_i OP_S_ADD_I guard 7 7 v]"

definition stack_loss :: "asm \<Rightarrow> u32 \<Rightarrow> asm \<Rightarrow> bool" where
  "stack_loss s guard t \<longleftrightarrow>
     (\<exists>idx. a_code t = a_code s @ [enc_i OP_S_LDW 0 7 0 idx, enc_r OP_S_ADD guard 7 7 7])"

lemma scalar_add_code:
  "case instr s guard ''S_ADD_I'' [SReg 7, SReg 7, Imm v] line of
     Inl e \<Rightarrow> e = Err ''literal pool full''
   | Inr t \<Rightarrow> if IMM_MIN \<le> v \<and> v \<le> IMM_MAX then stack_move s guard v t else stack_loss s guard t"
proof (cases "IMM_MIN \<le> v \<and> v \<le> IMM_MAX")
  case True
  then have "as_i32 v = v" by (simp add: as_i32_def isa_defs sint_sbintrunc' signed_take_bit_int_eq_self)
  with True show ?thesis
    by (simp add: instr_def instr_s_add_i_def sreg_def resolve_imm_def imm_value_def emit_def stack_move_def)
next
  case False
  then show ?thesis
    by (auto simp: instr_def instr_s_add_i_def sreg_def resolve_imm_def imm_value_def emit_def intern_def stack_loss_def
        SCRATCH_SCALAR_def Let_def split: option.split)
qed

text \<open>
  C37. A frame of \<open>words\<close> words for each lane moves the stack pointer by one instruction as long as it
  has at most 128 words on the way in, and 127 on the way out. Behind that the assembler, for want
  of an immediate, loads the distance over the stack pointer and doubles it.
\<close>

theorem large_frames_lose_stack:
  "(case instr s 0 ''S_ADD_I'' [SReg 7, SReg 7, Imm (- (32 * int words))] line of
      Inl e \<Rightarrow> e = Err ''literal pool full''
    | Inr t \<Rightarrow> if words \<le> 128 then stack_move s 0 (- (32 * int words)) t else stack_loss s 0 t)
   \<and> (case instr s 0 ''S_ADD_I'' [SReg 7, SReg 7, Imm (32 * int words)] line of
      Inl e \<Rightarrow> e = Err ''literal pool full''
    | Inr t \<Rightarrow> if words \<le> 127 then stack_move s 0 (32 * int words) t else stack_loss s 0 t)"
proof -
  have inward: "IMM_MIN \<le> - (32 * int words) \<and> - (32 * int words) \<le> IMM_MAX \<longleftrightarrow> words \<le> 128"
    and outward: "IMM_MIN \<le> 32 * int words \<and> 32 * int words \<le> IMM_MAX \<longleftrightarrow> words \<le> 127"
    by (auto simp: isa_defs)
  show ?thesis
    by (rule conjI) (rule scalar_add_code [where v = "- (32 * int words)", unfolded inward],
        rule scalar_add_code [where v = "32 * int words", unfolded outward])
qed

end
