(* ===== verification/Codegen_Live_Facts.thy ===== *)
theory Codegen_Live_Facts
  imports Codegen_Live
begin

text \<open>
  The analysis of live locals returns: the fixpoint of every loop is reached within the bound,
  because each round but the last adds one of the locals the function mentions, and there are
  fewer of them than nodes in its body. It records a set of mentioned locals for every call of
  the function and for nothing else, so the generator finds one wherever it looks for it.
\<close>

section \<open>What a function mentions\<close>

text \<open>The locals and the calls in a part of a function, with the addresses of the calls.\<close>

datatype site = Uses nat | Calls node

function (sequential) sites_expr :: "node \<Rightarrow> typed_expr \<Rightarrow> site set"
and sites_kind :: "node \<Rightarrow> typed_kind \<Rightarrow> site set"
and sites_exprs :: "node \<Rightarrow> typed_expr list \<Rightarrow> nat \<Rightarrow> site set"
and sites_lvalue :: "node \<Rightarrow> lvalue \<Rightarrow> site set"
and sites_init :: "node \<Rightarrow> typed_initializer option \<Rightarrow> site set"
and sites_for_init :: "node \<Rightarrow> typed_for_init option \<Rightarrow> site set"
and sites_option :: "node \<Rightarrow> typed_expr option \<Rightarrow> site set"
and sites_stmt :: "node \<Rightarrow> typed_stmt \<Rightarrow> site set"
and sites_stmts :: "node \<Rightarrow> typed_stmt list \<Rightarrow> nat \<Rightarrow> site set" where
  "sites_expr p (TExpr k ty u sp) = sites_kind p k"
| "sites_kind p (TE_Literal v) = {}"
| "sites_kind p (TE_StringAddress a) = {}"
| "sites_kind p (TE_Intrinsic i args) = sites_exprs p args 0"
| "sites_kind p (TE_Call f args) = insert (Calls p) (sites_exprs p args 0)"
| "sites_kind p (TE_LValue l) = sites_lvalue (0 # p) l"
| "sites_kind p (TE_AddressOf l) = sites_lvalue (0 # p) l"
| "sites_kind p (TE_Unary op e) = sites_expr (0 # p) e"
| "sites_kind p (TE_Binary op l r ty) = sites_expr (0 # p) l \<union> sites_expr (1 # p) r"
| "sites_kind p (TE_PointerDiff l r k) = sites_expr (0 # p) l \<union> sites_expr (1 # p) r"
| "sites_kind p (TE_Conditional c t e) =
     sites_expr (0 # p) c \<union> sites_expr (1 # p) t \<union> sites_expr (2 # p) e"
| "sites_kind p (TE_PointerAdd b i k subtract) = sites_expr (0 # p) b \<union> sites_expr (1 # p) i"
| "sites_kind p (TE_Assign l op r ty k) = sites_lvalue (0 # p) l \<union> sites_expr (1 # p) r"
| "sites_kind p (TE_IncDec l inc post k) = sites_lvalue (0 # p) l"
| "sites_kind p (TE_Inline ss e) = sites_stmts p ss 0 \<union> sites_expr (length ss # p) e"
| "sites_exprs p [] i = {}"
| "sites_exprs p (e # es) i = sites_expr (i # p) e \<union> sites_exprs p es (i + 1)"
| "sites_lvalue p (LV_Local i) = {Uses i}"
| "sites_lvalue p (LV_Global i) = {}"
| "sites_lvalue p (LV_Deref e) = sites_expr (0 # p) e"
| "sites_lvalue p (LV_Index b i k) = sites_expr (0 # p) b \<union> sites_expr (1 # p) i"
| "sites_lvalue p (LV_Member l offset) = sites_lvalue (0 # p) l"
| "sites_init p None = {}"
| "sites_init p (Some (TI_Expr e)) = sites_expr p e"
| "sites_init p (Some (TI_Words ws)) = {}"
| "sites_for_init p None = {}"
| "sites_for_init p (Some (TF_Decl i init sp)) = sites_init p init"
| "sites_for_init p (Some (TF_Expr e)) = sites_expr p e"
| "sites_option p None = {}"
| "sites_option p (Some e) = sites_expr p e"
| "sites_stmt p (TS_Decl i init sp) = sites_init (0 # p) init"
| "sites_stmt p (TS_Expr e) = sites_option (0 # p) e"
| "sites_stmt p (TS_Return e sp) = sites_option (0 # p) e"
| "sites_stmt p (TS_Block (TBlock ss is sp)) = sites_stmts p ss 0"
| "sites_stmt p (TS_If c t e sp) =
     sites_expr (0 # p) c \<union> sites_stmt (1 # p) t
     \<union> (case e of Some x \<Rightarrow> sites_stmt (2 # p) x | None \<Rightarrow> {})"
| "sites_stmt p (TS_While c b sp) = sites_expr (0 # p) c \<union> sites_stmt (1 # p) b"
| "sites_stmt p (TS_DoWhile b c sp) = sites_expr (0 # p) c \<union> sites_stmt (1 # p) b"
| "sites_stmt p (TS_For init c step b is sp) =
     sites_for_init (0 # p) init \<union> sites_option (1 # p) c \<union> sites_option (2 # p) step
     \<union> sites_stmt (3 # p) b"
| "sites_stmt p (TS_Break sp) = {}"
| "sites_stmt p (TS_Continue sp) = {}"
| "sites_stmt p (TS_Switch e b labels sp) = sites_expr (0 # p) e \<union> sites_stmt (1 # p) b"
| "sites_stmt p (TS_Case i b sp) = sites_stmt (1 # p) b"
| "sites_stmt p (TS_Default i b sp) = sites_stmt (1 # p) b"
| "sites_stmts p [] i = {}"
| "sites_stmts p (s # ss) i = sites_stmt (i # p) s \<union> sites_stmts p ss (i + 1)"
  by pat_completeness auto

termination
  by (relation "measure (case_sum
      (case_sum (case_sum (\<lambda>(p, e). size e) (\<lambda>(p, k). size k))
        (case_sum (\<lambda>(p, es, i). size_list size es) (\<lambda>(p, l). size l)))
      (case_sum (case_sum (\<lambda>(p, i). size_option size i) (\<lambda>(p, i). size_option size i))
        (case_sum (\<lambda>(p, e). size_option size e)
          (case_sum (\<lambda>(p, s). size s) (\<lambda>(p, ss, i). size_list size ss)))))") auto

definition used_in :: "site set \<Rightarrow> nat set" where
  "used_in S = {i. Uses i \<in> S}"

definition called_in :: "site set \<Rightarrow> node set" where
  "called_in S = {q. Calls q \<in> S}"

definition function_sites :: "typed_function \<Rightarrow> site set" where
  "function_sites f = sites_stmts [] (tb_statements (tf_body f)) 0"

lemma used_in_simps [simp]:
  "used_in {} = {}" "used_in (insert (Uses i) S) = insert i (used_in S)"
  "used_in (insert (Calls q) S) = used_in S" "used_in (S \<union> T) = used_in S \<union> used_in T"
  by (auto simp: used_in_def)

lemma called_in_simps [simp]:
  "called_in {} = {}" "called_in (insert (Uses i) S) = called_in S"
  "called_in (insert (Calls q) S) = insert q (called_in S)"
  "called_in (S \<union> T) = called_in S \<union> called_in T"
  by (auto simp: called_in_def)

text \<open>Fewer locals than nodes are mentioned.\<close>

definition few :: "site set \<Rightarrow> nat \<Rightarrow> bool" where
  "few S n \<longleftrightarrow> finite (used_in S) \<and> card (used_in S) \<le> n"

lemma few_empty [simp, intro]: "few {} n"
  by (simp add: few_def)

lemma few_Uses [simp, intro]: "few {Uses i} (Suc n)"
  by (simp add: few_def)

lemma few_Calls [simp]: "few (insert (Calls q) S) n = few S n"
  by (simp add: few_def)

lemma few_Un: "few S m \<Longrightarrow> few T n \<Longrightarrow> m + n \<le> k \<Longrightarrow> few (S \<union> T) k"
  using card_Un_le [of "used_in S" "used_in T"] by (auto simp: few_def)

lemma few_Un4: "few S m \<Longrightarrow> few T n \<Longrightarrow> few S' m' \<Longrightarrow> few T' n' \<Longrightarrow> few (S \<union> T \<union> S' \<union> T') (Suc (m + n + m' + n'))"
  by (blast intro: few_Un le_SucI)

lemma few_mono: "few S m \<Longrightarrow> m \<le> n \<Longrightarrow> few S n"
  by (auto simp: few_def)

lemma sites_few:
  "few (sites_expr p e) (size e)" "few (sites_kind p k) (size k)"
  "few (sites_exprs p es i) (size_list size es)" "few (sites_lvalue p l) (Suc (size l))"
  "few (sites_init p t) (size_option size t)" "few (sites_for_init p f) (size_option size f)"
  "few (sites_option p d) (size_option size d)" "few (sites_stmt p s) (size s)"
  "few (sites_stmts p ss i) (size_list size ss)"
  by (induction p e and p k and p es i and p l and p t and p f and p d and p s and p ss i
      rule: sites_expr_sites_kind_sites_exprs_sites_lvalue_sites_init_sites_for_init_sites_option_sites_stmt_sites_stmts.induct)
    (auto intro: few_Un few_mono split: option.splits, rule few_Un4)

lemma home_used:
  "value_home_dependencies e \<subseteq> used_in (sites_expr p e)"
  "home_of k \<subseteq> used_in (sites_kind p k)"
  by (induction e and k arbitrary: p and p rule: value_home_dependencies_home_of.induct) auto

section \<open>Steps of the analysis that return\<close>

text \<open>A step over locals of \<open>U\<close> returns, stays among them, and records the calls \<open>C\<close>.\<close>

definition within :: "nat set \<Rightarrow> call_live \<Rightarrow> bool" where
  "within U a \<longleftrightarrow> (\<forall>es\<in>set (cl_switch_entries a). \<forall>e\<in>set es. e \<subseteq> U)
     \<and> (\<forall>q l. cl_call_live_out a q = Some l \<longrightarrow> l \<subseteq> U)"

definition returns :: "nat set \<Rightarrow> node set \<Rightarrow> call_live \<Rightarrow> (nat set \<times> call_live) cc \<Rightarrow> bool" where
  "returns U C a r \<longleftrightarrow> (\<exists>live b. r = Inr (live, b) \<and> live \<subseteq> U \<and> within U b
     \<and> length (cl_switch_entries b) = length (cl_switch_entries a)
     \<and> dom (cl_call_live_out b) = dom (cl_call_live_out a) \<union> C)"

definition settles :: "nat set \<Rightarrow> node set \<Rightarrow> (nat set \<Rightarrow> nat set cl) \<Rightarrow> bool" where
  "settles U C f \<longleftrightarrow> (\<forall>live a. live \<subseteq> U \<longrightarrow> within U a \<longrightarrow> returns U C a (f live a))"

lemma returns_bind:
  assumes "returns U C a (m a)" and "\<And>live b. live \<subseteq> U \<Longrightarrow> within U b \<Longrightarrow> returns U D b (f live b)"
  shows "returns U (C \<union> D) a (mbind m f a)"
proof -
  obtain live b where m: "m a = Inr (live, b)" "live \<subseteq> U" "within U b"
    "length (cl_switch_entries b) = length (cl_switch_entries a)"
    "dom (cl_call_live_out b) = dom (cl_call_live_out a) \<union> C"
    using assms(1) by (auto simp: returns_def)
  with assms(2) [OF m(2,3)] show ?thesis
    by (auto simp: returns_def mbind_def)
qed

lemma settlesI: "(\<And>live a. live \<subseteq> U \<Longrightarrow> within U a \<Longrightarrow> returns U C a (f live a)) \<Longrightarrow> settles U C f"
  by (simp add: settles_def)

lemma settlesD: "settles U C f \<Longrightarrow> live \<subseteq> U \<Longrightarrow> within U a \<Longrightarrow> returns U C a (f live a)"
  by (simp add: settles_def)

lemma returns_ret: "live \<subseteq> U \<Longrightarrow> within U a \<Longrightarrow> returns U {} a (ret live a)"
  by (auto simp: returns_def ret_def)

lemma settles_ret: "settles U {} ret"
  by (rule settlesI) (rule returns_ret)

lemma settles_comp: "settles U C f \<Longrightarrow> settles U D g \<Longrightarrow> settles U (C \<union> D) (\<lambda>live. mbind (f live) g)"
  by (intro settlesI returns_bind) (auto dest: settlesD)

text \<open>A round adds a local or is the last one.\<close>

lemma settle_returns:
  assumes "finite U" and f: "settles U C f"
    and "card (U - live) < n" "live \<subseteq> U" "within U a"
  shows "returns U C a (settle n f live a)"
  using assms(3-)
proof (induction n arbitrary: live a)
  case 0
  then show ?case by simp
next
  case (Suc n)
  from settlesD [OF f Suc.prems(2,3)] obtain more b where b: "f live a = Inr (more, b)"
    "more \<subseteq> U" "within U b" "length (cl_switch_entries b) = length (cl_switch_entries a)"
    "dom (cl_call_live_out b) = dom (cl_call_live_out a) \<union> C"
    by (auto simp: returns_def)
  show ?case
  proof (cases "live \<union> more = live")
    case True
    with b Suc.prems(2) show ?thesis by (simp add: returns_def mbind_def ret_def)
  next
    case False
    then have "U - (live \<union> more) \<subset> U - live" using b(2) by blast
    then have "card (U - (live \<union> more)) < card (U - live)"
      using assms(1) by (simp add: psubset_card_mono)
    with Suc.IH [of "live \<union> more" b] Suc.prems(1,2) b(2,3)
    have "returns U C b (settle n f (live \<union> more) b)" by simp
    with b False show ?thesis by (auto simp: returns_def mbind_def)
  qed
qed

lemma settles_settle:
  assumes "finite U" "card U < n" "settles U C f"
  shows "settles U C (settle n f)"
proof (rule settlesI)
  fix live a assume "live \<subseteq> U" "within U a"
  moreover have "card (U - live) < n"
    using assms(1,2) by (meson card_mono Diff_subset le_less_trans)
  ultimately show "returns U C a (settle n f live a)"
    using settle_returns [OF assms(1,3)] by blast
qed

lemma record_returns:
  assumes "live \<subseteq> U" "within U a" and f: "settles U C f"
  shows "returns U (insert p C) a (mthen (record_call p live) (f live) a)"
proof -
  let ?b = "a\<lparr>cl_call_live_out := (cl_call_live_out a)(p \<mapsto>
     (case cl_call_live_out a p of None \<Rightarrow> {} | Some old \<Rightarrow> old) \<union> live)\<rparr>"
  have "within U ?b" using assms(1,2) by (auto simp: within_def split: option.splits)
  from settlesD [OF f assms(1) this] show ?thesis
    by (auto simp: returns_def mthen_def mbind_def record_call_def modify_def)
qed

lemma add_entry_returns:
  assumes "live \<subseteq> U" "within U a"
  shows "returns U {} a (mthen (add_entry live) (ret live) a)"
  using assms
  by (cases "cl_switch_entries a" rule: rev_cases)
    (auto simp: returns_def mthen_def mbind_def add_entry_def modify_def ret_def within_def)

lemma fold_union: "fold (\<lambda>entry live. live \<union> entry) es live = live \<union> \<Union>(set es)"
  by (induction es arbitrary: live) auto

lemma switch_returns:
  assumes "live \<subseteq> U" "within U a" and b: "\<And>a. within U a \<Longrightarrow> returns U C a (m a)"
    and e: "settles U D f"
  shows "returns U (C \<union> D) a (mthen push_entries (mbind m (\<lambda>body_live.
    mbind pop_entries (\<lambda>entries. f (fold (\<lambda>entry live. live \<union> entry) entries body_live)))) a)"
proof -
  let ?a = "a\<lparr>cl_switch_entries := cl_switch_entries a @ [[]]\<rparr>"
  have "within U ?a" using assms(2) by (auto simp: within_def)
  from b [OF this] obtain body c where c: "m ?a = Inr (body, c)" "body \<subseteq> U" "within U c"
    "length (cl_switch_entries c) = Suc (length (cl_switch_entries a))"
    "dom (cl_call_live_out c) = dom (cl_call_live_out a) \<union> C"
    by (auto simp: returns_def)
  let ?es = "last (cl_switch_entries c)"
  let ?d = "c\<lparr>cl_switch_entries := butlast (cl_switch_entries c)\<rparr>"
  have ne: "cl_switch_entries c \<noteq> []" using c(4) by auto
  then have "last (cl_switch_entries c) \<in> set (cl_switch_entries c)" by simp
  then have "body \<union> \<Union>(set ?es) \<subseteq> U" using c(2,3) by (auto simp: within_def)
  moreover have "within U ?d" using c(3) by (auto simp: within_def dest: in_set_butlastD)
  ultimately have "returns U D ?d (f (body \<union> \<Union>(set ?es)) ?d)" by (rule settlesD [OF e])
  with c ne show ?thesis
    by (auto simp: returns_def mthen_def mbind_def push_entries_def modify_def pop_entries_def
        unwrap_def fold_union)
qed

section \<open>The analysis of a function\<close>

definition targets_in :: "nat set \<Rightarrow> live_targets \<Rightarrow> bool" where
  "targets_in U tg \<longleftrightarrow> (\<forall>l. lv_break tg = Some l \<longrightarrow> l \<subseteq> U) \<and> (\<forall>l. lv_continue tg = Some l \<longrightarrow> l \<subseteq> U)"

lemma targets_in_simps [simp]:
  "targets_in U no_targets"
  "targets_in U \<lparr>lv_break = Some b, lv_continue = c\<rparr> \<longleftrightarrow> b \<subseteq> U \<and> (\<forall>l. c = Some l \<longrightarrow> l \<subseteq> U)"
  by (auto simp: targets_in_def no_targets_def)

lemma returns_cong: "returns U C a r \<Longrightarrow> C = D \<Longrightarrow> returns U D a r"
  by simp

lemma returns_if:
  "(c \<Longrightarrow> returns U C a (f a)) \<Longrightarrow> (\<not> c \<Longrightarrow> returns U C a (g a)) \<Longrightarrow> returns U C a ((if c then f else g) a)"
  by simp

text \<open>What the loops do, with the steps of their parts as hypotheses.\<close>

lemmas returning = returns_bind returns_if returns_ret

lemma analysis_settles:
  assumes U: "finite U" "card U < bound"
  shows
    "n = bound \<Longrightarrow> used_in (sites_expr p e) \<subseteq> U \<Longrightarrow> settles U (called_in (sites_expr p e)) (cl_expr n p e)"
    "n = bound \<Longrightarrow> used_in (sites_kind p k) \<subseteq> U \<Longrightarrow> settles U (called_in (sites_kind p k)) (cl_kind n p k)"
    "n = bound \<Longrightarrow> used_in (sites_exprs p es i) \<subseteq> U \<Longrightarrow> prefix \<subseteq> U \<Longrightarrow>
       settles U (called_in (sites_exprs p es i)) (cl_sequence n p es i prefix)"
    "n = bound \<Longrightarrow> used_in (sites_lvalue p l) \<subseteq> U \<Longrightarrow> settles U (called_in (sites_lvalue p l)) (cl_read n p l)"
    "n = bound \<Longrightarrow> used_in (sites_lvalue p l) \<subseteq> U \<Longrightarrow> settles U (called_in (sites_lvalue p l)) (cl_address n p l)"
    "n = bound \<Longrightarrow> used_in (sites_init p t) \<subseteq> U \<Longrightarrow> settles U (called_in (sites_init p t)) (cl_init n p t)"
    "n = bound \<Longrightarrow> used_in (sites_for_init p f) \<subseteq> U \<Longrightarrow>
       settles U (called_in (sites_for_init p f)) (cl_for_init n p f)"
    "n = bound \<Longrightarrow> used_in (sites_option p d) \<subseteq> U \<Longrightarrow> settles U (called_in (sites_option p d)) (cl_option n p d)"
    "n = bound \<Longrightarrow> used_in (sites_stmt p s) \<subseteq> U \<Longrightarrow> targets_in U tg \<Longrightarrow>
       settles U (called_in (sites_stmt p s)) (cl_stmt n p s tg)"
    "n = bound \<Longrightarrow> used_in (sites_stmts p ss i) \<subseteq> U \<Longrightarrow> targets_in U tg \<Longrightarrow>
       settles U (called_in (sites_stmts p ss i)) (cl_stmts n p ss i tg)"
proof (induction n p e and n p k and n p es i prefix and n p l and n p l and n p t and n p f and n p d
    and n p s tg and n p ss i tg
    rule: cl_expr_cl_kind_cl_sequence_cl_read_cl_address_cl_init_cl_for_init_cl_option_cl_stmt_cl_stmts.induct)
  case (5 n p f args)
  then have args: "settles U (called_in (sites_exprs p args 0)) (cl_sequence n p args 0 {})" by simp
  show ?case by (rule settlesI) (simp add: record_returns [OF _ _ args])
next
  case (9 n p op l r ty)
  have hl: "value_home_dependencies l \<subseteq> U" using home_used(1) [of l "0 # p"] 9(8) by auto
  have l: "settles U (called_in (sites_expr (0 # p) l)) (cl_expr n (0 # p) l)"
    and r: "settles U (called_in (sites_expr (1 # p) r)) (cl_expr n (1 # p) r)"
    using 9 by auto
  show ?case
    by (rule settlesI, rule returns_cong, unfold cl_kind.simps)
      (rule returning settlesD [OF l] settlesD [OF r] | assumption | (use hl in \<open>simp add: Un_ac\<close>; fail) | use hl in blast)+
next
  case (10 n p l r k)
  have hl: "value_home_dependencies l \<subseteq> U" using home_used(1) [of l "0 # p"] 10(4) by auto
  have l: "settles U (called_in (sites_expr (0 # p) l)) (cl_expr n (0 # p) l)"
    and r: "settles U (called_in (sites_expr (1 # p) r)) (cl_expr n (1 # p) r)"
    using 10 by auto
  show ?case
    by (rule settlesI, rule returns_cong, unfold cl_kind.simps)
      (rule returning settlesD [OF l] settlesD [OF r] | assumption | (use hl in \<open>simp add: Un_ac\<close>; fail) | use hl in blast)+
next
  case (11 n p c t e)
  then have c: "settles U (called_in (sites_expr (0 # p) c)) (cl_expr n (0 # p) c)"
    and t: "settles U (called_in (sites_expr (1 # p) t)) (cl_expr n (1 # p) t)"
    and e: "settles U (called_in (sites_expr (2 # p) e)) (cl_expr n (2 # p) e)"
    by auto
  show ?case
    by (rule settlesI, rule returns_cong, unfold cl_kind.simps)
      (rule returning settlesD [OF c] settlesD [OF t] settlesD [OF e] | assumption | (simp add: Un_ac; fail) | blast)+
next
  case (12 n p b i k subtract)
  have hb: "value_home_dependencies b \<subseteq> U" using home_used(1) [of b "0 # p"] 12(4) by auto
  have b: "settles U (called_in (sites_expr (0 # p) b)) (cl_expr n (0 # p) b)"
    and i: "settles U (called_in (sites_expr (1 # p) i)) (cl_expr n (1 # p) i)"
    using 12 by auto
  show ?case
    by (rule settlesI, rule returns_cong, unfold cl_kind.simps)
      (rule returning settlesD [OF b] settlesD [OF i] | assumption | (use hb in \<open>simp add: Un_ac\<close>; fail) | use hb in blast)+
next
  case (13 n p l op r ty k)
  have r: "settles U (called_in (sites_expr (1 # p) r)) (cl_expr n (1 # p) r)"
    using 13 by auto
  have l: "returns U (case l of LV_Local i \<Rightarrow> {} | _ \<Rightarrow> called_in (sites_lvalue (0 # p) l)) a
      ((case l of LV_Local i \<Rightarrow> ret (live - {i}) | _ \<Rightarrow> cl_address n (0 # p) l live) a)"
    if "live \<subseteq> U" "within U a" for live a
    using 13 that by (cases l) (auto intro!: returns_ret dest: settlesD)
  have read: "returns U (if op = A_Assign then {} else called_in (sites_lvalue (0 # p) l)) a
      ((if op \<noteq> A_Assign then cl_read n (0 # p) l live else ret live) a)"
    if "live \<subseteq> U" "within U a" for live a
    using 13 that by (auto intro!: returns_ret dest: settlesD)
  show ?case
    by (rule settlesI, rule returns_cong, unfold cl_kind.simps)
      (rule returns_bind l read settlesD [OF r] | assumption | (simp add: Un_ac split: lvalue.splits; fail) | blast)+
next
  case (15 n p ss e)
  then have e: "settles U (called_in (sites_expr (length ss # p) e)) (cl_expr n (length ss # p) e)"
    and ss: "settles U (called_in (sites_stmts p ss 0)) (cl_stmts n p ss 0 no_targets)"
    by auto
  show ?case
    by (rule settlesI, rule returns_cong, unfold cl_kind.simps)
      (rule returning settlesD [OF e] settlesD [OF ss] | assumption | (simp add: Un_ac; fail) | blast)+
next
  case (17 n p e es i prefix)
  have he: "value_home_dependencies e \<subseteq> U" using home_used(1) [of e "i # p"] 17(4) by auto
  then have es: "settles U (called_in (sites_exprs p es (i + 1)))
      (cl_sequence n p es (i + 1) (prefix \<union> value_home_dependencies e))"
    and e: "settles U (called_in (sites_expr (i # p) e)) (cl_expr n (i # p) e)"
    using 17 by auto
  show ?case
    by (rule settlesI, rule returns_cong, unfold cl_sequence.simps)
      (rule returning settlesD [OF e] settlesD [OF es] | assumption | (use 17(5) in \<open>simp add: Un_ac\<close>; fail) | use 17(5) in blast)+
next
  case (18 n p i)
  then show ?case by (auto intro!: settlesI returns_ret)
next
  case (21 n p b i k)
  have hb: "value_home_dependencies b \<subseteq> U" using home_used(1) [of b "0 # p"] 21(4) by auto
  have b: "settles U (called_in (sites_expr (0 # p) b)) (cl_expr n (0 # p) b)"
    and i: "settles U (called_in (sites_expr (1 # p) i)) (cl_expr n (1 # p) i)"
    using 21 by auto
  show ?case
    by (rule settlesI, rule returns_cong, unfold cl_read.simps)
      (rule returning settlesD [OF b] settlesD [OF i] | assumption | (use hb in \<open>simp add: Un_ac\<close>; fail) | use hb in blast)+
next
  case (26 n p b i k)
  have hb: "value_home_dependencies b \<subseteq> U" using home_used(1) [of b "0 # p"] 26(4) by auto
  have b: "settles U (called_in (sites_expr (0 # p) b)) (cl_expr n (0 # p) b)"
    and i: "settles U (called_in (sites_expr (1 # p) i)) (cl_expr n (1 # p) i)"
    using 26 by auto
  show ?case
    by (rule settlesI, rule returns_cong, unfold cl_address.simps)
      (rule returning settlesD [OF b] settlesD [OF i] | assumption | (use hb in \<open>simp add: Un_ac\<close>; fail) | use hb in blast)+
next
  case (31 n p i init sp)
  then have init: "settles U (called_in (sites_init p init)) (cl_init n p init)" by auto
  show ?case by (rule settlesI) (auto intro!: settlesD [OF init])
next
  case (35 n p i init sp tg)
  then have init: "settles U (called_in (sites_init (0 # p) init)) (cl_init n (0 # p) init)" by auto
  show ?case by (rule settlesI) (auto intro!: settlesD [OF init])
next
  case (37 n p e sp tg)
  then have e: "settles U (called_in (sites_option (0 # p) e)) (cl_option n (0 # p) e)" by auto
  show ?case by (rule settlesI) (auto intro!: settlesD [OF e])
next
  case (39 n p c t e sp tg)
  then have c: "settles U (called_in (sites_expr (0 # p) c)) (cl_expr n (0 # p) c)"
    and t: "settles U (called_in (sites_stmt (1 # p) t)) (cl_stmt n (1 # p) t tg)"
    by auto
  have e: "returns U (case e of Some x \<Rightarrow> called_in (sites_stmt (2 # p) x) | None \<Rightarrow> {}) a
      ((case e of Some x \<Rightarrow> cl_stmt n (2 # p) x tg live | None \<Rightarrow> ret live) a)"
    if "live \<subseteq> U" "within U a" for live a
    using 39 that by (auto intro!: returns_ret dest: settlesD split: option.splits)
  show ?case
    by (rule settlesI, rule returns_cong, unfold cl_stmt.simps)
      (rule returns_bind settlesD [OF c] settlesD [OF t] e | assumption | (simp add: Un_ac split: option.splits; fail) | blast)+
next
  case (40 n p c b sp tg)
  then have c: "settles U (called_in (sites_expr (0 # p) c)) (cl_expr n (0 # p) c)"
    and b: "settles U (called_in (sites_stmt (1 # p) b))
      (cl_stmt n (1 # p) b \<lparr>lv_break = Some x, lv_continue = Some y\<rparr>)" if "x \<subseteq> U" "y \<subseteq> U" for x y
    using that by auto
  have "settles U (called_in (sites_stmt (1 # p) b) \<union> called_in (sites_expr (0 # p) c))
      (\<lambda>condition_live.
        mbind (cl_stmt n (1 # p) b \<lparr>lv_break = Some live, lv_continue = Some condition_live\<rparr> condition_live)
          (\<lambda>body_live. cl_expr n (0 # p) c (live \<union> body_live)))" if "live \<subseteq> U" for live
    by (rule settlesI)
      (rule returns_bind settlesD [OF c] settlesD [OF b] | assumption | (use that in \<open>simp add: Un_ac\<close>; fail) | use that in blast)+
  from settles_settle [OF U this] show ?case
    using 40(3) by (auto simp: Un_commute intro!: settlesI dest: settlesD)
next
  case (41 n p b c sp tg)
  then have c: "settles U (called_in (sites_expr (0 # p) c)) (cl_expr n (0 # p) c)"
    and b: "settles U (called_in (sites_stmt (1 # p) b))
      (cl_stmt n (1 # p) b \<lparr>lv_break = Some x, lv_continue = Some y\<rparr>)" if "x \<subseteq> U" "y \<subseteq> U" for x y
    using that by auto
  have "settles U (called_in (sites_expr (0 # p) c) \<union> called_in (sites_stmt (1 # p) b))
      (\<lambda>body_live. mbind (cl_expr n (0 # p) c (live \<union> body_live)) (\<lambda>condition_live.
        cl_stmt n (1 # p) b \<lparr>lv_break = Some live, lv_continue = Some condition_live\<rparr> condition_live))"
    if "live \<subseteq> U" for live
    by (rule settlesI)
      (rule returns_bind settlesD [OF c] settlesD [OF b] | assumption | (use that in \<open>simp add: Un_ac\<close>; fail) | use that in blast)+
  from settles_settle [OF U this] show ?case
    using 41(3) by (auto intro!: settlesI dest: settlesD)
next
  case (42 n p init c step b decls sp tg)
  then have init: "settles U (called_in (sites_for_init (0 # p) init)) (cl_for_init n (0 # p) init)"
    and c: "settles U (called_in (sites_option (1 # p) c)) (cl_option n (1 # p) c)"
    and step: "settles U (called_in (sites_option (2 # p) step)) (cl_option n (2 # p) step)"
    and b: "settles U (called_in (sites_stmt (3 # p) b))
      (cl_stmt n (3 # p) b \<lparr>lv_break = Some x, lv_continue = Some y\<rparr>)" if "x \<subseteq> U" "y \<subseteq> U" for x y
    using that by auto
  have loop: "settles U (called_in (sites_option (2 # p) step) \<union> (called_in (sites_stmt (3 # p) b)
        \<union> called_in (sites_option (1 # p) c)))
      (\<lambda>condition_live.
          mbind (cl_option n (2 # p) step condition_live) (\<lambda>step_live.
          mbind (cl_stmt n (3 # p) b \<lparr>lv_break = Some live, lv_continue = Some step_live\<rparr> step_live)
            (\<lambda>body_live. cl_option n (1 # p) c (if c \<noteq> None then live \<union> body_live else body_live))))"
    if "live \<subseteq> U" for live
    by (rule settlesI)
      (rule returns_bind settlesD [OF c] settlesD [OF step] settlesD [OF b] | assumption | (use that in \<open>simp add: Un_ac\<close>; fail) | use that in blast)+
  have settle: "returns U (called_in (sites_option (2 # p) step) \<union> (called_in (sites_stmt (3 # p) b)
        \<union> called_in (sites_option (1 # p) c))) a (settle n
      (\<lambda>condition_live.
          mbind (cl_option n (2 # p) step condition_live) (\<lambda>step_live.
          mbind (cl_stmt n (3 # p) b \<lparr>lv_break = Some live, lv_continue = Some step_live\<rparr> step_live)
            (\<lambda>body_live. cl_option n (1 # p) c (if c \<noteq> None then live \<union> body_live else body_live)))) live a)"
    if "live \<subseteq> U" "within U a" for live a
    using settlesD [OF settles_settle [OF U(1) _ loop]] U(2) 42(5) that by simp
  show ?case
    by (rule settlesI, rule returns_cong, unfold cl_stmt.simps)
      (rule returns_bind returns_ret settle settlesD [OF init] | assumption | (simp add: Un_ac; fail) | blast)+
next
  case (43 n p sp tg)
  then show ?case by (auto intro!: settlesI returns_ret simp: targets_in_def unless_def split: option.splits)
next
  case (44 n p sp tg)
  then show ?case by (auto intro!: settlesI returns_ret simp: targets_in_def unless_def split: option.splits)
next
  case (45 n p e b labels sp tg)
  then have e: "settles U (called_in (sites_expr (0 # p) e)) (cl_expr n (0 # p) e)"
    and b: "settles U (called_in (sites_stmt (1 # p) b))
      (cl_stmt n (1 # p) b \<lparr>lv_break = Some x, lv_continue = lv_continue tg\<rparr>)" if "x \<subseteq> U" for x
    using that by (auto simp: targets_in_def)
  show ?case
    by (rule settlesI, rule returns_cong, unfold cl_stmt.simps, rule switch_returns)
      (rule e settlesD [OF b] | assumption | (simp add: Un_ac; fail) | blast)+
next
  case (46 n p i b sp tg)
  then have b: "settles U (called_in (sites_stmt (1 # p) b)) (cl_stmt n (1 # p) b tg)" by auto
  show ?case
    by (rule settlesI, rule returns_cong, unfold cl_stmt.simps)
      (rule returns_bind settlesD [OF b] add_entry_returns | assumption | (simp add: Un_ac; fail) | blast)+
next
  case (47 n p i b sp tg)
  then have b: "settles U (called_in (sites_stmt (1 # p) b)) (cl_stmt n (1 # p) b tg)" by auto
  show ?case
    by (rule settlesI, rule returns_cong, unfold cl_stmt.simps)
      (rule returns_bind settlesD [OF b] add_entry_returns | assumption | (simp add: Un_ac; fail) | blast)+
next
  case (49 n p s ss i tg)
  then have s: "settles U (called_in (sites_stmt (i # p) s)) (cl_stmt n (i # p) s tg)"
    and ss: "settles U (called_in (sites_stmts p ss (i + 1))) (cl_stmts n p ss (i + 1) tg)" by auto
  show ?case
    by (rule settlesI, rule returns_cong, unfold cl_stmts.simps)
      (rule returns_bind settlesD [OF s] settlesD [OF ss] | assumption | (simp add: Un_ac; fail) | blast)+
qed (auto simp: settles_ret)

text \<open>The bound of a function is greater than the number of locals it mentions.\<close>

lemma function_few: "finite (used_in (function_sites f))" "card (used_in (function_sites f)) < size (tf_body f)"
  using sites_few(9) [of "[]" "tb_statements (tf_body f)" 0]
  by (cases "tf_body f", simp add: few_def function_sites_def)+

lemma live_outs_cases:
  "\<exists>live. call_live_outs f = Inr live \<and> dom live = called_in (function_sites f)
     \<and> (\<forall>q l. live q = Some l \<longrightarrow> l \<subseteq> used_in (function_sites f))"
proof -
  let ?a = "\<lparr>cl_call_live_out = Map.empty, cl_switch_entries = []\<rparr>"
  let ?U = "used_in (function_sites f)"
  have "within ?U ?a" by (simp add: within_def)
  moreover have "settles ?U (called_in (function_sites f))
      (cl_stmts (size (tf_body f)) [] (tb_statements (tf_body f)) 0 no_targets)"
    unfolding function_sites_def
    by (rule analysis_settles(10) [OF function_few [unfolded function_sites_def]]) simp_all
  ultimately have "returns ?U (called_in (function_sites f)) ?a
      (cl_stmts (size (tf_body f)) [] (tb_statements (tf_body f)) 0 no_targets {} ?a)"
    by (auto intro: settlesD)
  then show ?thesis
    by (auto simp: returns_def call_live_outs_def within_def)
qed

text \<open>
  C33. The analysis of live locals returns for every function, within the bound on the rounds
  of its fixpoints: it records a set of locals for exactly the calls in the body, and only
  locals that the body mentions.
\<close>

theorem call_liveness_returns:
  "\<exists>live. call_live_outs f = Inr live \<and> dom live = called_in (function_sites f)
     \<and> \<Union>(ran live) \<subseteq> used_in (function_sites f)"
  using live_outs_cases [of f] unfolding ran_def by blast

end
