(* ===== verification/Codegen_Alloc_Facts.thy ===== *)
theory Codegen_Alloc_Facts
  imports Codegen_Alloc Codegen_Live_Facts Sema_Sound
begin

text \<open>
  What the allocation of a function guarantees. Every local that the body uses gets a home, a
  register of the machine or a slot of the frame; two locals whose lifetimes overlap never
  share one; and on the functions of an accepted program nothing panics on the way.
\<close>

section \<open>Lifetimes\<close>

text \<open>The locals that have a lifetime.\<close>

definition started :: "lifetimes \<Rightarrow> nat set" where
  "started l = {i. i < length (lt_starts l) \<and> lt_starts l ! i \<noteq> None}"

definition interval_ok :: "nat option \<Rightarrow> nat option \<Rightarrow> bool" where
  "interval_ok s e \<longleftrightarrow> (case s of None \<Rightarrow> e = None | Some a \<Rightarrow> \<exists>b. e = Some b \<and> a \<le> b)"

lemma widen_ok: "interval_ok s e \<Longrightarrow> interval_ok (widen min p s) (widen max p e)"
  by (auto simp: interval_ok_def widen_def split: option.splits)

lemma widen_some [simp]: "widen f p s \<noteq> None" "\<exists>y. widen f p s = Some y"
  by (simp_all add: widen_def)

lemma widen_end_ok: "interval_ok s e \<Longrightarrow> s \<noteq> None \<Longrightarrow> interval_ok s (widen max p e)"
  by (auto simp: interval_ok_def widen_def split: option.splits)

definition lifetimes_ok :: "nat \<Rightarrow> lifetimes \<Rightarrow> bool" where
  "lifetimes_ok n l \<longleftrightarrow> length (lt_starts l) = n \<and> length (lt_ends l) = n
     \<and> (\<forall>i<n. interval_ok (lt_starts l ! i) (lt_ends l ! i))"

definition follows :: "nat \<Rightarrow> lifetimes \<Rightarrow> (nat set \<times> lifetimes) cc \<Rightarrow> bool" where
  "follows n l r \<longleftrightarrow> okres (\<lambda>(touched, k). lifetimes_ok n k \<and> started l \<subseteq> started k \<and> touched \<subseteq> started k) r"

definition tracks :: "nat \<Rightarrow> nat set lt \<Rightarrow> bool" where
  "tracks n m \<longleftrightarrow> (\<forall>l. lifetimes_ok n l \<longrightarrow> follows n l (m l))"

lemma tracks_none: "tracks n (ret {})"
  by (simp add: tracks_def follows_def ret_def)

lemma tracks_bind:
  assumes "tracks n m" "\<And>x l. lifetimes_ok n l \<Longrightarrow> x \<subseteq> started l \<Longrightarrow> follows n l (f x l)"
  shows "tracks n (mbind m f)"
  unfolding tracks_def
proof (intro allI impI)
  fix l assume l: "lifetimes_ok n l"
  with assms(1) have "follows n l (m l)" by (simp add: tracks_def)
  then show "follows n l (mbind m f l)"
  proof (cases "m l")
    case (Inr y)
    obtain x k where y: "y = (x, k)" by (cases y)
    with Inr \<open>follows n l (m l)\<close> have k: "lifetimes_ok n k" "started l \<subseteq> started k" "x \<subseteq> started k"
      by (simp_all add: follows_def)
    from assms(2) [OF k(1,3)] k(2) y Inr show ?thesis
      by (auto simp: follows_def mbind_def elim!: okres_mono)
  qed (simp add: follows_def mbind_def)
qed

lemma tracks_both:
  assumes "tracks n a" "tracks n b"
  shows "tracks n (both a b)"
  unfolding both_def
proof (rule tracks_bind [OF assms(1)])
  fix x l assume l: "lifetimes_ok n l" "x \<subseteq> started l"
  then have "follows n l (b l)" using assms(2) by (simp add: tracks_def)
  with l(2) show "follows n l (mbind b (\<lambda>c. ret (x \<union> c)) l)"
    by (cases "b l") (auto simp: follows_def mbind_def ret_def)
qed

lemma lifetimes_lengths: "lifetimes_ok n l \<Longrightarrow> length (lt_starts l) = n" "lifetimes_ok n l \<Longrightarrow> length (lt_ends l) = n"
  by (simp_all add: lifetimes_ok_def)

lemma touch_run:
  "i < length (lt_starts l) \<Longrightarrow> i < length (lt_ends l) \<Longrightarrow>
   touch i point l = Inr ({i}, l\<lparr>lt_starts := (lt_starts l)[i := widen min point (lt_starts l ! i)],
     lt_ends := (lt_ends l)[i := widen max point (lt_ends l ! i)]\<rparr>)"
  by (simp add: touch_def comp_defs index_at_def)

lemma tracks_touch: "i < n \<Longrightarrow> tracks n (touch i point)"
  unfolding tracks_def
proof (intro allI impI)
  fix l assume i: "i < n" and l: "lifetimes_ok n l"
  have "touch i point l = Inr ({i}, l\<lparr>lt_starts := (lt_starts l)[i := widen min point (lt_starts l ! i)],
     lt_ends := (lt_ends l)[i := widen max point (lt_ends l ! i)]\<rparr>)"
    using i l by (simp add: touch_run lifetimes_ok_def)
  moreover have "started l \<subseteq> {j. j < n \<and> (j = i \<or> lt_starts l ! j \<noteq> None)}"
    using l by (auto simp: started_def lifetimes_ok_def)
  ultimately show "follows n l (touch i point l)"
    using i l by (auto simp: follows_def lifetimes_ok_def started_def nth_list_update widen_ok)
qed

lemma tracks_exit: "tracks n m \<Longrightarrow> tracks n (mbind m extend_to_exit)"
proof (rule tracks_bind)
  fix x l assume l: "lifetimes_ok n l" "x \<subseteq> started l"
  then have started: "i < n \<and> lt_starts l ! i \<noteq> None" if "i \<in> x" for i
    using that by (auto simp: lifetimes_ok_def started_def)
  have all: "\<forall>i\<in>x. i < length (lt_ends l) \<and> lt_ends l ! i \<noteq> None"
    using started l(1) by (fastforce simp: lifetimes_ok_def interval_ok_def split: option.splits)
  let ?l = "l\<lparr>lt_ends := map (\<lambda>i. if i \<in> x then widen max (lt_next_point l) (lt_ends l ! i) else lt_ends l ! i)
    [0..<length (lt_ends l)]\<rparr>"
  have "extend_to_exit x l = Inr (x, ?l)"
    using all by (simp add: extend_to_exit_def comp_defs)
  moreover have "lifetimes_ok n ?l"
    using l(1) started by (auto simp: lifetimes_ok_def widen_end_ok)
  ultimately show "follows n l (extend_to_exit x l)"
    using l(2) by (simp add: follows_def started_def)
qed assumption

text \<open>The traversals of the body.\<close>

definition init_typed :: "typing \<Rightarrow> typed_initializer option \<Rightarrow> bool" where
  "init_typed G init \<longleftrightarrow> (\<forall>t. init = Some t \<longrightarrow> (\<exists>ty. init_ok G ty t))"

lemma init_typed_simps [simp]:
  "init_typed G None" "init_typed G (Some (TI_Words ws)) \<longleftrightarrow> (\<exists>ty. init_ok G ty (TI_Words ws))"
  "init_typed G (Some (TI_Expr e)) \<longleftrightarrow> (\<exists>ty. init_ok G ty (TI_Expr e))"
  by (auto simp: init_typed_def)

lemma init_typedI: "(case init of None \<Rightarrow> True | Some x \<Rightarrow> init_ok G t x) \<Longrightarrow> init_typed G init"
  by (auto simp: init_typed_def)

lemma init_typed_some: "init_ok G t x \<Longrightarrow> init_typed G (Some x)"
  by (auto simp: init_typed_def)

lemma tracks_expr:
  assumes n: "n = length (en_locals G)"
  shows "te_ok G e \<Longrightarrow> tracks n (lt_expr e point)" "kind_ok G ty k \<Longrightarrow> tracks n (lt_kind k point)"
    "list_all (te_ok G) es \<Longrightarrow> tracks n (lt_exprs es point)" "lv_ok G l \<Longrightarrow> tracks n (lt_lvalue l point)"
    "init_typed G init \<Longrightarrow> tracks n (lt_init init point)"
    "list_all straight ss \<Longrightarrow> list_all (ts_ok G T_VOID) ss \<Longrightarrow> tracks n (lt_inline ss point)"
  using n
proof (induction e point and k point and es point and l point and init point and ss point
    arbitrary: and ty rule: lt_expr_lt_kind_lt_exprs_lt_lvalue_lt_init_lt_inline.induct)
qed (auto intro!: tracks_both tracks_touch tracks_none dest!: init_typedI)

lemma tracks_point:
  assumes "\<And>point. tracks n (f point)"
  shows "tracks n (mbind (new_point p) f)"
  unfolding tracks_def
proof (intro allI impI)
  fix l assume l: "lifetimes_ok n l"
  let ?l = "l\<lparr>lt_next_point := lt_next_point l + 1,
    lt_statement_points := (lt_statement_points l)(p \<mapsto> lt_next_point l)\<rparr>"
  have "follows n ?l (f (lt_next_point l) ?l)"
    using assms l by (simp add: tracks_def lifetimes_ok_def)
  then show "follows n l (mbind (new_point p) f l)"
    by (simp add: follows_def started_def new_point_def comp_defs)
qed

lemma tracks_option: "n = length (en_locals G) \<Longrightarrow> (\<And>t. e = Some t \<Longrightarrow> te_ok G t) \<Longrightarrow> tracks n (lt_option e point)"
  by (auto simp: lt_option_def intro!: tracks_none tracks_expr split: option.split)

lemma tracks_for_init:
  "n = length (en_locals G) \<Longrightarrow> (\<And>t. init = Some t \<Longrightarrow> for_ok G t) \<Longrightarrow> tracks n (lt_for_init init point)"
  by (auto simp: lt_for_init_def intro!: tracks_none tracks_expr tracks_both tracks_touch intro: init_typed_some
      split: option.splits typed_for_init.split)

lemma tracks_stmt:
  shows "ts_ok G r s \<Longrightarrow> tracks (length (en_locals G)) (lt_stmt s p)"
    "ts_ok G r s \<Longrightarrow> tracks (length (en_locals G)) (lt_at s p point)"
    "list_all (ts_ok G r) ss \<Longrightarrow> tracks (length (en_locals G)) (lt_stmts ss p k)"
proof (induction s p and s p point and ss p k rule: lt_stmt_lt_at_lt_stmts.induct)
qed (auto intro!: tracks_point tracks_both tracks_touch tracks_none tracks_exit tracks_option [OF refl] tracks_expr [OF refl]
      tracks_for_init [OF refl] intro: init_typed_some split: option.splits)

lemma lifetimes_done:
  assumes "list_all (\<lambda>i. i < length (en_locals G)) (tf_params f)" "tb_ok G r (tf_body f)"
  shows "okres (\<lambda>l. lifetimes_ok (length (en_locals G)) l \<and> set (tf_params f) \<subseteq> started l)
    (lifetimes_of f (length (en_locals G)))"
proof -
  let ?n = "length (en_locals G)"
  have params: "okres (\<lambda>(_, k). lifetimes_ok ?n k \<and> started l \<subseteq> started k \<and> set is \<subseteq> started k)
      (each (\<lambda>i. mthen (touch i 0) (ret ())) is l)"
    if "list_all (\<lambda>i. i < ?n) is" "lifetimes_ok ?n l" for "is" l
    using that
  proof (induction "is" arbitrary: l)
    case Nil
    then show ?case by (simp add: ret_def)
  next
    case (Cons i "is")
    have "follows ?n l (touch i 0 l)" using Cons.prems tracks_touch by (simp add: tracks_def)
    then obtain k where k: "touch i 0 l = Inr ({i}, k)" "lifetimes_ok ?n k" "started l \<subseteq> started k" "i \<in> started k"
      using Cons.prems by (auto simp: touch_run lifetimes_ok_def follows_def)
    with Cons.IH [OF _ k(2)] Cons.prems(1) show ?case
      by (auto simp: mthen_def mbind_def ret_def elim!: okres_mono)
  qed
  have body: "tracks ?n (lt_block (tf_body f))"
    using assms(2) unfolding lt_block_def by (cases "tf_body f") (auto intro: tracks_stmt)
  have "lifetimes_ok ?n (lifetimes_new ?n)" by (simp add: lifetimes_ok_def lifetimes_new_def interval_ok_def)
  note start = params [OF assms(1) this]
  have rest: "okres (\<lambda>(_, k). lifetimes_ok ?n k \<and> set (tf_params f) \<subseteq> started k) (lt_block (tf_body f) l)"
    if "lifetimes_ok ?n l" "set (tf_params f) \<subseteq> started l" for l
    using body that by (auto simp: tracks_def follows_def elim!: allE [of _ l] okres_mono)
  show ?thesis
    unfolding lifetimes_of_def mthen_def [of "each _ _"] mbind_def [of "each _ _"]
    by (rule okres_bind, rule okres_bind [OF start]) (auto intro: okres_mono [OF rest])
qed

section \<open>What a function uses\<close>

definition below :: "nat \<Rightarrow> site set \<Rightarrow> bool" where
  "below n S \<longleftrightarrow> used_in S \<subseteq> {..<n}"

lemma below_simps [simp]:
  "below n {}" "below n (insert (Uses i) S) \<longleftrightarrow> i < n \<and> below n S" "below n (insert (Calls q) S) = below n S"
  "below n (S \<union> T) \<longleftrightarrow> below n S \<and> below n T"
  by (auto simp: below_def)

lemma below_typed:
  shows "te_ok G e \<Longrightarrow> below (length (en_locals G)) (sites_expr p e)"
    "kind_ok G ty k \<Longrightarrow> below (length (en_locals G)) (sites_kind p k)"
    "list_all (te_ok G) es \<Longrightarrow> below (length (en_locals G)) (sites_exprs p es i)"
    "lv_ok G l \<Longrightarrow> below (length (en_locals G)) (sites_lvalue p l)"
    "init_typed G init \<Longrightarrow> below (length (en_locals G)) (sites_init p init)"
    "(\<And>t. finit = Some t \<Longrightarrow> for_ok G t) \<Longrightarrow> below (length (en_locals G)) (sites_for_init p finit)"
    "(\<And>t. d = Some t \<Longrightarrow> te_ok G t) \<Longrightarrow> below (length (en_locals G)) (sites_option p d)"
    "ts_ok G r s \<Longrightarrow> below (length (en_locals G)) (sites_stmt p s)"
    "list_all (ts_ok G r) ss \<Longrightarrow> below (length (en_locals G)) (sites_stmts p ss i)"
proof (induction p e and p k and p es i and p l and p init and p finit and p d and p s and p ss i
    arbitrary: and ty and and and and and and r and r
    rule: sites_expr_sites_kind_sites_exprs_sites_lvalue_sites_init_sites_for_init_sites_option_sites_stmt_sites_stmts.induct)
qed (auto intro: init_typedI init_typed_some split: option.splits)

lemma function_used:
  "tb_ok G r (tf_body f) \<Longrightarrow> used_in (function_sites f) \<subseteq> {..<length (en_locals G)}"
  using below_typed(9) [of G r "tb_statements (tf_body f)" "[]" 0]
  by (cases "tf_body f") (simp add: below_def function_sites_def)

section \<open>Homes that do not collide\<close>

text \<open>Two lifetimes that overlap, as \<open>intervals_overlap\<close> decides it.\<close>

definition overlap :: "nat option list \<Rightarrow> nat option list \<Rightarrow> nat \<Rightarrow> nat \<Rightarrow> bool" where
  "overlap starts ends i j \<longleftrightarrow>
     (case (starts ! i, ends ! i, starts ! j, ends ! j) of
        (Some a, Some b, Some c, Some d) \<Rightarrow> a \<le> d \<and> c \<le> b
      | _ \<Rightarrow> False)"

lemma overlap_sym: "overlap starts ends i j = overlap starts ends j i"
  by (auto simp: overlap_def split: option.splits)

text \<open>What the allocation is given: the lifetimes of the locals of one function.\<close>

definition spans_ok :: "nat \<Rightarrow> nat option list \<Rightarrow> nat option list \<Rightarrow> bool" where
  "spans_ok n starts ends \<longleftrightarrow> length starts = n \<and> length ends = n \<and> (\<forall>i<n. interval_ok (starts ! i) (ends ! i))"

definition present :: "nat \<Rightarrow> nat option list \<Rightarrow> nat \<Rightarrow> bool" where
  "present n starts i \<longleftrightarrow> i < n \<and> starts ! i \<noteq> None"

lemma overlap_decided:
  assumes "spans_ok n starts ends" "present n starts i" "present n starts j"
  shows "intervals_overlap i j starts ends = Inr (overlap starts ends i j)"
proof -
  have "interval_ok (starts ! i) (ends ! i)" "interval_ok (starts ! j) (ends ! j)"
    using assms by (simp_all add: spans_ok_def present_def)
  then obtain a b c d where "starts ! i = Some a" "ends ! i = Some b" "starts ! j = Some c" "ends ! j = Some d"
    using assms(2,3) by (auto simp: present_def interval_ok_def split: option.splits)
  with assms show ?thesis
    by (simp add: intervals_overlap_def instant_def index_at_def unwrap_def overlap_def spans_ok_def present_def)
qed

lemma all_res_Inr: "(\<And>x. x \<in> set xs \<Longrightarrow> f x = Inr (p x)) \<Longrightarrow> all_res f xs = Inr (list_all p xs)"
  by (induction xs) auto

definition avoids :: "nat option list \<Rightarrow> nat option list \<Rightarrow> (nat \<times> nat) list \<Rightarrow> nat \<Rightarrow> nat \<Rightarrow> bool" where
  "avoids starts ends as i r \<longleftrightarrow> (\<forall>(j, s)\<in>set as. s = r \<longrightarrow> \<not> overlap starts ends i j)"

lemma register_free_avoids:
  assumes "spans_ok n starts ends" "present n starts i" "\<forall>(j, s)\<in>set as. present n starts j"
  shows "register_free starts ends as i r = Inr (avoids starts ends as i r)"
proof -
  have "register_free starts ends as i r = Inr (list_all (\<lambda>(j, s). s = r \<longrightarrow> \<not> overlap starts ends i j) as)"
    unfolding register_free_def
    by (rule all_res_Inr) (use assms in \<open>auto simp: overlap_decided\<close>)
  then show ?thesis by (simp add: avoids_def list_all_iff)
qed

lemma find_register_done:
  assumes "\<And>c. f c = Inr (p c)"
  shows "okres (\<lambda>r. \<forall>c. r = Some c \<longrightarrow> p c \<and> c < k + n) (find_register n k f)"
proof (induction n arbitrary: k)
  case (Suc n)
  from Suc [of "k + 1"] show ?case by (simp add: assms)
qed simp

text \<open>The state of the allocation: the homes of the locals, and the frame, which grew from its
  size \<open>hm_low\<close> to \<open>high\<close> by spills. Locals without a slot of their own in the frame do not
  share a home while their lifetimes overlap.\<close>

definition frame_of :: "local_info list \<Rightarrow> nat \<Rightarrow> nat option" where
  "frame_of locals i = li_frame_offset (locals ! i)"

record homing =
  hm_n :: nat
  hm_starts :: "nat option list"
  hm_ends :: "nat option list"
  hm_locals :: "local_info list"
  hm_low :: nat

definition proper_home :: "homing \<Rightarrow> nat \<Rightarrow> nat \<Rightarrow> local_storage \<Rightarrow> bool" where
  "proper_home H high i h \<longleftrightarrow> present (hm_n H) (hm_starts H) i
     \<and> (case h of
          St_Scalar r \<Rightarrow> r < ALLOCATABLE_SCALAR_REGS \<and> frame_of (hm_locals H) i = None
        | St_Vector r \<Rightarrow> r < ALLOCATABLE_REGS \<and> frame_of (hm_locals H) i = None
        | St_Frame k \<Rightarrow> (case frame_of (hm_locals H) i of Some k' \<Rightarrow> k = k' | None \<Rightarrow> hm_low H \<le> k \<and> k < high))"

definition shared :: "homing \<Rightarrow> local_storage option list \<Rightarrow> nat \<Rightarrow> nat \<Rightarrow> bool" where
  "shared H storage i j \<longleftrightarrow> i \<noteq> j \<and> overlap (hm_starts H) (hm_ends H) i j
     \<and> storage ! i = storage ! j \<and> storage ! i \<noteq> None
     \<and> frame_of (hm_locals H) i = None \<and> frame_of (hm_locals H) j = None"

definition homed :: "homing \<Rightarrow> local_storage option list \<Rightarrow> nat \<Rightarrow> bool" where
  "homed H storage high \<longleftrightarrow> length storage = hm_n H \<and> hm_low H \<le> high
     \<and> (\<forall>i<hm_n H. \<forall>h. storage ! i = Some h \<longrightarrow> proper_home H high i h)
     \<and> (\<forall>i. present (hm_n H) (hm_starts H) i \<longrightarrow> frame_of (hm_locals H) i \<noteq> None \<longrightarrow> storage ! i \<noteq> None)
     \<and> (\<forall>i<hm_n H. \<forall>j<hm_n H. \<not> shared H storage i j)"

text \<open>The table of the locals in registers of one kind.\<close>

definition table_of :: "local_storage option list \<Rightarrow> (nat \<Rightarrow> local_storage) \<Rightarrow> (nat \<times> nat) list \<Rightarrow> bool" where
  "table_of storage C as \<longleftrightarrow> (\<forall>i r. (i, r) \<in> set as \<longleftrightarrow> i < length storage \<and> storage ! i = Some (C r))"

lemma table_new: "(\<And>i r. i < length storage \<Longrightarrow> storage ! i \<noteq> Some (C r)) \<Longrightarrow> table_of storage C []"
  by (simp add: table_of_def)

lemma table_set:
  assumes "table_of storage C as" "i < length storage" "storage ! i = None" "inj C"
  shows "table_of (storage[i := Some (C r)]) C (as @ [(i, r)])"
  using assms by (auto simp: table_of_def nth_list_update dest: injD)

lemma table_other:
  assumes "table_of storage C as" "i < length storage" "storage ! i = None" "\<And>r. h \<noteq> C r"
  shows "table_of (storage[i := Some h]) C as"
  using assms by (auto simp: table_of_def nth_list_update)

lemma proper_mono: "proper_home H high i h \<Longrightarrow> high \<le> high' \<Longrightarrow> proper_home H high' i h"
  by (auto simp: proper_home_def split: local_storage.splits option.splits)

lemma homed_set:
  assumes h: "homed H storage high" and i: "present (hm_n H) (hm_starts H) i" "storage ! i = None"
    and home: "proper_home H high' i h" "high \<le> high'"
    and apart: "\<And>j. j < hm_n H \<Longrightarrow> j \<noteq> i \<Longrightarrow> overlap (hm_starts H) (hm_ends H) i j \<Longrightarrow> storage ! j = Some h \<Longrightarrow>
      frame_of (hm_locals H) j \<noteq> None"
  shows "homed H (storage[i := Some h]) high'"
proof -
  have i': "i < hm_n H" "length storage = hm_n H" using h i(1) by (simp_all add: homed_def present_def)
  have "\<not> shared H (storage[i := Some h]) j k" if "j < hm_n H" "k < hm_n H" for j k
  proof -
    have "\<not> shared H storage j k" using h that by (simp add: homed_def)
    then show ?thesis
      using apart [of j] apart [of k] that i' by (auto simp: shared_def nth_list_update overlap_sym)
  qed
  moreover have "proper_home H high' j x" if "j < hm_n H" "storage[i := Some h] ! j = Some x" for j x
    using that h home i' by (auto simp: homed_def nth_list_update split: if_splits intro: proper_mono)
  ultimately show ?thesis
    using h home(2) i' by (auto simp: homed_def nth_list_update)
qed

lemma homed_length: "homed H storage high \<Longrightarrow> length storage = hm_n H"
  by (simp add: homed_def)

lemma homed_free: "homed H storage high \<Longrightarrow> present (hm_n H) (hm_starts H) i \<Longrightarrow> storage ! i = None \<Longrightarrow>
    frame_of (hm_locals H) i = None"
  by (auto simp: homed_def)

lemma homed_register:
  assumes h: "homed H storage high" and i: "present (hm_n H) (hm_starts H) i" "storage ! i = None"
    and as: "table_of storage C as" "avoids (hm_starts H) (hm_ends H) as i r"
    and C: "C = St_Scalar \<and> r < ALLOCATABLE_SCALAR_REGS \<or> C = St_Vector \<and> r < ALLOCATABLE_REGS"
  shows "homed H (storage[i := Some (C r)]) high"
    and "table_of (storage[i := Some (C r)]) C (as @ [(i, r)])"
proof -
  have "proper_home H high i (C r)"
    using i C homed_free [OF h i] by (auto simp: proper_home_def)
  then show "homed H (storage[i := Some (C r)]) high"
  proof (rule homed_set [OF h i _ order_refl])
    fix j
    assume j: "j < hm_n H" "overlap (hm_starts H) (hm_ends H) i j" "storage ! j = Some (C r)"
    then have "(j, r) \<in> set as" using as(1) homed_length [OF h] by (simp add: table_of_def)
    with as(2) j(2) show "frame_of (hm_locals H) j \<noteq> None" by (auto simp: avoids_def)
  qed
  have "inj C" using C by (auto intro: injI)
  then show "table_of (storage[i := Some (C r)]) C (as @ [(i, r)])"
    using as(1) i homed_length [OF h] by (intro table_set) (auto simp: present_def)
qed

lemma homed_spill:
  assumes h: "homed H storage high" and i: "present (hm_n H) (hm_starts H) i" "storage ! i = None"
  shows "homed H (storage[i := Some (St_Frame high)]) (high + 1)"
proof -
  have "proper_home H (high + 1) i (St_Frame high)"
    using i homed_free [OF h i] h by (auto simp: proper_home_def homed_def)
  then show ?thesis
  proof (rule homed_set [OF h i])
    fix j assume j: "j < hm_n H" "storage ! j = Some (St_Frame high)"
    then have "proper_home H high j (St_Frame high)" using h by (simp add: homed_def)
    then show "frame_of (hm_locals H) j \<noteq> None" by (auto simp: proper_home_def split: option.splits)
  qed simp
qed

section \<open>The allocation of a function\<close>

definition homing_ok :: "homing \<Rightarrow> bool" where
  "homing_ok H \<longleftrightarrow> spans_ok (hm_n H) (hm_starts H) (hm_ends H) \<and> length (hm_locals H) = hm_n H"

lemma set_at_run: "i < length xs \<Longrightarrow> Codegen_Alloc.set_at xs i x = Inr (xs[i := x])"
  by (simp add: Codegen_Alloc.set_at_def index_at_def)

definition framed :: "homing \<Rightarrow> local_storage option list \<Rightarrow> bool" where
  "framed H storage \<longleftrightarrow> length storage = hm_n H
     \<and> (\<forall>i<hm_n H. \<forall>h. storage ! i = Some h \<longrightarrow> present (hm_n H) (hm_starts H) i
          \<and> (\<exists>k. h = St_Frame k \<and> frame_of (hm_locals H) i = Some k))"

lemma place_frames_done:
  assumes "length (hm_locals H) = hm_n H" "framed H storage" "\<forall>i\<in>set is. present (hm_n H) (hm_starts H) i"
  shows "okres (\<lambda>t. framed H t \<and> (\<forall>i<hm_n H. storage ! i \<noteq> None \<longrightarrow> t ! i \<noteq> None)
      \<and> (\<forall>i\<in>set is. frame_of (hm_locals H) i \<noteq> None \<longrightarrow> t ! i \<noteq> None))
    (fold_res (place_frame (hm_locals H)) storage is)"
  using assms(2,3)
proof (induction "is" arbitrary: storage)
  case (Cons i "is")
  then have i: "i < hm_n H" "length storage = hm_n H" "present (hm_n H) (hm_starts H) i"
    by (auto simp: framed_def present_def)
  show ?case
  proof (cases "frame_of (hm_locals H) i")
    case None
    with Cons i show ?thesis
      by (auto simp: place_frame_def index_at_def assms(1) frame_of_def elim!: okres_mono)
  next
    case (Some k)
    let ?t = "storage[i := Some (St_Frame k)]"
    have "framed H ?t" using Cons.prems(1) i Some by (auto simp: framed_def nth_list_update)
    from Cons.IH [OF this] Cons.prems(2) i Some show ?thesis
      by (auto simp: place_frame_def index_at_def assms(1) frame_of_def set_at_run nth_list_update elim!: okres_mono)
  qed
qed (auto simp: framed_def)

lemma framed_homed:
  assumes "framed H storage" "\<forall>i. present (hm_n H) (hm_starts H) i \<longrightarrow> frame_of (hm_locals H) i \<noteq> None \<longrightarrow> storage ! i \<noteq> None"
  shows "homed H storage (hm_low H)" "table_of storage St_Scalar []" "table_of storage St_Vector []"
  using assms by (fastforce simp: homed_def framed_def proper_home_def shared_def table_of_def)+

lemma small_u8: "r < 256 \<Longrightarrow> as_u8 r = r"
  by (simp add: as_u8_def)

lemma fresh_avoids: "\<forall>(j, s)\<in>set as. s < r \<Longrightarrow> avoids starts ends as i r"
  by (auto simp: avoids_def)

lemma scalar_parameters_done:
  assumes H: "homing_ok H" and "homed H storage (hm_low H)" "table_of storage St_Scalar as" "table_of storage St_Vector []"
    and "\<forall>(j, s)\<in>set as. s < k" "k + length ps \<le> ALLOCATABLE_SCALAR_REGS" "\<forall>i\<in>set ps. present (hm_n H) (hm_starts H) i"
  shows "okres (\<lambda>(t, bs). homed H t (hm_low H) \<and> table_of t St_Scalar bs \<and> table_of t St_Vector [])
    (fold_res (scalar_parameter (hm_locals H)) (storage, as) (enumerate k ps))"
  using assms(2-)
proof (induction ps arbitrary: k storage as)
  case (Cons i ps)
  have i: "i < length storage" "i < length (hm_locals H)" "k < 256" "k < ALLOCATABLE_SCALAR_REGS"
    using Cons.prems H by (auto simp: homed_length present_def homing_ok_def ALLOCATABLE_SCALAR_REGS_def)
  show ?case
  proof (cases "li_shape (hm_locals H ! i) = Shape_Uniform \<and> storage ! i = None")
    case True
    let ?t = "storage[i := Some (St_Scalar k)]"
    have p: "present (hm_n H) (hm_starts H) i" "storage ! i = None" using Cons.prems(6) True by simp_all
    have "homed H ?t (hm_low H)" "table_of ?t St_Scalar (as @ [(i, k)])"
      using homed_register [OF Cons.prems(1) p Cons.prems(2) fresh_avoids [OF Cons.prems(4)]] i(4) by simp_all
    moreover have "table_of ?t St_Vector []"
      using Cons.prems(3) i True by (intro table_other) simp_all
    moreover have "\<forall>(j, s)\<in>set (as @ [(i, k)]). s < Suc k" using Cons.prems(4) by (auto intro: less_SucI)
    ultimately have "okres (\<lambda>(t, bs). homed H t (hm_low H) \<and> table_of t St_Scalar bs \<and> table_of t St_Vector [])
      (fold_res (scalar_parameter (hm_locals H)) (?t, as @ [(i, k)]) (enumerate (Suc k) ps))"
      using Cons.prems(5,6) by (intro Cons.IH) simp_all
    then show ?thesis
      using True i by (simp add: scalar_parameter_def index_at_def set_at_run small_u8)
  next
    case False
    have "\<forall>(j, s)\<in>set as. s < Suc k" using Cons.prems(4) by auto
    then have "okres (\<lambda>(t, bs). homed H t (hm_low H) \<and> table_of t St_Scalar bs \<and> table_of t St_Vector [])
      (fold_res (scalar_parameter (hm_locals H)) (storage, as) (enumerate (Suc k) ps))"
      using Cons.prems by (intro Cons.IH) simp_all
    then show ?thesis
      using False i by (auto simp: scalar_parameter_def index_at_def)
  qed
qed simp

lemma vector_parameters_done:
  assumes H: "homing_ok H" and "homed H storage high" "table_of storage St_Vector as"
    and "\<forall>(j, s)\<in>set as. s < k" "k + length ps \<le> ALLOCATABLE_REGS" "\<forall>i\<in>set ps. present (hm_n H) (hm_starts H) i"
  shows "okres (\<lambda>(t, bs). homed H t high \<and> table_of t St_Vector bs)
    (fold_res vector_parameter (storage, as) (enumerate k ps))"
  using assms(2-)
proof (induction ps arbitrary: k storage as)
  case (Cons i ps)
  have i: "i < length storage" "k < 256" "k < ALLOCATABLE_REGS"
    using Cons.prems by (auto simp: homed_length present_def ALLOCATABLE_REGS_def)
  show ?case
  proof (cases "storage ! i = None")
    case True
    let ?t = "storage[i := Some (St_Vector k)]"
    have p: "present (hm_n H) (hm_starts H) i" "storage ! i = None" using Cons.prems(5) True by simp_all
    have "homed H ?t high" "table_of ?t St_Vector (as @ [(i, k)])"
      using homed_register [OF Cons.prems(1) p Cons.prems(2) fresh_avoids [OF Cons.prems(3)]] i(3) by simp_all
    moreover have "\<forall>(j, s)\<in>set (as @ [(i, k)]). s < Suc k" using Cons.prems(3) by (auto intro: less_SucI)
    ultimately have "okres (\<lambda>(t, bs). homed H t high \<and> table_of t St_Vector bs)
      (fold_res vector_parameter (?t, as @ [(i, k)]) (enumerate (Suc k) ps))"
      using Cons.prems(4,5) by (intro Cons.IH) simp_all
    then show ?thesis
      using True i by (simp add: vector_parameter_def index_at_def set_at_run small_u8)
  next
    case False
    have "\<forall>(j, s)\<in>set as. s < Suc k" using Cons.prems(3) by auto
    then have "okres (\<lambda>(t, bs). homed H t high \<and> table_of t St_Vector bs)
      (fold_res vector_parameter (storage, as) (enumerate (Suc k) ps))"
      using Cons.prems by (intro Cons.IH) simp_all
    then show ?thesis
      using False i by (auto simp: vector_parameter_def index_at_def)
  qed
qed simp

lemma table_present:
  "homed H storage high \<Longrightarrow> table_of storage C as \<Longrightarrow> \<forall>(j, s)\<in>set as. present (hm_n H) (hm_starts H) j"
  by (auto simp: table_of_def homed_def proper_home_def)

lemma scalar_local_done:
  assumes H: "homing_ok H" and h: "homed H storage (hm_low H)" "table_of storage St_Scalar as" "table_of storage St_Vector []"
    and i: "present (hm_n H) (hm_starts H) i"
  shows "okres (\<lambda>(t, bs). homed H t (hm_low H) \<and> table_of t St_Scalar bs \<and> table_of t St_Vector [])
    (scalar_local (hm_locals H) ps (hm_starts H) (hm_ends H) (storage, as) i)"
proof -
  have lt: "i < length storage" "i < length (hm_locals H)"
    using H h i by (auto simp: homed_length present_def homing_ok_def)
  have free: "register_free (hm_starts H) (hm_ends H) as i r = Inr (avoids (hm_starts H) (hm_ends H) as i r)" for r
    using H table_present [OF h(1,2)] i by (intro register_free_avoids) (auto simp: homing_ok_def)
  have found: "okres (\<lambda>r. \<forall>c. r = Some c \<longrightarrow> avoids (hm_starts H) (hm_ends H) as i c \<and> c < 0 + ALLOCATABLE_SCALAR_REGS)
      (find_register ALLOCATABLE_SCALAR_REGS 0 (register_free (hm_starts H) (hm_ends H) as i))"
    by (rule find_register_done) (rule free)
  have set: "homed H (storage[i := Some (St_Scalar r)]) (hm_low H)"
    "table_of (storage[i := Some (St_Scalar r)]) St_Scalar (as @ [(i, r)])"
    "table_of (storage[i := Some (St_Scalar r)]) St_Vector []"
    if "storage ! i = None" "avoids (hm_starts H) (hm_ends H) as i r" "r < ALLOCATABLE_SCALAR_REGS" for r
    using homed_register [OF h(1) i that(1) h(2) that(2)] that(3) table_other [OF h(3) lt(1) that(1)] by simp_all
  have u8: "r < ALLOCATABLE_SCALAR_REGS \<Longrightarrow> as_u8 r = r" for r by (simp add: small_u8 ALLOCATABLE_SCALAR_REGS_def)
  show ?thesis
    unfolding scalar_local_def prod.case
    using lt h set
    by (auto simp: index_at_def u8 set_at_run intro!: okres_bind [OF found] split: option.split)
qed

lemma vector_local_done:
  assumes H: "homing_ok H" and h: "homed H storage high" "table_of storage St_Vector as"
    and i: "present (hm_n H) (hm_starts H) i" and limit: "limit \<le> ALLOCATABLE_REGS"
  shows "okres (\<lambda>((t, bs), high', spills'). homed H t high' \<and> table_of t St_Vector bs \<and> t ! i \<noteq> None
      \<and> (\<forall>j<hm_n H. storage ! j \<noteq> None \<longrightarrow> t ! j \<noteq> None))
    (vector_local limit (hm_starts H) (hm_ends H) ((storage, as), high, spills) i)"
proof -
  have lt: "i < length storage" "length storage = hm_n H"
    using H h i by (auto simp: homed_length present_def homing_ok_def)
  have free: "register_free (hm_starts H) (hm_ends H) as i r = Inr (avoids (hm_starts H) (hm_ends H) as i r)" for r
    using H table_present [OF h(1,2)] i by (intro register_free_avoids) (auto simp: homing_ok_def)
  have found: "okres (\<lambda>r. \<forall>c. r = Some c \<longrightarrow> avoids (hm_starts H) (hm_ends H) as i c \<and> c < 0 + limit)
      (find_register limit 0 (register_free (hm_starts H) (hm_ends H) as i))"
    by (rule find_register_done) (rule free)
  have set: "homed H (storage[i := Some (St_Vector r)]) high"
    "table_of (storage[i := Some (St_Vector r)]) St_Vector (as @ [(i, r)])"
    if "storage ! i = None" "avoids (hm_starts H) (hm_ends H) as i r" "r < limit" for r
    using homed_register [OF h(1) i that(1) h(2) that(2)] that(3) limit by simp_all
  have spill: "homed H (storage[i := Some (St_Frame high)]) (high + 1)"
    "table_of (storage[i := Some (St_Frame high)]) St_Vector as" if "storage ! i = None"
    using homed_spill [OF h(1) i that] table_other [OF h(2) lt(1) that] by simp_all
  have u8: "r < limit \<Longrightarrow> as_u8 r = r" for r using limit by (simp add: small_u8 ALLOCATABLE_REGS_def)
  show ?thesis
    unfolding vector_local_def prod.case
    using lt h set spill
    by (auto simp: index_at_def u8 set_at_run nth_list_update intro!: okres_bind [OF found] split: option.split)
qed

lemma vector_locals_done:
  assumes H: "homing_ok H" and "homed H storage high" "table_of storage St_Vector as"
    and "\<forall>i\<in>set is. present (hm_n H) (hm_starts H) i" and limit: "limit \<le> ALLOCATABLE_REGS"
  shows "okres (\<lambda>((t, bs), high', spills'). homed H t high' \<and> (\<forall>i\<in>set is. t ! i \<noteq> None)
      \<and> (\<forall>j<hm_n H. storage ! j \<noteq> None \<longrightarrow> t ! j \<noteq> None))
    (fold_res (vector_local limit (hm_starts H) (hm_ends H)) ((storage, as), high, spills) is)"
  using assms(2-4)
proof (induction "is" arbitrary: storage as high spills)
  case (Cons i "is")
  then have i: "present (hm_n H) (hm_starts H) i" by simp
  show ?case
    unfolding fold_res.simps
  proof (rule okres_bind [OF vector_local_done [OF H Cons.prems(1,2) i limit]])
    fix x :: "homes \<times> nat \<times> nat"
    assume x: "(\<lambda>((t, bs), high', spills'). homed H t high' \<and> table_of t St_Vector bs \<and> t ! i \<noteq> None
      \<and> (\<forall>j<hm_n H. storage ! j \<noteq> None \<longrightarrow> t ! j \<noteq> None)) x"
    obtain t bs h' s' where eq: "x = ((t, bs), h', s')" by (cases x) auto
    with x have t: "homed H t h'" "table_of t St_Vector bs" "t ! i \<noteq> None"
      "\<forall>j<hm_n H. storage ! j \<noteq> None \<longrightarrow> t ! j \<noteq> None" by simp_all
    have lt: "i < hm_n H" using i by (simp add: present_def)
    show "okres (\<lambda>((t, bs), high', spills' :: nat). homed H t high' \<and> (\<forall>i\<in>set (i # is). t ! i \<noteq> None)
      \<and> (\<forall>j<hm_n H. storage ! j \<noteq> None \<longrightarrow> t ! j \<noteq> None))
      (fold_res (vector_local limit (hm_starts H) (hm_ends H)) x is)"
      unfolding eq
      by (rule okres_mono [OF Cons.IH [OF t(1,2)]]) (use Cons.prems(3) t(3,4) lt in fastforce)+
  qed
qed simp

definition allocation_of :: "local_info list \<Rightarrow> nat \<Rightarrow> typed_function \<Rightarrow> function_allocation \<Rightarrow> homing" where
  "allocation_of locals n f a =
     \<lparr>hm_n = n, hm_starts = fa_starts a, hm_ends = fa_ends a, hm_locals = locals, hm_low = tf_frame_words f\<rparr>"

text \<open>What every allocation of a well typed function is.\<close>

definition allocated :: "local_info list \<Rightarrow> nat \<Rightarrow> typed_function \<Rightarrow> function_allocation \<Rightarrow> bool" where
  "allocated locals n f a \<longleftrightarrow>
     homing_ok (allocation_of locals n f a)
     \<and> homed (allocation_of locals n f a) (fa_storage a) (fa_frame_words a)
     \<and> (\<forall>i. present n (fa_starts a) i \<longrightarrow> fa_storage a ! i \<noteq> None)
     \<and> (\<forall>i\<in>set (tf_params f). present n (fa_starts a) i)
     \<and> (\<forall>q l. fa_call_live_out a q = Some l \<longrightarrow> l \<subseteq> {..<n})"

lemma set_function_locals: "set (function_locals starts) = {i. present (length starts) starts i}"
  by (auto simp: function_locals_def present_def)

lemma allocate_done:
  assumes f: "function_typed G f" and locals: "length locals = length (en_locals G)"
    and limit: "limit \<le> ALLOCATABLE_REGS"
  shows "okres (allocated locals (length locals) f) (allocate_function f locals (length locals) data_words limit)"
proof -
  let ?n = "length (en_locals G)"
  have body: "tb_ok G (tf_return_type f) (tf_body f)" and params: "list_all (\<lambda>i. i < ?n) (tf_params f)"
    and four: "length (tf_params f) \<le> 4"
    using f unfolding function_typed_def by auto
  obtain live where live: "call_live_outs f = Inr live" "\<forall>q l. live q = Some l \<longrightarrow> l \<subseteq> {..<?n}"
    using live_outs_cases [of f] function_used [OF body] by blast
  show ?thesis
    unfolding allocate_function_def locals live(1) rbind_Inr
  proof (rule okres_bind [OF lifetimes_done [OF params body]], unfold Let_def)
    fix l
    assume l: "lifetimes_ok ?n l \<and> set (tf_params f) \<subseteq> started l"
    let ?S = "lt_starts l" and ?E = "lt_ends l"
    let ?H = "\<lparr>hm_n = ?n, hm_starts = ?S, hm_ends = ?E, hm_locals = locals, hm_low = tf_frame_words f\<rparr>"
    let ?is = "function_locals ?S"
    have spans: "spans_ok ?n ?S ?E" "length ?S = ?n" using l by (simp_all add: spans_ok_def lifetimes_ok_def)
    then have H: "homing_ok ?H" by (simp add: homing_ok_def locals)
    have set_is: "set ?is = {i. present ?n ?S i}" using set_function_locals [of ?S] spans(2) by simp
    have ps: "\<forall>i\<in>set (tf_params f). present ?n ?S i"
      using l spans(2) by (auto simp: started_def present_def)
    have start: "framed ?H (replicate ?n None)" by (simp add: framed_def)
    have frames: "okres (\<lambda>t. framed ?H t \<and> (\<forall>i. present ?n ?S i \<longrightarrow> frame_of locals i \<noteq> None \<longrightarrow> t ! i \<noteq> None))
        (fold_res (place_frame locals) (replicate ?n None) ?is)"
      by (rule okres_mono [OF place_frames_done [of ?H, simplified, OF locals start [simplified], of ?is]])
        (auto simp: set_is)
    show "okres (allocated locals ?n f)
      (rbind (fold_res (place_frame locals) (replicate ?n None) ?is) (\<lambda>storage.
       rbind (fold_res (scalar_parameter locals) (storage, []) (enumerate 0 (tf_params f))) (\<lambda>homes.
       rbind (fold_res (scalar_local locals (tf_params f) ?S ?E) homes ?is) (\<lambda>(storage, scalars).
       rbind (fold_res vector_parameter (storage, []) (enumerate 0 (tf_params f))) (\<lambda>homes.
       rbind (fold_res (vector_local limit ?S ?E) (homes, tf_frame_words f, 0) ?is)
       (\<lambda>((storage, vectors), frame_words, spills).
     if data_words + frame_words * 32 \<ge> STACK_TOP
     then diag (tf_span f) ''Warp C data and register-spill frame exceed VM RAM''
     else
       Inr \<lparr>fa_storage = storage, fa_starts = ?S, fa_ends = ?E,
            fa_statement_points = lt_statement_points l,
            fa_end_point = lt_next_point l + 1, fa_frame_words = frame_words,
            fa_scalar_homes = scalar_homes scalars, fa_spills = spills,
            fa_vector_home_limit = limit, fa_call_live_out = live\<rparr>))))))"
    proof (rule okres_bind [OF frames])
      fix storage
      assume "framed ?H storage \<and> (\<forall>i. present ?n ?S i \<longrightarrow> frame_of locals i \<noteq> None \<longrightarrow> storage ! i \<noteq> None)"
      then have "framed ?H storage" "\<forall>i. present ?n ?S i \<longrightarrow> frame_of locals i \<noteq> None \<longrightarrow> storage ! i \<noteq> None"
        by simp_all
      note s = framed_homed [of ?H, simplified, OF this [simplified]]
      have sp: "okres (\<lambda>(t, bs). homed ?H t (tf_frame_words f) \<and> table_of t St_Scalar bs \<and> table_of t St_Vector [])
          (fold_res (scalar_parameter locals) (storage, []) (enumerate 0 (tf_params f)))"
        using scalar_parameters_done [OF H, simplified, OF s, of 0 "tf_params f"] four ps
        by (simp add: ALLOCATABLE_SCALAR_REGS_def)
      have sl: "okres (\<lambda>(t, bs). homed ?H t (tf_frame_words f) \<and> table_of t St_Scalar bs \<and> table_of t St_Vector [])
          (fold_res (scalar_local locals (tf_params f) ?S ?E) homes ?is)"
        if "case homes of (t, bs) \<Rightarrow> homed ?H t (tf_frame_words f) \<and> table_of t St_Scalar bs \<and> table_of t St_Vector []"
        for homes
        using that scalar_local_done [OF H, simplified] by (intro okres_fold) (auto simp: set_is)
      have vp: "okres (\<lambda>(t, bs). homed ?H t (tf_frame_words f) \<and> table_of t St_Vector bs)
          (fold_res vector_parameter (t, []) (enumerate 0 (tf_params f)))"
        if "homed ?H t (tf_frame_words f)" "table_of t St_Vector []" for t
        using vector_parameters_done [OF H that, of 0 "tf_params f"] four ps by (simp add: ALLOCATABLE_REGS_def)
      have vl: "okres (\<lambda>((t, bs), high', spills'). homed ?H t high' \<and> (\<forall>i\<in>set ?is. t ! i \<noteq> None)
          \<and> (\<forall>j<hm_n ?H. u ! j \<noteq> None \<longrightarrow> t ! j \<noteq> None))
          (fold_res (vector_local limit ?S ?E) ((u, bs), tf_frame_words f, 0) ?is)"
        if "homed ?H u (tf_frame_words f)" "table_of u St_Vector bs" for u bs
        using vector_locals_done [OF H that _ limit, of ?is 0] by (simp add: set_is)
      have fin: "allocated locals ?n f \<lparr>fa_storage = t, fa_starts = ?S, fa_ends = ?E,
            fa_statement_points = lt_statement_points l,
            fa_end_point = Suc (lt_next_point l), fa_frame_words = high,
            fa_scalar_homes = scalar_homes scalars, fa_spills = spills,
            fa_vector_home_limit = limit, fa_call_live_out = live\<rparr>"
        if "homed ?H t high" "\<forall>i\<in>set ?is. t ! i \<noteq> None" for t high scalars spills
        using that H ps live(2) by (simp add: allocated_def allocation_of_def set_is)
      show "okres (allocated locals ?n f)
      (rbind (fold_res (scalar_parameter locals) (storage, []) (enumerate 0 (tf_params f))) (\<lambda>homes.
       rbind (fold_res (scalar_local locals (tf_params f) ?S ?E) homes ?is) (\<lambda>(storage, scalars).
       rbind (fold_res vector_parameter (storage, []) (enumerate 0 (tf_params f))) (\<lambda>homes.
       rbind (fold_res (vector_local limit ?S ?E) (homes, tf_frame_words f, 0) ?is)
       (\<lambda>((storage, vectors), frame_words, spills).
     if data_words + frame_words * 32 \<ge> STACK_TOP
     then diag (tf_span f) ''Warp C data and register-spill frame exceed VM RAM''
     else
       Inr \<lparr>fa_storage = storage, fa_starts = ?S, fa_ends = ?E,
            fa_statement_points = lt_statement_points l,
            fa_end_point = lt_next_point l + 1, fa_frame_words = frame_words,
            fa_scalar_homes = scalar_homes scalars, fa_spills = spills,
            fa_vector_home_limit = limit, fa_call_live_out = live\<rparr>)))))"
        by (rule okres_bind [OF sp], rule okres_bind [OF sl], assumption, clarsimp, rule okres_bind [OF vp], assumption,
            assumption, clarsimp, rule okres_bind [OF vl], assumption, assumption) (auto intro!: fin)
    qed
  qed
qed

lemma allocated_result:
  "function_typed G f \<Longrightarrow> length locals = length (en_locals G) \<Longrightarrow> limit \<le> ALLOCATABLE_REGS \<Longrightarrow>
   allocate_function f locals (length locals) data_words limit = Inr a \<Longrightarrow> allocated locals (length locals) f a"
  using allocate_done [of G f locals limit data_words] by simp

text \<open>
  C4. In the allocation of a well typed function every local that is used has a home; a local
  whose address is taken, or that is no scalar, is in its slot of the frame; spilled locals are
  behind those slots and inside the frame; and two locals without such slots whose lifetimes
  overlap never have the same home, be it a vector register, a scalar register or a spill slot.
\<close>

theorem homes_do_not_collide:
  assumes "function_typed G f" "length locals = length (en_locals G)" "limit \<le> ALLOCATABLE_REGS"
    and "allocate_function f locals (length locals) data_words limit = Inr a"
  shows "(\<forall>i<length locals. fa_starts a ! i \<noteq> None \<longrightarrow> fa_storage a ! i \<noteq> None)
    \<and> (\<forall>i<length locals. \<forall>h. fa_storage a ! i = Some h \<longrightarrow>
        (case frame_of locals i of
           Some k \<Rightarrow> h = St_Frame k
         | None \<Rightarrow> \<forall>k. h = St_Frame k \<longrightarrow> tf_frame_words f \<le> k \<and> k < fa_frame_words a))
    \<and> (\<forall>i<length locals. \<forall>j<length locals. i \<noteq> j \<longrightarrow> overlap (fa_starts a) (fa_ends a) i j \<longrightarrow>
        frame_of locals i = None \<longrightarrow> frame_of locals j = None \<longrightarrow> fa_storage a ! i \<noteq> fa_storage a ! j)"
proof -
  let ?n = "length locals"
  have a: "allocated locals ?n f a" using allocated_result [OF assms] .
  then have h: "homed (allocation_of locals ?n f a) (fa_storage a) (fa_frame_words a)"
    and homes: "\<And>i. present ?n (fa_starts a) i \<Longrightarrow> fa_storage a ! i \<noteq> None"
    by (simp_all add: allocated_def)
  have proper: "proper_home (allocation_of locals ?n f a) (fa_frame_words a) i x"
    if "i < ?n" "fa_storage a ! i = Some x" for i x
    using h that by (simp add: homed_def allocation_of_def)
  have "case frame_of locals i of Some k \<Rightarrow> x = St_Frame k
      | None \<Rightarrow> \<forall>k. x = St_Frame k \<longrightarrow> tf_frame_words f \<le> k \<and> k < fa_frame_words a"
    if "i < ?n" "fa_storage a ! i = Some x" for i x
    using proper [OF that]
    by (cases x) (auto simp: proper_home_def allocation_of_def split: option.splits)
  moreover have "fa_storage a ! i \<noteq> fa_storage a ! j"
    if "i < ?n" "j < ?n" "i \<noteq> j" "overlap (fa_starts a) (fa_ends a) i j" "frame_of locals i = None"
      "frame_of locals j = None" for i j
  proof -
    have "\<not> shared (allocation_of locals ?n f a) (fa_storage a) i j"
      using h that by (simp add: homed_def allocation_of_def)
    moreover have "present ?n (fa_starts a) i"
      using that by (auto simp: present_def overlap_def split: option.splits)
    ultimately show ?thesis
      using homes [of i] that by (auto simp: shared_def allocation_of_def)
  qed
  ultimately show ?thesis
    using homes by (auto simp: present_def)
qed

definition sum_span :: span where
  "sum_span = span_new 0 1 1"

definition sum_local :: "string \<Rightarrow> local_info" where
  "sum_local name = \<lparr>li_name = name, li_ty = T_I32, li_span = sum_span, li_uniformity = Divergent,
     li_shape = Shape_Warp, li_address_taken = False, li_frame_offset = None\<rparr>"

definition sum_value :: "typed_kind \<Rightarrow> typed_expr" where
  "sum_value k = TExpr k T_I32 Divergent sum_span"

text \<open>\<open>int main(void) { int a = 1; int b = 2; return a + b; }\<close>\<close>

definition sum_function :: typed_function where
  "sum_function =
     \<lparr>tf_id = 0, tf_name = ''main'', tf_return_type = T_I32, tf_return_shape = Shape_Warp, tf_params = [],
      tf_body = TBlock
        [TS_Decl 0 (Some (TI_Expr (sum_value (TE_Literal 1)))) sum_span,
         TS_Decl 1 (Some (TI_Expr (sum_value (TE_Literal 2)))) sum_span,
         TS_Return (Some (sum_value (TE_Binary B_Add (sum_value (TE_LValue (LV_Local 0)))
           (sum_value (TE_LValue (LV_Local 1))) T_I32))) sum_span] [0, 1] sum_span,
      tf_frame_words = 0, tf_span = sum_span\<rparr>"

definition sum_env :: typing where
  "sum_env = \<lparr>en_locals = [T_I32, T_I32], en_globals = [], en_structs = [],
     en_functions = [\<lparr>fs_name = ''main'', fs_return_type = T_I32, fs_params = [], fs_param_shapes = [],
       fs_param_names = [], fs_param_spans = [], fs_return_shape = Shape_Warp, fs_defined = True,
       fs_span = sum_span\<rparr>]\<rparr>"

lemma sum_typed: "function_typed sum_env sum_function"
  by (simp add: function_typed_def sum_env_def sum_function_def sum_value_def type_ok_def T_I32_def scalar_type_def
      is_integer_def assignable_def value_type_def decay_def binary_ok_def usual_type_def binary_result_type_def
      Let_def is_void_def promoted_def is_unsigned_def T_VOID_def T_U32_def T_CHAR_def)

abbreviation sum_locals :: "local_info list" where
  "sum_locals \<equiv> [sum_local ''a'', sum_local ''b'']"

lemma sum_lifetimes:
  "case lifetimes_of sum_function 2 of
     Inl e \<Rightarrow> False | Inr l \<Rightarrow> lt_starts l = [Some 1, Some 2] \<and> lt_ends l = [Some 3, Some 3]"
  "case call_live_outs sum_function of Inl e \<Rightarrow> False | Inr l \<Rightarrow> True"
  by code_simp+

lemma sum_steps:
  "fold_res (place_frame sum_locals) (replicate 2 None) (function_locals [Some 1, Some 2]) = Inr [None, None]"
  "fold_res (scalar_local sum_locals [] [Some 1, Some 2] [Some 3, Some 3]) ([None, None], [])
     (function_locals [Some 1, Some 2]) = Inr ([None, None], [])"
  "fold_res (vector_local 8 [Some 1, Some 2] [Some 3, Some 3]) (([None, None], []), 0, 0)
     (function_locals [Some 1, Some 2])
   = Inr (([Some (St_Vector 0), Some (St_Vector 1)], [(0, 0), (1, 1)]), 0, 0)"
  by code_simp+

lemma sum_allocation:
  obtains a where "allocate_function sum_function sum_locals 2 0 8 = Inr a"
    "fa_starts a = [Some 1, Some 2]" "fa_ends a = [Some 3, Some 3]"
proof -
  obtain l live where l: "lifetimes_of sum_function 2 = Inr l" "lt_starts l = [Some 1, Some 2]"
    "lt_ends l = [Some 3, Some 3]" "call_live_outs sum_function = Inr live"
    using sum_lifetimes by (auto split: sum.splits)
  have "tf_params sum_function = []" "tf_frame_words sum_function = 0" by (simp_all add: sum_function_def)
  with l sum_steps have "allocate_function sum_function sum_locals 2 0 8 =
      Inr \<lparr>fa_storage = [Some (St_Vector 0), Some (St_Vector 1)], fa_starts = lt_starts l, fa_ends = lt_ends l,
        fa_statement_points = lt_statement_points l, fa_end_point = lt_next_point l + 1, fa_frame_words = 0,
        fa_scalar_homes = scalar_homes [], fa_spills = 0, fa_vector_home_limit = 8, fa_call_live_out = live\<rparr>"
    by (simp add: allocate_function_def Let_def STACK_TOP_def RAM_SIZE_WORDS_def)
  from that [OF this] l show thesis by simp
qed

theorem homes_do_not_collide_witness:
  "\<exists>a. allocate_function sum_function sum_locals 2 0 8 = Inr a \<and> overlap (fa_starts a) (fa_ends a) 0 1
     \<and> fa_storage a ! 0 \<noteq> fa_storage a ! 1"
proof -
  obtain a where a: "allocate_function sum_function sum_locals 2 0 8 = Inr a"
    "fa_starts a = [Some 1, Some 2]" "fa_ends a = [Some 3, Some 3]"
    by (rule sum_allocation)
  have o: "overlap (fa_starts a) (fa_ends a) 0 1" by (simp add: a overlap_def)
  have "fa_storage a ! 0 \<noteq> fa_storage a ! 1"
    using a(1) o
    by (intro homes_do_not_collide [OF sum_typed, of sum_locals 8 0 a, THEN conjunct2, THEN conjunct2, rule_format])
      (simp_all add: sum_env_def ALLOCATABLE_REGS_def frame_of_def sum_local_def numeral_2_eq_2)
  with a(1) o show ?thesis by blast
qed

end
