(* ===== verification/Codegen_Keeps.thy ===== *)
theory Codegen_Keeps
  imports Codegen Codegen_Alloc_Facts
begin

text \<open>
  The code generator without debug assertions, over the trees that the analysis returns: when
  its state fits the program, no operation panics and the state still fits. The calculus here
  follows the structure of the computations; \<open>Codegen_Total\<close> applies it to whole programs.
\<close>

section \<open>States that fit a program\<close>

fun home_ok :: "local_storage option \<Rightarrow> bool" where
  "home_ok (Some (St_Vector r)) \<longleftrightarrow> r < ALLOCATABLE_REGS"
| "home_ok (Some (St_Scalar r)) \<longleftrightarrow> r < ALLOCATABLE_SCALAR_REGS"
| "home_ok _ \<longleftrightarrow> True"

text \<open>The tables of the program in the state, and what belongs to the function at hand.\<close>

definition tables_fit :: "typing \<Rightarrow> generator \<Rightarrow> bool" where
  "tables_fit G g \<longleftrightarrow> \<not> g_checks g
     \<and> map li_ty (g_locals g) = en_locals G \<and> list_all (type_ok G) (en_locals G)
     \<and> length (g_globals g) = length (en_globals G) \<and> g_structs g = en_structs G
     \<and> length (g_function_labels g) = length (en_functions G)
     \<and> length (g_function_names g) = length (en_functions G)
     \<and> length (g_function_param_shapes g) = length (en_functions G)
     \<and> length (g_function_return_shapes g) = length (en_functions G)"

definition locals_fit :: "nat \<Rightarrow> local_storage option list \<Rightarrow> nat option list \<Rightarrow> nat option list \<Rightarrow> bool" where
  "locals_fit n storage starts ends \<longleftrightarrow>
     length storage = n \<and> length starts = n \<and> length ends = n \<and> list_all home_ok storage
     \<and> (\<forall>i<n. starts ! i \<noteq> None \<longrightarrow> ends ! i \<noteq> None \<and> storage ! i \<noteq> None)"

definition lives_fit :: "nat \<Rightarrow> (node \<rightharpoonup> nat set) \<Rightarrow> bool" where
  "lives_fit n live \<longleftrightarrow> (\<forall>q l. live q = Some l \<longrightarrow> l \<subseteq> {..<n})"

definition fit :: "typing \<Rightarrow> generator \<Rightarrow> bool" where
  "fit G g \<longleftrightarrow> tables_fit G g
     \<and> length (g_used g) = ALLOCATABLE_REGS \<and> length (g_scalar_used g) = ALLOCATABLE_SCALAR_REGS
     \<and> length (g_local_active g) = length (en_locals G)
     \<and> locals_fit (length (en_locals G)) (g_local_storage g) (g_local_starts g) (g_local_ends g)
     \<and> lives_fit (length (en_locals G)) (g_call_live_out g)"

definition keeps :: "typing \<Rightarrow> ('a \<Rightarrow> bool) \<Rightarrow> 'a gm \<Rightarrow> bool" where
  "keeps G P m \<longleftrightarrow> (\<forall>g. fit G g \<longrightarrow> okres (\<lambda>(x, h). P x \<and> fit G h) (m g))"

definition value_ok :: "gvalue \<Rightarrow> bool" where
  "value_ok v \<longleftrightarrow> (v_owned v \<longrightarrow> v_reg v < ALLOCATABLE_REGS)"

lemma value_ok_simps [simp]:
  "value_ok (owned r) \<longleftrightarrow> r < ALLOCATABLE_REGS" "value_ok (borrowed r)" "value_ok nothing"
  "v_reg (owned r) = r" "v_owned (owned r)"
  by (simp_all add: value_ok_def owned_def borrowed_def nothing_def)

section \<open>Rules for computations\<close>

lemma keepsI: "(\<And>g. fit G g \<Longrightarrow> okres (\<lambda>(x, h). P x \<and> fit G h) (m g)) \<Longrightarrow> keeps G P m"
  by (simp add: keeps_def)

lemma keeps_weaken: "keeps G Q m \<Longrightarrow> (\<And>x. Q x \<Longrightarrow> P x) \<Longrightarrow> keeps G P m"
  by (auto simp: keeps_def intro: okres_mono)

lemma keeps_ret: "P x \<Longrightarrow> keeps G P (ret x)"
  by (simp add: keeps_def ret_def)

lemma keeps_bind: "keeps G Q m \<Longrightarrow> (\<And>x. Q x \<Longrightarrow> keeps G P (f x)) \<Longrightarrow> keeps G P (mbind m f)"
  unfolding keeps_def mbind_def by (auto intro!: okres_bind)

lemma keeps_then: "keeps G (\<lambda>_. True) m \<Longrightarrow> keeps G P n \<Longrightarrow> keeps G P (mthen m n)"
  unfolding mthen_def by (rule keeps_bind)

lemma keeps_fails: "keeps G P (fails sp message)"
  by (simp add: keeps_def fails_def)

lemma keeps_lift: "okres P r \<Longrightarrow> keeps G P (lift r)"
  by (auto simp: keeps_def lift_def elim!: okres_bind)

lemma keeps_gets: "(\<And>g. fit G g \<Longrightarrow> P (f g)) \<Longrightarrow> keeps G P (gets f)"
  by (simp add: keeps_def gets_def)

lemma keeps_read: "keeps G (\<lambda>_. True) (gets f)"
  by (rule keeps_gets) simp

lemma keeps_modify: "(\<And>g. fit G g \<Longrightarrow> fit G (f g)) \<Longrightarrow> P () \<Longrightarrow> keeps G P (modify f)"
  by (simp add: keeps_def modify_def)

lemma keeps_each: "(\<And>x. x \<in> set xs \<Longrightarrow> keeps G (\<lambda>_. True) (f x)) \<Longrightarrow> keeps G (\<lambda>_. True) (each f xs)"
  by (induction xs) (auto intro: keeps_ret keeps_then)

lemma keeps_only_if: "(c \<Longrightarrow> keeps G (\<lambda>_. True) m) \<Longrightarrow> keeps G (\<lambda>_. True) (only_if c m)"
  by (auto simp: only_if_def intro: keeps_ret)

lemma keeps_if: "(c \<Longrightarrow> keeps G P a) \<Longrightarrow> (\<not> c \<Longrightarrow> keeps G P b) \<Longrightarrow> keeps G P (if c then a else b)"
  by simp

lemma keeps_option:
  "(x = None \<Longrightarrow> keeps G P a) \<Longrightarrow> (\<And>y. x = Some y \<Longrightarrow> keeps G P (f y)) \<Longrightarrow> keeps G P (case_option a f x)"
  by (cases x) simp_all

lemma keeps_prod: "(\<And>a b. x = (a, b) \<Longrightarrow> keeps G P (f a b)) \<Longrightarrow> keeps G P (case_prod f x)"
  by (cases x) simp

lemma keeps_home:
  "(\<And>r. x = St_Vector r \<Longrightarrow> keeps G P (f r)) \<Longrightarrow> (\<And>r. x = St_Scalar r \<Longrightarrow> keeps G P (f' r)) \<Longrightarrow>
   (\<And>r. x = St_Frame r \<Longrightarrow> keeps G P (f'' r)) \<Longrightarrow> keeps G P (case_local_storage f f' f'' x)"
  by (cases x) simp_all

lemma keeps_lvalue:
  "(\<And>i. x = LV_Local i \<Longrightarrow> keeps G P (f i)) \<Longrightarrow> (\<And>i. x = LV_Global i \<Longrightarrow> keeps G P (f1 i)) \<Longrightarrow>
   (\<And>e. x = LV_Deref e \<Longrightarrow> keeps G P (f2 e)) \<Longrightarrow> (\<And>b i k. x = LV_Index b i k \<Longrightarrow> keeps G P (f3 b i k)) \<Longrightarrow>
   (\<And>l n. x = LV_Member l n \<Longrightarrow> keeps G P (f4 l n)) \<Longrightarrow> keeps G P (case_lvalue f f1 f2 f3 f4 x)"
  by (cases x) simp_all

lemmas keeps_control = keeps_ret keeps_bind keeps_then keeps_fails keeps_if keeps_option keeps_prod
  keeps_home keeps_lvalue keeps_only_if

section \<open>Reading the state\<close>

lemma keeps_field:
  "(\<And>g. fit G g \<Longrightarrow> i < length (f g) \<and> P (f g ! i)) \<Longrightarrow> keeps G P (field_at f i)"
  unfolding field_at_def
  by (intro keepsI) (auto simp: mbind_def gets_def lift_def index_at_def)

lemma list_all_nth: "list_all P xs \<Longrightarrow> i < length xs \<Longrightarrow> P (xs ! i)"
  by (simp add: list_all_length)

lemma fit_locals: "fit G g \<Longrightarrow> length (g_locals g) = length (en_locals G)"
  by (auto simp: fit_def tables_fit_def dest: map_eq_imp_length_eq arg_cong [of _ _ length])

lemma field_locals: "i < length (en_locals G) \<Longrightarrow> keeps G (\<lambda>l. type_ok G (li_ty l)) (field_at g_locals i)"
proof (rule keeps_field)
  fix g assume i: "i < length (en_locals G)" and g: "fit G g"
  have "map li_ty (g_locals g) ! i = en_locals G ! i" "list_all (type_ok G) (en_locals G)"
    using g by (simp_all add: fit_def tables_fit_def)
  with i fit_locals [OF g] show "i < length (g_locals g) \<and> type_ok G (li_ty (g_locals g ! i))"
    by (simp add: list_all_length)
qed

lemma field_storage: "i < length (en_locals G) \<Longrightarrow> keeps G home_ok (field_at g_local_storage i)"
  by (rule keeps_field) (auto simp: fit_def locals_fit_def list_all_length)

lemma field_active: "i < length (en_locals G) \<Longrightarrow> keeps G (\<lambda>_. True) (field_at g_local_active i)"
  by (rule keeps_field) (auto simp: fit_def)

lemma field_starts: "i < length (en_locals G) \<Longrightarrow> keeps G (\<lambda>_. True) (field_at g_local_starts i)"
  by (rule keeps_field) (auto simp: fit_def locals_fit_def)

lemma field_ends: "i < length (en_locals G) \<Longrightarrow> keeps G (\<lambda>_. True) (field_at g_local_ends i)"
  by (rule keeps_field) (auto simp: fit_def locals_fit_def)

lemma field_globals: "i < length (en_globals G) \<Longrightarrow> keeps G (\<lambda>_. True) (field_at g_globals i)"
  by (rule keeps_field) (auto simp: fit_def tables_fit_def)

lemma field_used: "i < ALLOCATABLE_REGS \<Longrightarrow> keeps G (\<lambda>_. True) (field_at g_used i)"
  by (rule keeps_field) (auto simp: fit_def)

lemma field_scalar_used: "i < ALLOCATABLE_SCALAR_REGS \<Longrightarrow> keeps G (\<lambda>_. True) (field_at g_scalar_used i)"
  by (rule keeps_field) (auto simp: fit_def)

lemma field_functions:
  assumes "i < length (en_functions G)"
  shows "keeps G (\<lambda>_. True) (field_at g_function_labels i)" "keeps G (\<lambda>_. True) (field_at g_function_names i)"
    "keeps G (\<lambda>_. True) (field_at g_function_param_shapes i)"
    "keeps G (\<lambda>_. True) (field_at g_function_return_shapes i)"
  by (rule keeps_field, use assms in \<open>simp add: fit_def tables_fit_def\<close>)+

lemmas keeps_fields = field_locals field_storage field_active field_starts field_ends field_globals
  field_used field_scalar_used field_functions

section \<open>Lines, registers and homes\<close>

lemma fit_update [simp]:
  "fit G (g\<lparr>g_assembly := ls\<rparr>) = fit G g" "fit G (g\<lparr>g_next_label := k\<rparr>) = fit G g"
  "fit G (g\<lparr>g_peak_vector_regs := k\<rparr>) = fit G g" "fit G (g\<lparr>g_protected := ps\<rparr>) = fit G g"
  "fit G (g\<lparr>g_current_guard := c\<rparr>) = fit G g" "fit G (g\<lparr>g_mask_stack := ms\<rparr>) = fit G g"
  "fit G (g\<lparr>g_mask_stack := ms, g_current_guard := c\<rparr>) = fit G g"
  "fit G (g\<lparr>g_controls := cs\<rparr>) = fit G g" "fit G (g\<lparr>g_switch_labels := ss\<rparr>) = fit G g"
  "fit G (g\<lparr>g_current_function := f\<rparr>) = fit G g"
  "length us = ALLOCATABLE_REGS \<Longrightarrow> fit G g \<Longrightarrow> fit G (g\<lparr>g_used := us\<rparr>)"
  "length us = ALLOCATABLE_SCALAR_REGS \<Longrightarrow> fit G g \<Longrightarrow> fit G (g\<lparr>g_scalar_used := us\<rparr>)"
  "length us = length (en_locals G) \<Longrightarrow> fit G g \<Longrightarrow> fit G (g\<lparr>g_local_active := us\<rparr>)"
  by (simp_all add: fit_def tables_fit_def)

lemma fit_lengths: "fit G g \<Longrightarrow> length (g_used g) = ALLOCATABLE_REGS"
  "fit G g \<Longrightarrow> length (g_scalar_used g) = ALLOCATABLE_SCALAR_REGS"
  "fit G g \<Longrightarrow> length (g_local_active g) = length (en_locals G)" "fit G g \<Longrightarrow> \<not> g_checks g"
  by (simp_all add: fit_def tables_fit_def)

lemma keeps_push: "keeps G (\<lambda>_. True) (push_line l)"
  by (simp add: push_line_def keeps_modify)

lemma keeps_emit:
  "keeps G (\<lambda>_. True) (text_line s)" "keeps G (\<lambda>_. True) (label_line s)"
  "keeps G (\<lambda>_. True) (raw_instr m os)" "keeps G (\<lambda>_. True) (emit_instr m os)"
  "keeps G (\<lambda>_. True) (guarded_instr p inverted m os)"
  unfolding text_line_def label_line_def raw_instr_def emit_instr_def guarded_instr_def
  by (rule keeps_control keeps_push keeps_read)+

lemma keeps_new_label: "keeps G (\<lambda>_. True) (new_label stem)"
  unfolding new_label_def by (rule keeps_control keeps_read keeps_modify | simp)+

lemma keeps_peak: "keeps G (\<lambda>_. True) update_peak_vector_regs"
  unfolding update_peak_vector_regs_def by (rule keeps_modify) simp_all

lemma find_unused: "first_unused us = Some r \<Longrightarrow> r < length us"
  by (auto simp: first_unused_def find_Some_iff)

lemma keeps_alloc: "keeps G (\<lambda>r. r < ALLOCATABLE_REGS) (alloc_reg sp)"
proof -
  have "keeps G (\<lambda>x. case x of None \<Rightarrow> True | Some r \<Rightarrow> r < ALLOCATABLE_REGS) (gets (first_unused \<circ> g_used))"
    by (rule keeps_gets) (auto simp: fit_lengths dest: find_unused split: option.split)
  then show ?thesis
    unfolding alloc_reg_def
    by (rule keeps_bind) (auto intro!: keeps_control keeps_modify keeps_peak
        simp: fit_lengths as_u8_def ALLOCATABLE_REGS_def split: option.splits)
qed

lemma keeps_set_used: "r < ALLOCATABLE_REGS \<Longrightarrow> keeps G (\<lambda>_. True) (set_used r b)"
  unfolding set_used_def
  by (intro keepsI) (auto simp: mbind_def gets_def lift_def Codegen_Alloc.set_at_def index_at_def modify_def fit_lengths)

lemma keeps_set_scalar: "r < ALLOCATABLE_SCALAR_REGS \<Longrightarrow> keeps G (\<lambda>_. True) (set_scalar_used r b)"
  unfolding set_scalar_used_def
  by (intro keepsI) (auto simp: mbind_def gets_def lift_def Codegen_Alloc.set_at_def index_at_def modify_def fit_lengths)

lemma keeps_set_active: "i < length (en_locals G) \<Longrightarrow> keeps G (\<lambda>_. True) (set_active i b)"
  unfolding set_active_def
  by (intro keepsI) (auto simp: mbind_def gets_def lift_def Codegen_Alloc.set_at_def index_at_def modify_def fit_lengths)

lemma keeps_assert: "keeps G (\<lambda>_. True) (debug_assert message c)"
  by (simp add: keeps_def debug_assert_def fit_lengths)

lemma keeps_free: "r < ALLOCATABLE_REGS \<Longrightarrow> keeps G (\<lambda>_. True) (free_reg r)"
  unfolding free_reg_def using keeps_set_used [of r G False]
  by (intro keeps_then keeps_assert) (simp add: set_used_def)

lemma keeps_release: "value_ok v \<Longrightarrow> keeps G (\<lambda>_. True) (release v)"
  unfolding release_def by (rule keeps_only_if) (simp add: value_ok_def keeps_free)

lemma keeps_protect: "keeps G (\<lambda>_. True) (protect v)" "keeps G (\<lambda>_. True) (unprotect v)"
  unfolding protect_def unprotect_def by (rule keeps_control keeps_assert keeps_modify | simp)+

lemmas keeps_basic = keeps_emit keeps_new_label keeps_alloc keeps_free keeps_release keeps_protect keeps_peak
  keeps_set_used keeps_set_scalar keeps_set_active keeps_assert keeps_push

lemma keeps_retire: "i < length (en_locals G) \<Longrightarrow> keeps G (\<lambda>_. True) (retire point i)"
  unfolding retire_def
  by (rule keeps_control keeps_fields keeps_basic | assumption | simp)+

lemma field_at_run: "i < length (f g) \<Longrightarrow> mbind (field_at f i) k g = k (f g ! i) g"
  by (simp add: field_at_def mbind_def gets_def lift_def index_at_def)

lemma read_run: "mbind (gets f) k g = k (f g) g" "mbind (lift r) k' g = rbind r (\<lambda>x. k' x g)"
  by (auto simp: mbind_def gets_def lift_def rbind_assoc)

lemma keeps_activate:
  assumes i: "i < length (en_locals G)"
  shows "keeps G (\<lambda>_. True) (activate point i)"
proof (rule keepsI)
  fix g assume g: "fit G g"
  let ?take = "mbind (field_at g_local_storage i) (\<lambda>home.
         mthen (case home of
                  Some (St_Vector reg) \<Rightarrow>
                    mbind (field_at g_used reg) (\<lambda>used.
                    if used
                    then mbind (field_at g_locals i) (\<lambda>l.
                           fails (li_span l) ''internal error: overlapping vector-register allocation'')
                    else set_used reg True)
                | Some (St_Scalar reg) \<Rightarrow>
                    mbind (field_at g_scalar_used reg) (\<lambda>used.
                    if used
                    then mbind (field_at g_locals i) (\<lambda>l.
                           fails (li_span l) ''internal error: overlapping scalar-register allocation'')
                    else set_scalar_used reg True)
                | _ \<Rightarrow> ret ())
           (set_active i True))"
  have homes: "keeps G (\<lambda>_. True) ?take"
    using i by - (rule keeps_control keeps_fields keeps_basic | assumption | simp)+
  have "i < length (g_local_active g)" "i < length (g_local_starts g)" "i < length (g_local_ends g)"
    "g_local_starts g ! i \<noteq> None \<longrightarrow> g_local_ends g ! i \<noteq> None"
    using g i by (auto simp: fit_def locals_fit_def)
  with homes g show "okres (\<lambda>(x, h). True \<and> fit G h) (activate point i g)"
    unfolding activate_def
    by (auto simp: field_at_run read_run keeps_def instant_def index_at_def unwrap_def ret_def split: option.split)
qed

lemma keeps_advance: "keeps G (\<lambda>_. True) (advance_allocation point)"
proof -
  have "keeps G (\<lambda>n. n = length (en_locals G)) (gets (length \<circ> g_local_active))"
    by (rule keeps_gets) (simp add: fit_lengths)
  then show ?thesis
    unfolding advance_allocation_def
    by (rule keeps_bind) (auto intro!: keeps_then keeps_each keeps_retire keeps_activate keeps_peak)
qed

section \<open>Access to locals and memory\<close>

lemma keeps_address_offset: "i < length (en_locals G) \<Longrightarrow> keeps G value_ok (local_address_offset i extra sp)"
  unfolding local_address_offset_def
  by (rule keeps_control keeps_fields keeps_basic keeps_read | assumption | simp)+

lemma keeps_local_address: "i < length (en_locals G) \<Longrightarrow> keeps G value_ok (local_address i sp)"
  unfolding local_address_def by (rule keeps_address_offset)

lemma keeps_no_storage: "keeps G P (no_storage sp)"
  unfolding no_storage_def by (rule keeps_fails)

lemma keeps_store_local: "i < length (en_locals G) \<Longrightarrow> keeps G (\<lambda>_. True) (store_local i source sp)"
  unfolding store_local_def
  by (rule keeps_control keeps_fields keeps_basic keeps_local_address keeps_no_storage | assumption | simp)+

lemma keeps_load_from: "keeps G value_ok a \<Longrightarrow> keeps G value_ok (load_from a sp)"
  unfolding load_from_def
  by (rule keeps_control keeps_basic | assumption | simp)+

lemma keeps_store_to: "keeps G value_ok a \<Longrightarrow> keeps G (\<lambda>_. True) (store_to a source)"
  unfolding store_to_def
  by (rule keeps_control keeps_basic | assumption | simp)+

text \<open>The locals an lvalue is itself.\<close>

definition local_in :: "typing \<Rightarrow> lvalue \<Rightarrow> bool" where
  "local_in G l \<longleftrightarrow> (case l of LV_Local i \<Rightarrow> i < length (en_locals G) | _ \<Rightarrow> True)"

lemma keeps_load_lvalue: "local_in G l \<Longrightarrow> keeps G value_ok a \<Longrightarrow> keeps G value_ok (load_lvalue l a sp)"
  unfolding load_lvalue_def
  by (rule keeps_control keeps_fields keeps_basic keeps_load_from keeps_no_storage | assumption
      | simp add: local_in_def)+

lemma keeps_store_lvalue: "local_in G l \<Longrightarrow> keeps G value_ok a \<Longrightarrow> keeps G (\<lambda>_. True) (store_lvalue l a source sp)"
  unfolding store_lvalue_def
  by (rule keeps_control keeps_fields keeps_basic keeps_store_to keeps_store_local | assumption
      | simp add: local_in_def)+

section \<open>Operators\<close>

abbreviation reg_ok :: "nat \<Rightarrow> bool" where
  "reg_ok r \<equiv> r < ALLOCATABLE_REGS"

lemma keeps_compare: "keeps G reg_ok (materialize_compare m l r k sp)"
  unfolding materialize_compare_def by (rule keeps_control keeps_basic | assumption | simp)+

lemma keeps_div_mod: "keeps G reg_ok (signed_div_mod op l r sp)"
  unfolding signed_div_mod_def by (rule keeps_control keeps_basic | assumption)+

lemma keeps_shift: "keeps G reg_ok (arithmetic_shift_right l r sp)"
  unfolding arithmetic_shift_right_def by (rule keeps_control keeps_basic | assumption)+

lemma keeps_three: "keeps G reg_ok (three_address m l r sp)"
  unfolding three_address_def by (rule keeps_control keeps_basic | assumption)+

lemma keeps_relational: "keeps G reg_ok (relational op l r ty sp)"
  unfolding relational_def by (rule keeps_control keeps_basic keeps_compare | assumption)+

lemma keeps_emit_binary:
  assumes "op \<notin> {B_LogicalAnd, B_LogicalOr, B_Comma}"
  shows "keeps G reg_ok (emit_binary op l r ty sp)"
proof -
  have "op \<in> {B_Add, B_Sub, B_Mul, B_BitAnd, B_BitOr, B_BitXor, B_Shl} \<or> op = B_Div \<or> op = B_Mod \<or> op = B_Shr
    \<or> op = B_Eq \<or> op = B_Ne \<or> op \<in> {B_Lt, B_Le, B_Gt, B_Ge}"
    using assms by (cases op) simp_all
  then show ?thesis
    unfolding emit_binary_def
    by - (rule keeps_if keeps_compare keeps_div_mod keeps_shift keeps_three keeps_relational | blast)+
qed

end
