(* ===== verification/Codegen_Total.thy ===== *)
theory Codegen_Total
  imports Codegen_Keeps
begin

text \<open>
  The code generator does not panic on the trees of an accepted program, in a build without
  debug assertions: expressions, statements, functions and programs by induction over well
  typed trees. What remains are diagnostics and sizes of more than 64 bits.
\<close>

section \<open>Parts of expressions\<close>

lemma keeps_values:
  assumes "list_all (keeps G value_ok) cs"
  shows "keeps G (\<lambda>vs. length vs = length cs \<and> list_all value_ok vs) (expr_values cs)"
proof -
  have "keeps G (\<lambda>vs. length vs = length cs \<and> list_all value_ok vs) (protected_values cs)"
    using assms
  proof (induction cs)
    case Nil
    then show ?case by (simp add: keeps_ret)
  next
    case (Cons c cs)
    then have c: "keeps G value_ok c"
      and cs: "keeps G (\<lambda>vs. length vs = length cs \<and> list_all value_ok vs) (protected_values cs)"
      by simp_all
    show ?case
      unfolding protected_values.simps
      by (rule keeps_control keeps_basic c cs | simp)+
  qed
  then show ?thesis
    unfolding expr_values_def
    by (rule keeps_bind) (rule keeps_control keeps_each keeps_basic | assumption | simp)+
qed

lemma keeps_argument: "list_all (keeps G value_ok) cs \<Longrightarrow> i < length cs \<Longrightarrow> keeps G value_ok (argument cs i)"
  unfolding argument_def
  by (rule keeps_bind [where Q = "keeps G value_ok"], rule keeps_lift) (simp_all add: index_at_def list_all_length)

lemma keeps_operands:
  assumes "keeps G value_ok l" "keeps G value_ok r"
  shows "keeps G (\<lambda>(a, b). value_ok a \<and> value_ok b) (operands l r)"
  unfolding operands_def
  by (rule keeps_bind, rule assms, rule keeps_then, rule keeps_basic, rule keeps_bind, rule assms)
    (rule keeps_control keeps_basic | simp)+

lemma keeps_scaled: "value_ok v \<Longrightarrow> keeps G value_ok (scaled k v sp)"
  unfolding scaled_def by (rule keeps_control keeps_basic | assumption | simp)+

lemma keeps_into:
  "list_all value_ok vs \<Longrightarrow> keeps G (\<lambda>v. v_owned v \<and> value_ok v) (into_new m os vs sp)"
  unfolding into_new_def
  by (rule keeps_control keeps_basic keeps_each | simp add: list_all_iff)+

lemma keeps_into_value: "list_all value_ok vs \<Longrightarrow> keeps G value_ok (into_new m os vs sp)"
  by (rule keeps_weaken [OF keeps_into]) simp_all

lemma keeps_immediate: "keeps G value_ok (load_immediate k sp)"
  unfolding load_immediate_def by (rule keeps_into_value) simp

lemma keeps_set_guard: "keeps G (\<lambda>_. True) (set_guard c)"
  unfolding set_guard_def by (rule keeps_modify) simp_all

lemma keeps_is_uniform: "i < length (en_locals G) \<Longrightarrow> keeps G (\<lambda>_. True) (local_is_uniform i)"
  unfolding local_is_uniform_def by (rule keeps_bind, rule keeps_fields, assumption, rule keeps_ret, rule TrueI)

lemma keeps_guarded_write:
  assumes "i < length (en_locals G)" "keeps G P m"
  shows "keeps G P (guarded_write stem i m)"
  unfolding guarded_write_def uniform_write_def
  by (rule keeps_control keeps_is_uniform keeps_basic keeps_read keeps_set_guard assms | assumption)+

lemma keeps_guarded_target:
  "local_in G l \<Longrightarrow> keeps G P m \<Longrightarrow> keeps G P (guarded_target stem l m)"
  unfolding guarded_target_def by (rule keeps_lvalue) (auto simp: local_in_def intro: keeps_guarded_write)

section \<open>Declarations\<close>

lemma keeps_store_words: "i < length (en_locals G) \<Longrightarrow> keeps G (\<lambda>_. True) (store_words i ws k sp)"
  unfolding store_words_def
  by (rule keeps_each | rule keeps_control keeps_basic keeps_address_offset | assumption)+

lemma keeps_store_word: "i < length (en_locals G) \<Longrightarrow> keeps G (\<lambda>_. True) (store_word i k r sp)"
  unfolding store_word_def by (rule keeps_control keeps_basic keeps_address_offset | assumption)+

definition init_keeps :: "typing \<Rightarrow> init_code \<Rightarrow> bool" where
  "init_keeps G init \<longleftrightarrow> (\<forall>c. init = Some (Inl c) \<longrightarrow> keeps G value_ok c)"

lemma init_keeps_simps [simp]:
  "init_keeps G None" "init_keeps G (Some (Inr ws))" "init_keeps G (Some (Inl c)) \<longleftrightarrow> keeps G value_ok c"
  by (simp_all add: init_keeps_def)

lemma keeps_sum:
  "(\<And>a. x = Inl a \<Longrightarrow> keeps G P (f a)) \<Longrightarrow> (\<And>a. x = Inr a \<Longrightarrow> keeps G P (f' a)) \<Longrightarrow> keeps G P (case_sum f f' x)"
  by (cases x) simp_all

lemma keeps_structs: "keeps G (\<lambda>S. S = en_structs G) (gets g_structs)"
  by (rule keeps_gets) (simp add: fit_def tables_fit_def)

lemma keeps_size: "type_ok G t \<Longrightarrow> S = en_structs G \<Longrightarrow> keeps G (\<lambda>_. True) (lift (type_size t S))"
  by (intro keeps_lift calm_type_size)

lemma keeps_declare_frame:
  assumes i: "i < length (en_locals G)" and init: "init_keeps G init"
  shows "keeps G (\<lambda>_. True) (declare_in_frame i init sp)"
proof -
  have c: "keeps G value_ok c" if "init = Some y" "y = Inl c" for y c
    using that init by (simp add: init_keeps_def)
  show ?thesis
    unfolding declare_in_frame_def
    by (rule keeps_control keeps_sum keeps_fields keeps_basic keeps_structs keeps_size keeps_local_address
        keeps_store_words keeps_store_word keeps_each i | assumption | erule (1) c)+
qed

lemma keeps_declaration:
  assumes i: "i < length (en_locals G)" and init: "init_keeps G init"
  shows "keeps G (\<lambda>_. True) (declaration_code i init sp)"
proof -
  have c: "keeps G value_ok c" if "init = Some y" "y = Inl c" for y c
    using that init by (simp add: init_keeps_def)
  have register: "keeps G (\<lambda>_. True) (declare_in_register i home init sp)"
    if home: "\<forall>r. home \<noteq> St_Frame r" for home
    unfolding declare_in_register_def
    by (rule keeps_control keeps_sum keeps_basic keeps_store_local i | erule (1) c | assumption
        | (use home in simp; fail))+
  show ?thesis
    unfolding declaration_code_def
    by (rule keeps_guarded_write [OF i], rule keeps_bind, rule field_storage [OF i], rule keeps_option,
        rule keeps_fails, rule keeps_home) (auto intro: register keeps_declare_frame [OF i init])
qed

section \<open>Expressions\<close>

lemma keeps_inc_dec:
  "local_in G l \<Longrightarrow> keeps G value_ok a \<Longrightarrow> keeps G value_ok (inc_dec_code l a inc post k sp)"
  unfolding inc_dec_code_def Let_def
  by (rule keeps_guarded_target, assumption)
    (rule keeps_control keeps_basic keeps_load_lvalue keeps_store_lvalue | assumption | simp)+

lemma keeps_unary:
  assumes "keeps G value_ok c" "op \<in> {U_Plus, U_Minus, U_BitNot, U_LogicalNot}"
  shows "keeps G value_ok (unary_code op c sp)"
  unfolding unary_code_def
  by (rule keeps_bind, rule assms, insert assms(2))
    (rule keeps_control keeps_basic keeps_into_value keeps_compare | assumption | simp)+

lemma keeps_logical:
  assumes "keeps G value_ok l" "keeps G value_ok r"
  shows "keeps G value_ok (logical_code op l r sp)"
  unfolding logical_code_def
  by (rule keeps_control keeps_basic assms | assumption | simp)+

lemma keeps_binary:
  assumes "keeps G value_ok l" "keeps G value_ok r"
  shows "keeps G value_ok (binary_code op l r ty sp)"
proof -
  have *: "op \<notin> {B_LogicalAnd, B_LogicalOr, B_Comma}" if "op \<noteq> B_Comma" "\<not> (op = B_LogicalAnd \<or> op = B_LogicalOr)"
    using that by simp
  show ?thesis
    unfolding binary_code_def
    by (rule keeps_if keeps_logical assms keeps_bind [OF keeps_operands [OF assms]] keeps_control keeps_basic
        keeps_bind [OF assms(1)] keeps_bind [OF keeps_emit_binary [OF *]] | assumption | simp)+
qed

lemma assignment_binary_ok:
  "op \<noteq> A_Assign \<Longrightarrow> okres (\<lambda>b. b \<notin> {B_LogicalAnd, B_LogicalOr, B_Comma}) (assignment_binary op)"
  by (cases op) (simp_all add: assignment_binary_def)

lemma keeps_assignment:
  assumes "local_in G l" "keeps G value_ok a" "keeps G value_ok r"
  shows "keeps G value_ok (assignment_code l a op r ty k sp)"
  unfolding assignment_code_def
  by (rule keeps_guarded_target, rule assms)
    (rule keeps_if keeps_bind [OF assms(3)] keeps_bind [OF keeps_load_lvalue [OF assms(1,2)]]
      keeps_bind [OF keeps_scaled] keeps_bind [OF keeps_lift [OF assignment_binary_ok]]
      keeps_bind [OF keeps_emit_binary] keeps_then keeps_ret
      keeps_basic keeps_store_lvalue [OF assms(1,2)] | assumption | simp)+

lemma keeps_pointer_add:
  assumes "keeps G value_ok l" "keeps G value_ok r"
  shows "keeps G value_ok (pointer_add_code l r k subtract sp)"
  unfolding pointer_add_code_def
  by (rule keeps_bind [OF keeps_operands [OF assms]], rule keeps_prod)
    (rule keeps_bind [OF keeps_scaled] keeps_into_value | simp)+

lemma keeps_pointer_diff:
  assumes "keeps G value_ok l" "keeps G value_ok r"
  shows "keeps G value_ok (pointer_diff_code l r k sp)"
  unfolding pointer_diff_code_def
  by (rule keeps_bind [OF keeps_operands [OF assms]], rule keeps_prod, rule keeps_bind [OF keeps_into])
    (rule keeps_control keeps_basic keeps_div_mod | simp add: value_ok_def)+

lemma keeps_global: "i < length (en_globals G) \<Longrightarrow> keeps G value_ok (global_address i sp)"
  unfolding global_address_def by (rule keeps_control keeps_basic keeps_fields | assumption | simp)+

lemma keeps_index_address:
  "keeps G value_ok l \<Longrightarrow> keeps G value_ok r \<Longrightarrow> keeps G value_ok (index_address l r k sp)"
  unfolding index_address_def by (rule keeps_pointer_add)

lemma keeps_member: "keeps G value_ok a \<Longrightarrow> keeps G value_ok (member_address a k sp)"
  unfolding member_address_def
  by (rule keeps_bind, assumption) (rule keeps_control keeps_into_value | simp)+

section \<open>Intrinsics\<close>

lemma keeps_index: "i < length xs \<Longrightarrow> P (xs ! i) \<Longrightarrow> keeps G P (lift (index_at xs i))"
  by (intro keeps_lift) (simp add: index_at_def)

lemma keeps_component: "value_ok v \<Longrightarrow> keeps G (\<lambda>_. True) (argb_component out component (v, shift))"
  unfolding argb_component.simps by (rule keeps_control keeps_basic | assumption)+

lemma keeps_argb:
  assumes "list_all (keeps G value_ok) cs" "length cs = 4"
  shows "keeps G value_ok (argb_code cs sp)"
proof -
  have components: "keeps G (\<lambda>_. True) (each (argb_component out component) (zip (drop 1 vs) ks))"
    if "list_all value_ok vs" for out component vs ks
    using that
    by (intro keeps_each) (auto simp: list_all_iff intro!: keeps_component simp del: argb_component.simps
        dest!: set_zip_leftD in_set_dropD)
  have alpha: "keeps G value_ok (lift (index_at vs 0))" if "length vs = 4" "list_all value_ok vs" for vs
    using that by (intro keeps_index) (auto simp: list_all_length)
  show ?thesis
    unfolding argb_code_def using assms(2)
    by - (rule keeps_bind [OF keeps_values [OF assms(1)]], elim conjE,
      (rule keeps_bind [OF alpha] keeps_bind [OF keeps_alloc] keeps_then keeps_ret keeps_basic components
        | assumption | simp)+)
qed

lemma list_three: "length xs = 3 \<Longrightarrow> \<exists>a b c. xs = [a, b, c]"
  by (auto simp: numeral_3_eq_3 length_Suc_conv)

lemma list_two: "length xs = 2 \<Longrightarrow> \<exists>a b. xs = [a, b]"
  by (auto simp: numeral_2_eq_2 length_Suc_conv)

lemma keeps_set_pixel:
  assumes "list_all (keeps G value_ok) cs" "length cs = 3"
  shows "keeps G value_ok (set_pixel_code cs sp)"
proof -
  have go: "keeps G value_ok (case vs of [x, y, colour] \<Rightarrow>
      mbind (alloc_reg sp) (\<lambda>address.
         mthen (emit_instr ''MUL'' [O_R address, O_R (v_reg y), O_Num (unat WARP_VIDEO_WIDTH)])
         (mthen (release y)
         (mthen (emit_instr ''ADD'' [O_R address, O_R address, O_R (v_reg x)])
         (mthen (release x)
         (mthen (emit_instr ''ADD'' [O_R address, O_R address, O_Num (unat WARP_VIDEO_BASE)])
         (mthen (emit_instr ''STORE'' [O_R address, O_R (v_reg colour)])
         (mthen (release colour)
         (mthen (free_reg address) (ret nothing)))))))))
     | _ \<Rightarrow> arity_panic ''set_pixel'')"
    if vs: "length vs = length cs \<and> list_all value_ok vs" for vs
  proof -
    obtain x y colour where xs: "vs = [x, y, colour]" using vs assms(2) list_three by metis
    with vs have "value_ok x" "value_ok y" "value_ok colour" by simp_all
    then show ?thesis
      unfolding xs list.case by - (rule keeps_control keeps_basic | assumption | simp)+
  qed
  show ?thesis
    unfolding set_pixel_code_def by (rule keeps_bind [OF keeps_values [OF assms(1)] go])
qed

lemma keeps_send:
  assumes "list_all (keeps G value_ok) cs" "length cs = 3"
  shows "keeps G value_ok (send_code cs)"
proof -
  have go: "keeps G value_ok (case vs of [destination, message_type, payload] \<Rightarrow>
         mthen (emit_instr ''SEND'' [O_R (v_reg destination), O_R (v_reg message_type), O_R (v_reg payload)])
         (mthen (each release vs) (ret nothing))
     | _ \<Rightarrow> arity_panic ''warp_send'')"
    if vs: "length vs = length cs \<and> list_all value_ok vs" for vs
  proof -
    obtain x y z where xs: "vs = [x, y, z]" using vs assms(2) list_three by metis
    have "keeps G (\<lambda>_. True) (each release vs)" using vs by (intro keeps_each) (auto simp: list_all_iff intro: keeps_release)
    then show ?thesis
      unfolding xs list.case by - (rule keeps_control keeps_basic | assumption | simp)+
  qed
  show ?thesis
    unfolding send_code_def by (rule keeps_bind [OF keeps_values [OF assms(1)] go])
qed

lemma keeps_try_recv:
  assumes "list_all (keeps G value_ok) cs" "length cs = 2"
  shows "keeps G value_ok (try_recv_code cs sp)"
proof -
  have "keeps G value_ok (case vs of [a, b] \<Rightarrow> f a b | _ \<Rightarrow> m)"
    if vs: "length vs = length cs \<and> list_all value_ok vs"
      and f: "\<And>a b. value_ok a \<Longrightarrow> value_ok b \<Longrightarrow> keeps G value_ok (f a b)" for vs f m
  proof -
    obtain x y where "vs = [x, y]" using vs assms(2) list_two by metis
    with vs f show ?thesis by simp
  qed
  note pair = this
  show ?thesis
    unfolding try_recv_code_def
    by (rule keeps_bind [OF keeps_values [OF assms(1)]], erule pair)
      (rule keeps_control keeps_basic | assumption | simp)+
qed

lemma keeps_broadcast:
  assumes cs: "list_all (keeps G value_ok) cs" "length cs = 2" "length args = 2"
  shows "keeps G value_ok (broadcast_code args cs sp)"
proof -
  have a: "keeps G (\<lambda>_. True) (lift (index_at args 1))" using cs(3) by (intro keeps_index) simp_all
  have c: "keeps G value_ok (argument cs 0)" "keeps G value_ok (argument cs 1)"
    using cs(1,2) by (intro keeps_argument; simp)+
  show ?thesis
    unfolding broadcast_code_def
    by (rule keeps_control keeps_basic a c | assumption | simp)+
qed

lemma keeps_shuffle:
  assumes cs: "list_all (keeps G value_ok) cs" "length cs = 2"
  shows "keeps G value_ok (shuffle_code cs sp)"
proof -
  have c: "keeps G value_ok (argument cs 0)" "keeps G value_ok (argument cs 1)"
    using cs by (intro keeps_argument; simp)+
  show ?thesis
    unfolding shuffle_code_def
    by (rule keeps_bind [OF keeps_operands [OF c]], rule keeps_prod, rule keeps_into_value) simp
qed

lemma keeps_shuffle_xor:
  assumes cs: "list_all (keeps G value_ok) cs" "length cs = 2" "length args = 2"
  shows "keeps G value_ok (shuffle_xor_code args cs sp)"
proof -
  have a: "keeps G (\<lambda>_. True) (lift (index_at args 1))" using cs(3) by (intro keeps_index) simp_all
  have c: "keeps G value_ok (argument cs 0)" using cs(1,2) by (intro keeps_argument; simp)
  show ?thesis
    unfolding shuffle_xor_code_def
    by (rule keeps_control a c keeps_into_value | assumption | simp)+
qed

lemma keeps_one:
  assumes cs: "list_all (keeps G value_ok) cs" "length cs = 1"
  shows "keeps G value_ok (ballot_code cs sp)" "keeps G value_ok (any_all_code i cs sp)"
    "keeps G value_ok (reduce_signed_code i cs sp)"
    "keeps G value_ok (mbind (argument cs 0) (\<lambda>v. into_new m [O_R (v_reg v)] [v] sp))"
proof -
  have c: "keeps G value_ok (argument cs 0)" using cs(1,2) by (intro keeps_argument; simp)
  show "keeps G value_ok (ballot_code cs sp)"
    unfolding ballot_code_def by (rule keeps_control keeps_basic c | assumption | simp)+
  show "keeps G value_ok (any_all_code i cs sp)"
    unfolding any_all_code_def by (rule keeps_control keeps_basic c | assumption | simp)+
  show "keeps G value_ok (reduce_signed_code i cs sp)"
    unfolding reduce_signed_code_def
    by (rule keeps_bind [OF c], rule keeps_bind [OF keeps_into])
      (rule keeps_control keeps_basic | assumption | simp add: value_ok_def)+
  show "keeps G value_ok (mbind (argument cs 0) (\<lambda>v. into_new m [O_R (v_reg v)] [v] sp))"
    by (rule keeps_bind [OF c]) (simp add: keeps_into_value)
qed

lemma keeps_min_max:
  assumes cs: "list_all (keeps G value_ok) cs" "length cs = 2"
  shows "keeps G value_ok (min_max_code i cs sp)"
proof -
  have c: "keeps G value_ok (argument cs 0)" "keeps G value_ok (argument cs 1)"
    using cs by (intro keeps_argument; simp)+
  have two: "keeps G (\<lambda>(a, b). value_ok a \<and> value_ok b)
      (if s then
              mbind (into_new ''XOR'' [O_R (v_reg left), O_Num SIGN_BIT] [left] sp) (\<lambda>biased_left.
              mbind (into_new ''XOR'' [O_R (v_reg right), O_Num SIGN_BIT] [right] sp) (\<lambda>biased_right.
                ret (biased_left, biased_right)))
            else ret (left, right))" if "value_ok left" "value_ok right" for s left right
    using that by - (rule keeps_if | rule keeps_bind [OF keeps_into_value] keeps_ret | simp)+
  show ?thesis
    unfolding min_max_code_def Let_def
    by (rule keeps_bind [OF keeps_operands [OF c]], rule keeps_prod, rule keeps_bind [OF two])
      (rule keeps_prod keeps_bind [OF keeps_into_value] keeps_basic keeps_control | simp)+
qed

text \<open>The number of arguments that the analysis lets an intrinsic have.\<close>

definition arity :: "intrinsic \<Rightarrow> nat" where
  "arity i =
     (if i \<in> {I_LaneId, I_VmId, I_Framebuffer, I_Flip} then 0
      else if i = I_Argb then 4
      else if i \<in> {I_SetPixel, I_Send} then 3
      else if i \<in> {I_TryRecv, I_Broadcast, I_Shuffle, I_ShuffleXor, I_MinSigned, I_MaxSigned,
                    I_MinUnsigned, I_MaxUnsigned} then 2
      else 1)"

lemma signature_arity: "list_all (\<lambda>(_, i, n, t, _). n = arity i) signatures"
  by (simp add: signatures_def arity_def)

lemma intrinsic_arity: "intrinsic_ok i args ty \<Longrightarrow> length args = arity i"
  using signature_arity
  by (fastforce simp: intrinsic_ok_def list_ex_iff list_all_iff min_max_ok_def arity_def split: list.splits if_splits)

lemma keeps_intrinsic:
  assumes cs: "list_all (keeps G value_ok) cs" "length cs = length args" and "intrinsic_ok i args ty"
  shows "keeps G value_ok (intrinsic_code i args cs sp)"
proof -
  have n: "length cs = arity i" "length args = arity i"
    using cs(2) intrinsic_arity [OF assms(3)] by simp_all
  have flip: "keeps G value_ok (mthen (raw_instr ''FLIP'' []) (ret nothing))"
    by (rule keeps_control keeps_basic | simp)+
  show ?thesis
    using n cs(1) unfolding intrinsic_code_def
    by (cases i) (simp_all add: arity_def keeps_ret keeps_into_value keeps_immediate flip keeps_argb keeps_set_pixel
        keeps_send keeps_try_recv keeps_broadcast keeps_shuffle keeps_shuffle_xor keeps_one keeps_min_max)
qed

section \<open>Conditionals\<close>

lemma keeps_jump: "keeps G value_ok c \<Longrightarrow> keeps G (\<lambda>_. True) (jump_if m c label)"
  unfolding jump_if_def by (rule keeps_control keeps_basic | assumption)+

lemma keeps_jumps:
  "keeps G value_ok c \<Longrightarrow> keeps G (\<lambda>_. True) (jump_if_zero c label)"
  "keeps G value_ok c \<Longrightarrow> keeps G (\<lambda>_. True) (jump_if_nonzero c label)"
  unfolding jump_if_zero_def jump_if_nonzero_def by (simp_all add: keeps_jump)

lemma keeps_next_mask: "keeps G (\<lambda>_. True) (next_mask sp message)"
  unfolding next_mask_def by (rule keeps_control keeps_read | simp)+

lemma keeps_masks:
  "keeps G (\<lambda>_. True) (enter_then m parent r)" "keeps G (\<lambda>_. True) (enter_else m parent)"
  "keeps G (\<lambda>_. True) (push_mask m)" "keeps G (\<lambda>_. True) (pop_mask parent)"
  unfolding enter_then_def enter_else_def push_mask_def pop_mask_def
  by (rule keeps_control keeps_basic keeps_modify | simp)+

lemma keeps_move: "value_ok v \<Longrightarrow> keeps G (\<lambda>_. True) (move_to out v)"
  unfolding move_to_def by (rule keeps_control keeps_basic | simp)+

definition out_ok :: "nat option \<Rightarrow> bool" where
  "out_ok out \<longleftrightarrow> (\<forall>r. out = Some r \<longrightarrow> r < ALLOCATABLE_REGS)"

lemma keeps_out:
  "keeps G out_ok (if void then ret None
     else mbind (alloc_reg sp) (\<lambda>out. mthen (emit_instr m (O_R out # os)) (ret (Some out))))"
  "keeps G out_ok (if void then ret None else mbind (alloc_reg sp) (\<lambda>out. ret (Some out)))"
  by (rule keeps_control keeps_basic | simp add: out_ok_def)+

lemma keeps_cheap:
  assumes "keeps G value_ok c" "keeps G value_ok t" "keeps G value_ok e"
  shows "keeps G value_ok (cheap_conditional c t e sp)"
  unfolding cheap_conditional_def by (rule keeps_control keeps_basic assms | assumption | simp)+

lemma keeps_branch:
  assumes "keeps G value_ok c" "keeps G value_ok t" "keeps G value_ok e"
  shows "keeps G value_ok (branch_conditional c t e void sp)"
  unfolding branch_conditional_def
  by (rule keeps_bind [OF keeps_out(2)] keeps_control keeps_basic keeps_jumps keeps_move assms
      | assumption | simp add: out_ok_def split: option.split)+

lemma keeps_masked:
  assumes "keeps G value_ok c" "keeps G value_ok t" "keeps G value_ok e"
  shows "keeps G value_ok (masked_conditional c t e void sp)"
  unfolding masked_conditional_def
  by (rule keeps_bind [OF keeps_out(1)] keeps_control keeps_basic keeps_read keeps_next_mask keeps_masks keeps_move assms
      | assumption | simp add: out_ok_def split: option.split)+

lemma keeps_conditional:
  assumes "keeps G value_ok c" "keeps G value_ok t" "keeps G value_ok e"
  shows "keeps G value_ok (conditional_code ce te ee c t e ty sp)"
  unfolding conditional_code_def
  by (rule keeps_if keeps_cheap keeps_bind [OF keeps_read] keeps_branch keeps_masked assms)+

section \<open>Calls\<close>

lemma keeps_collect: "(\<And>x. x \<in> set xs \<Longrightarrow> keeps G P (f x)) \<Longrightarrow> keeps G (list_all P) (collect f xs)"
proof (induction xs)
  case (Cons x xs)
  then have x: "keeps G P (f x)" and xs: "keeps G (list_all P) (collect f xs)" by simp_all
  show ?case
    unfolding collect.simps by (rule keeps_bind [OF x] keeps_bind [OF xs] keeps_ret | simp)+
qed (simp add: keeps_ret)

lemma keeps_homes:
  "(\<And>i. i \<in> set is \<Longrightarrow> i < length (en_locals G)) \<Longrightarrow> keeps G (\<lambda>_. True) (collect local_home is)"
  unfolding local_home_def
  by (rule keeps_weaken, rule keeps_collect [where P = "\<lambda>_. True"])
    (rule keeps_bind [OF field_storage] keeps_bind [OF field_locals] keeps_ret TrueI | blast)+

lemma keeps_reports:
  "keeps G (\<lambda>_. True) (report_active target hs)" "keeps G (\<lambda>_. True) (report_live target hs rs)"
  "keeps G (\<lambda>_. True) (report_frame target f)" "keeps G (\<lambda>_. True) (report_cost target f)"
  unfolding report_active_def report_live_def report_frame_def report_cost_def
  by (rule keeps_basic keeps_bind [OF keeps_read])+

lemma keeps_slots:
  "keeps G (\<lambda>_. True) (store_slot slot r)" "keeps G (\<lambda>_. True) (load_slot slot r)"
  "keeps G (\<lambda>_. True) (store_scalar_slot slot r)" "keeps G (\<lambda>_. True) (load_scalar_slot slot r)"
  "keeps G (\<lambda>_. True) (adjust_stack words down)"
  unfolding store_slot_def load_slot_def store_scalar_slot_def load_scalar_slot_def stack_address_def adjust_stack_def
  by (rule keeps_then keeps_only_if keeps_basic)+

lemma keeps_shape: "keeps G P a \<Longrightarrow> keeps G P b \<Longrightarrow> keeps G P (case_value_shape a b x)"
  by (cases x) simp_all

lemma keeps_load_parameter: "keeps G (\<lambda>_. True) (load_parameter base x)"
  unfolding load_parameter_def by (rule keeps_prod keeps_shape keeps_slots)+

lemma keeps_sequence: "keeps G (\<lambda>_. True) (call_sequence f vs shapes shape target)"
  unfolding call_sequence_def Let_def
  by (rule keeps_then keeps_slots keeps_each keeps_prod keeps_load_parameter keeps_basic keeps_only_if keeps_if)+

lemma keeps_call_result: "keeps G value_ok (call_result f sp)"
  unfolding call_result_def by (rule keeps_control keeps_basic keeps_slots | simp)+

lemma keeps_lives: "keeps G (\<lambda>l. \<forall>x. l = Some x \<longrightarrow> x \<subseteq> {..<length (en_locals G)}) (gets (\<lambda>g. g_call_live_out g q))"
  by (rule keeps_gets) (auto simp: fit_def lives_fit_def)

lemma keeps_active: "keeps G (\<lambda>us. length us = length (en_locals G)) (gets g_local_active)"
  by (rule keeps_gets) (simp add: fit_lengths)

lemma keeps_call:
  assumes f: "f < length (en_functions G)" and cs: "list_all (keeps G value_ok) cs"
  shows "keeps G value_ok (call_code f cs ty sp q)"
proof -
  have live: "i < length (en_locals G)"
    if "\<forall>x. l = Some x \<longrightarrow> x \<subseteq> {..<length (en_locals G)}" "l = Some x" "i \<in> set (sorted_list_of_set x)" for l x i
    using that by (cases "finite x") auto
  have active: "i < length (en_locals G)"
    if "length us = length (en_locals G)" "i \<in> set (filter (\<lambda>i. us ! i) [0..<length us])" for us i
    using that by simp
  have released: "keeps G (\<lambda>_. True) (each release vs)" if "length vs = length cs \<and> list_all value_ok vs" for vs
    using that by (intro keeps_each) (auto simp: list_all_iff intro: keeps_release)
  show ?thesis
    unfolding call_code_def Let_def
    by (rule keeps_bind [OF keeps_values [OF cs]] keeps_bind [OF field_functions(1) [OF f]]
        keeps_bind [OF field_functions(2) [OF f]] keeps_bind [OF field_functions(3) [OF f]]
        keeps_bind [OF field_functions(4) [OF f]] keeps_bind [OF keeps_lives] keeps_bind [OF keeps_active]
        keeps_bind [OF keeps_call_result] keeps_option keeps_fails keeps_reports keeps_sequence released
        keeps_bind [OF keeps_homes] keeps_bind [OF keeps_read] keeps_then keeps_slots keeps_ret
        | erule (2) live | erule (1) active | assumption)+
qed

section \<open>Trees\<close>

lemma expr_codes_length [simp]: "length (expr_codes p i es) = length es"
  by (induction es arbitrary: i) simp_all

lemma local_in_ok: "lv_ok G l \<Longrightarrow> local_in G l"
  by (cases l) (simp_all add: local_in_def)

lemma keeps_tree:
  shows "te_ok G e \<Longrightarrow> keeps G value_ok (expr_code p e)"
    and "kind_ok G ty k \<Longrightarrow> keeps G value_ok (kind_code p k ty sp)"
    and "list_all (te_ok G) es \<Longrightarrow> list_all (keeps G value_ok) (expr_codes p i es)"
    and "lv_ok G l \<Longrightarrow> keeps G value_ok (lvalue_address p l sp)"
    and "init_typed G init \<Longrightarrow> init_keeps G (init_code p init)"
    and "list_all straight ss \<Longrightarrow> list_all (ts_ok G T_VOID) ss \<Longrightarrow> keeps G (\<lambda>_. True) (inline_code p i ss)"
proof (induction p e and p k ty sp and p i es and p l sp and p init and p i ss
    rule: expr_code_kind_code_expr_codes_lvalue_address_init_code_inline_code.induct)
qed (auto intro!: keeps_immediate keeps_intrinsic keeps_load_lvalue keeps_unary keeps_binary keeps_conditional
      keeps_pointer_add keeps_pointer_diff keeps_assignment keeps_inc_dec keeps_call keeps_then keeps_local_address
      keeps_global keeps_index_address keeps_member keeps_declaration keeps_ret keeps_bind keeps_release local_in_ok
    dest!: init_typedI simp: unary_ok_def call_ok_def)

section \<open>Statements\<close>

lemma keeps_state:
  "keeps G (\<lambda>_. True) (push_control b c)" "keeps G (\<lambda>_. True) pop_control"
  "keeps G (\<lambda>_. True) (push_switch_labels m)" "keeps G (\<lambda>_. True) pop_switch_labels"
  unfolding push_control_def pop_control_def push_switch_labels_def pop_switch_labels_def
  by (rule keeps_modify; simp)+

lemma keeps_list:
  "(x = [] \<Longrightarrow> keeps G P a) \<Longrightarrow> (\<And>y ys. x = y # ys \<Longrightarrow> keeps G P (f y ys)) \<Longrightarrow> keeps G P (case_list a f x)"
  by (cases x) simp_all

lemma keeps_break: "keeps G (\<lambda>_. True) (break_code sp)" "keeps G (\<lambda>_. True) (continue_code sp)"
  unfolding break_code_def continue_code_def
  by (rule keeps_bind [OF keeps_read] keeps_if keeps_fails keeps_basic keeps_list)+

lemma keeps_emit_return: "keeps G (\<lambda>_. True) emit_return"
  unfolding emit_return_def by (rule keeps_bind [OF keeps_read] keeps_then keeps_only_if keeps_basic)+

lemma keeps_return:
  assumes "\<And>c. v = Some c \<Longrightarrow> keeps G value_ok c"
  shows "keeps G (\<lambda>_. True) (return_code v sp)"
  unfolding return_code_def
  by (rule keeps_then keeps_option keeps_bind [OF assms] keeps_bind [OF keeps_read] keeps_if keeps_only_if
      keeps_basic keeps_fails keeps_emit_return keeps_ret TrueI | assumption)+

lemma keeps_if_code:
  assumes "keeps G value_ok c" "keeps G (\<lambda>_. True) t" "\<And>x. e = Some x \<Longrightarrow> keeps G (\<lambda>_. True) x"
  shows "keeps G (\<lambda>_. True) (if_code ce simple c t e)"
  unfolding if_code_def predicated_code_def masked_if_code_def branch_if_code_def
  by (rule keeps_bind [OF keeps_read] keeps_bind [OF keeps_next_mask] keeps_bind [OF keeps_new_label]
      keeps_bind [OF assms(1)] keeps_then keeps_if keeps_option keeps_basic keeps_set_guard keeps_masks keeps_jumps
      keeps_ret TrueI assms | assumption)+

lemma keeps_loops:
  assumes "keeps G value_ok c" "keeps G (\<lambda>_. True) b"
  shows "keeps G (\<lambda>_. True) (while_code c b)" "keeps G (\<lambda>_. True) (do_while_code b c)"
  unfolding while_code_def do_while_code_def
  by (rule keeps_bind [OF keeps_new_label] keeps_then keeps_basic keeps_jumps keeps_state assms)+

lemma keeps_for:
  assumes "keeps G (\<lambda>_. True) init" "\<And>x. c = Some x \<Longrightarrow> keeps G value_ok x"
    "\<And>x. step = Some x \<Longrightarrow> keeps G value_ok x" "keeps G (\<lambda>_. True) b"
  shows "keeps G (\<lambda>_. True) (for_code init c step b)"
  unfolding for_code_def
  by (rule keeps_bind [OF keeps_new_label] keeps_then keeps_option keeps_basic keeps_jumps keeps_state
      keeps_bind [OF assms(3)] keeps_ret TrueI assms | assumption)+

lemma find_label_some: "sl_id l \<in> set (map fst mapped) \<Longrightarrow> okres (\<lambda>_. True) (unwrap (find_label mapped (sl_id l)))"
  by (auto simp: find_label_def unwrap_def find_None_iff split: option.split)

lemma keeps_labels:
  "keeps G (\<lambda>mapped. map fst mapped = map sl_id labels)
     (collect (\<lambda>l. mbind (new_label stem) (\<lambda>name. ret (sl_id l, name))) labels)"
proof (induction labels)
  case (Cons l labels)
  show ?case
    unfolding collect.simps
    by (rule keeps_bind [where Q = "\<lambda>x. fst x = sl_id l"])
      (rule keeps_bind [OF keeps_new_label] keeps_bind [OF Cons.IH] keeps_ret | simp)+
qed (simp add: keeps_ret)

lemma keeps_switch:
  assumes "keeps G value_ok c" "keeps G (\<lambda>_. True) b"
  shows "keeps G (\<lambda>_. True) (switch_code c b labels)"
proof -
  have found: "keeps G (\<lambda>_. True) (lift (unwrap (find_label mapped (sl_id l))))"
    if "map fst mapped = map sl_id labels" "l \<in> set labels" for mapped l
    using that by (intro keeps_lift find_label_some) simp
  have dispatch: "keeps G (\<lambda>_. True) (each (dispatch_case mapped r) labels)"
    if "map fst mapped = map sl_id labels" for mapped r
    unfolding dispatch_case_def
    by (rule keeps_each) (rule keeps_option keeps_ret TrueI keeps_bind [OF found [OF that]] keeps_then keeps_basic | assumption)+
  have default: "keeps G (\<lambda>_. True) (dispatch_default mapped end' labels)"
    if "map fst mapped = map sl_id labels" for mapped end'
    unfolding dispatch_default_def
    by (rule keeps_option keeps_bind [OF found [OF that]] keeps_basic | force simp: find_Some_iff)+
  show ?thesis
    unfolding switch_code_def
    by (rule keeps_bind [OF keeps_new_label] keeps_bind [OF keeps_labels] keeps_bind [OF assms(1)] keeps_then
        dispatch default keeps_basic keeps_state assms | assumption)+
qed

lemma keeps_case: "keeps G (\<lambda>_. True) b \<Longrightarrow> keeps G (\<lambda>_. True) (case_code i b sp)"
  unfolding case_code_def by (rule keeps_bind [OF keeps_read] keeps_option keeps_fails keeps_then keeps_basic | assumption)+

lemma keeps_point: "keeps G (\<lambda>_. True) (statement_point p s)"
  unfolding statement_point_def
  by (rule keeps_bind [OF keeps_read] keeps_option keeps_fails keeps_advance)+

lemma keeps_option_code:
  "(\<And>t. e = Some t \<Longrightarrow> te_ok G t) \<Longrightarrow> expr_option_code p e = Some c \<Longrightarrow> keeps G value_ok c"
  by (auto simp: expr_option_code_def intro: keeps_tree(1))

lemma keeps_for_init:
  assumes "\<And>i. init = Some i \<Longrightarrow> for_ok G i"
  shows "keeps G (\<lambda>_. True) (for_init_code p init)"
  using assms unfolding for_init_code_def
  by (auto intro!: keeps_ret keeps_declaration keeps_tree(5) keeps_bind [OF keeps_tree(1)] keeps_release
      intro: init_typed_some split: option.splits typed_for_init.split)

lemma keeps_statement:
  shows "ts_ok G r s \<Longrightarrow> keeps G (\<lambda>_. True) (statement_code p s)"
    and "ts_ok G r s \<Longrightarrow> keeps G (\<lambda>_. True) (body_code p s)"
    and "list_all (ts_ok G r) ss \<Longrightarrow> keeps G (\<lambda>_. True) (statements_code p i ss)"
proof (induction p s and p s and p i ss rule: statement_code_body_code_statements_code.induct)
  case (3 p e)
  then show ?case
    by (cases e) (auto simp: expr_option_code_def intro!: keeps_ret keeps_bind [OF keeps_tree(1)] keeps_release)
next
  case (6 p c t e sp)
  then show ?case
    by (auto intro!: keeps_if_code keeps_tree(1) split: option.splits)
next
  case (9 p init c step b decls sp)
  then show ?case
    by (auto intro!: keeps_for keeps_for_init elim!: keeps_option_code [rotated] split: option.splits)
qed (auto intro!: keeps_then keeps_point keeps_declaration keeps_tree keeps_return keeps_loops keeps_break
      keeps_switch keeps_case keeps_ret elim!: keeps_option_code [rotated] intro: init_typedI split: option.splits)

section \<open>Functions\<close>

lemma allocated_fits:
  assumes "allocated locals n f a"
  shows "locals_fit n (fa_storage a) (fa_starts a) (fa_ends a)" "lives_fit n (fa_call_live_out a)"
proof -
  let ?H = "allocation_of locals n f a"
  have spans: "spans_ok n (fa_starts a) (fa_ends a)" and h: "homed ?H (fa_storage a) (fa_frame_words a)"
    and homes: "\<And>i. present n (fa_starts a) i \<Longrightarrow> fa_storage a ! i \<noteq> None"
    using assms by (simp_all add: allocated_def homing_ok_def allocation_of_def)
  have "home_ok (fa_storage a ! i)" if "i < n" for i
  proof (cases "fa_storage a ! i")
    case (Some x)
    then have "proper_home ?H (fa_frame_words a) i x"
      using h that by (simp add: homed_def allocation_of_def)
    with Some show ?thesis by (cases x) (simp_all add: proper_home_def)
  qed simp
  moreover have "length (fa_storage a) = n" using h by (simp add: homed_def allocation_of_def)
  moreover have "fa_ends a ! i \<noteq> None \<and> fa_storage a ! i \<noteq> None" if "i < n" "fa_starts a ! i \<noteq> None" for i
    using spans that homes [of i] by (auto simp: spans_ok_def interval_ok_def present_def split: option.splits)
  ultimately show "locals_fit n (fa_storage a) (fa_starts a) (fa_ends a)"
    using spans unfolding locals_fit_def spans_ok_def by (simp add: list_all_length)
  show "lives_fit n (fa_call_live_out a)"
    using assms by (simp add: allocated_def lives_fit_def)
qed

lemma enter_fits:
  assumes "fit G g" "allocated locals (length (en_locals G)) f a"
  shows "fit G (enter_function f a g)"
  using assms allocated_fits [OF assms(2)] by (simp add: fit_def tables_fit_def enter_function_def)

lemma keeps_report_local: "i < length (en_locals G) \<Longrightarrow> keeps G (\<lambda>_. True) (report_local i)"
proof (rule keepsI)
  fix g assume i: "i < length (en_locals G)" and g: "fit G g"
  have "i < length (g_local_starts g)" "i < length (g_local_storage g)" "i < length (g_locals g)"
    "g_local_starts g ! i \<noteq> None \<longrightarrow> g_local_storage g ! i \<noteq> None"
    using g i fit_locals [OF g] by (auto simp: fit_def locals_fit_def)
  moreover have "okres (\<lambda>(x, h). True \<and> fit G h) (text_line s g)" for s
    using keeps_emit(1) g by (simp add: keeps_def)
  ultimately show "okres (\<lambda>(x, h). True \<and> fit G h) (report_local i g)"
    using g by (auto simp: report_local_def field_at_run read_run unwrap_def ret_def split: option.split)
qed

lemma keeps_activate_parameter:
  assumes "k < ALLOCATABLE_REGS" "i < length (en_locals G)"
  shows "keeps G (\<lambda>_. True) (activate_parameter (k, i))"
  unfolding activate_parameter_def prod.case
  by (rule keeps_bind [OF field_storage [OF assms(2)]])
    (rule keeps_then keeps_option keeps_home keeps_basic keeps_ret TrueI assms | simp)+

lemma keeps_store_parameter:
  assumes "k < ALLOCATABLE_REGS" "i < length (en_locals G)"
  shows "keeps G (\<lambda>_. True) (store_parameter sp (k, i))"
proof -
  have "as_u8 k < ALLOCATABLE_REGS" using assms(1) by (simp add: as_u8_def ALLOCATABLE_REGS_def)
  then show ?thesis
    unfolding store_parameter_def prod.case
    by - (rule keeps_bind [OF field_storage [OF assms(2)]] keeps_bind [OF keeps_local_address [OF assms(2)]]
        keeps_then keeps_option keeps_home keeps_basic keeps_ret TrueI | assumption)+
qed

lemma keeps_function_end: "keeps G (\<lambda>_. True) (function_end f)"
  unfolding function_end_def
  by (rule keeps_bind [OF keeps_read] keeps_then keeps_if keeps_only_if keeps_basic keeps_emit_return)+

lemma keeps_report_allocation: "keeps G (\<lambda>_. True) (report_allocation f)"
  using keeps_emit(1) by (simp add: keeps_def report_allocation_def)

lemma keeps_locals_count: "keeps G (\<lambda>n. n = length (en_locals G)) (gets (length \<circ> g_local_storage))"
  by (rule keeps_gets) (simp add: fit_def locals_fit_def)

lemma in_enumerate: "x \<in> set (enumerate 0 xs) \<Longrightarrow> fst x < length xs \<and> snd x \<in> set xs"
proof -
  assume "x \<in> set (enumerate 0 xs)"
  then have "fst x < length xs" "xs ! fst x = snd x" by (simp_all add: in_set_enumerate_eq)
  then show ?thesis using nth_mem [of "fst x" xs] by simp
qed

lemma keeps_body:
  assumes f: "function_typed G f"
  shows "keeps G (\<lambda>_. True) (function_body f)"
proof -
  have id: "tf_id f < length (en_functions G)" and params: "\<forall>i\<in>set (tf_params f). i < length (en_locals G)"
    "length (tf_params f) \<le> 4" and body: "tb_ok G (tf_return_type f) (tf_body f)"
    using f unfolding function_typed_def by (auto simp: list_all_iff)
  have reg: "k < ALLOCATABLE_REGS" "i < length (en_locals G)" if "(k, i) \<in> set (enumerate 0 (tf_params f))" for k i
    using in_enumerate [OF that] params by (auto simp: ALLOCATABLE_REGS_def)
  have activated: "keeps G (\<lambda>_. True) (each activate_parameter (enumerate 0 (tf_params f)))"
    by (rule keeps_each) (clarify, rule keeps_activate_parameter; erule reg)
  have stored: "keeps G (\<lambda>_. True) (each (store_parameter (tf_span f)) (enumerate 0 (tf_params f)))"
    by (rule keeps_each) (clarify, rule keeps_store_parameter; erule reg)
  have reports: "keeps G (\<lambda>_. True) (each report_local [0..<n])" if "n = length (en_locals G)" for n
    using that by (intro keeps_each keeps_report_local) simp
  have block: "keeps G (\<lambda>_. True) (block_code (tf_body f))"
    using body by (cases "tf_body f") (auto simp: block_code_def intro: keeps_statement)
  have fin: "keeps G (\<lambda>_. True) (modify (\<lambda>g. g\<lparr>g_current_function := None\<rparr>))"
    by (rule keeps_modify) simp_all
  show ?thesis
    unfolding function_body_def
    by (rule keeps_bind [OF field_functions(1) [OF id]] keeps_bind [OF keeps_locals_count] keeps_bind [OF keeps_read]
        keeps_then keeps_only_if activated stored reports block keeps_basic keeps_function_end keeps_advance
        keeps_report_allocation fin | assumption)+
qed

lemma mbind_run: "mbind m f g = rbind (m g) (\<lambda>(x, s). f x s)"
  by (simp add: mbind_def)

lemma keeps_limit:
  assumes f: "function_typed G f" and limit: "limit \<le> ALLOCATABLE_REGS"
  shows "keeps G (\<lambda>_. True) (function_with_limit f limit)"
proof (rule keepsI)
  fix g assume g: "fit G g"
  note n = fit_locals [OF g]
  have alloc: "okres (allocated (g_locals g) (length (en_locals G)) f)
      (allocate_function f (g_locals g) (length (g_locals g)) (g_data_words g) limit)"
    using allocate_done [OF f n limit, of "g_data_words g"] n by simp
  have body: "okres (\<lambda>(x, h). True \<and> fit G h) (function_body f (enter_function f a g))"
    if "allocated (g_locals g) (length (en_locals G)) f a" for a
    using keeps_body [OF f] enter_fits [OF g that] by (simp add: keeps_def)
  show "okres (\<lambda>(x, h). True \<and> fit G h) (function_with_limit f limit g)"
    unfolding function_with_limit_def mbind_run rbind_assoc
    by (rule okres_bind [OF alloc]) (simp add: mthen_def mbind_def modify_def body [simplified])
qed

text \<open>The attempts at a function: with the last limit every error is final.\<close>

lemma keeps_attempt:
  assumes f: "function_typed G f"
    and "limits \<noteq> []" "last limits \<le> MIN_LOCAL_VECTOR_REGS" "\<forall>n\<in>set limits. n \<le> ALLOCATABLE_REGS"
  shows "keeps G (\<lambda>_. True) (attempt f limits)"
  using assms(2-)
proof (induction limits)
  case (Cons limit limits)
  show ?case
  proof (rule keepsI)
    fix g assume g: "fit G g"
    have one: "okres (\<lambda>(x, h). True \<and> fit G h) (function_with_limit f limit g)"
      using keeps_limit [OF f] Cons.prems(3) g by (simp add: keeps_def)
    have more: "okres (\<lambda>(x, h). True \<and> fit G h) (attempt f limits g)" if "limit > MIN_LOCAL_VECTOR_REGS"
      using Cons that g by (cases "limits = []") (simp_all add: keeps_def)
    show "okres (\<lambda>(x, h). True \<and> fit G h) (attempt f (limit # limits) g)"
      using one more by (auto split: sum.split)
  qed
qed simp

lemma keeps_function: "function_typed G f \<Longrightarrow> keeps G (\<lambda>_. True) (function_code f)"
  unfolding function_code_def
  by (rule keeps_attempt) (auto simp: vector_limits_def MIN_LOCAL_VECTOR_REGS_def MAX_LOCAL_VECTOR_REGS_def
      ALLOCATABLE_REGS_def last_rev)

section \<open>Programs\<close>

lemma generator_fits:
  assumes "length (tp_function_names t) = length F" "length (tp_function_param_shapes t) = length F"
    "length (tp_function_return_shapes t) = length F"
    "list_all (type_ok (program_env F t) \<circ> li_ty) (tp_locals t)"
  shows "fit (program_env F t) (generator_new False t)"
  using assms
  by (simp add: fit_def tables_fit_def locals_fit_def lives_fit_def generator_new_def program_env_def list.pred_map
      list_all_length)

lemma keeps_program:
  assumes "list_all (function_typed G) (tp_functions t)" "tp_main t < length (en_functions G)"
  shows "keeps G (\<lambda>_. True) (program_code t)"
proof -
  have data: "keeps G (\<lambda>_. True) (each store_data_word ws)" for ws
    unfolding store_data_word_def by (rule keeps_each) (rule keeps_prod keeps_only_if keeps_then keeps_basic)+
  have funs: "keeps G (\<lambda>_. True) (each function_code (tp_functions t))"
    using assms(1) by (intro keeps_each keeps_function) (simp add: list_all_iff)
  show ?thesis
    unfolding program_code_def
    by (rule keeps_then keeps_only_if keeps_basic data keeps_bind [OF field_functions(1) [OF assms(2)]] funs)+
qed

lemma generate_done:
  assumes "program_typed p t"
  shows "okres (\<lambda>_. True) (generate False t)"
proof -
  obtain s where reg: "register_declarations p = Inr s"
    using assms by (cases "register_declarations p") (simp_all add: program_typed_def)
  have s: "list_all (function_typed (program_env (an_functions s) t)) (tp_functions t)"
    "tp_main t < length (an_functions s)" "tp_function_names t = map fs_name (an_functions s)"
    "tp_function_param_shapes t = map fs_param_shapes (an_functions s)"
    "tp_function_return_shapes t = map fs_return_shape (an_functions s)"
    "list_all (type_ok (program_env (an_functions s) t) \<circ> li_ty) (tp_locals t)"
    using assms unfolding program_typed_def reg by simp_all
  let ?G = "program_env (an_functions s) t"
  have "keeps ?G (\<lambda>_. True) (program_code t)"
    using s by (intro keeps_program) (simp_all add: program_env_def)
  moreover have "fit ?G (generator_new False t)" using s by (intro generator_fits) simp_all
  ultimately show ?thesis
    by (auto simp: generate_def keeps_def intro!: okres_bind)
qed

end
