(* ===== verification/Compile_Example.thy ===== *)
theory Compile_Example
  imports Asm_Correct
begin

text \<open>
  The assembly text of the smallest program, \<open>int main(void){return 0;}\<close>, as the compiler writes
  it, and that the assembler accepts it.
\<close>

definition smallest_source :: string where
  "smallest_source = ''int main(void){return 0;}''"

definition smallest_assembly :: string where
  "smallest_assembly = concat (map (\<lambda>l. l @ [newline])
     [''; generated by warpc '' @ [CHR 0xE2, CHR 0x80, CHR 0x94] @ '' Warp C v0.1.4'',
      ''.scratch r15'',
      ''entry:'',
      ''    LANEID r13'',
      ''    S_MOV_I s7, 65536'',
      ''    JMP __warpc_fn_main'',
      ''__warpc_fn_main:'',
      ''    MOV r0, 0'',
      ''    HALT'',
      ''    MOV r0, 0'',
      ''    HALT'',
      ''; allocation main: vector_peak=1/13 vector_homes=8 scalar_homes=0 spills=0 frame_words=0''])"

lemma smallest_assembles: "\<exists>p. assemble smallest_assembly = Inr p"
proof -
  have "case assemble smallest_assembly of Inl _ \<Rightarrow> False | Inr _ \<Rightarrow> True"
    by code_simp
  then show ?thesis by (cases "assemble smallest_assembly") auto
qed

end
