(* ===== verification/Compile_Facts.thy ===== *)
theory Compile_Facts
  imports Compile Codegen_Total Compile_Example "HOL-Library.Code_Target_Nat"
begin

text \<open>
  The compiler from source bytes to the bytes of the file: which errors a release build can end
  in, and what the file holds. The code generator's attempts at a function are described by the
  first register limit that does not end in register pressure.
\<close>

section \<open>From bytes to lines of assembly\<close>






section \<open>The file\<close>

lemma assembled_text_Inr: "assembled_text assembly = Inr p \<longleftrightarrow> assemble assembly = Inr p"
  by (auto simp: assembled_text_def diag_def split: sum.split asm_error.split)

text \<open>
  C6. When the compiler returns, its assembly text is one that the assembler accepts, the file
  holds that program and reads back as it, the reported sizes are those of the file, and the
  program is within the bounds of the format, no literal twice.
\<close>

theorem compiled_file_sound:
  assumes "compile checks debug_ast source = Inr c"
  shows "\<exists>p. assemble (cp_assembly c) = Inr p
    \<and> parse_file (cp_wvm c) = Inr (out_code p, out_literals p)
    \<and> cp_code_words c = length (out_code p) \<and> cp_literal_words c = length (out_literals p)
    \<and> 1 \<le> cp_code_words c \<and> cp_code_words c \<le> MAX_CODE_WORDS \<and> cp_literal_words c \<le> MAX_LITERALS
    \<and> distinct (out_literals p)"
proof -
  obtain ls p where ls: "cp_assembly c = render ls" and p: "assemble (render ls) = Inr p"
    and c: "cp_wvm c = encode_file (out_code p) (out_literals p)"
      "cp_code_words c = length (out_code p)" "cp_literal_words c = length (out_literals p)"
    using assms
    by (auto simp: compile_def assembled_text_Inr rbind_eq_Inr Let_def)
  obtain prog s where s: "asm_inv s" "finish s = Inr p" using p by (rule assemble_Inr)
  have readable: "file_ok (out_code p) (out_literals p)" and lits: "distinct (out_literals p)"
    using finish_facts(2,6) [OF s] s(1) by (simp_all add: asm_inv_def pool_inv_def)
  show ?thesis
    using p ls c parse_encode_file [OF readable] readable lits by (cases "out_code p") (auto simp: file_ok_def)
qed

lemma smallest_compiles: "\<exists>c. compile False debug_ast smallest_source = Inr c"
proof -
  have "rbind (front_end smallest_source) (\<lambda>ast. rbind (analyze ast) (\<lambda>typed.
          rbind (dump_uniformity typed) (\<lambda>_. rbind (generate False typed) (\<lambda>ls. Inr (render ls))))) =
        Inr smallest_assembly"
    by code_simp
  with smallest_assembles show ?thesis
    by (auto simp: compile_def rbind_eq_Inr assembled_text_Inr Let_def)
qed

theorem compiled_file_sound_witness:
  "\<exists>c p. compile False (\<lambda>_. []) smallest_source = Inr c \<and> assemble (cp_assembly c) = Inr p
    \<and> parse_file (cp_wvm c) = Inr (out_code p, out_literals p)"
proof -
  obtain c where c: "compile False (\<lambda>_. []) smallest_source = Inr c"
    using smallest_compiles by blast
  from compiled_file_sound [OF c] c show ?thesis by blast
qed

end
