(* ===== verification/Spec2Isabelle.thy ===== *)
theory Spec2Isabelle
  imports Asm_Roundtrip Lexer_Roundtrip Call_Graph Layout_Facts Front_Sema Switch_Labels Codegen_Limits Compile_Facts
begin

text \<open>
  The WarpVM toolchain under \<open>tools/\<close>: the assembler and disassembler of the WarpVM instruction
  set (\<open>tools/warpvm-asm\<close>) and the compiler of WarpC, a small C dialect for a warp of 32 lanes
  (\<open>tools/warpc\<close>). Paths below are relative to \<open>tools/warpvm-asm/src\<close> for the first and to
  \<open>tools/warpc/src\<close> for the second.

  \<^bold>\<open>Parts and how they interact\<close>

  Source text goes through \<open>front_end\<close> (preprocessing, the platform library, lexer, parser), the
  syntax tree through \<open>analyze\<close> (types, layouts, uniformity, inlining, call depth), the typed
  program through \<open>generate\<close> (lifetimes, liveness at calls, homes, code), the lines of assembly
  through \<open>assemble\<close>, and the words through \<open>encode_file\<close>. \<open>compile\<close> is this chain. The
  disassembler and the file reader go the other way. Each part is a function from the output of
  the one before, and the theorems compose in the same way.

  \<^item> \<open>Warp_Prelude\<close>, \<open>Rust_Text\<close>: results as sums (\<open>rbind\<close>, \<open>map_res\<close>, \<open>fold_res\<close>), the locales
    \<open>checked_step\<close> and \<open>codec\<close>, and the string operations of Rust's library that the code calls.
    A string of Rust is the list of its bytes; an operation that panics off a character boundary
    has the panic as a value.
  \<^item> \<open>Isa\<close> (isa.rs), \<open>Wvm\<close> (wvm.rs): instruction fields and the file format over \<open>u32\<close> and \<open>u8\<close>.
  \<^item> \<open>Asm_Parse\<close> (parse.rs), \<open>Assemble\<close> (assemble.rs), \<open>Disasm\<close> (disasm.rs): one definition per
    function, one equation per arm of the instruction match. The assembler's state is the record
    \<open>asm\<close>: code, literal pool, labels, pending branches.
  \<^item> \<open>Span\<close> (span.rs), \<open>Lexer\<close> (lexer.rs), \<open>Ast\<close> (ast.rs), \<open>Parser\<close> (parser.rs), \<open>Preprocess\<close> (the text
    passes of lib.rs): the lexer's state is what is left of the source with the position, the
    parser's is what is left of the token list.
  \<^item> \<open>Sema_Types\<close>, \<open>Sema_Const\<close>, \<open>Sema_Layout\<close>, \<open>Sema_Calls\<close>, \<open>Sema_Expr\<close>, \<open>Sema_Stmt\<close>, \<open>Sema\<close> (sema.rs):
    the record \<open>analyzer\<close> is the state of \<open>Analyzer\<close>; \<open>te_expr\<close> and \<open>te_stmt\<close> are its methods \<open>expr\<close>
    and \<open>statement\<close>, and every method they call has a definition of its name.
  \<^item> \<open>Codegen_Base\<close>, \<open>Codegen_Live\<close>, \<open>Codegen_Alloc\<close>, \<open>Codegen_Emit\<close>, \<open>Codegen_Expr\<close>,
    \<open>Codegen_Intrinsic\<close>, \<open>Codegen_Call\<close>, \<open>Codegen_Stmt\<close>, \<open>Codegen\<close> (codegen.rs): the record \<open>generator\<close>
    is the state of \<open>Generator\<close>; operations are computations over it (\<open>mbind\<close>, \<open>mthen\<close>).
  \<^item> \<open>Compile\<close> (lib.rs): \<open>compile\<close>.
  \<^item> \<open>Warp_Machine\<close> (\<open>runtime/src/host/cpu_interpreter.cpp\<close>): the lanes, registers, predicates,
    memory and arithmetic that the code of expressions runs on.

  \<^bold>\<open>What the lemmas show\<close>

  \<^item> \<open>Asm_Invariant\<close>, \<open>Asm_Correct\<close>: the locale \<open>asm_relation\<close> carries a relation through every
    operation of the assembler; its interpretations give the invariant of the state and that
    statements only extend it. From these: branches are patched, labels are offsets, immediates
    are stored, the file is readable, no panic on ASCII source.
  \<^item> \<open>Asm_Table\<close>, \<open>Line_Facts\<close>, \<open>Text_Facts\<close>, \<open>Asm_Roundtrip\<close>: disassembling and assembling again.
  \<^item> \<open>Lexer_Roundtrip\<close>, \<open>Parser_Correct\<close>, the second part of \<open>Preprocess\<close>: tokens come back from
    their spelling; the parser ends on every input, its cycles unfold as the source writes them
    (locales \<open>level_calls\<close>, \<open>stmt_calls\<close>); positions survive preprocessing.
  \<^item> \<open>Layout_Facts\<close>, \<open>Call_Graph\<close>: fields tile structures, globals lie in the data words, the walk
    over the calls decides the specification by chains of calls.
  \<^item> \<open>Sema_Frame\<close>, \<open>Switch_Labels\<close>: the contract of the analysis with a relation on its states
    (locales \<open>expr_contract\<close>, \<open>stmt_contract\<close>), interpreted on what is restored and what grows and
    on the labels of switches.
  \<^item> \<open>Typing\<close>, \<open>Typed_Expr\<close>, \<open>Typed_Stmt\<close>, \<open>Sema_Sound\<close>, \<open>Sema_Equations\<close>, \<open>Front_Sema\<close>: typing rules for
    the typed tree, written apart from the analysis, and that accepted programs satisfy them;
    the recursion equations of the source, inline expansion included.
  \<^item> \<open>Codegen_Meaning\<close>, \<open>Codegen_Exec\<close>, \<open>Codegen_Values\<close>, \<open>Codegen_Words\<close>, \<open>Codegen_Ops\<close>,
    \<open>Codegen_Correct\<close>, \<open>Codegen_Kinds\<close>, \<open>Codegen_Operators\<close>, \<open>Codegen_Lanes\<close>, \<open>Codegen_Lists\<close>,
    \<open>Codegen_Jumps\<close>, \<open>Codegen_Logic\<close>, \<open>Codegen_Sound\<close>: what expressions mean without a machine, and
    that the emitted lines compute it. \<open>supported\<close> excludes assignments, increments, calls,
    stores, and the conditionals that need a mask.
  \<^item> \<open>Codegen_Live_Facts\<close>: the fixpoints of the liveness analysis end within their bounds.
  \<^item> \<open>Codegen_Alloc_Facts\<close>: homes of locals whose lifetimes overlap are apart.
  \<^item> \<open>Codegen_Keeps\<close>, \<open>Codegen_Total\<close>: on well typed programs no operation of the generator panics.
  \<^item> \<open>Compile_Example\<close>, \<open>Compile_Facts\<close>: the pipeline as a whole, with the smallest program as an
    example.
  \<^item> \<open>Codegen_Limits\<close>: the attempts at a function in their order, and three places where the
    generated code falls short of the language: selections under a mask, parameters whose address
    is taken, and frames of more than 127 words for each lane.

  \<^bold>\<open>Machine integers, panics and bounds\<close>

  Instruction words, literals and constants are words of their width. Sizes that the analysis
  computes in \<open>usize\<close> go through \<open>mul_usize\<close> and \<open>add_usize\<close>, whose overflow is the panic of a build
  with overflow checks (\<open>benign\<close> counts it with the diagnostics); sizes of the code generator are
  unbounded numbers, which the check of the frame against the memory bounds for the frame of each
  function. An index out of range, an \<open>unwrap\<close> or \<open>expect\<close> of nothing and a failed debug assertion
  are panics as values (\<open>CPanic\<close>); \<open>g_checks\<close> of the generator says whether debug assertions are
  on.

  Loops are structural recursion or recursion with a measure. Where the source recurs through
  itself over a list of tokens, the recursive call is made on a shorter list and \<open>OutOfFuel\<close>
  marks the rest, which \<open>parse_total\<close> and \<open>parser_equations\<close> show is never taken. The walk over
  the calls has one level more than there are functions (\<open>call_graph_decided\<close>), inline expansion
  has one level, because a candidate contains no call (\<open>analysis_equations\<close>), and each fixpoint of
  the liveness analysis has as many rounds as the function body has nodes, because each round but
  the last adds a local that the body mentions (\<open>call_liveness_returns\<close>).

  Addresses of tree nodes, by which the generator keys two of its tables, are paths from the
  function body.

  \<^bold>\<open>Not modelled\<close>

  The command lines (\<open>main.rs\<close>, \<open>bin/as.rs\<close>, \<open>bin/dis.rs\<close>) are argument loops and file access around
  \<open>compile\<close>, \<open>assemble\<close> and \<open>disassemble\<close>. The derived \<open>Debug\<close> text of the syntax tree is a parameter of
  \<open>compile\<close>. Of the runtime (C++ and CUDA) only the part of the host interpreter that the code of
  expressions needs is modelled. The meaning of statements, assignments and calls is not
  stated, so the code of statements has no correctness theorem: what is proved of it is that it
  is produced, with homes that do not collide.
\<close>

end
